(* ===== verification/Prelude.thy ===== *)
theory Prelude
  imports Main "HOL-Library.List_Lexorder" "HOL-Library.Char_ord"
begin

text \<open>
  Shared ground of the development. The services of the repository keep their state in
  PostgreSQL tables and run every operation inside one transaction, so the model of an
  operation is a function from the tables (a record) to either an error or a result
  paired with the new tables: an \<open>Inl\<close> is an exception that left the transaction, which
  rolls back, so the caller keeps the tables it had. A table is a list of rows (the
  order is the insertion order) or, where the code reads it by primary key only, a map.
  This theory holds the types every component uses, the table operations and the lemmas
  about them, and the collections the component proofs draw on.
\<close>

type_synonym uuid = string

text \<open>Instants and intervals are microseconds, the resolution of PostgreSQL timestamps.\<close>

type_synonym timestamp = int

definition seconds :: "int \<Rightarrow> int" where
  "seconds n = n * 1000000"

text \<open>
  What the database can raise: a violated constraint, or a lost connection and the like
  (both are \<open>SQLAlchemyError\<close>s for the code).
\<close>

datatype sql_error = IntegrityError | OperationalError

named_theorems table_simps "how table operations change lookups and keys"
named_theorems result_simps "inversion of results of sum type"

subsection \<open>Results\<close>

definition is_ok :: "'e + 'a \<Rightarrow> bool" where
  "is_ok r = (case r of Inl e \<Rightarrow> False | Inr a \<Rightarrow> True)"

lemma is_ok_simps [simp]: "\<not> is_ok (Inl e)" "is_ok (Inr a)"
  by (simp_all add: is_ok_def)

lemma case_sum_Inr_iff [result_simps]:
  "(case r of Inl e \<Rightarrow> Inl (f e) | Inr a \<Rightarrow> g a) = Inr b \<longleftrightarrow> (\<exists>a. r = Inr a \<and> g a = Inr b)"
  by (cases r) auto

lemma case_option_Inr_iff [result_simps]:
  "(case r of None \<Rightarrow> Inl e | Some a \<Rightarrow> g a) = Inr b \<longleftrightarrow> (\<exists>a. r = Some a \<and> g a = Inr b)"
  by (cases r) auto

lemma case_error_Inr_iff [result_simps]:
  "(case r of None \<Rightarrow> g | Some e \<Rightarrow> Inl (f e)) = Inr b \<longleftrightarrow> r = None \<and> g = Inr b"
  by (cases r) auto

lemma if_Inl_Inr_iff [result_simps]:
  "(if c then Inl e else r) = Inr b \<longleftrightarrow> \<not> c \<and> r = Inr b"
  by auto

subsection \<open>Tables as lists of rows\<close>

text \<open>\<open>UPDATE ... WHERE\<close>: every row that satisfies the condition is rewritten.\<close>

definition update_where :: "('r \<Rightarrow> bool) \<Rightarrow> ('r \<Rightarrow> 'r) \<Rightarrow> 'r list \<Rightarrow> 'r list" where
  "update_where P f t = map (\<lambda>r. if P r then f r else r) t"

text \<open>\<open>INSERT\<close> under a unique key: the table is unchanged when the key is taken.\<close>

definition has_key :: "('r \<Rightarrow> 'k) \<Rightarrow> 'k \<Rightarrow> 'r list \<Rightarrow> bool" where
  "has_key key k t \<longleftrightarrow> k \<in> set (map key t)"

definition row_of :: "('r \<Rightarrow> 'k) \<Rightarrow> 'k \<Rightarrow> 'r list \<Rightarrow> 'r option" where
  "row_of key k t = find (\<lambda>r. key r = k) t"

definition unique_key :: "('r \<Rightarrow> 'k) \<Rightarrow> 'r list \<Rightarrow> bool" where
  "unique_key key t \<longleftrightarrow> distinct (map key t)"

lemma find_SomeD: "find P xs = Some x \<Longrightarrow> P x \<and> x \<in> set xs"
  by (induction xs) (auto split: if_splits)

lemma find_append: "find P (xs @ ys) = (case find P xs of None \<Rightarrow> find P ys | Some x \<Rightarrow> Some x)"
  by (induction xs) auto

lemma find_None_set: "find P xs = None \<longleftrightarrow> (\<forall>x \<in> set xs. \<not> P x)"
  by (auto simp: find_None_iff)

lemma row_of_SomeD: "row_of key k t = Some r \<Longrightarrow> key r = k \<and> r \<in> set t"
  by (auto simp: row_of_def dest: find_SomeD)

lemma row_of_None_iff: "row_of key k t = None \<longleftrightarrow> \<not> has_key key k t"
  by (auto simp: row_of_def has_key_def find_None_iff)

lemma row_of_Nil [simp]: "row_of key k [] = None"
  by (simp add: row_of_def)

lemma row_of_Cons: "row_of key k (r # t) = (if key r = k then Some r else row_of key k t)"
  by (simp add: row_of_def)

lemma row_of_append [table_simps]:
  "row_of key k (t @ [r]) =
     (case row_of key k t of Some q \<Rightarrow> Some q | None \<Rightarrow> if key r = k then Some r else None)"
  by (auto simp: row_of_def find_append split: option.splits)

lemma row_of_unique:
  assumes "unique_key key t" "r \<in> set t"
  shows "row_of key (key r) t = Some r"
  using assms by (induction t) (auto simp: unique_key_def row_of_Cons)

lemma length_update_where [simp]: "length (update_where P f t) = length t"
  by (simp add: update_where_def)

lemma update_where_append [simp]:
  "update_where P f (s @ t) = update_where P f s @ update_where P f t"
  by (simp add: update_where_def)

lemma update_where_Nil [simp]: "update_where P f [] = []"
  by (simp add: update_where_def)

lemma update_where_Cons: "update_where P f (r # t) = (if P r then f r else r) # update_where P f t"
  by (simp add: update_where_def)

lemma update_where_none: "(\<And>r. r \<in> set s \<Longrightarrow> \<not> P r) \<Longrightarrow> update_where P f s = s"
  by (induction s) (auto simp: update_where_Cons)

lemma map_update_where_same [table_simps]:
  "(\<And>r. g (f r) = g r) \<Longrightarrow> map g (update_where P f t) = map g t"
  by (simp add: update_where_def comp_def if_distrib cong: if_cong)

lemma unique_key_update_where [table_simps]:
  "(\<And>r. key (f r) = key r) \<Longrightarrow> unique_key key (update_where P f t) = unique_key key t"
  by (simp add: unique_key_def map_update_where_same)

lemma unique_key_append [table_simps]:
  "unique_key key (t @ [r]) \<longleftrightarrow> unique_key key t \<and> \<not> has_key key (key r) t"
  by (auto simp: unique_key_def has_key_def)

lemma unique_key_Nil [simp]: "unique_key key []"
  by (simp add: unique_key_def)

lemma row_of_update_where [table_simps]:
  assumes "\<And>r. key (f r) = key r"
  shows "row_of key k (update_where P f t) =
    map_option (\<lambda>r. if P r then f r else r) (row_of key k t)"
  using assms by (induction t) (auto simp: row_of_Cons update_where_Cons)

lemma has_key_update_where [table_simps]:
  "(\<And>r. key (f r) = key r) \<Longrightarrow> has_key key k (update_where P f t) = has_key key k t"
  by (simp add: has_key_def map_update_where_same)

lemma has_key_append [table_simps]:
  "has_key key k (t @ [r]) \<longleftrightarrow> has_key key k t \<or> key r = k"
  by (auto simp: has_key_def)

lemma in_update_whereE:
  assumes "r \<in> set (update_where P f t)"
  obtains q where "q \<in> set t" "r = (if P q then f q else q)"
  using assms by (auto simp: update_where_def)

lemma filter_update_where_none:
  assumes "\<And>r. P r \<Longrightarrow> \<not> Q r" "\<And>r. P r \<Longrightarrow> \<not> Q (f r)"
  shows "filter Q (update_where P f t) = filter Q t"
  using assms by (induction t) (auto simp: update_where_Cons)

subsection \<open>Runs of a step function over a list of inputs\<close>

text \<open>
  \<open>run_steps step s xs\<close> feeds the inputs to a step function one after another; an input the
  step refuses (\<open>None\<close>, an operation that raised) leaves the state as it was.
\<close>

fun run_steps :: "('s \<Rightarrow> 'x \<Rightarrow> 's) \<Rightarrow> 's \<Rightarrow> 'x list \<Rightarrow> 's" where
  "run_steps step s [] = s"
| "run_steps step s (x # xs) = run_steps step (step s x) xs"

lemma run_steps_append:
  "run_steps step s (xs @ ys) = run_steps step (run_steps step s xs) ys"
  by (induction xs arbitrary: s) auto

lemma run_steps_invariant:
  assumes "\<And>s x. P s \<Longrightarrow> P (step s x)" "P s"
  shows "P (run_steps step s xs)"
  using assms(2) by (induction xs arbitrary: s) (auto intro: assms(1))

lemma run_steps_mono:
  fixes m :: "'s \<Rightarrow> 'a :: preorder"
  assumes "\<And>s x. m s \<le> m (step s x)"
  shows "m s \<le> m (run_steps step s xs)"
  by (induction xs arbitrary: s) (auto intro: order_trans assms)

end
