(* ===== verification/Py_Lib.thy ===== *)
theory Py_Lib
  imports Prelude "HOL-Library.Word"
begin

text \<open>
  What the sources use of Python's language and standard library: decimal numerals,
  \<open>str.join\<close>, JSON values with the canonical \<open>json.dumps\<close>, and the \<open>hashlib\<close> and
  \<open>hmac\<close> functions over byte strings. A Python \<open>str\<close> is the list of the bytes of its UTF-8
  encoding (\<open>string\<close>), on which lexicographic order is Python's code-point order.
\<close>

unbundle bit_operations_syntax

subsection \<open>Numerals and joins\<close>

definition digit_char :: "nat \<Rightarrow> char" where
  "digit_char n = char_of (48 + n)"

fun str_of_nat :: "nat \<Rightarrow> string" where
  "str_of_nat n = (if n < 10 then [digit_char n] else str_of_nat (n div 10) @ [digit_char (n mod 10)])"

declare str_of_nat.simps [simp del]

definition str_of_int :: "int \<Rightarrow> string" where
  "str_of_int i = (if i < 0 then CHR ''-'' # str_of_nat (nat (- i)) else str_of_nat (nat i))"

fun join :: "string \<Rightarrow> string list \<Rightarrow> string" where
  "join sep [] = []"
| "join sep [s] = s"
| "join sep (s # t # ss) = s @ sep @ join sep (t # ss)"

subsection \<open>Code points\<close>

text \<open>
  The code points of a string given by its UTF-8 bytes. A byte below 128 always stands for
  itself; the first number is how many continuation bytes the current character still needs.
\<close>

fun utf8_decode_from :: "nat \<Rightarrow> nat \<Rightarrow> string \<Rightarrow> nat list" where
  "utf8_decode_from k acc [] = []"
| "utf8_decode_from k acc (c # cs) =
     (let n = of_char c in
      if n < 128 then n # utf8_decode_from 0 0 cs
      else if n < 192 then
        (case k of 0 \<Rightarrow> utf8_decode_from 0 0 cs
         | Suc j \<Rightarrow> if j = 0 then (acc * 64 + n mod 64) # utf8_decode_from 0 0 cs
                     else utf8_decode_from j (acc * 64 + n mod 64) cs)
      else if n < 224 then utf8_decode_from 1 (n mod 32) cs
      else if n < 240 then utf8_decode_from 2 (n mod 16) cs
      else utf8_decode_from 3 (n mod 8) cs)"

definition utf8_decode :: "string \<Rightarrow> nat list" where
  "utf8_decode = utf8_decode_from 0 0"

subsection \<open>JSON values\<close>

text \<open>
  A Python value as JSON knows it. A dictionary is an association list in insertion
  order; a float is carried as its \<open>repr\<close> text.
\<close>

datatype json =
    JNull
  | JBool bool
  | JInt int
  | JFloat string
  | JStr string
  | JList "json list"
  | JDict "(string \<times> json) list"

definition hex_digit :: "nat \<Rightarrow> char" where
  "hex_digit n = (if n < 10 then char_of (48 + n) else char_of (87 + n))"

text \<open>The escapes of \<open>json.dumps(ensure_ascii=False)\<close>.\<close>

definition json_escape_char :: "char \<Rightarrow> string" where
  "json_escape_char c =
     (let n = of_char c :: nat in
      if n = 34 then [char_of (92 :: nat), c]
      else if n = 92 then [c, c]
      else if n = 10 then [char_of (92 :: nat), CHR ''n'']
      else if n = 13 then [char_of (92 :: nat), CHR ''r'']
      else if n = 9 then [char_of (92 :: nat), CHR ''t'']
      else if n = 8 then [char_of (92 :: nat), CHR ''b'']
      else if n = 12 then [char_of (92 :: nat), CHR ''f'']
      else if n < 32 then [char_of (92 :: nat)] @ ''u00'' @ [hex_digit (n div 16), hex_digit (n mod 16)]
      else [c])"

definition json_str :: "string \<Rightarrow> string" where
  "json_str s = [char_of (34 :: nat)] @ concat (map json_escape_char s) @ [char_of (34 :: nat)]"

text \<open>
  \<open>json.dumps(v, ensure_ascii=False, sort_keys=True, separators=(",", ":"))\<close>. The keys of a
  dictionary are sorted; the members are printed first and then ordered, which is the
  same text.
\<close>

fun canonical_dumps :: "json \<Rightarrow> string" where
  "canonical_dumps JNull = ''null''"
| "canonical_dumps (JBool b) = (if b then ''true'' else ''false'')"
| "canonical_dumps (JInt i) = str_of_int i"
| "canonical_dumps (JFloat t) = t"
| "canonical_dumps (JStr s) = json_str s"
| "canonical_dumps (JList vs) = ''['' @ join '','' (map canonical_dumps vs) @ '']''"
| "canonical_dumps (JDict kvs) =
     ''{'' @ join '','' (map (\<lambda>(k, t). json_str k @ '':'' @ t)
        (sort_key fst (map (\<lambda>(k, v). (k, canonical_dumps v)) kvs))) @ ''}''"

text \<open>\<open>dict.get\<close>.\<close>

definition dict_get :: "(string \<times> json) list \<Rightarrow> string \<Rightarrow> json option" where
  "dict_get d k = map_of d k"

text \<open>\<open>bool(value)\<close>: Python truthiness (a float is false only as a zero).\<close>

fun truthy :: "json \<Rightarrow> bool" where
  "truthy JNull = False"
| "truthy (JBool b) = b"
| "truthy (JInt i) = (i \<noteq> 0)"
| "truthy (JFloat t) = (t \<notin> {''0.0'', ''-0.0''})"
| "truthy (JStr s) = (s \<noteq> [])"
| "truthy (JList vs) = (vs \<noteq> [])"
| "truthy (JDict kvs) = (kvs \<noteq> [])"

subsection \<open>SHA-256\<close>

definition sha_k :: "32 word list" where
  "sha_k = [1116352408, 1899447441, 3049323471, 3921009573, 961987163, 1508970993, 2453635748,
    2870763221, 3624381080, 310598401, 607225278, 1426881987, 1925078388, 2162078206,
    2614888103, 3248222580, 3835390401, 4022224774, 264347078, 604807628, 770255983,
    1249150122, 1555081692, 1996064986, 2554220882, 2821834349, 2952996808, 3210313671,
    3336571891, 3584528711, 113926993, 338241895, 666307205, 773529912, 1294757372,
    1396182291, 1695183700, 1986661051, 2177026350, 2456956037, 2730485921, 2820302411,
    3259730800, 3345764771, 3516065817, 3600352804, 4094571909, 275423344, 430227734,
    506948616, 659060556, 883997877, 958139571, 1322822218, 1537002063, 1747873779,
    1955562222, 2024104815, 2227730452, 2361852424, 2428436474, 2756734187, 3204031479,
    3329325298]"

definition sha_init :: "32 word list" where
  "sha_init = [1779033703, 3144134277, 1013904242, 2773480762, 1359893119, 2600822924, 528734635,
    1541459225]"

definition sha_rotr :: "nat \<Rightarrow> 32 word \<Rightarrow> 32 word" where
  "sha_rotr n x = (drop_bit n x OR push_bit (32 - n) x)"

definition small_sigma0 :: "32 word \<Rightarrow> 32 word" where
  "small_sigma0 x = (sha_rotr 7 x XOR sha_rotr 18 x XOR drop_bit 3 x)"

definition small_sigma1 :: "32 word \<Rightarrow> 32 word" where
  "small_sigma1 x = (sha_rotr 17 x XOR sha_rotr 19 x XOR drop_bit 10 x)"

definition big_sigma0 :: "32 word \<Rightarrow> 32 word" where
  "big_sigma0 x = (sha_rotr 2 x XOR sha_rotr 13 x XOR sha_rotr 22 x)"

definition big_sigma1 :: "32 word \<Rightarrow> 32 word" where
  "big_sigma1 x = (sha_rotr 6 x XOR sha_rotr 11 x XOR sha_rotr 25 x)"

definition be_word :: "string \<Rightarrow> 32 word" where
  "be_word bs = foldl (\<lambda>w c. push_bit 8 w OR of_nat (of_char c)) 0 bs"

definition word_bytes :: "32 word \<Rightarrow> string" where
  "word_bytes w = map (\<lambda>k. char_of (unat (drop_bit k w AND 255))) [24, 16, 8, 0]"

fun chunks :: "nat \<Rightarrow> nat \<Rightarrow> 'a list \<Rightarrow> 'a list list" where
  "chunks 0 n xs = []"
| "chunks (Suc k) n xs = (if xs = [] then [] else take n xs # chunks k n (drop n xs))"

definition sha_pad :: "string \<Rightarrow> string" where
  "sha_pad m =
     (let bits = 8 * length m; zeros = (119 - length m mod 64) mod 64 in
      m @ [char_of (128 :: nat)] @ replicate zeros (char_of (0 :: nat)) @
      map (\<lambda>k. char_of ((bits div 2 ^ k) mod 256)) [56, 48, 40, 32, 24, 16, 8, 0])"

text \<open>The message schedule, kept newest word first while it grows to 64 words.\<close>

fun sha_extend :: "nat \<Rightarrow> 32 word list \<Rightarrow> 32 word list" where
  "sha_extend 0 ws = ws"
| "sha_extend (Suc n) ws =
     sha_extend n ((small_sigma1 (ws ! 1) + ws ! 6 + small_sigma0 (ws ! 14) + ws ! 15) # ws)"

definition sha_schedule :: "string \<Rightarrow> 32 word list" where
  "sha_schedule block = rev (sha_extend 48 (rev (map be_word (chunks 16 4 block))))"

fun sha_round :: "32 word list \<Rightarrow> 32 word \<times> 32 word \<Rightarrow> 32 word list" where
  "sha_round [a, b, c, d, e, f, g, h] (k, w) =
     (let t1 = h + big_sigma1 e + ((e AND f) XOR (NOT e AND g)) + k + w;
          t2 = big_sigma0 a + ((a AND b) XOR (a AND c) XOR (b AND c))
      in [t1 + t2, a, b, c, d + t1, e, f, g])"
| "sha_round st kw = st"

definition sha_block :: "32 word list \<Rightarrow> string \<Rightarrow> 32 word list" where
  "sha_block st block =
     map2 (+) st (foldl sha_round st (zip sha_k (sha_schedule block)))"

definition sha256 :: "string \<Rightarrow> string" where
  "sha256 m = concat (map word_bytes
     (foldl sha_block sha_init (chunks (length m + 2) 64 (sha_pad m))))"

definition hexdigest :: "string \<Rightarrow> string" where
  "hexdigest bs = concat (map (\<lambda>c. let n = of_char c :: nat in
     [hex_digit (n div 16), hex_digit (n mod 16)]) bs)"

definition sha256_hex :: "string \<Rightarrow> string" where
  "sha256_hex m = hexdigest (sha256 m)"

text \<open>\<open>int.from_bytes(bs, "big")\<close>.\<close>

definition int_from_bytes_big :: "string \<Rightarrow> int" where
  "int_from_bytes_big bs = foldl (\<lambda>n c. 256 * n + of_char c) 0 bs"

definition xor_pad :: "nat \<Rightarrow> string \<Rightarrow> string" where
  "xor_pad p key = map (\<lambda>c. char_of ((of_char c :: nat) XOR p)) (key @ replicate (64 - length key) (char_of (0 :: nat)))"

text \<open>\<open>hmac.new(key, msg, hashlib.sha256)\<close>: its \<open>digest()\<close> and its \<open>hexdigest()\<close>.\<close>

definition hmac_sha256 :: "string \<Rightarrow> string \<Rightarrow> string" where
  "hmac_sha256 key msg =
     (let k = (if length key > 64 then sha256 key else key)
      in sha256 (xor_pad 92 k @ sha256 (xor_pad 54 k @ msg)))"

definition hmac_sha256_hex :: "string \<Rightarrow> string \<Rightarrow> string" where
  "hmac_sha256_hex key msg = hexdigest (hmac_sha256 key msg)"

subsection \<open>\<open>str\<close> and \<open>repr\<close>\<close>

definition backslash :: char where
  "backslash = char_of (92 :: nat)"

text \<open>
  One character inside \<open>repr(s)\<close> under the quote character \<open>q\<close>. Printable code points
  beyond ASCII pass unchanged; the escapes of unprintable ones are not modelled.
\<close>

definition repr_char :: "char \<Rightarrow> char \<Rightarrow> string" where
  "repr_char q c =
     (let n = of_char c :: nat in
      if c = q \<or> n = 92 then [backslash, c]
      else if n = 10 then [backslash, CHR ''n'']
      else if n = 13 then [backslash, CHR ''r'']
      else if n = 9 then [backslash, CHR ''t'']
      else if n < 32 \<or> n = 127 then [backslash, CHR ''x'', hex_digit (n div 16), hex_digit (n mod 16)]
      else [c])"

definition repr_str :: "string \<Rightarrow> string" where
  "repr_str s =
     (let q = (if char_of (39 :: nat) \<in> set s \<and> char_of (34 :: nat) \<notin> set s
               then char_of (34 :: nat) else char_of (39 :: nat))
      in [q] @ concat (map (repr_char q) s) @ [q])"

fun py_repr :: "json \<Rightarrow> string" where
  "py_repr JNull = ''None''"
| "py_repr (JBool b) = (if b then ''True'' else ''False'')"
| "py_repr (JInt i) = str_of_int i"
| "py_repr (JFloat t) = t"
| "py_repr (JStr s) = repr_str s"
| "py_repr (JList vs) = ''['' @ join '', '' (map py_repr vs) @ '']''"
| "py_repr (JDict kvs) =
     ''{'' @ join '', '' (map (\<lambda>(k, v). repr_str k @ '': '' @ py_repr v) kvs) @ ''}''"

definition py_str :: "json \<Rightarrow> string" where
  "py_str v = (case v of JStr s \<Rightarrow> s | _ \<Rightarrow> py_repr v)"

subsection \<open>UTC calendar dates\<close>

text \<open>
  Year, month and day of a day number counted from 1970-01-01, by the era decomposition
  of the Gregorian calendar (400 years are 146097 days, a year starts in March).
\<close>

definition civil_from_days :: "int \<Rightarrow> int \<times> int \<times> int" where
  "civil_from_days z0 =
     (let z = z0 + 719468;
          era = z div 146097;
          doe = z mod 146097;
          yoe = (doe - doe div 1460 + doe div 36524 - doe div 146096) div 365;
          doy = doe - (365 * yoe + yoe div 4 - yoe div 100);
          mp = (5 * doy + 2) div 153;
          d = doy - (153 * mp + 2) div 5 + 1;
          m = (if mp < 10 then mp + 3 else mp - 9);
          y = yoe + era * 400 + (if m \<le> 2 then 1 else 0)
      in (y, m, d))"

definition zfill :: "nat \<Rightarrow> string \<Rightarrow> string" where
  "zfill n s = replicate (n - length s) (CHR ''0'') @ s"

definition pad2 :: "int \<Rightarrow> string" where
  "pad2 i = zfill 2 (str_of_int i)"

text \<open>\<open>datetime.isoformat()\<close> of an aware UTC instant.\<close>

definition isoformat :: "timestamp \<Rightarrow> string" where
  "isoformat t =
     (let us = t mod 1000000; s = t div 1000000; day = s div 86400; sod = s mod 86400
      in case civil_from_days day of (y, m, d) \<Rightarrow>
        zfill 4 (str_of_int y) @ ''-'' @ pad2 m @ ''-'' @ pad2 d @ ''T'' @
        pad2 (sod div 3600) @ '':'' @ pad2 ((sod mod 3600) div 60) @ '':'' @ pad2 (sod mod 60) @
        (if us = 0 then [] else ''.'' @ zfill 6 (str_of_int us)) @ ''+00:00'')"

subsection \<open>Floating point\<close>

text \<open>Rounding to nearest, ties to even, of a quotient of integers (the divisor positive).\<close>

definition round_half_even :: "int \<Rightarrow> int \<Rightarrow> int" where
  "round_half_even n d =
     (let q = n div d; r = n mod d in
      if 2 * r < d then q else if d < 2 * r then q + 1 else if even q then q else q + 1)"

text \<open>Number of binary digits.\<close>

fun bit_length :: "nat \<Rightarrow> nat" where
  "bit_length n = (if n = 0 then 0 else Suc (bit_length (n div 2)))"

declare bit_length.simps [simp del]

text \<open>
  The binary scale at which a positive quotient has a 53-bit significand, and the double
  nearest to \<open>n / d\<close> (for \<open>0 \<le> n\<close> and \<open>0 < d\<close>) as a numerator and a denominator.
\<close>

definition float_scale :: "int \<Rightarrow> int \<Rightarrow> int" where
  "float_scale n d =
     (let k = 53 + int (bit_length (nat d)) - int (bit_length (nat n));
          big = (if 0 \<le> k then d * 2 ^ 53 \<le> n * 2 ^ nat k else d * 2 ^ nat (- k) * 2 ^ 53 \<le> n)
      in if big then k - 1 else k)"

definition float_div :: "int \<Rightarrow> int \<Rightarrow> int \<times> int" where
  "float_div n d =
     (if n = 0 then (0, 1)
      else let k = float_scale n d in
        if 0 \<le> k then (round_half_even (n * 2 ^ nat k) d, 2 ^ nat k)
        else (round_half_even n (d * 2 ^ nat (- k)) * 2 ^ nat (- k), 1))"

lemma bit_length_eq: "2 ^ k \<le> n \<Longrightarrow> n < 2 ^ Suc k \<Longrightarrow> bit_length n = Suc k"
proof (induction k arbitrary: n)
  case 0
  then have "n = 1" by simp
  then show ?case by (simp add: bit_length.simps)
next
  case (Suc k)
  then have "bit_length (n div 2) = Suc k" by (intro Suc.IH) auto
  then show ?case using Suc.prems by (simp add: bit_length.simps [of n])
qed

lemma round_half_even_near:
  assumes "0 < d" "2 * \<bar>n - c * d\<bar> < d"
  shows "round_half_even n d = c"
proof (cases "c * d \<le> n")
  case True
  then have "0 \<le> n - c * d" "n - c * d < d" "2 * (n - c * d) < d" using assms by auto
  moreover from this have "n div d = c" "n mod d = n - c * d"
    using div_pos_geq by (auto simp: int_div_pos_eq [of n d c "n - c * d"] int_mod_pos_eq [of n d c "n - c * d"])
  ultimately show ?thesis by (simp add: round_half_even_def)
next
  case False
  let ?r = "n - (c - 1) * d"
  have r: "0 \<le> ?r" "?r < d" "d < 2 * ?r" using False assms by (auto simp: algebra_simps)
  then have "n div d = c - 1" "n mod d = ?r"
    by (auto simp: int_div_pos_eq [of n d "c - 1" ?r] int_mod_pos_eq [of n d "c - 1" ?r])
  then show ?thesis using r by (simp add: round_half_even_def)
qed

lemma round_half_even_error:
  assumes "0 < d"
  shows "2 * \<bar>round_half_even n d * d - n\<bar> \<le> d"
proof -
  define q r where "q = n div d" and "r = n mod d"
  have n: "n = q * d + r" and r: "0 \<le> r" "r < d" using assms by (simp_all add: q_def r_def)
  have "round_half_even n d = (if 2 * r < d then q else if d < 2 * r then q + 1 else if even q then q else q + 1)"
    by (simp add: round_half_even_def Let_def q_def r_def)
  then have "round_half_even n d * d - n = - r \<and> 2 * r \<le> d \<or> round_half_even n d * d - n = d - r \<and> d \<le> 2 * r"
    unfolding n by (auto simp: algebra_simps)
  then show ?thesis using r by auto
qed

subsection \<open>Lengths of digests\<close>

lemma length_word_bytes [simp]: "length (word_bytes w) = 4"
  by (simp add: word_bytes_def)

lemma length_sha_round: "length (sha_round st kw) = length st"
  by (cases "(st, kw)" rule: sha_round.cases) (auto simp: Let_def)

lemma length_foldl_sha_round: "length (foldl sha_round st kws) = length st"
  by (induction kws arbitrary: st) (auto simp: length_sha_round)

lemma length_sha_block: "length (sha_block st b) = length st"
  by (simp add: sha_block_def length_foldl_sha_round)

lemma length_foldl_sha_block: "length (foldl sha_block st bs) = length st"
  by (induction bs arbitrary: st) (auto simp: length_sha_block)

lemma length_concat_const: "(\<And>x. length (f x) = n) \<Longrightarrow> length (concat (map f xs)) = n * length xs"
  by (induction xs) auto

lemma length_sha256 [simp]: "length (sha256 m) = 32"
  by (simp add: sha256_def length_concat_const [where n = 4] length_foldl_sha_block sha_init_def)

lemma length_hexdigest [simp]: "length (hexdigest bs) = 2 * length bs"
  by (simp add: hexdigest_def Let_def length_concat_const [where n = 2])

text \<open>Two different texts, one of each set, that SHA-256 does not tell apart.\<close>

definition collision :: "string set \<Rightarrow> string set \<Rightarrow> bool" where
  "collision A B \<longleftrightarrow> (\<exists>x \<in> A. \<exists>y \<in> B. x \<noteq> y \<and> sha256_hex x = sha256_hex y)"

lemma length_sha256_hex [simp]: "length (sha256_hex m) = 64"
  by (simp add: sha256_hex_def)

subsection \<open>Decimal text\<close>

fun nat_of_digits :: "nat \<Rightarrow> string \<Rightarrow> nat" where
  "nat_of_digits acc [] = acc"
| "nat_of_digits acc (c # cs) = nat_of_digits (10 * acc + (of_char c - 48)) cs"

lemma nat_of_digits_append: "nat_of_digits a (xs @ ys) = nat_of_digits (nat_of_digits a xs) ys"
  by (induction xs arbitrary: a) auto

lemma digit_value: "d < 10 \<Longrightarrow> of_char (digit_char d) - 48 = (d :: nat)"
  by (simp add: digit_char_def)

lemma nat_of_str: "nat_of_digits 0 (str_of_nat n) = n"
proof (induction n rule: str_of_nat.induct)
  case (1 n)
  show ?case
  proof (cases "n < 10")
    case True
    then show ?thesis by (subst str_of_nat.simps) (simp add: digit_value)
  next
    case False
    then show ?thesis using 1 by (subst str_of_nat.simps) (simp add: nat_of_digits_append digit_value)
  qed
qed

lemma str_of_nat_inject [simp]: "str_of_nat m = str_of_nat n \<longleftrightarrow> m = n"
  using nat_of_str by metis

end
