(* ===== verification/Execution_Bus.thy ===== *)
theory Execution_Bus
  imports Py_Lib "HOL-Library.Product_Lexorder"
begin

text \<open>
  The execution bus of \<open>trpc_service/execution_bus.py\<close>: the CloudEvents envelope and its
  dictionary form, partition routing, the in-memory transport, the manual-commit Kafka
  consumer with its dead-letter rule, the Outbox table and the dispatcher that publishes it.
  The aiokafka client is outside the sources: the records it polls are inputs of
  \<open>process_once\<close> and what it is asked to do (commit, seek, send) is the output.
\<close>

subsection \<open>Envelopes\<close>

definition ENVELOPE_SPECVERSION :: string where "ENVELOPE_SPECVERSION = ''1.0''"
definition GATEWAY_SOURCE :: string where "GATEWAY_SOURCE = ''trpc-agent-platform://agent-gateway''"
definition WORKER_SOURCE :: string where "WORKER_SOURCE = ''trpc-agent-platform://agent-worker''"
definition JOB_WORKER_SOURCE :: string where "JOB_WORKER_SOURCE = ''trpc-agent-platform://job-worker''"
definition EXECUTION_REQUESTED_EVENT :: string where
  "EXECUTION_REQUESTED_EVENT = ''platform.agent-execution.requested.v1''"
definition EXECUTION_COMPLETED_EVENT :: string where
  "EXECUTION_COMPLETED_EVENT = ''platform.agent-execution.completed.v1''"
definition SESSION_EVENTS_COMMITTED_EVENT :: string where
  "SESSION_EVENTS_COMMITTED_EVENT = ''platform.session.events.committed.v1''"

definition REQUIRED_ENVELOPE_FIELDS :: "string list" where
  "REQUIRED_ENVELOPE_FIELDS =
     [''id'', ''source'', ''type'', ''time'', ''partitionkey'', ''tenantid'', ''dataschema'', ''data'']"

record execution_envelope =
  env_message_id :: string
  env_source :: string
  env_event_type :: string
  env_partition_key :: string
  env_time :: string
  env_tenant_id :: string
  env_data_schema :: string
  env_data :: "(string \<times> json) list"
  env_causation_id :: "string option"
  env_correlation_id :: "string option"
  env_data_classification :: "string option"
  env_trace_parent :: "string option"

datatype envelope_error =
    SpecversionError
  | MissingFields "string list"
  | DataNotObject

definition opt_entry :: "string \<Rightarrow> string option \<Rightarrow> (string \<times> json) list" where
  "opt_entry k v = (case v of None \<Rightarrow> [] | Some s \<Rightarrow> [(k, JStr s)])"

definition to_dict :: "execution_envelope \<Rightarrow> (string \<times> json) list" where
  "to_dict e =
     [(''specversion'', JStr ENVELOPE_SPECVERSION),
      (''id'', JStr (env_message_id e)),
      (''source'', JStr (env_source e)),
      (''type'', JStr (env_event_type e)),
      (''time'', JStr (env_time e)),
      (''partitionkey'', JStr (env_partition_key e)),
      (''tenantid'', JStr (env_tenant_id e)),
      (''dataschema'', JStr (env_data_schema e)),
      (''datacontenttype'', JStr ''application/json''),
      (''data'', JDict (env_data e))]
     @ opt_entry ''causationid'' (env_causation_id e)
     @ opt_entry ''correlationid'' (env_correlation_id e)
     @ opt_entry ''dataclassification'' (env_data_classification e)
     @ opt_entry ''traceparent'' (env_trace_parent e)"

definition optional_str :: "(string \<times> json) list \<Rightarrow> string \<Rightarrow> string option" where
  "optional_str payload field =
     (case dict_get payload field of
        None \<Rightarrow> None
      | Some v \<Rightarrow> if v = JNull then None else Some (py_str v))"

text \<open>\<open>str(payload[k])\<close>, read after the check that every required key is present.\<close>

definition req_str :: "(string \<times> json) list \<Rightarrow> string \<Rightarrow> string" where
  "req_str payload k = (case dict_get payload k of Some v \<Rightarrow> py_str v | None \<Rightarrow> [])"

definition from_dict :: "(string \<times> json) list \<Rightarrow> envelope_error + execution_envelope" where
  "from_dict payload =
     (if dict_get payload ''specversion'' \<noteq> Some (JStr ENVELOPE_SPECVERSION) then Inl SpecversionError
      else let missing = filter (\<lambda>f. dict_get payload f = None) REQUIRED_ENVELOPE_FIELDS in
      if missing \<noteq> [] then Inl (MissingFields missing)
      else case dict_get payload ''data'' of
        Some (JDict d) \<Rightarrow> Inr
          \<lparr>env_message_id = req_str payload ''id'',
           env_source = req_str payload ''source'',
           env_event_type = req_str payload ''type'',
           env_partition_key = req_str payload ''partitionkey'',
           env_time = req_str payload ''time'',
           env_tenant_id = req_str payload ''tenantid'',
           env_data_schema = req_str payload ''dataschema'',
           env_data = d,
           env_causation_id = optional_str payload ''causationid'',
           env_correlation_id = optional_str payload ''correlationid'',
           env_data_classification = optional_str payload ''dataclassification'',
           env_trace_parent = optional_str payload ''traceparent''\<rparr>
      | _ \<Rightarrow> Inl DataNotObject)"

subsection \<open>Partition routing\<close>

definition session_partition_key :: "string \<Rightarrow> string \<Rightarrow> string" where
  "session_partition_key tenant_id session_id = tenant_id @ '':'' @ session_id"

definition stable_bucket :: "string \<Rightarrow> int \<Rightarrow> string + int" where
  "stable_bucket key partition_count =
     (if partition_count < 0 then Inl ''partition_count must not be negative''
      else Inr (int_from_bytes_big (take 8 (sha256 key)) mod max partition_count 1))"

definition partition_for :: "string \<Rightarrow> string \<Rightarrow> int \<Rightarrow> string + int" where
  "partition_for tenant_id session_id partition_count =
     stable_bucket (tenant_id @ [char_of (31 :: nat)] @ session_id) partition_count"

definition partition_of :: "execution_envelope \<Rightarrow> int \<Rightarrow> string + int" where
  "partition_of e partition_count =
     (case (dict_get (env_data e) ''tenant_id'', dict_get (env_data e) ''session_id'') of
        (Some (JStr t), Some (JStr s)) \<Rightarrow> partition_for t s partition_count
      | _ \<Rightarrow> stable_bucket (env_partition_key e) partition_count)"

subsection \<open>The in-memory transport\<close>

record memory_bus =
  bus_partitions :: "execution_envelope list list"
  bus_deliveries :: "string \<Rightarrow> nat"
  bus_published :: "execution_envelope list"

definition bus_init :: "int \<Rightarrow> memory_bus" where
  "bus_init partition_count =
     \<lparr>bus_partitions = replicate (nat (max partition_count 1)) [],
      bus_deliveries = (\<lambda>_. 0), bus_published = []\<rparr>"

definition bus_publish :: "memory_bus \<Rightarrow> execution_envelope \<Rightarrow> memory_bus \<times> bool" where
  "bus_publish b e =
     (let b1 = b\<lparr>bus_published := bus_published b @ [e]\<rparr> in
      case partition_of e (int (length (bus_partitions b))) of
        Inl _ \<Rightarrow> (b1, False)
      | Inr i \<Rightarrow> (b1\<lparr>bus_partitions := (bus_partitions b)[nat i := (bus_partitions b ! nat i) @ [e]]\<rparr>, True))"

definition pending_count :: "memory_bus \<Rightarrow> nat" where
  "pending_count b = sum_list (map length (bus_partitions b))"

fun first_nonempty :: "'a list list \<Rightarrow> nat option" where
  "first_nonempty [] = None"
| "first_nonempty (p # ps) = (if p \<noteq> [] then Some 0 else map_option Suc (first_nonempty ps))"

text \<open>
  A consumer is a function of its own state \<open>w\<close>: the new state, and whether it returned
  (\<open>False\<close>: it raised). It does not publish to the bus it drains.
\<close>

definition deliver_once ::
  "('w \<Rightarrow> execution_envelope \<Rightarrow> 'w \<times> bool) \<Rightarrow> memory_bus \<Rightarrow> 'w \<Rightarrow> bool \<times> memory_bus \<times> 'w" where
  "deliver_once consumer b w =
     (case first_nonempty (bus_partitions b) of
        None \<Rightarrow> (False, b, w)
      | Some i \<Rightarrow>
          let e = hd (bus_partitions b ! i);
              b1 = b\<lparr>bus_deliveries := (bus_deliveries b)(env_message_id e := Suc (bus_deliveries b (env_message_id e)))\<rparr>
          in case consumer w e of (w', ok) \<Rightarrow>
             if \<not> ok then (False, b1, w')
             else (True, b1\<lparr>bus_partitions := (bus_partitions b)[i := tl (bus_partitions b ! i)]\<rparr>, w'))"

text \<open>\<open>while await self.deliver_once(consumer): delivered += 1\<close>\<close>

lemma first_nonempty_SomeD:
  "first_nonempty ps = Some i \<Longrightarrow> i < length ps \<and> ps ! i \<noteq> [] \<and> (\<forall>j < i. ps ! j = [])"
proof (induction ps arbitrary: i)
  case (Cons p ps)
  show ?case
  proof (cases "p = []")
    case True
    with Cons.prems obtain k where "first_nonempty ps = Some k" "i = Suc k" by auto
    with Cons.IH [of k] True show ?thesis by (auto simp: less_Suc_eq_0_disj)
  qed (use Cons.prems in auto)
qed simp

lemma sum_list_length_tl:
  "i < length ps \<Longrightarrow> ps ! i \<noteq> [] \<Longrightarrow>
   Suc (sum_list (map length (ps[i := tl (ps ! i)]))) = sum_list (map length ps)"
proof (induction ps arbitrary: i)
  case (Cons p ps)
  then show ?case by (cases i) auto
qed simp

lemma deliver_once_pending:
  "deliver_once consumer b w = (True, b', w') \<Longrightarrow> Suc (pending_count b') = pending_count b"
  by (auto simp: deliver_once_def pending_count_def Let_def sum_list_length_tl
      dest!: first_nonempty_SomeD split: option.splits prod.splits if_splits)

function drain ::
  "('w \<Rightarrow> execution_envelope \<Rightarrow> 'w \<times> bool) \<Rightarrow> memory_bus \<Rightarrow> 'w \<Rightarrow> nat \<Rightarrow> nat \<times> memory_bus \<times> 'w" where
  "drain consumer b w delivered =
     (case deliver_once consumer b w of
        (True, b', w') \<Rightarrow> drain consumer b' w' (Suc delivered)
      | (False, b', w') \<Rightarrow> (delivered, b', w'))"
  by pat_completeness auto
termination
  by (relation "measure (\<lambda>(c, b, w, d). pending_count b)")
    (auto dest!: deliver_once_pending [OF sym])

declare drain.simps [simp del]

subsection \<open>The Kafka publisher\<close>

text \<open>
  The producer is the aiokafka client: what it was sent is recorded as (topic, value, key),
  and \<open>sends\<close> says whether \<open>send_and_wait\<close> returns for a record.
\<close>

type_synonym kafka_send = "string \<times> string \<times> string"

definition kafka_topics :: "string \<Rightarrow> (string \<rightharpoonup> string) \<Rightarrow> (string \<rightharpoonup> string)" where
  "kafka_topics topic event_topics = [EXECUTION_REQUESTED_EVENT \<mapsto> topic] ++ event_topics"

definition kafka_record :: "(string \<rightharpoonup> string) \<Rightarrow> execution_envelope \<Rightarrow> kafka_send" where
  "kafka_record topics e =
     ((case topics (env_event_type e) of Some t \<Rightarrow> t | None \<Rightarrow> env_event_type e),
      canonical_dumps (JDict (to_dict e)),
      env_partition_key e)"

definition kafka_publish ::
  "(string \<rightharpoonup> string) \<Rightarrow> (kafka_send \<Rightarrow> bool) \<Rightarrow> kafka_send list \<Rightarrow> execution_envelope \<Rightarrow> kafka_send list \<times> bool" where
  "kafka_publish topics sends sent e =
     (let r = kafka_record topics e in if sends r then (sent @ [r], True) else (sent, False))"

subsection \<open>The manual-commit Kafka consumer\<close>

type_synonym topic_partition = "string \<times> int"

datatype handler_outcome = Handled | Raised string | Cancelled

datatype client_call =
    Seek topic_partition int
  | Commit topic_partition int
  | SendDeadLetter string json string

record kafka_record_in =
  rec_offset :: int
  rec_value :: "string option"

record kafka_consumer =
  kc_dead_letter_topic :: string
  kc_max_delivery_attempts :: nat
  kc_dead_letter_producer :: bool
  kc_failure_attempts :: "(string \<times> int \<times> int) \<rightharpoonup> nat"

datatype consume_result = Returned bool | ConsumeRaised string | ConsumeCancelled

definition new_consumer ::
  "string \<Rightarrow> string \<Rightarrow> string \<Rightarrow> string \<Rightarrow> int \<Rightarrow> bool \<Rightarrow> string + kafka_consumer" where
  "new_consumer bootstrap_servers topic group_id dead_letter_topic max_delivery_attempts producer_given =
     (if bootstrap_servers = [] then Inl ''bootstrap_servers must not be empty''
      else if topic = [] then Inl ''topic must not be empty''
      else if group_id = [] then Inl ''group_id must not be empty''
      else if max_delivery_attempts < 1 then Inl ''max_delivery_attempts must be positive''
      else if producer_given \<and> dead_letter_topic = []
        then Inl ''dead_letter_topic is required with a dead-letter producer''
      else Inr \<lparr>kc_dead_letter_topic = dead_letter_topic,
                kc_max_delivery_attempts = nat max_delivery_attempts,
                kc_dead_letter_producer = (producer_given \<or> dead_letter_topic \<noteq> []),
                kc_failure_attempts = Map.empty\<rparr>)"

definition failure_key :: "topic_partition \<Rightarrow> int \<Rightarrow> string \<times> int \<times> int" where
  "failure_key tp offset = (fst tp, snd tp, offset)"

text \<open>
  The dead letter carries the base64 text of the record's bytes; \<open>b64\<close> is
  \<open>base64.b64encode\<close>.
\<close>

definition dead_letter ::
  "(string \<Rightarrow> string) \<Rightarrow> kafka_consumer \<Rightarrow> topic_partition \<Rightarrow> kafka_record_in \<Rightarrow> nat \<Rightarrow> string \<Rightarrow> client_call" where
  "dead_letter b64 kc tp r attempts error_type =
     SendDeadLetter (kc_dead_letter_topic kc)
       (JDict [(''schema_version'', JInt 1),
               (''source_topic'', JStr (fst tp)),
               (''source_partition'', JInt (snd tp)),
               (''source_offset'', JInt (rec_offset r)),
               (''attempts'', JInt (int attempts)),
               (''error_type'', JStr error_type),
               (''payload_base64'', JStr (b64 (case rec_value r of None \<Rightarrow> [] | Some v \<Rightarrow> v)))])
       (fst tp @ '':'' @ str_of_int (snd tp) @ '':'' @ str_of_int (rec_offset r))"

text \<open>\<open>loads\<close> is \<open>json.loads\<close>: the value, or the name of the exception it raises.\<close>

definition decode :: "(string \<Rightarrow> string + json) \<Rightarrow> string option \<Rightarrow> string + execution_envelope" where
  "decode loads value =
     (case value of
        None \<Rightarrow> Inl ''ValueError''
      | Some v \<Rightarrow>
         (case loads v of
            Inl err \<Rightarrow> Inl err
          | Inr (JDict payload) \<Rightarrow>
             (case from_dict payload of Inl _ \<Rightarrow> Inl ''ValueError'' | Inr e \<Rightarrow> Inr e)
          | Inr _ \<Rightarrow> Inl ''ValueError''))"

definition record_outcome ::
  "(string \<Rightarrow> string + json) \<Rightarrow> (execution_envelope \<Rightarrow> handler_outcome) \<Rightarrow> kafka_record_in \<Rightarrow> handler_outcome" where
  "record_outcome loads handler r =
     (case decode loads (rec_value r) of Inl err \<Rightarrow> Raised err | Inr e \<Rightarrow> handler e)"

text \<open>
  One polled record. \<open>dlq_ok\<close> and \<open>commit_ok\<close> say whether the dead-letter send and the
  offset commit of this call return; the result lists the calls made on the client.
\<close>

definition consume_record ::
  "(string \<Rightarrow> string) \<Rightarrow> (string \<Rightarrow> string + json) \<Rightarrow> (execution_envelope \<Rightarrow> handler_outcome) \<Rightarrow> bool \<Rightarrow> bool
   \<Rightarrow> kafka_consumer \<Rightarrow> topic_partition \<Rightarrow> kafka_record_in
   \<Rightarrow> consume_result \<times> kafka_consumer \<times> client_call list" where
  "consume_record b64 loads handler dlq_ok commit_ok kc tp r =
     (let key = failure_key tp (rec_offset r) in
      case record_outcome loads handler r of
        Cancelled \<Rightarrow> (ConsumeCancelled, kc, [Seek tp (rec_offset r)])
      | Raised err \<Rightarrow>
          (let attempts = (case kc_failure_attempts kc key of None \<Rightarrow> 0 | Some n \<Rightarrow> n) + 1;
               kc1 = kc\<lparr>kc_failure_attempts := (kc_failure_attempts kc)(key \<mapsto> attempts)\<rparr>
           in if kc_dead_letter_producer kc \<and> kc_max_delivery_attempts kc \<le> attempts then
                (if \<not> dlq_ok then
                   (ConsumeRaised ''dead letter'', kc1,
                    [dead_letter b64 kc tp r attempts err, Seek tp (rec_offset r)])
                 else if \<not> commit_ok then
                   (ConsumeRaised ''commit'', kc1,
                    [dead_letter b64 kc tp r attempts err, Commit tp (rec_offset r + 1)])
                 else (Returned True, kc1\<lparr>kc_failure_attempts := (kc_failure_attempts kc1)(key := None)\<rparr>,
                    [dead_letter b64 kc tp r attempts err, Commit tp (rec_offset r + 1)]))
              else (ConsumeRaised err, kc1, [Seek tp (rec_offset r)]))
      | Handled \<Rightarrow>
          (if \<not> commit_ok then (ConsumeRaised ''commit'', kc, [Commit tp (rec_offset r + 1)])
           else (Returned True, kc\<lparr>kc_failure_attempts := (kc_failure_attempts kc)(key := None)\<rparr>,
                 [Commit tp (rec_offset r + 1)])))"

fun process_once ::
  "(string \<Rightarrow> string) \<Rightarrow> (string \<Rightarrow> string + json) \<Rightarrow> (execution_envelope \<Rightarrow> handler_outcome) \<Rightarrow> bool \<Rightarrow> bool
   \<Rightarrow> kafka_consumer \<Rightarrow> (topic_partition \<times> kafka_record_in list) list
   \<Rightarrow> consume_result \<times> kafka_consumer \<times> client_call list" where
  "process_once b64 loads handler dlq_ok commit_ok kc [] = (Returned False, kc, [])"
| "process_once b64 loads handler dlq_ok commit_ok kc ((tp, []) # batches) =
     process_once b64 loads handler dlq_ok commit_ok kc batches"
| "process_once b64 loads handler dlq_ok commit_ok kc ((tp, r # rs) # batches) =
     consume_record b64 loads handler dlq_ok commit_ok kc tp r"

subsection \<open>The Outbox\<close>

datatype outbox_status = PENDING_OUT | PUBLISHED_OUT

record outbox_row =
  ob_tenant_id :: uuid
  ob_id :: uuid
  ob_message_id :: string
  ob_source :: string
  ob_event_type :: string
  ob_partition_key :: string
  ob_causation_id :: "string option"
  ob_correlation_id :: "string option"
  ob_data_classification :: "string option"
  ob_payload :: "(string \<times> json) list"
  ob_status :: outbox_status
  ob_attempts :: int
  ob_created_at :: timestamp
  ob_published_at :: "timestamp option"

record outbox_tables =
  outbox_record :: "outbox_row list"

definition opt_len_ok :: "nat \<Rightarrow> string option \<Rightarrow> bool" where
  "opt_len_ok n v = (case v of None \<Rightarrow> True | Some s \<Rightarrow> 1 \<le> length s \<and> length s \<le> n)"

text \<open>\<open>event_type ~ '^[a-z][a-z0-9.-]{0,127}$'\<close>\<close>

definition is_lower :: "char \<Rightarrow> bool" where
  "is_lower c \<longleftrightarrow> 97 \<le> (of_char c :: nat) \<and> (of_char c :: nat) \<le> 122"

definition is_digit :: "char \<Rightarrow> bool" where
  "is_digit c \<longleftrightarrow> 48 \<le> (of_char c :: nat) \<and> (of_char c :: nat) \<le> 57"

definition event_type_ok :: "string \<Rightarrow> bool" where
  "event_type_ok s =
     (case s of [] \<Rightarrow> False
      | c # cs \<Rightarrow> is_lower c \<and> length cs \<le> 127 \<and>
          list_all (\<lambda>x. is_lower x \<or> is_digit x \<or> x = CHR ''.'' \<or> x = CHR ''-'') cs)"

text \<open>The CHECK constraints and unique keys of \<open>platform.outbox_record\<close>.\<close>

definition outbox_check :: "outbox_row \<Rightarrow> bool" where
  "outbox_check r \<longleftrightarrow>
     1 \<le> length (ob_message_id r) \<and> length (ob_message_id r) \<le> 256 \<and>
     1 \<le> length (ob_source r) \<and> length (ob_source r) \<le> 256 \<and>
     event_type_ok (ob_event_type r) \<and>
     1 \<le> length (ob_partition_key r) \<and> length (ob_partition_key r) \<le> 600 \<and>
     opt_len_ok 256 (ob_causation_id r) \<and> opt_len_ok 256 (ob_correlation_id r) \<and>
     (case ob_data_classification r of None \<Rightarrow> True
      | Some c \<Rightarrow> c \<in> {''PUBLIC'', ''INTERNAL'', ''CONFIDENTIAL'', ''RESTRICTED''})"

definition outbox_taken :: "outbox_row \<Rightarrow> outbox_row list \<Rightarrow> bool" where
  "outbox_taken r t \<longleftrightarrow>
     list_ex (\<lambda>q. ob_id q = ob_id r \<or> (ob_tenant_id q = ob_tenant_id r \<and> ob_message_id q = ob_message_id r)) t"

definition insert_outbox_record ::
  "timestamp \<Rightarrow> uuid \<Rightarrow> uuid \<Rightarrow> string \<Rightarrow> string \<Rightarrow> string \<Rightarrow> string \<Rightarrow> (string \<times> json) list
   \<Rightarrow> string option \<Rightarrow> string option \<Rightarrow> string option
   \<Rightarrow> 'a outbox_tables_scheme \<Rightarrow> sql_error + 'a outbox_tables_scheme" where
  "insert_outbox_record now new_id tenant_id message_id source event_type partition_key payload
     causation_id correlation_id data_classification db =
     (let r = \<lparr>ob_tenant_id = tenant_id, ob_id = new_id, ob_message_id = message_id,
               ob_source = source, ob_event_type = event_type, ob_partition_key = partition_key,
               ob_causation_id = causation_id, ob_correlation_id = correlation_id,
               ob_data_classification = data_classification, ob_payload = payload,
               ob_status = PENDING_OUT, ob_attempts = 0, ob_created_at = now, ob_published_at = None\<rparr>
      in if \<not> outbox_check r \<or> outbox_taken r (outbox_record db) then Inl IntegrityError
         else Inr (db\<lparr>outbox_record := outbox_record db @ [r]\<rparr>))"

subsection \<open>The dispatcher\<close>

definition row_envelope :: "outbox_row \<Rightarrow> execution_envelope" where
  "row_envelope r =
     \<lparr>env_message_id = ob_message_id r, env_source = ob_source r, env_event_type = ob_event_type r,
      env_partition_key = ob_partition_key r, env_time = isoformat (ob_created_at r),
      env_tenant_id = ob_tenant_id r, env_data_schema = ob_event_type r @ ''.schema.json'',
      env_data = ob_payload r, env_causation_id = ob_causation_id r,
      env_correlation_id = ob_correlation_id r, env_data_classification = ob_data_classification r,
      env_trace_parent =
        (case dict_get (ob_payload r) ''trace_parent'' of Some (JStr t) \<Rightarrow> Some t | _ \<Rightarrow> None)\<rparr>"

definition pending_rows :: "nat \<Rightarrow> outbox_row list \<Rightarrow> outbox_row list" where
  "pending_rows batch_size t =
     take batch_size (sort_key (\<lambda>r. (ob_created_at r, ob_id r)) (filter (\<lambda>r. ob_status r = PENDING_OUT) t))"

definition mark_published :: "timestamp \<Rightarrow> uuid \<Rightarrow> outbox_row list \<Rightarrow> outbox_row list" where
  "mark_published now i t =
     update_where (\<lambda>r. ob_id r = i \<and> ob_status r = PENDING_OUT)
       (\<lambda>r. r\<lparr>ob_status := PUBLISHED_OUT, ob_published_at := Some now, ob_attempts := ob_attempts r + 1\<rparr>) t"

text \<open>
  The loop of \<open>dispatch_pending\<close> over the selected rows: \<open>None\<close> for the table when a publish
  raised, since the transaction then rolls back while the bus keeps what it accepted.
\<close>

fun dispatch_loop ::
  "timestamp \<Rightarrow> ('w \<Rightarrow> execution_envelope \<Rightarrow> 'w \<times> bool) \<Rightarrow> outbox_row list \<Rightarrow> outbox_row list \<Rightarrow> 'w \<Rightarrow> nat
   \<Rightarrow> (outbox_row list \<times> nat) option \<times> 'w" where
  "dispatch_loop now publish [] t w published = (Some (t, published), w)"
| "dispatch_loop now publish (r # rs) t w published =
     (case publish w (row_envelope r) of
        (w', False) \<Rightarrow> (None, w')
      | (w', True) \<Rightarrow> dispatch_loop now publish rs (mark_published now (ob_id r) t) w' (Suc published))"

definition dispatch_pending ::
  "nat \<Rightarrow> timestamp \<Rightarrow> ('w \<Rightarrow> execution_envelope \<Rightarrow> 'w \<times> bool) \<Rightarrow> 'a outbox_tables_scheme \<Rightarrow> 'w
   \<Rightarrow> nat option \<times> 'a outbox_tables_scheme \<times> 'w" where
  "dispatch_pending batch_size now publish db w =
     (case dispatch_loop now publish (pending_rows batch_size (outbox_record db)) (outbox_record db) w 0 of
        (Some (t, n), w') \<Rightarrow> (Some n, db\<lparr>outbox_record := t\<rparr>, w')
      | (None, w') \<Rightarrow> (None, db, w'))"


subsection \<open>Envelope round trip\<close>

lemma dict_get_opt_entry:
  "dict_get (opt_entry k v @ xs) j =
     (if j = k then (case v of None \<Rightarrow> dict_get xs j | Some s \<Rightarrow> Some (JStr s)) else dict_get xs j)"
  by (auto simp: opt_entry_def dict_get_def split: option.splits)

lemma dict_get_Cons: "dict_get ((k, v) # xs) j = (if j = k then Some v else dict_get xs j)"
  by (simp add: dict_get_def)

lemma dict_get_opt_entry_last:
  "dict_get (opt_entry k v) j = (if j = k then map_option JStr v else None)"
  by (auto simp: opt_entry_def dict_get_def split: option.splits)

lemmas dict_get_simps = dict_get_Cons dict_get_opt_entry dict_get_opt_entry_last

lemma from_dict_to_dict [simp]: "from_dict (to_dict e) = Inr e"
  by (cases e) (simp add: from_dict_def to_dict_def REQUIRED_ENVELOPE_FIELDS_def req_str_def
      optional_str_def dict_get_simps py_str_def split: option.splits)

text \<open>
  An envelope written with \<open>to_dict\<close> and printed by any serialiser that \<open>loads\<close> inverts is
  read back unchanged by the consumer's \<open>_decode\<close>.
\<close>

theorem envelope_roundtrip:
  assumes "loads (dumps (JDict (to_dict e))) = Inr (JDict (to_dict e))"
  shows "decode loads (Some (dumps (JDict (to_dict e)))) = Inr e"
  using assms by (simp add: decode_def)

subsection \<open>Partitions\<close>

lemma stable_bucket_range:
  assumes "0 < n"
  shows "\<exists>i. stable_bucket key n = Inr i \<and> 0 \<le> i \<and> i < n"
  using assms by (auto simp: stable_bucket_def)

lemma partition_of_range:
  assumes "0 < n"
  shows "\<exists>i. partition_of e n = Inr i \<and> 0 \<le> i \<and> i < n"
  using stable_bucket_range [OF assms]
  by (auto simp: partition_of_def partition_for_def split: option.splits json.splits)

text \<open>The partition index a bus of \<open>n\<close> partitions sends an envelope to.\<close>

definition bus_route :: "nat \<Rightarrow> execution_envelope \<Rightarrow> nat" where
  "bus_route n e = (case partition_of e (int n) of Inr i \<Rightarrow> nat i | Inl _ \<Rightarrow> 0)"

lemma bus_route_less: "0 < n \<Longrightarrow> bus_route n e < n"
  using partition_of_range [of "int n" e] by (auto simp: bus_route_def)

definition of_session :: "string \<Rightarrow> string \<Rightarrow> execution_envelope \<Rightarrow> bool" where
  "of_session t s e \<longleftrightarrow>
     dict_get (env_data e) ''tenant_id'' = Some (JStr t) \<and> dict_get (env_data e) ''session_id'' = Some (JStr s)"

lemma of_session_route:
  "of_session t s e \<Longrightarrow> of_session t s f \<Longrightarrow> bus_route n e = bus_route n f"
  by (simp add: of_session_def bus_route_def partition_of_def)

subsection \<open>What draining the in-memory bus delivers\<close>

definition routed :: "memory_bus \<Rightarrow> bool" where
  "routed b \<longleftrightarrow> bus_partitions b \<noteq> [] \<and>
     (\<forall>i < length (bus_partitions b). \<forall>e \<in> set (bus_partitions b ! i).
        bus_route (length (bus_partitions b)) e = i)"

lemma routed_init: "routed (bus_init n)"
  by (auto simp: routed_def bus_init_def)

lemma bus_publish_partitions:
  assumes "bus_partitions b \<noteq> []"
  shows "bus_publish b e =
    (let n = length (bus_partitions b); i = bus_route n e in
     (b\<lparr>bus_published := bus_published b @ [e],
        bus_partitions := (bus_partitions b)[i := (bus_partitions b ! i) @ [e]]\<rparr>, True))"
  using partition_of_range [of "int (length (bus_partitions b))" e] assms
  by (auto simp: bus_publish_def bus_route_def Let_def)

lemma routed_publish: "routed b \<Longrightarrow> routed (fst (bus_publish b e))"
  by (auto simp: routed_def bus_publish_partitions Let_def nth_list_update [OF bus_route_less] split: if_splits)

definition publish_all :: "memory_bus \<Rightarrow> execution_envelope list \<Rightarrow> memory_bus" where
  "publish_all b es = run_steps (\<lambda>b e. fst (bus_publish b e)) b es"

lemma publish_all_queues:
  assumes "routed b" "i < length (bus_partitions b)"
  shows "routed (publish_all b es) \<and> length (bus_partitions (publish_all b es)) = length (bus_partitions b)
    \<and> bus_partitions (publish_all b es) ! i =
        bus_partitions b ! i @ filter (\<lambda>e. bus_route (length (bus_partitions b)) e = i) es"
  using assms
proof (induction es arbitrary: b)
  case (Cons e es)
  have ne: "bus_partitions b \<noteq> []" using Cons.prems by auto
  have "routed (fst (bus_publish b e))" using Cons.prems routed_publish by blast
  with Cons.IH [of "fst (bus_publish b e)"] Cons.prems(2) show ?case
    by (auto simp: publish_all_def bus_publish_partitions [OF ne] Let_def nth_list_update)
qed (simp add: publish_all_def)

text \<open>A consumer together with the log of the envelopes it returned from without raising.\<close>

definition logging ::
  "('w \<Rightarrow> execution_envelope \<Rightarrow> 'w \<times> bool) \<Rightarrow> 'w \<times> execution_envelope list \<Rightarrow> execution_envelope
   \<Rightarrow> ('w \<times> execution_envelope list) \<times> bool" where
  "logging consumer = (\<lambda>(w, log) e. case consumer w e of (w', ok) \<Rightarrow> ((w', if ok then log @ [e] else log), ok))"

lemma deliver_once_logging:
  assumes "routed b" "deliver_once (logging c) b (w, log) = (ok, b', w', log')"
  shows "routed b' \<and> length (bus_partitions b') = length (bus_partitions b) \<and>
    (\<exists>new. log' = log @ new \<and> length new = (if ok then 1 else 0) \<and>
      (\<forall>i < length (bus_partitions b).
        bus_partitions b ! i =
          filter (\<lambda>e. bus_route (length (bus_partitions b)) e = i) new @ bus_partitions b' ! i))"
proof (cases "first_nonempty (bus_partitions b)")
  case None
  then show ?thesis using assms by (auto simp: deliver_once_def)
next
  case (Some k)
  note k = first_nonempty_SomeD [OF Some]
  have split_k: "bus_partitions b ! k = hd (bus_partitions b ! k) # tl (bus_partitions b ! k)"
    using k by simp
  then have rt: "bus_route (length (bus_partitions b)) (hd (bus_partitions b ! k)) = k"
    using assms(1) k by (auto simp: routed_def)
  have "routed (b\<lparr>bus_partitions := (bus_partitions b)[k := tl (bus_partitions b ! k)]\<rparr>)"
    using assms(1) k by (auto simp: routed_def nth_list_update dest: list.set_sel(2))
  then show ?thesis using assms Some k rt split_k
    by (auto simp: deliver_once_def logging_def Let_def routed_def nth_list_update
        split: prod.splits if_splits)
qed

lemma drain_logging:
  assumes "routed b" "drain (logging c) b (w, log) d = (d', b', w', log')"
  shows "routed b' \<and> length (bus_partitions b') = length (bus_partitions b) \<and>
    (\<exists>new. log' = log @ new \<and> d' = d + length new \<and>
      (\<forall>i < length (bus_partitions b).
        bus_partitions b ! i =
          filter (\<lambda>e. bus_route (length (bus_partitions b)) e = i) new @ bus_partitions b' ! i))"
  using assms
proof (induction "logging c" b "(w, log)" d arbitrary: w log rule: drain.induct)
  case (1 b d)
  obtain ok b1 w1 log1 where st: "deliver_once (logging c) b (w, log) = (ok, b1, w1, log1)"
    by (metis prod_cases4)
  from deliver_once_logging [OF 1(2) st] obtain n1 where
    n1: "routed b1" "length (bus_partitions b1) = length (bus_partitions b)" "log1 = log @ n1"
      "length n1 = (if ok then 1 else 0)"
      "\<forall>i < length (bus_partitions b). bus_partitions b ! i =
          filter (\<lambda>e. bus_route (length (bus_partitions b)) e = i) n1 @ bus_partitions b1 ! i"
    by blast
  show ?case
  proof (cases ok)
    case False
    then show ?thesis using 1(3) st n1 by (auto simp: drain.simps [of _ b])
  next
    case True
    have st': "(True, b1, w1, log1) = deliver_once (logging c) b (w, log)" using st True by simp
    have "drain (logging c) b1 (w1, log1) (Suc d) = (d', b', w', log')"
      using 1(3) by (simp add: drain.simps [of _ b] flip: st')
    from 1(1) [OF st' refl refl n1(1) this] obtain n2 where
      n2: "routed b'" "length (bus_partitions b') = length (bus_partitions b1)" "log' = log1 @ n2"
        "d' = Suc d + length n2"
        "\<forall>i < length (bus_partitions b1). bus_partitions b1 ! i =
          filter (\<lambda>e. bus_route (length (bus_partitions b1)) e = i) n2 @ bus_partitions b' ! i"
      by blast
    show ?thesis using True n1 n2 by (intro conjI exI [of _ "n1 @ n2"]) auto
  qed
qed

lemma filter_concat_single:
  assumes "k < length ps" "\<forall>j < length ps. j \<noteq> k \<longrightarrow> filter P (ps ! j) = []"
  shows "filter P (concat ps) = filter P (ps ! k)"
  using assms
proof (induction ps arbitrary: k)
  case (Cons p ps)
  show ?case
  proof (cases k)
    case 0
    have "filter P q = []" if "q \<in> set ps" for q
      using that Cons.prems(2) 0 by (metis in_set_conv_nth length_Cons nat.simps(3) not_less_eq nth_Cons_Suc)
    then show ?thesis using 0 by (auto simp: filter_concat)
  next
    case (Suc j)
    have "filter P p = []" using Cons.prems(2) Suc by (metis length_Cons nat.simps(3) nth_Cons_0 zero_less_Suc)
    moreover have "\<forall>i < length ps. i \<noteq> j \<longrightarrow> filter P (ps ! i) = []"
      using Cons.prems(2) Suc by (metis Suc_inject Suc_less_eq length_Cons nth_Cons_Suc)
    ultimately show ?thesis using Cons.prems(1) Cons.IH [of j] Suc by simp
  qed
qed simp

lemma session_partition:
  assumes "0 < n"
  obtains k where "k < n" "\<And>e. of_session t s e \<Longrightarrow> bus_route n e = k"
proof (rule that)
  let ?k = "case partition_for t s (int n) of Inr i \<Rightarrow> nat i | Inl _ \<Rightarrow> 0"
  show "?k < n"
    using stable_bucket_range [of "int n" "t @ [char_of (31 :: nat)] @ s"] assms by (auto simp: partition_for_def)
  show "bus_route n e = ?k" if "of_session t s e" for e
    using that by (simp add: of_session_def bus_route_def partition_of_def)
qed

lemma filter_session_queues:
  assumes "routed b" "k < length (bus_partitions b)"
    "\<And>e. of_session t s e \<Longrightarrow> bus_route (length (bus_partitions b)) e = k"
  shows "filter (of_session t s) (concat (bus_partitions b)) = filter (of_session t s) (bus_partitions b ! k)"
  using assms(1,2) by (intro filter_concat_single) (auto simp: routed_def filter_empty_conv dest: assms(3))

lemma filter_session_part:
  assumes "\<And>e. of_session t s e \<Longrightarrow> bus_route n e = k"
  shows "filter (of_session t s) (filter (\<lambda>e. bus_route n e = k) xs) = filter (of_session t s) xs"
  using assms by (auto simp: filter_filter intro!: filter_cong)

text \<open>
  At-least-once with order. Whatever was published to a bus, whichever consumer drains it
  and wherever that consumer raises, the envelopes of a session it completed are exactly the
  first ones published for that session, in publication order, and the others are still
  queued for redelivery (nothing is lost, skipped or reordered within a session).
\<close>

theorem drain_session_order:
  "case drain (logging consumer) (publish_all (bus_init n) es) (w, []) 0 of (d, b', w', log) \<Rightarrow>
     d = length log \<and>
     filter (of_session t s) es = filter (of_session t s) log @ filter (of_session t s) (concat (bus_partitions b'))"
proof -
  let ?b = "publish_all (bus_init n) es" and ?m = "length (bus_partitions (bus_init n))"
  have m: "0 < ?m" by (simp add: bus_init_def)
  obtain k where k: "k < ?m" "\<And>e. of_session t s e \<Longrightarrow> bus_route ?m e = k"
    using session_partition [OF m] by metis
  have b: "routed ?b" "length (bus_partitions ?b) = ?m"
    "bus_partitions ?b ! k = filter (\<lambda>e. bus_route ?m e = k) es"
    using publish_all_queues [OF routed_init k(1), of es] k(1) by (auto simp: bus_init_def)
  obtain d b' w' log where dr: "drain (logging consumer) ?b (w, []) 0 = (d, b', w', log)"
    by (metis prod_cases4)
  from drain_logging [OF b(1) dr] k(1) b(2)
  have b': "routed b'" "length (bus_partitions b') = ?m" "d = length log"
    "bus_partitions ?b ! k = filter (\<lambda>e. bus_route ?m e = k) log @ bus_partitions b' ! k"
    by auto
  have "filter (of_session t s) es = filter (of_session t s) (bus_partitions ?b ! k)"
    by (simp only: b(3) filter_session_part [of t s, OF k(2)])
  also have "\<dots> = filter (of_session t s) log @ filter (of_session t s) (bus_partitions b' ! k)"
    by (simp only: b'(4) filter_append filter_session_part [of t s, OF k(2)])
  also have "filter (of_session t s) (bus_partitions b' ! k) = filter (of_session t s) (concat (bus_partitions b'))"
    using filter_session_queues [of b' k t s] b' k by simp
  finally show ?thesis using dr b'(3) by simp
qed

text \<open>A consumer that never raises empties the bus, and \<open>drain\<close> returns how many it delivered.\<close>

lemma deliver_once_ok_stops:
  assumes "\<And>w e. snd (consumer w e)" "deliver_once consumer b w = (False, b', w')"
  shows "b' = b \<and> pending_count b = 0"
proof -
  have none: "first_nonempty ps = None \<Longrightarrow> sum_list (map length ps) = 0" for ps :: "execution_envelope list list"
    by (induction ps) (auto split: if_splits)
  show ?thesis
  proof (cases "first_nonempty (bus_partitions b)")
    case None
    then show ?thesis using assms(2) none by (simp add: deliver_once_def pending_count_def)
  next
    case (Some i)
    then show ?thesis using assms(2) assms(1) [of w "hd (bus_partitions b ! i)"]
      by (auto simp: deliver_once_def Let_def split: prod.splits if_splits)
  qed
qed

lemma drain_ok_empties:
  assumes "\<And>w e. snd (consumer w e)"
  shows "case drain consumer b w d of (d', b', w') \<Rightarrow> d' = d + pending_count b \<and> pending_count b' = 0"
  using assms
proof (induction consumer b w d rule: drain.induct)
  case (1 c b w d)
  obtain ok b1 w1 where st: "deliver_once c b w = (ok, b1, w1)" by (metis prod_cases3)
  show ?case
  proof (cases ok)
    case True
    with 1(1) [of True "(b1, w1)" b1 w1] 1(2) st deliver_once_pending [of c b w b1 w1] show ?thesis
      by (auto simp: drain.simps [of c b] split: prod.splits)
  next
    case False
    then show ?thesis using st deliver_once_ok_stops [where consumer = c and b = b and w = w] 1(2) by (simp add: drain.simps [of c b])
  qed
qed

lemma publish_all_pending:
  assumes "bus_partitions b \<noteq> []"
  shows "pending_count (publish_all b es) = pending_count b + length es"
  using assms
proof (induction es arbitrary: b)
  case (Cons e es)
  let ?b = "fst (bus_publish b e)"
  have grow: "i < length ps \<Longrightarrow> sum_list (map length (ps[i := ps ! i @ [e]])) = Suc (sum_list (map length ps))"
    for ps and i
    by (induction ps arbitrary: i) (auto simp: nth_Cons split: nat.splits)
  have "pending_count ?b = Suc (pending_count b)"
    using grow [OF bus_route_less] Cons.prems by (simp add: bus_publish_partitions Let_def pending_count_def)
  moreover have "bus_partitions ?b \<noteq> []" using Cons.prems by (simp add: bus_publish_partitions Let_def)
  ultimately show ?case using Cons.IH [of ?b] by (simp add: publish_all_def)
qed (simp add: publish_all_def)

text \<open>
  Liveness of the in-memory bus. With a consumer that never raises, \<open>drain\<close> ends with an
  empty bus and returns the number of envelopes published.
\<close>

theorem drain_delivers_all:
  assumes "\<And>w e. snd (consumer w e)"
  shows "case drain consumer (publish_all (bus_init n) es) w 0 of (d, b', w') \<Rightarrow>
    d = length es \<and> pending_count b' = 0"
proof -
  have "pending_count (bus_init n) = 0" by (simp add: bus_init_def pending_count_def sum_list_replicate)
  then show ?thesis
    using drain_ok_empties [where consumer = consumer and b = "publish_all (bus_init n) es" and w = w and d = 0] assms publish_all_pending [of "bus_init n" es]
    by (simp add: bus_init_def)
qed

definition sample_envelope :: execution_envelope where
  "sample_envelope = \<lparr>env_message_id = ''m1'', env_source = GATEWAY_SOURCE,
     env_event_type = EXECUTION_REQUESTED_EVENT, env_partition_key = ''t:s'', env_time = ''now'',
     env_tenant_id = ''t'', env_data_schema = ''d'', env_data = [(''tenant_id'', JStr ''t''), (''session_id'', JStr ''s'')],
     env_causation_id = None, env_correlation_id = None, env_data_classification = None,
     env_trace_parent = None\<rparr>"

theorem envelope_roundtrip_witness:
  "decode (\<lambda>v. if v = canonical_dumps (JDict (to_dict sample_envelope)) then Inr (JDict (to_dict sample_envelope)) else Inl ''JSONDecodeError'')
     (Some (canonical_dumps (JDict (to_dict sample_envelope)))) = Inr sample_envelope"
  by (rule envelope_roundtrip) simp

theorem drain_delivers_all_witness:
  "case drain (\<lambda>w e. (Suc w, True)) (publish_all (bus_init 4) [sample_envelope, sample_envelope]) (0 :: nat) 0
     of (d, b', w') \<Rightarrow> d = length [sample_envelope, sample_envelope] \<and> pending_count b' = 0"
  using drain_delivers_all
    [where consumer = "\<lambda>w e. (Suc w, True)" and n = 4 and es = "[sample_envelope, sample_envelope]" and w = "0 :: nat"] by simp

subsection \<open>Offsets and poison records\<close>

text \<open>
  An offset is committed only past a record that is dealt with. If a call of
  \<open>process_once\<close> asks the client to commit, then the commit is for the first polled record,
  at its offset plus one, and either the handler returned for it, or the record failed at
  least the configured number of times and was sent to the dead-letter topic before the commit.
\<close>

theorem commit_after_completion:
  assumes "process_once b64 loads handler dlq_ok commit_ok kc batches = (res, kc', calls)"
    and "Commit tp off \<in> set calls"
  shows "\<exists>r rs. (tp, r # rs) \<in> set batches \<and> off = rec_offset r + 1 \<and>
    (record_outcome loads handler r = Handled \<and> calls = [Commit tp off] \<or>
     (\<exists>err n. record_outcome loads handler r = Raised err \<and> kc_max_delivery_attempts kc \<le> n \<and>
        dlq_ok \<and> calls = [dead_letter b64 kc tp r n err, Commit tp off]))"
  using assms
proof (induction b64 loads handler dlq_ok commit_ok kc batches rule: process_once.induct)
  case (3 b64 loads handler dlq_ok commit_ok kc tp' r rs batches)
  then show ?case
    by (cases "record_outcome loads handler r")
      (auto simp: consume_record_def Let_def dead_letter_def split: if_splits; fastforce)+
qed auto

text \<open>
  A record that is not committed is delivered again (the consumer seeks back to it):
  \<open>redeliver k\<close> is the outcome of \<open>k\<close> consecutive deliveries of it.
\<close>

fun redeliver ::
  "(string \<Rightarrow> string) \<Rightarrow> (string \<Rightarrow> string + json) \<Rightarrow> (execution_envelope \<Rightarrow> handler_outcome)
   \<Rightarrow> kafka_consumer \<Rightarrow> topic_partition \<Rightarrow> kafka_record_in \<Rightarrow> nat \<Rightarrow> (consume_result \<times> client_call list) list" where
  "redeliver b64 loads handler kc tp r 0 = []"
| "redeliver b64 loads handler kc tp r (Suc k) =
     (case process_once b64 loads handler True True kc [(tp, [r])] of
        (res, kc', calls) \<Rightarrow> (res, calls) # redeliver b64 loads handler kc' tp r k)"

definition failures :: "kafka_consumer \<Rightarrow> topic_partition \<Rightarrow> kafka_record_in \<Rightarrow> nat" where
  "failures kc tp r = (case kc_failure_attempts kc (failure_key tp (rec_offset r)) of None \<Rightarrow> 0 | Some n \<Rightarrow> n)"

lemma redeliver_poison:
  assumes "record_outcome loads handler r = Raised err" "kc_dead_letter_producer kc"
    "failures kc tp r + Suc k = kc_max_delivery_attempts kc"
  shows "redeliver b64 loads handler kc tp r (Suc k) =
    replicate k (ConsumeRaised err, [Seek tp (rec_offset r)]) @
    [(Returned True, [dead_letter b64 kc tp r (kc_max_delivery_attempts kc) err, Commit tp (rec_offset r + 1)])]"
  using assms
proof (induction k arbitrary: kc)
  case 0
  then show ?case by (simp add: consume_record_def failures_def Let_def)
next
  case (Suc k)
  let ?kc = "kc\<lparr>kc_failure_attempts := (kc_failure_attempts kc)(failure_key tp (rec_offset r) \<mapsto> failures kc tp r + 1)\<rparr>"
  have "process_once b64 loads handler True True kc [(tp, [r])] =
      (ConsumeRaised err, ?kc, [Seek tp (rec_offset r)])"
    using Suc.prems by (simp add: consume_record_def failures_def Let_def)
  moreover have "failures ?kc tp r = failures kc tp r + 1" by (simp add: failures_def)
  moreover have "dead_letter b64 ?kc tp r = dead_letter b64 kc tp r" by (intro ext) (simp add: dead_letter_def)
  ultimately show ?case using Suc.IH [of ?kc] Suc.prems by (simp del: process_once.simps)
qed

text \<open>
  Liveness past a poison record. A record whose handling always raises blocks its
  partition for exactly \<open>max_delivery_attempts - 1\<close> deliveries, each of which seeks back to it;
  the next delivery writes the dead letter (with the number of attempts) and commits past it.
\<close>

theorem poison_record_dead_lettered:
  assumes "new_consumer servers topic grp dlt n producer_given = Inr kc" "dlt \<noteq> []"
    and "record_outcome loads handler r = Raised err"
  shows "redeliver b64 loads handler kc tp r (nat n) =
    replicate (nat n - 1) (ConsumeRaised err, [Seek tp (rec_offset r)]) @
    [(Returned True, [dead_letter b64 kc tp r (nat n) err, Commit tp (rec_offset r + 1)])]"
proof -
  have kc: "1 \<le> n" "kc_max_delivery_attempts kc = nat n" "kc_dead_letter_producer kc" "failures kc tp r = 0"
    using assms(1,2) by (auto simp: new_consumer_def failures_def split: if_splits)
  then have "redeliver b64 loads handler kc tp r (Suc (nat n - 1)) =
    replicate (nat n - 1) (ConsumeRaised err, [Seek tp (rec_offset r)]) @
    [(Returned True, [dead_letter b64 kc tp r (kc_max_delivery_attempts kc) err, Commit tp (rec_offset r + 1)])]"
    by (intro redeliver_poison assms) auto
  moreover have "Suc (nat n - 1) = nat n" using kc(1) by simp
  ultimately show ?thesis using kc(2) by metis
qed

text \<open>A consumer with a dead-letter topic, and a \<open>json.loads\<close> that knows one record.\<close>

definition sample_consumer :: "nat \<Rightarrow> kafka_consumer" where
  "sample_consumer n = \<lparr>kc_dead_letter_topic = ''dlq'', kc_max_delivery_attempts = n,
     kc_dead_letter_producer = True, kc_failure_attempts = Map.empty\<rparr>"

definition sample_loads :: "string \<Rightarrow> string + json" where
  "sample_loads v = (if v = ''good'' then Inr (JDict (to_dict sample_envelope)) else Inl ''JSONDecodeError'')"

definition bad_record :: kafka_record_in where
  "bad_record = \<lparr>rec_offset = 7, rec_value = Some ''bad''\<rparr>"

theorem commit_after_completion_witness:
  "(\<exists>calls. process_once id sample_loads (\<lambda>_. Handled) True True (sample_consumer 1) [((''runs'', 0), [bad_record])] =
      (Returned True, sample_consumer 1, calls) \<and> Commit (''runs'', 0) 8 \<in> set calls) \<and>
   (\<exists>r rs. ((''runs'', 0), r # rs) \<in> set [((''runs'', 0), [bad_record])] \<and> 8 = rec_offset r + 1)"
proof -
  have "process_once id sample_loads (\<lambda>_. Handled) True True (sample_consumer 1) [((''runs'', 0), [bad_record])] =
    (Returned True, sample_consumer 1,
     [dead_letter id (sample_consumer 1) (''runs'', 0) bad_record 1 ''JSONDecodeError'', Commit (''runs'', 0) 8])"
    by (auto simp: consume_record_def record_outcome_def decode_def sample_loads_def sample_consumer_def
      bad_record_def Let_def intro!: ext)
  from commit_after_completion [OF this, of "(''runs'', 0)" 8] this show ?thesis by auto
qed

theorem poison_record_dead_lettered_witness:
  "redeliver id sample_loads (\<lambda>_. Handled) (sample_consumer 3) (''runs'', 0)
     bad_record (nat 3) =
   replicate (nat 3 - 1) (ConsumeRaised ''JSONDecodeError'', [Seek (''runs'', 0) (rec_offset bad_record)]) @
    [(Returned True, [dead_letter id (sample_consumer 3) (''runs'', 0) bad_record (nat 3) ''JSONDecodeError'',
      Commit (''runs'', 0) (rec_offset bad_record + 1)])]"
  by (rule poison_record_dead_lettered
      [where servers = "''kafka:9092''" and topic = "''runs''" and grp = "''workers''" and dlt = "''dlq''" and producer_given = True])
    (simp_all add: new_consumer_def sample_consumer_def record_outcome_def decode_def sample_loads_def bad_record_def)

subsection \<open>Publishers and the Outbox dispatcher\<close>

text \<open>
  What the dispatcher relies on from a bus (the \<open>ExecutionBusPublisher\<close> protocol): a publish
  that returns has appended the envelope's message to the bus's log, one that raises has not.
\<close>

locale bus_publisher =
  fixes publish :: "'w \<Rightarrow> execution_envelope \<Rightarrow> 'w \<times> bool"
    and wf :: "'w \<Rightarrow> bool"
    and log :: "'w \<Rightarrow> 'm list"
    and msg :: "execution_envelope \<Rightarrow> 'm"
  assumes publish_ok: "wf w \<Longrightarrow> publish w e = (w', True) \<Longrightarrow> wf w' \<and> log w' = log w @ [msg e]"
    and publish_raise: "wf w \<Longrightarrow> publish w e = (w', False) \<Longrightarrow> wf w' \<and> log w' = log w"
begin

lemma dispatch_loop_log:
  assumes "wf w" "dispatch_loop now publish rs t w n = (res, w')"
  shows "wf w' \<and>
    (case res of
       Some (t', n') \<Rightarrow> n' = n + length rs \<and> log w' = log w @ map (msg \<circ> row_envelope) rs \<and>
         t' = fold (\<lambda>r. mark_published now (ob_id r)) rs t
     | None \<Rightarrow> (\<exists>k < length rs. log w' = log w @ map (msg \<circ> row_envelope) (take k rs)))"
  using assms
proof (induction rs arbitrary: t w n)
  case (Cons r rs)
  obtain w1 ok where p: "publish w (row_envelope r) = (w1, ok)" by fastforce
  show ?case
  proof (cases ok)
    case True
    with p Cons.prems have *: "wf w1" "log w1 = log w @ [msg (row_envelope r)]"
      "dispatch_loop now publish rs (mark_published now (ob_id r) t) w1 (Suc n) = (res, w')"
      using publish_ok by auto
    from Cons.IH [OF *(1,3)] *(2) show ?thesis
      by (auto split: option.splits intro: exI [of _ "Suc k" for k])
  next
    case False
    with p Cons.prems publish_raise [of w _ w1] show ?thesis by (auto intro: exI [of _ 0])
  qed
qed auto

lemma dispatch_pending_log:
  assumes "wf w" "dispatch_pending batch now publish db w = (res, db', w')"
  shows "wf w' \<and>
    (case res of
       Some n \<Rightarrow> n = length (pending_rows batch (outbox_record db)) \<and>
         log w' = log w @ map (msg \<circ> row_envelope) (pending_rows batch (outbox_record db)) \<and>
         outbox_record db' = fold (\<lambda>r. mark_published now (ob_id r)) (pending_rows batch (outbox_record db)) (outbox_record db)
     | None \<Rightarrow> db' = db \<and> (\<exists>k < length (pending_rows batch (outbox_record db)).
         log w' = log w @ map (msg \<circ> row_envelope) (take k (pending_rows batch (outbox_record db)))))"
  using assms dispatch_loop_log [of w now "pending_rows batch (outbox_record db)" "outbox_record db" 0]
  by (fastforce simp: dispatch_pending_def split: option.splits prod.splits)

end

interpretation memory: bus_publisher bus_publish "\<lambda>b. bus_partitions b \<noteq> []" bus_published id
  by unfold_locales (auto simp: bus_publish_partitions Let_def)

interpretation kafka: bus_publisher "kafka_publish topics sends" "\<lambda>_. True" id "kafka_record topics"
  for topics sends
  by unfold_locales (auto simp: kafka_publish_def Let_def split: if_splits)

lemma ob_id_mark_published [simp]: "map ob_id (mark_published now i t) = map ob_id t"
  by (simp add: mark_published_def map_update_where_same)

lemma fold_mark_published:
  assumes "unique_key ob_id t"
  shows "fold (\<lambda>r. mark_published now (ob_id r)) rs t =
    update_where (\<lambda>r. ob_id r \<in> ob_id ` set rs \<and> ob_status r = PENDING_OUT)
      (\<lambda>r. r\<lparr>ob_status := PUBLISHED_OUT, ob_published_at := Some now, ob_attempts := ob_attempts r + 1\<rparr>) t"
  by (induction rs arbitrary: t) (auto simp: mark_published_def update_where_def)

lemma set_pending_rows: "r \<in> set (pending_rows n t) \<Longrightarrow> r \<in> set t \<and> ob_status r = PENDING_OUT"
  by (auto simp: pending_rows_def dest: in_set_takeD)

definition publish_row :: "timestamp \<Rightarrow> outbox_row \<Rightarrow> outbox_row" where
  "publish_row now r = r\<lparr>ob_status := PUBLISHED_OUT, ob_published_at := Some now, ob_attempts := ob_attempts r + 1\<rparr>"

lemma fold_mark_pending:
  assumes "unique_key ob_id t"
  shows "fold (\<lambda>r. mark_published now (ob_id r)) (pending_rows batch t) t =
    map (\<lambda>r. if r \<in> set (pending_rows batch t) then publish_row now r else r) t"
proof -
  have "(ob_id r \<in> ob_id ` set (pending_rows batch t) \<and> ob_status r = PENDING_OUT) = (r \<in> set (pending_rows batch t))"
    if "r \<in> set t" for r
    using that assms set_pending_rows [of _ batch t]
    by (auto simp: unique_key_def distinct_map inj_on_def)
  then show ?thesis by (auto simp: fold_mark_published [OF assms] update_where_def publish_row_def)
qed

text \<open>
  The dispatcher and Kafka. When \<open>dispatch_pending\<close> returns, it has sent exactly the
  oldest pending rows (at most a batch), in order, and exactly these rows are marked
  published; when a send raises, the rows already sent form a prefix of the batch and the
  table is unchanged, so all of them are sent again (at least once, never lost).
\<close>

theorem dispatch_pending_kafka:
  assumes "unique_key ob_id (outbox_record db)"
    and "dispatch_pending batch now (kafka_publish topics sends) db sent = (res, db', sent')"
  shows "case res of
      Some n \<Rightarrow>
        sent' = sent @ map (kafka_record topics \<circ> row_envelope) (pending_rows batch (outbox_record db)) \<and>
        n = length (pending_rows batch (outbox_record db)) \<and>
        outbox_record db' = map (\<lambda>r. if r \<in> set (pending_rows batch (outbox_record db))
          then r\<lparr>ob_status := PUBLISHED_OUT, ob_published_at := Some now, ob_attempts := ob_attempts r + 1\<rparr>
          else r) (outbox_record db)
    | None \<Rightarrow> db' = db \<and> (\<exists>k < length (pending_rows batch (outbox_record db)).
        sent' = sent @ map (kafka_record topics \<circ> row_envelope) (take k (pending_rows batch (outbox_record db))))"
  using kafka.dispatch_pending_log [OF TrueI assms(2)]
  by (auto simp: fold_mark_pending [OF assms(1)] publish_row_def [abs_def] split: option.splits)

text \<open>The whole backlog, in the order in which it is published.\<close>

definition backlog :: "outbox_row list \<Rightarrow> outbox_row list" where
  "backlog t = sort_key (\<lambda>r. (ob_created_at r, ob_id r)) (filter (\<lambda>r. ob_status r = PENDING_OUT) t)"

lemma pending_rows_backlog: "pending_rows n t = take n (backlog t)"
  by (simp add: pending_rows_def backlog_def)

lemma filter_not_in_take: "distinct xs \<Longrightarrow> filter (\<lambda>x. x \<notin> set (take n xs)) xs = drop n xs"
proof -
  assume "distinct xs"
  then have d: "set (take n xs) \<inter> set (drop n xs) = {}" by (rule set_take_disj_set_drop_if_distinct) simp
  have "filter (\<lambda>x. x \<notin> set (take n xs)) (take n xs @ drop n xs) = drop n xs"
    unfolding filter_append using d by (auto simp: filter_empty_conv filter_id_conv)
  then show ?thesis by simp
qed

lemma backlog_dispatched:
  assumes "unique_key ob_id t"
  shows "backlog (map (\<lambda>r. if r \<in> set (pending_rows n t) then publish_row now r else r) t) = drop n (backlog t)"
proof -
  let ?S = "set (take n (backlog t))" and ?p = "\<lambda>r. ob_status r = PENDING_OUT"
  have "distinct t" using assms by (auto simp: unique_key_def distinct_map)
  then have d: "distinct (backlog t)" by (simp add: backlog_def)
  have "filter ?p (map (\<lambda>r. if r \<in> S then publish_row now r else r) xs) = filter (\<lambda>r. r \<notin> S) (filter ?p xs)" for S xs
    by (induction xs) (auto simp: publish_row_def)
  then have "backlog (map (\<lambda>r. if r \<in> ?S then publish_row now r else r) t) = filter (\<lambda>r. r \<notin> ?S) (backlog t)"
    unfolding backlog_def by (simp only: filter_sort)
  then show ?thesis by (simp add: pending_rows_backlog filter_not_in_take [OF d])
qed

text \<open>The worker loop: a dispatch every tick, \<open>nows\<close> the instants of the ticks.\<close>

fun dispatch_rounds ::
  "nat \<Rightarrow> timestamp list \<Rightarrow> outbox_tables \<Rightarrow> memory_bus \<Rightarrow> outbox_tables \<times> memory_bus" where
  "dispatch_rounds batch [] db b = (db, b)"
| "dispatch_rounds batch (now # nows) db b =
     (case dispatch_pending batch now bus_publish db b of (_, db', b') \<Rightarrow> dispatch_rounds batch nows db' b')"

lemma dispatch_memory:
  assumes "unique_key ob_id (outbox_record db)" "bus_partitions b \<noteq> []"
    "dispatch_pending batch now bus_publish db b = (res, db', b')"
  shows "res \<noteq> None" "bus_partitions b' \<noteq> []"
    "bus_published b' = bus_published b @ map row_envelope (take batch (backlog (outbox_record db)))"
    "outbox_record db' = map (\<lambda>r. if r \<in> set (pending_rows batch (outbox_record db)) then publish_row now r else r) (outbox_record db)"
proof -
  have "dispatch_loop now bus_publish rs t w n \<noteq> (None, w')" if "bus_partitions w \<noteq> []" for rs t w n w'
    using that by (induction rs arbitrary: t w n) (auto simp: bus_publish_partitions Let_def split: prod.splits bool.splits)
  with assms(2,3) show r: "res \<noteq> None"
    by (auto simp: dispatch_pending_def split: prod.splits option.splits)
  with memory.dispatch_pending_log [OF assms(2,3)]
  show "bus_partitions b' \<noteq> []"
    "bus_published b' = bus_published b @ map row_envelope (take batch (backlog (outbox_record db)))"
    "outbox_record db' = map (\<lambda>r. if r \<in> set (pending_rows batch (outbox_record db)) then publish_row now r else r) (outbox_record db)"
    by (auto simp: fold_mark_pending [OF assms(1), unfolded pending_rows_backlog] pending_rows_backlog)
qed

lemma unique_published:
  "unique_key ob_id t \<Longrightarrow> unique_key ob_id (map (\<lambda>r. if P r then publish_row now r else r) t)"
  by (simp add: unique_key_def publish_row_def comp_def if_distrib cong: if_cong)

lemma dispatch_rounds_log:
  assumes "unique_key ob_id (outbox_record db)" "bus_partitions b \<noteq> []"
    "dispatch_rounds batch nows db b = (db', b')"
  shows "bus_published b' = bus_published b @ map row_envelope (take (batch * length nows) (backlog (outbox_record db))) \<and>
    backlog (outbox_record db') = drop (batch * length nows) (backlog (outbox_record db))"
  using assms
proof (induction nows arbitrary: db b)
  case (Cons now nows)
  obtain res db1 b1 where st: "dispatch_pending batch now bus_publish db b = (res, db1, b1)" by (metis prod_cases3)
  note m = dispatch_memory [OF Cons.prems(1,2) st]
  have "unique_key ob_id (outbox_record db1)" by (simp add: m(4) unique_published Cons.prems(1))
  moreover have "dispatch_rounds batch nows db1 b1 = (db', b')" using Cons.prems(3) st by simp
  ultimately show ?case
    using Cons.IH [of db1 b1] m(2,3) backlog_dispatched [OF Cons.prems(1), of batch now, folded m(4)]
    by (simp add: take_add ac_simps)
qed simp

lemma set_backlog: "set (backlog t) = {r \<in> set t. ob_status r = PENDING_OUT}"
  by (auto simp: backlog_def)

lemma all_published:
  assumes "backlog t = []" "r \<in> set t"
  shows "ob_status r = PUBLISHED_OUT"
  using assms set_backlog [of t] by (cases "ob_status r") auto

text \<open>
  The dispatcher drains the Outbox. With the in-memory bus and enough rounds, every row
  that was pending is published exactly once, oldest first, and no row stays pending.
\<close>

theorem dispatch_rounds_drain:
  assumes "unique_key ob_id (outbox_record db)" "bus_partitions b \<noteq> []"
    and "length (backlog (outbox_record db)) \<le> batch * length nows"
  shows "case dispatch_rounds batch nows db b of (db', b') \<Rightarrow>
    bus_published b' = bus_published b @ map row_envelope (backlog (outbox_record db)) \<and>
    (\<forall>r \<in> set (outbox_record db'). ob_status r = PUBLISHED_OUT)"
proof -
  obtain db' b' where "dispatch_rounds batch nows db b = (db', b')" by fastforce
  with dispatch_rounds_log [OF assms(1,2) this] assms(3) show ?thesis
    by (auto dest!: all_published)
qed

text \<open>Two pending rows, inserted through \<open>insert_outbox_record\<close>.\<close>

definition sample_outbox :: outbox_tables where
  "sample_outbox = \<lparr>outbox_record = [
     \<lparr>ob_tenant_id = ''t'', ob_id = ''2'', ob_message_id = ''b'', ob_source = GATEWAY_SOURCE,
      ob_event_type = EXECUTION_REQUESTED_EVENT, ob_partition_key = ''t:s'', ob_causation_id = None,
      ob_correlation_id = None, ob_data_classification = None, ob_payload = [],
      ob_status = PENDING_OUT, ob_attempts = 0, ob_created_at = 5, ob_published_at = None\<rparr>,
     \<lparr>ob_tenant_id = ''t'', ob_id = ''1'', ob_message_id = ''a'', ob_source = GATEWAY_SOURCE,
      ob_event_type = EXECUTION_REQUESTED_EVENT, ob_partition_key = ''t:s'', ob_causation_id = None,
      ob_correlation_id = None, ob_data_classification = None, ob_payload = [],
      ob_status = PENDING_OUT, ob_attempts = 0, ob_created_at = 5, ob_published_at = None\<rparr>]\<rparr>"

lemma sample_outbox_facts:
  "unique_key ob_id (outbox_record sample_outbox)"
  "map ob_id (backlog (outbox_record sample_outbox)) = [''1'', ''2'']"
  by (simp_all add: sample_outbox_def unique_key_def backlog_def)

theorem dispatch_pending_kafka_witness:
  "case dispatch_pending 1 9 (kafka_publish Map.empty (\<lambda>_. True)) sample_outbox [] of (res, db', sent') \<Rightarrow>
     case res of
       Some n \<Rightarrow> sent' = [] @ map (kafka_record Map.empty \<circ> row_envelope) (pending_rows 1 (outbox_record sample_outbox))
     | None \<Rightarrow> db' = sample_outbox"
  using dispatch_pending_kafka [OF sample_outbox_facts(1), of 1 9 Map.empty "\<lambda>_. True" "[]"]
  by (auto split: prod.splits option.splits)

theorem dispatch_rounds_drain_witness:
  "case dispatch_rounds 1 [8, 9] sample_outbox (bus_init 2) of (db', b') \<Rightarrow>
    bus_published b' = bus_published (bus_init 2) @ map row_envelope (backlog (outbox_record sample_outbox)) \<and>
    (\<forall>r \<in> set (outbox_record db'). ob_status r = PUBLISHED_OUT)"
  by (rule dispatch_rounds_drain [OF sample_outbox_facts(1)])
    (use arg_cong [OF sample_outbox_facts(2), of length] in \<open>simp_all add: bus_init_def\<close>)

end
