(* ===== verification/Sessions.thy ===== *)
theory Sessions
  imports Execution_Bus
begin

text \<open>
  Session leases, fencing tokens and the authoritative Session Event commit, from
  \<open>trpc_service/sessions.py\<close>, over the tables of migration \<open>0010_execution_bus_sessions.sql\<close>.
  Each operation runs in one transaction; \<open>now\<close> is its \<open>now()\<close>. The lease time to live is an
  interval (microseconds), as \<open>make_interval(secs => ...)\<close> yields it.
\<close>

datatype session_error =
    SessionLeaseError string
  | SessionVersionConflictError string
  | SessionValueError string
  | SessionSqlError sql_error

record lease_grant =
  fencing_token :: int
  session_version :: int

record session_event_in =
  ev_kind :: string
  ev_payload :: "(string \<times> json) list"

record agent_session_row =
  as_application_id :: uuid
  as_version :: int
  as_updated_at :: timestamp

record session_lease_row =
  sl_owner_id :: string
  sl_fencing_token :: int
  sl_expires_at :: timestamp
  sl_renewed_at :: timestamp

record session_event_row =
  se_tenant_id :: uuid
  se_session_id :: string
  se_sequence :: int
  se_execution_id :: uuid
  se_kind :: string
  se_payload :: "(string \<times> json) list"

datatype execution_status = EX_PENDING | EX_SUCCEEDED | EX_FAILED

record agent_execution_row =
  ex_tenant_id :: uuid
  ex_id :: uuid
  ex_message_id :: string
  ex_session_id :: string
  ex_status :: execution_status
  ex_knowledge_revision_ids :: "string list"
  ex_application_id :: uuid
  ex_release_id :: uuid
  ex_environment :: string
  ex_subject_id :: "string option"
  ex_memory_policy_version :: string
  ex_payload_hash :: string

type_synonym session_key = "uuid \<times> string"

record session_tables = outbox_tables +
  agent_application :: "(uuid \<times> uuid) list"
  agent_session :: "session_key \<rightharpoonup> agent_session_row"
  session_lease :: "session_key \<rightharpoonup> session_lease_row"
  session_event :: "session_event_row list"
  agent_execution :: "agent_execution_row list"

definition MAX_SESSION_ID_LENGTH :: nat where "MAX_SESSION_ID_LENGTH = 512"
definition MAX_OWNER_ID_LENGTH :: nat where "MAX_OWNER_ID_LENGTH = 256"
definition DEFAULT_LEASE_TTL :: int where "DEFAULT_LEASE_TTL = seconds 30"

subsection \<open>Sessions\<close>

definition create_session_if_missing ::
  "timestamp \<Rightarrow> uuid \<Rightarrow> uuid \<Rightarrow> string \<Rightarrow> 'a session_tables_scheme \<Rightarrow> session_error + 'a session_tables_scheme" where
  "create_session_if_missing now tenant_id application_id session_id db =
     (if \<not> (1 \<le> length session_id \<and> length session_id \<le> MAX_SESSION_ID_LENGTH)
      then Inl (SessionValueError ''session_id length is out of range'')
      else case agent_session db (tenant_id, session_id) of
        Some _ \<Rightarrow> Inr db
      | None \<Rightarrow>
         if (tenant_id, application_id) \<notin> set (agent_application db) then Inl (SessionSqlError IntegrityError)
         else Inr (db\<lparr>agent_session := (agent_session db)((tenant_id, session_id) \<mapsto>
                \<lparr>as_application_id = application_id, as_version = 0, as_updated_at = now\<rparr>)\<rparr>))"

definition lock_session_version :: "uuid \<Rightarrow> string \<Rightarrow> 'a session_tables_scheme \<Rightarrow> int option" where
  "lock_session_version tenant_id session_id db =
     map_option as_version (agent_session db (tenant_id, session_id))"

subsection \<open>Leases\<close>

text \<open>
  \<open>INSERT ... ON CONFLICT DO UPDATE ... WHERE ... RETURNING fencing_token\<close>: the insert of a
  lease for a missing session violates the foreign key.
\<close>

definition upsert_lease ::
  "timestamp \<Rightarrow> int \<Rightarrow> uuid \<Rightarrow> string \<Rightarrow> string \<Rightarrow> 'a session_tables_scheme
   \<Rightarrow> sql_error + (int option \<times> 'a session_tables_scheme)" where
  "upsert_lease now ttl tenant_id session_id owner_id db =
     (let k = (tenant_id, session_id) in
      case session_lease db k of
        None \<Rightarrow>
          if agent_session db k = None then Inl IntegrityError
          else Inr (Some 1, db\<lparr>session_lease := (session_lease db)(k \<mapsto>
                 \<lparr>sl_owner_id = owner_id, sl_fencing_token = 1, sl_expires_at = now + ttl, sl_renewed_at = now\<rparr>)\<rparr>)
      | Some l \<Rightarrow>
          if sl_expires_at l \<le> now \<or> sl_owner_id l = owner_id
          then Inr (Some (sl_fencing_token l + 1), db\<lparr>session_lease := (session_lease db)(k \<mapsto>
                 \<lparr>sl_owner_id = owner_id, sl_fencing_token = sl_fencing_token l + 1,
                  sl_expires_at = now + ttl, sl_renewed_at = now\<rparr>)\<rparr>)
          else Inr (None, db))"

definition acquire ::
  "timestamp \<Rightarrow> int \<Rightarrow> uuid \<Rightarrow> string \<Rightarrow> string \<Rightarrow> 'a session_tables_scheme
   \<Rightarrow> session_error + (lease_grant \<times> 'a session_tables_scheme)" where
  "acquire now ttl tenant_id session_id owner_id db =
     (if \<not> (1 \<le> length owner_id \<and> length owner_id \<le> MAX_OWNER_ID_LENGTH)
      then Inl (SessionValueError ''owner_id length is out of range'')
      else case upsert_lease now ttl tenant_id session_id owner_id db of
        Inl e \<Rightarrow> Inl (SessionSqlError e)
      | Inr (None, db1) \<Rightarrow>
          Inl (SessionLeaseError (''SESSION_LEASE_HELD:'' @
            (case session_lease db1 (tenant_id, session_id) of Some l \<Rightarrow> sl_owner_id l | None \<Rightarrow> ''None'')))
      | Inr (Some token, db1) \<Rightarrow>
         (case lock_session_version tenant_id session_id db1 of
            None \<Rightarrow> Inl (SessionLeaseError ''SESSION_NOT_FOUND'')
          | Some version \<Rightarrow> Inr (\<lparr>fencing_token = token, session_version = version\<rparr>, db1)))"

text \<open>
  The statement of \<open>renew\<close> binds \<open>$4\<close>, the fencing token, both in the guard and as the number
  of seconds of the new interval; the time to live it also passes (\<open>$5\<close>) occurs nowhere in it.
\<close>

definition renew ::
  "timestamp \<Rightarrow> int \<Rightarrow> uuid \<Rightarrow> string \<Rightarrow> string \<Rightarrow> int \<Rightarrow> 'a session_tables_scheme
   \<Rightarrow> session_error + 'a session_tables_scheme" where
  "renew now ttl tenant_id session_id owner_id token db =
     (let k = (tenant_id, session_id) in
      case session_lease db k of
        Some l \<Rightarrow>
          if sl_owner_id l = owner_id \<and> sl_fencing_token l = token \<and> now < sl_expires_at l
          then Inr (db\<lparr>session_lease := (session_lease db)(k \<mapsto>
                 l\<lparr>sl_expires_at := now + seconds token, sl_renewed_at := now\<rparr>)\<rparr>)
          else Inl (SessionLeaseError ''SESSION_LEASE_INVALID'')
      | None \<Rightarrow> Inl (SessionLeaseError ''SESSION_LEASE_INVALID''))"

definition release ::
  "timestamp \<Rightarrow> uuid \<Rightarrow> string \<Rightarrow> string \<Rightarrow> 'a session_tables_scheme \<Rightarrow> 'a session_tables_scheme" where
  "release now tenant_id session_id owner_id db =
     (let k = (tenant_id, session_id) in
      case session_lease db k of
        Some l \<Rightarrow>
          if sl_owner_id l = owner_id
          then db\<lparr>session_lease := (session_lease db)(k \<mapsto> l\<lparr>sl_expires_at := now\<rparr>)\<rparr>
          else db
      | None \<Rightarrow> db)"

subsection \<open>The authoritative commit\<close>

text \<open>\<open>kind ~ '^[A-Z][A-Z0-9_]{0,63}$'\<close>\<close>

definition is_upper :: "char \<Rightarrow> bool" where
  "is_upper c \<longleftrightarrow> 65 \<le> (of_char c :: nat) \<and> (of_char c :: nat) \<le> 90"

definition event_kind_ok :: "string \<Rightarrow> bool" where
  "event_kind_ok s =
     (case s of [] \<Rightarrow> False
      | c # cs \<Rightarrow> is_upper c \<and> length cs \<le> 63 \<and> list_all (\<lambda>x. is_upper x \<or> is_digit x \<or> x = CHR ''_'') cs)"

definition execution_of :: "uuid \<Rightarrow> string \<Rightarrow> 'a session_tables_scheme \<Rightarrow> agent_execution_row option" where
  "execution_of tenant_id message_id db =
     row_of (\<lambda>r. (ex_tenant_id r, ex_message_id r)) (tenant_id, message_id) (agent_execution db)"

definition session_event_ok :: "'a session_tables_scheme \<Rightarrow> session_event_row \<Rightarrow> bool" where
  "session_event_ok db r \<longleftrightarrow>
     1 \<le> se_sequence r \<and> event_kind_ok (se_kind r) \<and>
     agent_session db (se_tenant_id r, se_session_id r) \<noteq> None \<and>
     \<not> has_key (\<lambda>r. (se_tenant_id r, se_session_id r, se_sequence r))
         (se_tenant_id r, se_session_id r, se_sequence r) (session_event db)"

fun insert_session_events ::
  "session_event_row list \<Rightarrow> 'a session_tables_scheme \<Rightarrow> sql_error + 'a session_tables_scheme" where
  "insert_session_events [] db = Inr db"
| "insert_session_events (r # rs) db =
     (if session_event_ok db r then insert_session_events rs (db\<lparr>session_event := session_event db @ [r]\<rparr>)
      else Inl IntegrityError)"

fun number_events :: "uuid \<Rightarrow> string \<Rightarrow> uuid \<Rightarrow> int \<Rightarrow> session_event_in list \<Rightarrow> session_event_row list" where
  "number_events tenant_id session_id execution_id n [] = []"
| "number_events tenant_id session_id execution_id n (e # es) =
     \<lparr>se_tenant_id = tenant_id, se_session_id = session_id, se_sequence = n + 1,
      se_execution_id = execution_id, se_kind = ev_kind e, se_payload = ev_payload e\<rparr>
     # number_events tenant_id session_id execution_id (n + 1) es"

definition committed_payload :: "uuid \<Rightarrow> string \<Rightarrow> uuid \<Rightarrow> int \<Rightarrow> int \<Rightarrow> session_event_in list \<Rightarrow> (string \<times> json) list" where
  "committed_payload tenant_id session_id execution_id from_version to_version events =
     [(''tenant_id'', JStr tenant_id), (''session_id'', JStr session_id), (''execution_id'', JStr execution_id),
      (''from_version'', JInt from_version), (''to_version'', JInt to_version),
      (''event_kinds'', JList (map (JStr \<circ> ev_kind) events))]"

definition commit_session_events ::
  "timestamp \<Rightarrow> uuid \<Rightarrow> uuid \<Rightarrow> uuid \<Rightarrow> string \<Rightarrow> string \<Rightarrow> int \<Rightarrow> int \<Rightarrow> uuid \<Rightarrow> string
   \<Rightarrow> session_event_in list \<Rightarrow> string option \<Rightarrow> 'a session_tables_scheme
   \<Rightarrow> session_error + (int option \<times> 'a session_tables_scheme)" where
  "commit_session_events now outbox_id message_uuid tenant_id session_id owner_id token expected_version
     execution_id idempotency_key events data_classification db =
     (let k = (tenant_id, session_id) in
      if events = [] then Inl (SessionValueError ''a session commit requires at least one event'')
      else case map_option ex_status (execution_of tenant_id idempotency_key db) of
        None \<Rightarrow> Inl (SessionLeaseError ''EXECUTION_NOT_FOUND'')
      | Some status \<Rightarrow>
        if status = EX_SUCCEEDED then Inr (None, db)
        else case session_lease db k of
          None \<Rightarrow> Inl (SessionLeaseError ''SESSION_LEASE_INVALID'')
        | Some lease \<Rightarrow>
          if sl_owner_id lease \<noteq> owner_id \<or> sl_fencing_token lease \<noteq> token \<or> sl_expires_at lease \<le> now
          then Inl (SessionLeaseError ''SESSION_LEASE_INVALID'')
          else case lock_session_version tenant_id session_id db of
            None \<Rightarrow> Inl (SessionLeaseError ''SESSION_NOT_FOUND'')
          | Some version \<Rightarrow>
            if version \<noteq> expected_version then Inl (SessionVersionConflictError ''SESSION_VERSION_CONFLICT'')
            else case insert_session_events (number_events tenant_id session_id execution_id expected_version events) db of
              Inl e \<Rightarrow> Inl (SessionSqlError e)
            | Inr db1 \<Rightarrow>
               (let new_version = expected_version + int (length events);
                    db2 = db1\<lparr>agent_session := (agent_session db1)(k := map_option
                            (\<lambda>r. r\<lparr>as_version := new_version, as_updated_at := now\<rparr>) (agent_session db1 k))\<rparr>
                in case insert_outbox_record now outbox_id tenant_id message_uuid WORKER_SOURCE
                          SESSION_EVENTS_COMMITTED_EVENT (session_partition_key tenant_id session_id)
                          (committed_payload tenant_id session_id execution_id expected_version new_version events)
                          (Some idempotency_key) (Some execution_id) data_classification db2 of
                     Inl e \<Rightarrow> Inl (SessionSqlError e)
                   | Inr db3 \<Rightarrow> Inr (Some new_version, db3)))"

subsection \<open>Steps\<close>

text \<open>
  The transactions that touch sessions, each at some instant; a transaction that raised is
  rolled back and is no step. Executions and the Outbox are also written by other components,
  at will.
\<close>

inductive session_step :: "session_tables \<Rightarrow> session_tables \<Rightarrow> bool" where
  create: "create_session_if_missing now t a s db = Inr db' \<Longrightarrow> session_step db db'"
| acquire: "acquire now ttl t s w db = Inr (g, db') \<Longrightarrow> session_step db db'"
| renew: "renew now ttl t s w f db = Inr db' \<Longrightarrow> session_step db db'"
| release: "session_step db (release now t s w db)"
| commit: "commit_session_events now i m t s w f v x key evs dc db = Inr (r, db') \<Longrightarrow> session_step db db'"
| other: "session_step db (db\<lparr>agent_execution := xs, outbox_record := os, agent_application := as\<rparr>)"

definition session_steps :: "session_tables \<Rightarrow> session_tables \<Rightarrow> bool" where
  "session_steps = session_step\<^sup>*\<^sup>*"

definition empty_sessions :: session_tables where
  "empty_sessions = \<lparr>outbox_record = [], agent_application = [], agent_session = Map.empty,
     session_lease = Map.empty, session_event = [], agent_execution = []\<rparr>"

subsection \<open>What the operations change\<close>

lemma insert_session_events_Inr:
  "insert_session_events rs db = Inr db' \<Longrightarrow>
   db' = db\<lparr>session_event := session_event db @ rs\<rparr> \<and> (\<forall>r \<in> set rs. event_kind_ok (se_kind r))"
  by (induction rs arbitrary: db) (fastforce simp: session_event_ok_def split: if_splits)+

definition outbox_new ::
  "timestamp \<Rightarrow> uuid \<Rightarrow> uuid \<Rightarrow> string \<Rightarrow> string \<Rightarrow> string \<Rightarrow> string \<Rightarrow> (string \<times> json) list
   \<Rightarrow> string option \<Rightarrow> string option \<Rightarrow> string option \<Rightarrow> outbox_row" where
  "outbox_new now i t m src ty pk payload ca co dc =
     \<lparr>ob_tenant_id = t, ob_id = i, ob_message_id = m, ob_source = src, ob_event_type = ty,
      ob_partition_key = pk, ob_causation_id = ca, ob_correlation_id = co, ob_data_classification = dc,
      ob_payload = payload, ob_status = PENDING_OUT, ob_attempts = 0, ob_created_at = now, ob_published_at = None\<rparr>"

lemma insert_outbox_Inr_iff:
  "insert_outbox_record now i t m src ty pk payload ca co dc db = Inr db' \<longleftrightarrow>
     outbox_check (outbox_new now i t m src ty pk payload ca co dc) \<and>
     \<not> outbox_taken (outbox_new now i t m src ty pk payload ca co dc) (outbox_record db) \<and>
     db' = db\<lparr>outbox_record := outbox_record db @ [outbox_new now i t m src ty pk payload ca co dc]\<rparr>"
  by (auto simp: insert_outbox_record_def outbox_new_def Let_def)

definition commit_valid ::
  "timestamp \<Rightarrow> uuid \<Rightarrow> string \<Rightarrow> string \<Rightarrow> int \<Rightarrow> int \<Rightarrow> string \<Rightarrow> session_event_in list
   \<Rightarrow> 'a session_tables_scheme \<Rightarrow> bool" where
  "commit_valid now t s w token v key evs db \<longleftrightarrow>
     evs \<noteq> [] \<and>
     (\<exists>x. execution_of t key db = Some x \<and> ex_status x \<noteq> EX_SUCCEEDED) \<and>
     (\<exists>l. session_lease db (t, s) = Some l \<and> sl_owner_id l = w \<and> sl_fencing_token l = token \<and> now < sl_expires_at l) \<and>
     lock_session_version t s db = Some v"

definition commit_row ::
  "timestamp \<Rightarrow> uuid \<Rightarrow> uuid \<Rightarrow> uuid \<Rightarrow> string \<Rightarrow> int \<Rightarrow> uuid \<Rightarrow> string \<Rightarrow> session_event_in list \<Rightarrow> string option \<Rightarrow> outbox_row" where
  "commit_row now i m t s v x key evs dc =
     outbox_new now i t m WORKER_SOURCE SESSION_EVENTS_COMMITTED_EVENT (session_partition_key t s)
       (committed_payload t s x v (v + int (length evs)) evs) (Some key) (Some x) dc"

definition commit_state ::
  "timestamp \<Rightarrow> uuid \<Rightarrow> uuid \<Rightarrow> uuid \<Rightarrow> string \<Rightarrow> int \<Rightarrow> uuid \<Rightarrow> string \<Rightarrow> session_event_in list \<Rightarrow> string option
   \<Rightarrow> 'a session_tables_scheme \<Rightarrow> 'a session_tables_scheme" where
  "commit_state now i m t s v x key evs dc db =
     db\<lparr>agent_session := (agent_session db)((t, s) := map_option
          (\<lambda>r. r\<lparr>as_version := v + int (length evs), as_updated_at := now\<rparr>) (agent_session db (t, s))),
        session_event := session_event db @ number_events t s x v evs,
        outbox_record := outbox_record db @ [commit_row now i m t s v x key evs dc]\<rparr>"

lemma insert_outbox_record_eq:
  "insert_outbox_record now i t m src ty pk payload ca co dc db =
     (let r = outbox_new now i t m src ty pk payload ca co dc in
      if outbox_check r \<and> \<not> outbox_taken r (outbox_record db) then Inr (db\<lparr>outbox_record := outbox_record db @ [r]\<rparr>)
      else Inl IntegrityError)"
  by (simp add: insert_outbox_record_def outbox_new_def Let_def)

lemma commit_valid_eq:
  assumes "commit_valid now t s w f v key evs db"
  shows "commit_session_events now i m t s w f v x key evs dc db =
    (case insert_session_events (number_events t s x v evs) db of
       Inl e \<Rightarrow> Inl (SessionSqlError e)
     | Inr db1 \<Rightarrow>
        (case insert_outbox_record now i t m WORKER_SOURCE SESSION_EVENTS_COMMITTED_EVENT (session_partition_key t s)
            (committed_payload t s x v (v + int (length evs)) evs) (Some key) (Some x) dc
            (db1\<lparr>agent_session := (agent_session db1)((t, s) := map_option
               (\<lambda>r. r\<lparr>as_version := v + int (length evs), as_updated_at := now\<rparr>) (agent_session db1 (t, s)))\<rparr>) of
           Inl e \<Rightarrow> Inl (SessionSqlError e)
         | Inr db3 \<Rightarrow> Inr (Some (v + int (length evs)), db3)))"
  using assms by (auto simp: commit_session_events_def commit_valid_def Let_def split: sum.splits)

lemma commit_SomeD:
  assumes "commit_session_events now i m t s w f v x key evs dc db = Inr (Some n, db')"
  shows "commit_valid now t s w f v key evs db" "n = v + int (length evs)"
    "db' = commit_state now i m t s v x key evs dc db"
  using assms
  by (auto simp: commit_session_events_def commit_valid_def commit_state_def commit_row_def Let_def
      insert_outbox_Inr_iff lock_session_version_def not_le
      split: if_splits option.splits sum.splits dest!: insert_session_events_Inr)

lemma commit_NoneD:
  assumes "commit_session_events now i m t s w f v x key evs dc db = Inr (None, db')"
  shows "db' = db" "\<exists>r. execution_of t key db = Some r \<and> ex_status r = EX_SUCCEEDED"
  using assms by (auto simp: commit_session_events_def Let_def split: if_splits option.splits sum.splits)

lemma commit_unchanged:
  assumes "\<not> commit_valid now t s w f v key evs db"
    "commit_session_events now i m t s w f v x key evs dc db = Inr (r, db')"
  shows "r = None \<and> db' = db"
  using assms by (cases r) (auto dest: commit_SomeD(1) commit_NoneD(1))

subsection \<open>The invariant\<close>

definition events_of :: "session_key \<Rightarrow> 'a session_tables_scheme \<Rightarrow> session_event_row list" where
  "events_of k db = filter (\<lambda>r. (se_tenant_id r, se_session_id r) = k) (session_event db)"

text \<open>
  Every lease belongs to a session and carries a positive token; the committed events of a
  session are numbered 1, 2, ... up to its version, without gap or repetition.
\<close>

definition session_inv :: "'a session_tables_scheme \<Rightarrow> bool" where
  "session_inv db \<longleftrightarrow>
     (\<forall>k l. session_lease db k = Some l \<longrightarrow> agent_session db k \<noteq> None \<and> 1 \<le> sl_fencing_token l) \<and>
     (\<forall>k. map se_sequence (events_of k db) =
        (case agent_session db k of None \<Rightarrow> [] | Some r \<Rightarrow> [1..as_version r])) \<and>
     (\<forall>k r. agent_session db k = Some r \<longrightarrow> 0 \<le> as_version r)"

lemma number_events_of [simp]:
  "filter (\<lambda>r. (se_tenant_id r, se_session_id r) = k) (number_events t s x v evs) =
     (if k = (t, s) then number_events t s x v evs else [])"
  by (induction evs arbitrary: v) auto

lemma number_events_sequence:
  "map se_sequence (number_events t s x v evs) = [v + 1..v + int (length evs)]"
proof (induction evs arbitrary: v)
  case (Cons e evs)
  have "[v + 1..v + int (Suc (length evs))] = (v + 1) # [v + 1 + 1..v + 1 + int (length evs)]"
    by (subst upto_rec1) (auto simp: algebra_simps)
  with Cons show ?case by simp
qed simp

lemma events_of_commit:
  "events_of k (commit_state now i m t s v x key evs dc db) =
     events_of k db @ (if k = (t, s) then number_events t s x v evs else [])"
  by (simp add: events_of_def commit_state_def del: split_paired_All prod.inject)

lemma agent_session_commit:
  "agent_session (commit_state now i m t s v x key evs dc db) k =
     (if k = (t, s) then map_option (\<lambda>r. r\<lparr>as_version := v + int (length evs), as_updated_at := now\<rparr>) (agent_session db k)
      else agent_session db k)"
  by (simp add: commit_state_def)

lemma session_lease_commit [simp]:
  "session_lease (commit_state now i m t s v x key evs dc db) = session_lease db"
  by (simp add: commit_state_def)

lemma commit_state_inv:
  assumes "session_inv db" "lock_session_version t s db = Some v"
  shows "session_inv (commit_state now i m t s v x key evs dc db)"
proof -
  from assms(2) obtain r where r: "agent_session db (t, s) = Some r" "as_version r = v"
    by (auto simp: lock_session_version_def)
  with assms(1) have v: "0 \<le> v" "map se_sequence (events_of (t, s) db) = [1..v]"
    unfolding session_inv_def by (auto split: option.splits)
  have "[1..v] @ [v + 1..v + int (length evs)] = [1..v + int (length evs)]"
    using v(1) upto_split2 [of 1 v "v + int (length evs)"] by (cases "v = 0") auto
  then have "map se_sequence (events_of k (commit_state now i m t s v x key evs dc db)) =
      (case agent_session (commit_state now i m t s v x key evs dc db) k of None \<Rightarrow> [] | Some r \<Rightarrow> [1..as_version r])" for k
    using assms(1) r v unfolding session_inv_def
    by (auto simp: events_of_commit number_events_sequence agent_session_commit simp del: split_paired_All)
  then show ?thesis using assms(1) r v unfolding session_inv_def
    by (auto simp: agent_session_commit session_lease_commit)
qed

definition lease_token :: "session_key \<Rightarrow> 'a session_tables_scheme \<Rightarrow> int" where
  "lease_token k db = (case session_lease db k of None \<Rightarrow> 0 | Some l \<Rightarrow> sl_fencing_token l)"

definition version_of :: "session_key \<Rightarrow> 'a session_tables_scheme \<Rightarrow> int" where
  "version_of k db = (case agent_session db k of None \<Rightarrow> 0 | Some r \<Rightarrow> as_version r)"

lemma lease_token_nonneg: "session_inv db \<Longrightarrow> 0 \<le> lease_token k db"
  unfolding session_inv_def lease_token_def by (cases k) (force split: option.splits)

lemma acquireD:
  assumes "acquire now ttl t s w db = Inr (g, db')"
  shows "fencing_token g = lease_token (t, s) db + 1"
    "db' = db\<lparr>session_lease := (session_lease db)((t, s) \<mapsto>
        \<lparr>sl_owner_id = w, sl_fencing_token = fencing_token g, sl_expires_at = now + ttl, sl_renewed_at = now\<rparr>)\<rparr>"
    "lock_session_version t s db = Some (session_version g)"
    "\<forall>l. session_lease db (t, s) = Some l \<longrightarrow> sl_expires_at l \<le> now \<or> sl_owner_id l = w"
  using assms
  by (auto simp: acquire_def upsert_lease_def lease_token_def lock_session_version_def Let_def
      split: if_splits option.splits sum.splits prod.splits)

lemma session_inv_leases:
  assumes "session_inv db" "session_event db' = session_event db" "agent_session db' = agent_session db"
    "\<And>k l. session_lease db' k = Some l \<Longrightarrow> agent_session db k \<noteq> None \<and> 1 \<le> sl_fencing_token l"
  shows "session_inv db'"
  using assms unfolding session_inv_def events_of_def by (simp del: split_paired_All)

lemma session_inv_lease: "session_inv db \<Longrightarrow> session_lease db k = Some l \<Longrightarrow>
    (\<exists>r. agent_session db k = Some r) \<and> 1 \<le> sl_fencing_token l"
  by (cases k) (auto simp: session_inv_def)

lemmas session_inv_leaseD = session_inv_lease [THEN conjunct1] session_inv_lease [THEN conjunct2]

lemma create_inv:
  assumes "session_inv db" "create_session_if_missing now t a s db = Inr db'"
  shows "session_inv db'"
proof (cases "agent_session db (t, s)")
  case None
  let ?r = "\<lparr>as_application_id = a, as_version = 0, as_updated_at = now\<rparr>"
  from None assms(2) have db': "db' = db\<lparr>agent_session := (agent_session db)((t, s) \<mapsto> ?r)\<rparr>"
    by (auto simp: create_session_if_missing_def split: if_splits)
  show ?thesis using assms(1) None unfolding db' session_inv_def events_of_def
    by (auto simp del: split_paired_All)
qed (use assms in \<open>auto simp: create_session_if_missing_def split: if_splits\<close>)

lemma session_inv_touch_lease:
  assumes "session_inv db" "session_lease db k = Some l" "sl_fencing_token l' = sl_fencing_token l"
  shows "session_inv (db\<lparr>session_lease := (session_lease db)(k \<mapsto> l')\<rparr>)"
  using session_inv_lease [OF assms(1)] assms(2,3)
  by (intro session_inv_leases [OF assms(1)]) (auto split: if_splits simp del: split_paired_All)

lemma session_step_inv:
  assumes "session_step db db'" "session_inv db"
  shows "session_inv db'"
  using assms
proof cases
  case (acquire now ttl t s w g)
  note a = acquireD [OF acquire]
  have "1 \<le> fencing_token g" using lease_token_nonneg [OF assms(2), of "(t, s)"] a(1) by simp
  with a(2,3) assms(2) show ?thesis
    by (intro session_inv_leases [OF assms(2)])
      (auto simp: lock_session_version_def dest: session_inv_leaseD split: if_splits)
next
  case (commit now i m t s w f v x key evs dc r)
  show ?thesis
  proof (cases r)
    case None
    then show ?thesis using commit_NoneD(1) commit assms(2) by blast
  next
    case (Some n)
    note c = commit_SomeD [OF commit [unfolded Some]]
    from c(1) have "lock_session_version t s db = Some v" by (simp add: commit_valid_def)
    then show ?thesis unfolding c(3) by (rule commit_state_inv [OF assms(2)])
  qed
next
  case (other xs os as)
  then show ?thesis using assms(2) by (simp add: session_inv_def events_of_def)
qed (auto simp: renew_def release_def Let_def create_inv session_inv_touch_lease split: if_splits option.splits)

text \<open>Tokens and versions never go back.\<close>

lemma session_step_mono:
  assumes "session_step db db'" "session_inv db"
  shows "lease_token k db \<le> lease_token k db' \<and> version_of k db \<le> version_of k db' \<and>
    (\<exists>new. session_event db' = session_event db @ new)"
  using assms
proof cases
  case (acquire now ttl t s w g)
  from acquireD [OF acquire] show ?thesis by (auto simp: lease_token_def version_of_def)
next
  case (commit now i m t s w f v x key evs dc r)
  show ?thesis
  proof (cases r)
    case None
    then show ?thesis using commit_NoneD(1) [OF commit [unfolded None]] by simp
  next
    case (Some n)
    note c = commit_SomeD [OF commit [unfolded Some]]
    show ?thesis unfolding c(3) using c(1)
      by (auto simp: commit_state_def lease_token_def version_of_def commit_valid_def lock_session_version_def)
  qed
next
  case (create now t a s)
  then show ?thesis using assms(2)
    by (auto simp: create_session_if_missing_def version_of_def lease_token_def session_inv_def
        split: if_splits option.splits)
qed (auto simp: renew_def release_def lease_token_def version_of_def Let_def split: if_splits option.splits)

lemma session_steps_inv:
  assumes "session_steps db db'" "session_inv db"
  shows "session_inv db' \<and> lease_token k db \<le> lease_token k db' \<and> version_of k db \<le> version_of k db' \<and>
    (\<exists>new. session_event db' = session_event db @ new)"
  using assms unfolding session_steps_def
proof (induction rule: rtranclp_induct)
  case (step y z)
  with session_step_mono [OF step.hyps(2), of k] session_step_inv [OF step.hyps(2)] show ?case by force
qed simp

lemma session_inv_empty: "session_inv empty_sessions"
  by (simp add: session_inv_def empty_sessions_def events_of_def)


text \<open>
  C1: fencing. Once a session's lease has been acquired again, by whomever, no commit under an
  earlier token can ever write: at every later instant and whatever happened in between, it
  raises or finds its execution already succeeded, and it changes nothing.
\<close>

theorem stale_token_never_commits:
  assumes "session_inv db"
    and "acquire now1 ttl1 t s w1 db = Inr (g1, db1)" "session_steps db1 db2"
    and "acquire now2 ttl2 t s w2 db2 = Inr (g2, db3)" "session_steps db3 db4"
  shows "fencing_token g1 < fencing_token g2 \<and>
    (case commit_session_events now i m t s w (fencing_token g1) v x key evs dc db4 of
       Inl _ \<Rightarrow> True
     | Inr (r, db5) \<Rightarrow> r = None \<and> db5 = db4)"
proof -
  note a1 = acquireD [OF assms(2)] and a2 = acquireD [OF assms(4)]
  have i1: "session_inv db1" using session_step_inv [OF session_step.acquire [OF assms(2)] assms(1)] .
  have s2: "session_inv db2" "lease_token (t, s) db1 \<le> lease_token (t, s) db2"
    using session_steps_inv [OF assms(3) i1, of "(t, s)"] by auto
  have i3: "session_inv db3" using session_step_inv [OF session_step.acquire [OF assms(4)] s2(1)] .
  have s4: "lease_token (t, s) db3 \<le> lease_token (t, s) db4"
    using session_steps_inv [OF assms(5) i3, of "(t, s)"] by auto
  have t: "lease_token (t, s) db1 = fencing_token g1" "lease_token (t, s) db3 = fencing_token g2"
    using a1(2) a2(2) by (simp_all add: lease_token_def)
  have lt: "fencing_token g1 < fencing_token g2" using a2(1) s2(2) t by simp
  have "\<not> commit_valid now t s w (fencing_token g1) v key evs db4"
    using s4 t lt by (auto simp: commit_valid_def lease_token_def)
  then show ?thesis using lt by (auto dest: commit_unchanged split: sum.splits)
qed

text \<open>The log of a session as its readers see it.\<close>

definition session_log :: "session_key \<Rightarrow> 'a session_tables_scheme \<Rightarrow> (string \<times> (string \<times> json) list) list" where
  "session_log k db = map (\<lambda>r. (se_kind r, se_payload r)) (events_of k db)"

text \<open>Abstractly, a commit is a compare-and-append on that log.\<close>

definition compare_and_append :: "int \<Rightarrow> 'e list \<Rightarrow> 'e list \<Rightarrow> 'e list option" where
  "compare_and_append expected new log = (if int (length log) = expected then Some (log @ new) else None)"

lemma number_events_log:
  "map (\<lambda>r. (se_kind r, se_payload r)) (number_events t s x v evs) = map (\<lambda>e. (ev_kind e, ev_payload e)) evs"
  by (induction evs arbitrary: v) auto

lemma length_events_of:
  assumes "session_inv db" "agent_session db k = Some r"
  shows "int (length (events_of k db)) = as_version r"
proof -
  have "map se_sequence (events_of k db) = [1..as_version r]" "0 \<le> as_version r"
    using assms by (cases k; auto simp: session_inv_def)+
  then show ?thesis by (metis (no_types) add_diff_cancel length_map length_upto int_nat_eq diff_add_cancel)
qed

text \<open>
  C2: refinement. A commit that writes is exactly a successful compare-and-append on the
  session's log, and touches no other session's log; one that reports a version conflict is a
  compare-and-append that fails.
\<close>

theorem commit_refines_compare_and_append:
  assumes "session_inv db"
  shows "case commit_session_events now i m t s w f v x key evs dc db of
      Inr (Some n, db') \<Rightarrow>
        compare_and_append v (map (\<lambda>e. (ev_kind e, ev_payload e)) evs) (session_log (t, s) db) = Some (session_log (t, s) db') \<and>
        n = int (length (session_log (t, s) db')) \<and>
        (\<forall>k. k \<noteq> (t, s) \<longrightarrow> session_log k db' = session_log k db)
    | Inr (None, db') \<Rightarrow> db' = db
    | Inl (SessionVersionConflictError c) \<Rightarrow>
        compare_and_append v (map (\<lambda>e. (ev_kind e, ev_payload e)) evs) (session_log (t, s) db) = None
    | Inl _ \<Rightarrow> True"
proof (cases "commit_session_events now i m t s w f v x key evs dc db")
  case (Inl e)
  show ?thesis
  proof (cases e)
    case (SessionVersionConflictError c)
    then obtain r where "agent_session db (t, s) = Some r" "as_version r \<noteq> v"
      using Inl by (auto simp: commit_session_events_def lock_session_version_def Let_def
          split: if_splits option.splits sum.splits)
    with length_events_of [OF assms] Inl SessionVersionConflictError show ?thesis
      by (auto simp: compare_and_append_def session_log_def)
  qed (use Inl in auto)
next
  case (Inr p)
  obtain r db' where p: "p = (r, db')" by fastforce
  show ?thesis
  proof (cases r)
    case None
    then show ?thesis using Inr p commit_NoneD(1) by auto
  next
    case (Some n)
    note c = commit_SomeD [OF Inr [unfolded p Some]]
    from c(1) obtain r0 where "agent_session db (t, s) = Some r0" "as_version r0 = v"
      by (auto simp: commit_valid_def lock_session_version_def)
    with length_events_of [OF assms] have "int (length (events_of (t, s) db)) = v" by blast
    moreover have "length (number_events t s x v evs) = length evs"
      using arg_cong [OF number_events_log, of length] by simp
    ultimately show ?thesis using Inr p Some c(2)
      by (auto simp: c(3) session_log_def events_of_commit compare_and_append_def number_events_log)
  qed
qed

lemma insert_session_events_ok:
  assumes "map se_sequence (events_of (t, s) db) = [1..v]" "0 \<le> v" "agent_session db (t, s) \<noteq> None"
    "list_all (event_kind_ok \<circ> ev_kind) evs"
  shows "insert_session_events (number_events t s x v evs) db =
    Inr (db\<lparr>session_event := session_event db @ number_events t s x v evs\<rparr>)"
  using assms
proof (induction evs arbitrary: db v)
  case (Cons e evs)
  let ?r = "\<lparr>se_tenant_id = t, se_session_id = s, se_sequence = v + 1, se_execution_id = x,
      se_kind = ev_kind e, se_payload = ev_payload e\<rparr>"
  have "v + 1 \<notin> se_sequence ` set (events_of (t, s) db)"
    using arg_cong [OF Cons.prems(1), of set] by auto
  then have ok: "session_event_ok db ?r"
    using Cons.prems by (auto simp: session_event_ok_def has_key_def events_of_def)
  have "map se_sequence (events_of (t, s) (db\<lparr>session_event := session_event db @ [?r]\<rparr>)) = [1..v + 1]"
    using Cons.prems(1,2) upto_rec2 [of 1 "v + 1"] by (simp add: events_of_def)
  with Cons.IH [of "db\<lparr>session_event := session_event db @ [?r]\<rparr>" "v + 1"] Cons.prems ok show ?case
    by simp
qed simp

text \<open>
  The commit protocol is complete and exclusive. Over well-formed tables a commit writes
  exactly when its execution is known and not yet succeeded, the caller holds the unexpired
  lease under the current token, the session is at the expected version and the rows satisfy
  the table constraints; it then advances the version by the number of events, appends them
  and enqueues one Outbox record, and in every other case the tables are untouched.
\<close>

theorem commit_writes_iff:
  assumes "session_inv db"
  shows "((\<exists>n db'. commit_session_events now i m t s w f v x key evs dc db = Inr (Some n, db')) \<longleftrightarrow>
      commit_valid now t s w f v key evs db \<and> list_all (event_kind_ok \<circ> ev_kind) evs \<and>
      outbox_check (commit_row now i m t s v x key evs dc) \<and>
      \<not> outbox_taken (commit_row now i m t s v x key evs dc) (outbox_record db)) \<and>
    (\<forall>n db'. commit_session_events now i m t s w f v x key evs dc db = Inr (Some n, db') \<longrightarrow>
      n = v + int (length evs) \<and> db' = commit_state now i m t s v x key evs dc db)"
    (is "(?writes \<longleftrightarrow> ?valid \<and> ?kinds \<and> ?row \<and> ?fresh) \<and> ?effect")
proof
  show "?writes \<longleftrightarrow> ?valid \<and> ?kinds \<and> ?row \<and> ?fresh"
  proof
    assume ?writes
    then obtain n db' where w: "commit_session_events now i m t s w f v x key evs dc db = Inr (Some n, db')" by blast
    then have "\<exists>db1. insert_session_events (number_events t s x v evs) db = Inr db1 \<and> ?row \<and> ?fresh"
      by (auto simp: commit_session_events_def Let_def insert_outbox_Inr_iff commit_row_def
          split: if_splits option.splits sum.splits dest!: insert_session_events_Inr)
    then have r: ?row ?fresh "\<forall>r \<in> set (number_events t s x v evs). event_kind_ok (se_kind r)"
      using insert_session_events_Inr by auto
    have "map se_kind (number_events t s x v evs) = map ev_kind evs"
      using arg_cong [OF number_events_log, of "map fst"] by (simp add: comp_def)
    then have ?kinds using r(3) by (metis (no_types, lifting) comp_apply imageE image_eqI list.set_map list_all_iff)
    with r(1,2) commit_SomeD(1) [OF w] show "?valid \<and> ?kinds \<and> ?row \<and> ?fresh" by blast
  next
    assume rhs: "?valid \<and> ?kinds \<and> ?row \<and> ?fresh"
    then obtain r where r: "agent_session db (t, s) = Some r" "as_version r = v"
      by (auto simp: commit_valid_def lock_session_version_def)
    with assms have "map se_sequence (events_of (t, s) db) = [1..v]" "0 \<le> v" by (auto simp: session_inv_def)
    with insert_session_events_ok r(1) rhs have
      "insert_session_events (number_events t s x v evs) db = Inr (db\<lparr>session_event := session_event db @ number_events t s x v evs\<rparr>)"
      by (metis option.discI)
    then show ?writes using rhs by (simp add: commit_valid_eq insert_outbox_record_eq commit_row_def)
  qed
  show ?effect by (auto intro: commit_SomeD(2,3))
qed

text \<open>
  C10: leases exclude each other. Over well-formed tables an acquisition succeeds exactly when
  the owner name is legal, the session exists and no other owner holds an unexpired lease; it
  then hands out the next token and the session's version, and otherwise the tables stay as
  they were (a held lease is never stolen).
\<close>

theorem acquire_iff_free:
  assumes "session_inv db"
  shows "((\<exists>g db'. acquire now ttl t s w db = Inr (g, db')) \<longleftrightarrow>
      1 \<le> length w \<and> length w \<le> MAX_OWNER_ID_LENGTH \<and> agent_session db (t, s) \<noteq> None \<and>
      (\<forall>l. session_lease db (t, s) = Some l \<longrightarrow> sl_expires_at l \<le> now \<or> sl_owner_id l = w)) \<and>
    (\<forall>g db'. acquire now ttl t s w db = Inr (g, db') \<longrightarrow>
      fencing_token g = lease_token (t, s) db + 1 \<and> session_version g = version_of (t, s) db \<and>
      session_lease db' = (session_lease db)((t, s) \<mapsto>
        \<lparr>sl_owner_id = w, sl_fencing_token = fencing_token g, sl_expires_at = now + ttl, sl_renewed_at = now\<rparr>))"
    (is "?iff \<and> (\<forall>g db'. ?ok g db' \<longrightarrow> ?eff g db')")
proof (intro conjI allI impI)
  show ?iff
    using session_inv_lease [OF assms, of "(t, s)"]
    by (cases "session_lease db (t, s)"; cases "agent_session db (t, s)")
      (auto simp: acquire_def upsert_lease_def lock_session_version_def Let_def Suc_le_eq)
next
  fix g db' assume ok: "?ok g db'"
  show "fencing_token g = lease_token (t, s) db + 1" by (rule acquireD(1) [OF ok])
  show "session_version g = version_of (t, s) db"
    using acquireD(3) [OF ok] by (auto simp: lock_session_version_def version_of_def)
  show "session_lease db' = (session_lease db)((t, s) \<mapsto>
      \<lparr>sl_owner_id = w, sl_fencing_token = fencing_token g, sl_expires_at = now + ttl, sl_renewed_at = now\<rparr>)"
    by (subst acquireD(2) [OF ok]) simp
qed

text \<open>
  What \<open>renew\<close> does to the lease. A successful renewal moves the expiry to the fencing
  token, read as a number of seconds, from now: the configured time to live has no influence.
  In particular the first lease of a session (token 1), renewed right after it was acquired
  for the default thirty seconds, expires after one second.
\<close>

theorem renew_extends_by_token:
  assumes "acquire now DEFAULT_LEASE_TTL t s w db = Inr (g, db1)"
  shows "map_option sl_expires_at (session_lease db1 (t, s)) = Some (now + seconds 30) \<and>
    (\<exists>db2. renew now DEFAULT_LEASE_TTL t s w (fencing_token g) db1 = Inr db2 \<and>
       map_option sl_expires_at (session_lease db2 (t, s)) = Some (now + seconds (fencing_token g)) \<and>
       (session_lease db (t, s) = None \<longrightarrow>
          map_option sl_expires_at (session_lease db2 (t, s)) = Some (now + seconds 1)))"
  using acquireD(1) [OF assms]
  by (subst (1 2) acquireD(2) [OF assms])
    (simp add: renew_def DEFAULT_LEASE_TTL_def seconds_def lease_token_def Let_def)

subsection \<open>A concrete run\<close>

definition sample_session :: session_tables where
  "sample_session = empty_sessions\<lparr>agent_application := [(''t'', ''app'')],
     agent_session := [(''t'', ''s'') \<mapsto> \<lparr>as_application_id = ''app'', as_version = 0, as_updated_at = 0\<rparr>],
     agent_execution := [\<lparr>ex_tenant_id = ''t'', ex_id = ''x'', ex_message_id = ''m1'', ex_session_id = ''s'',
        ex_status = EX_PENDING, ex_knowledge_revision_ids = [],
        ex_application_id = ''app'', ex_release_id = ''r'', ex_environment = ''STAGING'', ex_subject_id = None,
        ex_memory_policy_version = ''policy:none'', ex_payload_hash = []\<rparr>]\<rparr>"

definition sample_lease :: "string \<Rightarrow> int \<Rightarrow> session_lease_row" where
  "sample_lease w n = \<lparr>sl_owner_id = w, sl_fencing_token = n, sl_expires_at = 30 * n, sl_renewed_at = 0\<rparr>"

definition sample_events :: "session_event_in list" where
  "sample_events = [\<lparr>ev_kind = ''USER_MESSAGE'', ev_payload = []\<rparr>, \<lparr>ev_kind = ''AGENT_REPLY'', ev_payload = []\<rparr>]"

lemma sample_session_inv: "session_inv sample_session"
  by (auto simp: session_inv_def sample_session_def empty_sessions_def events_of_def)

lemma sample_session_steps: "session_steps empty_sessions sample_session"
proof -
  let ?d = "empty_sessions\<lparr>agent_execution := [], outbox_record := [], agent_application := [(''t'', ''app'')]\<rparr>"
  let ?e = "?d\<lparr>agent_session := [(''t'', ''s'') \<mapsto> \<lparr>as_application_id = ''app'', as_version = 0, as_updated_at = 0\<rparr>]\<rparr>"
  have "session_step empty_sessions ?d" by (rule session_step.other)
  moreover have "session_step ?d ?e"
    by (rule session_step.create [of 0 "''t''" "''app''" "''s''"])
      (simp add: create_session_if_missing_def empty_sessions_def MAX_SESSION_ID_LENGTH_def)
  moreover have "session_step ?e (?e\<lparr>agent_execution := agent_execution sample_session, outbox_record := [],
      agent_application := [(''t'', ''app'')]\<rparr>)" by (rule session_step.other)
  moreover have "?e\<lparr>agent_execution := agent_execution sample_session, outbox_record := [],
      agent_application := [(''t'', ''app'')]\<rparr> = sample_session"
    by (simp add: sample_session_def empty_sessions_def)
  ultimately show ?thesis unfolding session_steps_def by (auto intro: rtranclp.rtrancl_into_rtrancl)
qed


theorem stale_token_never_commits_witness:
  "\<exists>g1 db1 g2 db3. acquire 0 30 ''t'' ''s'' ''w1'' sample_session = Inr (g1, db1) \<and>
     acquire 40 30 ''t'' ''s'' ''w2'' db1 = Inr (g2, db3) \<and> fencing_token g1 < fencing_token g2 \<and>
     (case commit_session_events 41 ''i'' ''m'' ''t'' ''s'' ''w1'' (fencing_token g1) 0 ''x'' ''m1'' sample_events None db3 of
        Inl _ \<Rightarrow> True | Inr (r, db5) \<Rightarrow> r = None \<and> db5 = db3)"
proof -
  define db1 where "db1 = sample_session\<lparr>session_lease := [(''t'', ''s'') \<mapsto>
    \<lparr>sl_owner_id = ''w1'', sl_fencing_token = 1, sl_expires_at = 30, sl_renewed_at = 0\<rparr>]\<rparr>"
  define db3 where "db3 = sample_session\<lparr>session_lease := [(''t'', ''s'') \<mapsto>
    \<lparr>sl_owner_id = ''w2'', sl_fencing_token = 2, sl_expires_at = 70, sl_renewed_at = 40\<rparr>]\<rparr>"
  have a1: "acquire 0 30 ''t'' ''s'' ''w1'' sample_session = Inr (\<lparr>fencing_token = 1, session_version = 0\<rparr>, db1)"
    by (simp add: acquire_def upsert_lease_def lock_session_version_def sample_session_def empty_sessions_def
        db1_def MAX_OWNER_ID_LENGTH_def Let_def)
  have a2: "acquire 40 30 ''t'' ''s'' ''w2'' db1 = Inr (\<lparr>fencing_token = 2, session_version = 0\<rparr>, db3)"
    by (simp add: acquire_def upsert_lease_def lock_session_version_def sample_session_def empty_sessions_def
        db1_def db3_def MAX_OWNER_ID_LENGTH_def Let_def)
  have refl: "session_steps db db" for db by (simp add: session_steps_def)
  show ?thesis
    using a1 a2 stale_token_never_commits [OF sample_session_inv a1 refl a2 refl] by blast
qed


theorem renew_extends_by_token_witness:
  "\<exists>g db1 db2. acquire 0 DEFAULT_LEASE_TTL ''t'' ''s'' ''w'' sample_session = Inr (g, db1) \<and>
     renew 0 DEFAULT_LEASE_TTL ''t'' ''s'' ''w'' (fencing_token g) db1 = Inr db2 \<and>
     map_option sl_expires_at (session_lease db1 (''t'', ''s'')) = Some (seconds 30) \<and>
     map_option sl_expires_at (session_lease db2 (''t'', ''s'')) = Some (seconds 1)"
proof -
  have "\<exists>g db1. acquire 0 DEFAULT_LEASE_TTL ''t'' ''s'' ''w'' sample_session = Inr (g, db1)"
    by (simp add: acquire_def upsert_lease_def lock_session_version_def sample_session_def empty_sessions_def
        MAX_OWNER_ID_LENGTH_def Let_def)
  then obtain g db1 where a: "acquire 0 DEFAULT_LEASE_TTL ''t'' ''s'' ''w'' sample_session = Inr (g, db1)" by blast
  have "session_lease sample_session (''t'', ''s'') = None" by (simp add: sample_session_def empty_sessions_def)
  with renew_extends_by_token [OF a] a show ?thesis by auto
qed

theorem acquire_iff_free_witness:
  "\<exists>g db'. acquire 0 30 ''t'' ''s'' ''w'' sample_session = Inr (g, db')"
  using acquire_iff_free [OF sample_session_inv, of 0 30 "''t''" "''s''" "''w''"]
  by (simp add: sample_session_def empty_sessions_def MAX_OWNER_ID_LENGTH_def)

text \<open>The sample session with a lease in force.\<close>

definition leased_session :: session_tables where
  "leased_session = sample_session\<lparr>session_lease := [(''t'', ''s'') \<mapsto>
     \<lparr>sl_owner_id = ''w'', sl_fencing_token = 1, sl_expires_at = 30, sl_renewed_at = 0\<rparr>]\<rparr>"

lemma leased_session_inv: "session_inv leased_session"
  by (auto simp: session_inv_def leased_session_def sample_session_def empty_sessions_def events_of_def split: if_splits)

lemma leased_session_valid:
  "commit_valid 5 ''t'' ''s'' ''w'' 1 0 ''m1'' sample_events leased_session"
  by (simp add: commit_valid_def sample_events_def leased_session_def sample_session_def empty_sessions_def
      execution_of_def row_of_def lock_session_version_def)

theorem commit_writes_iff_witness:
  "\<exists>n db'. commit_session_events 5 ''i'' ''m'' ''t'' ''s'' ''w'' 1 0 ''x'' ''m1'' sample_events None leased_session =
     Inr (Some n, db')"
proof -
  have "outbox_check (commit_row 5 ''i'' ''m'' ''t'' ''s'' 0 ''x'' ''m1'' sample_events None)"
    "list_all (event_kind_ok \<circ> ev_kind) sample_events"
    by code_simp+
  moreover have "outbox_record leased_session = []"
    by (simp add: leased_session_def sample_session_def empty_sessions_def)
  ultimately show ?thesis
    using leased_session_valid commit_writes_iff [OF leased_session_inv, of 5 "''i''" "''m''" "''t''" "''s''" "''w''" 1 0
      "''x''" "''m1''" sample_events None]
    by (simp add: outbox_taken_def)
qed

theorem commit_refines_compare_and_append_witness:
  "case commit_session_events 5 ''i'' ''m'' ''t'' ''s'' ''w'' 1 7 ''x'' ''m1'' sample_events None leased_session of
     Inl (SessionVersionConflictError c) \<Rightarrow>
       compare_and_append 7 (map (\<lambda>e. (ev_kind e, ev_payload e)) sample_events) (session_log (''t'', ''s'') leased_session) = None
   | _ \<Rightarrow> True"
  using commit_refines_compare_and_append [OF leased_session_inv, where now = 5 and i = "''i''" and m = "''m''"
      and t = "''t''" and s = "''s''" and w = "''w''" and f = 1 and v = 7 and x = "''x''" and key = "''m1''"
      and evs = sample_events and dc = None]
  by (auto split: sum.splits session_error.splits)

end
