(* ===== verification/Governance.thy ===== *)
theory Governance
  imports Py_Lib
begin

text \<open>
  The data classifications of \<open>trpc_service/governance.py\<close> and their aggregation.
\<close>

datatype data_classification = PUBLIC | INTERNAL | CONFIDENTIAL | RESTRICTED

definition CLASSIFICATION_ORDER :: "data_classification list" where
  "CLASSIFICATION_ORDER = [PUBLIC, INTERNAL, CONFIDENTIAL, RESTRICTED]"

text \<open>The value of the string enumeration.\<close>

definition class_value :: "data_classification \<Rightarrow> string" where
  "class_value c = (case c of PUBLIC \<Rightarrow> ''PUBLIC'' | INTERNAL \<Rightarrow> ''INTERNAL'' | CONFIDENTIAL \<Rightarrow> ''CONFIDENTIAL''
     | RESTRICTED \<Rightarrow> ''RESTRICTED'')"

fun list_index :: "'a \<Rightarrow> 'a list \<Rightarrow> nat" where
  "list_index x [] = 0"
| "list_index x (y # ys) = (if x = y then 0 else Suc (list_index x ys))"

definition rank :: "data_classification \<Rightarrow> nat" where
  "rank c = list_index c CLASSIFICATION_ORDER"

text \<open>The arguments are \<open>None\<close> or classifications; the loop keeps the highest rank seen.\<close>

definition raise_to :: "data_classification \<Rightarrow> data_classification option \<Rightarrow> data_classification" where
  "raise_to highest candidate =
     (case candidate of None \<Rightarrow> highest | Some v \<Rightarrow> if rank highest < rank v then v else highest)"

definition highest_classification :: "data_classification option list \<Rightarrow> data_classification" where
  "highest_classification cs = foldl raise_to PUBLIC cs"

lemma rank_inject: "rank a = rank b \<longleftrightarrow> a = b"
  by (cases a; cases b) (simp_all add: rank_def CLASSIFICATION_ORDER_def)

instantiation data_classification :: linorder
begin

definition less_eq_data_classification :: "data_classification \<Rightarrow> data_classification \<Rightarrow> bool" where
  "less_eq_data_classification a b \<longleftrightarrow> rank a \<le> rank b"

definition less_data_classification :: "data_classification \<Rightarrow> data_classification \<Rightarrow> bool" where
  "less_data_classification a b \<longleftrightarrow> rank a < rank b"

instance
  by standard (auto simp: less_eq_data_classification_def less_data_classification_def rank_inject)

end

lemma raise_to_max: "raise_to h c = (case c of None \<Rightarrow> h | Some v \<Rightarrow> max h v)"
  by (auto simp: raise_to_def less_eq_data_classification_def max_def rank_inject split: option.split)

lemma PUBLIC_least [simp]: "PUBLIC \<le> c"
  by (simp add: less_eq_data_classification_def rank_def CLASSIFICATION_ORDER_def)

lemma foldl_raise_to: "foldl raise_to h cs = Max (insert h {v. Some v \<in> set cs})"
proof (induction cs arbitrary: h)
  case (Cons c cs)
  have fin: "finite {v. Some v \<in> set cs}" by (rule finite_vimageI [of "set cs" Some, simplified vimage_def]) simp_all
  show ?case
  proof (cases c)
    case (Some v)
    have "insert h {w. Some w \<in> set (c # cs)} = insert h (insert v {w. Some w \<in> set cs})" using Some by auto
    moreover have "Max (insert (max h v) {w. Some w \<in> set cs}) = Max (insert h (insert v {w. Some w \<in> set cs}))"
      using fin by (cases "{w. Some w \<in> set cs} = {}") (simp_all add: max.assoc)
    ultimately show ?thesis using Cons Some by (simp add: raise_to_max)
  qed (use Cons in \<open>simp add: raise_to_max\<close>)
qed simp

text \<open>The aggregate is the highest of the given levels, PUBLIC when there is none.\<close>

lemma highest_classification_Max: "highest_classification cs = Max (insert PUBLIC {v. Some v \<in> set cs})"
  by (simp add: highest_classification_def foldl_raise_to)

end
