(* ===== verification/Agent_Worker.thy ===== *)
theory Agent_Worker
  imports Sessions Governance
begin

text \<open>
  The Agent Worker of \<open>trpc_service/agent_worker.py\<close>: release and deployment routing, the
  completion call, and the bus consumer \<open>AgentExecutionProcessor\<close> that turns one execution
  message into one authoritative session commit. The model provider behind the gateway, the
  storage and knowledge resolvers and the fallback auditor are ports (fields of a record);
  \<open>uuid_ok\<close> says which strings \<open>UUID(...)\<close> accepts.
\<close>

subsection \<open>Routes\<close>

record model_profile =
  mp_tenant_id :: string
  mp_alias :: string
  mp_provider_model :: string
  mp_endpoint_url :: string
  mp_secret_ref :: string
  mp_data_classification :: data_classification
  mp_region :: string
  mp_fallback_aliases :: "string list"
  mp_requests_per_minute :: int

record release_route =
  rr_release_id :: string
  rr_tenant_id :: string
  rr_model_alias :: string
  rr_data_classification :: data_classification
  rr_region :: string
  rr_allowed_fallback_aliases :: "string list"
  rr_profile_snapshots :: "model_profile list"
  rr_instructions :: string
  rr_knowledge_refs :: "string list"

text \<open>
  A row of \<open>tenant.agent_release\<close>. Its profile snapshots are taken as the records the resolver
  builds from them, and \<open>knowledge_refs\<close> of the draft snapshot is absent or a list, as the
  control plane writes it.
\<close>

record release_row =
  rw_id :: uuid
  rw_tenant_id :: uuid
  rw_model_alias :: string
  rw_data_classification :: data_classification
  rw_region :: string
  rw_fallback_aliases :: "string list"
  rw_model_profiles :: "model_profile list"
  rw_draft_snapshot :: json

definition snapshot_instructions :: "(string \<times> json) list \<Rightarrow> string" where
  "snapshot_instructions snapshot =
     (case dict_get snapshot ''instructions'' of
        Some v \<Rightarrow> if truthy v then py_str v else []
      | None \<Rightarrow> [])"

definition snapshot_knowledge_refs :: "(string \<times> json) list \<Rightarrow> string list" where
  "snapshot_knowledge_refs snapshot =
     (case dict_get snapshot ''knowledge_refs'' of
        Some (JList refs) \<Rightarrow> map py_str refs
      | _ \<Rightarrow> [])"

definition route_of_row :: "release_row \<Rightarrow> release_route" where
  "route_of_row row =
     (let snapshot = (case rw_draft_snapshot row of JDict d \<Rightarrow> d | _ \<Rightarrow> []) in
      \<lparr>rr_release_id = rw_id row, rr_tenant_id = rw_tenant_id row, rr_model_alias = rw_model_alias row,
       rr_data_classification = rw_data_classification row, rr_region = rw_region row,
       rr_allowed_fallback_aliases = rw_fallback_aliases row,
       rr_profile_snapshots = rw_model_profiles row,
       rr_instructions = snapshot_instructions snapshot,
       rr_knowledge_refs = snapshot_knowledge_refs snapshot\<rparr>)"

text \<open>The query is \<open>Inl\<close> when the database raised, else the row it found, if any.\<close>

definition resolve_release ::
  "(string \<Rightarrow> bool) \<Rightarrow> (string \<Rightarrow> string \<Rightarrow> sql_error + release_row option)
   \<Rightarrow> (string \<times> string \<rightharpoonup> release_route) \<Rightarrow> string \<Rightarrow> string
   \<Rightarrow> release_route option \<times> (string \<times> string \<rightharpoonup> release_route)" where
  "resolve_release uuid_ok query routes tenant_id release_id =
     (if \<not> (uuid_ok tenant_id \<and> uuid_ok release_id) then (None, routes)
      else case routes (tenant_id, release_id) of
        Some cached \<Rightarrow> (Some cached, routes)
      | None \<Rightarrow>
         (case query tenant_id release_id of
            Inl _ \<Rightarrow> (routes (tenant_id, release_id), routes)
          | Inr None \<Rightarrow> (None, routes)
          | Inr (Some row) \<Rightarrow>
             (if rw_model_profiles row = [] then (None, routes)
              else (Some (route_of_row row), routes((tenant_id, release_id) \<mapsto> route_of_row row)))))"

record deployment_route =
  dr_release_id :: string
  dr_previous_release_id :: "string option"
  dr_rollout_percentage :: int

definition session_rollout_bucket :: "string \<Rightarrow> int" where
  "session_rollout_bucket session_id = int_from_bytes_big (take 8 (sha256 session_id)) mod 100"

definition choose_release :: "deployment_route \<Rightarrow> string \<Rightarrow> string" where
  "choose_release d session_id =
     (case dr_previous_release_id d of
        Some prev \<Rightarrow>
          if dr_rollout_percentage d < 100 \<and> dr_rollout_percentage d \<le> session_rollout_bucket session_id
          then prev else dr_release_id d
      | None \<Rightarrow> dr_release_id d)"

definition resolve_deployment ::
  "(string \<Rightarrow> bool) \<Rightarrow> (string \<Rightarrow> string \<Rightarrow> string \<Rightarrow> sql_error + deployment_route option)
   \<Rightarrow> (string \<times> string \<times> string \<rightharpoonup> deployment_route) \<Rightarrow> string \<Rightarrow> string \<Rightarrow> string \<Rightarrow> string
   \<Rightarrow> string option \<times> (string \<times> string \<times> string \<rightharpoonup> deployment_route)" where
  "resolve_deployment uuid_ok query routes tenant_id application_id environment session_id =
     (if \<not> (uuid_ok tenant_id \<and> uuid_ok application_id) then (None, routes)
      else let key = (tenant_id, application_id, environment) in
        case query tenant_id application_id environment of
          Inl _ \<Rightarrow>
            (case routes key of
               None \<Rightarrow> (None, routes)
             | Some d \<Rightarrow> (Some (choose_release d session_id), routes))
        | Inr None \<Rightarrow> (None, routes)
        | Inr (Some d) \<Rightarrow> (Some (choose_release d session_id), routes(key \<mapsto> d)))"

subsection \<open>Completion\<close>

record gateway_result =
  gr_model_alias :: string
  gr_fallback_used :: bool
  gr_completion :: "(string \<times> json) list"

record gateway_request =
  gq_tenant_id :: string
  gq_model_alias :: string
  gq_messages :: "(string \<times> string) list list"
  gq_data_classification :: data_classification
  gq_region :: string
  gq_allowed_fallback_aliases :: "string list"
  gq_profile_snapshots :: "model_profile list"
  gq_release_id :: "string option"
  gq_application_id :: "string option"
  gq_execution_id :: "string option"

record worker_ports =
  wp_worker_pool :: string
  wp_owner_id :: string
  wp_lease_ttl :: int
  wp_storage_pool :: "uuid \<Rightarrow> string option"
  wp_release :: "string \<Rightarrow> string \<Rightarrow> release_route option"
  wp_deployment :: "(string \<Rightarrow> string \<Rightarrow> string \<Rightarrow> string \<Rightarrow> string option) option"
  wp_knowledge :: "string \<Rightarrow> string \<Rightarrow> string \<Rightarrow> string \<Rightarrow> string option"
  wp_gateway :: "gateway_request \<Rightarrow> string + gateway_result"
  wp_auditor :: "(release_route \<Rightarrow> gateway_result \<Rightarrow> bool) option"
  wp_traceparent :: "string option"

text \<open>An \<open>Inl\<close> is the code of a \<open>ModelGatewayError\<close>.\<close>

definition complete ::
  "worker_ports \<Rightarrow> string \<Rightarrow> string \<Rightarrow> (string \<times> string) list list \<Rightarrow> string option \<Rightarrow> string option
   \<Rightarrow> string + gateway_result" where
  "complete wp tenant_id release_id messages application_id execution_id =
     (case wp_release wp tenant_id release_id of
        None \<Rightarrow> Inl ''RELEASE_NOT_FOUND''
      | Some route \<Rightarrow>
         (case wp_gateway wp
             \<lparr>gq_tenant_id = rr_tenant_id route, gq_model_alias = rr_model_alias route, gq_messages = messages,
              gq_data_classification = rr_data_classification route, gq_region = rr_region route,
              gq_allowed_fallback_aliases = rr_allowed_fallback_aliases route,
              gq_profile_snapshots = rr_profile_snapshots route, gq_release_id = Some (rr_release_id route),
              gq_application_id = application_id, gq_execution_id = execution_id\<rparr> of
            Inl code \<Rightarrow> Inl code
          | Inr result \<Rightarrow>
             (case wp_auditor wp of
                Some record \<Rightarrow>
                  if gr_fallback_used result \<and> \<not> record route result then Inl ''FALLBACK_AUDIT_UNAVAILABLE''
                  else Inr result
              | None \<Rightarrow> Inr result)))"

definition complete_for_deployment ::
  "worker_ports \<Rightarrow> string \<Rightarrow> string \<Rightarrow> string \<Rightarrow> string \<Rightarrow> (string \<times> string) list list \<Rightarrow> string + gateway_result" where
  "complete_for_deployment wp tenant_id application_id environment session_id messages =
     (case wp_deployment wp of
        None \<Rightarrow> Inl ''DEPLOYMENT_ROUTING_UNAVAILABLE''
      | Some resolve \<Rightarrow>
         (case resolve tenant_id application_id environment session_id of
            None \<Rightarrow> Inl ''DEPLOYMENT_NOT_FOUND''
          | Some release_id \<Rightarrow> complete wp tenant_id release_id messages None None))"

subsection \<open>The payload of a request\<close>

record execution_requested =
  rq_tenant_id :: string
  rq_application_id :: string
  rq_execution_id :: string
  rq_release_id :: string
  rq_environment :: string
  rq_session_id :: string
  rq_messages :: "(string \<times> string) list list"
  rq_channel_context :: "(string \<times> string) list option"
  rq_trace_parent :: "string option"

fun str_dict :: "(string \<times> json) list \<Rightarrow> (string \<times> string) list option" where
  "str_dict [] = Some []"
| "str_dict ((k, JStr v) # kvs) = map_option (Cons (k, v)) (str_dict kvs)"
| "str_dict ((k, _) # kvs) = None"

fun str_dicts :: "json list \<Rightarrow> (string \<times> string) list list option" where
  "str_dicts [] = Some []"
| "str_dicts (JDict d # vs) =
     (case (str_dict d, str_dicts vs) of (Some m, Some ms) \<Rightarrow> Some (m # ms) | _ \<Rightarrow> None)"
| "str_dicts (_ # vs) = None"

definition str_field :: "(string \<times> json) list \<Rightarrow> string \<Rightarrow> string option" where
  "str_field d k = (case dict_get d k of Some (JStr s) \<Rightarrow> Some s | _ \<Rightarrow> None)"

definition REQUESTED_FIELDS :: "string list" where
  "REQUESTED_FIELDS = [''tenant_id'', ''application_id'', ''execution_id'', ''release_id'', ''environment'',
     ''session_id'', ''messages'', ''channel_context'', ''trace_parent'']"

definition validate_messages :: "json option \<Rightarrow> (string \<times> string) list list option" where
  "validate_messages v =
     (case v of
        Some (JList ms) \<Rightarrow> if 1 \<le> length ms \<and> length ms \<le> 200 then str_dicts ms else None
      | _ \<Rightarrow> None)"

definition validate_context :: "json option \<Rightarrow> (string \<times> string) list option option" where
  "validate_context v =
     (case v of None \<Rightarrow> Some None | Some JNull \<Rightarrow> Some None
      | Some (JDict d) \<Rightarrow> map_option Some (str_dict d) | Some _ \<Rightarrow> None)"

definition validate_trace :: "json option \<Rightarrow> string option option" where
  "validate_trace v =
     (case v of None \<Rightarrow> Some None | Some JNull \<Rightarrow> Some None
      | Some (JStr s) \<Rightarrow> if 1 \<le> length s \<and> length s \<le> 128 then Some (Some s) else None | Some _ \<Rightarrow> None)"

text \<open>\<open>ExecutionRequestedData.model_validate\<close>: \<open>None\<close> is a \<open>ValidationError\<close>.\<close>

definition validate_requested :: "(string \<times> json) list \<Rightarrow> execution_requested option" where
  "validate_requested d =
     (if \<not> set (map fst d) \<subseteq> set REQUESTED_FIELDS then None
      else case (str_field d ''tenant_id'', str_field d ''application_id'', str_field d ''execution_id'',
                 str_field d ''release_id'', str_field d ''environment'', str_field d ''session_id'',
                 validate_messages (dict_get d ''messages''), validate_context (dict_get d ''channel_context''),
                 validate_trace (dict_get d ''trace_parent'')) of
        (Some t, Some a, Some x, Some r, Some e, Some s, Some ms, Some c, Some tp) \<Rightarrow>
          Some \<lparr>rq_tenant_id = t, rq_application_id = a, rq_execution_id = x, rq_release_id = r,
                rq_environment = e, rq_session_id = s, rq_messages = ms, rq_channel_context = c,
                rq_trace_parent = tp\<rparr>
      | _ \<Rightarrow> None)"

definition json_of_str_dict :: "(string \<times> string) list \<Rightarrow> json" where
  "json_of_str_dict d = JDict (map (\<lambda>(k, v). (k, JStr v)) d)"

text \<open>\<open>ExecutionCompletedData(...).model_dump()\<close>\<close>

definition completed_payload ::
  "execution_requested \<Rightarrow> (string \<times> json) list \<Rightarrow> string option \<Rightarrow> (string \<times> json) list" where
  "completed_payload data completion traceparent =
     [(''tenant_id'', JStr (rq_tenant_id data)), (''execution_id'', JStr (rq_execution_id data)),
      (''release_id'', JStr (rq_release_id data)), (''session_id'', JStr (rq_session_id data)),
      (''completion'', JDict completion),
      (''channel_context'', (case rq_channel_context data of None \<Rightarrow> JNull | Some c \<Rightarrow> json_of_str_dict c)),
      (''trace_parent'', (case traceparent of None \<Rightarrow> JNull | Some s \<Rightarrow> JStr s))]"

subsection \<open>The processor\<close>

datatype handle_error =
    ModelGatewayError string
  | HandleSession session_error
  | HandleValue string

definition execution_status :: "uuid \<Rightarrow> string \<Rightarrow> 'a session_tables_scheme \<Rightarrow> execution_status option" where
  "execution_status tenant_id message_id db = map_option ex_status (execution_of tenant_id message_id db)"

definition mark_failed :: "uuid \<Rightarrow> uuid \<Rightarrow> 'a session_tables_scheme \<Rightarrow> 'a session_tables_scheme" where
  "mark_failed tenant_id execution_id db =
     db\<lparr>agent_execution := update_where
          (\<lambda>r. ex_tenant_id r = tenant_id \<and> ex_id r = execution_id \<and> ex_status r = EX_PENDING)
          (\<lambda>r. r\<lparr>ex_status := EX_FAILED\<rparr>) (agent_execution db)\<rparr>"

definition record_knowledge :: "uuid \<Rightarrow> uuid \<Rightarrow> string list \<Rightarrow> 'a session_tables_scheme \<Rightarrow> 'a session_tables_scheme" where
  "record_knowledge tenant_id execution_id ids db =
     db\<lparr>agent_execution := update_where (\<lambda>r. ex_tenant_id r = tenant_id \<and> ex_id r = execution_id)
          (\<lambda>r. r\<lparr>ex_knowledge_revision_ids := ids\<rparr>) (agent_execution db)\<rparr>"

definition mark_succeeded :: "uuid \<Rightarrow> uuid \<Rightarrow> 'a session_tables_scheme \<Rightarrow> 'a session_tables_scheme" where
  "mark_succeeded tenant_id execution_id db =
     db\<lparr>agent_execution := update_where (\<lambda>r. ex_tenant_id r = tenant_id \<and> ex_id r = execution_id)
          (\<lambda>r. r\<lparr>ex_status := EX_SUCCEEDED\<rparr>) (agent_execution db)\<rparr>"

fun resolve_knowledge :: "(string \<Rightarrow> string option) \<Rightarrow> string list \<Rightarrow> string list option" where
  "resolve_knowledge resolve [] = Some []"
| "resolve_knowledge resolve (b # bs) =
     (case resolve b of None \<Rightarrow> None | Some r \<Rightarrow> map_option (Cons r) (resolve_knowledge resolve bs))"

definition execution_events :: "execution_requested \<Rightarrow> gateway_result \<Rightarrow> string list \<Rightarrow> session_event_in list" where
  "execution_events data result knowledge_revision_ids =
     [\<lparr>ev_kind = ''USER_MESSAGE'',
       ev_payload = [(''content'', JStr (case map_of (last (rq_messages data)) ''content'' of Some c \<Rightarrow> c | None \<Rightarrow> []))]\<rparr>,
      \<lparr>ev_kind = ''AGENT_REPLY'',
       ev_payload = [(''model_alias'', JStr (gr_model_alias result)),
                     (''fallback_used'', JBool (gr_fallback_used result)),
                     (''completion'', JDict (gr_completion result)),
                     (''knowledge_revision_ids'', JList (map JStr knowledge_revision_ids))]\<rparr>]"

text \<open>The commit transaction: the session events, the execution status and the completion event.\<close>

definition commit_execution ::
  "timestamp \<Rightarrow> (nat \<Rightarrow> uuid) \<Rightarrow> worker_ports \<Rightarrow> lease_grant \<Rightarrow> release_route \<Rightarrow> execution_requested
   \<Rightarrow> string \<Rightarrow> gateway_result \<Rightarrow> string list \<Rightarrow> 'a session_tables_scheme
   \<Rightarrow> session_error + (int option \<times> 'a session_tables_scheme)" where
  "commit_execution now ids wp grant route data message_id result knowledge_revision_ids db =
     (case commit_session_events now (ids 2) (ids 1) (rq_tenant_id data) (rq_session_id data) (wp_owner_id wp)
             (fencing_token grant) (session_version grant) (rq_execution_id data) message_id
             (execution_events data result knowledge_revision_ids) (Some (class_value (rr_data_classification route))) db of
        Inl e \<Rightarrow> Inl e
      | Inr (None, db1) \<Rightarrow> Inr (None, db1)
      | Inr (Some n, db1) \<Rightarrow>
         (case insert_outbox_record now (ids 4) (rq_tenant_id data) (ids 3) WORKER_SOURCE EXECUTION_COMPLETED_EVENT
                 (session_partition_key (rq_tenant_id data) (rq_session_id data))
                 (completed_payload data (gr_completion result) (wp_traceparent wp))
                 (Some message_id) (Some (rq_execution_id data)) (Some (class_value (rr_data_classification route)))
                 (mark_succeeded (rq_tenant_id data) (rq_execution_id data) db1) of
            Inl e \<Rightarrow> Inl (SessionSqlError e)
          | Inr db2 \<Rightarrow> Inr (Some n, db2)))"

text \<open>
  \<open>_handle\<close> is a sequence of transactions; \<open>env i\<close> is what the rest of the system does to the
  tables before the \<open>i\<close>-th of them, \<open>clk i\<close> the instant of it.
\<close>

definition run_completion ::
  "(nat \<Rightarrow> session_tables \<Rightarrow> session_tables) \<Rightarrow> (nat \<Rightarrow> timestamp) \<Rightarrow> (nat \<Rightarrow> uuid) \<Rightarrow> worker_ports
   \<Rightarrow> lease_grant \<Rightarrow> release_route \<Rightarrow> execution_requested \<Rightarrow> string \<Rightarrow> string list
   \<Rightarrow> session_tables \<Rightarrow> (handle_error + unit) \<times> session_tables" where
  "run_completion env clk ids wp grant route data message_id knowledge_revision_ids db =
     (case complete wp (rq_tenant_id data) (rq_release_id data) (rq_messages data)
             (Some (rq_application_id data)) (Some (rq_execution_id data)) of
        Inl code \<Rightarrow> (Inl (ModelGatewayError code), db)
      | Inr result \<Rightarrow>
         (let db4 = env 4 db in
          case renew (clk 4) (wp_lease_ttl wp) (rq_tenant_id data) (rq_session_id data) (wp_owner_id wp)
                 (fencing_token grant) db4 of
            Inl e \<Rightarrow> (Inl (HandleSession e), db4)
          | Inr db4' \<Rightarrow>
             (let db5 = env 5 db4' in
              case commit_execution (clk 5) ids wp grant route data message_id result knowledge_revision_ids db5 of
                Inl e \<Rightarrow> (Inl (HandleSession e), db5)
              | Inr (_, db6) \<Rightarrow> (Inr (), db6))))"

definition run_leased ::
  "(nat \<Rightarrow> session_tables \<Rightarrow> session_tables) \<Rightarrow> (nat \<Rightarrow> timestamp) \<Rightarrow> (nat \<Rightarrow> uuid) \<Rightarrow> worker_ports
   \<Rightarrow> lease_grant \<Rightarrow> execution_requested \<Rightarrow> string \<Rightarrow> session_tables \<Rightarrow> (handle_error + unit) \<times> session_tables" where
  "run_leased env clk ids wp grant data message_id db =
     (case wp_release wp (rq_tenant_id data) (rq_release_id data) of
        None \<Rightarrow> (Inl (ModelGatewayError ''RELEASE_NOT_FOUND''), db)
      | Some route \<Rightarrow>
         if rr_knowledge_refs route = [] then run_completion env clk ids wp grant route data message_id [] db
         else case resolve_knowledge
                (\<lambda>b. wp_knowledge wp (rq_tenant_id data) b (rq_environment data) (rq_session_id data))
                (rr_knowledge_refs route) of
             None \<Rightarrow> (Inl (ModelGatewayError ''KNOWLEDGE_DEPLOYMENT_NOT_FOUND''), db)
           | Some ks \<Rightarrow> run_completion env clk ids wp grant route data message_id ks
               (record_knowledge (rq_tenant_id data) (rq_execution_id data) ks (env 3 db)))"

definition handle_data ::
  "(nat \<Rightarrow> session_tables \<Rightarrow> session_tables) \<Rightarrow> (nat \<Rightarrow> timestamp) \<Rightarrow> (nat \<Rightarrow> uuid) \<Rightarrow> worker_ports
   \<Rightarrow> execution_requested \<Rightarrow> string \<Rightarrow> session_tables \<Rightarrow> (handle_error + unit) \<times> session_tables" where
  "handle_data env clk ids wp data message_id db0 =
     (let t = rq_tenant_id data; pool = wp_storage_pool wp t; db1 = env 1 db0 in
      if pool \<noteq> None \<and> pool \<noteq> Some (wp_worker_pool wp)
      then (Inl (ModelGatewayError ''STORAGE_WORKER_POOL_MISMATCH''), db0)
      else if execution_status t message_id db1 \<in> {Some EX_SUCCEEDED, Some EX_FAILED} then (Inr (), db1)
      else let db2 = env 2 db1 in
        case acquire (clk 2) (wp_lease_ttl wp) t (rq_session_id data) (wp_owner_id wp) db2 of
          Inl e \<Rightarrow> (Inl (HandleSession e), db2)
        | Inr (grant, db3) \<Rightarrow> run_leased env clk ids wp grant data message_id db3)"

definition handle ::
  "(nat \<Rightarrow> session_tables \<Rightarrow> session_tables) \<Rightarrow> (nat \<Rightarrow> timestamp) \<Rightarrow> (nat \<Rightarrow> uuid) \<Rightarrow> worker_ports
   \<Rightarrow> execution_envelope \<Rightarrow> session_tables \<Rightarrow> (handle_error + unit) \<times> session_tables" where
  "handle env clk ids wp e db =
     (if env_event_type e \<noteq> EXECUTION_REQUESTED_EVENT then (Inl (HandleValue ''unexpected agent worker event type''), db)
      else case validate_requested (env_data e) of
        None \<Rightarrow> (Inl (HandleValue ''ValidationError''), db)
      | Some data \<Rightarrow>
         (case handle_data env clk ids wp data (env_message_id e) db of
            (Inl (ModelGatewayError code), db') \<Rightarrow>
              (Inl (ModelGatewayError code), mark_failed (rq_tenant_id data) (rq_execution_id data) (env 6 db'))
          | r \<Rightarrow> r))"

subsection \<open>The system around the processor\<close>

text \<open>
  The transactions of the running system on these tables: those on sessions and leases, the
  worker's commit and status updates, the gateway's insert of a new execution (fresh id and
  message id, status PENDING) and what the dispatcher does to the Outbox.
\<close>

definition new_execution :: "agent_execution_row \<Rightarrow> 'a session_tables_scheme \<Rightarrow> bool" where
  "new_execution r db \<longleftrightarrow> ex_status r = EX_PENDING \<and>
     (\<forall>q \<in> set (agent_execution db). ex_tenant_id q = ex_tenant_id r \<longrightarrow>
        ex_id q \<noteq> ex_id r \<and> ex_message_id q \<noteq> ex_message_id r)"

inductive worker_step :: "session_tables \<Rightarrow> session_tables \<Rightarrow> bool" where
  create: "create_session_if_missing now t a s db = Inr db' \<Longrightarrow> worker_step db db'"
| acquire: "acquire now ttl t s w db = Inr (g, db') \<Longrightarrow> worker_step db db'"
| renew: "renew now ttl t s w f db = Inr db' \<Longrightarrow> worker_step db db'"
| release: "worker_step db (release now t s w db)"
| commit: "commit_execution now ids wp g route data key result ks db = Inr (r, db') \<Longrightarrow> worker_step db db'"
| failed: "worker_step db (mark_failed t x db)"
| knowledge: "worker_step db (record_knowledge t x ks db)"
| submit: "new_execution r db \<Longrightarrow> worker_step db (db\<lparr>agent_execution := agent_execution db @ [r]\<rparr>)"
| outbox: "worker_step db (db\<lparr>outbox_record := os\<rparr>)"

definition worker_steps :: "session_tables \<Rightarrow> session_tables \<Rightarrow> bool" where
  "worker_steps = worker_step\<^sup>*\<^sup>*"

subsection \<open>Execution status\<close>

lemma agent_execution_commit [simp]: "agent_execution (commit_state now i m t s v x key evs dc db) = agent_execution db"
  by (simp add: commit_state_def)

lemma execution_of_update [simp]:
  assumes "\<And>r. ex_tenant_id (f r) = ex_tenant_id r" "\<And>r. ex_message_id (f r) = ex_message_id r"
  shows "execution_of t key (db\<lparr>agent_execution := update_where P f (agent_execution db)\<rparr>) =
    map_option (\<lambda>r. if P r then f r else r) (execution_of t key db)"
  using assms by (simp add: execution_of_def row_of_update_where)

lemma execution_of_cong: "agent_execution db' = agent_execution db \<Longrightarrow> execution_of t key db' = execution_of t key db"
  by (simp add: execution_of_def)

lemma execution_status_cong:
  "agent_execution db' = agent_execution db \<Longrightarrow> execution_status t key db' = execution_status t key db"
  by (simp add: execution_status_def execution_of_def)

lemma commit_execution_SomeD:
  assumes "commit_execution now ids wp g route data key result ks db = Inr (Some n, db')"
  shows "commit_valid now (rq_tenant_id data) (rq_session_id data) (wp_owner_id wp) (fencing_token g)
      (session_version g) key (execution_events data result ks) db"
    "agent_execution db' = agent_execution (mark_succeeded (rq_tenant_id data) (rq_execution_id data) db)"
proof -
  from assms obtain db1 where c: "commit_session_events now (ids 2) (ids 1) (rq_tenant_id data) (rq_session_id data)
      (wp_owner_id wp) (fencing_token g) (session_version g) (rq_execution_id data) key
      (execution_events data result ks) (Some (class_value (rr_data_classification route))) db = Inr (Some n, db1)"
    and ae: "agent_execution db' = agent_execution (mark_succeeded (rq_tenant_id data) (rq_execution_id data) db1)"
    by (auto simp: commit_execution_def insert_outbox_Inr_iff split: sum.splits option.splits)
  show "commit_valid now (rq_tenant_id data) (rq_session_id data) (wp_owner_id wp) (fencing_token g)
      (session_version g) key (execution_events data result ks) db" by (rule commit_SomeD(1) [OF c])
  show "agent_execution db' = agent_execution (mark_succeeded (rq_tenant_id data) (rq_execution_id data) db)"
    using ae commit_SomeD(3) [OF c] by (simp add: mark_succeeded_def)
qed

lemma commit_execution_NoneD:
  assumes "commit_execution now ids wp g route data key result ks db = Inr (None, db')"
  shows "db' = db" "execution_status (rq_tenant_id data) key db = Some EX_SUCCEEDED"
proof -
  from assms have c: "commit_session_events now (ids 2) (ids 1) (rq_tenant_id data) (rq_session_id data)
      (wp_owner_id wp) (fencing_token g) (session_version g) (rq_execution_id data) key
      (execution_events data result ks) (Some (class_value (rr_data_classification route))) db = Inr (None, db')"
    by (auto simp: commit_execution_def split: prod.splits sum.splits option.splits)
  show "db' = db" "execution_status (rq_tenant_id data) key db = Some EX_SUCCEEDED"
    using commit_NoneD [OF c] by (auto simp: execution_status_def)
qed

lemma commit_execution_done:
  assumes "execution_status (rq_tenant_id data) key db = Some EX_SUCCEEDED"
  shows "commit_execution now ids wp g route data key result ks db = Inr (None, db)"
  using assms
  by (auto simp: commit_execution_def commit_session_events_def execution_status_def execution_events_def Let_def
      split: prod.splits)

lemma agent_execution_session_ops:
  "create_session_if_missing now t a s db = Inr db' \<Longrightarrow> agent_execution db' = agent_execution db"
  "acquire now ttl t s w db = Inr (g, db') \<Longrightarrow> agent_execution db' = agent_execution db"
  "renew now ttl t s w f db = Inr db' \<Longrightarrow> agent_execution db' = agent_execution db"
  "agent_execution (release now t s w db) = agent_execution db"
  by (auto simp: create_session_if_missing_def renew_def release_def Let_def split: if_splits option.splits
      dest!: acquireD(2))

lemma mark_succeeded_status:
  "execution_status t key (mark_succeeded t' x db) =
     map_option (\<lambda>r. if ex_tenant_id r = t' \<and> ex_id r = x then EX_SUCCEEDED else ex_status r) (execution_of t key db)"
  by (simp add: mark_succeeded_def execution_status_def option.map_comp comp_def if_distrib cong: if_cong)

lemma mark_failed_status:
  "execution_status t key (mark_failed t' x db) =
     map_option (\<lambda>r. if ex_tenant_id r = t' \<and> ex_id r = x \<and> ex_status r = EX_PENDING then EX_FAILED else ex_status r)
       (execution_of t key db)"
  by (simp add: mark_failed_def execution_status_def option.map_comp comp_def if_distrib cong: if_cong)

lemma record_knowledge_status [simp]:
  "execution_status t key (record_knowledge t' x ks db) = execution_status t key db"
  by (simp add: record_knowledge_def execution_status_def option.map_comp comp_def if_distrib cong: if_cong)

lemma succeeded_step:
  assumes "worker_step db db'" "execution_status t key db = Some EX_SUCCEEDED"
  shows "execution_status t key db' = Some EX_SUCCEEDED"
  using assms
proof cases
  case (commit now ids wp g route data key' result ks r)
  show ?thesis
  proof (cases r)
    case None
    then show ?thesis using commit_execution_NoneD(1) commit assms(2) by blast
  next
    case (Some n)
    from commit_execution_SomeD(2) [OF commit [unfolded Some]] assms(2) show ?thesis
      by (auto simp: mark_succeeded_status execution_status_cong execution_status_def [of _ _ db])
  qed
next
  case (submit r)
  then show ?thesis using assms(2)
    by (auto simp: execution_status_def execution_of_def row_of_append split: option.splits)
next
  case (failed t' x)
  then show ?thesis using assms(2)
    by (cases "execution_of t key db") (auto simp: mark_failed_status execution_status_def [of _ _ db])
next
  case (outbox os)
  then show ?thesis using assms(2) by (simp add: execution_status_def execution_of_def)
next
  case create
  then show ?thesis using assms(2) execution_status_cong [OF agent_execution_session_ops(1)] by metis
next
  case acquire
  then show ?thesis using assms(2) execution_status_cong [OF agent_execution_session_ops(2)] by metis
next
  case renew
  then show ?thesis using assms(2) execution_status_cong [OF agent_execution_session_ops(3)] by metis
next
  case release
  then show ?thesis using assms(2) execution_status_cong [OF agent_execution_session_ops(4)] by metis
next
  case knowledge
  then show ?thesis using assms(2) by simp
qed

text \<open>
  C11: one commit per message. Once the commit transaction of an execution has written, every
  later attempt to commit the same message, by any worker, under any lease and after anything
  else the system does, finds the execution succeeded and changes nothing.
\<close>

theorem message_commits_once:
  assumes "commit_execution now ids wp g route data key result ks db = Inr (Some n, db1)"
    and "execution_of (rq_tenant_id data) key db = Some r" "ex_id r = rq_execution_id data"
    and "worker_steps db1 db2" "rq_tenant_id data' = rq_tenant_id data"
  shows "commit_execution now' ids' wp' g' route' data' key result' ks' db2 = Inr (None, db2)"
proof -
  have "ex_tenant_id r = rq_tenant_id data"
    using assms(2) by (auto simp: execution_of_def dest: row_of_SomeD)
  then have "execution_status (rq_tenant_id data) key db1 = Some EX_SUCCEEDED"
    using execution_status_cong [OF commit_execution_SomeD(2) [OF assms(1)]] assms(2,3)
    by (simp add: mark_succeeded_status)
  with assms(4) have "execution_status (rq_tenant_id data) key db2 = Some EX_SUCCEEDED"
    unfolding worker_steps_def by (induction rule: rtranclp_induct) (auto intro: succeeded_step)
  then show ?thesis using assms(5) by (intro commit_execution_done) simp
qed

subsection \<open>Outcomes of the handler\<close>

text \<open>The execution row of the message is the one the request names (the gateway inserts both together).\<close>

definition matched :: "execution_requested \<Rightarrow> string \<Rightarrow> session_tables \<Rightarrow> bool" where
  "matched data message_id db \<longleftrightarrow>
     map_option ex_id (execution_of (rq_tenant_id data) message_id db) = Some (rq_execution_id data)"

definition finished :: "execution_requested \<Rightarrow> string \<Rightarrow> session_tables \<Rightarrow> bool" where
  "finished data message_id db \<longleftrightarrow>
     execution_status (rq_tenant_id data) message_id db \<in> {Some EX_SUCCEEDED, Some EX_FAILED}"

lemma matched_cong: "agent_execution db' = agent_execution db \<Longrightarrow> matched data key db' = matched data key db"
  by (simp add: matched_def execution_of_def)

lemma matched_knowledge: "matched data key db \<Longrightarrow> matched data key (record_knowledge t x ks db)"
  by (cases "execution_of (rq_tenant_id data) key db") (auto simp: matched_def record_knowledge_def)

lemma execution_tenant: "execution_of t key db = Some r \<Longrightarrow> ex_tenant_id r = t"
  by (auto simp: execution_of_def dest: row_of_SomeD)

lemma finished_failed: "matched data key db \<Longrightarrow> finished data key (mark_failed (rq_tenant_id data) (rq_execution_id data) db)"
proof -
  assume "matched data key db"
  then obtain r where r: "execution_of (rq_tenant_id data) key db = Some r" "ex_id r = rq_execution_id data"
    by (auto simp: matched_def)
  from execution_tenant [OF r(1)] r show ?thesis
    by (cases "ex_status r") (auto simp: finished_def mark_failed_status)
qed

lemma finished_commit:
  assumes "matched data key db" "commit_execution now ids wp g route data key result ks db = Inr (r, db')"
  shows "finished data key db'"
proof (cases r)
  case None
  then show ?thesis using commit_execution_NoneD [OF assms(2) [unfolded None]] by (simp add: finished_def)
next
  case (Some n)
  obtain q where "execution_of (rq_tenant_id data) key db = Some q" "ex_id q = rq_execution_id data"
    using assms(1) by (auto simp: matched_def)
  with execution_status_cong [OF commit_execution_SomeD(2) [OF assms(2) [unfolded Some]]] execution_tenant [OF this(1)]
  show ?thesis by (simp add: finished_def mark_succeeded_status)
qed

definition acknowledged :: "execution_requested \<Rightarrow> string \<Rightarrow> (handle_error + unit) \<times> session_tables \<Rightarrow> bool" where
  "acknowledged data key = (\<lambda>(res, db'). case res of
       Inr _ \<Rightarrow> finished data key db'
     | Inl (ModelGatewayError c) \<Rightarrow> matched data key db'
     | Inl _ \<Rightarrow> True)"

lemma run_completion_outcome:
  assumes env: "\<And>i db. matched data key db \<Longrightarrow> matched data key (env i db)" and m: "matched data key db"
  shows "acknowledged data key (run_completion env clk ids wp g route data key ks db)"
proof (cases "complete wp (rq_tenant_id data) (rq_release_id data) (rq_messages data)
             (Some (rq_application_id data)) (Some (rq_execution_id data))")
  case (Inl code)
  then show ?thesis using m by (simp add: run_completion_def acknowledged_def)
next
  case (Inr result)
  show ?thesis
  proof (cases "renew (clk 4) (wp_lease_ttl wp) (rq_tenant_id data) (rq_session_id data) (wp_owner_id wp)
                 (fencing_token g) (env 4 db)")
    case (Inl e)
    then show ?thesis using Inr by (simp add: run_completion_def acknowledged_def Let_def)
  next
    case r: (Inr db4)
    have "matched data key (env 5 db4)"
      using env m matched_cong [OF agent_execution_session_ops(3) [OF r]] by blast
    from finished_commit [OF this] show ?thesis using Inr r
      by (auto simp: run_completion_def acknowledged_def Let_def split: sum.splits)
  qed
qed

lemma run_leased_outcome:
  assumes env: "\<And>i db. matched data key db \<Longrightarrow> matched data key (env i db)" and m: "matched data key db"
  shows "acknowledged data key (run_leased env clk ids wp g data key db)"
proof (cases "wp_release wp (rq_tenant_id data) (rq_release_id data)")
  case None
  then show ?thesis using m by (simp add: run_leased_def acknowledged_def)
next
  case (Some route)
  have k: "matched data key (record_knowledge t x ks (env 3 db))" for t x ks
    by (rule matched_knowledge [OF env [OF m]])
  show ?thesis
    using m run_completion_outcome [where env = env, OF env m] run_completion_outcome [where env = env, OF env k] Some
    by (auto simp: run_leased_def split: option.splits) (simp add: acknowledged_def)
qed

lemma handle_data_outcome:
  assumes env: "\<And>i db. matched data key db \<Longrightarrow> matched data key (env i db)" and m: "matched data key db"
  shows "acknowledged data key (handle_data env clk ids wp data key db)"
proof (cases "acquire (clk 2) (wp_lease_ttl wp) (rq_tenant_id data) (rq_session_id data) (wp_owner_id wp) (env 2 (env 1 db))")
  case (Inl e)
  then show ?thesis using m by (auto simp: handle_data_def Let_def finished_def acknowledged_def)
next
  case (Inr p)
  obtain g db3 where p: "p = (g, db3)" by fastforce
  have "matched data key db3"
    using env m matched_cong [OF agent_execution_session_ops(2) [OF Inr [unfolded p]]] by blast
  from run_leased_outcome [where env = env, OF env this] m Inr p show ?thesis
    by (auto simp: handle_data_def Let_def) (auto simp: finished_def acknowledged_def)
qed

text \<open>
  The consumer acknowledges finished work only. Whatever the rest of the system does between
  the transactions of \<open>handle\<close> (as long as the execution row keeps its id), when \<open>handle\<close>
  returns, the execution of the message has succeeded or failed, and when it raises a
  \<open>ModelGatewayError\<close> it has too; in both cases a redelivery of the message returns at once and
  changes nothing. Every other exception leaves the offset uncommitted.
\<close>

theorem handle_finishes_message:
  assumes "env_event_type e = EXECUTION_REQUESTED_EVENT" "validate_requested (env_data e) = Some data"
    and "\<And>i db. matched data (env_message_id e) db \<Longrightarrow> matched data (env_message_id e) (env i db)"
    and "matched data (env_message_id e) db" "handle env clk ids wp e db = (res, db')"
    and "res = Inr () \<or> res = Inl (ModelGatewayError c)"
  shows "finished data (env_message_id e) db' \<and>
    (wp_storage_pool wp' (rq_tenant_id data) \<in> {None, Some (wp_worker_pool wp')} \<longrightarrow>
       handle (\<lambda>_. id) clk' ids' wp' e db' = (Inr (), db'))"
proof -
  obtain r d1 where hd: "handle_data env clk ids wp data (env_message_id e) db = (r, d1)" by fastforce
  have ack: "acknowledged data (env_message_id e) (r, d1)"
    using handle_data_outcome [where env = env and data = data, OF assms(3,4)] hd by metis
  have fin: "finished data (env_message_id e) db'"
  proof (cases r)
    case (Inr u)
    then show ?thesis using ack assms(1,2,5) hd by (simp add: handle_def acknowledged_def)
  next
    case (Inl err)
    show ?thesis
    proof (cases err)
      case (ModelGatewayError c')
      then have "matched data (env_message_id e) (env 6 d1)" using ack Inl assms(3) by (simp add: acknowledged_def)
      with finished_failed show ?thesis using assms(1,2,5) hd Inl ModelGatewayError by (auto simp: handle_def)
    qed (use assms Inl hd in \<open>auto simp: handle_def\<close>)
  qed
  then show ?thesis using assms(1,2) by (auto simp: handle_def handle_data_def Let_def finished_def)
qed

text \<open>What a session's readers and the dispatcher can see.\<close>

definition visible :: "session_tables \<Rightarrow> session_event_row list \<times> (session_key \<Rightarrow> agent_session_row option) \<times> outbox_row list" where
  "visible db = (session_event db, agent_session db, outbox_record db)"

lemma visible_ops [simp]:
  "visible (record_knowledge t x ks db) = visible db"
  "visible (mark_failed t x db) = visible db"
  by (simp_all add: visible_def record_knowledge_def mark_failed_def)

lemma visible_acquire: "acquire now ttl t s w db = Inr (g, db') \<Longrightarrow> visible db' = visible db"
  by (auto simp: visible_def dest!: acquireD(2))

lemma visible_renew: "renew now ttl t s w f db = Inr db' \<Longrightarrow> visible db' = visible db"
  by (auto simp: visible_def renew_def Let_def split: option.splits if_splits)

lemma run_completion_closed:
  "run_completion (\<lambda>_. id) clk ids wp g route data key ks db = (Inl e, db') \<Longrightarrow> visible db' = visible db"
  by (auto simp: run_completion_def Let_def split: sum.splits dest: visible_renew)

lemma run_leased_closed:
  "run_leased (\<lambda>_. id) clk ids wp g data key db = (Inl e, db') \<Longrightarrow> visible db' = visible db"
  by (auto simp: run_leased_def split: option.splits if_splits dest!: run_completion_closed)

lemma handle_data_closed:
  "handle_data (\<lambda>_. id) clk ids wp data key db = (Inl e, db') \<Longrightarrow> visible db' = visible db"
  by (auto simp: handle_data_def Let_def split: sum.splits if_splits dest!: run_leased_closed visible_acquire)

text \<open>
  C16: a handler that raises has written nothing anyone can see: no session event, no version,
  no Outbox record; only leases, the recorded knowledge revisions and a failed status may differ.
\<close>

theorem handle_fails_closed:
  assumes "handle (\<lambda>_. id) clk ids wp e db = (Inl err, db')"
  shows "visible db' = visible db"
proof (cases "validate_requested (env_data e)")
  case None
  then show ?thesis using assms by (auto simp: handle_def split: if_splits)
next
  case (Some data)
  obtain r d1 where hd: "handle_data (\<lambda>_. id) clk ids wp data (env_message_id e) db = (r, d1)" by fastforce
  show ?thesis
  proof (cases "env_event_type e = EXECUTION_REQUESTED_EVENT")
    case True
    with assms Some hd obtain err' where "r = Inl err'" "visible db' = visible d1"
      by (auto simp: handle_def split: sum.splits handle_error.splits)
    with handle_data_closed hd show ?thesis by simp
  qed (use assms in \<open>auto simp: handle_def\<close>)
qed

text \<open>
  Percentage rollout. A session is always sent to the new or to the previous release; the
  choice depends on the session alone, so raising the percentage never moves a session back,
  at 100 percent every session is on the new release and at 0 percent none is.
\<close>

theorem rollout_monotone:
  assumes "dr_previous_release_id d = Some prev" "dr_release_id d \<noteq> prev"
  shows "choose_release d s \<in> {dr_release_id d, prev} \<and>
    (100 \<le> dr_rollout_percentage d \<longrightarrow> choose_release d s = dr_release_id d) \<and>
    (dr_rollout_percentage d \<le> 0 \<longrightarrow> choose_release d s = prev) \<and>
    (choose_release d s = dr_release_id d \<and> dr_rollout_percentage d \<le> p \<longrightarrow>
       choose_release (d\<lparr>dr_rollout_percentage := p\<rparr>) s = dr_release_id d)"
proof -
  have "0 \<le> session_rollout_bucket s \<and> session_rollout_bucket s < 100" by (simp add: session_rollout_bucket_def)
  with assms show ?thesis by (auto simp: choose_release_def split: if_splits)
qed

text \<open>
  A database outage does not change routing: after a successful resolution, resolving the
  same deployment while the database raises gives every session the release it had.
\<close>

lemma deployment_cache_survives_outage:
  assumes "resolve_deployment uuid_ok query routes t a env s = (Some r, routes')" "query t a env = Inr q"
  shows "resolve_deployment uuid_ok (\<lambda>_ _ _. Inl OperationalError) routes' t a env s = (Some r, routes')"
  using assms by (auto simp: resolve_deployment_def Let_def split: if_splits option.splits)

subsection \<open>A concrete worker\<close>

definition sample_route :: release_route where
  "sample_route = \<lparr>rr_release_id = ''r'', rr_tenant_id = ''t'', rr_model_alias = ''m'',
     rr_data_classification = INTERNAL, rr_region = ''cn'', rr_allowed_fallback_aliases = [],
     rr_profile_snapshots = [], rr_instructions = [], rr_knowledge_refs = []\<rparr>"

definition sample_result :: gateway_result where
  "sample_result = \<lparr>gr_model_alias = ''m'', gr_fallback_used = False, gr_completion = [(''text'', JStr ''hi'')]\<rparr>"

definition sample_ports :: "release_route option \<Rightarrow> worker_ports" where
  "sample_ports route = \<lparr>wp_worker_pool = ''pool'', wp_owner_id = ''w'', wp_lease_ttl = 30,
     wp_storage_pool = (\<lambda>_. None), wp_release = (\<lambda>_ _. route), wp_deployment = None,
     wp_knowledge = (\<lambda>_ _ _ _. None), wp_gateway = (\<lambda>_. Inr sample_result), wp_auditor = None,
     wp_traceparent = None\<rparr>"

definition sample_request :: execution_requested where
  "sample_request = \<lparr>rq_tenant_id = ''t'', rq_application_id = ''app'', rq_execution_id = ''x'',
     rq_release_id = ''r'', rq_environment = ''PRODUCTION'', rq_session_id = ''s'',
     rq_messages = [[(''content'', ''hello'')]], rq_channel_context = None, rq_trace_parent = None\<rparr>"

definition sample_message :: execution_envelope where
  "sample_message = sample_envelope\<lparr>env_message_id := ''m1'',
     env_data := [(''tenant_id'', JStr ''t''), (''application_id'', JStr ''app''), (''execution_id'', JStr ''x''),
       (''release_id'', JStr ''r''), (''environment'', JStr ''PRODUCTION''), (''session_id'', JStr ''s''),
       (''messages'', JList [JDict [(''content'', JStr ''hello'')]])]\<rparr>"

definition sample_ids :: "nat \<Rightarrow> uuid" where
  "sample_ids i = (if i = 1 then ''1'' else if i = 2 then ''2'' else if i = 3 then ''3'' else ''4'')"

lemma sample_message_data: "validate_requested (env_data sample_message) = Some sample_request"
  by (simp add: validate_requested_def sample_message_def sample_request_def str_field_def dict_get_def
      validate_messages_def validate_context_def validate_trace_def REQUESTED_FIELDS_def)

lemma sample_message_type: "env_event_type sample_message = EXECUTION_REQUESTED_EVENT"
  by (simp add: sample_message_def sample_envelope_def)

lemma sample_matched: "matched sample_request (env_message_id sample_message) sample_session"
  by (simp add: matched_def sample_request_def sample_message_def sample_session_def execution_of_def row_of_def)

lemma sample_commit:
  "\<exists>db1. commit_execution 5 sample_ids (sample_ports (Some sample_route)) \<lparr>fencing_token = 1, session_version = 0\<rparr>
     sample_route sample_request ''m1'' sample_result [] leased_session = Inr (Some 2, db1)"
proof -
  have "is_ok (commit_execution 5 sample_ids (sample_ports (Some sample_route)) \<lparr>fencing_token = 1, session_version = 0\<rparr>
     sample_route sample_request ''m1'' sample_result [] leased_session)
    \<and> (case commit_execution 5 sample_ids (sample_ports (Some sample_route)) \<lparr>fencing_token = 1, session_version = 0\<rparr>
     sample_route sample_request ''m1'' sample_result [] leased_session of Inl _ \<Rightarrow> False | Inr (r, _) \<Rightarrow> r = Some 2)"
    by code_simp
  then show ?thesis by (auto split: sum.splits)
qed

theorem message_commits_once_witness:
  "\<exists>db1. commit_execution 5 sample_ids (sample_ports (Some sample_route)) \<lparr>fencing_token = 1, session_version = 0\<rparr>
       sample_route sample_request ''m1'' sample_result [] leased_session = Inr (Some 2, db1) \<and>
     commit_execution 6 sample_ids (sample_ports (Some sample_route)) \<lparr>fencing_token = 1, session_version = 2\<rparr>
       sample_route sample_request ''m1'' sample_result [] db1 = Inr (None, db1)"
proof -
  obtain db1 where c: "commit_execution 5 sample_ids (sample_ports (Some sample_route))
      \<lparr>fencing_token = 1, session_version = 0\<rparr> sample_route sample_request ''m1'' sample_result [] leased_session
      = Inr (Some 2, db1)" using sample_commit by blast
  have ex: "execution_of (rq_tenant_id sample_request) ''m1'' leased_session = Some
      \<lparr>ex_tenant_id = ''t'', ex_id = ''x'', ex_message_id = ''m1'', ex_session_id = ''s'',
        ex_status = EX_PENDING, ex_knowledge_revision_ids = [],
        ex_application_id = ''app'', ex_release_id = ''r'', ex_environment = ''STAGING'', ex_subject_id = None,
        ex_memory_policy_version = ''policy:none'', ex_payload_hash = []\<rparr>"
    by (simp add: leased_session_def sample_session_def sample_request_def execution_of_def row_of_def)
  show ?thesis
    using c message_commits_once [OF c ex, of db1 sample_request] by (auto simp: sample_request_def worker_steps_def)
qed

lemma sample_handle:
  "\<exists>db'. handle (\<lambda>_. id) (\<lambda>_. 5) sample_ids (sample_ports None) sample_message sample_session =
     (Inl (ModelGatewayError ''RELEASE_NOT_FOUND''), db')"
proof -
  have "\<exists>d. handle_data (\<lambda>_. id) (\<lambda>_. 5) sample_ids (sample_ports None) sample_request ''m1'' sample_session =
     (Inl (ModelGatewayError ''RELEASE_NOT_FOUND''), d)"
    by (simp add: handle_data_def Let_def execution_status_def execution_of_def row_of_def acquire_def
        upsert_lease_def lock_session_version_def run_leased_def sample_ports_def sample_request_def
        sample_session_def empty_sessions_def MAX_OWNER_ID_LENGTH_def)
  then obtain d where d: "handle_data (\<lambda>_. id) (\<lambda>_. 5) sample_ids (sample_ports None) sample_request ''m1'' sample_session =
     (Inl (ModelGatewayError ''RELEASE_NOT_FOUND''), d)" by blast
  have "env_message_id sample_message = ''m1''" by (simp add: sample_message_def)
  then show ?thesis by (simp add: handle_def sample_message_type sample_message_data d)
qed

theorem handle_finishes_message_witness:
  "\<exists>db'. handle (\<lambda>_. id) (\<lambda>_. 5) sample_ids (sample_ports None) sample_message sample_session =
     (Inl (ModelGatewayError ''RELEASE_NOT_FOUND''), db') \<and> finished sample_request ''m1'' db'"
proof -
  obtain db' where h: "handle (\<lambda>_. id) (\<lambda>_. 5) sample_ids (sample_ports None) sample_message sample_session =
     (Inl (ModelGatewayError ''RELEASE_NOT_FOUND''), db')" using sample_handle by blast
  have "env_message_id sample_message = ''m1''" by (simp add: sample_message_def)
  with h handle_finishes_message [OF sample_message_type sample_message_data _ sample_matched h] show ?thesis by auto
qed

theorem handle_fails_closed_witness:
  "\<exists>db'. handle (\<lambda>_. id) (\<lambda>_. 5) sample_ids (sample_ports None) sample_message sample_session =
     (Inl (ModelGatewayError ''RELEASE_NOT_FOUND''), db') \<and> visible db' = visible sample_session"
  using sample_handle handle_fails_closed by blast

theorem rollout_monotone_witness:
  "choose_release \<lparr>dr_release_id = ''new'', dr_previous_release_id = Some ''old'', dr_rollout_percentage = 100\<rparr> ''s'' = ''new''"
  using rollout_monotone [of "\<lparr>dr_release_id = ''new'', dr_previous_release_id = Some ''old'', dr_rollout_percentage = 100\<rparr>"
      "''old''" "''s''"] by simp

end
