(* ===== verification/Budgets.thy ===== *)
theory Budgets
  imports Execution_Bus
begin

text \<open>
  Hard budgets and the cost ledger, from \<open>trpc_service/budgets.py\<close> over the tables of migration
  \<open>0011_budgets_cost_ledger.sql\<close>. Amounts are integers (micros); row locks make every
  transaction atomic. \<open>uuid7()\<close> values are never repeated: the model names them after the number
  of ledger rows, which grows with every row that takes one. Whether a transaction's outcome
  reaches the caller is an input (\<open>tx_fate\<close>), since the unknown outcome is what the
  contingency policy is about.
\<close>

subsection \<open>Periods, estimates and the admission decision\<close>

definition CHARS_PER_TOKEN :: int where "CHARS_PER_TOKEN = 4"
definition TENANT_MONTHLY :: string where "TENANT_MONTHLY = ''TENANT_MONTHLY''"
definition AGENT_DAILY :: string where "AGENT_DAILY = ''AGENT_DAILY''"
definition EXECUTION :: string where "EXECUTION = ''EXECUTION''"
definition FAIL_CLOSED :: string where "FAIL_CLOSED = ''FAIL_CLOSED''"
definition CONTINGENCY :: string where "CONTINGENCY = ''CONTINGENCY''"

datatype budget_error =
    BudgetExceeded
  | BudgetStateUnknown string
  | BudgetValueError string
  | BudgetLookupError string
  | BudgetSqlError sql_error

definition monthly_period_key :: "timestamp \<Rightarrow> string" where
  "monthly_period_key moment =
     (case civil_from_days (moment div 1000000 div 86400) of (y, m, d) \<Rightarrow> str_of_int y @ ''-'' @ pad2 m)"

definition daily_period_key :: "timestamp \<Rightarrow> string" where
  "daily_period_key moment =
     (case civil_from_days (moment div 1000000 div 86400) of (y, m, d) \<Rightarrow>
        str_of_int y @ ''-'' @ pad2 m @ ''-'' @ pad2 d)"

definition period_key_for :: "string \<Rightarrow> timestamp \<Rightarrow> string option \<Rightarrow> budget_error + string" where
  "period_key_for scope moment execution_id =
     (if scope = TENANT_MONTHLY then Inr (monthly_period_key moment)
      else if scope = AGENT_DAILY then Inr (daily_period_key moment)
      else if scope = EXECUTION then
        (case execution_id of
           None \<Rightarrow> Inl (BudgetValueError ''execution budgets require an execution id'')
         | Some x \<Rightarrow> if x = [] then Inl (BudgetValueError ''execution budgets require an execution id'') else Inr x)
      else Inl (BudgetValueError (''unknown budget scope: '' @ scope)))"

text \<open>
  \<open>math.ceil(n / d)\<close> for \<open>0 \<le> n\<close> and \<open>0 < d\<close>: the quotient is first rounded to a double (a
  53-bit significand, scaled by \<open>2 ^ k\<close>), then the ceiling is taken.
\<close>

definition ceil_true_div :: "int \<Rightarrow> int \<Rightarrow> int" where
  "ceil_true_div n d =
     (if n = 0 then 0
      else let k = float_scale n d in
        if 0 \<le> k then - ((- round_half_even (n * 2 ^ nat k) d) div 2 ^ nat k)
        else round_half_even n (d * 2 ^ nat (- k)) * 2 ^ nat (- k))"

definition estimate_tokens :: "(string \<times> json) list list \<Rightarrow> int \<Rightarrow> int \<times> int" where
  "estimate_tokens messages max_output_tokens =
     (let input_chars = int (sum_list (map (\<lambda>m. length (utf8_decode (case dict_get m ''content'' of None \<Rightarrow> [] | Some v \<Rightarrow> py_str v))) messages))
      in (ceil_true_div input_chars CHARS_PER_TOKEN, max_output_tokens))"

definition estimate_cost_micros :: "int \<Rightarrow> int \<Rightarrow> int \<Rightarrow> int \<Rightarrow> int" where
  "estimate_cost_micros input_tokens output_tokens input_micros_per_1k output_micros_per_1k =
     ceil_true_div (input_tokens * input_micros_per_1k) 1000 + ceil_true_div (output_tokens * output_micros_per_1k) 1000"

datatype decision = Reject | Warning70 | Critical90

text \<open>
  \<open>ratio = used / limit\<close> is a double. Here it is at most 1, and from one half on a double is a
  multiple of \<open>2 ^ -53\<close>, so rounding \<open>used * 2 ^ 53 / limit\<close> to an integer decides the comparison
  with the doubles \<open>0.9\<close> and \<open>0.7\<close> (whose numerators over \<open>2 ^ 53\<close> are written out).
\<close>

definition evaluate_level :: "int \<Rightarrow> int \<Rightarrow> decision option" where
  "evaluate_level used_after_micros limit_micros =
     (if limit_micros < used_after_micros then Some Reject
      else if limit_micros \<le> 0 then None
      else let ratio = round_half_even (used_after_micros * 2 ^ 53) limit_micros in
        if 8106479329266893 \<le> ratio then Some Critical90
        else if 6305039478318694 \<le> ratio then Some Warning70
        else None)"

definition decision_level :: "decision \<Rightarrow> string" where
  "decision_level d = (case d of Reject \<Rightarrow> ''REJECT'' | Warning70 \<Rightarrow> ''WARNING_70'' | Critical90 \<Rightarrow> ''CRITICAL_90'')"

subsection \<open>Tables\<close>

record budget_command =
  cmd_tenant_id :: uuid
  cmd_application_id :: "uuid option"
  cmd_execution_id :: "string option"
  cmd_estimated_micros :: int
  cmd_price_version :: "int option"

record budget_reservation =
  rs_budget_id :: uuid
  rs_scope :: string
  rs_period_key :: string
  rs_amount_micros :: int
  rs_ledger_entry_id :: uuid
  rs_contingency :: bool

record reservation_bundle =
  bn_command :: budget_command
  bn_entries :: "budget_reservation list"
  bn_alerts :: "string list"

record level =
  lv_budget_id :: uuid
  lv_scope :: string
  lv_period_key :: string
  lv_limit_micros :: int
  lv_contingency_micros :: int
  lv_unknown_policy :: string

record budget_row =
  bg_tenant_id :: uuid
  bg_id :: uuid
  bg_application_id :: "uuid option"
  bg_scope :: string
  bg_limit_micros :: int
  bg_contingency_micros :: int
  bg_unknown_policy :: string
  bg_created_at :: timestamp

record period_state =
  ps_reserved_micros :: int
  ps_consumed_micros :: int
  ps_allowance_micros :: int
  ps_contingency_reserved_micros :: int
  ps_version :: int

datatype entry_type = RESERVE | SETTLE | RELEASE | REJECT | ADJUST

record ledger_row =
  lg_tenant_id :: uuid
  lg_id :: uuid
  lg_budget_id :: uuid
  lg_period_key :: string
  lg_application_id :: "uuid option"
  lg_execution_id :: "string option"
  lg_entry_type :: entry_type
  lg_amount_micros :: int
  lg_reserve_id :: uuid
  lg_contingency :: bool
  lg_reason :: string
  lg_actor :: string
  lg_price_version :: "int option"

record price_row =
  pr_tenant_id :: uuid
  pr_version :: int
  pr_model_alias :: string
  pr_input_micros_per_1k :: int
  pr_output_micros_per_1k :: int

type_synonym period = "uuid \<times> uuid \<times> string"

record budget_tables =
  budget :: "budget_row list"
  budget_period_state :: "period \<rightharpoonup> period_state"
  budget_alert :: "(uuid \<times> uuid \<times> string \<times> string) \<rightharpoonup> (int \<times> int)"
  cost_ledger :: "ledger_row list"
  model_price :: "price_row list"

definition fresh_id :: "budget_tables \<Rightarrow> uuid" where
  "fresh_id db = replicate (length (cost_ledger db)) (CHR ''i'')"

definition budget_exists :: "uuid \<Rightarrow> uuid \<Rightarrow> budget_tables \<Rightarrow> bool" where
  "budget_exists t b db \<longleftrightarrow> list_ex (\<lambda>r. bg_tenant_id r = t \<and> bg_id r = b) (budget db)"

definition period_state_ok :: "period_state \<Rightarrow> bool" where
  "period_state_ok s \<longleftrightarrow> 0 \<le> ps_reserved_micros s \<and> 0 \<le> ps_consumed_micros s \<and>
     0 \<le> ps_contingency_reserved_micros s \<and> 0 < ps_version s"

subsection \<open>Statements\<close>

definition ensure_state_row :: "uuid \<Rightarrow> uuid \<Rightarrow> string \<Rightarrow> budget_tables \<Rightarrow> sql_error + budget_tables" where
  "ensure_state_row tenant_id budget_id period_key db =
     (if \<not> (1 \<le> length period_key \<and> length period_key \<le> 64) then Inl IntegrityError
      else case budget_period_state db (tenant_id, budget_id, period_key) of
        Some _ \<Rightarrow> Inr db
      | None \<Rightarrow>
         if \<not> budget_exists tenant_id budget_id db then Inl IntegrityError
         else Inr (db\<lparr>budget_period_state := (budget_period_state db)((tenant_id, budget_id, period_key) \<mapsto>
                \<lparr>ps_reserved_micros = 0, ps_consumed_micros = 0, ps_allowance_micros = 0,
                 ps_contingency_reserved_micros = 0, ps_version = 1\<rparr>)\<rparr>))"

text \<open>\<open>UPDATE tenant.budget_period_state SET ..., version=version+1 WHERE <key>\<close>\<close>

definition update_state ::
  "period \<Rightarrow> (period_state \<Rightarrow> period_state) \<Rightarrow> budget_tables \<Rightarrow> sql_error + budget_tables" where
  "update_state k f db =
     (case budget_period_state db k of
        None \<Rightarrow> Inr db
      | Some s \<Rightarrow>
         (let s' = (f s)\<lparr>ps_version := ps_version s + 1\<rparr> in
          if period_state_ok s' then Inr (db\<lparr>budget_period_state := (budget_period_state db)(k \<mapsto> s')\<rparr>)
          else Inl IntegrityError))"

definition ledger_key :: "ledger_row \<Rightarrow> uuid \<times> uuid \<times> string \<times> uuid \<times> entry_type" where
  "ledger_key r = (lg_tenant_id r, lg_budget_id r, lg_period_key r, lg_reserve_id r, lg_entry_type r)"

definition append_ledger ::
  "budget_command \<Rightarrow> uuid \<Rightarrow> string \<Rightarrow> entry_type \<Rightarrow> int \<Rightarrow> uuid \<Rightarrow> bool \<Rightarrow> string \<Rightarrow> string
   \<Rightarrow> budget_tables \<Rightarrow> sql_error + (bool \<times> budget_tables)" where
  "append_ledger command budget_id period_key entry_type amount_micros reserve_id contingency reason actor db =
     (let r = \<lparr>lg_tenant_id = cmd_tenant_id command, lg_id = fresh_id db, lg_budget_id = budget_id,
               lg_period_key = period_key,
               lg_application_id = (case cmd_application_id command of Some a \<Rightarrow> if a = [] then None else Some a | None \<Rightarrow> None),
               lg_execution_id = cmd_execution_id command, lg_entry_type = entry_type,
               lg_amount_micros = amount_micros, lg_reserve_id = reserve_id, lg_contingency = contingency,
               lg_reason = reason, lg_actor = actor, lg_price_version = cmd_price_version command\<rparr>
      in if amount_micros < 0 \<or> 500 < length reason \<or> \<not> (1 \<le> length actor \<and> length actor \<le> 256) then Inl IntegrityError
         else if has_key ledger_key (ledger_key r) (cost_ledger db) then Inr (False, db)
         else Inr (True, db\<lparr>cost_ledger := cost_ledger db @ [r]\<rparr>))"

definition insert_alert ::
  "uuid \<Rightarrow> uuid \<Rightarrow> string \<Rightarrow> string \<Rightarrow> int \<Rightarrow> int \<Rightarrow> budget_tables \<Rightarrow> sql_error + (bool \<times> budget_tables)" where
  "insert_alert tenant_id budget_id period_key lvl used_micros limit_micros db =
     (if used_micros < 0 \<or> limit_micros \<le> 0 then Inl IntegrityError
      else case budget_alert db (tenant_id, budget_id, period_key, lvl) of
        Some _ \<Rightarrow> Inr (False, db)
      | None \<Rightarrow> Inr (True, db\<lparr>budget_alert := (budget_alert db)((tenant_id, budget_id, period_key, lvl) \<mapsto> (used_micros, limit_micros))\<rparr>))"

subsection \<open>Prices\<close>

definition latest_version :: "uuid \<Rightarrow> budget_tables \<Rightarrow> int option" where
  "latest_version tenant_id db =
     (case map pr_version (filter (\<lambda>r. pr_tenant_id r = tenant_id) (model_price db)) of
        [] \<Rightarrow> None
      | v # vs \<Rightarrow> Some (fold max vs v))"

definition latest_prices :: "uuid \<Rightarrow> budget_tables \<Rightarrow> (string \<rightharpoonup> price_row) \<times> int option" where
  "latest_prices tenant_id db =
     (let version = latest_version tenant_id db;
          rows = filter (\<lambda>r. pr_tenant_id r = tenant_id \<and> Some (pr_version r) = version) (model_price db)
      in (map_of (rev (map (\<lambda>r. (pr_model_alias r, r)) rows)), version))"

definition has_active_budgets :: "uuid \<Rightarrow> budget_tables \<Rightarrow> bool" where
  "has_active_budgets tenant_id db = list_ex (\<lambda>r. bg_tenant_id r = tenant_id) (budget db)"

subsection \<open>Reservation\<close>

fun collect_levels :: "timestamp \<Rightarrow> budget_command \<Rightarrow> budget_row list \<Rightarrow> budget_error + level list" where
  "collect_levels moment command [] = Inr []"
| "collect_levels moment command (row # rows) =
     (if bg_scope row = AGENT_DAILY \<and> bg_application_id row \<noteq> cmd_application_id command
      then collect_levels moment command rows
      else if bg_scope row = EXECUTION \<and> cmd_execution_id command = None
      then Inl (BudgetStateUnknown ''EXECUTION_BUDGET_UNEVALUABLE'')
      else if bg_scope row = EXECUTION \<and> bg_application_id row \<noteq> None \<and> bg_application_id row \<noteq> cmd_application_id command
      then collect_levels moment command rows
      else case period_key_for (bg_scope row) moment (cmd_execution_id command) of
        Inl e \<Rightarrow> Inl e
      | Inr key \<Rightarrow>
         (case collect_levels moment command rows of
            Inl e \<Rightarrow> Inl e
          | Inr levels \<Rightarrow> Inr
             (\<lparr>lv_budget_id = bg_id row, lv_scope = bg_scope row, lv_period_key = key,
               lv_limit_micros = bg_limit_micros row, lv_contingency_micros = bg_contingency_micros row,
               lv_unknown_policy = bg_unknown_policy row\<rparr> # levels)))"

definition applicable_levels :: "timestamp \<Rightarrow> budget_command \<Rightarrow> budget_tables \<Rightarrow> budget_error + level list" where
  "applicable_levels moment command db =
     collect_levels moment command
       (sort_key (\<lambda>r. (bg_created_at r, bg_id r)) (filter (\<lambda>r. bg_tenant_id r = cmd_tenant_id command) (budget db)))"

text \<open>
  \<open>_reserve_level\<close>: \<open>Inr (None, ...)\<close> when the level rejects. The conditional \<open>UPDATE\<close> repeats
  the admission test on the row it locks.
\<close>

definition admit_level ::
  "level \<Rightarrow> budget_command \<Rightarrow> period_state \<Rightarrow> decision option \<Rightarrow> budget_tables
   \<Rightarrow> sql_error + (budget_reservation option \<times> string list \<times> budget_tables)" where
  "admit_level lv command st decision db =
     (let t = cmd_tenant_id command; k = (t, lv_budget_id lv, lv_period_key lv);
          limit = lv_limit_micros lv + ps_allowance_micros st;
          used_after = ps_reserved_micros st + ps_consumed_micros st + cmd_estimated_micros command
      in if limit < used_after then Inr (None, [], db)
         else case update_state k (\<lambda>s. s\<lparr>ps_reserved_micros := ps_reserved_micros s + cmd_estimated_micros command\<rparr>) db of
           Inl e \<Rightarrow> Inl e
         | Inr db1 \<Rightarrow>
            (let entry_id = fresh_id db1 in
             case append_ledger command (lv_budget_id lv) (lv_period_key lv) RESERVE (cmd_estimated_micros command)
                    entry_id False [] ''system'' db1 of
               Inl e \<Rightarrow> Inl e
             | Inr (_, db2) \<Rightarrow>
                (let entry = \<lparr>rs_budget_id = lv_budget_id lv, rs_scope = lv_scope lv, rs_period_key = lv_period_key lv,
                              rs_amount_micros = cmd_estimated_micros command, rs_ledger_entry_id = entry_id,
                              rs_contingency = False\<rparr>
                 in case decision of
                      None \<Rightarrow> Inr (Some entry, [], db2)
                    | Some d \<Rightarrow>
                       (case insert_alert t (lv_budget_id lv) (lv_period_key lv) (decision_level d) used_after
                               (lv_limit_micros lv) db2 of
                          Inl e \<Rightarrow> Inl e
                        | Inr (inserted, db3) \<Rightarrow>
                            Inr (Some entry, if inserted then [lv_scope lv @ '':'' @ decision_level d] else [], db3)))))"

definition reserve_level ::
  "level \<Rightarrow> budget_command \<Rightarrow> budget_tables
   \<Rightarrow> sql_error + (budget_reservation option \<times> string list \<times> budget_tables)" where
  "reserve_level lv command db =
     (case ensure_state_row (cmd_tenant_id command) (lv_budget_id lv) (lv_period_key lv) db of
        Inl e \<Rightarrow> Inl e
      | Inr db0 \<Rightarrow>
         (case budget_period_state db0 (cmd_tenant_id command, lv_budget_id lv, lv_period_key lv) of
            None \<Rightarrow> Inl OperationalError
          | Some st \<Rightarrow>
             (let decision = evaluate_level (ps_reserved_micros st + ps_consumed_micros st + cmd_estimated_micros command)
                               (lv_limit_micros lv + ps_allowance_micros st)
              in if decision = Some Reject then Inr (None, [], db0)
                 else admit_level lv command st decision db0)))"

definition compensate_level ::
  "budget_command \<Rightarrow> budget_reservation \<Rightarrow> string \<Rightarrow> budget_tables \<Rightarrow> sql_error + budget_tables" where
  "compensate_level command entry reason db =
     (case update_state (cmd_tenant_id command, rs_budget_id entry, rs_period_key entry)
             (\<lambda>s. s\<lparr>ps_reserved_micros := ps_reserved_micros s - rs_amount_micros entry\<rparr>) db of
        Inl e \<Rightarrow> Inl e
      | Inr db1 \<Rightarrow> map_sum id snd
          (append_ledger command (rs_budget_id entry) (rs_period_key entry) RELEASE (rs_amount_micros entry)
             (rs_ledger_entry_id entry) (rs_contingency entry) reason ''system'' db1))"

fun compensate_all ::
  "budget_command \<Rightarrow> budget_reservation list \<Rightarrow> string \<Rightarrow> budget_tables \<Rightarrow> sql_error + budget_tables" where
  "compensate_all command [] reason db = Inr db"
| "compensate_all command (e # es) reason db =
     (case compensate_level command e reason db of Inl err \<Rightarrow> Inl err | Inr db1 \<Rightarrow> compensate_all command es reason db1)"

text \<open>The loop over the levels: the entries and alerts so far, and the level that rejected, if any.\<close>

fun reserve_levels ::
  "budget_command \<Rightarrow> level list \<Rightarrow> budget_reservation list \<Rightarrow> string list \<Rightarrow> budget_tables
   \<Rightarrow> sql_error + (budget_reservation list \<times> string list \<times> level option \<times> budget_tables)" where
  "reserve_levels command [] secured alerts db = Inr (secured, alerts, None, db)"
| "reserve_levels command (lv # lvs) secured alerts db =
     (case reserve_level lv command db of
        Inl e \<Rightarrow> Inl e
      | Inr (None, _, db1) \<Rightarrow> Inr (secured, alerts, Some lv, db1)
      | Inr (Some entry, al, db1) \<Rightarrow> reserve_levels command lvs (secured @ [entry]) (alerts @ al) db1)"

text \<open>The reservation transaction: the bundle and whether it was rejected.\<close>

definition reserve_tx ::
  "timestamp \<Rightarrow> budget_command \<Rightarrow> budget_tables \<Rightarrow> budget_error + (reservation_bundle \<times> bool \<times> budget_tables)" where
  "reserve_tx moment command db =
     (case applicable_levels moment command db of
        Inl e \<Rightarrow> Inl e
      | Inr levels \<Rightarrow>
         (case reserve_levels command levels [] [] db of
            Inl e \<Rightarrow> Inl (BudgetSqlError e)
          | Inr (secured, alerts, None, db1) \<Rightarrow>
              Inr (\<lparr>bn_command = command, bn_entries = secured, bn_alerts = alerts\<rparr>, False, db1)
          | Inr (secured, alerts, Some lv, db1) \<Rightarrow>
             (case compensate_all command secured ''rejected downstream'' db1 of
                Inl e \<Rightarrow> Inl (BudgetSqlError e)
              | Inr db2 \<Rightarrow>
                 (case append_ledger command (lv_budget_id lv) (lv_period_key lv) REJECT (cmd_estimated_micros command)
                         (fresh_id db2) False ''limit exhausted'' ''system'' db2 of
                    Inl e \<Rightarrow> Inl (BudgetSqlError e)
                  | Inr (_, db3) \<Rightarrow> Inr (\<lparr>bn_command = command, bn_entries = [], bn_alerts = []\<rparr>, True, db3)))))"

fun draw_contingency ::
  "budget_command \<Rightarrow> level list \<Rightarrow> budget_reservation list \<Rightarrow> budget_tables
   \<Rightarrow> sql_error + (budget_reservation list \<times> budget_tables) option" where
  "draw_contingency command [] entries db = Inr (Some (entries, db))"
| "draw_contingency command (lv # lvs) entries db =
     (let k = (cmd_tenant_id command, lv_budget_id lv, lv_period_key lv);
          amount = min (cmd_estimated_micros command) (lv_contingency_micros lv)
      in case budget_period_state db k of
           None \<Rightarrow> Inr None
         | Some st \<Rightarrow>
            if lv_contingency_micros lv < ps_contingency_reserved_micros st + amount then Inr None
            else case update_state k (\<lambda>s. s\<lparr>ps_contingency_reserved_micros := ps_contingency_reserved_micros s + amount\<rparr>) db of
              Inl e \<Rightarrow> Inl e
            | Inr db1 \<Rightarrow>
               (let entry_id = fresh_id db1 in
                case append_ledger command (lv_budget_id lv) (lv_period_key lv) RESERVE amount entry_id True
                       ''contingency allowance after unknown budget state'' ''system'' db1 of
                  Inl e \<Rightarrow> Inl e
                | Inr (_, db2) \<Rightarrow> draw_contingency command lvs
                    (entries @ [\<lparr>rs_budget_id = lv_budget_id lv, rs_scope = lv_scope lv, rs_period_key = lv_period_key lv,
                                 rs_amount_micros = amount, rs_ledger_entry_id = entry_id, rs_contingency = True\<rparr>]) db2))"

text \<open>
  The fate of a transaction as its client sees it: it commits and is acknowledged, it is lost
  before the commit, or it commits and the acknowledgement is lost (both are raised as an
  operational error).
\<close>

datatype tx_fate = Acknowledged | Lost | LostAck

text \<open>
  \<open>_apply_unknown_policy\<close>: a level that cannot be covered returns \<open>None\<close> from inside the
  transaction block, which commits what was drawn before it. Only a database error is caught;
  anything the level selection raises passes through.
\<close>

fun drawn_tables :: "budget_command \<Rightarrow> level list \<Rightarrow> budget_tables \<Rightarrow> budget_tables" where
  "drawn_tables command [] db = db"
| "drawn_tables command (lv # lvs) db =
     (case draw_contingency command [lv] [] db of
        Inr (Some (_, db1)) \<Rightarrow> drawn_tables command lvs db1
      | _ \<Rightarrow> db)"

definition apply_unknown_policy ::
  "timestamp \<Rightarrow> tx_fate \<Rightarrow> budget_command \<Rightarrow> budget_tables \<Rightarrow> budget_error + (reservation_bundle option \<times> budget_tables)" where
  "apply_unknown_policy moment fate command db =
     (case applicable_levels moment command db of
        Inl e \<Rightarrow> Inl e
      | Inr levels \<Rightarrow>
         (let contingent = filter (\<lambda>lv. lv_unknown_policy lv = CONTINGENCY \<and> 0 < lv_contingency_micros lv) levels in
          if fate = Lost then Inr (None, db)
          else if contingent = [] then Inr (None, db)
          else case draw_contingency command contingent [] db of
            Inl _ \<Rightarrow> Inr (None, db)
          | Inr None \<Rightarrow> Inr (None, drawn_tables command contingent db)
          | Inr (Some (entries, db1)) \<Rightarrow>
              Inr (if fate = LostAck then None
                   else Some \<lparr>bn_command = command, bn_entries = entries, bn_alerts = []\<rparr>, db1)))"

definition reserve ::
  "timestamp \<Rightarrow> tx_fate \<Rightarrow> tx_fate \<Rightarrow> budget_command \<Rightarrow> budget_tables
   \<Rightarrow> (budget_error + reservation_bundle) \<times> budget_tables" where
  "reserve moment fate1 fate2 command db =
     (let recover = (\<lambda>db1.
            case apply_unknown_policy moment fate2 command db1 of
              Inl e \<Rightarrow> (Inl e, db1)
            | Inr (Some bundle, db2) \<Rightarrow> (Inr bundle, db2)
            | Inr (None, db2) \<Rightarrow> (Inl (BudgetStateUnknown ''BUDGET_STATE_UNKNOWN''), db2))
      in case reserve_tx moment command db of
           Inl (BudgetSqlError _) \<Rightarrow> recover db
         | Inl e \<Rightarrow> (Inl e, db)
         | Inr (bundle, rejected, db1) \<Rightarrow>
            (case fate1 of
               Lost \<Rightarrow> recover db
             | LostAck \<Rightarrow> recover db1
             | Acknowledged \<Rightarrow> if rejected then (Inl BudgetExceeded, db1) else (Inr bundle, db1)))"

subsection \<open>Settlement\<close>

fun settle_entries ::
  "budget_command \<Rightarrow> int option \<Rightarrow> budget_reservation list \<Rightarrow> budget_tables \<Rightarrow> sql_error + budget_tables" where
  "settle_entries command actual [] db = Inr db"
| "settle_entries command actual (e # es) db =
     (let charged = (case actual of Some a \<Rightarrow> a | None \<Rightarrow> rs_amount_micros e) in
      case append_ledger command (rs_budget_id e) (rs_period_key e) SETTLE charged (rs_ledger_entry_id e)
             (rs_contingency e) [] ''system'' db of
        Inl err \<Rightarrow> Inl err
      | Inr (False, db1) \<Rightarrow> settle_entries command actual es db1
      | Inr (True, db1) \<Rightarrow>
         (case update_state (cmd_tenant_id command, rs_budget_id e, rs_period_key e)
                 (\<lambda>s. s\<lparr>ps_reserved_micros := ps_reserved_micros s - rs_amount_micros e,
                        ps_consumed_micros := ps_consumed_micros s + charged\<rparr>) db1 of
            Inl err \<Rightarrow> Inl err
          | Inr db2 \<Rightarrow> settle_entries command actual es db2))"

definition settle :: "reservation_bundle \<Rightarrow> int option \<Rightarrow> budget_tables \<Rightarrow> sql_error + budget_tables" where
  "settle bundle actual_micros db = settle_entries (bn_command bundle) actual_micros (bn_entries bundle) db"

fun release_entries ::
  "budget_command \<Rightarrow> string \<Rightarrow> budget_reservation list \<Rightarrow> budget_tables \<Rightarrow> sql_error + budget_tables" where
  "release_entries command reason [] db = Inr db"
| "release_entries command reason (e # es) db =
     (case append_ledger command (rs_budget_id e) (rs_period_key e) RELEASE (rs_amount_micros e) (rs_ledger_entry_id e)
             (rs_contingency e) reason ''system'' db of
        Inl err \<Rightarrow> Inl err
      | Inr (False, db1) \<Rightarrow> release_entries command reason es db1
      | Inr (True, db1) \<Rightarrow>
         (case update_state (cmd_tenant_id command, rs_budget_id e, rs_period_key e)
                 (\<lambda>s. s\<lparr>ps_reserved_micros := ps_reserved_micros s - rs_amount_micros e\<rparr>) db1 of
            Inl err \<Rightarrow> Inl err
          | Inr db2 \<Rightarrow> release_entries command reason es db2))"

definition release_bundle :: "reservation_bundle \<Rightarrow> string \<Rightarrow> budget_tables \<Rightarrow> sql_error + budget_tables" where
  "release_bundle bundle reason db = release_entries (bn_command bundle) reason (bn_entries bundle) db"

definition adjust ::
  "timestamp \<Rightarrow> uuid \<Rightarrow> uuid \<Rightarrow> int \<Rightarrow> string \<Rightarrow> string \<Rightarrow> budget_tables \<Rightarrow> budget_error + budget_tables" where
  "adjust moment tenant_id budget_id delta_micros reason actor db =
     (case find (\<lambda>r. bg_tenant_id r = tenant_id \<and> bg_id r = budget_id) (budget db) of
        None \<Rightarrow> Inl (BudgetLookupError ''budget not found'')
      | Some row \<Rightarrow>
         if bg_scope row = EXECUTION
         then Inl (BudgetValueError ''execution budgets are adjusted by reconfiguring the limit'')
         else case period_key_for (bg_scope row) moment None of
           Inl e \<Rightarrow> Inl e
         | Inr key \<Rightarrow>
            (case ensure_state_row tenant_id budget_id key db of
               Inl e \<Rightarrow> Inl (BudgetSqlError e)
             | Inr db1 \<Rightarrow>
                (case update_state (tenant_id, budget_id, key)
                        (\<lambda>s. s\<lparr>ps_allowance_micros := ps_allowance_micros s + delta_micros\<rparr>) db1 of
                   Inl e \<Rightarrow> Inl (BudgetSqlError e)
                 | Inr db2 \<Rightarrow>
                    (case append_ledger \<lparr>cmd_tenant_id = tenant_id, cmd_application_id = bg_application_id row,
                              cmd_execution_id = None, cmd_estimated_micros = 0, cmd_price_version = None\<rparr>
                            budget_id key ADJUST (max delta_micros 0) (fresh_id db2) False
                            (reason @ '' (delta '' @ str_of_int delta_micros @ '')'') actor db2 of
                       Inl e \<Rightarrow> Inl (BudgetSqlError e)
                     | Inr (_, db3) \<Rightarrow> Inr db3))))"

subsection \<open>What the statements change\<close>

definition reserved :: "budget_tables \<Rightarrow> period \<Rightarrow> int" where
  "reserved db k = (case budget_period_state db k of None \<Rightarrow> 0 | Some s \<Rightarrow> ps_reserved_micros s)"

definition consumed :: "budget_tables \<Rightarrow> period \<Rightarrow> int" where
  "consumed db k = (case budget_period_state db k of None \<Rightarrow> 0 | Some s \<Rightarrow> ps_consumed_micros s)"

definition allowance :: "budget_tables \<Rightarrow> period \<Rightarrow> int" where
  "allowance db k = (case budget_period_state db k of None \<Rightarrow> 0 | Some s \<Rightarrow> ps_allowance_micros s)"

definition contingency_reserved :: "budget_tables \<Rightarrow> period \<Rightarrow> int" where
  "contingency_reserved db k = (case budget_period_state db k of None \<Rightarrow> 0 | Some s \<Rightarrow> ps_contingency_reserved_micros s)"

definition usage :: "budget_tables \<Rightarrow> period \<Rightarrow> int" where
  "usage db k = reserved db k + consumed db k"

lemmas state_fields = reserved_def consumed_def allowance_def contingency_reserved_def

definition states_ok :: "budget_tables \<Rightarrow> bool" where
  "states_ok db \<longleftrightarrow> (\<forall>k s. budget_period_state db k = Some s \<longrightarrow> period_state_ok s)"

definition ids_below :: "budget_tables \<Rightarrow> bool" where
  "ids_below db \<longleftrightarrow> (\<forall>r \<in> set (cost_ledger db). length (lg_reserve_id r) < length (cost_ledger db))"

lemma ensure_state_row_Inr:
  assumes "ensure_state_row t b p db = Inr db'"
  shows "budget db' = budget db" "cost_ledger db' = cost_ledger db" "reserved db' = reserved db"
    "consumed db' = consumed db" "allowance db' = allowance db" "contingency_reserved db' = contingency_reserved db"
    "budget_period_state db' (t, b, p) \<noteq> None" "states_ok db \<Longrightarrow> states_ok db'"
    "dom (budget_period_state db) \<subseteq> dom (budget_period_state db')"
  using assms
  by (auto simp: ensure_state_row_def state_fields states_ok_def period_state_ok_def fun_eq_iff
      split: if_splits option.splits)

lemma update_state_Inr:
  assumes "update_state k f db = Inr db'"
  shows "budget db' = budget db" "cost_ledger db' = cost_ledger db"
    "budget_period_state db' = (budget_period_state db)(k := map_option
       (\<lambda>s. (f s)\<lparr>ps_version := ps_version s + 1\<rparr>) (budget_period_state db k))"
    "states_ok db \<Longrightarrow> states_ok db'"
  using assms
  by (auto simp: update_state_def Let_def states_ok_def fun_upd_idem split: if_splits option.splits)

lemma append_ledger_Inr:
  assumes "append_ledger c b p ty n i cg rs a db = Inr (ins, db')"
  shows "budget db' = budget db" "budget_period_state db' = budget_period_state db" "0 \<le> n"
    "\<exists>new. cost_ledger db' = cost_ledger db @ new"
    "has_key ledger_key (cmd_tenant_id c, b, p, i, ty) (cost_ledger db')"
    "ins \<Longrightarrow> \<exists>r. cost_ledger db' = cost_ledger db @ [r] \<and> lg_entry_type r = ty \<and> lg_amount_micros r = n \<and>
       lg_budget_id r = b \<and> lg_period_key r = p \<and> lg_tenant_id r = cmd_tenant_id c \<and> lg_reserve_id r = i"
    "\<not> ins \<Longrightarrow> db' = db"
  using assms
  by (auto simp: append_ledger_def Let_def ledger_key_def has_key_append split: if_splits)

lemma insert_alert_Inr:
  assumes "insert_alert t b p l u n db = Inr (ins, db')"
  shows "budget db' = budget db" "budget_period_state db' = budget_period_state db" "cost_ledger db' = cost_ledger db"
  using assms by (auto simp: insert_alert_def split: if_splits option.splits)

text \<open>
  A change of the tables that moves only reserved amounts, by \<open>d\<close>, and only appends to the ledger.
\<close>

definition shifts :: "(period \<Rightarrow> int) \<Rightarrow> budget_tables \<Rightarrow> budget_tables \<Rightarrow> bool" where
  "shifts d db db' \<longleftrightarrow>
     budget db' = budget db \<and> consumed db' = consumed db \<and> allowance db' = allowance db \<and>
     contingency_reserved db' = contingency_reserved db \<and> (states_ok db \<longrightarrow> states_ok db') \<and>
     dom (budget_period_state db) \<subseteq> dom (budget_period_state db') \<and>
     (\<exists>new. cost_ledger db' = cost_ledger db @ new) \<and> reserved db' = (\<lambda>k. reserved db k + d k)"

definition at_key :: "period \<Rightarrow> int \<Rightarrow> period \<Rightarrow> int" where
  "at_key k n = (\<lambda>k'. if k' = k then n else 0)"

lemma shifts_refl [simp]: "shifts (\<lambda>_. 0) db db"
  by (simp add: shifts_def)

lemma shifts_trans:
  assumes "shifts d db db1" "shifts e db1 db2"
  shows "shifts (\<lambda>k. d k + e k) db db2"
  using assms by (auto simp: shifts_def add.assoc)

lemma shifts_trans0: "shifts d db db1 \<Longrightarrow> shifts (\<lambda>_. 0) db1 db2 \<Longrightarrow> shifts d db db2"
  using shifts_trans [of d db db1 "\<lambda>_. 0" db2] by simp

lemma shifts_ensure: "ensure_state_row t b p db = Inr db' \<Longrightarrow> shifts (\<lambda>_. 0) db db'"
  using ensure_state_row_Inr [of t b p db db'] by (auto simp: shifts_def)

lemma shifts_append: "append_ledger c b p ty n i cg rs a db = Inr (ins, db') \<Longrightarrow> shifts (\<lambda>_. 0) db db'"
  using append_ledger_Inr(1,2,4) [of c b p ty n i cg rs a db ins db']
  by (auto simp: shifts_def state_fields states_ok_def)

lemma shifts_alert: "insert_alert t b p l u n db = Inr (ins, db') \<Longrightarrow> shifts (\<lambda>_. 0) db db'"
  using insert_alert_Inr [of t b p l u n db ins db'] by (auto simp: shifts_def state_fields states_ok_def)

lemma shifts_update:
  assumes "update_state k (\<lambda>s. s\<lparr>ps_reserved_micros := ps_reserved_micros s + n\<rparr>) db = Inr db'"
    "budget_period_state db k \<noteq> None"
  shows "shifts (at_key k n) db db'"
  using update_state_Inr [OF assms(1)] assms(2)
  by (auto simp: shifts_def state_fields at_key_def fun_eq_iff)

lemma shifts_update_minus:
  assumes "update_state k (\<lambda>s. s\<lparr>ps_reserved_micros := ps_reserved_micros s - n\<rparr>) db = Inr db'"
    "budget_period_state db k \<noteq> None"
  shows "shifts (at_key k (- n)) db db'"
  using shifts_update [of k "- n" db db'] assms by simp

lemma usage_shifts: "shifts d db db' \<Longrightarrow> usage db' k = usage db k + d k"
  by (simp add: shifts_def usage_def)

lemma allowance_shifts: "shifts d db db' \<Longrightarrow> allowance db' = allowance db"
  by (simp add: shifts_def)

lemma has_key_ids_below:
  "ids_below db \<Longrightarrow> length (cost_ledger db) \<le> length i \<Longrightarrow> \<not> has_key ledger_key (t, b, p, i, ty) (cost_ledger db)"
  by (auto simp: ids_below_def has_key_def ledger_key_def)

lemma append_ids:
  assumes "append_ledger c b p ty n i cg rs a db = Inr (ins, db')" "ids_below db" "length i \<le> length (cost_ledger db)"
  shows "ids_below db'" "length i = length (cost_ledger db) \<Longrightarrow> ins"
proof -
  show "ids_below db'"
    using append_ledger_Inr(6,7) [OF assms(1)] assms(2,3) by (cases ins) (force simp: ids_below_def)+
  show ins if "length i = length (cost_ledger db)"
    using assms(1) has_key_ids_below [OF assms(2), of i] that
    by (auto simp: append_ledger_def Let_def ledger_key_def split: if_splits)
qed

lemma length_fresh_id [simp]: "length (fresh_id db) = length (cost_ledger db)"
  by (simp add: fresh_id_def)

lemma ids_below_cong: "cost_ledger db' = cost_ledger db \<Longrightarrow> ids_below db' = ids_below db"
  by (simp add: ids_below_def)

definition level_key :: "budget_command \<Rightarrow> level \<Rightarrow> period" where
  "level_key c lv = (cmd_tenant_id c, lv_budget_id lv, lv_period_key lv)"

definition entry_key :: "budget_command \<Rightarrow> budget_reservation \<Rightarrow> period" where
  "entry_key c e = (cmd_tenant_id c, rs_budget_id e, rs_period_key e)"

lemma reserve_level_None:
  assumes "reserve_level lv c db = Inr (None, al, db')"
  shows "shifts (\<lambda>_. 0) db db'" "cost_ledger db' = cost_ledger db"
  using assms
  by (auto simp: reserve_level_def admit_level_def Let_def split: sum.splits option.splits if_splits
      dest: shifts_ensure ensure_state_row_Inr(2))

lemma reserve_level_Some:
  assumes "reserve_level lv c db = Inr (Some e, al, db')" "ids_below db"
  shows "shifts (at_key (level_key c lv) (cmd_estimated_micros c)) db db' \<and>
    usage db' (level_key c lv) \<le> lv_limit_micros lv + allowance db' (level_key c lv) \<and>
    0 \<le> cmd_estimated_micros c \<and> entry_key c e = level_key c lv \<and> rs_amount_micros e = cmd_estimated_micros c \<and>
    \<not> rs_contingency e \<and> budget_period_state db' (level_key c lv) \<noteq> None \<and>
    ids_below db' \<and> length (rs_ledger_entry_id e) = length (cost_ledger db) \<and>
    (\<exists>r. cost_ledger db' = cost_ledger db @ [r] \<and> lg_entry_type r = RESERVE)"
proof -
  let ?k = "level_key c lv" and ?n = "cmd_estimated_micros c"
  from assms(1) obtain db0 st where en: "ensure_state_row (cmd_tenant_id c) (lv_budget_id lv) (lv_period_key lv) db = Inr db0"
    and st: "budget_period_state db0 ?k = Some st"
    and ad: "admit_level lv c st (evaluate_level (ps_reserved_micros st + ps_consumed_micros st + ?n)
          (lv_limit_micros lv + ps_allowance_micros st)) db0 = Inr (Some e, al, db')"
    by (auto simp: reserve_level_def level_key_def Let_def split: sum.splits option.splits if_splits)
  from ad obtain db1 ins db2 where
    le: "ps_reserved_micros st + ps_consumed_micros st + ?n \<le> lv_limit_micros lv + ps_allowance_micros st"
    and up: "update_state ?k (\<lambda>s. s\<lparr>ps_reserved_micros := ps_reserved_micros s + ?n\<rparr>) db0 = Inr db1"
    and ap: "append_ledger c (lv_budget_id lv) (lv_period_key lv) RESERVE ?n (fresh_id db1) False [] ''system'' db1 = Inr (ins, db2)"
    and al: "db' = db2 \<or> (\<exists>t b p l u n i. insert_alert t b p l u n db2 = Inr (i, db'))"
    and e: "entry_key c e = ?k" "rs_amount_micros e = ?n" "\<not> rs_contingency e" "rs_ledger_entry_id e = fresh_id db1"
    by (auto simp: admit_level_def level_key_def entry_key_def Let_def not_less split: sum.splits option.splits if_splits)
      blast+
  have led: "cost_ledger db' = cost_ledger db2" using al insert_alert_Inr(3) by blast
  have ib1: "ids_below db1" using ids_below_cong ensure_state_row_Inr(2) [OF en] update_state_Inr(2) [OF up] assms(2) by metis
  have ins using append_ids(2) [OF ap ib1] by simp
  have led1: "cost_ledger db1 = cost_ledger db" using ensure_state_row_Inr(2) [OF en] update_state_Inr(2) [OF up] by simp
  have ids: "ids_below db'" "length (rs_ledger_entry_id e) = length (cost_ledger db)"
    "\<exists>r. cost_ledger db' = cost_ledger db @ [r] \<and> lg_entry_type r = RESERVE"
    using append_ids(1) [OF ap ib1] ids_below_cong [OF led] append_ledger_Inr(6) [OF ap \<open>ins\<close>] led led1 e(4) by auto
  have s1: "shifts (at_key ?k ?n) db db1"
    using shifts_trans [OF shifts_ensure [OF en] shifts_update [OF up]] st by simp
  have s0: "shifts (\<lambda>_. 0) db1 db'" using al shifts_append [OF ap] shifts_alert shifts_trans0 by (metis shifts_refl)
  have sh: "shifts (at_key ?k ?n) db db'" using shifts_trans0 [OF s1 s0] .
  have "usage db0 ?k + ?n \<le> lv_limit_micros lv + allowance db0 ?k" using le st by (simp add: usage_def state_fields)
  moreover have "usage db' ?k = usage db0 ?k + ?n" "allowance db' ?k = allowance db0 ?k"
    using sh shifts_ensure [OF en] by (auto simp: usage_def shifts_def at_key_def)
  moreover have "budget_period_state db1 ?k \<noteq> None" using update_state_Inr(3) [OF up] st by simp
  then have "budget_period_state db' ?k \<noteq> None" using s0 by (auto simp: shifts_def)
  ultimately show ?thesis using sh e(1-3) ids append_ledger_Inr(3) [OF ap] by simp
qed

fun entry_sum :: "budget_command \<Rightarrow> budget_reservation list \<Rightarrow> period \<Rightarrow> int" where
  "entry_sum c [] = (\<lambda>_. 0)"
| "entry_sum c (e # es) = (\<lambda>k. at_key (entry_key c e) (rs_amount_micros e) k + entry_sum c es k)"

lemma entry_sum_append: "entry_sum c (xs @ ys) k = entry_sum c xs k + entry_sum c ys k"
  by (induction xs) auto

text \<open>What a level that was charged satisfies afterwards, for the row its budget has.\<close>

definition within_limit :: "budget_tables \<Rightarrow> period \<Rightarrow> bool" where
  "within_limit db k \<longleftrightarrow> (case k of (t, b, p) \<Rightarrow>
     \<exists>row \<in> set (budget db). bg_tenant_id row = t \<and> bg_id row = b \<and> usage db k \<le> bg_limit_micros row + allowance db k)"

definition held :: "budget_tables \<Rightarrow> budget_command \<Rightarrow> budget_reservation \<Rightarrow> bool" where
  "held db c e \<longleftrightarrow> \<not> rs_contingency e \<and> 0 \<le> rs_amount_micros e \<and>
     budget_period_state db (entry_key c e) \<noteq> None \<and> length (rs_ledger_entry_id e) < length (cost_ledger db)"

definition known_level :: "budget_tables \<Rightarrow> budget_command \<Rightarrow> level \<Rightarrow> bool" where
  "known_level db c lv \<longleftrightarrow>
     (\<exists>row \<in> set (budget db). bg_tenant_id row = cmd_tenant_id c \<and> bg_id row = lv_budget_id lv \<and>
        bg_limit_micros row = lv_limit_micros lv)"

lemma held_shifts: "shifts d db db' \<Longrightarrow> held db c e \<Longrightarrow> held db' c e"
  unfolding shifts_def held_def by (metis domIff subset_iff length_append trans_less_add1)

lemma known_shifts: "shifts d db db' \<Longrightarrow> known_level db' c lv = known_level db c lv"
  by (simp add: shifts_def known_level_def)

lemma collect_levels_known:
  "collect_levels m c rows = Inr lvs \<Longrightarrow> \<forall>r \<in> set rows. bg_tenant_id r = cmd_tenant_id c \<Longrightarrow>
   \<forall>lv \<in> set lvs. \<exists>row \<in> set rows. bg_tenant_id row = cmd_tenant_id c \<and> bg_id row = lv_budget_id lv \<and>
     bg_limit_micros row = lv_limit_micros lv"
  by (induction rows arbitrary: lvs) (auto split: if_splits sum.splits)

lemma applicable_levels_known:
  "applicable_levels m c db = Inr lvs \<Longrightarrow> \<forall>lv \<in> set lvs. known_level db c lv"
  unfolding applicable_levels_def known_level_def by (drule collect_levels_known) auto

lemma reserve_levels_Inr:
  assumes "reserve_levels c lvs sec al db = Inr (sec', al', rej, db')"
    "\<forall>lv \<in> set lvs. known_level db c lv" "\<forall>e \<in> set sec. held db c e" "ids_below db"
  shows "ids_below db' \<and> (rej \<noteq> None \<longrightarrow> rej \<in> Some ` set lvs) \<and> (\<exists>new. sec' = sec @ new \<and> shifts (entry_sum c new) db db' \<and> (\<forall>e \<in> set sec'. held db' c e) \<and>
    (\<forall>k. entry_sum c new k \<noteq> 0 \<longrightarrow> within_limit db' k))"
  using assms
proof (induction lvs arbitrary: sec al db)
  case Nil
  then show ?case by auto
next
  case (Cons lv lvs)
  obtain r al1 db1 where r: "reserve_level lv c db = Inr (r, al1, db1)"
    using Cons.prems(1) by (auto split: sum.splits)
  show ?case
  proof (cases r)
    case None
    note rn = reserve_level_None [OF r [unfolded None]]
    then have "ids_below db1" using Cons.prems(4) ids_below_cong by blast
    with rn(1) show ?thesis using Cons.prems r None by (auto intro: held_shifts)
  next
    case (Some e)
    note rl = reserve_level_Some [OF r [unfolded Some] Cons.prems(4)]
    have sh1: "shifts (at_key (level_key c lv) (cmd_estimated_micros c)) db db1" using rl by blast
    have "\<forall>e' \<in> set (sec @ [e]). held db1 c e'"
      using Cons.prems(3) rl by (auto intro: held_shifts [OF sh1]) (auto simp: held_def)
    moreover have "\<forall>lv \<in> set lvs. known_level db1 c lv" using Cons.prems(2) known_shifts [OF sh1] by simp
    moreover have "reserve_levels c lvs (sec @ [e]) (al @ al1) db1 = Inr (sec', al', rej, db')"
      using Cons.prems(1) r Some by simp
    ultimately obtain new where fin: "ids_below db'" "rej \<noteq> None \<longrightarrow> rej \<in> Some ` set lvs" and new: "sec' = (sec @ [e]) @ new" "shifts (entry_sum c new) db1 db'"
      "\<forall>e \<in> set sec'. held db' c e" "\<forall>k. entry_sum c new k \<noteq> 0 \<longrightarrow> within_limit db' k"
      using Cons.IH rl by blast
    have sum: "entry_sum c (e # new) = (\<lambda>k. at_key (level_key c lv) (cmd_estimated_micros c) k + entry_sum c new k)"
      using rl by simp
    have "within_limit db' k" if "entry_sum c (e # new) k \<noteq> 0" for k
    proof (cases "entry_sum c new k = 0")
      case False
      then show ?thesis using new(4) by blast
    next
      case True
      with that rl have k: "k = level_key c lv" by (auto simp: at_key_def split: if_splits)
      then have "usage db' k \<le> lv_limit_micros lv + allowance db' k"
        using rl usage_shifts [OF new(2), of k] allowance_shifts [OF new(2)] True by simp
      moreover have "known_level db' c lv" using Cons.prems(2) known_shifts [OF sh1] known_shifts [OF new(2)] by simp
      ultimately show ?thesis using k by (auto simp: within_limit_def known_level_def level_key_def)
    qed
    moreover have "shifts (entry_sum c (e # new)) db db'" using shifts_trans [OF sh1 new(2)] sum by simp
    moreover have "sec' = sec @ (e # new)" using new(1) by simp
    moreover have "rej \<noteq> None \<longrightarrow> rej \<in> Some ` set (lv # lvs)" using fin(2) by auto
    ultimately show ?thesis using fin(1) new(3) by blast
  qed
qed

lemma compensate_all_Inr:
  assumes "compensate_all c es rs db = Inr db'" "\<forall>e \<in> set es. held db c e" "ids_below db"
  shows "shifts (\<lambda>k. - entry_sum c es k) db db' \<and> ids_below db'"
  using assms
proof (induction es arbitrary: db)
  case (Cons e es)
  then obtain db1 where c: "compensate_level c e rs db = Inr db1" "compensate_all c es rs db1 = Inr db'"
    by (auto split: sum.splits)
  then obtain db0 ins where u: "update_state (entry_key c e) (\<lambda>s. s\<lparr>ps_reserved_micros := ps_reserved_micros s - rs_amount_micros e\<rparr>) db = Inr db0"
    "append_ledger c (rs_budget_id e) (rs_period_key e) RELEASE (rs_amount_micros e) (rs_ledger_entry_id e)
       (rs_contingency e) rs ''system'' db0 = Inr (ins, db1)"
    by (auto simp: compensate_level_def entry_key_def map_sum_def split: sum.splits)
  have "budget_period_state db (entry_key c e) \<noteq> None" using Cons.prems(2) by (auto simp: held_def)
  from shifts_trans0 [OF shifts_update_minus [OF u(1) this] shifts_append [OF u(2)]]
  have s1: "shifts (at_key (entry_key c e) (- rs_amount_micros e)) db db1" .
  moreover have "\<forall>e \<in> set es. held db1 c e" using Cons.prems(2) held_shifts [OF s1] by simp
  moreover have "ids_below db1"
    using append_ids(1) [OF u(2)] ids_below_cong [OF update_state_Inr(2) [OF u(1)]] Cons.prems(2,3)
      update_state_Inr(2) [OF u(1)] by (auto simp: held_def)
  ultimately have "shifts (\<lambda>k. at_key (entry_key c e) (- rs_amount_micros e) k + - entry_sum c es k) db db' \<and> ids_below db'"
    using Cons.IH [OF c(2)] shifts_trans by blast
  moreover have "(\<lambda>k. at_key (entry_key c e) (- rs_amount_micros e) k + - entry_sum c es k) = (\<lambda>k. - entry_sum c (e # es) k)"
    by (auto simp: at_key_def)
  ultimately show ?case by simp
qed simp

text \<open>A reservation transaction that commits: admitted, or rejected with its evidence.\<close>

definition rejection_logged :: "budget_command \<Rightarrow> budget_tables \<Rightarrow> budget_tables \<Rightarrow> bool" where
  "rejection_logged c db db' \<longleftrightarrow>
     (\<exists>new r. cost_ledger db' = cost_ledger db @ new @ [r] \<and> lg_entry_type r = REJECT \<and>
        lg_tenant_id r = cmd_tenant_id c \<and> lg_amount_micros r = cmd_estimated_micros c)"

lemma reserve_tx_Inr:
  assumes "reserve_tx m c db = Inr (bundle, rej, db')" "ids_below db"
  shows "bn_command bundle = c \<and> shifts (entry_sum c (bn_entries bundle)) db db' \<and> ids_below db' \<and>
    (\<forall>e \<in> set (bn_entries bundle). held db' c e) \<and>
    (\<forall>k. entry_sum c (bn_entries bundle) k \<noteq> 0 \<longrightarrow> within_limit db' k) \<and>
    (rej \<longrightarrow> bn_entries bundle = [] \<and> rejection_logged c db db')"
proof -
  from assms(1) obtain lvs where lv: "applicable_levels m c db = Inr lvs" by (auto simp: reserve_tx_def split: sum.splits)
  with assms(1) obtain sec al rl db1 where rs: "reserve_levels c lvs [] [] db = Inr (sec, al, rl, db1)"
    by (auto simp: reserve_tx_def split: sum.splits)
  have r: "shifts (entry_sum c sec) db db1" "\<forall>e \<in> set sec. held db1 c e" "ids_below db1"
    "\<forall>k. entry_sum c sec k \<noteq> 0 \<longrightarrow> within_limit db1 k"
    using reserve_levels_Inr [OF rs applicable_levels_known [OF lv] _ assms(2)] by auto
  show ?thesis
  proof (cases rl)
    case None
    then show ?thesis using assms(1) lv rs r by (auto simp: reserve_tx_def)
  next
    case (Some lvl)
    with assms(1) lv rs obtain db2 ins where co: "compensate_all c sec ''rejected downstream'' db1 = Inr db2"
      and ap: "append_ledger c (lv_budget_id lvl) (lv_period_key lvl) REJECT (cmd_estimated_micros c) (fresh_id db2)
         False ''limit exhausted'' ''system'' db2 = Inr (ins, db')"
      and b: "bundle = \<lparr>bn_command = c, bn_entries = [], bn_alerts = []\<rparr>"
      by (auto simp: reserve_tx_def split: sum.splits)
    note cp = compensate_all_Inr [OF co r(2,3)]
    have sh: "shifts (\<lambda>_. 0) db db2" using shifts_trans [OF r(1)] cp by fastforce
    have "ins" "ids_below db'" using append_ids [OF ap] cp by auto
    moreover obtain new where "cost_ledger db2 = cost_ledger db @ new" using sh by (auto simp: shifts_def)
    ultimately have "rejection_logged c db db'"
      using append_ledger_Inr(6) [OF ap] by (auto simp: rejection_logged_def)
    then show ?thesis using b shifts_trans0 [OF sh shifts_append [OF ap]] \<open>ids_below db'\<close> by simp
  qed
qed

text \<open>Drawing on the contingency allowance leaves usage and allowances alone.\<close>

definition same_usage :: "budget_tables \<Rightarrow> budget_tables \<Rightarrow> bool" where
  "same_usage db db' \<longleftrightarrow> budget db' = budget db \<and> reserved db' = reserved db \<and> consumed db' = consumed db \<and>
     allowance db' = allowance db"

lemma same_usage_refl [simp, intro]: "same_usage db db"
  by (simp add: same_usage_def)

lemma same_usage_trans: "same_usage a b \<Longrightarrow> same_usage b c \<Longrightarrow> same_usage a c"
  by (simp add: same_usage_def)

lemma shifts_same_usage: "shifts (\<lambda>_. 0) db db' \<Longrightarrow> same_usage db db'"
  by (simp add: shifts_def same_usage_def)

lemma same_usage_contingency:
  "update_state k (\<lambda>s. s\<lparr>ps_contingency_reserved_micros := g s\<rparr>) db = Inr db' \<Longrightarrow> same_usage db db'"
  using update_state_Inr(1,3) [of k "\<lambda>s. s\<lparr>ps_contingency_reserved_micros := g s\<rparr>" db db']
  by (cases "budget_period_state db k") (auto simp: same_usage_def state_fields intro!: ext)

lemma draw_contingency_usage:
  "draw_contingency c lvs es db = Inr (Some (es', db')) \<Longrightarrow> same_usage db db'"
proof (induction lvs arbitrary: es db)
  case Nil
  then show ?case by (simp add: same_usage_def)
next
  case (Cons lv lvs)
  then obtain k g db1 ins db2 es1 n i rs where
    a: "update_state k (\<lambda>s. s\<lparr>ps_contingency_reserved_micros := g s\<rparr>) db = Inr db1"
    "append_ledger c (lv_budget_id lv) (lv_period_key lv) RESERVE n i True rs ''system'' db1 = Inr (ins, db2)"
    "draw_contingency c lvs es1 db2 = Inr (Some (es', db'))"
    by (auto simp: Let_def split: option.splits if_splits sum.splits)
  show ?case
    by (rule same_usage_trans [OF same_usage_trans [OF same_usage_contingency [OF a(1)]
        shifts_same_usage [OF shifts_append [OF a(2)]]] Cons.IH [OF a(3)]])
qed

lemma drawn_tables_usage: "same_usage db (drawn_tables c lvs db)"
proof (induction lvs arbitrary: db)
  case (Cons lv lvs)
  show ?case
  proof (cases "\<exists>es db1. draw_contingency c [lv] [] db = Inr (Some (es, db1))")
    case True
    then obtain es db1 where d: "draw_contingency c [lv] [] db = Inr (Some (es, db1))" by blast
    have "drawn_tables c (lv # lvs) db = drawn_tables c lvs db1" by (simp del: draw_contingency.simps add: d)
    then show ?thesis using same_usage_trans [OF draw_contingency_usage [OF d] Cons.IH] by simp
  next
    case False
    then show ?thesis by (auto simp: same_usage_def simp del: draw_contingency.simps split: sum.splits option.splits)
  qed
qed (simp add: same_usage_def)

lemma apply_unknown_policy_usage:
  "apply_unknown_policy m f c db = Inr (r, db') \<Longrightarrow> same_usage db db'"
  by (auto simp: apply_unknown_policy_def Let_def split: sum.splits if_splits option.splits
      intro: drawn_tables_usage draw_contingency_usage)

lemma reserve_cases:
  assumes "reserve m f1 f2 c db = (res, db')"
  obtains (admitted) bn where "res = Inr bn" "reserve_tx m c db = Inr (bn, False, db')"
  | (rejected) bn where "res = Inl BudgetExceeded" "reserve_tx m c db = Inr (bn, True, db')"
  | (recovered) "same_usage db db'" "res \<noteq> Inl BudgetExceeded"
  | (late) bn rej db1 where "f1 = LostAck" "reserve_tx m c db = Inr (bn, rej, db1)" "same_usage db1 db'"
      "res \<noteq> Inl BudgetExceeded"
proof -
  have lv: "applicable_levels m c d = Inl BudgetExceeded \<Longrightarrow> False" for d
  proof -
    have "collect_levels m c rows \<noteq> Inl BudgetExceeded" for rows
      by (induction rows) (auto simp: period_key_for_def split: if_splits option.splits sum.splits)
    then show "applicable_levels m c d = Inl BudgetExceeded \<Longrightarrow> False" by (simp add: applicable_levels_def)
  qed
  have up: "apply_unknown_policy m f2 c d \<noteq> Inl BudgetExceeded" for d
    using lv by (auto simp: apply_unknown_policy_def Let_def split: sum.splits option.splits if_splits)
  have tx: "reserve_tx m c db \<noteq> Inl BudgetExceeded"
    using lv by (auto simp: reserve_tx_def split: sum.splits option.splits)
  have rec: "same_usage d d' \<and> r \<noteq> Inl BudgetExceeded"
    if "(case apply_unknown_policy m f2 c d of Inl e \<Rightarrow> (Inl e, d) | Inr (Some b, d2) \<Rightarrow> (Inr b, d2)
       | Inr (None, d2) \<Rightarrow> (Inl (BudgetStateUnknown ''BUDGET_STATE_UNKNOWN''), d2)) = (r, d')" for d r d'
    using that apply_unknown_policy_usage [of m f2 c d] up [of d] by (auto split: sum.splits option.splits)
  show thesis
  proof (cases "reserve_tx m c db")
    case (Inl e)
    then show ?thesis using assms tx rec [of db res db'] recovered
      by (cases e) (auto simp: reserve_def Let_def)
  next
    case (Inr p)
    obtain b rej db1 where p: "p = (b, rej, db1)" by (metis prod_cases3)
    show ?thesis
      using assms Inr p rec [of db res db'] rec [of db1 res db'] that
      by (cases f1) (auto simp: reserve_def Let_def split: if_splits)
  qed
qed

lemma shifts_within:
  assumes "shifts (entry_sum c es) db db'" "\<forall>k. entry_sum c es k \<noteq> 0 \<longrightarrow> within_limit db' k" "usage db k < usage db' k"
  shows "within_limit db' k"
proof -
  have "entry_sum c es k \<noteq> 0" using usage_shifts [OF assms(1), of k] assms(3) by simp
  then show ?thesis using assms(2) by blast
qed

text \<open>
  C23: no overdraft. Whatever budgets a tenant has and whatever happens to the transactions of
  \<open>reserve\<close> (acknowledged, lost, or committed with a lost acknowledgement), a period whose usage
  (reserved plus consumed) grew is afterwards within its budget's limit plus allowance. As
  transactions are serialised by the row locks, no set of concurrent reservations overdraws.
\<close>

theorem reserve_never_overdraws:
  assumes "ids_below db" "reserve m f1 f2 c db = (res, db')" "usage db k < usage db' k"
  shows "within_limit db' k"
  using assms(2)
proof (cases rule: reserve_cases)
  case (admitted bn)
  note tx = reserve_tx_Inr [OF admitted(2) assms(1)]
  then show ?thesis using shifts_within assms(3) by blast
next
  case (rejected bn)
  note tx = reserve_tx_Inr [OF rejected(2) assms(1)]
  then show ?thesis using shifts_within assms(3) by blast
next
  case recovered
  then show ?thesis using assms(3) by (simp add: same_usage_def usage_def)
next
  case (late bn rej db1)
  note tx = reserve_tx_Inr [OF late(2) assms(1)]
  have "usage db' k = usage db1 k" using late(3) by (simp add: same_usage_def usage_def)
  then have "usage db k < usage db1 k" using assms(3) by simp
  then have "within_limit db1 k" using tx shifts_within by blast
  then show ?thesis using late(3) by (simp add: within_limit_def same_usage_def usage_def)
qed

text \<open>
  Rejection is clean. When \<open>reserve\<close> raises \<open>BudgetExceeded\<close>, every level secured before the
  rejecting one has been given back (all reserved, consumed, allowance and contingency amounts
  are what they were), and the ledger has only grown, by compensations and, last, the REJECT
  entry for the estimated amount.
\<close>

theorem rejection_restores_usage:
  assumes "ids_below db" "reserve m f1 f2 c db = (Inl BudgetExceeded, db')"
  shows "reserved db' = reserved db \<and> consumed db' = consumed db \<and> allowance db' = allowance db \<and>
    contingency_reserved db' = contingency_reserved db \<and> rejection_logged c db db'"
  using assms(2)
proof (cases rule: reserve_cases)
  case (rejected bn)
  from reserve_tx_Inr [OF rejected(2) assms(1)] show ?thesis by (auto simp: shifts_def)
qed auto

subsection \<open>Settlement and release\<close>

lemma append_ledger_again:
  assumes "append_ledger c b p ty n i cg rs a db = Inr (ins, db1)" "\<exists>new. cost_ledger db2 = cost_ledger db1 @ new"
  shows "append_ledger c b p ty n i cg rs a db2 = Inr (False, db2)"
proof -
  have "has_key ledger_key (cmd_tenant_id c, b, p, i, ty) (cost_ledger db2)"
    using append_ledger_Inr(5) [OF assms(1)] assms(2) by (auto simp: has_key_def)
  moreover have "\<not> (n < 0 \<or> 500 < length rs \<or> \<not> (1 \<le> length a \<and> length a \<le> 256))"
    using assms(1) by (auto simp: append_ledger_def Let_def split: if_splits)
  ultimately show ?thesis by (simp add: append_ledger_def ledger_key_def Let_def)
qed

lemma settle_entries_ConsE:
  assumes "settle_entries c a (e # es) db = Inr db'"
  obtains ins db1 db2 where "append_ledger c (rs_budget_id e) (rs_period_key e) SETTLE
      (case a of Some a \<Rightarrow> a | None \<Rightarrow> rs_amount_micros e) (rs_ledger_entry_id e) (rs_contingency e) [] ''system'' db = Inr (ins, db1)"
    "cost_ledger db2 = cost_ledger db1" "settle_entries c a es db2 = Inr db'"
proof -
  from assms obtain ins db1 where ap: "append_ledger c (rs_budget_id e) (rs_period_key e) SETTLE
      (case a of Some a \<Rightarrow> a | None \<Rightarrow> rs_amount_micros e) (rs_ledger_entry_id e) (rs_contingency e) [] ''system'' db = Inr (ins, db1)"
    by (auto simp: Let_def split: sum.splits)
  show thesis
  proof (cases ins)
    case False
    then show ?thesis using that [OF ap refl] assms ap by (simp add: Let_def)
  next
    case True
    with assms ap obtain k f db2 where "update_state k f db1 = Inr db2" "settle_entries c a es db2 = Inr db'"
      by (auto simp: Let_def split: sum.splits)
    then show ?thesis using that [OF ap update_state_Inr(2)] by blast
  qed
qed

lemma release_entries_ConsE:
  assumes "release_entries c rs (e # es) db = Inr db'"
  obtains ins db1 db2 where "append_ledger c (rs_budget_id e) (rs_period_key e) RELEASE
      (rs_amount_micros e) (rs_ledger_entry_id e) (rs_contingency e) rs ''system'' db = Inr (ins, db1)"
    "cost_ledger db2 = cost_ledger db1" "release_entries c rs es db2 = Inr db'"
proof -
  from assms obtain ins db1 where ap: "append_ledger c (rs_budget_id e) (rs_period_key e) RELEASE
      (rs_amount_micros e) (rs_ledger_entry_id e) (rs_contingency e) rs ''system'' db = Inr (ins, db1)"
    by (auto simp: Let_def split: sum.splits)
  show thesis
  proof (cases ins)
    case False
    then show ?thesis using that [OF ap refl] assms ap by (simp add: Let_def)
  next
    case True
    with assms ap obtain k f db2 where "update_state k f db1 = Inr db2" "release_entries c rs es db2 = Inr db'"
      by (auto simp: Let_def split: sum.splits)
    then show ?thesis using that [OF ap update_state_Inr(2)] by blast
  qed
qed

lemma settle_entries_ledger:
  "settle_entries c a es db = Inr db' \<Longrightarrow> \<exists>new. cost_ledger db' = cost_ledger db @ new"
proof (induction es arbitrary: db)
  case (Cons e es)
  from Cons.prems obtain ins db1 db2 where s: "append_ledger c (rs_budget_id e) (rs_period_key e) SETTLE
      (case a of Some a \<Rightarrow> a | None \<Rightarrow> rs_amount_micros e) (rs_ledger_entry_id e) (rs_contingency e) [] ''system'' db = Inr (ins, db1)"
    "cost_ledger db2 = cost_ledger db1" "settle_entries c a es db2 = Inr db'"
    by (rule settle_entries_ConsE)
  from append_ledger_Inr(4) [OF s(1)] Cons.IH [OF s(3)] s(2) show ?case by auto
qed simp

lemma settle_entries_again:
  assumes "settle_entries c a es db = Inr db1" "\<exists>new. cost_ledger db2 = cost_ledger db1 @ new"
  shows "settle_entries c a es db2 = Inr db2"
  using assms(1)
proof (induction es arbitrary: db)
  case (Cons e es)
  from Cons.prems obtain ins dba dbb where s: "append_ledger c (rs_budget_id e) (rs_period_key e) SETTLE
      (case a of Some a \<Rightarrow> a | None \<Rightarrow> rs_amount_micros e) (rs_ledger_entry_id e) (rs_contingency e) [] ''system'' db = Inr (ins, dba)"
    "cost_ledger dbb = cost_ledger dba" "settle_entries c a es dbb = Inr db1"
    by (rule settle_entries_ConsE)
  have "\<exists>new. cost_ledger db2 = cost_ledger dba @ new"
    using settle_entries_ledger [OF s(3)] s(2) assms(2) by (metis append.assoc)
  from append_ledger_again [OF s(1) this] Cons.IH [OF s(3)] show ?case by (simp add: Let_def)
qed simp

lemma release_entries_ledger:
  "release_entries c rs es db = Inr db' \<Longrightarrow> \<exists>new. cost_ledger db' = cost_ledger db @ new"
proof (induction es arbitrary: db)
  case (Cons e es)
  from Cons.prems obtain ins db1 db2 where s: "append_ledger c (rs_budget_id e) (rs_period_key e) RELEASE
      (rs_amount_micros e) (rs_ledger_entry_id e) (rs_contingency e) rs ''system'' db = Inr (ins, db1)"
    "cost_ledger db2 = cost_ledger db1" "release_entries c rs es db2 = Inr db'"
    by (rule release_entries_ConsE)
  from append_ledger_Inr(4) [OF s(1)] Cons.IH [OF s(3)] s(2) show ?case by auto
qed simp

lemma release_entries_again:
  assumes "release_entries c rs es db = Inr db1" "\<exists>new. cost_ledger db2 = cost_ledger db1 @ new"
  shows "release_entries c rs es db2 = Inr db2"
  using assms(1)
proof (induction es arbitrary: db)
  case (Cons e es)
  from Cons.prems obtain ins dba dbb where s: "append_ledger c (rs_budget_id e) (rs_period_key e) RELEASE
      (rs_amount_micros e) (rs_ledger_entry_id e) (rs_contingency e) rs ''system'' db = Inr (ins, dba)"
    "cost_ledger dbb = cost_ledger dba" "release_entries c rs es dbb = Inr db1"
    by (rule release_entries_ConsE)
  have "\<exists>new. cost_ledger db2 = cost_ledger dba @ new"
    using release_entries_ledger [OF s(3)] s(2) assms(2) by (metis append.assoc)
  from append_ledger_again [OF s(1) this] Cons.IH [OF s(3)] show ?case by simp
qed simp

text \<open>
  Settlement and release are idempotent. Replaying a \<open>settle\<close> (or a \<open>release\<close>) of a bundle
  after any later activity that only appended to the ledger leaves every table as it is.
\<close>

theorem settle_and_release_idempotent:
  assumes "\<exists>new. cost_ledger db2 = cost_ledger db1 @ new"
  shows "(settle bn actual db = Inr db1 \<longrightarrow> settle bn actual db2 = Inr db2) \<and>
    (release_bundle bn reason db = Inr db1 \<longrightarrow> release_bundle bn reason db2 = Inr db2)"
  using settle_entries_again [OF _ assms] release_entries_again [OF _ assms]
  by (auto simp: settle_def release_bundle_def)

text \<open>Releasing what is held, when no release of it is on the ledger yet.\<close>

definition unreleased :: "budget_tables \<Rightarrow> budget_command \<Rightarrow> budget_reservation \<Rightarrow> bool" where
  "unreleased db c e \<longleftrightarrow>
     \<not> has_key ledger_key (cmd_tenant_id c, rs_budget_id e, rs_period_key e, rs_ledger_entry_id e, RELEASE) (cost_ledger db)"

lemma release_entries_ok:
  assumes "states_ok db" "\<forall>e \<in> set es. held db c e \<and> unreleased db c e" "distinct (map rs_ledger_entry_id es)"
    "\<forall>k. entry_sum c es k \<le> reserved db k" "length rs \<le> 500"
  shows "\<exists>db'. release_entries c rs es db = Inr db' \<and> shifts (\<lambda>k. - entry_sum c es k) db db'"
  using assms
proof (induction es arbitrary: db)
  case (Cons e es)
  let ?k = "entry_key c e" and ?n = "rs_amount_micros e"
  have h: "held db c e" "unreleased db c e" using Cons.prems(2) by auto
  have sum_nonneg: "0 \<le> entry_sum c es k" for k
    using Cons.prems(2) by (induction es) (auto simp: held_def at_key_def)
  obtain db1 where ap: "append_ledger c (rs_budget_id e) (rs_period_key e) RELEASE ?n (rs_ledger_entry_id e)
      (rs_contingency e) rs ''system'' db = Inr (True, db1)" and led: "cost_ledger db1 = cost_ledger db @ [last (cost_ledger db1)]"
    "lg_reserve_id (last (cost_ledger db1)) = rs_ledger_entry_id e"
    using h Cons.prems(5) by (auto simp: append_ledger_def Let_def ledger_key_def held_def unreleased_def)
  obtain st where st: "budget_period_state db ?k = Some st" using h(1) by (auto simp: held_def)
  have st1: "budget_period_state db1 ?k = Some st" using append_ledger_Inr(2) [OF ap] st by simp
  have "?n \<le> ps_reserved_micros st"
    using Cons.prems(4) [rule_format, of ?k] sum_nonneg [of ?k] st by (simp add: at_key_def reserved_def)
  moreover have "period_state_ok st" using Cons.prems(1) st unfolding states_ok_def by blast
  ultimately obtain db2 where up: "update_state ?k (\<lambda>s. s\<lparr>ps_reserved_micros := ps_reserved_micros s - ?n\<rparr>) db1 = Inr db2"
    using st1 by (simp add: update_state_def period_state_ok_def Let_def)
  have s1: "shifts (at_key ?k (- ?n)) db db2"
    using shifts_trans [OF shifts_append [OF ap] shifts_update_minus [OF up]] st1 by simp
  have led2: "cost_ledger db2 = cost_ledger db @ [last (cost_ledger db1)]" using update_state_Inr(2) [OF up] led(1) by simp
  have "states_ok db2" using s1 Cons.prems(1) by (simp add: shifts_def)
  moreover have "\<forall>x \<in> set es. held db2 c x \<and> unreleased db2 c x"
    using Cons.prems(2,3) held_shifts [OF s1] led(2)
    by (auto simp: unreleased_def led2 has_key_append ledger_key_def)
  moreover have "entry_sum c es k \<le> reserved db2 k" for k
    using Cons.prems(4) [rule_format, of k] s1 by (auto simp: shifts_def at_key_def split: if_splits)
  ultimately obtain db' where rest: "release_entries c rs es db2 = Inr db'" "shifts (\<lambda>k. - entry_sum c es k) db2 db'"
    using Cons.IH [of db2] Cons.prems(3,5) by (auto simp del: split_paired_All)
  have "release_entries c rs (e # es) db = Inr db'" using ap up rest(1) by (simp add: entry_key_def)
  moreover have "(\<lambda>k. at_key ?k (- ?n) k + - entry_sum c es k) = (\<lambda>k. - entry_sum c (e # es) k)" by (auto simp: at_key_def)
  ultimately show ?case using shifts_trans [OF s1 rest(2)] by auto
qed simp

lemma reserve_levels_ids:
  assumes "reserve_levels c lvs sec al db = Inr (sec', al', rej, db')" "ids_below db"
  shows "\<exists>new rows. sec' = sec @ new \<and> cost_ledger db' = cost_ledger db @ rows \<and>
    (\<forall>r \<in> set rows. lg_entry_type r = RESERVE) \<and> distinct (map rs_ledger_entry_id new) \<and>
    (\<forall>e \<in> set new. length (cost_ledger db) \<le> length (rs_ledger_entry_id e))"
  using assms
proof (induction lvs arbitrary: sec al db)
  case (Cons lv lvs)
  obtain r al1 db1 where r: "reserve_level lv c db = Inr (r, al1, db1)"
    using Cons.prems(1) by (auto split: sum.splits)
  show ?case
  proof (cases r)
    case None
    then show ?thesis using Cons.prems r reserve_level_None(2) by auto
  next
    case (Some e)
    note rl = reserve_level_Some [OF r [unfolded Some] Cons.prems(2)]
    then obtain q where q: "cost_ledger db1 = cost_ledger db @ [q]" "lg_entry_type q = RESERVE" by blast
    have "reserve_levels c lvs (sec @ [e]) (al @ al1) db1 = Inr (sec', al', rej, db')"
      using Cons.prems(1) r Some by simp
    from Cons.IH [OF this] rl obtain new rows where n: "sec' = sec @ e # new" "cost_ledger db' = cost_ledger db1 @ rows"
      "\<forall>r \<in> set rows. lg_entry_type r = RESERVE" "distinct (map rs_ledger_entry_id new)"
      "\<forall>e \<in> set new. length (cost_ledger db1) \<le> length (rs_ledger_entry_id e)" by auto
    have "rs_ledger_entry_id e \<notin> rs_ledger_entry_id ` set new" using n(5) q(1) rl by fastforce
    then show ?thesis using n q rl
      by (intro exI [of _ "e # new"] exI [of _ "q # rows"]) auto
  qed
qed auto

lemma draw_contingency_entries:
  "draw_contingency c lvs es db = Inr (Some (es', db')) \<Longrightarrow>
   \<exists>new. es' = es @ new \<and> length new = length lvs \<and> (\<forall>e \<in> set new. rs_contingency e)"
proof (induction lvs arbitrary: es db)
  case (Cons lv lvs)
  then obtain e db1 where "draw_contingency c lvs (es @ [e]) db1 = Inr (Some (es', db'))" "rs_contingency e"
    by (auto simp: Let_def split: option.splits if_splits sum.splits)
  with Cons.IH [OF this(1)] show ?case by (auto intro: exI [of _ "e # new" for new])
qed auto

lemma apply_unknown_policy_entries:
  "apply_unknown_policy m f c db = Inr (Some bn, db') \<Longrightarrow> \<exists>e \<in> set (bn_entries bn). rs_contingency e"
  by (auto simp: apply_unknown_policy_def Let_def split: sum.splits if_splits option.splits
      dest!: draw_contingency_entries) (metis length_0_conv list.set_sel(1))

lemma reserve_plain:
  assumes "reserve m Acknowledged f2 c db = (Inr bn, db')" "\<forall>e \<in> set (bn_entries bn). \<not> rs_contingency e"
  shows "reserve_tx m c db = Inr (bn, False, db')"
proof -
  have "apply_unknown_policy m f2 c db \<noteq> Inr (Some bn, db')" using apply_unknown_policy_entries assms(2) by blast
  then show ?thesis using assms(1)
    by (auto simp: reserve_def Let_def split: sum.splits budget_error.splits if_splits option.splits)
qed

text \<open>
  A reservation that is given back leaves no trace in the budgets. Releasing the bundle of an
  admitted reservation always succeeds (with a reason the ledger can hold), and then every
  reserved, consumed, allowance and contingency amount is what it was before the reservation.
\<close>

theorem release_undoes_reserve:
  assumes "states_ok db" "ids_below db" "reserve m Acknowledged f2 c db = (Inr bn, db1)"
    and "\<forall>e \<in> set (bn_entries bn). \<not> rs_contingency e" "length reason \<le> 500"
  shows "\<exists>db2. release_bundle bn reason db1 = Inr db2 \<and> reserved db2 = reserved db \<and> consumed db2 = consumed db \<and>
    allowance db2 = allowance db \<and> contingency_reserved db2 = contingency_reserved db"
proof -
  note rt = reserve_plain [OF assms(3,4)]
  note tx = reserve_tx_Inr [OF rt assms(2)]
  from rt obtain lvs al where rs: "reserve_levels c lvs [] [] db = Inr (bn_entries bn, al, None, db1)"
    by (auto simp: reserve_tx_def split: sum.splits option.splits)
  from reserve_levels_ids [OF this assms(2)] obtain rows where ids: "cost_ledger db1 = cost_ledger db @ rows"
    "\<forall>r \<in> set rows. lg_entry_type r = RESERVE" "distinct (map rs_ledger_entry_id (bn_entries bn))"
    "\<forall>e \<in> set (bn_entries bn). length (cost_ledger db) \<le> length (rs_ledger_entry_id e)" by auto
  have "unreleased db1 c e" if "e \<in> set (bn_entries bn)" for e
    using has_key_ids_below [OF assms(2)] ids that by (auto simp: unreleased_def has_key_def ledger_key_def)
  moreover have "states_ok db1" using tx assms(1) by (simp add: shifts_def)
  moreover have "entry_sum c (bn_entries bn) k \<le> reserved db1 k" for k
  proof -
    have "0 \<le> reserved db k" using assms(1) unfolding states_ok_def reserved_def period_state_ok_def
      by (cases "budget_period_state db k") (auto simp del: split_paired_All)
    then show ?thesis using tx by (simp add: shifts_def)
  qed
  ultimately obtain db2 where "release_entries c reason (bn_entries bn) db1 = Inr db2"
    "shifts (\<lambda>k. - entry_sum c (bn_entries bn) k) db1 db2"
    using release_entries_ok [of db1 "bn_entries bn" c reason] tx ids(3) assms(5) by blast
  with tx show ?thesis by (auto simp: release_bundle_def shifts_def fun_eq_iff)
qed

subsection \<open>Alert thresholds\<close>

lemma round_half_even_ge:
  assumes "0 < d"
  shows "c \<le> round_half_even n d \<longleftrightarrow> (if even c then d * (2 * c - 1) \<le> 2 * n else d * (2 * c - 1) < 2 * n)"
proof -
  define q r where "q = n div d" and "r = n mod d"
  have n: "n = d * q + r" "0 \<le> r" "r < d" using assms by (auto simp: q_def r_def)
  have rnd: "round_half_even n d = (if 2 * r < d then q else if d < 2 * r then q + 1 else if even q then q else q + 1)"
    by (simp add: round_half_even_def Let_def q_def r_def)
  define x y where "x = d * q" and "y = d * c"
  have e: "d * (2 * c - 1) = 2 * y - d" "2 * n = 2 * x + 2 * r"
    by (simp_all add: x_def y_def n(1) algebra_simps)
  consider "c \<le> q" | "c = q + 1" | "q + 2 \<le> c" by linarith
  then show ?thesis
  proof cases
    case 1
    then have "y \<le> x" using assms by (simp add: x_def y_def)
    then show ?thesis unfolding e rnd using 1 n(2,3) assms by auto
  next
    case 2
    then have "y = x + d" by (simp add: x_def y_def algebra_simps)
    then show ?thesis unfolding e rnd using 2 n(2,3) assms by auto
  next
    case 3
    then have "d * (q + 2) \<le> d * c" using assms by (intro mult_left_mono) auto
    then have "x + 2 * d \<le> y" by (simp add: x_def y_def algebra_simps)
    then show ?thesis unfolding e rnd using 3 n(2,3) assms by auto
  qed
qed

text \<open>
  The alert thresholds are exact. Although the ratio is computed in floating point, for limits
  up to \<open>10 ^ 15\<close> micros the decision is the one over the integers: rejected beyond the limit,
  critical from nine tenths of it on, a warning from seven tenths on, and no alert below.
\<close>

theorem evaluate_level_exact:
  assumes "0 < limit" "limit \<le> 10 ^ 15"
  shows "evaluate_level used limit =
    (if limit < used then Some Reject
     else if 9 * limit \<le> 10 * used then Some Critical90
     else if 7 * limit \<le> 10 * used then Some Warning70
     else None)"
proof -
  have "8106479329266893 \<le> round_half_even (used * 2 ^ 53) limit \<longleftrightarrow> 9 * limit \<le> 10 * used"
    using assms by (simp add: round_half_even_ge) linarith
  moreover have "6305039478318694 \<le> round_half_even (used * 2 ^ 53) limit \<longleftrightarrow> 7 * limit \<le> 10 * used"
    using assms by (simp add: round_half_even_ge) linarith
  ultimately show ?thesis using assms by (simp add: evaluate_level_def)
qed

subsection \<open>Contingency draws\<close>

text \<open>
  A draw on the contingency allowance is settled against the wrong bucket. Settling (or
  releasing) a contingency entry for the first time takes its amount from \<open>reserved_micros\<close> and
  leaves \<open>contingency_reserved_micros\<close> as it was, so the allowance is never given back; when
  the period has less than that amount reserved, the statement violates the table's check and
  the settlement fails.
\<close>

theorem contingency_settled_from_reserved:
  assumes "rs_contingency e" "bn_entries bn = [e]"
    and "budget_period_state db (entry_key (bn_command bn) e) = Some st" "period_state_ok st"
    and "\<not> has_key ledger_key (cmd_tenant_id (bn_command bn), rs_budget_id e, rs_period_key e, rs_ledger_entry_id e, SETTLE) (cost_ledger db)"
    and "0 \<le> rs_amount_micros e"
  shows "case settle bn None db of
      Inl err \<Rightarrow> ps_reserved_micros st < rs_amount_micros e \<and> err = IntegrityError
    | Inr db' \<Rightarrow> rs_amount_micros e \<le> ps_reserved_micros st \<and>
        budget_period_state db' (entry_key (bn_command bn) e) = Some (st\<lparr>
          ps_reserved_micros := ps_reserved_micros st - rs_amount_micros e,
          ps_consumed_micros := ps_consumed_micros st + rs_amount_micros e, ps_version := ps_version st + 1\<rparr>)"
  using assms
  by (auto simp: settle_def append_ledger_def update_state_def ledger_key_def entry_key_def period_state_ok_def Let_def
      split: if_splits)

subsection \<open>A concrete tenant\<close>

definition sample_budgets :: budget_tables where
  "sample_budgets = \<lparr>budget = [\<lparr>bg_tenant_id = ''t'', bg_id = ''b'', bg_application_id = None, bg_scope = TENANT_MONTHLY,
       bg_limit_micros = 100, bg_contingency_micros = 50, bg_unknown_policy = CONTINGENCY, bg_created_at = 0\<rparr>],
     budget_period_state = Map.empty, budget_alert = Map.empty, cost_ledger = [], model_price = []\<rparr>"

definition sample_command :: "int \<Rightarrow> budget_command" where
  "sample_command n = \<lparr>cmd_tenant_id = ''t'', cmd_application_id = None, cmd_execution_id = None,
     cmd_estimated_micros = n, cmd_price_version = None\<rparr>"

definition sample_entry :: budget_reservation where
  "sample_entry = \<lparr>rs_budget_id = ''b'', rs_scope = TENANT_MONTHLY, rs_period_key = ''1970-01'', rs_amount_micros = 30,
     rs_ledger_entry_id = ''e'', rs_contingency = True\<rparr>"

definition drawn_budgets :: budget_tables where
  "drawn_budgets = sample_budgets\<lparr>budget_period_state := [(''t'', ''b'', ''1970-01'') \<mapsto>
     \<lparr>ps_reserved_micros = 0, ps_consumed_micros = 0, ps_allowance_micros = 0,
      ps_contingency_reserved_micros = 30, ps_version = 2\<rparr>]\<rparr>"

lemma sample_budgets_ok: "ids_below sample_budgets" "states_ok sample_budgets"
  by (simp_all add: sample_budgets_def ids_below_def states_ok_def)

theorem reserve_never_overdraws_witness:
  "within_limit (snd (reserve 0 Acknowledged Acknowledged (sample_command 40) sample_budgets)) (''t'', ''b'', ''1970-01'')"
proof (rule reserve_never_overdraws [OF sample_budgets_ok(1) prod.collapse [symmetric]])
  show "usage sample_budgets (''t'', ''b'', ''1970-01'') <
      usage (snd (reserve 0 Acknowledged Acknowledged (sample_command 40) sample_budgets)) (''t'', ''b'', ''1970-01'')"
    by code_simp
qed

theorem rejection_restores_usage_witness:
  "\<exists>db'. reserve 0 Acknowledged Acknowledged (sample_command 200) sample_budgets = (Inl BudgetExceeded, db') \<and>
     reserved db' = reserved sample_budgets \<and> rejection_logged (sample_command 200) sample_budgets db'"
proof -
  have "fst (reserve 0 Acknowledged Acknowledged (sample_command 200) sample_budgets) = Inl BudgetExceeded" by code_simp
  then obtain db' where "reserve 0 Acknowledged Acknowledged (sample_command 200) sample_budgets = (Inl BudgetExceeded, db')"
    by (metis prod.collapse)
  with rejection_restores_usage [OF sample_budgets_ok(1) this] show ?thesis by blast
qed

theorem release_undoes_reserve_witness:
  "\<exists>bn db1 db2. reserve 0 Acknowledged Acknowledged (sample_command 40) sample_budgets = (Inr bn, db1) \<and>
     release_bundle bn ''cancelled'' db1 = Inr db2 \<and> reserved db2 = reserved sample_budgets"
proof -
  have "(case fst (reserve 0 Acknowledged Acknowledged (sample_command 40) sample_budgets) of
      Inl _ \<Rightarrow> False | Inr bn \<Rightarrow> \<forall>e \<in> set (bn_entries bn). \<not> rs_contingency e)" by code_simp
  then obtain bn db1 where r: "reserve 0 Acknowledged Acknowledged (sample_command 40) sample_budgets = (Inr bn, db1)"
    "\<forall>e \<in> set (bn_entries bn). \<not> rs_contingency e"
    by (cases "reserve 0 Acknowledged Acknowledged (sample_command 40) sample_budgets") (auto split: sum.splits)
  from release_undoes_reserve [OF sample_budgets_ok(2,1) r, of "''cancelled''"] r show ?thesis by auto
qed

definition funded_budgets :: budget_tables where
  "funded_budgets = sample_budgets\<lparr>budget_period_state := [(''t'', ''b'', ''1970-01'') \<mapsto>
     \<lparr>ps_reserved_micros = 40, ps_consumed_micros = 0, ps_allowance_micros = 0,
      ps_contingency_reserved_micros = 0, ps_version = 2\<rparr>]\<rparr>"

theorem settle_and_release_idempotent_witness:
  "\<exists>db1. settle \<lparr>bn_command = sample_command 30, bn_entries = [sample_entry], bn_alerts = []\<rparr> (Some 25) funded_budgets = Inr db1 \<and>
     settle \<lparr>bn_command = sample_command 30, bn_entries = [sample_entry], bn_alerts = []\<rparr> (Some 25) db1 = Inr db1"
proof -
  have "is_ok (settle \<lparr>bn_command = sample_command 30, bn_entries = [sample_entry], bn_alerts = []\<rparr> (Some 25) funded_budgets)"
    by code_simp
  then obtain db1 where s: "settle \<lparr>bn_command = sample_command 30, bn_entries = [sample_entry], bn_alerts = []\<rparr> (Some 25)
      funded_budgets = Inr db1" by (auto simp: is_ok_def split: sum.splits)
  have "\<exists>new. cost_ledger db1 = cost_ledger db1 @ new" by simp
  from settle_and_release_idempotent [OF this] s show ?thesis by blast
qed

theorem evaluate_level_exact_witness:
  "evaluate_level 90 100 = Some Critical90 \<and> evaluate_level 70 100 = Some Warning70 \<and> evaluate_level 69 100 = None \<and>
   evaluate_level 101 100 = Some Reject"
  using evaluate_level_exact [of 100 90] evaluate_level_exact [of 100 70] evaluate_level_exact [of 100 69]
    evaluate_level_exact [of 100 101] by simp

theorem contingency_settled_from_reserved_witness:
  "settle \<lparr>bn_command = sample_command 30, bn_entries = [sample_entry], bn_alerts = []\<rparr> None drawn_budgets = Inl IntegrityError"
proof -
  have k: "budget_period_state drawn_budgets (entry_key (sample_command 30) sample_entry) =
    Some \<lparr>ps_reserved_micros = 0, ps_consumed_micros = 0, ps_allowance_micros = 0,
      ps_contingency_reserved_micros = 30, ps_version = 2\<rparr>"
    by (simp add: drawn_budgets_def entry_key_def sample_command_def sample_entry_def)
  have "rs_contingency sample_entry" "rs_amount_micros sample_entry = 30" "cost_ledger drawn_budgets = []"
    by (simp_all add: sample_entry_def drawn_budgets_def sample_budgets_def)
  then show ?thesis
    using contingency_settled_from_reserved
      [of sample_entry "\<lparr>bn_command = sample_command 30, bn_entries = [sample_entry], bn_alerts = []\<rparr>" drawn_budgets] k
    by (auto simp: has_key_def period_state_ok_def split: sum.splits)
qed

end
