(* ===== verification/Approvals.thy ===== *)
theory Approvals
  imports Py_Lib
begin

text \<open>
  Durable tool approvals: \<open>trpc_service/tool/approvals.py\<close> with its in-memory store, and the
  database store of \<open>trpc_service/tool/store.py\<close>. A store is a record of operations on its own
  state, as the \<open>ApprovalStore\<close> protocol has them; the service is written over such a record, its
  laws are the locale \<open>approval_store\<close>, and both stores interpret it. \<open>uuid4()\<close> values are
  arguments, \<open>now\<close> is \<open>datetime.now(UTC)\<close>. Inside a tenant transaction row-level security
  restricts every statement to the tenant's rows.
\<close>

datatype side_effect = READ_ONLY | IDEMPOTENT_WRITE | NON_IDEMPOTENT_WRITE | HIGH_RISK

datatype approval_status = AP_PENDING | AP_APPROVED | AP_DENIED | AP_EXPIRED | AP_CONSUMED

datatype approval_decision = APPROVE | DENY

datatype approval_error = ApprovalError string

text \<open>The immutable tool-call intent a request is looked up by.\<close>

record tool_intent =
  in_tool_name :: string
  in_tool_version :: int
  in_params_hash :: string
  in_requested_by :: string

record approval_request =
  ap_approval_id :: string
  ap_tenant_id :: string
  ap_release_id :: string
  ap_tool_name :: string
  ap_tool_version :: int
  ap_params_hash :: string
  ap_params :: "(string \<times> json) list"
  ap_side_effect :: side_effect
  ap_requested_by :: string
  ap_requester_role :: string
  ap_policy_version :: string
  ap_status :: approval_status
  ap_requested_at :: timestamp
  ap_expires_at :: timestamp
  ap_decided_by :: "string option"
  ap_decided_at :: "timestamp option"

definition intent_of :: "approval_request \<Rightarrow> tool_intent" where
  "intent_of r = \<lparr>in_tool_name = ap_tool_name r, in_tool_version = ap_tool_version r,
     in_params_hash = ap_params_hash r, in_requested_by = ap_requested_by r\<rparr>"

record 's approval_ops =
  op_upsert :: "'s \<Rightarrow> approval_request \<Rightarrow> 's"
  op_transition :: "'s \<Rightarrow> string \<Rightarrow> string \<Rightarrow> approval_status list \<Rightarrow> approval_status \<Rightarrow> string option
    \<Rightarrow> timestamp option \<Rightarrow> approval_request option \<times> 's"
  op_get :: "'s \<Rightarrow> string \<Rightarrow> string \<Rightarrow> approval_request option"
  op_find_open :: "'s \<Rightarrow> string \<Rightarrow> tool_intent \<Rightarrow> approval_status list \<Rightarrow> approval_request option"

definition DEFAULT_APPROVAL_TTL_SECONDS :: int where "DEFAULT_APPROVAL_TTL_SECONDS = 900"
definition APPROVER_ROLES :: "string set" where "APPROVER_ROLES = {''TENANT_ADMIN''}"
definition SELF_SERVICE_ROLES :: "string set" where "SELF_SERVICE_ROLES = {''TENANT_ADMIN'', ''AGENT_DEVELOPER''}"

definition transitioned ::
  "approval_status \<Rightarrow> string option \<Rightarrow> timestamp option \<Rightarrow> approval_request \<Rightarrow> approval_request" where
  "transitioned to_status decided_by decided_at r =
     r\<lparr>ap_status := to_status,
       ap_decided_by := (case decided_by of None \<Rightarrow> ap_decided_by r | Some d \<Rightarrow> Some d),
       ap_decided_at := (case decided_at of None \<Rightarrow> ap_decided_at r | Some d \<Rightarrow> Some d)\<rparr>"

subsection \<open>The in-memory store\<close>

text \<open>A Python dict keyed by the approval id, in insertion order.\<close>

type_synonym memory_approvals = "approval_request list"

definition memory_upsert :: "memory_approvals \<Rightarrow> approval_request \<Rightarrow> memory_approvals" where
  "memory_upsert s r =
     (if has_key ap_approval_id (ap_approval_id r) s
      then update_where (\<lambda>q. ap_approval_id q = ap_approval_id r) (\<lambda>_. r) s
      else s @ [r])"

definition memory_get :: "memory_approvals \<Rightarrow> string \<Rightarrow> string \<Rightarrow> approval_request option" where
  "memory_get s tenant_id approval_id =
     (case row_of ap_approval_id approval_id s of
        Some r \<Rightarrow> if ap_tenant_id r = tenant_id then Some r else None
      | None \<Rightarrow> None)"

definition memory_transition ::
  "memory_approvals \<Rightarrow> string \<Rightarrow> string \<Rightarrow> approval_status list \<Rightarrow> approval_status \<Rightarrow> string option
   \<Rightarrow> timestamp option \<Rightarrow> approval_request option \<times> memory_approvals" where
  "memory_transition s tenant_id approval_id from_statuses to_status decided_by decided_at =
     (case memory_get s tenant_id approval_id of
        None \<Rightarrow> (None, s)
      | Some r \<Rightarrow>
         if ap_status r \<notin> set from_statuses then (None, s)
         else let t = transitioned to_status decided_by decided_at r in
           (Some t, update_where (\<lambda>q. ap_approval_id q = approval_id) (\<lambda>_. t) s))"

definition memory_find_open ::
  "memory_approvals \<Rightarrow> string \<Rightarrow> tool_intent \<Rightarrow> approval_status list \<Rightarrow> approval_request option" where
  "memory_find_open s tenant_id intent statuses =
     find (\<lambda>r. ap_tenant_id r = tenant_id \<and> intent_of r = intent \<and> ap_status r \<in> set statuses) s"

definition memory_ops :: "memory_approvals approval_ops" where
  "memory_ops = \<lparr>op_upsert = memory_upsert, op_transition = memory_transition, op_get = memory_get,
     op_find_open = memory_find_open\<rparr>"

subsection \<open>The database store\<close>

text \<open>\<open>tenant.tool_approval\<close>, primary key (tenant, approval id).\<close>

type_synonym approval_table = "approval_request list"

definition approval_key :: "approval_request \<Rightarrow> string \<times> string" where
  "approval_key r = (ap_tenant_id r, ap_approval_id r)"

definition db_upsert :: "approval_table \<Rightarrow> approval_request \<Rightarrow> approval_table" where
  "db_upsert s r =
     (if has_key approval_key (approval_key r) s
      then update_where (\<lambda>q. approval_key q = approval_key r)
             (\<lambda>q. q\<lparr>ap_status := ap_status r, ap_decided_by := ap_decided_by r, ap_decided_at := ap_decided_at r\<rparr>) s
      else s @ [r])"

definition db_get :: "approval_table \<Rightarrow> string \<Rightarrow> string \<Rightarrow> approval_request option" where
  "db_get s tenant_id approval_id = row_of approval_key (tenant_id, approval_id) s"

definition db_transition ::
  "approval_table \<Rightarrow> string \<Rightarrow> string \<Rightarrow> approval_status list \<Rightarrow> approval_status \<Rightarrow> string option
   \<Rightarrow> timestamp option \<Rightarrow> approval_request option \<times> approval_table" where
  "db_transition s tenant_id approval_id from_statuses to_status decided_by decided_at =
     (let hit = (\<lambda>q. approval_key q = (tenant_id, approval_id) \<and> ap_status q \<in> set from_statuses)
      in (map_option (transitioned to_status decided_by decided_at) (find hit s),
          update_where hit (transitioned to_status decided_by decided_at) s))"

text \<open>\<open>ORDER BY requested_at DESC LIMIT 1\<close>; among equal instants the first row is taken.\<close>

definition db_find_open ::
  "approval_table \<Rightarrow> string \<Rightarrow> tool_intent \<Rightarrow> approval_status list \<Rightarrow> approval_request option" where
  "db_find_open s tenant_id intent statuses =
     (case sort_key (\<lambda>r. - ap_requested_at r)
             (filter (\<lambda>r. ap_tenant_id r = tenant_id \<and> intent_of r = intent \<and> ap_status r \<in> set statuses) s) of
        [] \<Rightarrow> None | r # _ \<Rightarrow> Some r)"

definition db_ops :: "approval_table approval_ops" where
  "db_ops = \<lparr>op_upsert = db_upsert, op_transition = db_transition, op_get = db_get, op_find_open = db_find_open\<rparr>"

subsection \<open>The service\<close>

definition approval_create ::
  "'s approval_ops \<Rightarrow> int \<Rightarrow> timestamp \<Rightarrow> string \<Rightarrow> string \<Rightarrow> string \<Rightarrow> tool_intent \<Rightarrow> (string \<times> json) list \<Rightarrow> side_effect
   \<Rightarrow> string \<Rightarrow> string \<Rightarrow> 's \<Rightarrow> approval_request \<times> 's" where
  "approval_create ops ttl_seconds now new_id tenant_id release_id intent params side_effect requester_role policy_version s =
     (let r = \<lparr>ap_approval_id = new_id, ap_tenant_id = tenant_id, ap_release_id = release_id,
               ap_tool_name = in_tool_name intent, ap_tool_version = in_tool_version intent,
               ap_params_hash = in_params_hash intent, ap_params = params, ap_side_effect = side_effect,
               ap_requested_by = in_requested_by intent, ap_requester_role = requester_role,
               ap_policy_version = policy_version, ap_status = AP_PENDING, ap_requested_at = now,
               ap_expires_at = now + seconds ttl_seconds, ap_decided_by = None, ap_decided_at = None\<rparr>
      in (r, op_upsert ops s r))"

definition approval_get ::
  "'s approval_ops \<Rightarrow> timestamp \<Rightarrow> string \<Rightarrow> string \<Rightarrow> 's \<Rightarrow> (approval_error + approval_request) \<times> 's" where
  "approval_get ops now tenant_id approval_id s =
     (case op_get ops s tenant_id approval_id of
        None \<Rightarrow> (Inl (ApprovalError ''APPROVAL_NOT_FOUND''), s)
      | Some r \<Rightarrow>
         if ap_status r \<in> {AP_PENDING, AP_APPROVED} \<and> ap_expires_at r \<le> now
         then (case op_transition ops s tenant_id approval_id [AP_PENDING, AP_APPROVED] AP_EXPIRED None None of
                 (Some expired, s') \<Rightarrow> (Inr expired, s')
               | (None, s') \<Rightarrow> (Inr r, s'))
         else (Inr r, s))"

definition decide ::
  "'s approval_ops \<Rightarrow> timestamp \<Rightarrow> string \<Rightarrow> string \<Rightarrow> approval_decision \<Rightarrow> string \<Rightarrow> string \<Rightarrow> 's
   \<Rightarrow> (approval_error + approval_request) \<times> 's" where
  "decide ops now tenant_id approval_id decision decided_by decided_by_role s =
     (case approval_get ops now tenant_id approval_id s of
        (Inl e, s1) \<Rightarrow> (Inl e, s1)
      | (Inr r, s1) \<Rightarrow>
         if ap_status r = AP_EXPIRED then (Inl (ApprovalError ''APPROVAL_EXPIRED''), s1)
         else if ap_status r \<noteq> AP_PENDING then (Inl (ApprovalError ''APPROVAL_ALREADY_DECIDED''), s1)
         else if ap_side_effect r = HIGH_RISK \<and> decided_by = ap_requested_by r
         then (Inl (ApprovalError ''APPROVAL_SELF_DENIED''), s1)
         else if ap_side_effect r = HIGH_RISK \<and> decided_by_role \<notin> APPROVER_ROLES
         then (Inl (ApprovalError ''APPROVER_ROLE_REQUIRED''), s1)
         else if ap_side_effect r \<noteq> HIGH_RISK \<and> decided_by_role \<notin> SELF_SERVICE_ROLES \<union> APPROVER_ROLES
         then (Inl (ApprovalError ''APPROVER_ROLE_REQUIRED''), s1)
         else (case op_transition ops s1 tenant_id approval_id [AP_PENDING]
                      (if decision = APPROVE then AP_APPROVED else AP_DENIED) (Some decided_by) (Some now) of
                 (None, s2) \<Rightarrow> (Inl (ApprovalError ''APPROVAL_ALREADY_DECIDED''), s2)
               | (Some decided, s2) \<Rightarrow> (Inr decided, s2)))"

definition consume ::
  "'s approval_ops \<Rightarrow> timestamp \<Rightarrow> string \<Rightarrow> string \<Rightarrow> tool_intent \<Rightarrow> string \<Rightarrow> 's
   \<Rightarrow> (approval_error + approval_request) \<times> 's" where
  "consume ops now tenant_id approval_id intent release_id s =
     (case approval_get ops now tenant_id approval_id s of
        (Inl e, s1) \<Rightarrow> (Inl e, s1)
      | (Inr r, s1) \<Rightarrow>
         if ap_status r = AP_EXPIRED then (Inl (ApprovalError ''APPROVAL_EXPIRED''), s1)
         else if ap_status r \<noteq> AP_APPROVED then (Inl (ApprovalError ''APPROVAL_NOT_APPROVED''), s1)
         else if intent_of r \<noteq> intent \<or> ap_release_id r \<noteq> release_id
         then (Inl (ApprovalError ''APPROVAL_BINDING_MISMATCH''), s1)
         else (case op_transition ops s1 tenant_id approval_id [AP_APPROVED] AP_CONSUMED None None of
                 (None, s2) \<Rightarrow> (Inl (ApprovalError ''APPROVAL_NOT_APPROVED''), s2)
               | (Some consumed, s2) \<Rightarrow> (Inr consumed, s2)))"

text \<open>\<open>find_approved\<close> and \<open>find_pending\<close> differ in the status they look for.\<close>

definition find_with_status ::
  "approval_status \<Rightarrow> 's approval_ops \<Rightarrow> timestamp \<Rightarrow> string \<Rightarrow> tool_intent \<Rightarrow> 's \<Rightarrow> approval_request option \<times> 's" where
  "find_with_status status ops now tenant_id intent s =
     (case op_find_open ops s tenant_id intent [status] of
        None \<Rightarrow> (None, s)
      | Some r \<Rightarrow>
         if ap_expires_at r \<le> now then (None, op_upsert ops s (r\<lparr>ap_status := AP_EXPIRED\<rparr>))
         else (Some r, s))"

definition find_approved ::
  "'s approval_ops \<Rightarrow> timestamp \<Rightarrow> string \<Rightarrow> tool_intent \<Rightarrow> 's \<Rightarrow> approval_request option \<times> 's" where
  "find_approved = find_with_status AP_APPROVED"

definition find_pending ::
  "'s approval_ops \<Rightarrow> timestamp \<Rightarrow> string \<Rightarrow> tool_intent \<Rightarrow> 's \<Rightarrow> approval_request option \<times> 's" where
  "find_pending = find_with_status AP_PENDING"

subsection \<open>What a store promises\<close>

text \<open>The fields of a request that never change.\<close>

definition immutable :: "approval_request \<Rightarrow> approval_request" where
  "immutable r = r\<lparr>ap_status := AP_PENDING, ap_decided_by := None, ap_decided_at := None\<rparr>"

type_synonym approval_view = "string \<times> string \<Rightarrow> approval_request option"

locale approval_store =
  fixes ops :: "'s approval_ops"
    and wf :: "'s \<Rightarrow> bool"
    and view :: "'s \<Rightarrow> approval_view"
  assumes view_key: "wf s \<Longrightarrow> view s (t, i) = Some r \<Longrightarrow> ap_tenant_id r = t \<and> ap_approval_id r = i"
    and get_view: "wf s \<Longrightarrow> op_get ops s t i = view s (t, i)"
    and transition_hit: "wf s \<Longrightarrow> view s (t, i) = Some q \<Longrightarrow> ap_status q \<in> set from \<Longrightarrow>
      \<exists>s'. op_transition ops s t i from to by at = (Some (transitioned to by at q), s') \<and> wf s' \<and>
        view s' = (view s)((t, i) \<mapsto> transitioned to by at q)"
    and transition_miss: "wf s \<Longrightarrow> (\<forall>q. view s (t, i) = Some q \<longrightarrow> ap_status q \<notin> set from) \<Longrightarrow>
      op_transition ops s t i from to by at = (None, s)"
    and upsert_new: "wf s \<Longrightarrow> \<forall>t. view s (t, ap_approval_id r) = None \<Longrightarrow>
      wf (op_upsert ops s r) \<and> view (op_upsert ops s r) = (view s)((ap_tenant_id r, ap_approval_id r) \<mapsto> r)"
    and upsert_again: "wf s \<Longrightarrow> view s (ap_tenant_id r, ap_approval_id r) = Some q \<Longrightarrow> immutable r = immutable q \<Longrightarrow>
      wf (op_upsert ops s r) \<and> view (op_upsert ops s r) = (view s)((ap_tenant_id r, ap_approval_id r) \<mapsto> r)"
    and find_open_Some: "wf s \<Longrightarrow> op_find_open ops s t intent sts = Some r \<Longrightarrow>
      view s (t, ap_approval_id r) = Some r \<and> intent_of r = intent \<and> ap_status r \<in> set sts"
    and find_open_None: "wf s \<Longrightarrow> op_find_open ops s t intent sts = None \<Longrightarrow> view s (t, i) = Some r \<Longrightarrow>
      intent_of r \<noteq> intent \<or> ap_status r \<notin> set sts"

text \<open>
  The steps of the service, each a call; \<open>uuid4()\<close> gives a new request an id no request has.
  Other calls may run between the lookup and the write of a call. The writes that come late are
  steps of their own: the compare-and-swap of \<open>get\<close>, \<open>decide\<close> (after its checks on the fields that
  never change) and \<open>consume\<close> on whatever the request has become, and the snapshot that
  \<open>find_approved\<close> and \<open>find_pending\<close> write back as expired over it.
\<close>

inductive approval_step :: "'s approval_ops \<Rightarrow> ('s \<Rightarrow> approval_view) \<Rightarrow> 's \<Rightarrow> 's \<Rightarrow> bool" for ops view where
  create: "\<forall>t. view s (t, i) = None \<Longrightarrow>
    approval_create ops ttl now i tenant rel intent params se role pv s = (r, s') \<Longrightarrow> approval_step ops view s s'"
| get: "approval_get ops now t i s = (res, s') \<Longrightarrow> approval_step ops view s s'"
| decide: "decide ops now t i d by role s = (res, s') \<Longrightarrow> approval_step ops view s s'"
| consume: "consume ops now t i intent rel s = (res, s') \<Longrightarrow> approval_step ops view s s'"
| find: "st \<in> {AP_PENDING, AP_APPROVED} \<Longrightarrow> find_with_status st ops now t intent s = (res, s') \<Longrightarrow> approval_step ops view s s'"
| stale: "view s (ap_tenant_id q, ap_approval_id q) = Some q0 \<Longrightarrow> immutable q = immutable q0 \<Longrightarrow>
    approval_step ops view s (op_upsert ops s (q\<lparr>ap_status := AP_EXPIRED\<rparr>))"
| late_expire: "op_transition ops s t i [AP_PENDING, AP_APPROVED] AP_EXPIRED None None = (res, s') \<Longrightarrow> approval_step ops view s s'"
| late_decide: "view s (t, i) = Some q \<Longrightarrow> ap_side_effect q = HIGH_RISK \<longrightarrow> by \<noteq> ap_requested_by q \<Longrightarrow>
    to \<in> {AP_APPROVED, AP_DENIED} \<Longrightarrow> op_transition ops s t i [AP_PENDING] to (Some by) (Some now) = (res, s') \<Longrightarrow>
    approval_step ops view s s'"
| late_consume: "op_transition ops s t i [AP_APPROVED] AP_CONSUMED None None = (res, s') \<Longrightarrow> approval_step ops view s s'"

definition terminal :: "approval_request \<Rightarrow> bool" where
  "terminal r \<longleftrightarrow> ap_status r \<in> {AP_DENIED, AP_EXPIRED, AP_CONSUMED}"

text \<open>Separation of duties on one request.\<close>

definition duties_separated :: "approval_request \<Rightarrow> bool" where
  "duties_separated r \<longleftrightarrow> (ap_side_effect r = HIGH_RISK \<and> ap_status r \<in> {AP_APPROVED, AP_CONSUMED} \<longrightarrow>
     (\<exists>d. ap_decided_by r = Some d \<and> d \<noteq> ap_requested_by r))"

text \<open>What any number of steps may do to the requests of a store.\<close>

definition evolves :: "approval_view \<Rightarrow> approval_view \<Rightarrow> bool" where
  "evolves v v' \<longleftrightarrow> (\<forall>k.
     (\<forall>r. v k = Some r \<longrightarrow> (\<exists>r'. v' k = Some r' \<and> immutable r' = immutable r \<and>
        (terminal r \<longrightarrow> terminal r') \<and> (duties_separated r \<longrightarrow> duties_separated r'))) \<and>
     (v k = None \<longrightarrow> (\<forall>r'. v' k = Some r' \<longrightarrow> duties_separated r')))"

lemma evolves_refl [simp, intro]: "evolves v v"
  by (simp add: evolves_def)

lemma evolvesD:
  assumes "evolves v v'" "v k = Some r"
  obtains r' where "v' k = Some r'" "immutable r' = immutable r" "terminal r \<Longrightarrow> terminal r'"
    "duties_separated r \<Longrightarrow> duties_separated r'"
  using assms unfolding evolves_def by blast

lemma evolves_newD: "evolves v v' \<Longrightarrow> v k = None \<Longrightarrow> v' k = Some r' \<Longrightarrow> duties_separated r'"
  unfolding evolves_def by blast

lemma evolves_trans:
  assumes "evolves u v" "evolves v w"
  shows "evolves u w"
  unfolding evolves_def
proof (intro allI conjI impI)
  fix k r assume u: "u k = Some r"
  obtain r1 where r1: "v k = Some r1" "immutable r1 = immutable r" "terminal r \<longrightarrow> terminal r1"
    "duties_separated r \<longrightarrow> duties_separated r1" using evolvesD [OF assms(1) u] by metis
  obtain r2 where "w k = Some r2" "immutable r2 = immutable r1" "terminal r1 \<longrightarrow> terminal r2"
    "duties_separated r1 \<longrightarrow> duties_separated r2" using evolvesD [OF assms(2) r1(1)] by metis
  with r1 show "\<exists>r'. w k = Some r' \<and> immutable r' = immutable r \<and> (terminal r \<longrightarrow> terminal r') \<and>
      (duties_separated r \<longrightarrow> duties_separated r')" by auto
next
  fix k r' assume n: "u k = None" and w: "w k = Some r'"
  show "duties_separated r'"
  proof (cases "v k")
    case None
    then show ?thesis using evolves_newD [OF assms(2)] w by blast
  next
    case (Some r1)
    then have "duties_separated r1" using evolves_newD [OF assms(1) n] by blast
    with assms(2) Some w show ?thesis by (metis evolvesD option.inject)
  qed
qed

lemma evolves_update:
  assumes "v k = Some r" "immutable r' = immutable r" "terminal r \<Longrightarrow> terminal r'"
    "duties_separated r \<Longrightarrow> duties_separated r'"
  shows "evolves v (v(k \<mapsto> r'))"
  using assms by (auto simp: evolves_def)

lemma evolves_new: "v k = None \<Longrightarrow> ap_status r = AP_PENDING \<Longrightarrow> evolves v (v(k \<mapsto> r))"
  by (auto simp: evolves_def duties_separated_def)

lemma immutable_transitioned [simp]: "immutable (transitioned to by at r) = immutable r"
  by (simp add: immutable_def transitioned_def)

lemma immutable_status [simp]: "immutable (r\<lparr>ap_status := x\<rparr>) = immutable r"
  by (simp add: immutable_def)

lemma transitioned_simps [simp]:
  "ap_status (transitioned to by at r) = to"
  "ap_side_effect (transitioned to by at r) = ap_side_effect r"
  "ap_requested_by (transitioned to by at r) = ap_requested_by r"
  "ap_release_id (transitioned to by at r) = ap_release_id r"
  "intent_of (transitioned to by at r) = intent_of r"
  "ap_decided_by (transitioned to by at r) = (case by of None \<Rightarrow> ap_decided_by r | Some d \<Rightarrow> Some d)"
  by (simp_all add: transitioned_def intent_of_def)

context approval_store
begin

lemma get_evolves:
  assumes "wf s" "approval_get ops now t i s = (res, s')"
  shows "wf s' \<and> evolves (view s) (view s') \<and>
    (case res of Inl _ \<Rightarrow> view s (t, i) = None \<and> s' = s
     | Inr r \<Rightarrow> view s' (t, i) = Some r \<and>
        (ap_status r \<noteq> AP_EXPIRED \<longrightarrow> s' = s \<and> (ap_status r \<in> {AP_PENDING, AP_APPROVED} \<longrightarrow> now < ap_expires_at r)))"
proof (cases "view s (t, i)")
  case None
  then show ?thesis using assms get_view by (auto simp: approval_get_def)
next
  case (Some q)
  show ?thesis
  proof (cases "ap_status q \<in> {AP_PENDING, AP_APPROVED} \<and> ap_expires_at q \<le> now")
    case True
    with Some assms(1) obtain s1 where tr: "op_transition ops s t i [AP_PENDING, AP_APPROVED] AP_EXPIRED None None =
        (Some (transitioned AP_EXPIRED None None q), s1)" "wf s1"
        "view s1 = (view s)((t, i) \<mapsto> transitioned AP_EXPIRED None None q)"
      using transition_hit [of s t i q "[AP_PENDING, AP_APPROVED]" AP_EXPIRED None None] by auto
    have "evolves (view s) (view s1)"
      unfolding tr(3) using Some True by (intro evolves_update) (auto simp: terminal_def duties_separated_def)
    then show ?thesis using assms get_view [OF assms(1)] Some True tr by (auto simp: approval_get_def)
  next
    case False
    then show ?thesis using assms get_view [OF assms(1)] Some by (auto simp: approval_get_def not_le)
  qed
qed

lemma consume_evolves:
  assumes "wf s" "consume ops now t i intent rel s = (res, s')"
  shows "wf s' \<and> evolves (view s) (view s') \<and>
    (case res of Inl _ \<Rightarrow> True
     | Inr r \<Rightarrow> \<exists>q. view s (t, i) = Some q \<and> ap_status q = AP_APPROVED \<and> intent_of q = intent \<and>
         ap_release_id q = rel \<and> now < ap_expires_at q \<and> r = transitioned AP_CONSUMED None None q \<and>
         view s' = (view s)((t, i) \<mapsto> r))"
proof -
  obtain g s1 where g: "approval_get ops now t i s = (g, s1)" by fastforce
  note ge = get_evolves [OF assms(1) g]
  show ?thesis
  proof (cases g)
    case (Inl e)
    then show ?thesis using assms g ge by (auto simp: consume_def)
  next
    case (Inr r)
    show ?thesis
    proof (cases "ap_status r = AP_APPROVED \<and> intent_of r = intent \<and> ap_release_id r = rel")
      case True
      then have s1: "s1 = s" "now < ap_expires_at r" "view s (t, i) = Some r" using ge Inr by auto
      obtain s2 where tr: "op_transition ops s t i [AP_APPROVED] AP_CONSUMED None None =
          (Some (transitioned AP_CONSUMED None None r), s2)" "wf s2"
          "view s2 = (view s)((t, i) \<mapsto> transitioned AP_CONSUMED None None r)"
        using transition_hit [OF assms(1) s1(3), of "[AP_APPROVED]" AP_CONSUMED None None] True by auto
      have "evolves (view s) (view s2)"
        unfolding tr(3) using s1(3) True by (intro evolves_update) (auto simp: terminal_def duties_separated_def)
      then show ?thesis using assms g Inr True s1 tr by (auto simp: consume_def)
    next
      case False
      then show ?thesis using assms g Inr ge by (auto simp: consume_def split: if_splits)
    qed
  qed
qed

lemma transition_evolves:
  assumes "wf s" "op_transition ops s t i from to by at = (res, s')"
    and ok: "\<And>q. view s (t, i) = Some q \<Longrightarrow> ap_status q \<in> set from \<Longrightarrow> \<not> terminal q \<and>
      (duties_separated q \<longrightarrow> duties_separated (transitioned to by at q))"
  shows "wf s' \<and> evolves (view s) (view s')"
proof (cases "\<exists>q. view s (t, i) = Some q \<and> ap_status q \<in> set from")
  case True
  then obtain q where q: "view s (t, i) = Some q" "ap_status q \<in> set from" by blast
  have "evolves (view s) ((view s)((t, i) \<mapsto> transitioned to by at q))"
    using ok [OF q] by (intro evolves_update [where r = q]) (auto simp: q(1))
  then show ?thesis using transition_hit [OF assms(1) q, of to "by" at] assms(2) by auto
next
  case False
  then show ?thesis using transition_miss [OF assms(1), of t i "from" to "by" at] assms(1,2) by auto
qed

lemma decide_evolves:
  assumes "wf s" "decide ops now t i d by role s = (res, s')"
  shows "wf s' \<and> evolves (view s) (view s')"
proof -
  obtain g s1 where g: "approval_get ops now t i s = (g, s1)" by fastforce
  note ge = get_evolves [OF assms(1) g]
  show ?thesis
  proof (cases "\<exists>r. g = Inr r \<and> ap_status r = AP_PENDING \<and> (ap_side_effect r = HIGH_RISK \<longrightarrow> by \<noteq> ap_requested_by r)")
    case True
    then obtain r where r: "g = Inr r" "ap_status r = AP_PENDING" "ap_side_effect r = HIGH_RISK \<longrightarrow> by \<noteq> ap_requested_by r"
      by blast
    obtain o2 s2 where tr: "op_transition ops s1 t i [AP_PENDING]
        (if d = APPROVE then AP_APPROVED else AP_DENIED) (Some by) (Some now) = (o2, s2)" by fastforce
    have "wf s2 \<and> evolves (view s1) (view s2)"
      using transition_evolves [OF _ tr] ge r by (auto simp: terminal_def duties_separated_def)
    moreover have "s' = s1 \<or> s' = s2"
      using assms(2) g r tr by (auto simp: decide_def split: if_splits option.splits)
    ultimately show ?thesis using ge evolves_trans by blast
  next
    case False
    then have "s' = s1" using assms(2) g by (auto simp: decide_def split: if_splits sum.splits)
    then show ?thesis using ge by simp
  qed
qed

lemma stale_evolves:
  assumes "wf s" "view s (ap_tenant_id q, ap_approval_id q) = Some q0" "immutable q = immutable q0"
  shows "wf (op_upsert ops s (q\<lparr>ap_status := AP_EXPIRED\<rparr>)) \<and> evolves (view s) (view (op_upsert ops s (q\<lparr>ap_status := AP_EXPIRED\<rparr>)))"
proof -
  have "evolves (view s) ((view s)((ap_tenant_id q, ap_approval_id q) \<mapsto> q\<lparr>ap_status := AP_EXPIRED\<rparr>))"
    using assms(2,3) by (intro evolves_update) (auto simp: terminal_def duties_separated_def)
  then show ?thesis using upsert_again [of s "q\<lparr>ap_status := AP_EXPIRED\<rparr>" q0] assms by auto
qed

lemma find_evolves:
  assumes "wf s" "find_with_status st ops now t intent s = (res, s')"
  shows "wf s' \<and> evolves (view s) (view s')"
proof (cases "op_find_open ops s t intent [st]")
  case None
  then show ?thesis using assms by (auto simp: find_with_status_def)
next
  case (Some r)
  note fo = find_open_Some [OF assms(1) Some]
  then have "ap_tenant_id r = t" using view_key [OF assms(1)] by blast
  then have "wf (op_upsert ops s (r\<lparr>ap_status := AP_EXPIRED\<rparr>)) \<and> evolves (view s) (view (op_upsert ops s (r\<lparr>ap_status := AP_EXPIRED\<rparr>)))"
    using stale_evolves [OF assms(1), of r r] fo by auto
  then show ?thesis using Some assms by (auto simp: find_with_status_def split: if_splits)
qed

lemma create_evolves:
  assumes "wf s" "\<forall>t. view s (t, i) = None" "approval_create ops ttl now i tenant rel intent params se role pv s = (r, s')"
  shows "wf s' \<and> evolves (view s) (view s') \<and> view s' = (view s)((tenant, i) \<mapsto> r) \<and> ap_status r = AP_PENDING"
proof -
  have r: "ap_approval_id r = i" "ap_tenant_id r = tenant" "ap_status r = AP_PENDING" "s' = op_upsert ops s r"
    using assms(3) by (auto simp: approval_create_def Let_def)
  then show ?thesis using upsert_new [OF assms(1), of r] assms(2) evolves_new by auto
qed

lemma step_evolves:
  assumes "approval_step ops view s s'" "wf s"
  shows "wf s' \<and> evolves (view s) (view s')"
  using assms
proof (cases rule: approval_step.cases)
  case create
  then show ?thesis using create_evolves assms(2) by blast
next
  case get
  then show ?thesis using get_evolves assms(2) by blast
next
  case decide
  then show ?thesis using decide_evolves assms(2) by blast
next
  case consume
  then show ?thesis using consume_evolves assms(2) by blast
next
  case find
  then show ?thesis using find_evolves assms(2) by blast
next
  case stale
  then show ?thesis using stale_evolves assms(2) by blast
next
  case late_expire
  then show ?thesis by (intro transition_evolves [OF assms(2)]) (auto simp: terminal_def duties_separated_def)
next
  case late_decide
  then show ?thesis by (intro transition_evolves [OF assms(2) late_decide(4)]) (auto simp: terminal_def duties_separated_def)
next
  case late_consume
  then show ?thesis by (intro transition_evolves [OF assms(2)]) (auto simp: terminal_def duties_separated_def)
qed

lemma steps_evolve:
  assumes "(approval_step ops view)\<^sup>*\<^sup>* s s'" "wf s"
  shows "wf s' \<and> evolves (view s) (view s')"
  using assms by (induction rule: rtranclp_induct) (auto dest: step_evolves intro: evolves_trans)

lemma terminal_not_consumed:
  assumes "wf s" "view s (t, i) = Some q" "terminal q"
  shows "\<not> is_ok (fst (consume ops now t i intent rel s))"
proof -
  obtain res s' where c: "consume ops now t i intent rel s = (res, s')" by fastforce
  then show ?thesis using consume_evolves [OF assms(1) c] assms(2,3) by (cases res) (auto simp: terminal_def)
qed

lemma consumed_once:
  assumes "wf s" "consume ops now t i intent rel s = (Inr r, s1)" "(approval_step ops view)\<^sup>*\<^sup>* s1 s2"
  shows "\<not> is_ok (fst (consume ops now' t i intent' rel' s2))"
proof -
  have s1: "wf s1" "\<exists>q. view s1 (t, i) = Some q \<and> terminal q"
    using consume_evolves [OF assms(1,2)] by (auto simp: terminal_def)
  then obtain q where q: "wf s1" "view s1 (t, i) = Some q" "terminal q" by blast
  have s2: "wf s2" "evolves (view s1) (view s2)" using steps_evolve [OF assms(3) q(1)] by auto
  obtain q' where "view s2 (t, i) = Some q'" "terminal q'" using evolvesD [OF s2(2) q(2)] q(3) by metis
  then show ?thesis using terminal_not_consumed [OF s2(1)] by blast
qed

lemma consumed_binding:
  assumes "wf s0" "\<forall>k r. view s0 k = Some r \<longrightarrow> duties_separated r" "(approval_step ops view)\<^sup>*\<^sup>* s0 s"
    and "consume ops now t i intent rel s = (Inr r, s1)"
  shows "intent_of r = intent \<and> ap_release_id r = rel \<and> ap_tenant_id r = t \<and> now < ap_expires_at r \<and>
    (ap_side_effect r = HIGH_RISK \<longrightarrow> (\<exists>d. ap_decided_by r = Some d \<and> d \<noteq> in_requested_by intent))"
proof -
  have s: "wf s" "evolves (view s0) (view s)" using steps_evolve [OF assms(3,1)] by auto
  obtain q where q: "view s (t, i) = Some q" "ap_status q = AP_APPROVED" "intent_of q = intent" "ap_release_id q = rel"
    "now < ap_expires_at q" "r = transitioned AP_CONSUMED None None q"
    using consume_evolves [OF s(1) assms(4)] by auto
  have "duties_separated q"
    using s(2) q(1) assms(2) evolves_newD by (cases "view s0 (t, i)") (metis evolvesD option.inject)+
  then show ?thesis using q view_key [OF s(1) q(1)] by (auto simp: duties_separated_def transitioned_def intent_of_def)
qed

end

subsection \<open>The two stores keep the promise\<close>

definition memory_view :: "memory_approvals \<Rightarrow> approval_view" where
  "memory_view s = (\<lambda>(t, i). memory_get s t i)"

definition db_view :: "approval_table \<Rightarrow> approval_view" where
  "db_view s = (\<lambda>(t, i). db_get s t i)"

lemma row_of_replace:
  assumes "key r' = k"
  shows "row_of key j (update_where (\<lambda>q. key q = k) (\<lambda>_. r') s) =
    (if j = k then (if has_key key k s then Some r' else None) else row_of key j s)"
  using assms by (induction s) (auto simp: row_of_Cons update_where_Cons has_key_def)

lemma unique_replace:
  assumes "key r' = k"
  shows "unique_key key (update_where (\<lambda>q. key q = k) (\<lambda>_. r') s) = unique_key key s"
proof -
  have "map key (update_where (\<lambda>q. key q = k) (\<lambda>_. r') s) = map key s"
    using assms by (induction s) (auto simp: update_where_Cons)
  then show ?thesis by (simp add: unique_key_def)
qed

lemma transitioned_keys [simp]:
  "ap_approval_id (transitioned to by at r) = ap_approval_id r"
  "ap_tenant_id (transitioned to by at r) = ap_tenant_id r"
  "approval_key (transitioned to by at r) = approval_key r"
  by (simp_all add: transitioned_def approval_key_def)

lemma memory_get_Some: "memory_get s t i = Some r \<Longrightarrow>
    row_of ap_approval_id i s = Some r \<and> ap_tenant_id r = t \<and> ap_approval_id r = i \<and> r \<in> set s"
  by (auto simp: memory_get_def split: option.splits if_splits dest: row_of_SomeD)

lemma memory_replace_view:
  assumes "memory_get s (ap_tenant_id r) (ap_approval_id r) = Some q"
  shows "memory_view (update_where (\<lambda>q. ap_approval_id q = ap_approval_id r) (\<lambda>_. r) s) =
    (memory_view s)((ap_tenant_id r, ap_approval_id r) \<mapsto> r)"
proof (rule ext, clarify)
  fix t i
  have "has_key ap_approval_id (ap_approval_id r) s"
    using memory_get_Some [OF assms] by (metis row_of_None_iff option.distinct(1))
  then show "memory_view (update_where (\<lambda>q. ap_approval_id q = ap_approval_id r) (\<lambda>_. r) s) (t, i) =
      ((memory_view s)((ap_tenant_id r, ap_approval_id r) \<mapsto> r)) (t, i)"
    using memory_get_Some [OF assms] by (auto simp: memory_view_def memory_get_def row_of_replace)
qed

lemma memory_wf_find:
  assumes "unique_key ap_approval_id s" "r \<in> set s" "ap_tenant_id r = t"
  shows "memory_get s t (ap_approval_id r) = Some r"
  using assms by (simp add: memory_get_def row_of_unique)

lemma memory_append_view:
  assumes "\<not> has_key ap_approval_id (ap_approval_id r) s"
  shows "memory_view (s @ [r]) = (memory_view s)((ap_tenant_id r, ap_approval_id r) \<mapsto> r)"
proof (rule ext, clarify)
  fix t i
  show "memory_view (s @ [r]) (t, i) = ((memory_view s)((ap_tenant_id r, ap_approval_id r) \<mapsto> r)) (t, i)"
  proof (cases "ap_approval_id r = i")
    case True
    then have "row_of ap_approval_id i s = None" using assms by (simp add: row_of_None_iff)
    then show ?thesis using True by (auto simp: memory_view_def memory_get_def row_of_append)
  next
    case False
    then have "row_of ap_approval_id i (s @ [r]) = row_of ap_approval_id i s" by (simp add: row_of_append split: option.split)
    then show ?thesis using False by (auto simp: memory_view_def memory_get_def)
  qed
qed

interpretation mem: approval_store memory_ops "unique_key ap_approval_id" memory_view
proof (unfold_locales, goal_cases)
  case (1 s t i r) then show ?case using memory_get_Some by (auto simp: memory_view_def)
next
  case (2 s t i) then show ?case by (simp add: memory_view_def memory_ops_def)
next
  case (3 s t i q sts to "by" at)
  then have g: "memory_get s t i = Some q" by (simp add: memory_view_def)
  note k = memory_get_Some [OF g]
  show ?case
    using 3 g k memory_replace_view [of s "transitioned to by at q" q] unique_replace [of ap_approval_id "transitioned to by at q" i s]
    by (auto simp: memory_ops_def memory_transition_def Let_def)
next
  case (4 s t i sts to "by" at) then show ?case
    by (auto simp: memory_view_def memory_ops_def memory_transition_def split: option.splits)
next
  case (5 s r)
  then have "\<not> has_key ap_approval_id (ap_approval_id r) s"
    using memory_wf_find [OF 5(1)] 5(2) unfolding memory_view_def has_key_def by fastforce
  then show ?case using 5(1) memory_append_view [of r s] by (simp add: memory_ops_def memory_upsert_def unique_key_append)
next
  case (6 s r q)
  then have g: "memory_get s (ap_tenant_id r) (ap_approval_id r) = Some q" by (simp add: memory_view_def)
  then have "has_key ap_approval_id (ap_approval_id r) s"
    using memory_get_Some [OF g] by (metis row_of_None_iff option.distinct(1))
  then show ?case using 6(1) memory_replace_view [OF g] unique_replace [of ap_approval_id r "ap_approval_id r" s]
    by (simp add: memory_ops_def memory_upsert_def)
next
  case (7 s t intent sts r) then show ?case
    using memory_wf_find [OF 7(1)] find_SomeD by (fastforce simp: memory_ops_def memory_find_open_def memory_view_def)
next
  case (8 s t intent sts i r)
  then have "r \<in> set s \<and> ap_tenant_id r = t" using memory_get_Some by (auto simp: memory_view_def)
  then show ?case using 8(2) by (auto simp: memory_ops_def memory_find_open_def find_None_set)
qed

lemma db_get_Some: "db_get s t i = Some r \<Longrightarrow> ap_tenant_id r = t \<and> ap_approval_id r = i \<and> r \<in> set s"
  by (auto simp: db_get_def approval_key_def dest!: row_of_SomeD)

lemma db_wf_find: "unique_key approval_key s \<Longrightarrow> r \<in> set s \<Longrightarrow> db_get s (ap_tenant_id r) (ap_approval_id r) = Some r"
  unfolding db_get_def using row_of_unique [of approval_key s r] by (simp add: approval_key_def)

lemma db_find_open_in:
  assumes "db_find_open s t intent sts = Some r"
  shows "r \<in> set s \<and> ap_tenant_id r = t \<and> intent_of r = intent \<and> ap_status r \<in> set sts"
proof -
  let ?xs = "sort_key (\<lambda>r. - ap_requested_at r)
    (filter (\<lambda>r. ap_tenant_id r = t \<and> intent_of r = intent \<and> ap_status r \<in> set sts) s)"
  obtain ys where "?xs = r # ys" using assms by (auto simp: db_find_open_def split: list.splits)
  then have "r \<in> set ?xs" by (metis list.set_intros(1))
  then show ?thesis by simp
qed

lemma db_find_open_none:
  assumes "db_find_open s t intent sts = None" "r \<in> set s" "ap_tenant_id r = t"
  shows "intent_of r \<noteq> intent \<or> ap_status r \<notin> set sts"
proof -
  let ?xs = "sort_key (\<lambda>r. - ap_requested_at r)
    (filter (\<lambda>r. ap_tenant_id r = t \<and> intent_of r = intent \<and> ap_status r \<in> set sts) s)"
  have "?xs = []" using assms by (simp add: db_find_open_def split: list.splits)
  then have "set ?xs = {}" by (metis list.set(1))
  then show ?thesis using assms(2,3) by auto
qed

lemma find_unique:
  assumes "unique_key key s" "row_of key k s = Some q" "P q"
  shows "find (\<lambda>r. key r = k \<and> P r) s = Some q"
  using assms by (induction s) (auto simp: row_of_Cons unique_key_def has_key_def split: if_splits)

interpretation dbs: approval_store db_ops "unique_key approval_key" db_view
proof (unfold_locales, goal_cases)
  case (1 s t i r) then show ?case using db_get_Some by (auto simp: db_view_def)
next
  case (2 s t i) then show ?case by (simp add: db_view_def db_ops_def)
next
  case (3 s t i q sts to "by" at)
  then have g: "row_of approval_key (t, i) s = Some q" by (simp add: db_view_def db_get_def)
  have f: "find (\<lambda>r. approval_key r = (t, i) \<and> ap_status r \<in> set sts) s = Some q"
    using find_unique [OF 3(1) g, where P = "\<lambda>r. ap_status r \<in> set sts"] 3(3) by simp
  let ?hit = "\<lambda>r. approval_key r = (t, i) \<and> ap_status r \<in> set sts"
  have "row_of approval_key k (update_where ?hit (transitioned to by at) s) =
      (if k = (t, i) then Some (transitioned to by at q) else row_of approval_key k s)" for k
    using g 3(3) row_of_SomeD [of approval_key k s] row_of_SomeD [OF g]
    by (cases "row_of approval_key k s") (auto simp: row_of_update_where)
  then have "db_view (update_where ?hit (transitioned to by at) s) = (db_view s)((t, i) \<mapsto> transitioned to by at q)"
    by (auto simp: db_view_def db_get_def fun_eq_iff)
  then show ?case using 3(1) f by (simp add: db_ops_def db_transition_def unique_key_update_where)
next
  case (4 s t i sts to "by" at)
  then have "\<not> (approval_key r = (t, i) \<and> ap_status r \<in> set sts)" if "r \<in> set s" for r
    using db_wf_find [OF 4(1) that] by (auto simp: db_view_def approval_key_def)
  then show ?case by (simp add: db_ops_def db_transition_def update_where_none find_None_set)
next
  case (5 s r)
  then have n: "\<not> has_key approval_key (approval_key r) s"
    unfolding db_view_def db_get_def by (simp add: approval_key_def row_of_None_iff)
  then have "row_of approval_key k (s @ [r]) = (if k = approval_key r then Some r else row_of approval_key k s)" for k
    by (auto simp: row_of_append row_of_None_iff [symmetric] split: option.split)
  then have "db_view (s @ [r]) = (db_view s)(approval_key r \<mapsto> r)" by (auto simp: db_view_def db_get_def fun_eq_iff)
  then show ?case using 5(1) n by (simp add: db_ops_def db_upsert_def unique_key_append approval_key_def)
next
  case (6 s r q)
  then have g: "row_of approval_key (approval_key r) s = Some q" by (simp add: db_view_def db_get_def approval_key_def)
  then have k: "has_key approval_key (approval_key r) s" by (metis row_of_None_iff option.distinct(1))
  let ?f = "\<lambda>q. q\<lparr>ap_status := ap_status r, ap_decided_by := ap_decided_by r, ap_decided_at := ap_decided_at r\<rparr>"
  have key: "approval_key (?f x) = approval_key x" for x by (simp add: approval_key_def)
  have "?f q = ?f (immutable q)" by (simp add: immutable_def)
  also have "\<dots> = ?f (immutable r)" using 6(3) by simp
  also have "\<dots> = r" by (simp add: immutable_def)
  finally have r: "?f q = r" .
  have "db_view (db_upsert s r) kk = ((db_view s)(approval_key r \<mapsto> r)) kk" for kk
  proof (cases "row_of approval_key kk s")
    case None
    then show ?thesis using g k key
      by (auto simp: db_upsert_def db_view_def db_get_def row_of_update_where split: prod.splits)
  next
    case (Some x)
    then have "approval_key x = kk" using row_of_SomeD by fast
    then show ?thesis using g k key r Some
      by (auto simp: db_upsert_def db_view_def db_get_def row_of_update_where split: prod.splits)
  qed
  then have "db_view (db_upsert s r) = (db_view s)(approval_key r \<mapsto> r)" by blast
  moreover have "unique_key approval_key (db_upsert s r)"
    using 6(1) k key by (simp add: db_upsert_def unique_key_update_where)
  ultimately show ?case by (simp add: db_ops_def approval_key_def)
next
  case (7 s t intent sts r) then show ?case
    using db_find_open_in [of s t intent sts r] db_wf_find [OF 7(1)] by (auto simp: db_ops_def db_view_def)
next
  case (8 s t intent sts i r)
  then show ?case using db_get_Some [of s t i r] db_find_open_none by (auto simp: db_ops_def db_view_def)
qed

subsection \<open>Properties\<close>


definition sample_intent :: tool_intent where
  "sample_intent = \<lparr>in_tool_name = ''pay'', in_tool_version = 1, in_params_hash = ''h'', in_requested_by = ''dev''\<rparr>"

definition pending_table :: approval_table where
  "pending_table = snd (approval_create db_ops 900 0 ''a1'' ''t1'' ''r1'' sample_intent [] HIGH_RISK ''AGENT_DEVELOPER'' ''p1'' [])"

definition approved_table :: approval_table where
  "approved_table = snd (decide db_ops 1 ''t1'' ''a1'' APPROVE ''boss'' ''TENANT_ADMIN'' pending_table)"

definition consumed_table :: approval_table where
  "consumed_table = snd (consume db_ops 2 ''t1'' ''a1'' sample_intent ''r1'' approved_table)"

lemmas sample_approval_defs = consumed_table_def approved_table_def pending_table_def

lemma sample_consume:
  "\<exists>r. consume db_ops 2 ''t1'' ''a1'' sample_intent ''r1'' approved_table = (Inr r, consumed_table) \<and>
     ap_decided_by r = Some ''boss'' \<and> ap_side_effect r = HIGH_RISK"
proof -
  have "is_ok (fst (consume db_ops 2 ''t1'' ''a1'' sample_intent ''r1'' approved_table)) \<and>
      ap_decided_by (projr (fst (consume db_ops 2 ''t1'' ''a1'' sample_intent ''r1'' approved_table))) = Some ''boss'' \<and>
      ap_side_effect (projr (fst (consume db_ops 2 ''t1'' ''a1'' sample_intent ''r1'' approved_table))) = HIGH_RISK"
    by code_simp
  then show ?thesis unfolding consumed_table_def
    by (cases "consume db_ops 2 ''t1'' ''a1'' sample_intent ''r1'' approved_table") (auto simp: is_ok_def split: sum.splits)
qed


text \<open>
  C14: what a consumed approval vouches for. In every store state reached from one without requests,
  a \<open>consume\<close> that succeeds returns a request of that tenant for exactly the given tool, version,
  parameters hash, requesting subject and release, not expired; and if the tool is HIGH_RISK, a
  subject other than the requester approved it.
\<close>

theorem consumed_approval_binding:
  assumes "(approval_step db_ops db_view)\<^sup>*\<^sup>* [] s"
    and "consume db_ops now t i intent rel s = (Inr r, s1)"
  shows "intent_of r = intent \<and> ap_release_id r = rel \<and> ap_tenant_id r = t \<and> now < ap_expires_at r \<and>
    (ap_side_effect r = HIGH_RISK \<longrightarrow> (\<exists>d. ap_decided_by r = Some d \<and> d \<noteq> in_requested_by intent))"
  by (rule dbs.consumed_binding [OF _ _ assms]) (simp_all add: db_view_def db_get_def)

theorem consumed_approval_binding_witness:
  "\<exists>r. consume db_ops 2 ''t1'' ''a1'' sample_intent ''r1'' approved_table = (Inr r, consumed_table) \<and>
     (\<exists>d. ap_decided_by r = Some d \<and> d \<noteq> ''dev'')"
proof -
  have "approval_step db_ops db_view [] pending_table"
    unfolding pending_table_def by (rule approval_step.create [OF _ surjective_pairing]) (simp add: db_view_def db_get_def)
  moreover have "approval_step db_ops db_view pending_table approved_table"
    unfolding approved_table_def by (rule approval_step.decide [OF surjective_pairing])
  ultimately have reach: "(approval_step db_ops db_view)\<^sup>*\<^sup>* [] approved_table" by (meson r_into_rtranclp rtranclp_trans)
  obtain r where r: "consume db_ops 2 ''t1'' ''a1'' sample_intent ''r1'' approved_table = (Inr r, consumed_table)"
    "ap_side_effect r = HIGH_RISK" using sample_consume by blast
  then show ?thesis using consumed_approval_binding [OF reach r(1)] by (auto simp: sample_intent_def)
qed

text \<open>The in-memory store gives the same two guarantees.\<close>

lemma memory_consumed_once:
  assumes "unique_key ap_approval_id s"
    and "consume memory_ops now t i intent rel s = (Inr r, s1)"
    and "(approval_step memory_ops memory_view)\<^sup>*\<^sup>* s1 s2"
  shows "\<not> is_ok (fst (consume memory_ops now' t i intent' rel' s2))"
  by (rule mem.consumed_once [OF assms])

lemma memory_consumed_binding:
  assumes "(approval_step memory_ops memory_view)\<^sup>*\<^sup>* [] s"
    and "consume memory_ops now t i intent rel s = (Inr r, s1)"
  shows "intent_of r = intent \<and> ap_release_id r = rel \<and> ap_tenant_id r = t \<and> now < ap_expires_at r \<and>
    (ap_side_effect r = HIGH_RISK \<longrightarrow> (\<exists>d. ap_decided_by r = Some d \<and> d \<noteq> in_requested_by intent))"
  by (rule mem.consumed_binding [OF _ _ assms]) (simp_all add: memory_view_def memory_get_def)

end
