(* ===== verification/Tool_Registry.thy ===== *)
theory Tool_Registry
  imports Approvals Governance
begin

text \<open>
  Versioned tool definitions: \<open>trpc_service/tool/registry.py\<close> with its in-memory registry, and the
  database registry of \<open>trpc_service/tool/store.py\<close> on \<open>tenant.tool_definition\<close> (migration 0013).
  The promise both give to the executor is the locale \<open>tool_registry\<close>.
\<close>

datatype tool_source = DECLARED | MCP

definition AUTO_EXECUTABLE_SIDE_EFFECTS :: "side_effect set" where
  "AUTO_EXECUTABLE_SIDE_EFFECTS = {READ_ONLY, IDEMPOTENT_WRITE}"

record tool_definition =
  td_tenant_id :: string
  td_name :: string
  td_version :: int
  td_description :: string
  td_side_effect :: side_effect
  td_input_schema :: "(string \<times> json) list"
  td_output_schema :: "(string \<times> json) list"
  td_scopes :: "string list"
  td_timeout_seconds :: int
  td_cost_per_call_micros :: int
  td_data_classification :: data_classification
  td_supports_idempotency :: bool
  td_source :: tool_source
  td_mcp_server :: "string option"

text \<open>
  The exceptions of the tool code: \<open>ToolInvocationError\<close> with its code and the approval id of its
  details, \<open>ToolDefinitionConflict\<close>, \<open>ValueError\<close>, those of the approval service and the database,
  and the \<open>TypeError\<close> or \<open>AttributeError\<close> of a schema that is not shaped as the code expects.
\<close>

datatype tool_error =
    ToolInvocationError string "string option"
  | ToolDefinitionConflict
  | ToolValueError
  | ToolApprovalError approval_error
  | ToolSqlError sql_error
  | PyTypeError
  | PyAttributeError

definition canonical_params_json :: "(string \<times> json) list \<Rightarrow> string" where
  "canonical_params_json params = canonical_dumps (JDict params)"

definition canonical_params_hash :: "(string \<times> json) list \<Rightarrow> string" where
  "canonical_params_hash params = sha256_hex (canonical_params_json params)"

definition check_schema_shape :: "(string \<times> json) list \<Rightarrow> bool" where
  "check_schema_shape schema \<longleftrightarrow>
     dict_get schema ''type'' = Some (JStr ''object'') \<and>
     (case dict_get schema ''properties'' of None \<Rightarrow> True | Some (JDict _) \<Rightarrow> True | Some _ \<Rightarrow> False)"

subsection \<open>Parameter validation\<close>

text \<open>\<open>isinstance(value, _JSON_TYPES.get(expected, (object,)))\<close>; a bool is an int.\<close>

definition json_isinstance :: "json \<Rightarrow> string \<Rightarrow> bool" where
  "json_isinstance value expected =
     (if expected = ''string'' then (case value of JStr _ \<Rightarrow> True | _ \<Rightarrow> False)
      else if expected = ''number'' then (case value of JInt _ \<Rightarrow> True | JFloat _ \<Rightarrow> True | JBool _ \<Rightarrow> True | _ \<Rightarrow> False)
      else if expected = ''integer'' then (case value of JInt _ \<Rightarrow> True | JBool _ \<Rightarrow> True | _ \<Rightarrow> False)
      else if expected = ''boolean'' then (case value of JBool _ \<Rightarrow> True | _ \<Rightarrow> False)
      else if expected = ''array'' then (case value of JList _ \<Rightarrow> True | _ \<Rightarrow> False)
      else if expected = ''object'' then (case value of JDict _ \<Rightarrow> True | _ \<Rightarrow> False)
      else True)"

definition is_bool :: "json \<Rightarrow> bool" where
  "is_bool v = (case v of JBool _ \<Rightarrow> True | _ \<Rightarrow> False)"

definition PARAMS_INVALID :: tool_error where
  "PARAMS_INVALID = ToolInvocationError ''TOOL_PARAMS_INVALID'' None"

text \<open>
  The type check of one parameter. \<open>properties.get(key, {}).get("type")\<close> needs a dictionary; an
  expected type that is a list or a dictionary cannot be looked up in \<open>_JSON_TYPES\<close> (unhashable).
\<close>

definition check_param :: "(string \<times> json) list \<Rightarrow> string \<times> json \<Rightarrow> tool_error option" where
  "check_param properties kv =
     (case (case dict_get properties (fst kv) of None \<Rightarrow> JDict [] | Some p \<Rightarrow> p) of
        JDict p \<Rightarrow>
         (case dict_get p ''type'' of
            None \<Rightarrow> None
          | Some JNull \<Rightarrow> None
          | Some expected \<Rightarrow>
             if is_bool (snd kv) \<and> expected \<noteq> JStr ''boolean'' then Some PARAMS_INVALID
             else (case expected of
                     JStr e \<Rightarrow> if json_isinstance (snd kv) e then None else Some PARAMS_INVALID
                   | JList _ \<Rightarrow> Some PyTypeError
                   | JDict _ \<Rightarrow> Some PyTypeError
                   | _ \<Rightarrow> None))
      | _ \<Rightarrow> Some PyAttributeError)"

fun first_error :: "('a \<Rightarrow> 'e option) \<Rightarrow> 'a list \<Rightarrow> 'e option" where
  "first_error f [] = None"
| "first_error f (x # xs) = (case f x of Some e \<Rightarrow> Some e | None \<Rightarrow> first_error f xs)"

text \<open>
  What iterating over a schema value yields (the characters of a string, the keys of a
  dictionary), and \<open>key not in params\<close> for such an item.
\<close>

definition py_iter :: "json \<Rightarrow> json list option" where
  "py_iter v = (case v of JList xs \<Rightarrow> Some xs | JStr s \<Rightarrow> Some (map (\<lambda>c. JStr [c]) s)
     | JDict kvs \<Rightarrow> Some (map (JStr \<circ> fst) kvs) | _ \<Rightarrow> None)"

definition check_required :: "(string \<times> json) list \<Rightarrow> json \<Rightarrow> tool_error option" where
  "check_required params key =
     (case key of
        JStr k \<Rightarrow> if dict_get params k = None then Some PARAMS_INVALID else None
      | JList _ \<Rightarrow> Some PyTypeError
      | JDict _ \<Rightarrow> Some PyTypeError
      | _ \<Rightarrow> Some PARAMS_INVALID)"

text \<open>
  \<open>params\<close> is a dictionary by its type. For a definition that was registered, \<open>properties\<close> is a
  dictionary too (\<open>check_schema_shape\<close>).
\<close>

definition validate_params ::
  "tool_definition \<Rightarrow> (string \<times> json) list \<Rightarrow> tool_error + (string \<times> json) list" where
  "validate_params d params =
     (case (case dict_get (td_input_schema d) ''properties'' of None \<Rightarrow> JDict [] | Some p \<Rightarrow> p) of
        JDict properties \<Rightarrow>
          if \<exists>kv \<in> set params. dict_get properties (fst kv) = None then Inl PARAMS_INVALID
          else (case py_iter (case dict_get (td_input_schema d) ''required'' of None \<Rightarrow> JList [] | Some r \<Rightarrow> r) of
                  None \<Rightarrow> Inl PyTypeError
                | Some required \<Rightarrow>
                   (case first_error (check_required params) required of
                      Some e \<Rightarrow> Inl e
                    | None \<Rightarrow>
                       (case first_error (check_param properties) params of
                          Some e \<Rightarrow> Inl e
                        | None \<Rightarrow> Inr params)))
      | _ \<Rightarrow> Inl PyTypeError)"

subsection \<open>Equality of definitions\<close>

text \<open>
  Python compares the schemas as dictionaries, whatever the order of their keys (a number and
  the equal number of another type are kept apart here).
\<close>

fun json_norm :: "json \<Rightarrow> json" where
  "json_norm (JList vs) = JList (map json_norm vs)"
| "json_norm (JDict kvs) = JDict (sort_key fst (map (\<lambda>(k, v). (k, json_norm v)) kvs))"
| "json_norm v = v"

definition norm_schema :: "(string \<times> json) list \<Rightarrow> json" where
  "norm_schema kvs = json_norm (JDict kvs)"

definition same_definition :: "tool_definition \<Rightarrow> tool_definition \<Rightarrow> bool" where
  "same_definition a b \<longleftrightarrow>
     a\<lparr>td_input_schema := [], td_output_schema := []\<rparr> = b\<lparr>td_input_schema := [], td_output_schema := []\<rparr> \<and>
     norm_schema (td_input_schema a) = norm_schema (td_input_schema b) \<and>
     norm_schema (td_output_schema a) = norm_schema (td_output_schema b)"

definition def_key :: "tool_definition \<Rightarrow> string \<times> string \<times> int" where
  "def_key d = (td_tenant_id d, td_name d, td_version d)"

definition as_mcp_tool :: "string \<Rightarrow> string \<Rightarrow> int \<Rightarrow> tool_definition \<Rightarrow> tool_definition" where
  "as_mcp_tool tenant_id server_name server_version tool =
     tool\<lparr>td_tenant_id := tenant_id, td_version := server_version, td_source := MCP, td_mcp_server := Some server_name\<rparr>"

subsection \<open>The in-memory registry\<close>

text \<open>
  A dictionary of definitions in insertion order. \<open>model_valid\<close> stands for pydantic's
  \<open>ToolDefinition.model_validate\<close>.
\<close>

definition mem_register ::
  "(tool_definition \<Rightarrow> bool) \<Rightarrow> tool_definition \<Rightarrow> tool_definition list \<Rightarrow> tool_error + (tool_definition \<times> tool_definition list)" where
  "mem_register model_valid d s =
     (if \<not> model_valid d \<or> \<not> check_schema_shape (td_input_schema d) \<or> \<not> check_schema_shape (td_output_schema d)
      then Inl ToolValueError
      else case row_of def_key (def_key d) s of
        Some existing \<Rightarrow> if same_definition existing d then Inr (existing, s) else Inl ToolDefinitionConflict
      | None \<Rightarrow> Inr (d, s @ [d]))"

text \<open>The loop keeps the tools it registered before one that raises.\<close>

fun mem_register_all ::
  "(tool_definition \<Rightarrow> bool) \<Rightarrow> tool_definition list \<Rightarrow> tool_definition list \<Rightarrow> (tool_error + nat) \<times> tool_definition list" where
  "mem_register_all model_valid [] s = (Inr 0, s)"
| "mem_register_all model_valid (d # ds) s =
     (case mem_register model_valid d s of
        Inl e \<Rightarrow> (Inl e, s)
      | Inr (_, s1) \<Rightarrow> (case mem_register_all model_valid ds s1 of (r, s2) \<Rightarrow> (map_sum id Suc r, s2)))"

definition mem_register_mcp_server ::
  "(tool_definition \<Rightarrow> bool) \<Rightarrow> string \<Rightarrow> string \<Rightarrow> int \<Rightarrow> tool_definition list \<Rightarrow> tool_definition list
   \<Rightarrow> (tool_error + nat) \<times> tool_definition list" where
  "mem_register_mcp_server model_valid tenant_id server_name server_version tools s =
     (if \<not> distinct (map td_name tools) then (Inl ToolValueError, s)
      else mem_register_all model_valid (map (as_mcp_tool tenant_id server_name server_version) tools) s)"

definition has_name :: "tool_definition list \<Rightarrow> string \<Rightarrow> bool" where
  "has_name s name = (\<exists>d \<in> set s. td_name d = name)"

text \<open>Python's \<open>max\<close> with a key: the first of the largest.\<close>

fun max_by :: "('a \<Rightarrow> int) \<Rightarrow> 'a \<Rightarrow> 'a list \<Rightarrow> 'a" where
  "max_by f best [] = best"
| "max_by f best (x # xs) = max_by f (if f best < f x then x else best) xs"

definition mem_resolve :: "tool_definition list \<Rightarrow> string \<Rightarrow> string \<Rightarrow> int option \<Rightarrow> tool_definition option" where
  "mem_resolve s tenant_id name version =
     (case version of
        Some v \<Rightarrow> row_of def_key (tenant_id, name, v) s
      | None \<Rightarrow> (case filter (\<lambda>d. td_tenant_id d = tenant_id \<and> td_name d = name) s of
                  [] \<Rightarrow> None
                | c # cs \<Rightarrow> Some (max_by td_version c cs)))"

fun collect_latest :: "string \<Rightarrow> tool_definition list \<Rightarrow> (string \<times> tool_definition) list \<Rightarrow> (string \<times> tool_definition) list" where
  "collect_latest tenant_id [] latest = latest"
| "collect_latest tenant_id (d # ds) latest =
     collect_latest tenant_id ds
       (if td_tenant_id d \<noteq> tenant_id then latest
        else case map_of latest (td_name d) of
               None \<Rightarrow> latest @ [(td_name d, d)]
             | Some current \<Rightarrow>
                if td_version current < td_version d
                then map (\<lambda>(n, c). if n = td_name d then (n, d) else (n, c)) latest
                else latest)"

definition mem_latest_definitions :: "tool_definition list \<Rightarrow> string \<Rightarrow> tool_definition list" where
  "mem_latest_definitions s tenant_id = map snd (sort_key fst (collect_latest tenant_id s []))"

subsection \<open>The database registry\<close>

definition is_lower_alpha :: "char \<Rightarrow> bool" where
  "is_lower_alpha c \<longleftrightarrow> 97 \<le> (of_char c :: nat) \<and> (of_char c :: nat) \<le> 122"

definition is_digit :: "char \<Rightarrow> bool" where
  "is_digit c \<longleftrightarrow> 48 \<le> (of_char c :: nat) \<and> (of_char c :: nat) \<le> 57"

text \<open>\<open>^[a-z][a-z0-9_]{1,63}$\<close>\<close>

definition tool_name_ok :: "string \<Rightarrow> bool" where
  "tool_name_ok s = (case s of [] \<Rightarrow> False
     | c # cs \<Rightarrow> is_lower_alpha c \<and> 1 \<le> length cs \<and> length cs \<le> 63 \<and>
        list_all (\<lambda>c. is_lower_alpha c \<or> is_digit c \<or> c = CHR ''_'') cs)"

text \<open>The checks of \<open>tenant.tool_definition\<close>; those of \<open>created_by\<close> are its length.\<close>

definition definition_row_ok :: "tool_definition \<Rightarrow> string \<Rightarrow> bool" where
  "definition_row_ok d created_by \<longleftrightarrow>
     tool_name_ok (td_name d) \<and> 1 \<le> td_version d \<and>
     1 \<le> length (td_description d) \<and> length (td_description d) \<le> 512 \<and>
     1 \<le> td_timeout_seconds d \<and> td_timeout_seconds d \<le> 600 \<and> 0 \<le> td_cost_per_call_micros d \<and>
     1 \<le> length created_by \<and> length created_by \<le> 256"

definition insert_definition :: "tool_definition \<Rightarrow> string \<Rightarrow> tool_definition list \<Rightarrow> tool_error + tool_definition list" where
  "insert_definition d created_by s =
     (if \<not> definition_row_ok d created_by then Inl (ToolSqlError IntegrityError)
      else if has_key def_key (def_key d) s then Inr s else Inr (s @ [d]))"

text \<open>The conflict is raised after the transaction has committed.\<close>

definition db_register :: "tool_definition \<Rightarrow> string \<Rightarrow> tool_definition list \<Rightarrow> (tool_error + tool_definition) \<times> tool_definition list" where
  "db_register d created_by s =
     (if \<not> check_schema_shape (td_input_schema d) \<or> \<not> check_schema_shape (td_output_schema d) then (Inl ToolValueError, s)
      else case insert_definition d created_by s of
        Inl e \<Rightarrow> (Inl e, s)
      | Inr s1 \<Rightarrow>
         (case row_of def_key (def_key d) s1 of
            None \<Rightarrow> (Inl PyTypeError, s1)
          | Some stored \<Rightarrow> (if same_definition stored d then Inr stored else Inl ToolDefinitionConflict, s1)))"

fun db_insert_all :: "tool_definition list \<Rightarrow> string \<Rightarrow> tool_definition list \<Rightarrow> tool_error + (nat \<times> tool_definition list)" where
  "db_insert_all [] created_by s = Inr (0, s)"
| "db_insert_all (d # ds) created_by s =
     (if \<not> check_schema_shape (td_input_schema d) \<or> \<not> check_schema_shape (td_output_schema d) then Inl ToolValueError
      else case insert_definition d created_by s of
        Inl e \<Rightarrow> Inl e
      | Inr s1 \<Rightarrow> (case db_insert_all ds created_by s1 of Inl e \<Rightarrow> Inl e | Inr (n, s2) \<Rightarrow> Inr (Suc n, s2)))"

definition db_register_mcp_server ::
  "string \<Rightarrow> string \<Rightarrow> int \<Rightarrow> tool_definition list \<Rightarrow> string \<Rightarrow> tool_definition list \<Rightarrow> (tool_error + nat) \<times> tool_definition list" where
  "db_register_mcp_server tenant_id server_name server_version tools created_by s =
     (case db_insert_all (map (as_mcp_tool tenant_id server_name server_version) tools) created_by s of
        Inl e \<Rightarrow> (Inl e, s)
      | Inr (n, s1) \<Rightarrow> (Inr n, s1))"

definition db_resolve :: "tool_definition list \<Rightarrow> string \<Rightarrow> string \<Rightarrow> int option \<Rightarrow> tool_definition option" where
  "db_resolve s tenant_id name version =
     (case version of
        None \<Rightarrow> (case sort_key (\<lambda>d. - td_version d) (filter (\<lambda>d. td_tenant_id d = tenant_id \<and> td_name d = name) s) of
                  [] \<Rightarrow> None | d # _ \<Rightarrow> Some d)
      | Some v \<Rightarrow> row_of def_key (tenant_id, name, v) s)"

text \<open>\<open>DISTINCT ON (name) ... ORDER BY name, version DESC\<close> (names in byte order).\<close>

function distinct_on :: "('a \<Rightarrow> 'k) \<Rightarrow> 'a list \<Rightarrow> 'a list" where
  "distinct_on f [] = []"
| "distinct_on f (x # xs) = x # distinct_on f (dropWhile (\<lambda>y. f y = f x) xs)"
  by pat_completeness auto
termination
  by (relation "measure (length \<circ> snd)") (auto simp: le_imp_less_Suc length_dropWhile_le)

definition db_latest_definitions :: "tool_definition list \<Rightarrow> string \<Rightarrow> tool_definition list" where
  "db_latest_definitions s tenant_id =
     distinct_on td_name (sort_key td_name (sort_key (\<lambda>d. - td_version d) (filter (\<lambda>d. td_tenant_id d = tenant_id) s)))"

subsection \<open>What a registry promises\<close>

locale tool_registry =
  fixes wf :: "'s \<Rightarrow> bool"
    and contents :: "'s \<Rightarrow> tool_definition set"
    and resolve :: "'s \<Rightarrow> string \<Rightarrow> string \<Rightarrow> int option \<Rightarrow> tool_definition option"
    and registration :: "'s \<Rightarrow> 's \<Rightarrow> bool"
  assumes one_per_key: "wf s \<Longrightarrow> d \<in> contents s \<Longrightarrow> e \<in> contents s \<Longrightarrow> def_key d = def_key e \<Longrightarrow> d = e"
    and contents_finite: "finite (contents s)"
    and resolve_pinned: "wf s \<Longrightarrow> resolve s t n (Some v) = Some d \<longleftrightarrow> d \<in> contents s \<and> def_key d = (t, n, v)"
    and resolve_latest: "wf s \<Longrightarrow> resolve s t n None = Some d \<longleftrightarrow> d \<in> contents s \<and> td_tenant_id d = t \<and> td_name d = n \<and>
      (\<forall>e \<in> contents s. td_tenant_id e = t \<longrightarrow> td_name e = n \<longrightarrow> td_version e \<le> td_version d)"
    and registration_grows: "wf s \<Longrightarrow> registration s s' \<Longrightarrow> wf s' \<and> contents s \<subseteq> contents s'"
begin

lemma registrations_grow: "registration\<^sup>*\<^sup>* s s' \<Longrightarrow> wf s \<Longrightarrow> wf s' \<and> contents s \<subseteq> contents s'"
proof (induction rule: rtranclp_induct)
  case (step y z)
  then show ?case using registration_grows [of y z] by blast
qed simp

lemma pinned_immutable:
  assumes "wf s" "registration\<^sup>*\<^sup>* s s'" "resolve s t n (Some v) = Some d"
  shows "resolve s' t n (Some v) = Some d"
  using assms registrations_grow resolve_pinned by blast

lemma latest_exists:
  assumes "wf s" "d \<in> contents s"
  shows "\<exists>e. resolve s (td_tenant_id d) (td_name d) None = Some e \<and> td_version d \<le> td_version e"
proof -
  let ?C = "{e \<in> contents s. td_tenant_id e = td_tenant_id d \<and> td_name e = td_name d}"
  have fin: "finite (td_version ` ?C)" and ne: "td_version ` ?C \<noteq> {}" using contents_finite assms(2) by auto
  then obtain e where e: "e \<in> ?C" "td_version e = Max (td_version ` ?C)" using Max_in [OF fin ne] by (metis (mono_tags, lifting) imageE)
  then have "td_version x \<le> td_version e" if "x \<in> ?C" for x using that fin by (simp add: Max_ge)
  then show ?thesis using e assms resolve_latest by (intro exI [of _ e]) auto
qed

lemma latest_monotone:
  assumes "wf s" "registration\<^sup>*\<^sup>* s s'" "resolve s t n v = Some d"
  shows "\<exists>e. resolve s' t n None = Some e \<and> td_version d \<le> td_version e"
proof -
  have d: "d \<in> contents s \<and> td_tenant_id d = t \<and> td_name d = n"
    using assms(1,3) by (cases v) (auto simp: resolve_latest resolve_pinned def_key_def)
  then show ?thesis using registrations_grow [OF assms(2,1)] latest_exists [of s' d] by auto
qed

end

subsection \<open>The stored definitions\<close>

lemma max_by_in: "max_by f b xs \<in> set (b # xs)"
  by (induction f b xs rule: max_by.induct) (auto split: if_splits)

lemma max_by_ge: "x \<in> set (b # xs) \<Longrightarrow> f x \<le> f (max_by f b xs)"
proof (induction f b xs arbitrary: x rule: max_by.induct)
  case (2 f best y ys)
  show ?case
  proof (cases "x = best \<or> x = y")
    case True
    have "f x \<le> f (if f best < f y then y else best)" using True by auto
    also have "\<dots> \<le> f (max_by f (if f best < f y then y else best) ys)" by (rule 2) simp
    finally show ?thesis by simp
  next
    case False
    then show ?thesis using 2 by auto
  qed
qed simp

lemma definitions_unique:
  "unique_key def_key s \<Longrightarrow> d \<in> set s \<Longrightarrow> e \<in> set s \<Longrightarrow> def_key d = def_key e \<Longrightarrow> d = e"
  by (metis row_of_unique option.inject)

definition newest :: "tool_definition set \<Rightarrow> string \<Rightarrow> string \<Rightarrow> tool_definition \<Rightarrow> bool" where
  "newest C t n d \<longleftrightarrow> d \<in> C \<and> td_tenant_id d = t \<and> td_name d = n \<and>
     (\<forall>e \<in> C. td_tenant_id e = t \<longrightarrow> td_name e = n \<longrightarrow> td_version e \<le> td_version d)"

lemma newest_unique: "unique_key def_key s \<Longrightarrow> newest (set s) t n d \<Longrightarrow> newest (set s) t n e \<Longrightarrow> d = e"
  unfolding newest_def by (metis antisym def_key_def definitions_unique)

lemma mem_resolve_newest:
  assumes "unique_key def_key s"
  shows "mem_resolve s t n None = Some d \<longleftrightarrow> newest (set s) t n d"
proof (cases "filter (\<lambda>d. td_tenant_id d = t \<and> td_name d = n) s")
  case Nil
  then show ?thesis by (auto simp: mem_resolve_def newest_def filter_empty_conv)
next
  case (Cons c cs)
  then have set: "set (c # cs) = {d \<in> set s. td_tenant_id d = t \<and> td_name d = n}" by (metis set_filter)
  have "newest (set s) t n (max_by td_version c cs)"
    using max_by_in [of td_version c cs] max_by_ge [of _ c cs td_version] unfolding newest_def set by auto
  then show ?thesis using newest_unique [OF assms] Cons by (auto simp: mem_resolve_def)
qed

lemma db_resolve_newest:
  assumes "unique_key def_key s"
  shows "db_resolve s t n None = Some d \<longleftrightarrow> newest (set s) t n d"
proof (cases "sort_key (\<lambda>d. - td_version d) (filter (\<lambda>d. td_tenant_id d = t \<and> td_name d = n) s)")
  case Nil
  then have "set (filter (\<lambda>d. td_tenant_id d = t \<and> td_name d = n) s) = {}" by (metis set_sort set_empty)
  then show ?thesis using Nil by (auto simp: db_resolve_def newest_def)
next
  case (Cons c cs)
  then have set: "set (c # cs) = {d \<in> set s. td_tenant_id d = t \<and> td_name d = n}" by (metis set_sort set_filter)
  have "sorted (map (\<lambda>d. - td_version d) (c # cs))" by (metis Cons sorted_sort_key)
  then have "\<forall>e \<in> set (c # cs). td_version e \<le> td_version c" by auto
  then have "newest (set s) t n c" using set unfolding newest_def by (auto simp: set_eq_iff)
  then show ?thesis using newest_unique [OF assms] Cons by (auto simp: db_resolve_def)
qed

lemma pinned_iff:
  assumes "unique_key def_key s"
  shows "row_of def_key k s = Some d \<longleftrightarrow> d \<in> set s \<and> def_key d = k"
  using assms row_of_SomeD row_of_unique by metis

lemma mem_register_Inr:
  "mem_register mv d s = Inr (x, s') \<Longrightarrow> unique_key def_key s \<Longrightarrow> unique_key def_key s' \<and> set s \<subseteq> set s'"
  by (auto simp: mem_register_def unique_key_append row_of_None_iff [symmetric] split: if_splits option.splits)

lemma mem_register_all_grows:
  "mem_register_all mv ds s = (r, s') \<Longrightarrow> unique_key def_key s \<Longrightarrow> unique_key def_key s' \<and> set s \<subseteq> set s'"
proof (induction ds arbitrary: s r)
  case (Cons d ds)
  then show ?case using mem_register_Inr [of mv d s] by (fastforce split: sum.splits prod.splits)
qed simp

lemma insert_definition_grows:
  "insert_definition d c s = Inr s' \<Longrightarrow> unique_key def_key s \<Longrightarrow> unique_key def_key s' \<and> set s \<subseteq> set s'"
  by (auto simp: insert_definition_def unique_key_append split: if_splits)

lemma db_insert_all_grows:
  "db_insert_all ds c s = Inr (n, s') \<Longrightarrow> unique_key def_key s \<Longrightarrow> unique_key def_key s' \<and> set s \<subseteq> set s'"
proof (induction ds arbitrary: s n)
  case (Cons d ds)
  then show ?case using insert_definition_grows [of d c s] by (fastforce split: sum.splits prod.splits if_splits)
qed simp

text \<open>The calls that change a registry.\<close>

inductive mem_registration :: "tool_definition list \<Rightarrow> tool_definition list \<Rightarrow> bool" where
  register: "mem_register mv d s = Inr (x, s') \<Longrightarrow> mem_registration s s'"
| register_mcp: "mem_register_mcp_server mv t name v tools s = (r, s') \<Longrightarrow> mem_registration s s'"

inductive db_registration :: "tool_definition list \<Rightarrow> tool_definition list \<Rightarrow> bool" where
  register: "db_register d created_by s = (r, s') \<Longrightarrow> db_registration s s'"
| register_mcp: "db_register_mcp_server t name v tools created_by s = (r, s') \<Longrightarrow> db_registration s s'"

lemma mem_registration_grows:
  "mem_registration s s' \<Longrightarrow> unique_key def_key s \<Longrightarrow> unique_key def_key s' \<and> set s \<subseteq> set s'"
proof (induction rule: mem_registration.induct)
  case (register mv d s x s')
  then show ?case using mem_register_Inr by blast
next
  case (register_mcp mv t name v tools s r s')
  then show ?case using mem_register_all_grows by (auto simp: mem_register_mcp_server_def split: if_splits)
qed

lemma db_registration_grows:
  "db_registration s s' \<Longrightarrow> unique_key def_key s \<Longrightarrow> unique_key def_key s' \<and> set s \<subseteq> set s'"
proof (induction rule: db_registration.induct)
  case (register d created_by s r s')
  then show ?case using insert_definition_grows [of d created_by s]
    by (auto simp: db_register_def split: if_splits sum.splits option.splits)
next
  case (register_mcp t name v tools created_by s r s')
  then show ?case using db_insert_all_grows
    by (fastforce simp: db_register_mcp_server_def split: sum.splits prod.splits)
qed

interpretation mreg: tool_registry "unique_key def_key" set mem_resolve mem_registration
proof (unfold_locales, goal_cases)
  case (1 s d e) then show ?case using definitions_unique by blast
next
  case (3 s t n v d) then show ?case using pinned_iff by (simp add: mem_resolve_def)
next
  case (4 s t n d) then show ?case using mem_resolve_newest newest_def by simp
next
  case (5 s s') then show ?case using mem_registration_grows by blast
qed simp

interpretation dreg: tool_registry "unique_key def_key" set db_resolve db_registration
proof (unfold_locales, goal_cases)
  case (1 s d e) then show ?case using definitions_unique by blast
next
  case (3 s t n v d) then show ?case using pinned_iff by (simp add: db_resolve_def)
next
  case (4 s t n d) then show ?case using db_resolve_newest newest_def by simp
next
  case (5 s s') then show ?case using db_registration_grows by blast
qed simp

subsection \<open>The newest version of every tool\<close>

lemma find_filter: "find P xs = (case filter P xs of [] \<Rightarrow> None | x # _ \<Rightarrow> Some x)"
  by (induction xs) auto

lemma set_distinct_on: "set (distinct_on f xs) \<subseteq> set xs"
  by (induction f xs rule: distinct_on.induct) (auto dest: set_dropWhileD)

lemma sorted_map_dropWhile: "sorted (map f xs) \<Longrightarrow> sorted (map f (dropWhile P xs))"
  by (induction xs) auto

lemma sorted_dropWhile_first:
  assumes "sorted (map f (x # xs))" "y \<in> set (dropWhile (\<lambda>y. f y = f x) xs)"
  shows "f x < f y"
  using assms
proof (induction xs)
  case (Cons z zs)
  then show ?case by (auto split: if_splits)
qed simp

lemma sorted_distinct_on:
  "sorted (map f xs) \<Longrightarrow> sorted (map f (distinct_on f xs)) \<and> distinct (map f (distinct_on f xs))"
proof (induction f xs rule: distinct_on.induct)
  case (2 f x xs)
  have "sorted (map f (dropWhile (\<lambda>y. f y = f x) xs))"
    using 2(2) by (simp add: sorted_map_dropWhile)
  then show ?case using 2 sorted_dropWhile_first [OF 2(2)] set_distinct_on [of f "dropWhile (\<lambda>y. f y = f x) xs"]
    by (fastforce simp: less_imp_le)
qed simp

lemma find_dropWhile: "f x \<noteq> k \<Longrightarrow> find (\<lambda>y. f y = k) (dropWhile (\<lambda>y. f y = f x) xs) = find (\<lambda>y. f y = k) xs"
  by (induction xs) auto

lemma in_distinct_on:
  "sorted (map f xs) \<Longrightarrow> y \<in> set (distinct_on f xs) \<longleftrightarrow> find (\<lambda>z. f z = f y) xs = Some y"
proof (induction f xs rule: distinct_on.induct)
  case (2 f x xs)
  have s: "sorted (map f (dropWhile (\<lambda>y. f y = f x) xs))"
    using 2(2) by (simp add: sorted_map_dropWhile)
  show ?case
  proof (cases "f x = f y")
    case True
    then have "y \<notin> set (dropWhile (\<lambda>y. f y = f x) xs)" using sorted_dropWhile_first [OF 2(2)] by fastforce
    then have "y \<notin> set (distinct_on f (dropWhile (\<lambda>y. f y = f x) xs))" using set_distinct_on by fastforce
    then show ?thesis using True by auto
  next
    case False
    then show ?thesis using 2(1) [OF s] find_dropWhile [of f x "f y" xs] by auto
  qed
qed simp

lemma db_latest_spec:
  assumes "unique_key def_key s"
  shows "sorted (map td_name (db_latest_definitions s t)) \<and> distinct (map td_name (db_latest_definitions s t)) \<and>
    set (db_latest_definitions s t) = {d. newest (set s) t (td_name d) d}"
proof -
  let ?M = "sort_key (\<lambda>d. - td_version d) (filter (\<lambda>d. td_tenant_id d = t) s)"
  have "find (\<lambda>z. td_name z = n) (sort_key td_name ?M) = db_resolve s t n None" for n
    unfolding find_filter sort_key_stable by (simp add: filter_sort db_resolve_def conj_commute)
  then have "d \<in> set (db_latest_definitions s t) \<longleftrightarrow> newest (set s) t (td_name d) d" for d
    using in_distinct_on [OF sorted_sort_key, of d td_name ?M] db_resolve_newest [OF assms]
    by (simp add: db_latest_definitions_def)
  then show ?thesis using sorted_distinct_on [OF sorted_sort_key, of td_name ?M]
    by (auto simp: db_latest_definitions_def)
qed

lemma newest_insert_other: "td_tenant_id d \<noteq> t \<or> td_name d \<noteq> n \<Longrightarrow> newest (insert d C) t n e \<longleftrightarrow> newest C t n e"
  by (auto simp: newest_def)

lemma newest_insert:
  assumes "newest C t (td_name d) c" "td_tenant_id d = t" "d \<notin> C"
    "\<forall>x \<in> insert d C. \<forall>y \<in> insert d C. def_key x = def_key y \<longrightarrow> x = y"
  shows "newest (insert d C) t (td_name d) e \<longleftrightarrow> e = (if td_version c < td_version d then d else c)"
proof -
  let ?w = "if td_version c < td_version d then d else c"
  have "newest (insert d C) t (td_name d) ?w" using assms(1,2) by (auto simp: newest_def intro: order_trans less_imp_le)
  moreover have "e = w" if "newest (insert d C) t (td_name d) e" "newest (insert d C) t (td_name d) w" for w
  proof -
    have "def_key e = def_key w" using that unfolding newest_def def_key_def by (metis antisym)
    then show ?thesis using assms(4) that unfolding newest_def by blast
  qed
  ultimately show ?thesis by blast
qed

lemma map_of_update: "map_of (map (\<lambda>(n, c). if n = m then (n, d) else (n, c)) L) n =
    (if n = m then (if m \<in> fst ` set L then Some d else None) else map_of L n)"
  by (induction L) force+

lemma map_fst_update: "map fst (map (\<lambda>(n, c). if n = m then (n, d) else (n, c)) L) = map fst L"
  by (induction L) auto

lemma collect_latest_spec:
  assumes "unique_key def_key (P @ ds)" "distinct (map fst L)" "\<And>n e. map_of L n = Some e \<longleftrightarrow> newest (set P) t n e"
  shows "distinct (map fst (collect_latest t ds L)) \<and>
    (\<forall>n e. map_of (collect_latest t ds L) n = Some e \<longleftrightarrow> newest (set (P @ ds)) t n e)"
  using assms
proof (induction ds arbitrary: P L)
  case (Cons d ds)
  define L' where "L' = (if td_tenant_id d \<noteq> t then L
        else case map_of L (td_name d) of
               None \<Rightarrow> L @ [(td_name d, d)]
             | Some current \<Rightarrow>
                if td_version current < td_version d
                then map (\<lambda>(n, c). if n = td_name d then (n, d) else (n, c)) L
                else L)"
  have uP: "unique_key def_key P" and dP: "d \<notin> set P" using Cons.prems(1) by (auto simp: unique_key_def)
  have key: "\<forall>x \<in> insert d (set P). \<forall>y \<in> insert d (set P). def_key x = def_key y \<longrightarrow> x = y"
    using definitions_unique [OF Cons.prems(1)] by auto
  have L': "distinct (map fst L') \<and> (\<forall>n e. map_of L' n = Some e \<longleftrightarrow> newest (insert d (set P)) t n e)"
  proof (cases "td_tenant_id d = t")
    case False
    then show ?thesis using Cons.prems(2,3) by (simp add: L'_def newest_insert_other)
  next
    case True
    show ?thesis
    proof (cases "map_of L (td_name d)")
      case None
      have none: "\<not> (td_tenant_id x = t \<and> td_name x = td_name d)" if "x \<in> set P" for x
        using mreg.latest_exists [OF uP that] mem_resolve_newest [OF uP] Cons.prems(3) [of "td_name d"] None by auto
      then have "newest (insert d (set P)) t (td_name d) e \<longleftrightarrow> e = d" for e
        using True by (auto simp: newest_def)
      moreover have "td_name d \<notin> fst ` set L" using None by (simp add: map_of_eq_None_iff)
      ultimately show ?thesis using None True Cons.prems(2,3)
          newest_unique [OF uP]
        by (auto simp: L'_def map_add_def newest_insert_other split: option.splits)
    next
      case (Some c)
      then have c: "newest (set P) t (td_name d) c" using Cons.prems(3) by simp
      have "td_name d \<in> fst ` set L" using Some by (metis map_of_eq_None_iff option.distinct(1))
      then have "map_of L' n = (if n = td_name d then Some (if td_version c < td_version d then d else c) else map_of L n)" for n
        using Some True by (simp add: L'_def map_of_update)
      moreover have "newest (insert d (set P)) t n e \<longleftrightarrow>
          (if n = td_name d then e = (if td_version c < td_version d then d else c) else newest (set P) t n e)" for n e
      proof (cases "n = td_name d")
        case True
        then show ?thesis using newest_insert [OF c \<open>td_tenant_id d = t\<close> dP key] by simp
      next
        case False
        then show ?thesis using newest_insert_other [of d t n "set P" e] by simp
      qed
      moreover have "map fst L' = map fst L" using Some True by (simp add: L'_def map_fst_update del: map_map)
      ultimately show ?thesis using Cons.prems(2,3) by auto
    qed
  qed
  have "distinct (map fst (collect_latest t ds L')) \<and>
      (\<forall>n e. map_of (collect_latest t ds L') n = Some e \<longleftrightarrow> newest (set ((P @ [d]) @ ds)) t n e)"
    using L' Cons.prems(1) by (intro Cons.IH) auto
  then show ?case by (simp add: L'_def)
qed simp

lemma sorted_distinct_fst: "distinct (map fst L) \<Longrightarrow> distinct (map fst (sort_key fst L))"
  by (metis distinct_map distinct_sort set_sort)

lemma mem_latest_spec:
  assumes "unique_key def_key s"
  shows "sorted (map td_name (mem_latest_definitions s t)) \<and> distinct (map td_name (mem_latest_definitions s t)) \<and>
    set (mem_latest_definitions s t) = {d. newest (set s) t (td_name d) d}"
proof -
  let ?L = "collect_latest t s []"
  have c: "distinct (map fst ?L)" "\<And>n e. map_of ?L n = Some e \<longleftrightarrow> newest (set s) t n e"
    using collect_latest_spec [of "[]" s "[]" t] assms by (auto simp: newest_def)
  have in_L: "(n, e) \<in> set ?L \<longleftrightarrow> newest (set s) t n e" for n e using map_of_eq_Some_iff [OF c(1)] c(2) by metis
  then have names: "td_name (snd p) = fst p" if "p \<in> set ?L" for p using that by (cases p) (auto simp: newest_def)
  then have "map td_name (mem_latest_definitions s t) = map fst (sort_key fst ?L)"
    by (simp add: mem_latest_definitions_def)
  then have "sorted (map td_name (mem_latest_definitions s t)) \<and> distinct (map td_name (mem_latest_definitions s t))"
    using c(1) sorted_distinct_fst [OF c(1)] by simp
  moreover have "d \<in> set (mem_latest_definitions s t) \<longleftrightarrow> newest (set s) t (td_name d) d" for d
    using in_L names by (force simp: mem_latest_definitions_def image_iff)
  ultimately show ?thesis by auto
qed

subsection \<open>Parameter validation, declaratively\<close>

text \<open>
  A schema the checks are meant for: every declared property is a dictionary whose type, if any,
  is a string, and \<open>required\<close> is a list of strings.
\<close>

definition property_ok :: "json \<Rightarrow> bool" where
  "property_ok p = (case p of JDict q \<Rightarrow> (case dict_get q ''type'' of None \<Rightarrow> True | Some (JStr _) \<Rightarrow> True | Some _ \<Rightarrow> False) | _ \<Rightarrow> False)"

definition is_JStr :: "json \<Rightarrow> bool" where
  "is_JStr v = (case v of JStr _ \<Rightarrow> True | _ \<Rightarrow> False)"

definition schema_ok :: "(string \<times> json) list \<Rightarrow> bool" where
  "schema_ok schema \<longleftrightarrow> check_schema_shape schema \<and>
     (case dict_get schema ''properties'' of Some (JDict ps) \<Rightarrow> list_all (\<lambda>p. property_ok (snd p)) ps | _ \<Rightarrow> True) \<and>
     (case dict_get schema ''required'' of None \<Rightarrow> True | Some (JList rs) \<Rightarrow> list_all is_JStr rs | Some _ \<Rightarrow> False)"

definition properties_of :: "(string \<times> json) list \<Rightarrow> (string \<times> json) list" where
  "properties_of schema = (case dict_get schema ''properties'' of Some (JDict ps) \<Rightarrow> ps | _ \<Rightarrow> [])"

definition required_of :: "(string \<times> json) list \<Rightarrow> json list" where
  "required_of schema = (case dict_get schema ''required'' of Some (JList rs) \<Rightarrow> rs | _ \<Rightarrow> [])"

definition declared_type :: "(string \<times> json) list \<Rightarrow> string \<Rightarrow> string option" where
  "declared_type schema k = (case dict_get (properties_of schema) k of
     Some (JDict q) \<Rightarrow> (case dict_get q ''type'' of Some (JStr e) \<Rightarrow> Some e | _ \<Rightarrow> None) | _ \<Rightarrow> None)"

definition has_type :: "json \<Rightarrow> string \<Rightarrow> bool" where
  "has_type v e \<longleftrightarrow> (if is_bool v then e = ''boolean'' else json_isinstance v e)"

definition conforms :: "(string \<times> json) list \<Rightarrow> (string \<times> json) list \<Rightarrow> bool" where
  "conforms schema params \<longleftrightarrow>
     fst ` set params \<subseteq> fst ` set (properties_of schema) \<and>
     (\<forall>k. JStr k \<in> set (required_of schema) \<longrightarrow> k \<in> fst ` set params) \<and>
     (\<forall>kv \<in> set params. \<forall>e. declared_type schema (fst kv) = Some e \<longrightarrow> has_type (snd kv) e)"

lemma first_error_None: "first_error f xs = None \<longleftrightarrow> (\<forall>x \<in> set xs. f x = None)"
  by (induction xs) (auto split: option.splits)

lemma first_error_Some: "first_error f xs = Some e \<Longrightarrow> \<exists>x \<in> set xs. f x = Some e"
  by (induction xs) (auto split: option.splits)

lemma dict_get_None [simp]: "dict_get d k = None \<longleftrightarrow> k \<notin> fst ` set d"
  by (simp add: dict_get_def map_of_eq_None_iff)

lemma check_required_ok: "is_JStr r \<Longrightarrow> check_required params r =
    (if \<forall>k. r = JStr k \<longrightarrow> k \<in> fst ` set params then None else Some PARAMS_INVALID)"
  by (auto simp: is_JStr_def check_required_def split: json.splits)

lemma check_param_ok:
  assumes "list_all (\<lambda>p. property_ok (snd p)) (properties_of schema)"
  shows "check_param (properties_of schema) (k, v) =
    (if \<forall>e. declared_type schema k = Some e \<longrightarrow> has_type v e then None else Some PARAMS_INVALID)"
proof (cases "dict_get (properties_of schema) k")
  case None
  then show ?thesis by (auto simp: check_param_def declared_type_def dict_get_def simp del: dict_get_None)
next
  case (Some p)
  then have "property_ok p" using assms by (auto simp: dict_get_def list_all_iff dest!: map_of_SomeD)
  then obtain q where q: "p = JDict q" "property_ok (JDict q)" by (auto simp: property_ok_def split: json.splits)
  show ?thesis
  proof (cases "dict_get q ''type''")
    case None
    then show ?thesis using Some q by (simp add: check_param_def declared_type_def del: dict_get_None)
  next
    case (Some t)
    then obtain e where "t = JStr e" using q(2) by (auto simp: property_ok_def split: json.splits)
    then show ?thesis using Some \<open>dict_get _ k = Some p\<close> q
      by (auto simp: check_param_def declared_type_def has_type_def is_bool_def json_isinstance_def split: json.splits)
  qed
qed

text \<open>
  Parameter validation is exact. For a schema of the supported shape, \<open>validate_params\<close> passes
  the parameters on unchanged if and only if all of them are declared, none that is required is
  missing and each has its declared type (a bool only where the type is boolean); otherwise it
  raises \<open>TOOL_PARAMS_INVALID\<close>.
\<close>

theorem validate_params_exact:
  assumes "schema_ok (td_input_schema d)"
  shows "validate_params d params =
    (if conforms (td_input_schema d) params then Inr params else Inl (ToolInvocationError ''TOOL_PARAMS_INVALID'' None))"
proof -
  let ?s = "td_input_schema d"
  have props: "(case dict_get ?s ''properties'' of None \<Rightarrow> JDict [] | Some p \<Rightarrow> p) = JDict (properties_of ?s)"
    "list_all (\<lambda>p. property_ok (snd p)) (properties_of ?s)"
    using assms by (auto simp: schema_ok_def check_schema_shape_def properties_of_def simp del: dict_get_None
        split: option.splits json.splits)
  have req: "py_iter (case dict_get ?s ''required'' of None \<Rightarrow> JList [] | Some r \<Rightarrow> r) = Some (required_of ?s)"
    "\<forall>r \<in> set (required_of ?s). is_JStr r"
    using assms by (auto simp: schema_ok_def required_of_def py_iter_def list_all_iff simp del: dict_get_None
        split: option.splits json.splits)
  have r_err: "first_error (check_required params) (required_of ?s) =
      (if \<forall>k. JStr k \<in> set (required_of ?s) \<longrightarrow> k \<in> fst ` set params then None else Some PARAMS_INVALID)"
    using req(2) first_error_Some [of "check_required params" "required_of ?s"]
    by (cases "first_error (check_required params) (required_of ?s)")
      (auto simp: first_error_None check_required_ok is_JStr_def split: if_splits json.splits)
  have p: "check_param (properties_of ?s) kv =
      (if \<forall>e. declared_type ?s (fst kv) = Some e \<longrightarrow> has_type (snd kv) e then None else Some PARAMS_INVALID)" for kv
    using check_param_ok [OF props(2), of "fst kv" "snd kv"] by simp
  have p_err: "first_error (check_param (properties_of ?s)) params =
      (if \<forall>kv \<in> set params. \<forall>e. declared_type ?s (fst kv) = Some e \<longrightarrow> has_type (snd kv) e then None else Some PARAMS_INVALID)"
    using first_error_Some [of "check_param (properties_of ?s)" params]
    by (cases "first_error (check_param (properties_of ?s)) params")
      (auto simp: first_error_None p split: if_splits)
  have decl: "(\<exists>kv \<in> set params. dict_get (properties_of ?s) (fst kv) = None) \<longleftrightarrow>
      \<not> fst ` set params \<subseteq> fst ` set (properties_of ?s)" by auto
  show ?thesis
    unfolding validate_params_def props(1) req(1) json.case option.case r_err p_err decl conforms_def PARAMS_INVALID_def
    by auto
qed

definition sample_tool :: tool_definition where
  "sample_tool = \<lparr>td_tenant_id = ''t1'', td_name = ''pay'', td_version = 1, td_description = ''pays'',
     td_side_effect = HIGH_RISK,
     td_input_schema = [(''type'', JStr ''object''), (''properties'', JDict [(''n'', JDict [(''type'', JStr ''integer'')])]),
       (''required'', JList [JStr ''n''])],
     td_output_schema = [(''type'', JStr ''object'')], td_scopes = [''pay:write''], td_timeout_seconds = 30,
     td_cost_per_call_micros = 5, td_data_classification = INTERNAL, td_supports_idempotency = True,
     td_source = DECLARED, td_mcp_server = None\<rparr>"

theorem validate_params_exact_witness:
  "validate_params sample_tool [(''n'', JInt 3)] = Inr [(''n'', JInt 3)] \<and>
   validate_params sample_tool [(''n'', JBool True)] = Inl (ToolInvocationError ''TOOL_PARAMS_INVALID'' None)"
proof -
  have ok: "schema_ok (td_input_schema sample_tool)" by code_simp
  have "conforms (td_input_schema sample_tool) [(''n'', JInt 3)]" "\<not> conforms (td_input_schema sample_tool) [(''n'', JBool True)]"
    by (simp_all add: conforms_def sample_tool_def properties_of_def required_of_def declared_type_def dict_get_def
          has_type_def is_bool_def json_isinstance_def)
  then show ?thesis using validate_params_exact [OF ok] by simp
qed

text \<open>
  A registered version never changes. What the database registry resolves for a pinned
  version, it resolves after any registrations of tools and MCP servers, conflicting ones
  included; and the latest version it then resolves is at least that version.
\<close>

theorem registered_version_immutable:
  assumes "unique_key def_key s" "db_registration\<^sup>*\<^sup>* s s'" "db_resolve s t n (Some v) = Some d"
  shows "db_resolve s' t n (Some v) = Some d \<and> (\<exists>e. db_resolve s' t n None = Some e \<and> v \<le> td_version e)"
proof -
  have "td_version d = v" using assms(1,3) by (simp add: dreg.resolve_pinned def_key_def)
  then show ?thesis using dreg.pinned_immutable [OF assms] dreg.latest_monotone [OF assms] by auto
qed

theorem registered_version_immutable_witness:
  "db_resolve (snd (db_register (sample_tool\<lparr>td_description := ''x''\<rparr>) ''root'' [sample_tool])) ''t1'' ''pay'' (Some 1) = Some sample_tool"
proof -
  have "db_registration\<^sup>*\<^sup>* [sample_tool] (snd (db_register (sample_tool\<lparr>td_description := ''x''\<rparr>) ''root'' [sample_tool]))"
    by (rule r_into_rtranclp, rule db_registration.register [OF surjective_pairing])
  moreover have "unique_key def_key [sample_tool]" "db_resolve [sample_tool] ''t1'' ''pay'' (Some 1) = Some sample_tool"
    by (simp_all add: unique_key_def db_resolve_def row_of_Cons def_key_def sample_tool_def)
  ultimately show ?thesis using registered_version_immutable by blast
qed

text \<open>
  The in-memory and the database registry are the same registry to their clients: on the same
  definitions, every \<open>resolve\<close>, pinned or latest, and every \<open>latest_definitions\<close> (the loop over a
  dictionary and \<open>DISTINCT ON\<close>) return the same, which is the newest version of each of the
  tenant's tools, in the order of the names.
\<close>

theorem registries_agree:
  assumes "unique_key def_key s"
  shows "mem_resolve s t n v = db_resolve s t n v \<and> mem_latest_definitions s t = db_latest_definitions s t \<and>
    sorted (map td_name (db_latest_definitions s t)) \<and>
    set (db_latest_definitions s t) = {d. db_resolve s t (td_name d) None = Some d}"
proof (intro conjI)
  show "mem_resolve s t n v = db_resolve s t n v"
  proof (cases v)
    case None
    have "mem_resolve s t n None = Some d \<longleftrightarrow> db_resolve s t n None = Some d" for d
      using assms mem_resolve_newest db_resolve_newest by simp
    then show ?thesis unfolding None by (metis not_Some_eq)
  qed (simp add: mem_resolve_def db_resolve_def)
  note m = mem_latest_spec [OF assms, of t] and b = db_latest_spec [OF assms, of t]
  show "mem_latest_definitions s t = db_latest_definitions s t"
  proof (rule map_sorted_distinct_set_unique [of td_name])
    show "inj_on td_name (set (mem_latest_definitions s t) \<union> set (db_latest_definitions s t))"
      using m b newest_unique [OF assms] by (auto simp: inj_on_def)
  qed (use m b in auto)
  show "sorted (map td_name (db_latest_definitions s t))" using b by simp
  show "set (db_latest_definitions s t) = {d. db_resolve s t (td_name d) None = Some d}"
    using b db_resolve_newest [OF assms] by simp
qed

theorem registries_agree_witness:
  "mem_latest_definitions [sample_tool, sample_tool\<lparr>td_version := 2\<rparr>] ''t1'' =
   db_latest_definitions [sample_tool, sample_tool\<lparr>td_version := 2\<rparr>] ''t1''"
proof -
  have "unique_key def_key [sample_tool, sample_tool\<lparr>td_version := 2\<rparr>]"
    by (simp add: unique_key_def def_key_def sample_tool_def)
  then show ?thesis using registries_agree by blast
qed

end
