(* ===== verification/Tool_Executor.thy ===== *)
theory Tool_Executor
  imports Tool_Registry
begin

text \<open>
  Governed tool invocation: \<open>trpc_service/tool/executor.py\<close> with the tool-call store of
  \<open>trpc_service/tool/store.py\<close>, and the bridge of \<open>sdk_bridge.py\<close>. The tool backend is a plug-in
  outside the repository: a parameter \<open>execute\<close> on a backend state of its own, whose reply to one call is
  a result, a timeout (\<open>asyncio.wait_for\<close>) or an exception. The clock readings and the uuids
  of one invocation are the arguments \<open>clock\<close> and \<open>uid\<close>.
\<close>

datatype invocation_status = INV_SUCCEEDED | INV_FAILED | INV_OUTCOME_UNKNOWN | INV_BLOCKED

type_synonym params = "(string \<times> json) list"

record backend_result =
  br_ok :: bool
  br_result :: "params option"
  br_error_code :: "string option"
  br_transient :: bool

datatype backend_reply =
    Reply backend_result
  | ReplyTimeout
  | ReplyConnectionError
  | ReplyIncompleteReadError
  | ReplyOtherError

record invocation_record =
  ir_call_id :: string
  ir_tenant_id :: string
  ir_tool_name :: string
  ir_tool_version :: "int option"
  ir_side_effect :: "side_effect option"
  ir_params :: params
  ir_params_hash :: string
  ir_idempotency_key :: "string option"
  ir_status :: invocation_status
  ir_attempts :: nat
  ir_cost_micros :: int
  ir_requested_by :: string
  ir_execution_id :: "string option"
  ir_session_id :: "string option"
  ir_release_id :: "string option"
  ir_error_code :: "string option"
  ir_result :: "params option"
  ir_data_classification :: "data_classification option"

record invocation_result =
  res_status :: invocation_status
  res_record :: invocation_record
  res_replayed :: bool
  res_error_code :: "string option"

datatype invocation_mode = Conversation | Direct

text \<open>The keyword arguments of \<open>invoke\<close>.\<close>

record invocation =
  iv_tenant_id :: string
  iv_tool_name :: string
  iv_params :: params
  iv_scopes :: "string list option"
  iv_requested_by :: string
  iv_idempotency_key :: "string option"
  iv_mode :: invocation_mode
  iv_version :: "int option"
  iv_execution_id :: "string option"
  iv_session_id :: "string option"
  iv_release_id :: "string option"
  iv_policy_version :: "string option"

text \<open>
  The service: its registry (\<open>has_name\<close> only if the registry has it), backend, approval service
  and \<open>max(1, max_read_attempts)\<close>; and what it changes: the tool-call table, the approvals and
  the backend.
\<close>

record ('a, 'b) tool_service =
  sv_resolve :: "string \<Rightarrow> string \<Rightarrow> int option \<Rightarrow> tool_definition option"
  sv_has_name :: "(string \<Rightarrow> bool) option"
  sv_execute :: "'b \<Rightarrow> tool_definition \<Rightarrow> params \<Rightarrow> backend_reply \<times> 'b"
  sv_max_read_attempts :: nat
  sv_approvals :: "'a approval_ops option"
  sv_ttl_seconds :: int

record ('a, 'b) tool_state =
  st_calls :: "invocation_record list"
  st_approvals :: 'a
  st_backend :: 'b

definition init_max_read_attempts :: "nat \<Rightarrow> nat" where
  "init_max_read_attempts n = max 1 n"

subsection \<open>The tool-call store\<close>

definition call_key :: "invocation_record \<Rightarrow> string \<times> string" where
  "call_key r = (ir_tenant_id r, ir_call_id r)"

definition is_replay_of :: "string \<Rightarrow> string \<Rightarrow> invocation_record \<Rightarrow> bool" where
  "is_replay_of tenant_id key r \<longleftrightarrow>
     ir_tenant_id r = tenant_id \<and> ir_idempotency_key r = Some key \<and> ir_status r = INV_SUCCEEDED"

definition find_replay :: "invocation_record list \<Rightarrow> string \<Rightarrow> string \<Rightarrow> invocation_record option" where
  "find_replay calls tenant_id key = find (is_replay_of tenant_id key) calls"

definition list_unknown :: "invocation_record list \<Rightarrow> string \<Rightarrow> invocation_record list" where
  "list_unknown calls tenant_id = filter (\<lambda>r. ir_tenant_id r = tenant_id \<and> ir_status r = INV_OUTCOME_UNKNOWN) calls"

definition get_call :: "invocation_record list \<Rightarrow> string \<Rightarrow> string \<Rightarrow> invocation_record option" where
  "get_call calls tenant_id call_id = row_of call_key (tenant_id, call_id) calls"

text \<open>
  \<open>INSERT ... ON CONFLICT (tenant_id, call_id) DO NOTHING\<close> under the checks of the table and the
  partial unique index on the idempotency keys of successful calls. A falsy result is stored
  as NULL.
\<close>

definition call_row_ok :: "invocation_record \<Rightarrow> bool" where
  "call_row_ok r \<longleftrightarrow> 1 \<le> length (ir_requested_by r) \<and> length (ir_requested_by r) \<le> 256 \<and> 0 \<le> ir_cost_micros r"

definition stored_call :: "invocation_record \<Rightarrow> invocation_record" where
  "stored_call r = r\<lparr>ir_result := (case ir_result r of Some [] \<Rightarrow> None | x \<Rightarrow> x)\<rparr>"

definition store_record :: "invocation_record \<Rightarrow> invocation_record list \<Rightarrow> sql_error + invocation_record list" where
  "store_record r calls =
     (if \<not> call_row_ok r then Inl IntegrityError
      else if has_key call_key (call_key r) calls then Inr calls
      else if ir_status r = INV_SUCCEEDED \<and>
              (case ir_idempotency_key r of None \<Rightarrow> False | Some k \<Rightarrow> find_replay calls (ir_tenant_id r) k \<noteq> None)
      then Inl IntegrityError
      else Inr (calls @ [stored_call r]))"

subsection \<open>The retry contract\<close>

definition write_outcome ::
  "side_effect \<Rightarrow> string \<Rightarrow> nat \<Rightarrow> invocation_status \<times> string option \<times> params option \<times> nat" where
  "write_outcome side_effect error_code attempts =
     (if side_effect \<noteq> READ_ONLY then (INV_OUTCOME_UNKNOWN, Some error_code, None, attempts)
      else (INV_FAILED, Some error_code, None, attempts))"

text \<open>\<open>isinstance(error, ConnectionError | asyncio.IncompleteReadError)\<close>\<close>

definition is_uncertain :: "backend_reply \<Rightarrow> bool" where
  "is_uncertain reply \<longleftrightarrow> reply \<in> {ReplyConnectionError, ReplyIncompleteReadError}"

definition retry_allowed :: "tool_definition \<Rightarrow> string option \<Rightarrow> bool" where
  "retry_allowed d idempotency_key \<longleftrightarrow>
     td_side_effect d = READ_ONLY \<or>
     (td_side_effect d = IDEMPOTENT_WRITE \<and> td_supports_idempotency d \<and> idempotency_key \<noteq> None)"

text \<open>\<open>value or default\<close> for an optional string.\<close>

definition or_str :: "string option \<Rightarrow> string \<Rightarrow> string" where
  "or_str v d = (case v of None \<Rightarrow> d | Some s \<Rightarrow> if s = [] then d else s)"

text \<open>
  The body of the loop after one reply, the \<open>attempts\<close>-th: \<open>None\<close> is \<open>continue\<close>, anything else
  what the loop returns.
\<close>

definition after_reply ::
  "tool_definition \<Rightarrow> bool \<Rightarrow> nat \<Rightarrow> nat \<Rightarrow> backend_reply
   \<Rightarrow> (invocation_status \<times> string option \<times> params option \<times> nat) option" where
  "after_reply d can_retry max_attempts attempts reply =
     (case reply of
        ReplyTimeout \<Rightarrow>
          if can_retry \<and> attempts < max_attempts then None
          else Some (write_outcome (td_side_effect d) ''TOOL_TIMEOUT'' attempts)
      | Reply outcome \<Rightarrow>
          if br_ok outcome then Some (INV_SUCCEEDED, None, br_result outcome, attempts)
          else let last_error = or_str (br_error_code outcome) ''TOOL_FAILED'' in
            if br_transient outcome \<and> can_retry \<and> attempts < max_attempts then None
            else if br_transient outcome \<and> \<not> can_retry then Some (INV_OUTCOME_UNKNOWN, Some last_error, None, attempts)
            else Some (INV_FAILED, Some last_error, None, attempts)
      | _ \<Rightarrow>
          if can_retry \<and> attempts < max_attempts then None
          else if is_uncertain reply \<and> td_side_effect d \<noteq> READ_ONLY
          then Some (INV_OUTCOME_UNKNOWN, Some ''TOOL_BACKEND_UNAVAILABLE'', None, attempts)
          else Some (INV_FAILED, Some ''TOOL_BACKEND_UNAVAILABLE'', None, attempts))"

text \<open>\<open>last_error\<close> of the replies the loop continued after.\<close>

definition reply_error :: "backend_reply \<Rightarrow> string" where
  "reply_error reply = (case reply of ReplyTimeout \<Rightarrow> ''TOOL_TIMEOUT''
     | Reply outcome \<Rightarrow> or_str (br_error_code outcome) ''TOOL_FAILED'' | _ \<Rightarrow> ''TOOL_BACKEND_UNAVAILABLE'')"

function attempt_loop ::
  "('b \<Rightarrow> tool_definition \<Rightarrow> params \<Rightarrow> backend_reply \<times> 'b) \<Rightarrow> tool_definition \<Rightarrow> params \<Rightarrow> bool \<Rightarrow> nat \<Rightarrow> nat
   \<Rightarrow> string option \<Rightarrow> 'b \<Rightarrow> (invocation_status \<times> string option \<times> params option \<times> nat) \<times> 'b" where
  "attempt_loop execute d ps can_retry max_attempts attempts last_error b =
     (if attempts < max_attempts
      then case execute b d ps of (reply, b1) \<Rightarrow>
        (case after_reply d can_retry max_attempts (Suc attempts) reply of
           Some outcome \<Rightarrow> (outcome, b1)
         | None \<Rightarrow> attempt_loop execute d ps can_retry max_attempts (Suc attempts) (Some (reply_error reply)) b1)
      else ((INV_FAILED, last_error, None, attempts), b))"
  by pat_completeness auto
termination
  by (relation "measure (\<lambda>(_, _, _, _, m, a, _, _). m - a)") auto

declare attempt_loop.simps [simp del]

definition execute_with_contract ::
  "('b \<Rightarrow> tool_definition \<Rightarrow> params \<Rightarrow> backend_reply \<times> 'b) \<Rightarrow> nat \<Rightarrow> tool_definition \<Rightarrow> params \<Rightarrow> string option \<Rightarrow> 'b
   \<Rightarrow> (invocation_status \<times> string option \<times> params option \<times> nat) \<times> 'b" where
  "execute_with_contract execute max_read_attempts d ps idempotency_key b =
     (let can_retry = retry_allowed d idempotency_key in
      attempt_loop execute d ps can_retry (if can_retry then max_read_attempts else 1) 0 None b)"

subsection \<open>Invocation\<close>

text \<open>\<open>_record_blocked\<close>; the error of the store propagates.\<close>

definition record_blocked ::
  "string \<Rightarrow> string \<Rightarrow> invocation \<Rightarrow> string \<Rightarrow> params \<Rightarrow> string \<Rightarrow> tool_definition option \<Rightarrow> bool \<Rightarrow> ('a, 'b) tool_state
   \<Rightarrow> sql_error + ('a, 'b) tool_state" where
  "record_blocked call_id tenant_id iv tool_name ps error_code def with_execution st =
     (case store_record
        \<lparr>ir_call_id = call_id, ir_tenant_id = tenant_id,
         ir_tool_name = tool_name, ir_tool_version = map_option td_version def,
         ir_side_effect = map_option td_side_effect def, ir_params = ps, ir_params_hash = canonical_params_hash ps,
         ir_idempotency_key = None, ir_status = INV_BLOCKED, ir_attempts = 0, ir_cost_micros = 0,
         ir_requested_by = iv_requested_by iv,
         ir_execution_id = (if with_execution then iv_execution_id iv else None),
         ir_session_id = (if with_execution then iv_session_id iv else None),
         ir_release_id = (if with_execution then iv_release_id iv else None),
         ir_error_code = Some error_code, ir_result = None, ir_data_classification = None\<rparr> (st_calls st) of
        Inl e \<Rightarrow> Inl e
      | Inr calls \<Rightarrow> Inr (st\<lparr>st_calls := calls\<rparr>))"

text \<open>Record the block, then raise.\<close>

definition blocked ::
  "string \<Rightarrow> string \<Rightarrow> invocation \<Rightarrow> string \<Rightarrow> params \<Rightarrow> string \<Rightarrow> tool_definition option \<Rightarrow> bool \<Rightarrow> tool_error \<Rightarrow> ('a, 'b) tool_state
   \<Rightarrow> (tool_error + 'r) \<times> ('a, 'b) tool_state" where
  "blocked call_id tenant_id iv tool_name ps error_code def with_execution raised st =
     (case record_blocked call_id tenant_id iv tool_name ps error_code def with_execution st of
        Inl e \<Rightarrow> (Inl (ToolSqlError e), st)
      | Inr st1 \<Rightarrow> (Inl raised, st1))"

definition intent_for :: "tool_definition \<Rightarrow> string \<Rightarrow> string \<Rightarrow> tool_intent" where
  "intent_for d params_hash requested_by =
     \<lparr>in_tool_name = td_name d, in_tool_version = td_version d, in_params_hash = params_hash, in_requested_by = requested_by\<rparr>"

definition gate_write_side_effect ::
  "('a, 'b) tool_service \<Rightarrow> (nat \<Rightarrow> timestamp) \<Rightarrow> (nat \<Rightarrow> string) \<Rightarrow> invocation \<Rightarrow> tool_definition \<Rightarrow> params \<Rightarrow> string
   \<Rightarrow> ('a, 'b) tool_state \<Rightarrow> (tool_error + string option) \<times> ('a, 'b) tool_state" where
  "gate_write_side_effect sv clock uid iv d ps params_hash st =
     (case sv_approvals sv of
        None \<Rightarrow>
          if iv_mode iv \<noteq> Conversation \<and> td_side_effect d \<noteq> HIGH_RISK then (Inr None, st)
          else blocked (uid 0) (td_tenant_id d) iv (td_name d) ps ''TOOL_AUTO_EXECUTION_BLOCKED'' (Some d) False
                 (ToolInvocationError ''TOOL_AUTO_EXECUTION_BLOCKED'' None) st
      | Some ops \<Rightarrow>
         (let intent = intent_for d params_hash (iv_requested_by iv);
              release_id = or_str (iv_release_id iv) ''unknown'' in
          case find_approved ops (clock 0) (td_tenant_id d) intent (st_approvals st) of
            (Some approved, a1) \<Rightarrow>
             (case consume ops (clock 1) (td_tenant_id d) (ap_approval_id approved) intent release_id a1 of
                (Inl e, a2) \<Rightarrow> (Inl (ToolApprovalError e), st\<lparr>st_approvals := a2\<rparr>)
              | (Inr _, a2) \<Rightarrow> (Inr None, st\<lparr>st_approvals := a2\<rparr>))
          | (None, a1) \<Rightarrow>
             (case find_pending ops (clock 2) (td_tenant_id d) intent a1 of
                (Some pending, a2) \<Rightarrow> (Inr (Some (ap_approval_id pending)), st\<lparr>st_approvals := a2\<rparr>)
              | (None, a2) \<Rightarrow>
                 (case approval_create ops (sv_ttl_seconds sv) (clock 3) (uid 1) (td_tenant_id d) release_id intent ps
                         (td_side_effect d) ''AGENT_RUNNER'' (or_str (iv_policy_version iv) ''unspecified'') a2 of
                    (created, a3) \<Rightarrow> (Inr (Some (ap_approval_id created)), st\<lparr>st_approvals := a3\<rparr>)))))"

text \<open>The call itself, once nothing blocks it: run the backend under the contract and record it.\<close>

definition run_and_record ::
  "('a, 'b) tool_service \<Rightarrow> (nat \<Rightarrow> string) \<Rightarrow> invocation \<Rightarrow> tool_definition \<Rightarrow> params \<Rightarrow> string
   \<Rightarrow> ('a, 'b) tool_state \<Rightarrow> (tool_error + invocation_result) \<times> ('a, 'b) tool_state" where
  "run_and_record sv uid iv d ps params_hash st =
     (case execute_with_contract (sv_execute sv) (sv_max_read_attempts sv) d ps (iv_idempotency_key iv) (st_backend st) of
        ((status, error_code, result, attempts), b1) \<Rightarrow>
         (let r = \<lparr>ir_call_id = uid 0, ir_tenant_id = iv_tenant_id iv, ir_tool_name = td_name d,
                   ir_tool_version = Some (td_version d), ir_side_effect = Some (td_side_effect d), ir_params = ps,
                   ir_params_hash = params_hash, ir_idempotency_key = iv_idempotency_key iv, ir_status = status,
                   ir_attempts = attempts, ir_cost_micros = td_cost_per_call_micros d,
                   ir_requested_by = iv_requested_by iv, ir_execution_id = iv_execution_id iv,
                   ir_session_id = iv_session_id iv, ir_release_id = iv_release_id iv, ir_error_code = error_code,
                   ir_result = result, ir_data_classification = Some (td_data_classification d)\<rparr> in
          case store_record r (st_calls st) of
            Inl e \<Rightarrow> (Inl (ToolSqlError e), st\<lparr>st_backend := b1\<rparr>)
          | Inr calls \<Rightarrow>
              (Inr \<lparr>res_status = status, res_record = r, res_replayed = False, res_error_code = error_code\<rparr>,
               st\<lparr>st_backend := b1, st_calls := calls\<rparr>)))"

text \<open>From the idempotency check on.\<close>

definition replay_or_run ::
  "('a, 'b) tool_service \<Rightarrow> (nat \<Rightarrow> string) \<Rightarrow> invocation \<Rightarrow> tool_definition \<Rightarrow> params \<Rightarrow> string
   \<Rightarrow> ('a, 'b) tool_state \<Rightarrow> (tool_error + invocation_result) \<times> ('a, 'b) tool_state" where
  "replay_or_run sv uid iv d ps params_hash st =
     (case (case iv_idempotency_key iv of None \<Rightarrow> None | Some key \<Rightarrow> find_replay (st_calls st) (iv_tenant_id iv) key) of
        Some replayed \<Rightarrow>
          if ir_params_hash replayed \<noteq> params_hash
          then blocked (uid 0) (iv_tenant_id iv) iv (iv_tool_name iv) ps ''TOOL_IDEMPOTENCY_CONFLICT'' (Some d) True
                 (ToolInvocationError ''TOOL_IDEMPOTENCY_CONFLICT'' None) st
          else (Inr \<lparr>res_status = ir_status replayed, res_record = replayed, res_replayed = True,
                     res_error_code = ir_error_code replayed\<rparr>, st)
      | None \<Rightarrow> run_and_record sv uid iv d ps params_hash st)"

definition invoke ::
  "('a, 'b) tool_service \<Rightarrow> (nat \<Rightarrow> timestamp) \<Rightarrow> (nat \<Rightarrow> string) \<Rightarrow> invocation
   \<Rightarrow> ('a, 'b) tool_state \<Rightarrow> (tool_error + invocation_result) \<times> ('a, 'b) tool_state" where
  "invoke sv clock uid iv st =
     (case sv_resolve sv (iv_tenant_id iv) (iv_tool_name iv) (iv_version iv) of
        None \<Rightarrow>
         (let tenant_denied = (case sv_has_name sv of None \<Rightarrow> False | Some f \<Rightarrow> f (iv_tool_name iv));
              code = (if tenant_denied then ''TOOL_TENANT_DENIED'' else ''TOOL_NOT_FOUND'') in
          blocked (uid 0) (iv_tenant_id iv) iv (iv_tool_name iv) (iv_params iv) code None True (ToolInvocationError code None) st)
      | Some d \<Rightarrow>
         if \<not> set (td_scopes d) \<subseteq> set (case iv_scopes iv of None \<Rightarrow> td_scopes d | Some scopes \<Rightarrow> scopes)
         then blocked (uid 0) (iv_tenant_id iv) iv (iv_tool_name iv) (iv_params iv) ''TOOL_SCOPE_DENIED'' (Some d) True
                (ToolInvocationError ''TOOL_SCOPE_DENIED'' None) st
         else case validate_params d (iv_params iv) of
           Inl (ToolInvocationError code det) \<Rightarrow>
             blocked (uid 0) (iv_tenant_id iv) iv (iv_tool_name iv) (iv_params iv) ''TOOL_PARAMS_INVALID'' (Some d) True
               (ToolInvocationError code det) st
         | Inl e \<Rightarrow> (Inl e, st)
         | Inr normalized \<Rightarrow>
            (let params_hash = canonical_params_hash normalized in
             if td_side_effect d \<notin> AUTO_EXECUTABLE_SIDE_EFFECTS
             then case gate_write_side_effect sv clock uid iv d normalized params_hash st of
                    (Inl e, st1) \<Rightarrow> (Inl e, st1)
                  | (Inr (Some approval_id), st1) \<Rightarrow>
                      blocked (uid 0) (iv_tenant_id iv) iv (iv_tool_name iv) normalized ''TOOL_APPROVAL_REQUIRED'' (Some d) True
                        (ToolInvocationError ''TOOL_APPROVAL_REQUIRED'' (Some approval_id)) st1
                  | (Inr None, st1) \<Rightarrow> replay_or_run sv uid iv d normalized params_hash st1
             else replay_or_run sv uid iv d normalized params_hash st))"

subsection \<open>The bridge to the agent SDK\<close>

record invocation_context =
  cx_tenant_id :: string
  cx_requested_by :: string
  cx_execution_id :: "string option"
  cx_session_id :: "string option"
  cx_release_id :: "string option"

text \<open>A tool bound to one definition, with its scopes and idempotency key.\<close>

record governed_tool =
  gt_definition :: tool_definition
  gt_scopes :: "string list option"
  gt_idempotency_key :: "string option"

definition status_str :: "invocation_status \<Rightarrow> string" where
  "status_str s = (case s of INV_SUCCEEDED \<Rightarrow> ''SUCCEEDED'' | INV_FAILED \<Rightarrow> ''FAILED''
     | INV_OUTCOME_UNKNOWN \<Rightarrow> ''OUTCOME_UNKNOWN'' | INV_BLOCKED \<Rightarrow> ''BLOCKED'')"

definition governed_invocation :: "invocation_context option \<Rightarrow> governed_tool \<Rightarrow> params \<Rightarrow> invocation" where
  "governed_invocation ctx g ps =
     \<lparr>iv_tenant_id = (case ctx of Some c \<Rightarrow> cx_tenant_id c | None \<Rightarrow> td_tenant_id (gt_definition g)),
      iv_tool_name = td_name (gt_definition g), iv_params = ps, iv_scopes = gt_scopes g,
      iv_requested_by = (case ctx of Some c \<Rightarrow> cx_requested_by c | None \<Rightarrow> ''agent-runner''),
      iv_idempotency_key = gt_idempotency_key g, iv_mode = Conversation,
      iv_version = Some (td_version (gt_definition g)),
      iv_execution_id = (case ctx of Some c \<Rightarrow> cx_execution_id c | None \<Rightarrow> None),
      iv_session_id = (case ctx of Some c \<Rightarrow> cx_session_id c | None \<Rightarrow> None),
      iv_release_id = (case ctx of Some c \<Rightarrow> cx_release_id c | None \<Rightarrow> None), iv_policy_version = None\<rparr>"

definition governed_invoke ::
  "('a, 'b) tool_service \<Rightarrow> (nat \<Rightarrow> timestamp) \<Rightarrow> (nat \<Rightarrow> string) \<Rightarrow> invocation_context option \<Rightarrow> governed_tool \<Rightarrow> params
   \<Rightarrow> ('a, 'b) tool_state \<Rightarrow> (tool_error + params) \<times> ('a, 'b) tool_state" where
  "governed_invoke sv clock uid ctx g ps st =
     (case invoke sv clock uid (governed_invocation ctx g ps) st of
        (Inl (ToolInvocationError code det), st1) \<Rightarrow>
          (Inr ([(''status'', JStr ''BLOCKED''), (''error'', JStr code)] @
             (case det of None \<Rightarrow> [] | Some a \<Rightarrow> [(''details'', JDict [(''approval_id'', JStr a)])])), st1)
      | (Inl e, st1) \<Rightarrow> (Inl e, st1)
      | (Inr r, st1) \<Rightarrow>
          (Inr ([(''status'', JStr (status_str (res_status r))),
                 (''result'', JDict (case ir_result (res_record r) of None \<Rightarrow> [] | Some x \<Rightarrow> x))] @
             (case res_error_code r of None \<Rightarrow> [] | Some c \<Rightarrow> if c = [] then [] else [(''error'', JStr c)])), st1))"

subsection \<open>The loop of attempts\<close>

definition next_backend ::
  "('b \<Rightarrow> tool_definition \<Rightarrow> params \<Rightarrow> backend_reply \<times> 'b) \<Rightarrow> tool_definition \<Rightarrow> params \<Rightarrow> 'b \<Rightarrow> 'b" where
  "next_backend execute d ps b = snd (execute b d ps)"

text \<open>The reply to the call after \<open>i\<close> calls.\<close>

definition reply_at ::
  "('b \<Rightarrow> tool_definition \<Rightarrow> params \<Rightarrow> backend_reply \<times> 'b) \<Rightarrow> tool_definition \<Rightarrow> params \<Rightarrow> 'b \<Rightarrow> nat \<Rightarrow> backend_reply" where
  "reply_at execute d ps b i = fst (execute ((next_backend execute d ps ^^ i) b) d ps)"

lemma reply_at_shift: "reply_at execute d ps (next_backend execute d ps b) i = reply_at execute d ps b (Suc i)"
  by (simp add: reply_at_def funpow_swap1)

lemma after_reply_attempts: "after_reply d c mx n reply = Some (status, err, res, n') \<Longrightarrow> n' = n"
  by (auto simp: after_reply_def write_outcome_def Let_def split: backend_reply.splits if_splits)

lemma attempt_loop_runs:
  assumes "a < mx" "attempt_loop execute d ps can_retry mx a le b = ((status, err, res, n), b')"
  shows "\<exists>k. n = Suc (a + k) \<and> n \<le> mx \<and> b' = (next_backend execute d ps ^^ Suc k) b \<and>
    after_reply d can_retry mx n (reply_at execute d ps b k) = Some (status, err, res, n) \<and>
    (\<forall>i < k. after_reply d can_retry mx (Suc (a + i)) (reply_at execute d ps b i) = None)"
  using assms
proof (induction "mx - a" arbitrary: a le b)
  case 0
  then show ?case by simp
next
  case (Suc m)
  obtain reply b1 where ex: "execute b d ps = (reply, b1)" by fastforce
  then have r0: "reply_at execute d ps b 0 = reply" "next_backend execute d ps b = b1"
    by (simp_all add: reply_at_def next_backend_def)
  show ?case
  proof (cases "after_reply d can_retry mx (Suc a) reply")
    case (Some out)
    then have out: "out = (status, err, res, n)" "b1 = b'"
      using Suc.prems ex by (simp_all add: attempt_loop.simps [of _ _ _ _ _ a])
    then have "n = Suc a" using Some after_reply_attempts by blast
    then show ?thesis using Suc.prems(1) Some r0 out by (intro exI [of _ 0]) simp
  next
    case None
    then have lt: "Suc a < mx" by (auto simp: after_reply_def Let_def split: backend_reply.splits if_splits)
    have m: "m = mx - Suc a" using Suc.hyps(2) by simp
    have run: "attempt_loop execute d ps can_retry mx (Suc a) (Some (reply_error reply)) b1 = ((status, err, res, n), b')"
      using Suc.prems ex None by (simp add: attempt_loop.simps [of _ _ _ _ _ a])
    obtain k where k: "n = Suc (Suc a + k)" "n \<le> mx" "b' = (next_backend execute d ps ^^ Suc k) b1"
      "after_reply d can_retry mx n (reply_at execute d ps b1 k) = Some (status, err, res, n)"
      "\<forall>i < k. after_reply d can_retry mx (Suc (Suc a + i)) (reply_at execute d ps b1 i) = None"
      using Suc.hyps(1) [OF m lt run] by auto
    have "after_reply d can_retry mx (Suc (a + i)) (reply_at execute d ps b i) = None" if "i < Suc k" for i
      using that None k(5) r0 by (cases i) (auto simp: reply_at_shift [symmetric])
    then show ?thesis using k r0
      by (intro exI [of _ "Suc k"]) (auto simp: reply_at_shift [symmetric] funpow_swap1)
  qed
qed

definition reply_ok :: "backend_reply \<Rightarrow> bool" where
  "reply_ok reply = (case reply of Reply outcome \<Rightarrow> br_ok outcome | _ \<Rightarrow> False)"

lemma after_reply_status:
  assumes "after_reply d (retry_allowed d key) mx n reply = Some (status, err, res, n)"
  shows "(status = INV_SUCCEEDED \<longleftrightarrow> reply_ok reply) \<and> status \<noteq> INV_BLOCKED \<and>
    (status = INV_OUTCOME_UNKNOWN \<longrightarrow> td_side_effect d \<noteq> READ_ONLY) \<and>
    (td_side_effect d \<noteq> READ_ONLY \<and> (reply = ReplyTimeout \<or> is_uncertain reply) \<longrightarrow> status = INV_OUTCOME_UNKNOWN)"
  using assms
  by (auto simp: after_reply_def write_outcome_def reply_ok_def is_uncertain_def retry_allowed_def Let_def
      split: backend_reply.splits if_splits)

lemma after_reply_continue: "after_reply d c mx n reply = None \<Longrightarrow> \<not> reply_ok reply \<and> c \<and> n < mx"
  by (auto simp: after_reply_def reply_ok_def Let_def split: backend_reply.splits if_splits)

text \<open>
  C28: the retry contract. A governed call runs the backend exactly as often as the record says: at
  least once, at most the configured number of attempts, and once only unless the tool is
  read-only, or an idempotent write whose backend takes the idempotency key that was given. It
  never runs again after a success; it is SUCCEEDED exactly when the last reply is a success, and a
  write whose last call timed out or lost its connection is OUTCOME_UNKNOWN, never a clean failure.
\<close>

theorem tool_retry_contract:
  assumes "execute_with_contract execute mx d ps key b = ((status, err, res, n), b')" "1 \<le> mx"
  shows "1 \<le> n \<and> n \<le> (if retry_allowed d key then mx else 1) \<and> b' = (next_backend execute d ps ^^ n) b \<and>
    (\<forall>i < n - 1. \<not> reply_ok (reply_at execute d ps b i)) \<and>
    (status = INV_SUCCEEDED \<longleftrightarrow> reply_ok (reply_at execute d ps b (n - 1))) \<and>
    (td_side_effect d \<noteq> READ_ONLY \<and>
       (reply_at execute d ps b (n - 1) = ReplyTimeout \<or> is_uncertain (reply_at execute d ps b (n - 1))) \<longrightarrow>
     status = INV_OUTCOME_UNKNOWN)"
proof -
  let ?c = "retry_allowed d key" and ?m = "if retry_allowed d key then mx else 1"
  have run: "attempt_loop execute d ps ?c ?m 0 None b = ((status, err, res, n), b')" "0 < ?m"
    using assms by (simp_all add: execute_with_contract_def Let_def)
  then obtain k where k: "n = Suc k" "n \<le> ?m" "b' = (next_backend execute d ps ^^ Suc k) b"
    "after_reply d ?c ?m n (reply_at execute d ps b k) = Some (status, err, res, n)"
    "\<forall>i < k. after_reply d ?c ?m (Suc i) (reply_at execute d ps b i) = None"
    using attempt_loop_runs [OF run(2,1)] by auto
  then show ?thesis using after_reply_status [OF k(4)] after_reply_continue by auto
qed

text \<open>A backend that counts its calls and times out.\<close>

definition timeout_backend :: "nat \<Rightarrow> tool_definition \<Rightarrow> params \<Rightarrow> backend_reply \<times> nat" where
  "timeout_backend n d ps = (ReplyTimeout, Suc n)"

theorem tool_retry_contract_witness:
  "execute_with_contract timeout_backend 3 sample_tool [] (Some ''k'') 0 =
     ((INV_OUTCOME_UNKNOWN, Some ''TOOL_TIMEOUT'', None, 1), 1) \<and>
   (1 :: nat) = (next_backend timeout_backend sample_tool [] ^^ 1) 0"
proof -
  have run: "execute_with_contract timeout_backend 3 sample_tool [] (Some ''k'') 0 =
     ((INV_OUTCOME_UNKNOWN, Some ''TOOL_TIMEOUT'', None, 1), 1)"
    by (simp add: execute_with_contract_def attempt_loop.simps timeout_backend_def after_reply_def write_outcome_def
          retry_allowed_def sample_tool_def)
  have "(1 :: nat) = (next_backend timeout_backend sample_tool [] ^^ 1) 0"
    using tool_retry_contract [OF run] by (rule conjE) (simp, blast)
  with run show ?thesis by blast
qed

subsection \<open>The calls recorded\<close>

lemma store_record_Inr:
  "store_record r calls = Inr calls' \<Longrightarrow> \<not> has_key call_key (call_key r) calls \<Longrightarrow> calls' = calls @ [stored_call r]"
  by (auto simp: store_record_def split: if_splits)

lemma stored_call_simps [simp]:
  "ir_status (stored_call r) = ir_status r" "ir_error_code (stored_call r) = ir_error_code r"
  "ir_call_id (stored_call r) = ir_call_id r" "ir_tenant_id (stored_call r) = ir_tenant_id r"
  "ir_params_hash (stored_call r) = ir_params_hash r" "ir_idempotency_key (stored_call r) = ir_idempotency_key r"
  by (simp_all add: stored_call_def)

definition fresh_call :: "(nat \<Rightarrow> string) \<Rightarrow> ('a, 'b) tool_state \<Rightarrow> bool" where
  "fresh_call uid st \<longleftrightarrow> (\<forall>t. \<not> has_key call_key (t, uid 0) (st_calls st))"

text \<open>What an invocation leaves in the tool-call table, by its result.\<close>

definition audited :: "('a, 'b) tool_state \<Rightarrow> tool_error + invocation_result \<Rightarrow> ('a, 'b) tool_state \<Rightarrow> bool" where
  "audited st res st' =
     (case res of
        Inr r \<Rightarrow>
          if res_replayed r
          then st_calls st' = st_calls st \<and> st_backend st' = st_backend st \<and> res_record r \<in> set (st_calls st) \<and>
               ir_status (res_record r) = INV_SUCCEEDED
          else st_calls st' = st_calls st @ [stored_call (res_record r)] \<and> res_status r = ir_status (res_record r)
      | Inl (ToolInvocationError code _) \<Rightarrow>
          st_backend st' = st_backend st \<and>
          (\<exists>b. st_calls st' = st_calls st @ [b] \<and> ir_status b = INV_BLOCKED \<and> ir_error_code b = Some code)
      | Inl _ \<Rightarrow> st_calls st' = st_calls st)"

lemma blocked_audited:
  assumes "fresh_call uid st" "blocked (uid 0) t iv n ps code def w (ToolInvocationError code det) st = (res, st')"
  obtains e where "res = Inl e" "audited st (Inl e) st'" "st_backend st' = st_backend st" "st_approvals st' = st_approvals st"
  using assms
  by (auto simp: blocked_def record_blocked_def audited_def fresh_call_def call_key_def
      split: sum.splits dest!: store_record_Inr)

lemma run_and_record_audited:
  assumes "fresh_call uid st" "run_and_record sv uid iv d ps h st = (res, st')"
  shows "audited st res st'"
  using assms
  by (auto simp: run_and_record_def audited_def fresh_call_def call_key_def Let_def
      split: sum.splits prod.splits dest!: store_record_Inr)

lemma replay_or_run_audited:
  assumes "fresh_call uid st" "replay_or_run sv uid iv d ps h st = (res, st')"
  shows "audited st res st'"
proof (cases "case iv_idempotency_key iv of None \<Rightarrow> None | Some key \<Rightarrow> find_replay (st_calls st) (iv_tenant_id iv) key")
  case None
  then show ?thesis using assms run_and_record_audited by (auto simp: replay_or_run_def)
next
  case (Some r)
  then have "r \<in> set (st_calls st) \<and> ir_status r = INV_SUCCEEDED"
    by (auto simp: find_replay_def is_replay_of_def split: option.splits dest!: find_SomeD)
  note r = this
  show ?thesis
  proof (cases "ir_params_hash r = h")
    case True
    then show ?thesis using assms Some r by (auto simp: replay_or_run_def audited_def)
  next
    case False
    then have "blocked (uid 0) (iv_tenant_id iv) iv (iv_tool_name iv) ps ''TOOL_IDEMPOTENCY_CONFLICT'' (Some d) True
        (ToolInvocationError ''TOOL_IDEMPOTENCY_CONFLICT'' None) st = (res, st')"
      using assms(2) Some by (simp add: replay_or_run_def)
    then show ?thesis using blocked_audited [OF assms(1)] by metis
  qed
qed

lemma gate_audited:
  assumes "fresh_call uid st" "gate_write_side_effect sv clock uid iv d ps h st = (res, st')"
  shows "st_backend st' = st_backend st \<and>
    (case res of Inl e \<Rightarrow> audited st (Inl e) st' | Inr _ \<Rightarrow> st_calls st' = st_calls st)"
proof (cases "sv_approvals sv")
  case None
  show ?thesis
  proof (cases "iv_mode iv \<noteq> Conversation \<and> td_side_effect d \<noteq> HIGH_RISK")
    case True
    then show ?thesis using None assms by (auto simp: gate_write_side_effect_def)
  next
    case False
    then have "blocked (uid 0) (td_tenant_id d) iv (td_name d) ps ''TOOL_AUTO_EXECUTION_BLOCKED'' (Some d) False
        (ToolInvocationError ''TOOL_AUTO_EXECUTION_BLOCKED'' None) st = (res, st')"
      using assms(2) None by (auto simp: gate_write_side_effect_def)
    then show ?thesis by (rule blocked_audited [OF assms(1)]) simp
  qed
next
  case (Some ops)
  then show ?thesis using assms(2)
    by (auto simp: gate_write_side_effect_def audited_def Let_def split: prod.splits option.splits sum.splits)
qed

lemma check_param_error: "check_param p kv = Some (ToolInvocationError code det) \<Longrightarrow> ToolInvocationError code det = PARAMS_INVALID"
  by (auto simp: check_param_def split: json.splits option.splits if_splits)

lemma check_required_error: "check_required p k = Some (ToolInvocationError code det) \<Longrightarrow> ToolInvocationError code det = PARAMS_INVALID"
  by (auto simp: check_required_def split: json.splits if_splits)

lemma validate_params_error:
  assumes "validate_params d ps = Inl (ToolInvocationError code det)"
  shows "code = ''TOOL_PARAMS_INVALID''"
proof -
  have "ToolInvocationError code det = PARAMS_INVALID"
    using assms check_param_error check_required_error
    by (auto simp: validate_params_def split: json.splits option.splits if_splits dest!: first_error_Some)
  then show ?thesis by (simp add: PARAMS_INVALID_def)
qed

lemma validate_params_Inr: "validate_params d ps = Inr x \<Longrightarrow> x = ps"
  by (auto simp: validate_params_def split: json.splits option.splits if_splits)

lemma invoke_cases:
  assumes "invoke sv clock uid iv st = (res, st')"
  obtains
    (block) n ps code def det where "blocked (uid 0) (iv_tenant_id iv) iv n ps code def True (ToolInvocationError code det) st = (res, st')"
  | (error) e where "res = Inl e" "st' = st" "\<And>code det. e \<noteq> ToolInvocationError code det"
  | (auto) d where "sv_resolve sv (iv_tenant_id iv) (iv_tool_name iv) (iv_version iv) = Some d"
      "validate_params d (iv_params iv) = Inr (iv_params iv)" "td_side_effect d \<in> AUTO_EXECUTABLE_SIDE_EFFECTS"
      "replay_or_run sv uid iv d (iv_params iv) (canonical_params_hash (iv_params iv)) st = (res, st')"
  | (gated) d g st1 where "sv_resolve sv (iv_tenant_id iv) (iv_tool_name iv) (iv_version iv) = Some d"
      "validate_params d (iv_params iv) = Inr (iv_params iv)" "td_side_effect d \<notin> AUTO_EXECUTABLE_SIDE_EFFECTS"
      "gate_write_side_effect sv clock uid iv d (iv_params iv) (canonical_params_hash (iv_params iv)) st = (g, st1)"
      "(\<exists>e. g = Inl e \<and> res = Inl e \<and> st' = st1) \<or>
       (\<exists>a. g = Inr (Some a) \<and> blocked (uid 0) (iv_tenant_id iv) iv (iv_tool_name iv) (iv_params iv) ''TOOL_APPROVAL_REQUIRED''
          (Some d) True (ToolInvocationError ''TOOL_APPROVAL_REQUIRED'' (Some a)) st1 = (res, st')) \<or>
       (g = Inr None \<and> replay_or_run sv uid iv d (iv_params iv) (canonical_params_hash (iv_params iv)) st1 = (res, st'))"
proof (cases "sv_resolve sv (iv_tenant_id iv) (iv_tool_name iv) (iv_version iv)")
  case None
  then show ?thesis using assms block by (auto simp: invoke_def Let_def)
next
  case (Some d)
  note d = this
  show ?thesis
  proof (cases "set (td_scopes d) \<subseteq> set (case iv_scopes iv of None \<Rightarrow> td_scopes d | Some scopes \<Rightarrow> scopes)")
    case False
    then show ?thesis using assms d block by (simp add: invoke_def)
  next
    case scopes: True
    show ?thesis
    proof (cases "validate_params d (iv_params iv)")
      case (Inl e)
      show ?thesis
      proof (cases "\<exists>code det. e = ToolInvocationError code det")
        case True
        then show ?thesis using assms d scopes Inl block validate_params_error [of d "iv_params iv"]
          by (auto simp: invoke_def)
      next
        case False
        then have "(res, st') = (Inl e, st)" using assms d scopes Inl by (cases e) (auto simp: invoke_def)
        then show ?thesis using False error by blast
      qed
    next
      case (Inr x)
      then have v: "validate_params d (iv_params iv) = Inr (iv_params iv)" using validate_params_Inr by blast
      show ?thesis
      proof (cases "td_side_effect d \<in> AUTO_EXECUTABLE_SIDE_EFFECTS")
        case True
        then show ?thesis using assms d scopes v auto by (simp add: invoke_def Let_def)
      next
        case False
        obtain g st1 where g: "gate_write_side_effect sv clock uid iv d (iv_params iv)
            (canonical_params_hash (iv_params iv)) st = (g, st1)" by fastforce
        show ?thesis by (rule gated [OF d v False g])
            (use assms d scopes v False g in \<open>auto simp: invoke_def Let_def split: sum.splits option.splits\<close>)
      qed
    qed
  qed
qed

text \<open>
  Every invocation is accounted for. A call that returns left exactly one new record of its
  outcome, or replayed an earlier successful one without running the backend; one that
  raises \<open>ToolInvocationError\<close> left one BLOCKED record with the code and never reached the backend; and
  an invocation that raises anything else left no record. Records are never changed.
\<close>

theorem invoke_audited:
  assumes "fresh_call uid st" "invoke sv clock uid iv st = (res, st')"
  shows "audited st res st'"
  using assms(2)
proof (cases rule: invoke_cases)
  case block
  then show ?thesis using blocked_audited [OF assms(1)] by metis
next
  case (error e)
  then show ?thesis by (cases e) (auto simp: audited_def)
next
  case auto
  then show ?thesis using replay_or_run_audited [OF assms(1)] by blast
next
  case (gated d g st1)
  note ga = gate_audited [OF assms(1) gated(4)]
  have mono: "audited st1 r st' \<Longrightarrow> g = Inr x \<Longrightarrow> audited st r st'" for r x
    using ga by (auto simp: audited_def split: sum.splits tool_error.splits)
  have fresh: "g = Inr x \<Longrightarrow> fresh_call uid st1" for x using ga assms(1) by (simp add: fresh_call_def)
  from gated(5) consider (e) e where "g = Inl e" "res = Inl e" "st' = st1"
    | (a) a where "g = Inr (Some a)" "blocked (uid 0) (iv_tenant_id iv) iv (iv_tool_name iv) (iv_params iv) ''TOOL_APPROVAL_REQUIRED''
          (Some d) True (ToolInvocationError ''TOOL_APPROVAL_REQUIRED'' (Some a)) st1 = (res, st')"
    | (r) "g = Inr None" "replay_or_run sv uid iv d (iv_params iv) (canonical_params_hash (iv_params iv)) st1 = (res, st')"
    by blast
  then show ?thesis
  proof cases
    case e
    then show ?thesis using ga by simp
  next
    case a
    then show ?thesis using mono blocked_audited [OF fresh] by metis
  next
    case r
    then show ?thesis using mono replay_or_run_audited [OF fresh] by metis
  qed
qed

subsection \<open>Writes and their approvals\<close>

context approval_store
begin

lemma find_approved_Some:
  assumes "wf s" "find_approved ops now t intent s = (Some r, s')"
  shows "s' = s \<and> view s (t, ap_approval_id r) = Some r \<and> intent_of r = intent \<and> ap_status r = AP_APPROVED"
  using assms find_open_Some [OF assms(1), of t intent "[AP_APPROVED]" r]
  by (auto simp: find_approved_def find_with_status_def split: option.splits if_splits)

lemma gate_consumes:
  assumes "wf (st_approvals st)" "sv_approvals sv = Some ops" "gate_write_side_effect sv clock uid iv d ps h st = (Inr None, st1)"
  shows "\<exists>i q. view (st_approvals st) (td_tenant_id d, i) = Some q \<and> ap_status q = AP_APPROVED \<and>
    intent_of q = intent_for d h (iv_requested_by iv) \<and> ap_release_id q = or_str (iv_release_id iv) ''unknown'' \<and>
    clock 1 < ap_expires_at q \<and>
    view (st_approvals st1) (td_tenant_id d, i) = Some (q\<lparr>ap_status := AP_CONSUMED\<rparr>)"
proof -
  let ?i = "intent_for d h (iv_requested_by iv)" and ?rel = "or_str (iv_release_id iv) ''unknown''"
  obtain f a1 where f: "find_approved ops (clock 0) (td_tenant_id d) ?i (st_approvals st) = (f, a1)" by fastforce
  show ?thesis
  proof (cases f)
    case None
    then show ?thesis using assms(2,3) f
      by (auto simp: gate_write_side_effect_def Let_def split: prod.splits option.splits)
  next
    case (Some q)
    then have a1: "a1 = st_approvals st" using find_approved_Some [OF assms(1)] f by blast
    obtain c a2 where c: "consume ops (clock 1) (td_tenant_id d) (ap_approval_id q) ?i ?rel a1 = (c, a2)" by fastforce
    obtain r where r: "c = Inr r" "st1 = st\<lparr>st_approvals := a2\<rparr>"
      using assms(2,3) f Some c by (auto simp: gate_write_side_effect_def Let_def split: sum.splits)
    show ?thesis using consume_evolves [OF _ c] assms(1) a1 r by (auto simp: transitioned_def)
  qed
qed

end

lemma replay_or_run_approvals: "replay_or_run sv uid iv d ps h st = (res, st') \<Longrightarrow> st_approvals st' = st_approvals st"
  by (auto simp: replay_or_run_def run_and_record_def blocked_def record_blocked_def Let_def
      split: option.splits if_splits sum.splits prod.splits)

lemma blocked_keeps: "blocked u t iv n ps code def w e st = (res, st') \<Longrightarrow> st_backend st' = st_backend st"
  by (auto simp: blocked_def record_blocked_def split: sum.splits)

lemma gate_keeps_backend: "gate_write_side_effect sv clock uid iv d ps h st = (g, st1) \<Longrightarrow> st_backend st1 = st_backend st"
  by (auto simp: gate_write_side_effect_def Let_def dest: blocked_keeps
      split: option.splits prod.splits sum.splits if_splits)

text \<open>
  C12: a write never runs unapproved. If an invocation of a tool that is not auto-executable reached
  the backend, then either the deployment has no approval service and this was a direct call
  of a tool that is not HIGH_RISK, or the call consumed an approval that was granted, unexpired, for exactly this
  tool version, parameters, subject and release, and that is now spent.
\<close>

theorem writes_consume_approval:
  assumes "sv_approvals sv = None \<or> sv_approvals sv = Some db_ops" "unique_key approval_key (st_approvals st)"
    and "sv_resolve sv (iv_tenant_id iv) (iv_tool_name iv) (iv_version iv) = Some d"
    and "td_side_effect d \<notin> AUTO_EXECUTABLE_SIDE_EFFECTS"
    and "invoke sv clock uid iv st = (res, st')" "st_backend st' \<noteq> st_backend st"
  shows "(sv_approvals sv = None \<and> iv_mode iv = Direct \<and> td_side_effect d = NON_IDEMPOTENT_WRITE) \<or>
    (\<exists>i q. db_get (st_approvals st) (td_tenant_id d) i = Some q \<and> ap_status q = AP_APPROVED \<and>
       intent_of q = intent_for d (canonical_params_hash (iv_params iv)) (iv_requested_by iv) \<and>
       ap_release_id q = or_str (iv_release_id iv) ''unknown'' \<and> clock 1 < ap_expires_at q \<and>
       db_get (st_approvals st') (td_tenant_id d) i = Some (q\<lparr>ap_status := AP_CONSUMED\<rparr>))"
  using assms(5)
proof (cases rule: invoke_cases)
  case block
  then show ?thesis using blocked_keeps assms(6) by blast
next
  case error
  then show ?thesis using assms(6) by simp
next
  case auto
  then show ?thesis using assms(3,4) by simp
next
  case (gated e g st1)
  then have e: "e = d" using assms(3) by simp
  have "st_backend st1 = st_backend st" using gate_keeps_backend gated(4) by blast
  then have "g = Inr None \<and> replay_or_run sv uid iv d (iv_params iv) (canonical_params_hash (iv_params iv)) st1 = (res, st')"
    using gated(5) e assms(6) by (auto dest: blocked_keeps)
  then have g: "g = Inr None" "replay_or_run sv uid iv d (iv_params iv) (canonical_params_hash (iv_params iv)) st1 = (res, st')"
    by auto
  show ?thesis
  proof (cases "sv_approvals sv")
    case None
    then have "iv_mode iv \<noteq> Conversation \<and> td_side_effect d \<noteq> HIGH_RISK"
      using gated(4) g(1) e by (auto simp: gate_write_side_effect_def blocked_def split: if_splits sum.splits)
    then show ?thesis using None assms(4)
      by (cases "td_side_effect d"; cases "iv_mode iv") (auto simp: AUTO_EXECUTABLE_SIDE_EFFECTS_def)
  next
    case (Some ops)
    then have "sv_approvals sv = Some db_ops" using assms(1) by auto
    then show ?thesis using dbs.gate_consumes [OF assms(2) _ gated(4) [unfolded e g(1)]] replay_or_run_approvals [OF g(2)]
      by (auto simp: db_view_def)
  qed
qed

text \<open>
  Replay. After an auto-executable call with an idempotency key has succeeded, the same invocation
  returns the recorded outcome as a replay, changes nothing and runs no backend, in every
  later state of the append-only table.
\<close>

theorem idempotent_replay:
  assumes "fresh_call uid st" "sv_resolve sv (iv_tenant_id iv) (iv_tool_name iv) (iv_version iv) = Some d"
    and "td_side_effect d \<in> AUTO_EXECUTABLE_SIDE_EFFECTS" "iv_idempotency_key iv = Some k"
    and "invoke sv clock uid iv st = (Inr r, st1)" "res_status r = INV_SUCCEEDED" "\<not> res_replayed r"
    and "st_calls st2 = st_calls st1 @ later"
  shows "invoke sv clock' uid' iv st2 =
    (Inr \<lparr>res_status = INV_SUCCEEDED, res_record = stored_call (res_record r), res_replayed = True,
          res_error_code = ir_error_code (res_record r)\<rparr>, st2)"
  using assms(5)
proof (cases rule: invoke_cases)
  case block
  then show ?thesis by (auto simp: blocked_def split: sum.splits)
next
  case error
  then show ?thesis by simp
next
  case gated
  then show ?thesis using assms(2,3) by simp
next
  case (auto e)
  let ?h = "canonical_params_hash (iv_params iv)"
  have e: "e = d" using auto(1) assms(2) by simp
  have none: "find_replay (st_calls st) (iv_tenant_id iv) k = None" and
    run: "run_and_record sv uid iv d (iv_params iv) ?h st = (Inr r, st1)"
    using auto(4) assms(4,7) e by (auto simp: replay_or_run_def blocked_def split: option.splits if_splits sum.splits)
  have rec: "ir_tenant_id (res_record r) = iv_tenant_id iv" "ir_idempotency_key (res_record r) = Some k"
    "ir_status (res_record r) = INV_SUCCEEDED" "ir_params_hash (res_record r) = ?h"
    using run assms(4,6) by (auto simp: run_and_record_def Let_def split: sum.splits prod.splits)
  have "st_calls st1 = st_calls st @ [stored_call (res_record r)]"
    using run_and_record_audited [OF assms(1) run] assms(7) by (simp add: audited_def)
  then have found: "find_replay (st_calls st2) (iv_tenant_id iv) k = Some (stored_call (res_record r))"
    using none rec assms(8) by (simp add: find_replay_def find_append is_replay_of_def)
  have scopes: "set (td_scopes d) \<subseteq> set (case iv_scopes iv of None \<Rightarrow> td_scopes d | Some scopes \<Rightarrow> scopes)"
    using assms(2,5) by (auto simp: invoke_def blocked_def split: if_splits sum.splits)
  show ?thesis using assms(2,3,4) auto(2) e scopes found rec by (simp add: invoke_def replay_or_run_def Let_def)
qed

subsection \<open>A deployment\<close>

text \<open>A backend that counts its calls and succeeds.\<close>

definition ok_backend :: "nat \<Rightarrow> tool_definition \<Rightarrow> params \<Rightarrow> backend_reply \<times> nat" where
  "ok_backend n d ps =
     (Reply \<lparr>br_ok = True, br_result = Some [(''paid'', JBool True)], br_error_code = None, br_transient = False\<rparr>, Suc n)"

definition sample_params :: params where "sample_params = [(''n'', JInt 3)]"

definition sample_service :: "side_effect \<Rightarrow> (approval_table, nat) tool_service" where
  "sample_service se = \<lparr>sv_resolve = db_resolve [sample_tool\<lparr>td_side_effect := se\<rparr>], sv_has_name = None, sv_execute = ok_backend,
     sv_max_read_attempts = init_max_read_attempts 3, sv_approvals = Some db_ops,
     sv_ttl_seconds = DEFAULT_APPROVAL_TTL_SECONDS\<rparr>"

definition sample_invocation :: invocation where
  "sample_invocation = \<lparr>iv_tenant_id = ''t1'', iv_tool_name = ''pay'', iv_params = sample_params, iv_scopes = None,
     iv_requested_by = ''dev'', iv_idempotency_key = Some ''k'', iv_mode = Conversation, iv_version = Some 1,
     iv_execution_id = None, iv_session_id = None, iv_release_id = Some ''r1'', iv_policy_version = None\<rparr>"

definition sample_approval :: approval_request where
  "sample_approval = \<lparr>ap_approval_id = ''a1'', ap_tenant_id = ''t1'', ap_release_id = ''r1'', ap_tool_name = ''pay'',
     ap_tool_version = 1, ap_params_hash = canonical_params_hash sample_params, ap_params = sample_params,
     ap_side_effect = HIGH_RISK, ap_requested_by = ''dev'', ap_requester_role = ''AGENT_RUNNER'',
     ap_policy_version = ''unspecified'', ap_status = AP_APPROVED, ap_requested_at = 0, ap_expires_at = 900000000,
     ap_decided_by = Some ''boss'', ap_decided_at = Some 1\<rparr>"

definition sample_state :: "(approval_table, nat) tool_state" where
  "sample_state = \<lparr>st_calls = [], st_approvals = [sample_approval], st_backend = 0\<rparr>"

definition sample_uid :: "nat \<Rightarrow> string" where "sample_uid n = (if n = 0 then ''c1'' else ''a2'')"

lemma sample_state_simps: "st_calls sample_state = []" "st_backend sample_state = 0" "st_approvals sample_state = [sample_approval]"
  by (simp_all add: sample_state_def)

lemma sample_resolve:
  "sv_resolve (sample_service se) (iv_tenant_id sample_invocation) (iv_tool_name sample_invocation) (iv_version sample_invocation) =
     Some (sample_tool\<lparr>td_side_effect := se\<rparr>)"
  by (simp add: sample_service_def sample_invocation_def db_resolve_def row_of_Cons def_key_def sample_tool_def)

lemma sample_fresh: "fresh_call sample_uid sample_state"
  by (simp add: fresh_call_def sample_state_def has_key_def)

lemma sample_valid: "validate_params (sample_tool\<lparr>td_side_effect := se\<rparr>) sample_params = Inr sample_params"
  by (simp add: validate_params_def sample_tool_def sample_params_def dict_get_def py_iter_def check_required_def
        check_param_def is_bool_def json_isinstance_def)

lemma sample_run:
  "run_and_record (sample_service se) sample_uid sample_invocation (sample_tool\<lparr>td_side_effect := se\<rparr>) sample_params h st =
     (let r = \<lparr>ir_call_id = ''c1'', ir_tenant_id = ''t1'', ir_tool_name = ''pay'', ir_tool_version = Some 1,
        ir_side_effect = Some se, ir_params = sample_params, ir_params_hash = h, ir_idempotency_key = Some ''k'',
        ir_status = INV_SUCCEEDED, ir_attempts = 1, ir_cost_micros = 5, ir_requested_by = ''dev'', ir_execution_id = None,
        ir_session_id = None, ir_release_id = Some ''r1'', ir_error_code = None, ir_result = Some [(''paid'', JBool True)],
        ir_data_classification = Some INTERNAL\<rparr> in
      case store_record r (st_calls st) of
        Inl e \<Rightarrow> (Inl (ToolSqlError e), st\<lparr>st_backend := Suc (st_backend st)\<rparr>)
      | Inr calls \<Rightarrow> (Inr \<lparr>res_status = INV_SUCCEEDED, res_record = r, res_replayed = False, res_error_code = None\<rparr>,
          st\<lparr>st_backend := Suc (st_backend st), st_calls := calls\<rparr>))"
proof -
  have "execute_with_contract ok_backend (init_max_read_attempts 3) (sample_tool\<lparr>td_side_effect := se\<rparr>) sample_params (Some ''k'') b =
      ((INV_SUCCEEDED, None, Some [(''paid'', JBool True)], 1), Suc b)" for b
    by (simp add: execute_with_contract_def attempt_loop.simps [of _ _ _ _ _ 0] ok_backend_def after_reply_def
        init_max_read_attempts_def Let_def)
  then show ?thesis
    by (simp add: run_and_record_def sample_service_def sample_invocation_def sample_uid_def) (simp add: sample_tool_def Let_def)
qed

lemma sample_gate:
  "gate_write_side_effect (sample_service HIGH_RISK) (\<lambda>n. 2) sample_uid sample_invocation (sample_tool\<lparr>td_side_effect := HIGH_RISK\<rparr>)
     sample_params (canonical_params_hash sample_params) sample_state =
   (Inr None, sample_state\<lparr>st_approvals := [sample_approval\<lparr>ap_status := AP_CONSUMED\<rparr>]\<rparr>)"
proof -
  have i: "intent_of sample_approval = intent_for (sample_tool\<lparr>td_side_effect := HIGH_RISK\<rparr>)
      (canonical_params_hash sample_params) ''dev''"
    by (simp add: intent_of_def intent_for_def sample_approval_def sample_tool_def)
  have a: "ap_status sample_approval = AP_APPROVED" "ap_expires_at sample_approval = 900000000" "ap_release_id sample_approval = ''r1''"
    "ap_tenant_id sample_approval = ''t1''" "approval_key sample_approval = (''t1'', ''a1'')" "ap_approval_id sample_approval = ''a1''"
    "transitioned AP_CONSUMED None None sample_approval = sample_approval\<lparr>ap_status := AP_CONSUMED\<rparr>"
    by (simp_all add: sample_approval_def approval_key_def transitioned_def)
  have "find_approved db_ops 2 ''t1'' (intent_of sample_approval) [sample_approval] = (Some sample_approval, [sample_approval])"
    by (simp add: find_approved_def find_with_status_def db_ops_def db_find_open_def a)
  moreover have "consume db_ops 2 ''t1'' ''a1'' (intent_of sample_approval) ''r1'' [sample_approval] =
      (Inr (sample_approval\<lparr>ap_status := AP_CONSUMED\<rparr>), [sample_approval\<lparr>ap_status := AP_CONSUMED\<rparr>])"
    by (simp add: consume_def approval_get_def db_ops_def db_get_def db_transition_def row_of_Cons update_where_Cons a)
  moreover have "td_tenant_id (sample_tool\<lparr>td_side_effect := HIGH_RISK\<rparr>) = ''t1''" by (simp add: sample_tool_def)
  ultimately show ?thesis unfolding i
    by (simp add: gate_write_side_effect_def sample_service_def sample_invocation_def sample_state_def or_str_def Let_def a)
qed

lemma sample_scopes: "iv_scopes sample_invocation = None" "iv_params sample_invocation = sample_params"
  "iv_idempotency_key sample_invocation = Some ''k''"
  by (simp_all add: sample_invocation_def)

lemma sample_invoke_runs:
  "st_backend (snd (invoke (sample_service HIGH_RISK) (\<lambda>n. 2) sample_uid sample_invocation sample_state)) = 1"
  by (simp add: invoke_def sample_resolve sample_scopes sample_valid sample_gate AUTO_EXECUTABLE_SIDE_EFFECTS_def Let_def
      replay_or_run_def sample_run find_replay_def sample_state_simps store_record_def call_row_ok_def has_key_def)

theorem invoke_audited_witness:
  "audited sample_state (fst (invoke (sample_service HIGH_RISK) (\<lambda>n. 2) sample_uid sample_invocation sample_state))
     (snd (invoke (sample_service HIGH_RISK) (\<lambda>n. 2) sample_uid sample_invocation sample_state))"
  by (rule invoke_audited [OF sample_fresh surjective_pairing])

theorem writes_consume_approval_witness:
  "\<exists>i q. db_get [sample_approval] ''t1'' i = Some q \<and>
     db_get (st_approvals (snd (invoke (sample_service HIGH_RISK) (\<lambda>n. 2) sample_uid sample_invocation sample_state))) ''t1'' i =
       Some (q\<lparr>ap_status := AP_CONSUMED\<rparr>)"
proof -
  have "unique_key approval_key (st_approvals sample_state)" by (simp add: sample_state_def unique_key_def)
  moreover have "st_backend (snd (invoke (sample_service HIGH_RISK) (\<lambda>n. 2) sample_uid sample_invocation sample_state)) \<noteq> st_backend sample_state"
    using sample_invoke_runs by (simp add: sample_state_def)
  ultimately show ?thesis
    using writes_consume_approval [OF _ _ sample_resolve _ surjective_pairing, of HIGH_RISK sample_state "\<lambda>n. 2" sample_uid]
    by (auto simp: AUTO_EXECUTABLE_SIDE_EFFECTS_def sample_service_def sample_state_def sample_tool_def)
qed

lemma sample_idempotent_runs:
  "\<exists>r st1. invoke (sample_service IDEMPOTENT_WRITE) (\<lambda>n. 2) sample_uid sample_invocation sample_state = (Inr r, st1) \<and>
     res_status r = INV_SUCCEEDED \<and> \<not> res_replayed r"
  by (simp add: invoke_def sample_resolve sample_scopes sample_valid AUTO_EXECUTABLE_SIDE_EFFECTS_def Let_def
      replay_or_run_def sample_run find_replay_def sample_state_simps store_record_def call_row_ok_def has_key_def)

theorem idempotent_replay_witness:
  "\<exists>r st1. invoke (sample_service IDEMPOTENT_WRITE) (\<lambda>n. 2) sample_uid sample_invocation sample_state = (Inr r, st1) \<and>
     snd (invoke (sample_service IDEMPOTENT_WRITE) (\<lambda>n. 3) (\<lambda>n. ''c2'') sample_invocation st1) = st1"
proof -
  obtain r st1 where r: "invoke (sample_service IDEMPOTENT_WRITE) (\<lambda>n. 2) sample_uid sample_invocation sample_state = (Inr r, st1)"
    "res_status r = INV_SUCCEEDED" "\<not> res_replayed r"
    using sample_idempotent_runs by blast
  have k: "iv_idempotency_key sample_invocation = Some ''k''" by (simp add: sample_invocation_def)
  have "td_side_effect (sample_tool\<lparr>td_side_effect := IDEMPOTENT_WRITE\<rparr>) \<in> AUTO_EXECUTABLE_SIDE_EFFECTS"
    by (simp add: AUTO_EXECUTABLE_SIDE_EFFECTS_def)
  then have "invoke (sample_service IDEMPOTENT_WRITE) (\<lambda>n. 3) (\<lambda>n. ''c2'') sample_invocation st1 =
     (Inr \<lparr>res_status = INV_SUCCEEDED, res_record = stored_call (res_record r), res_replayed = True,
          res_error_code = ir_error_code (res_record r)\<rparr>, st1)"
    using idempotent_replay [OF sample_fresh sample_resolve _ k r, of st1 "[]"] by simp
  then show ?thesis using r(1) by simp
qed

end
