(* ===== verification/Tool_Recovery.thy ===== *)
theory Tool_Recovery
  imports Tool_Executor Sessions
begin

text \<open>
  What happens around a tool call that could not simply run: \<open>trpc_service/tool/checkpoints.py\<close>
  parks an execution that waits for its approval and resumes it on a fresh session lease, and
  \<open>trpc_service/tool/reconciliation.py\<close> closes calls whose outcome is unknown. Both keep their rows
  in memory or in the database (\<open>trpc_service/tool/store.py\<close>); the service is written over a record
  of the store's operations, and what it relies on is a locale that both stores interpret.
\<close>

subsection \<open>Checkpoints\<close>

datatype checkpoint_status = WAITING_APPROVAL | RESUMED | ABANDONED

record execution_checkpoint =
  cp_checkpoint_id :: string
  cp_tenant_id :: string
  cp_execution_id :: string
  cp_session_id :: string
  cp_release_id :: string
  cp_approval_id :: string
  cp_tool_name :: string
  cp_tool_version :: int
  cp_params_hash :: string
  cp_requested_by :: string
  cp_parked_by :: string
  cp_status :: checkpoint_status
  cp_created_at :: "timestamp option"
  cp_resumed_by :: "string option"
  cp_resumed_at :: "timestamp option"

datatype checkpoint_error =
    CheckpointError string
  | CheckpointSessionError session_error

record 'c checkpoint_ops =
  cp_upsert :: "'c \<Rightarrow> execution_checkpoint \<Rightarrow> 'c"
  cp_get :: "'c \<Rightarrow> string \<Rightarrow> string \<Rightarrow> execution_checkpoint option"

definition mem_checkpoint_upsert :: "execution_checkpoint list \<Rightarrow> execution_checkpoint \<Rightarrow> execution_checkpoint list" where
  "mem_checkpoint_upsert s c =
     (if has_key cp_checkpoint_id (cp_checkpoint_id c) s
      then update_where (\<lambda>q. cp_checkpoint_id q = cp_checkpoint_id c) (\<lambda>_. c) s
      else s @ [c])"

definition mem_checkpoint_get :: "execution_checkpoint list \<Rightarrow> string \<Rightarrow> string \<Rightarrow> execution_checkpoint option" where
  "mem_checkpoint_get s tenant_id checkpoint_id =
     (case row_of cp_checkpoint_id checkpoint_id s of
        Some c \<Rightarrow> if cp_tenant_id c = tenant_id then Some c else None
      | None \<Rightarrow> None)"

definition mem_checkpoint_ops :: "execution_checkpoint list checkpoint_ops" where
  "mem_checkpoint_ops = \<lparr>cp_upsert = mem_checkpoint_upsert, cp_get = mem_checkpoint_get\<rparr>"

definition checkpoint_key :: "execution_checkpoint \<Rightarrow> string \<times> string" where
  "checkpoint_key c = (cp_tenant_id c, cp_checkpoint_id c)"

definition db_checkpoint_upsert :: "execution_checkpoint list \<Rightarrow> execution_checkpoint \<Rightarrow> execution_checkpoint list" where
  "db_checkpoint_upsert s c =
     (if has_key checkpoint_key (checkpoint_key c) s
      then update_where (\<lambda>q. checkpoint_key q = checkpoint_key c)
             (\<lambda>q. q\<lparr>cp_status := cp_status c, cp_resumed_by := cp_resumed_by c, cp_resumed_at := cp_resumed_at c\<rparr>) s
      else s @ [c])"

definition db_checkpoint_get :: "execution_checkpoint list \<Rightarrow> string \<Rightarrow> string \<Rightarrow> execution_checkpoint option" where
  "db_checkpoint_get s tenant_id checkpoint_id = row_of checkpoint_key (tenant_id, checkpoint_id) s"

definition db_checkpoint_ops :: "execution_checkpoint list checkpoint_ops" where
  "db_checkpoint_ops = \<lparr>cp_upsert = db_checkpoint_upsert, cp_get = db_checkpoint_get\<rparr>"

text \<open>The wait state, the approvals and the sessions a resume works on.\<close>

record ('c, 'a) recovery_state =
  rs_checkpoints :: 'c
  rs_approvals :: 'a
  rs_sessions :: session_tables

definition park ::
  "'c checkpoint_ops \<Rightarrow> timestamp \<Rightarrow> timestamp \<Rightarrow> string \<Rightarrow> string \<Rightarrow> string \<Rightarrow> string \<Rightarrow> string \<Rightarrow> string \<Rightarrow> tool_intent \<Rightarrow> string
   \<Rightarrow> ('c, 'a) recovery_state \<Rightarrow> execution_checkpoint \<times> ('c, 'a) recovery_state" where
  "park ops now now' new_id tenant_id execution_id session_id release_id approval_id intent parked_by st =
     (let c = \<lparr>cp_checkpoint_id = new_id, cp_tenant_id = tenant_id, cp_execution_id = execution_id, cp_session_id = session_id,
               cp_release_id = release_id, cp_approval_id = approval_id, cp_tool_name = in_tool_name intent,
               cp_tool_version = in_tool_version intent, cp_params_hash = in_params_hash intent,
               cp_requested_by = in_requested_by intent, cp_parked_by = parked_by, cp_status = WAITING_APPROVAL,
               cp_created_at = Some now, cp_resumed_by = None, cp_resumed_at = None\<rparr>
      in (c, st\<lparr>rs_checkpoints := cp_upsert ops (rs_checkpoints st) c,
                rs_sessions := release now' tenant_id session_id parked_by (rs_sessions st)\<rparr>))"

definition checkpoint_intent :: "execution_checkpoint \<Rightarrow> tool_intent" where
  "checkpoint_intent c = \<lparr>in_tool_name = cp_tool_name c, in_tool_version = cp_tool_version c,
     in_params_hash = cp_params_hash c, in_requested_by = cp_requested_by c\<rparr>"

text \<open>The clock is read in the order acquire, consume, release, mark.\<close>

definition resume ::
  "'c checkpoint_ops \<Rightarrow> 'a approval_ops \<Rightarrow> (nat \<Rightarrow> timestamp) \<Rightarrow> int \<Rightarrow> string \<Rightarrow> string \<Rightarrow> string
   \<Rightarrow> ('c, 'a) recovery_state \<Rightarrow> (checkpoint_error + lease_grant) \<times> ('c, 'a) recovery_state" where
  "resume ops approvals clock ttl tenant_id checkpoint_id resumed_by st =
     (case cp_get ops (rs_checkpoints st) tenant_id checkpoint_id of
        None \<Rightarrow> (Inl (CheckpointError ''CHECKPOINT_NOT_FOUND''), st)
      | Some c \<Rightarrow>
         if cp_status c \<noteq> WAITING_APPROVAL then (Inl (CheckpointError ''CHECKPOINT_NOT_WAITING''), st)
         else (case acquire (clock 0) ttl tenant_id (cp_session_id c) resumed_by (rs_sessions st) of
            Inl e \<Rightarrow> (Inl (CheckpointSessionError e), st)
          | Inr (grant, db1) \<Rightarrow>
             (case consume approvals (clock 1) tenant_id (cp_approval_id c) (checkpoint_intent c) (cp_release_id c) (rs_approvals st) of
                (Inl _, a1) \<Rightarrow>
                  (Inl (CheckpointError ''CHECKPOINT_APPROVAL_NOT_GRANTED''),
                   st\<lparr>rs_approvals := a1, rs_sessions := release (clock 2) tenant_id (cp_session_id c) resumed_by db1\<rparr>)
              | (Inr _, a1) \<Rightarrow>
                  (Inr grant,
                   st\<lparr>rs_approvals := a1, rs_sessions := db1,
                      rs_checkpoints := cp_upsert ops (rs_checkpoints st)
                        (c\<lparr>cp_status := RESUMED, cp_resumed_by := Some resumed_by, cp_resumed_at := Some (clock 3)\<rparr>)\<rparr>))))"

definition checkpoint_get ::
  "'c checkpoint_ops \<Rightarrow> string \<Rightarrow> string \<Rightarrow> 'c \<Rightarrow> checkpoint_error + execution_checkpoint" where
  "checkpoint_get ops tenant_id checkpoint_id s =
     (case cp_get ops s tenant_id checkpoint_id of
        None \<Rightarrow> Inl (CheckpointError ''CHECKPOINT_NOT_FOUND'') | Some c \<Rightarrow> Inr c)"

subsection \<open>Reconciliation\<close>

datatype reconciliation_decision = CONFIRMED_EXECUTED | CONFIRMED_NOT_EXECUTED

datatype reconciliation_error = ReconciliationError string

record reconciliation =
  rc_call_id :: string
  rc_tenant_id :: string
  rc_decision :: reconciliation_decision
  rc_resolved_by :: string
  rc_resolved_at :: timestamp
  rc_note :: "string option"

record 'r reconciliation_ops =
  rc_upsert :: "'r \<Rightarrow> reconciliation \<Rightarrow> 'r"
  rc_get :: "'r \<Rightarrow> string \<Rightarrow> string \<Rightarrow> reconciliation option"
  rc_all_for :: "'r \<Rightarrow> string \<Rightarrow> reconciliation list"

definition mem_rec_upsert :: "reconciliation list \<Rightarrow> reconciliation \<Rightarrow> reconciliation list" where
  "mem_rec_upsert s r =
     (if has_key rc_call_id (rc_call_id r) s then update_where (\<lambda>q. rc_call_id q = rc_call_id r) (\<lambda>_. r) s else s @ [r])"

definition mem_rec_get :: "reconciliation list \<Rightarrow> string \<Rightarrow> string \<Rightarrow> reconciliation option" where
  "mem_rec_get s tenant_id call_id =
     (case row_of rc_call_id call_id s of Some r \<Rightarrow> if rc_tenant_id r = tenant_id then Some r else None | None \<Rightarrow> None)"

definition mem_rec_all_for :: "reconciliation list \<Rightarrow> string \<Rightarrow> reconciliation list" where
  "mem_rec_all_for s tenant_id = filter (\<lambda>r. rc_tenant_id r = tenant_id) s"

definition mem_rec_ops :: "reconciliation list reconciliation_ops" where
  "mem_rec_ops = \<lparr>rc_upsert = mem_rec_upsert, rc_get = mem_rec_get, rc_all_for = mem_rec_all_for\<rparr>"

definition rec_key :: "reconciliation \<Rightarrow> string \<times> string" where
  "rec_key r = (rc_tenant_id r, rc_call_id r)"

definition db_rec_upsert :: "reconciliation list \<Rightarrow> reconciliation \<Rightarrow> reconciliation list" where
  "db_rec_upsert s r = (if has_key rec_key (rec_key r) s then s else s @ [r])"

definition db_rec_get :: "reconciliation list \<Rightarrow> string \<Rightarrow> string \<Rightarrow> reconciliation option" where
  "db_rec_get s tenant_id call_id = row_of rec_key (tenant_id, call_id) s"

definition db_rec_all_for :: "reconciliation list \<Rightarrow> string \<Rightarrow> reconciliation list" where
  "db_rec_all_for s tenant_id = filter (\<lambda>r. rc_tenant_id r = tenant_id) s"

definition db_rec_ops :: "reconciliation list reconciliation_ops" where
  "db_rec_ops = \<lparr>rc_upsert = db_rec_upsert, rc_get = db_rec_get, rc_all_for = db_rec_all_for\<rparr>"

definition open_calls :: "'r reconciliation_ops \<Rightarrow> invocation_record list \<Rightarrow> string \<Rightarrow> 'r \<Rightarrow> invocation_record list" where
  "open_calls ops calls tenant_id s =
     filter (\<lambda>c. ir_call_id c \<notin> set (map rc_call_id (rc_all_for ops s tenant_id))) (list_unknown calls tenant_id)"

text \<open>The checks of \<open>resolve\<close>, and the whole of it.\<close>

definition resolve_check ::
  "'r reconciliation_ops \<Rightarrow> invocation_record list \<Rightarrow> string \<Rightarrow> string \<Rightarrow> 'r \<Rightarrow> reconciliation_error option" where
  "resolve_check ops calls tenant_id call_id s =
     (case get_call calls tenant_id call_id of
        None \<Rightarrow> Some (ReconciliationError ''RECONCILIATION_CALL_NOT_FOUND'')
      | Some c \<Rightarrow>
         if ir_status c \<noteq> INV_OUTCOME_UNKNOWN then Some (ReconciliationError ''RECONCILIATION_CALL_NOT_UNKNOWN'')
         else if rc_get ops s tenant_id call_id \<noteq> None then Some (ReconciliationError ''RECONCILIATION_ALREADY_RESOLVED'')
         else None)"

definition resolve_call ::
  "'r reconciliation_ops \<Rightarrow> invocation_record list \<Rightarrow> timestamp \<Rightarrow> string \<Rightarrow> string \<Rightarrow> reconciliation_decision \<Rightarrow> string
   \<Rightarrow> string option \<Rightarrow> 'r \<Rightarrow> (reconciliation_error + reconciliation) \<times> 'r" where
  "resolve_call ops calls now tenant_id call_id decision resolved_by note s =
     (case resolve_check ops calls tenant_id call_id s of
        Some e \<Rightarrow> (Inl e, s)
      | None \<Rightarrow>
         (let r = \<lparr>rc_call_id = call_id, rc_tenant_id = tenant_id, rc_decision = decision, rc_resolved_by = resolved_by,
                   rc_resolved_at = now, rc_note = note\<rparr>
          in (Inr r, rc_upsert ops s r)))"

subsection \<open>What the stores promise\<close>

definition parked :: "execution_checkpoint \<Rightarrow> execution_checkpoint" where
  "parked c = c\<lparr>cp_status := WAITING_APPROVAL, cp_resumed_by := None, cp_resumed_at := None\<rparr>"

locale checkpoint_store =
  fixes ops :: "'c checkpoint_ops" and wf :: "'c \<Rightarrow> bool"
  assumes get_key: "wf s \<Longrightarrow> cp_get ops s t i = Some c \<Longrightarrow> cp_tenant_id c = t \<and> cp_checkpoint_id c = i"
    and upsert_new: "wf s \<Longrightarrow> \<forall>t. cp_get ops s t (cp_checkpoint_id c) = None \<Longrightarrow>
      wf (cp_upsert ops s c) \<and> cp_get ops (cp_upsert ops s c) (cp_tenant_id c) (cp_checkpoint_id c) = Some c"
    and upsert_again: "wf s \<Longrightarrow> cp_get ops s (cp_tenant_id c) (cp_checkpoint_id c) = Some q \<Longrightarrow> parked c = parked q \<Longrightarrow>
      wf (cp_upsert ops s c) \<and> cp_get ops (cp_upsert ops s c) (cp_tenant_id c) (cp_checkpoint_id c) = Some c"
begin

lemma park_waits:
  assumes "wf (rs_checkpoints st)" "\<forall>t. cp_get ops (rs_checkpoints st) t i = None"
    and "park ops now now' i t ex se rel ap intent w st = (c, st')"
  shows "wf (rs_checkpoints st') \<and> cp_get ops (rs_checkpoints st') t i = Some c \<and> cp_status c = WAITING_APPROVAL \<and>
    checkpoint_intent c = intent"
proof -
  have c: "cp_checkpoint_id c = i" "cp_tenant_id c = t" "cp_status c = WAITING_APPROVAL" "checkpoint_intent c = intent"
    "rs_checkpoints st' = cp_upsert ops (rs_checkpoints st) c"
    using assms(3) by (auto simp: park_def checkpoint_intent_def Let_def)
  then show ?thesis using upsert_new [OF assms(1), of c] assms(2) by auto
qed

lemma resume_marks:
  assumes "wf (rs_checkpoints st)" "resume ops approvals clock ttl t i w st = (Inr g, st1)"
  shows "\<exists>c. cp_get ops (rs_checkpoints st) t i = Some c \<and> cp_status c = WAITING_APPROVAL \<and>
    wf (rs_checkpoints st1) \<and> cp_get ops (rs_checkpoints st1) t i =
      Some (c\<lparr>cp_status := RESUMED, cp_resumed_by := Some w, cp_resumed_at := Some (clock 3)\<rparr>) \<and>
    acquire (clock 0) ttl t (cp_session_id c) w (rs_sessions st) = Inr (g, rs_sessions st1) \<and>
    (\<exists>r. consume approvals (clock 1) t (cp_approval_id c) (checkpoint_intent c) (cp_release_id c) (rs_approvals st) =
      (Inr r, rs_approvals st1))"
proof -
  obtain c a1 r where c: "cp_get ops (rs_checkpoints st) t i = Some c" "cp_status c = WAITING_APPROVAL"
    "acquire (clock 0) ttl t (cp_session_id c) w (rs_sessions st) = Inr (g, rs_sessions st1)"
    "consume approvals (clock 1) t (cp_approval_id c) (checkpoint_intent c) (cp_release_id c) (rs_approvals st) = (Inr r, rs_approvals st1)"
    "rs_checkpoints st1 = cp_upsert ops (rs_checkpoints st)
       (c\<lparr>cp_status := RESUMED, cp_resumed_by := Some w, cp_resumed_at := Some (clock 3)\<rparr>)"
    using assms(2) by (auto simp: resume_def split: option.splits if_splits sum.splits prod.splits)
  let ?c = "c\<lparr>cp_status := RESUMED, cp_resumed_by := Some w, cp_resumed_at := Some (clock 3)\<rparr>"
  have "cp_tenant_id c = t \<and> cp_checkpoint_id c = i" using get_key [OF assms(1) c(1)] .
  then show ?thesis using upsert_again [OF assms(1), of ?c c] c by (auto simp: parked_def)
qed

end

lemma mem_checkpoint_get_row:
  "mem_checkpoint_get s t i = Some c \<Longrightarrow> row_of cp_checkpoint_id i s = Some c \<and> cp_tenant_id c = t \<and> cp_checkpoint_id c = i"
  by (auto simp: mem_checkpoint_get_def split: option.splits if_splits dest: row_of_SomeD)

interpretation mcp: checkpoint_store mem_checkpoint_ops "unique_key cp_checkpoint_id"
proof (unfold_locales, goal_cases)
  case (1 s t i c) then show ?case using mem_checkpoint_get_row by (simp add: mem_checkpoint_ops_def)
next
  case (2 s c)
  have "\<not> has_key cp_checkpoint_id (cp_checkpoint_id c) s"
    using 2(2) row_of_unique [OF 2(1)]
    by (auto simp: mem_checkpoint_ops_def mem_checkpoint_get_def has_key_def split: option.splits)
      (metis option.distinct(1))
  moreover from this have "row_of cp_checkpoint_id (cp_checkpoint_id c) s = None" by (simp add: row_of_None_iff)
  ultimately show ?case using 2(1)
    by (simp add: mem_checkpoint_ops_def mem_checkpoint_upsert_def mem_checkpoint_get_def unique_key_append row_of_append)
next
  case (3 s c q)
  then have "has_key cp_checkpoint_id (cp_checkpoint_id c) s"
    using mem_checkpoint_get_row [of s "cp_tenant_id c" "cp_checkpoint_id c" q] row_of_None_iff
    by (metis mem_checkpoint_ops_def checkpoint_ops.select_convs(2) option.distinct(1))
  then show ?case using 3(1) unique_replace [of cp_checkpoint_id c "cp_checkpoint_id c" s]
    by (simp add: mem_checkpoint_ops_def mem_checkpoint_upsert_def mem_checkpoint_get_def row_of_replace)
qed

interpretation dcp: checkpoint_store db_checkpoint_ops "unique_key checkpoint_key"
proof (unfold_locales, goal_cases)
  case (1 s t i c) then show ?case
    by (auto simp: db_checkpoint_ops_def db_checkpoint_get_def checkpoint_key_def dest!: row_of_SomeD)
next
  case (2 s c)
  then have "row_of checkpoint_key (checkpoint_key c) s = None"
    by (simp add: db_checkpoint_ops_def db_checkpoint_get_def checkpoint_key_def)
  moreover from this have "\<not> has_key checkpoint_key (checkpoint_key c) s" by (simp add: row_of_None_iff)
  ultimately show ?case using 2(1)
    by (simp add: db_checkpoint_ops_def db_checkpoint_upsert_def db_checkpoint_get_def unique_key_append row_of_append
        checkpoint_key_def)
next
  case (3 s c q)
  then have g: "row_of checkpoint_key (checkpoint_key c) s = Some q"
    by (simp add: db_checkpoint_ops_def db_checkpoint_get_def checkpoint_key_def)
  let ?f = "\<lambda>q. q\<lparr>cp_status := cp_status c, cp_resumed_by := cp_resumed_by c, cp_resumed_at := cp_resumed_at c\<rparr>"
  have key: "checkpoint_key (?f x) = checkpoint_key x" for x by (simp add: checkpoint_key_def)
  have "?f q = ?f (parked q)" by (simp add: parked_def)
  also have "\<dots> = c" using 3(3) [symmetric] by (simp add: parked_def)
  finally have q: "?f q = c" .
  have "has_key checkpoint_key (checkpoint_key c) s" using g by (metis row_of_None_iff option.distinct(1))
  then have "db_checkpoint_upsert s c = update_where (\<lambda>q. checkpoint_key q = checkpoint_key c) ?f s"
    by (simp add: db_checkpoint_upsert_def)
  then show ?case
    using 3(1) g q key row_of_SomeD [OF g] unique_key_update_where [of checkpoint_key ?f, OF key]
      row_of_update_where [of checkpoint_key ?f, OF key]
    by (simp add: db_checkpoint_ops_def db_checkpoint_get_def checkpoint_key_def)
qed

subsection \<open>Resuming\<close>

text \<open>
  What a resume that succeeds has done. The checkpoint was waiting; the approval it names was
  granted for exactly its tool call and release and is spent now; the worker holds the
  session under a fencing token larger than every token before it; and the checkpoint is
  marked as resumed by that worker.
\<close>

theorem resume_spends_approval:
  assumes "unique_key checkpoint_key (rs_checkpoints st)" "unique_key approval_key (rs_approvals st)"
    and "resume db_checkpoint_ops db_ops clock ttl t i w st = (Inr g, st1)"
  shows "\<exists>c q. db_checkpoint_get (rs_checkpoints st) t i = Some c \<and> cp_status c = WAITING_APPROVAL \<and>
    db_checkpoint_get (rs_checkpoints st1) t i =
      Some (c\<lparr>cp_status := RESUMED, cp_resumed_by := Some w, cp_resumed_at := Some (clock 3)\<rparr>) \<and>
    db_get (rs_approvals st) t (cp_approval_id c) = Some q \<and> ap_status q = AP_APPROVED \<and> clock 1 < ap_expires_at q \<and>
    intent_of q = checkpoint_intent c \<and> ap_release_id q = cp_release_id c \<and>
    db_get (rs_approvals st1) t (cp_approval_id c) = Some (q\<lparr>ap_status := AP_CONSUMED\<rparr>) \<and>
    lease_token (t, cp_session_id c) (rs_sessions st) < fencing_token g \<and>
    session_lease (rs_sessions st1) (t, cp_session_id c) =
      Some \<lparr>sl_owner_id = w, sl_fencing_token = fencing_token g, sl_expires_at = clock 0 + ttl, sl_renewed_at = clock 0\<rparr>"
proof -
  obtain c r where c: "db_checkpoint_get (rs_checkpoints st) t i = Some c" "cp_status c = WAITING_APPROVAL"
    "db_checkpoint_get (rs_checkpoints st1) t i =
      Some (c\<lparr>cp_status := RESUMED, cp_resumed_by := Some w, cp_resumed_at := Some (clock 3)\<rparr>)"
    "acquire (clock 0) ttl t (cp_session_id c) w (rs_sessions st) = Inr (g, rs_sessions st1)"
    and r: "consume db_ops (clock 1) t (cp_approval_id c) (checkpoint_intent c) (cp_release_id c) (rs_approvals st) = (Inr r, rs_approvals st1)"
    using dcp.resume_marks [OF assms(1,3)] by (auto simp: db_checkpoint_ops_def)
  obtain q where q: "db_view (rs_approvals st) (t, cp_approval_id c) = Some q" "ap_status q = AP_APPROVED"
    "intent_of q = checkpoint_intent c" "ap_release_id q = cp_release_id c" "clock 1 < ap_expires_at q"
    "r = transitioned AP_CONSUMED None None q" "db_view (rs_approvals st1) = (db_view (rs_approvals st))((t, cp_approval_id c) \<mapsto> r)"
    using dbs.consume_evolves [OF assms(2) r] by auto
  have "db_get (rs_approvals st1) t (cp_approval_id c) = db_view (rs_approvals st1) (t, cp_approval_id c)"
    by (simp add: db_view_def)
  also have "\<dots> = Some (q\<lparr>ap_status := AP_CONSUMED\<rparr>)" using q(6,7) by (simp add: transitioned_def)
  finally show ?thesis using c q acquireD(1) [OF c(4)] acquireD(2) [OF c(4)]
    by (intro exI [of _ c] exI [of _ q]) (simp add: db_view_def)
qed


text \<open>
  A resume that fails for want of an approval leaves nothing held: the checkpoint still waits and
  the lease it took is over, so any worker can acquire the session from then on.
\<close>

theorem failed_resume_returns_lease:
  assumes "resume ops approvals clock ttl t i w st = (Inl (CheckpointError ''CHECKPOINT_APPROVAL_NOT_GRANTED''), st1)"
    and "clock 2 \<le> now" "1 \<le> length w2" "length w2 \<le> MAX_OWNER_ID_LENGTH"
  shows "rs_checkpoints st1 = rs_checkpoints st \<and>
    (\<exists>c. cp_get ops (rs_checkpoints st) t i = Some c \<and> is_ok (acquire now ttl2 t (cp_session_id c) w2 (rs_sessions st1)))"
proof -
  obtain c g db1 where c: "cp_get ops (rs_checkpoints st) t i = Some c"
    "acquire (clock 0) ttl t (cp_session_id c) w (rs_sessions st) = Inr (g, db1)"
    "rs_sessions st1 = release (clock 2) t (cp_session_id c) w db1" "rs_checkpoints st1 = rs_checkpoints st"
    using assms(1) by (auto simp: resume_def split: option.splits if_splits sum.splits prod.splits)
  have "session_lease (rs_sessions st1) (t, cp_session_id c) =
      Some \<lparr>sl_owner_id = w, sl_fencing_token = fencing_token g, sl_expires_at = clock 2, sl_renewed_at = clock 0\<rparr>"
    "lock_session_version t (cp_session_id c) (rs_sessions st1) = Some (session_version g)"
    using acquireD(3) [OF c(2)] unfolding c(3) acquireD(2) [OF c(2)]
    by (simp_all add: release_def lock_session_version_def Let_def)
  then have "is_ok (acquire now ttl2 t (cp_session_id c) w2 (rs_sessions st1))"
    using assms(2-4) by (auto simp: acquire_def upsert_lease_def lock_session_version_def Let_def)
  then show ?thesis using c by blast
qed

subsection \<open>Resolving\<close>

text \<open>
  The resolutions a store holds, by tenant and call, and the calls that change it. A write of
  the database store may come after other writes that followed its own checks. \<open>admissible\<close> is
  what a store needs of a call id: the in-memory store is keyed by it alone, so no other tenant
  may use it.
\<close>

locale reconciliation_store =
  fixes ops :: "'r reconciliation_ops" and wf :: "'r \<Rightarrow> bool" and step :: "'r \<Rightarrow> 'r \<Rightarrow> bool"
    and admissible :: "'r \<Rightarrow> string \<Rightarrow> string \<Rightarrow> bool"
  assumes upsert_new: "wf s \<Longrightarrow> admissible s (rc_tenant_id r) (rc_call_id r) \<Longrightarrow> rc_get ops s (rc_tenant_id r) (rc_call_id r) = None \<Longrightarrow>
      wf (rc_upsert ops s r) \<and> rc_get ops (rc_upsert ops s r) (rc_tenant_id r) (rc_call_id r) = Some r"
    and step_keeps: "wf s \<Longrightarrow> step s s' \<Longrightarrow> wf s' \<and> (\<forall>t i r. rc_get ops s t i = Some r \<longrightarrow> rc_get ops s' t i = Some r)"
    and all_for: "wf s \<Longrightarrow> rc_get ops s t i = Some r \<Longrightarrow> r \<in> set (rc_all_for ops s t) \<and> rc_call_id r = i"
begin

lemma steps_keep: "step\<^sup>*\<^sup>* s s' \<Longrightarrow> wf s \<Longrightarrow> wf s' \<and> (\<forall>t i r. rc_get ops s t i = Some r \<longrightarrow> rc_get ops s' t i = Some r)"
proof (induction rule: rtranclp_induct)
  case (step y z)
  then show ?case using step_keeps [of y z] by blast
qed simp

lemma resolved_once:
  assumes "wf s" "resolve_call ops calls now t i d by nt s = (Inr r, s1)" "admissible s t i" "step\<^sup>*\<^sup>* s1 s2"
  shows "rc_get ops s2 t i = Some r \<and> (\<exists>e. resolve_call ops calls2 now2 t i d2 by2 nt2 s2 = (Inl e, s2)) \<and>
    (\<forall>c \<in> set (open_calls ops calls2 t s2). ir_call_id c \<noteq> i)"
proof -
  have r: "rc_call_id r = i" "rc_tenant_id r = t" "s1 = rc_upsert ops s r" "rc_get ops s t i = None"
    using assms(2) by (auto simp: resolve_call_def resolve_check_def Let_def split: option.splits if_splits)
  then have "wf s1 \<and> rc_get ops s1 t i = Some r" using upsert_new [OF assms(1), of r] assms(3) by auto
  then have s2: "wf s2" "rc_get ops s2 t i = Some r" using steps_keep [OF assms(4)] by auto
  then have "\<exists>e. resolve_call ops calls2 now2 t i d2 by2 nt2 s2 = (Inl e, s2)"
    by (auto simp: resolve_call_def resolve_check_def split: option.splits)
  moreover have "i \<in> set (map rc_call_id (rc_all_for ops s2 t))" using all_for [OF s2] by force
  ultimately show ?thesis using s2(2) by (auto simp: open_calls_def)
qed

end

definition mem_admissible :: "reconciliation list \<Rightarrow> string \<Rightarrow> string \<Rightarrow> bool" where
  "mem_admissible s t i \<longleftrightarrow> (\<forall>r \<in> set s. rc_call_id r = i \<longrightarrow> rc_tenant_id r = t)"

inductive mem_rec_step :: "reconciliation list \<Rightarrow> reconciliation list \<Rightarrow> bool" where
  "mem_admissible s t i \<Longrightarrow> resolve_call mem_rec_ops calls now t i d by nt s = (r, s') \<Longrightarrow> mem_rec_step s s'"

inductive db_rec_step :: "reconciliation list \<Rightarrow> reconciliation list \<Rightarrow> bool" where
  resolve: "resolve_call db_rec_ops calls now t i d by nt s = (r, s') \<Longrightarrow> db_rec_step s s'"
| late_write: "db_rec_step s (db_rec_upsert s r)"

lemma mem_rec_get_row:
  "mem_rec_get s t i = Some r \<longleftrightarrow> row_of rc_call_id i s = Some r \<and> rc_tenant_id r = t"
  by (auto simp: mem_rec_get_def split: option.splits)

lemma mem_rec_none: "mem_admissible s t i \<Longrightarrow> mem_rec_get s t i = None \<Longrightarrow> row_of rc_call_id i s = None"
  by (auto simp: mem_rec_get_def mem_admissible_def split: option.splits if_splits dest: row_of_SomeD)

lemma row_of_append_other: "row_of key k s = Some q \<Longrightarrow> row_of key k (s @ [r]) = Some q"
  by (simp add: row_of_append)

interpretation mrc: reconciliation_store mem_rec_ops "unique_key rc_call_id" mem_rec_step mem_admissible
proof (unfold_locales, goal_cases)
  case (1 s r)
  then have n: "row_of rc_call_id (rc_call_id r) s = None"
    using mem_rec_none [of s "rc_tenant_id r" "rc_call_id r"] by (simp add: mem_rec_ops_def)
  then have "mem_rec_upsert s r = s @ [r]" by (simp add: mem_rec_upsert_def row_of_None_iff)
  then show ?case using 1(1) n
    by (simp add: mem_rec_ops_def unique_key_append row_of_append mem_rec_get_row) (simp add: row_of_None_iff)
next
  case (2 s s')
  from 2(2) show ?case
  proof cases
    case (1 t i calls now d "by" nt r)
    show ?thesis
    proof (cases "resolve_check mem_rec_ops calls t i s")
      case None
      then have "mem_rec_get s t i = None"
        by (auto simp: resolve_check_def mem_rec_ops_def split: option.splits if_splits)
      then have n: "row_of rc_call_id i s = None" by (rule mem_rec_none [OF 1(1)])
      then have "\<exists>r'. rc_call_id r' = i \<and> s' = s @ [r']"
        using 1(2) None by (auto simp: resolve_call_def mem_rec_ops_def mem_rec_upsert_def row_of_None_iff Let_def)
      then obtain r' where r': "rc_call_id r' = i" "s' = s @ [r']" by blast
      then have "unique_key rc_call_id s'" using 2(1) n by (simp add: unique_key_append row_of_None_iff)
      then show ?thesis using row_of_append_other r'(2) by (auto simp: mem_rec_ops_def mem_rec_get_row)
    next
      case (Some e)
      then show ?thesis using 1(2) 2(1) by (simp add: resolve_call_def)
    qed
  qed
next
  case (3 s t i r)
  then show ?case by (auto simp: mem_rec_ops_def mem_rec_get_row mem_rec_all_for_def dest: row_of_SomeD)
qed

lemma db_rec_upsert_keeps:
  "unique_key rec_key s \<Longrightarrow> unique_key rec_key (db_rec_upsert s r) \<and> (\<forall>t i q. db_rec_get s t i = Some q \<longrightarrow> db_rec_get (db_rec_upsert s r) t i = Some q)"
  by (auto simp: db_rec_upsert_def db_rec_get_def unique_key_append row_of_append)

interpretation drc: reconciliation_store db_rec_ops "unique_key rec_key" db_rec_step "\<lambda>s t i. True"
proof (unfold_locales, goal_cases)
  case (1 s r)
  then have n: "row_of rec_key (rec_key r) s = None" by (simp add: db_rec_ops_def db_rec_get_def rec_key_def)
  then have "db_rec_upsert s r = s @ [r]" by (simp add: db_rec_upsert_def row_of_None_iff)
  then show ?case using db_rec_upsert_keeps [OF 1(1), of r] n
    by (simp add: db_rec_ops_def db_rec_get_def row_of_append rec_key_def)
next
  case (2 s s')
  from 2(2) show ?case
  proof cases
    case resolve
    then show ?thesis using db_rec_upsert_keeps [OF 2(1)] 2(1)
      by (auto simp: resolve_call_def db_rec_ops_def Let_def split: option.splits)
  next
    case late_write
    then show ?thesis using db_rec_upsert_keeps [OF 2(1)] by (simp add: db_rec_ops_def)
  qed
next
  case (3 s t i r)
  then show ?case by (auto simp: db_rec_ops_def db_rec_get_def db_rec_all_for_def rec_key_def dest!: row_of_SomeD)
qed

text \<open>
  An unknown outcome is closed once. After \<open>resolve\<close> has succeeded on the database store, the
  resolution it wrote is the stored one in every later state, racing writers included; the
  call is no longer open; and any further \<open>resolve\<close> of it fails without a change.
\<close>

theorem outcome_resolved_once:
  assumes "unique_key rec_key s" "resolve_call db_rec_ops calls now t i d by nt s = (Inr r, s1)" "db_rec_step\<^sup>*\<^sup>* s1 s2"
  shows "db_rec_get s2 t i = Some r \<and> (\<exists>e. resolve_call db_rec_ops calls2 now2 t i d2 by2 nt2 s2 = (Inl e, s2)) \<and>
    (\<forall>c \<in> set (open_calls db_rec_ops calls2 t s2). ir_call_id c \<noteq> i)"
  using drc.resolved_once [OF assms(1,2) _ assms(3)] by (simp add: db_rec_ops_def)

text \<open>
  Two operators whose checks both passed: the second is told its decision, the first one is stored.
\<close>

lemma racing_resolution_lost:
  assumes "resolve_check db_rec_ops calls t i s = None" "rc_decision r1 \<noteq> rc_decision r2"
    "rec_key r1 = (t, i)" "rec_key r2 = (t, i)"
  shows "db_rec_get (db_rec_upsert (db_rec_upsert s r1) r2) t i = Some r1"
proof -
  have "row_of rec_key (t, i) s = None"
    using assms(1) by (auto simp: resolve_check_def db_rec_ops_def db_rec_get_def split: option.splits if_splits)
  then have "\<not> has_key rec_key (t, i) s" "row_of rec_key (t, i) s = None" by (simp_all add: row_of_None_iff)
  then show ?thesis using assms(3,4) by (simp add: db_rec_upsert_def db_rec_get_def row_of_append has_key_append)
qed

subsection \<open>A parked execution\<close>

definition sample_checkpoint :: execution_checkpoint where
  "sample_checkpoint = \<lparr>cp_checkpoint_id = ''cp'', cp_tenant_id = ''t1'', cp_execution_id = ''x'', cp_session_id = ''s'',
     cp_release_id = ''r1'', cp_approval_id = ''a1'', cp_tool_name = ''pay'', cp_tool_version = 1, cp_params_hash = ''h'',
     cp_requested_by = ''dev'', cp_parked_by = ''w0'', cp_status = WAITING_APPROVAL, cp_created_at = Some 0,
     cp_resumed_by = None, cp_resumed_at = None\<rparr>"

definition free_session :: session_tables where
  "free_session = empty_sessions\<lparr>agent_session := [(''t1'', ''s'') \<mapsto> \<lparr>as_application_id = ''app'', as_version = 0, as_updated_at = 0\<rparr>]\<rparr>"

definition sample_recovery :: "approval_table \<Rightarrow> (execution_checkpoint list, approval_table) recovery_state" where
  "sample_recovery a = \<lparr>rs_checkpoints = [sample_checkpoint], rs_approvals = a, rs_sessions = free_session\<rparr>"

abbreviation sample_resume :: "(execution_checkpoint list, approval_table) recovery_state
    \<Rightarrow> (checkpoint_error + lease_grant) \<times> (execution_checkpoint list, approval_table) recovery_state" where
  "sample_resume \<equiv> resume db_checkpoint_ops db_ops (\<lambda>n. 2) DEFAULT_LEASE_TTL ''t1'' ''cp'' ''w''"

lemma sample_resume_ok: "\<exists>g st1. sample_resume (sample_recovery approved_table) = (Inr g, st1)"
proof -
  have "is_ok (fst (sample_resume (sample_recovery approved_table)))" by code_simp
  then show ?thesis by (cases "sample_resume (sample_recovery approved_table)") (auto simp: is_ok_def split: sum.splits)
qed

lemma sample_recovery_wf: "unique_key checkpoint_key (rs_checkpoints (sample_recovery a))"
  "unique_key approval_key (rs_approvals (sample_recovery approved_table))"
  "db_checkpoint_get (rs_checkpoints (sample_recovery a)) ''t1'' ''cp'' = Some sample_checkpoint"
proof -
  have "unique_key approval_key approved_table" by code_simp
  then show "unique_key approval_key (rs_approvals (sample_recovery approved_table))" by (simp add: sample_recovery_def)
qed (simp_all add: sample_recovery_def unique_key_def db_checkpoint_get_def row_of_Cons checkpoint_key_def sample_checkpoint_def)

theorem resume_spends_approval_witness:
  "\<exists>g st1. sample_resume (sample_recovery approved_table) = (Inr g, st1) \<and>
     (\<exists>q. db_get (rs_approvals st1) ''t1'' ''a1'' = Some q \<and> ap_status q = AP_CONSUMED)"
proof -
  obtain g st1 where r: "sample_resume (sample_recovery approved_table) = (Inr g, st1)" using sample_resume_ok by blast
  then show ?thesis
    using resume_spends_approval [OF sample_recovery_wf(1) sample_recovery_wf(2) r] sample_recovery_wf(3)
    by (auto simp: sample_checkpoint_def)
qed


theorem failed_resume_returns_lease_witness:
  "\<exists>st1. sample_resume (sample_recovery pending_table) = (Inl (CheckpointError ''CHECKPOINT_APPROVAL_NOT_GRANTED''), st1) \<and>
     is_ok (acquire 3 DEFAULT_LEASE_TTL ''t1'' ''s'' ''w2'' (rs_sessions st1))"
proof -
  have "(case fst (sample_resume (sample_recovery pending_table)) of
      Inl (CheckpointError e) \<Rightarrow> e = ''CHECKPOINT_APPROVAL_NOT_GRANTED'' | _ \<Rightarrow> False)" by code_simp
  then obtain st1 where r: "sample_resume (sample_recovery pending_table) =
      (Inl (CheckpointError ''CHECKPOINT_APPROVAL_NOT_GRANTED''), st1)"
    by (cases "sample_resume (sample_recovery pending_table)") (auto split: sum.splits checkpoint_error.splits)
  show ?thesis
    using failed_resume_returns_lease [OF r, of 3 "''w2''" DEFAULT_LEASE_TTL] r sample_recovery_wf(3) [of pending_table]
    by (simp add: db_checkpoint_ops_def MAX_OWNER_ID_LENGTH_def) (auto simp: sample_checkpoint_def)
qed

definition unknown_call :: invocation_record where
  "unknown_call = \<lparr>ir_call_id = ''c9'', ir_tenant_id = ''t1'', ir_tool_name = ''pay'', ir_tool_version = Some 1,
     ir_side_effect = Some NON_IDEMPOTENT_WRITE, ir_params = [], ir_params_hash = ''h'', ir_idempotency_key = None,
     ir_status = INV_OUTCOME_UNKNOWN, ir_attempts = 1, ir_cost_micros = 0, ir_requested_by = ''dev'', ir_execution_id = None,
     ir_session_id = None, ir_release_id = None, ir_error_code = Some ''TOOL_TIMEOUT'', ir_result = None,
     ir_data_classification = None\<rparr>"

theorem outcome_resolved_once_witness:
  "\<exists>r s1. resolve_call db_rec_ops [unknown_call] 5 ''t1'' ''c9'' CONFIRMED_EXECUTED ''ops'' None [] = (Inr r, s1) \<and>
     db_rec_get s1 ''t1'' ''c9'' = Some r \<and> open_calls db_rec_ops [unknown_call] ''t1'' [] = [unknown_call]"
proof -
  have u: "call_key unknown_call = (''t1'', ''c9'')" "ir_status unknown_call = INV_OUTCOME_UNKNOWN" "ir_tenant_id unknown_call = ''t1''"
    by (simp_all add: call_key_def unknown_call_def)
  obtain r s1 where r: "resolve_call db_rec_ops [unknown_call] 5 ''t1'' ''c9'' CONFIRMED_EXECUTED ''ops'' None [] = (Inr r, s1)"
    by (simp add: resolve_call_def resolve_check_def get_call_def row_of_Cons u db_rec_ops_def db_rec_get_def Let_def)
  have "open_calls db_rec_ops [unknown_call] ''t1'' [] = [unknown_call]"
    by (simp add: open_calls_def list_unknown_def db_rec_ops_def db_rec_all_for_def u)
  then show ?thesis using r outcome_resolved_once [OF unique_key_Nil r rtranclp.rtrancl_refl] by blast
qed

end
