(* ===== verification/Audit_Chain.thy ===== *)
theory Audit_Chain
  imports Py_Lib
begin

text \<open>
  Audit evidence: the per-tenant hash chain (\<open>trpc_service/audit_chain/chain.py\<close>), the writers that
  extend it (\<open>admin_api/audit.py\<close> and the audit Outbox of \<open>audit_chain/outbox.py\<close>), and the signed
  manifests and their archive (\<open>manifest.py\<close>, \<open>worm.py\<close>). The tables are those of the migrations 0001 and
  0015 with their keys and checks; every operation is one transaction. \<open>jsonb\<close> is the parameter
  that says what PostgreSQL gives back for a stored JSON object; \<open>uuid7()\<close> values are arguments.
\<close>

type_synonym jobject = "(string \<times> json) list"

record audit_event_row =
  ae_id :: uuid
  ae_tenant_id :: "uuid option"
  ae_occurred_at :: timestamp
  ae_actor :: string
  ae_auth_method :: string
  ae_action :: string
  ae_decision :: string
  ae_target_type :: "string option"
  ae_target_id :: "string option"
  ae_details :: jobject
  ae_trace_id :: "string option"
  ae_chain_index :: "int option"
  ae_event_hash :: "string option"
  ae_prev_event_hash :: "string option"

datatype audit_outbox_status = AO_PENDING | AO_DISPATCHED

record audit_outbox_row =
  ao_id :: uuid
  ao_tenant_id :: uuid
  ao_actor :: string
  ao_auth_method :: string
  ao_action :: string
  ao_decision :: string
  ao_target_type :: "string option"
  ao_target_id :: "string option"
  ao_details :: jobject
  ao_trace_id :: "string option"
  ao_occurred_at :: timestamp
  ao_status :: audit_outbox_status

record audit_manifest_row =
  am_tenant_id :: string
  am_manifest_index :: int
  am_first_chain_index :: int
  am_last_chain_index :: int
  am_event_count :: int
  am_chain_head_hash :: string
  am_signature :: string
  am_worm_location :: string
  am_created_at :: timestamp

record chain_state_row =
  cs_last_index :: int
  cs_last_hash :: string

record audit_tables =
  au_tenants :: "uuid list"
  au_chain_state :: "uuid \<rightharpoonup> chain_state_row"
  au_events :: "audit_event_row list"
  au_outbox :: "audit_outbox_row list"
  au_manifests :: "audit_manifest_row list"

subsection \<open>Hashing\<close>

definition GENESIS_HASH :: string where "GENESIS_HASH = replicate 64 (CHR ''0'')"

text \<open>
  \<open>int(occurred_at.timestamp() * 1_000_000)\<close>: the seconds as the nearest double, multiplied in
  double precision, truncated.
\<close>

definition occurred_epoch_micros :: "timestamp \<Rightarrow> int" where
  "occurred_epoch_micros t =
     sgn t * (case float_div \<bar>t\<bar> 1000000 of (a, b) \<Rightarrow> case float_div (a * 1000000) b of (c, e) \<Rightarrow> c div e)"

definition opt_str :: "string option \<Rightarrow> json" where
  "opt_str v = (case v of None \<Rightarrow> JNull | Some s \<Rightarrow> JStr s)"

definition fingerprint ::
  "string \<Rightarrow> int \<Rightarrow> string \<Rightarrow> string \<Rightarrow> string \<Rightarrow> string \<Rightarrow> string option \<Rightarrow> string option \<Rightarrow> jobject \<Rightarrow> jobject" where
  "fingerprint event_id occurred_at actor auth_method action decision target_type target_id details =
     [(''id'', JStr event_id), (''occurred_at'', JInt occurred_at), (''actor'', JStr actor),
      (''auth_method'', JStr auth_method), (''action'', JStr action), (''decision'', JStr decision),
      (''target_type'', opt_str target_type), (''target_id'', opt_str target_id), (''details'', JDict details)]"

definition canonical_event_json :: "jobject \<Rightarrow> string" where
  "canonical_event_json event = canonical_dumps (JDict event)"

definition event_hash :: "jobject \<Rightarrow> string" where
  "event_hash event = sha256_hex (canonical_event_json event)"

definition chain_hash :: "string \<Rightarrow> string \<Rightarrow> string" where
  "chain_hash previous_hash current_event_hash = sha256_hex (previous_hash @ '':'' @ current_event_hash)"

subsection \<open>Appending\<close>

text \<open>
  The chain state row is locked, created when missing (a foreign key to the tenant) and advanced.
\<close>

definition append_to_chain ::
  "uuid \<Rightarrow> jobject \<Rightarrow> audit_tables \<Rightarrow> sql_error + ((int \<times> string \<times> string) \<times> audit_tables)" where
  "append_to_chain tenant_id event db =
     (case (case au_chain_state db tenant_id of
              Some state \<Rightarrow> Inr state
            | None \<Rightarrow> if tenant_id \<in> set (au_tenants db) then Inr \<lparr>cs_last_index = 0, cs_last_hash = GENESIS_HASH\<rparr>
                      else Inl IntegrityError) of
        Inl e \<Rightarrow> Inl e
      | Inr state \<Rightarrow>
         (let current = event_hash event;
              new_index = cs_last_index state + 1;
              new_chain_head = chain_hash (cs_last_hash state) current
          in Inr ((new_index, current, cs_last_hash state),
                  db\<lparr>au_chain_state := (au_chain_state db)(tenant_id \<mapsto>
                       \<lparr>cs_last_index = new_index, cs_last_hash = new_chain_head\<rparr>)\<rparr>)))"

text \<open>The checks and keys of \<open>platform.audit_event\<close>.\<close>

definition chain_key :: "audit_event_row \<Rightarrow> (uuid \<times> int) option" where
  "chain_key e = (case (ae_tenant_id e, ae_chain_index e) of (Some t, Some i) \<Rightarrow> Some (t, i) | _ \<Rightarrow> None)"

definition insert_event_row :: "audit_event_row \<Rightarrow> audit_tables \<Rightarrow> sql_error + audit_tables" where
  "insert_event_row e db =
     (if ae_auth_method e \<notin> {''oidc'', ''emergency'', ''anonymous''} \<or> ae_decision e \<notin> {''ALLOW'', ''DENY''} \<or>
         has_key ae_id (ae_id e) (au_events db) \<or>
         (chain_key e \<noteq> None \<and> has_key chain_key (chain_key e) (au_events db)) \<or>
         (case ae_tenant_id e of None \<Rightarrow> False | Some t \<Rightarrow> t \<notin> set (au_tenants db))
      then Inl IntegrityError
      else Inr (db\<lparr>au_events := au_events db @ [e]\<rparr>))"

text \<open>The authenticated caller of the Admin API.\<close>

record principal =
  pr_subject :: string
  pr_auth_method :: string
  pr_roles :: "string list"

definition insert_audit ::
  "(jobject \<Rightarrow> jobject) \<Rightarrow> uuid \<Rightarrow> timestamp \<Rightarrow> principal option \<Rightarrow> string \<Rightarrow> string \<Rightarrow> string option \<Rightarrow> string option \<Rightarrow> uuid option
   \<Rightarrow> jobject option \<Rightarrow> string option \<Rightarrow> audit_tables \<Rightarrow> sql_error + audit_tables" where
  "insert_audit jsonb event_id occurred_at who action decision target_type target_id tenant_id details trace_id db =
     (let payload = (case details of None \<Rightarrow> [] | Some d \<Rightarrow> d);
          actor = (case who of Some p \<Rightarrow> pr_subject p | None \<Rightarrow> ''anonymous'');
          auth_method = (case who of Some p \<Rightarrow> pr_auth_method p | None \<Rightarrow> ''anonymous'');
          row = \<lparr>ae_id = event_id, ae_tenant_id = tenant_id, ae_occurred_at = occurred_at, ae_actor = actor,
                 ae_auth_method = auth_method, ae_action = action, ae_decision = decision, ae_target_type = target_type,
                 ae_target_id = target_id, ae_details = jsonb payload, ae_trace_id = trace_id,
                 ae_chain_index = None, ae_event_hash = None, ae_prev_event_hash = None\<rparr>
      in case tenant_id of
           None \<Rightarrow> insert_event_row row db
         | Some t \<Rightarrow>
            (case append_to_chain t (fingerprint event_id (occurred_epoch_micros occurred_at) actor auth_method action decision
                     target_type target_id payload) db of
               Inl e \<Rightarrow> Inl e
             | Inr ((i, h, prev), db1) \<Rightarrow>
                 insert_event_row (row\<lparr>ae_chain_index := Some i, ae_event_hash := Some h, ae_prev_event_hash := Some prev\<rparr>) db1))"

subsection \<open>The audit Outbox\<close>

definition enqueue_audit ::
  "(jobject \<Rightarrow> jobject) \<Rightarrow> uuid \<Rightarrow> timestamp \<Rightarrow> uuid \<Rightarrow> string \<Rightarrow> string \<Rightarrow> string \<Rightarrow> string \<Rightarrow> string option \<Rightarrow> string option
   \<Rightarrow> jobject option \<Rightarrow> string option \<Rightarrow> audit_tables \<Rightarrow> sql_error + audit_tables" where
  "enqueue_audit jsonb outbox_id now tenant_id actor auth_method action decision target_type target_id details trace_id db =
     (if auth_method \<notin> {''oidc'', ''emergency'', ''anonymous''} \<or> decision \<notin> {''ALLOW'', ''DENY''} \<or>
         has_key ao_id outbox_id (au_outbox db) \<or> tenant_id \<notin> set (au_tenants db)
      then Inl IntegrityError
      else Inr (db\<lparr>au_outbox := au_outbox db @
             [\<lparr>ao_id = outbox_id, ao_tenant_id = tenant_id, ao_actor = actor, ao_auth_method = auth_method, ao_action = action,
               ao_decision = decision, ao_target_type = target_type, ao_target_id = target_id, ao_details = jsonb (case details of None \<Rightarrow> [] | Some d \<Rightarrow> d),
               ao_trace_id = trace_id, ao_occurred_at = now, ao_status = AO_PENDING\<rparr>]\<rparr>))"

text \<open>One pending intent becomes an event of the chain and is marked.\<close>

definition dispatch_row ::
  "(jobject \<Rightarrow> jobject) \<Rightarrow> uuid \<Rightarrow> audit_outbox_row \<times> uuid \<Rightarrow> audit_tables \<Rightarrow> sql_error + audit_tables" where
  "dispatch_row jsonb tenant_id row_id db =
     (case row_id of (row, event_id) \<Rightarrow>
        case append_to_chain tenant_id (fingerprint event_id (occurred_epoch_micros (ao_occurred_at row)) (ao_actor row)
               (ao_auth_method row) (ao_action row) (ao_decision row) (ao_target_type row) (ao_target_id row) (ao_details row)) db of
          Inl e \<Rightarrow> Inl e
        | Inr ((i, h, prev), db1) \<Rightarrow>
           (case insert_event_row
                   \<lparr>ae_id = event_id, ae_tenant_id = Some tenant_id, ae_occurred_at = ao_occurred_at row, ae_actor = ao_actor row,
                    ae_auth_method = ao_auth_method row, ae_action = ao_action row, ae_decision = ao_decision row,
                    ae_target_type = ao_target_type row, ae_target_id = ao_target_id row, ae_details = jsonb (ao_details row),
                    ae_trace_id = ao_trace_id row, ae_chain_index = Some i, ae_event_hash = Some h,
                    ae_prev_event_hash = Some prev\<rparr> db1 of
              Inl e \<Rightarrow> Inl e
            | Inr db2 \<Rightarrow>
                Inr (db2\<lparr>au_outbox := update_where (\<lambda>r. ao_id r = ao_id row) (\<lambda>r. r\<lparr>ao_status := AO_DISPATCHED\<rparr>) (au_outbox db2)\<rparr>)))"

fun dispatch_rows ::
  "(jobject \<Rightarrow> jobject) \<Rightarrow> uuid \<Rightarrow> (audit_outbox_row \<times> uuid) list \<Rightarrow> audit_tables \<Rightarrow> sql_error + audit_tables" where
  "dispatch_rows jsonb tenant_id [] db = Inr db"
| "dispatch_rows jsonb tenant_id (r # rs) db =
     (case dispatch_row jsonb tenant_id r db of Inl e \<Rightarrow> Inl e | Inr db1 \<Rightarrow> dispatch_rows jsonb tenant_id rs db1)"

definition pending_intents :: "uuid \<Rightarrow> nat \<Rightarrow> audit_tables \<Rightarrow> audit_outbox_row list" where
  "pending_intents tenant_id batch_size db =
     take batch_size (sort_key ao_id (filter (\<lambda>r. ao_tenant_id r = tenant_id \<and> ao_status r = AO_PENDING) (au_outbox db)))"

text \<open>\<open>uid n\<close> is the \<open>n\<close>-th \<open>uuid7()\<close> of the batch.\<close>

definition dispatch_pending_audit ::
  "(jobject \<Rightarrow> jobject) \<Rightarrow> nat \<Rightarrow> (nat \<Rightarrow> uuid) \<Rightarrow> uuid \<Rightarrow> audit_tables \<Rightarrow> sql_error + (nat \<times> audit_tables)" where
  "dispatch_pending_audit jsonb batch_size uid tenant_id db =
     (let rows = pending_intents tenant_id batch_size db in
      case dispatch_rows jsonb tenant_id (zip rows (map uid [0..<length rows])) db of
        Inl e \<Rightarrow> Inl e | Inr db1 \<Rightarrow> Inr (length rows, db1))"

subsection \<open>Verification\<close>

datatype chain_report =
    ChainValid nat string
  | ChainBroken int string "string option"

definition stored_fingerprint :: "audit_event_row \<Rightarrow> jobject" where
  "stored_fingerprint r = fingerprint (ae_id r) (occurred_epoch_micros (ae_occurred_at r)) (ae_actor r) (ae_auth_method r)
     (ae_action r) (ae_decision r) (ae_target_type r) (ae_target_id r) (ae_details r)"

fun verify_rows :: "audit_event_row list \<Rightarrow> string \<Rightarrow> nat \<Rightarrow> chain_report" where
  "verify_rows [] previous count = ChainValid count previous"
| "verify_rows (r # rs) previous count =
     (let recomputed = event_hash (stored_fingerprint r) in
      if Some recomputed \<noteq> ae_event_hash r \<or> Some previous \<noteq> ae_prev_event_hash r
      then ChainBroken (case ae_chain_index r of Some i \<Rightarrow> i | None \<Rightarrow> 0) previous (ae_prev_event_hash r)
      else verify_rows rs (chain_hash previous recomputed) (count + 1))"

definition chain_rows :: "uuid \<Rightarrow> audit_event_row list \<Rightarrow> audit_event_row list" where
  "chain_rows tenant_id events =
     sort_key (\<lambda>r. the (ae_chain_index r)) (filter (\<lambda>r. ae_tenant_id r = Some tenant_id \<and> ae_chain_index r \<noteq> None) events)"

definition verify_tenant_chain :: "uuid \<Rightarrow> audit_tables \<Rightarrow> chain_report" where
  "verify_tenant_chain tenant_id db = verify_rows (chain_rows tenant_id (au_events db)) GENESIS_HASH 0"

subsection \<open>The WORM archive\<close>

text \<open>The in-memory archive: the last content under each name, and the log of the writes.\<close>

record memory_worm =
  mw_objects :: "string \<rightharpoonup> string \<times> timestamp"
  mw_writes :: "(string \<times> nat) list"

definition memory_worm_put :: "string \<Rightarrow> string \<Rightarrow> string \<Rightarrow> timestamp \<Rightarrow> memory_worm \<Rightarrow> string \<times> memory_worm" where
  "memory_worm_put bucket key content retain_until w =
     (''s3://'' @ bucket @ ''/'' @ key,
      w\<lparr>mw_objects := (mw_objects w)(bucket @ ''/'' @ key \<mapsto> (content, retain_until)),
        mw_writes := mw_writes w @ [(key, length content)]\<rparr>)"

text \<open>\<open>strftime\<close> with \<open>%Y-%m-%dT%H:%M:%SZ\<close> and with \<open>%Y%m%dT%H%M%SZ\<close>.\<close>

definition strftime_z :: "string \<Rightarrow> string \<Rightarrow> timestamp \<Rightarrow> string" where
  "strftime_z dash colon t =
     (let s = t div 1000000; sod = s mod 86400
      in case civil_from_days (s div 86400) of (y, m, d) \<Rightarrow>
        zfill 4 (str_of_int y) @ dash @ pad2 m @ dash @ pad2 d @ ''T'' @
        pad2 (sod div 3600) @ colon @ pad2 ((sod mod 3600) div 60) @ colon @ pad2 (sod mod 60) @ ''Z'')"

definition nl :: string where "nl = [char_of (10 :: nat)]"

text \<open>The signed request of the S3 archive; \<open>host\<close> is the host \<open>httpx\<close> parses from the endpoint.\<close>

record s3_config =
  s3_endpoint :: string
  s3_host :: string
  s3_access_key :: string
  s3_secret_key :: string
  s3_region :: string

record put_request =
  rq_url :: string
  rq_content :: string
  rq_headers :: "(string \<times> string) list"

definition s3_put_request :: "s3_config \<Rightarrow> timestamp \<Rightarrow> string \<Rightarrow> string \<Rightarrow> string \<Rightarrow> timestamp \<Rightarrow> put_request" where
  "s3_put_request c utcnow bucket key content retain_until =
     (let now = strftime_z [] [] utcnow;
          datestamp = take 8 now;
          payload_hash = sha256_hex content;
          retain = strftime_z ''-'' '':'' retain_until;
          canonical_headers = ''host:'' @ s3_host c @ nl @ ''x-amz-content-sha256:'' @ payload_hash @ nl @
            ''x-amz-date:'' @ now @ nl @ ''x-amz-object-lock-mode:COMPLIANCE'' @ nl @
            ''x-amz-object-lock-retain-until-date:'' @ retain @ nl;
          signed_headers = ''host;x-amz-content-sha256;x-amz-date;x-amz-object-lock-mode;x-amz-object-lock-retain-until-date'';
          canonical_request = ''PUT'' @ nl @ ''/'' @ bucket @ ''/'' @ key @ nl @ nl @ canonical_headers @ nl @ signed_headers @ nl @ payload_hash;
          scope = datestamp @ ''/'' @ s3_region c @ ''/s3/aws4_request'';
          string_to_sign = ''AWS4-HMAC-SHA256'' @ nl @ now @ nl @ scope @ nl @ sha256_hex canonical_request;
          signing_key = hmac_sha256 (hmac_sha256 (hmac_sha256 (hmac_sha256 (''AWS4'' @ s3_secret_key c) datestamp) (s3_region c)) ''s3'') ''aws4_request'';
          signature = hmac_sha256_hex signing_key string_to_sign
      in \<lparr>rq_url = s3_endpoint c @ ''/'' @ bucket @ ''/'' @ key, rq_content = content,
          rq_headers = [(''x-amz-content-sha256'', payload_hash), (''x-amz-date'', now), (''x-amz-object-lock-mode'', ''COMPLIANCE''),
            (''x-amz-object-lock-retain-until-date'', retain),
            (''Authorization'', ''AWS4-HMAC-SHA256 Credential='' @ s3_access_key c @ ''/'' @ scope @ '', SignedHeaders='' @ signed_headers @
               '', Signature='' @ signature)]\<rparr>)"

text \<open>The answer of the object store decides: \<open>None\<close> is the \<open>RuntimeError\<close> of any status but 200 and 201.\<close>

definition s3_put :: "(put_request \<Rightarrow> int) \<Rightarrow> s3_config \<Rightarrow> timestamp \<Rightarrow> string \<Rightarrow> string \<Rightarrow> string \<Rightarrow> timestamp \<Rightarrow> string option" where
  "s3_put server c utcnow bucket key content retain_until =
     (if server (s3_put_request c utcnow bucket key content retain_until) \<in> {200, 201}
      then Some (''s3://'' @ bucket @ ''/'' @ key) else None)"

subsection \<open>Manifests\<close>

datatype audit_error = AuditSqlError sql_error | AuditWormError

definition DEFAULT_RETENTION_DAYS :: int where "DEFAULT_RETENTION_DAYS = 2555"

text \<open>The documents signed here are ASCII, so \<open>ensure_ascii\<close> does not matter.\<close>

definition sign_manifest :: "jobject \<Rightarrow> string \<Rightarrow> string" where
  "sign_manifest document signing_key = hmac_sha256_hex signing_key (canonical_dumps (JDict document))"

definition verify_manifest_signature :: "jobject \<Rightarrow> string \<Rightarrow> string \<Rightarrow> bool" where
  "verify_manifest_signature document signature signing_key = (sign_manifest document signing_key = signature)"

definition manifest_document :: "string \<Rightarrow> int \<Rightarrow> int \<Rightarrow> int \<Rightarrow> int \<Rightarrow> string \<Rightarrow> timestamp \<Rightarrow> jobject" where
  "manifest_document tenant_id manifest_index first_index last_index event_count chain_head created_at =
     [(''tenant_id'', JStr tenant_id), (''manifest_index'', JInt manifest_index), (''first_chain_index'', JInt first_index),
      (''last_chain_index'', JInt last_index), (''event_count'', JInt event_count), (''chain_head'', JStr chain_head),
      (''created_at'', JStr (isoformat created_at))]"

text \<open>\<open>json.dumps(document, indent=2)\<close> of a dictionary of strings and numbers.\<close>

definition indented_dumps :: "jobject \<Rightarrow> string" where
  "indented_dumps document =
     ''{'' @ nl @ join ('','' @ nl) (map (\<lambda>(k, v). ''  '' @ json_str k @ '': '' @ canonical_dumps v) document) @ nl @ ''}''"

definition max_or_zero :: "int list \<Rightarrow> int" where
  "max_or_zero xs = (if xs = [] then 0 else Max (set xs))"

definition manifests_of :: "uuid \<Rightarrow> audit_tables \<Rightarrow> audit_manifest_row list" where
  "manifests_of tenant_id db = filter (\<lambda>m. am_tenant_id m = tenant_id) (au_manifests db)"

definition manifest_key :: "audit_manifest_row \<Rightarrow> string \<times> int" where
  "manifest_key m = (am_tenant_id m, am_manifest_index m)"

definition fold_chain :: "string \<Rightarrow> string list \<Rightarrow> string" where
  "fold_chain head hashes = foldl chain_hash head hashes"

text \<open>
  Seal the segment after the last archived index. \<open>put\<close> is the archive's \<open>put\<close> on its bucket: the
  location, or \<open>None\<close> when it raises; the transaction then rolls back.
\<close>

definition build_and_archive ::
  "(string \<Rightarrow> string \<Rightarrow> timestamp \<Rightarrow> string option) \<Rightarrow> string \<Rightarrow> int \<Rightarrow> timestamp \<Rightarrow> timestamp \<Rightarrow> uuid \<Rightarrow> audit_tables
   \<Rightarrow> audit_error + (audit_manifest_row option \<times> audit_tables)" where
  "build_and_archive put signing_key retention_days created_at now tenant_id db =
     (let last_archived = max_or_zero (map am_last_chain_index (manifests_of tenant_id db));
          rows = filter (\<lambda>r. last_archived < the (ae_chain_index r)) (chain_rows tenant_id (au_events db)) in
      case rows of
        [] \<Rightarrow> Inr (None, db)
      | first # _ \<Rightarrow>
         (let first_index = the (ae_chain_index first);
              last_index = the (ae_chain_index (last rows));
              chain_head = fold_chain (the (ae_prev_event_hash first)) (map (\<lambda>r. the (ae_event_hash r)) rows);
              manifest_index = max_or_zero (map am_manifest_index (manifests_of tenant_id db)) + 1;
              document = manifest_document tenant_id manifest_index first_index last_index (int (length rows)) chain_head created_at;
              signature = sign_manifest document signing_key;
              key = tenant_id @ ''/manifest-'' @ zfill 12 (str_of_int manifest_index) @ ''.json''
          in case put key (indented_dumps (document @ [(''signature'', JStr signature)])) (now + seconds (86400 * retention_days)) of
               None \<Rightarrow> Inl AuditWormError
             | Some location \<Rightarrow>
                (let row = \<lparr>am_tenant_id = tenant_id, am_manifest_index = manifest_index, am_first_chain_index = first_index,
                            am_last_chain_index = last_index, am_event_count = int (length rows), am_chain_head_hash = chain_head,
                            am_signature = signature, am_worm_location = location, am_created_at = created_at\<rparr>
                 in if has_key manifest_key (manifest_key row) (au_manifests db) \<or> manifest_index < 1 \<or> last_index < first_index
                    then Inl (AuditSqlError IntegrityError)
                    else Inr (Some row, db\<lparr>au_manifests := au_manifests db @ [row]\<rparr>))))"

record evidence_report =
  er_chain :: chain_report
  er_manifests :: nat
  er_signatures_valid :: bool
  er_tamper_detected :: bool

definition manifest_row_document :: "audit_manifest_row \<Rightarrow> jobject" where
  "manifest_row_document m = manifest_document (am_tenant_id m) (am_manifest_index m) (am_first_chain_index m)
     (am_last_chain_index m) (am_event_count m) (am_chain_head_hash m) (am_created_at m)"

definition verify_tenant_evidence :: "string \<Rightarrow> uuid \<Rightarrow> audit_tables \<Rightarrow> evidence_report" where
  "verify_tenant_evidence signing_key tenant_id db =
     (let chain = verify_tenant_chain tenant_id db;
          rows = sort_key am_manifest_index (manifests_of tenant_id db);
          ok = list_all (\<lambda>m. verify_manifest_signature (manifest_row_document m) (am_signature m) signing_key) rows;
          valid = (case chain of ChainValid _ _ \<Rightarrow> True | ChainBroken _ _ _ \<Rightarrow> False)
      in \<lparr>er_chain = chain, er_manifests = length rows, er_signatures_valid = ok, er_tamper_detected = (\<not> valid \<or> \<not> ok)\<rparr>)"

subsection \<open>Chained rows\<close>

definition row_hash :: "audit_event_row \<Rightarrow> string" where
  "row_hash r = event_hash (stored_fingerprint r)"

definition chain_head :: "string \<Rightarrow> audit_event_row list \<Rightarrow> string" where
  "chain_head p rows = fold_chain p (map row_hash rows)"

fun chained :: "string \<Rightarrow> audit_event_row list \<Rightarrow> bool" where
  "chained p [] = True"
| "chained p (r # rs) \<longleftrightarrow> ae_event_hash r = Some (row_hash r) \<and> ae_prev_event_hash r = Some p \<and>
     chained (chain_hash p (row_hash r)) rs"

lemma chain_head_simps [simp]: "chain_head p [] = p" "chain_head p (r # rs) = chain_head (chain_hash p (row_hash r)) rs"
  "chain_head p (xs @ ys) = chain_head (chain_head p xs) ys"
  by (simp_all add: chain_head_def fold_chain_def)

lemma chained_append [simp]: "chained p (xs @ ys) \<longleftrightarrow> chained p xs \<and> chained (chain_head p xs) ys"
  by (induction xs arbitrary: p) auto

lemma verify_rows_valid_iff:
  "verify_rows rows p n = ChainValid m h \<longleftrightarrow> chained p rows \<and> m = n + length rows \<and> h = chain_head p rows"
  by (induction rows arbitrary: p n) (auto simp: Let_def row_hash_def)

definition raw_chain :: "uuid \<Rightarrow> audit_event_row list \<Rightarrow> audit_event_row list" where
  "raw_chain t events = filter (\<lambda>r. ae_tenant_id r = Some t \<and> ae_chain_index r \<noteq> None) events"

definition indexed :: "audit_event_row list \<Rightarrow> bool" where
  "indexed rows \<longleftrightarrow> map ae_chain_index rows = map (Some \<circ> int) [1..<Suc (length rows)]"

lemma indexed_append: "indexed (rows @ [r]) \<longleftrightarrow> indexed rows \<and> ae_chain_index r = Some (int (length rows) + 1)"
  by (auto simp: indexed_def)

lemma indexed_nth: "indexed rows \<Longrightarrow> i < length rows \<Longrightarrow> ae_chain_index (rows ! i) = Some (int i + 1)"
proof -
  assume i: "indexed rows" "i < length rows"
  have "ae_chain_index (rows ! i) = map ae_chain_index rows ! i" using i(2) by simp
  also have "\<dots> = Some (int i + 1)" using i unfolding indexed_def by (simp del: upt_Suc)
  finally show ?thesis .
qed

lemma chain_rows_indexed: "indexed (raw_chain t events) \<Longrightarrow> chain_rows t events = raw_chain t events"
proof -
  assume i: "indexed (raw_chain t events)"
  have "map (\<lambda>r. the (ae_chain_index r)) (raw_chain t events) = map the (map ae_chain_index (raw_chain t events))" by simp
  also have "\<dots> = map int [1..<Suc (length (raw_chain t events))]" using i unfolding indexed_def by (simp del: upt_Suc)
  finally have "sorted (map (\<lambda>r. the (ae_chain_index r)) (raw_chain t events))"
    by (simp add: sorted_iff_nth_mono_less del: upt_Suc)
  then show ?thesis by (simp add: chain_rows_def raw_chain_def sort_key_id_if_sorted)
qed

text \<open>The chain of every tenant, and the state row that points at its end.\<close>

definition chain_inv :: "audit_tables \<Rightarrow> bool" where
  "chain_inv db \<longleftrightarrow> (\<forall>t. indexed (raw_chain t (au_events db)) \<and> chained GENESIS_HASH (raw_chain t (au_events db)) \<and>
     (case au_chain_state db t of
        None \<Rightarrow> raw_chain t (au_events db) = []
      | Some s \<Rightarrow> cs_last_index s = int (length (raw_chain t (au_events db))) \<and>
                  cs_last_hash s = chain_head GENESIS_HASH (raw_chain t (au_events db))))"

lemma chain_invD:
  assumes "chain_inv db"
  shows "indexed (raw_chain t (au_events db))" "chained GENESIS_HASH (raw_chain t (au_events db))"
    "au_chain_state db t = None \<Longrightarrow> raw_chain t (au_events db) = []"
    "au_chain_state db t = Some s \<Longrightarrow> cs_last_index s = int (length (raw_chain t (au_events db))) \<and>
       cs_last_hash s = chain_head GENESIS_HASH (raw_chain t (au_events db))"
  using assms [unfolded chain_inv_def, rule_format, of t] by (auto split: option.splits)

lemma chain_inv_cong:
  "au_chain_state db' = au_chain_state db \<Longrightarrow> (\<And>t. raw_chain t (au_events db') = raw_chain t (au_events db)) \<Longrightarrow> chain_inv db' = chain_inv db"
  by (simp add: chain_inv_def cong: option.case_cong)

subsection \<open>What JSON storage keeps\<close>

text \<open>
  JSON values that \<open>jsonb\<close> gives back as they were, up to the order of keys: no floating-point numbers
  (PostgreSQL normalises them), no NUL character, and a dictionary has each key once.
\<close>

fun plain :: "json \<Rightarrow> bool" where
  "plain (JFloat _) = False"
| "plain (JStr s) = (char_of (0 :: nat) \<notin> set s)"
| "plain (JList vs) = list_all plain vs"
| "plain (JDict kvs) = (distinct (map fst kvs) \<and> list_all (\<lambda>(k, v). char_of (0 :: nat) \<notin> set k \<and> plain v) kvs)"
| "plain _ = True"

definition jsonb_keeps :: "(jobject \<Rightarrow> jobject) \<Rightarrow> bool" where
  "jsonb_keeps jsonb \<longleftrightarrow> (\<forall>d. plain (JDict d) \<longrightarrow>
     plain (JDict (jsonb d)) \<and> canonical_dumps (JDict (jsonb d)) = canonical_dumps (JDict d))"

lemma fingerprint_hash_cong:
  "canonical_dumps (JDict d) = canonical_dumps (JDict d') \<Longrightarrow>
   event_hash (fingerprint i t a m ac de tt ti d) = event_hash (fingerprint i t a m ac de tt ti d')"
  by (simp add: event_hash_def canonical_event_json_def fingerprint_def)

subsection \<open>Extending the chain\<close>

lemma append_to_chain_Inr:
  assumes "append_to_chain t ev db = Inr ((i, h, prev), db1)" "chain_inv db"
  shows "i = int (length (raw_chain t (au_events db))) + 1 \<and> h = event_hash ev \<and>
    prev = chain_head GENESIS_HASH (raw_chain t (au_events db)) \<and>
    db1 = db\<lparr>au_chain_state := (au_chain_state db)(t \<mapsto> \<lparr>cs_last_index = i, cs_last_hash = chain_hash prev h\<rparr>)\<rparr>"
  using assms(1) chain_invD(3,4) [OF assms(2), of t]
  by (auto simp: append_to_chain_def Let_def split: option.splits sum.splits if_splits)

lemma insert_event_row_Inr: "insert_event_row e db = Inr db' \<Longrightarrow> db' = db\<lparr>au_events := au_events db @ [e]\<rparr>"
  by (auto simp: insert_event_row_def split: if_splits)

lemma raw_chain_append:
  "raw_chain t (events @ [e]) = raw_chain t events @ (if ae_tenant_id e = Some t \<and> ae_chain_index e \<noteq> None then [e] else [])"
  by (simp add: raw_chain_def)

text \<open>An event that carries the next index, its own hash and the current head extends the chain.\<close>

lemma extend_inv:
  assumes "chain_inv db" "append_to_chain t ev db = Inr ((i, h, prev), db1)" "insert_event_row e db1 = Inr db2"
    and "ae_tenant_id e = Some t" "ae_chain_index e = Some i" "ae_event_hash e = Some h" "ae_prev_event_hash e = Some prev"
    and "row_hash e = event_hash ev"
  shows "chain_inv db2 \<and> au_events db2 = au_events db @ [e] \<and> au_outbox db2 = au_outbox db \<and> au_manifests db2 = au_manifests db \<and>
    raw_chain t (au_events db2) = raw_chain t (au_events db) @ [e]"
proof -
  note a = append_to_chain_Inr [OF assms(2,1)] and e = insert_event_row_Inr [OF assms(3)]
  have ev: "au_events db2 = au_events db @ [e]" using a e by simp
  have st: "au_chain_state db2 = (au_chain_state db)(t \<mapsto> \<lparr>cs_last_index = i, cs_last_hash = chain_hash prev h\<rparr>)" using a e by simp
  have "chain_inv db2"
    unfolding chain_inv_def
  proof
    fix u
    show "indexed (raw_chain u (au_events db2)) \<and> chained GENESIS_HASH (raw_chain u (au_events db2)) \<and>
        (case au_chain_state db2 u of None \<Rightarrow> raw_chain u (au_events db2) = []
         | Some s \<Rightarrow> cs_last_index s = int (length (raw_chain u (au_events db2))) \<and>
             cs_last_hash s = chain_head GENESIS_HASH (raw_chain u (au_events db2)))"
    proof (cases "u = t")
      case True
      then show ?thesis using chain_invD(1,2) [OF assms(1), of t] assms(4-8) a
        by (simp add: ev st raw_chain_append indexed_append)
    next
      case False
      then have "raw_chain u (au_events db2) = raw_chain u (au_events db)" using assms(4) by (simp add: ev raw_chain_append)
      then show ?thesis using False chain_invD [OF assms(1), of u] by (auto simp: st split: option.splits)
    qed
  qed
  then show ?thesis using a e assms(4,5) by (simp add: raw_chain_append)
qed

lemma insert_audit_inv:
  assumes "chain_inv db" "jsonb_keeps jsonb" "case det of None \<Rightarrow> True | Some d \<Rightarrow> plain (JDict d)"
    and "insert_audit jsonb i now who a d tt ti tid det tr db = Inr db'"
  shows "chain_inv db' \<and> au_outbox db' = au_outbox db \<and> au_manifests db' = au_manifests db \<and>
    (\<forall>t. \<exists>new. raw_chain t (au_events db') = raw_chain t (au_events db) @ new)"
proof (cases tid)
  case None
  then obtain e where e: "ae_tenant_id e = None" "db' = db\<lparr>au_events := au_events db @ [e]\<rparr>"
    using assms(4) by (force simp: insert_audit_def Let_def dest: insert_event_row_Inr)
  then have "raw_chain u (au_events db') = raw_chain u (au_events db)" for u by (simp add: raw_chain_append)
  then show ?thesis using assms(1) e(2) chain_inv_cong [of db' db] by simp
next
  case (Some t)
  define pl where "pl = (case det of None \<Rightarrow> [] | Some d \<Rightarrow> d)"
  define actor auth where "actor = (case who of Some p \<Rightarrow> pr_subject p | None \<Rightarrow> ''anonymous'')"
    and "auth = (case who of Some p \<Rightarrow> pr_auth_method p | None \<Rightarrow> ''anonymous'')"
  let ?fp = "fingerprint i (occurred_epoch_micros now) actor auth a d tt ti pl"
  obtain n h prev db1 where ap: "append_to_chain t ?fp db = Inr ((n, h, prev), db1)"
    and ins: "insert_event_row \<lparr>ae_id = i, ae_tenant_id = Some t, ae_occurred_at = now, ae_actor = actor, ae_auth_method = auth,
      ae_action = a, ae_decision = d, ae_target_type = tt, ae_target_id = ti, ae_details = jsonb pl, ae_trace_id = tr,
      ae_chain_index = Some n, ae_event_hash = Some h, ae_prev_event_hash = Some prev\<rparr> db1 = Inr db'" (is "insert_event_row ?e db1 = _")
    using assms(4) Some
    by (auto simp: insert_audit_def Let_def pl_def actor_def auth_def split: sum.splits prod.splits)
  have "canonical_dumps (JDict (jsonb pl)) = canonical_dumps (JDict pl)"
    using assms(2,3) by (auto simp: pl_def jsonb_keeps_def split: option.splits)
  note fp = fingerprint_hash_cong [OF this]
  have "row_hash ?e = event_hash ?fp" unfolding row_hash_def stored_fingerprint_def by (simp add: fp)
  from extend_inv [OF assms(1) ap ins _ _ _ _ this] show ?thesis by (auto simp: raw_chain_append)
qed

lemma dispatch_row_Inr:
  assumes "chain_inv db" "jsonb_keeps jsonb" "plain (JDict (ao_details row))"
    and "dispatch_row jsonb t (row, eid) db = Inr db'"
  shows "chain_inv db' \<and> au_manifests db' = au_manifests db \<and>
    au_outbox db' = update_where (\<lambda>r. ao_id r = ao_id row) (\<lambda>r. r\<lparr>ao_status := AO_DISPATCHED\<rparr>) (au_outbox db) \<and>
    (\<exists>e. au_events db' = au_events db @ [e] \<and> ae_id e = eid \<and> ae_tenant_id e = Some t \<and> ae_chain_index e \<noteq> None \<and>
       ae_actor e = ao_actor row \<and> ae_action e = ao_action row \<and> ae_decision e = ao_decision row \<and>
       ae_occurred_at e = ao_occurred_at row)"
proof -
  let ?fp = "fingerprint eid (occurred_epoch_micros (ao_occurred_at row)) (ao_actor row) (ao_auth_method row) (ao_action row)
    (ao_decision row) (ao_target_type row) (ao_target_id row) (ao_details row)"
  obtain n h prev db1 db2 where ap: "append_to_chain t ?fp db = Inr ((n, h, prev), db1)"
    and ins: "insert_event_row \<lparr>ae_id = eid, ae_tenant_id = Some t, ae_occurred_at = ao_occurred_at row, ae_actor = ao_actor row,
      ae_auth_method = ao_auth_method row, ae_action = ao_action row, ae_decision = ao_decision row,
      ae_target_type = ao_target_type row, ae_target_id = ao_target_id row, ae_details = jsonb (ao_details row),
      ae_trace_id = ao_trace_id row, ae_chain_index = Some n, ae_event_hash = Some h, ae_prev_event_hash = Some prev\<rparr> db1 = Inr db2"
      (is "insert_event_row ?e db1 = _")
    and db': "db' = db2\<lparr>au_outbox := update_where (\<lambda>r. ao_id r = ao_id row) (\<lambda>r. r\<lparr>ao_status := AO_DISPATCHED\<rparr>) (au_outbox db2)\<rparr>"
    using assms(4) by (auto simp: dispatch_row_def split: sum.splits prod.splits)
  have "canonical_dumps (JDict (jsonb (ao_details row))) = canonical_dumps (JDict (ao_details row))"
    using assms(2,3) by (auto simp: jsonb_keeps_def)
  note fp = fingerprint_hash_cong [OF this]
  have "row_hash ?e = event_hash ?fp" unfolding row_hash_def stored_fingerprint_def by (simp add: fp)
  from extend_inv [OF assms(1) ap ins _ _ _ _ this]
  have "chain_inv db2" "au_events db2 = au_events db @ [?e]" "au_outbox db2 = au_outbox db" "au_manifests db2 = au_manifests db"
    by auto
  then show ?thesis unfolding db' using chain_inv_cong [of "db2\<lparr>au_outbox := _\<rparr>" db2] by auto
qed

text \<open>The intent an event was made from.\<close>

definition records_intent :: "uuid \<Rightarrow> audit_outbox_row \<Rightarrow> audit_event_row \<Rightarrow> bool" where
  "records_intent t r e \<longleftrightarrow> ae_tenant_id e = Some t \<and> ae_chain_index e \<noteq> None \<and> ae_actor e = ao_actor r \<and>
     ae_action e = ao_action r \<and> ae_decision e = ao_decision r \<and> ae_occurred_at e = ao_occurred_at r"

lemma update_where_update_where:
  assumes "\<And>r. Q (f r) = Q r" "\<And>r. f (f r) = f r"
  shows "update_where Q f (update_where P f s) = update_where (\<lambda>r. P r \<or> Q r) f s"
  using assms by (induction s) (auto simp: update_where_Cons)

lemma dispatch_rows_Inr:
  assumes "chain_inv db" "jsonb_keeps jsonb" "\<forall>p \<in> set ps. plain (JDict (ao_details (fst p)))"
    and "dispatch_rows jsonb t ps db = Inr db'"
  shows "chain_inv db' \<and> au_manifests db' = au_manifests db \<and>
    au_outbox db' = update_where (\<lambda>r. ao_id r \<in> ao_id ` fst ` set ps) (\<lambda>r. r\<lparr>ao_status := AO_DISPATCHED\<rparr>) (au_outbox db) \<and>
    (\<exists>new. au_events db' = au_events db @ new \<and> list_all2 (records_intent t) (map fst ps) new \<and> map ae_id new = map snd ps)"
  using assms
proof (induction ps arbitrary: db)
  case Nil
  then show ?case by (simp add: update_where_def)
next
  case (Cons p ps)
  obtain row eid where p: "p = (row, eid)" by (cases p)
  obtain db1 where r: "dispatch_row jsonb t (row, eid) db = Inr db1" "dispatch_rows jsonb t ps db1 = Inr db'"
    using Cons.prems(4) p by (auto split: sum.splits)
  note d = dispatch_row_Inr [OF Cons.prems(1,2) _ r(1)]
  have pl: "plain (JDict (ao_details row))" using Cons.prems(3) p by simp
  obtain e where e: "au_events db1 = au_events db @ [e]" "ae_id e = eid" "records_intent t row e"
    using d [OF pl] by (auto simp: records_intent_def)
  obtain new where new: "au_events db' = au_events db1 @ new" "list_all2 (records_intent t) (map fst ps) new" "map ae_id new = map snd ps"
    and st: "chain_inv db'" "au_manifests db' = au_manifests db1"
      "au_outbox db' = update_where (\<lambda>r. ao_id r \<in> ao_id ` fst ` set ps) (\<lambda>r. r\<lparr>ao_status := AO_DISPATCHED\<rparr>) (au_outbox db1)"
    using Cons.IH [of db1] d [OF pl] Cons.prems(2,3) r(2) by auto
  have "au_outbox db' = update_where (\<lambda>r. ao_id r = ao_id row \<or> ao_id r \<in> ao_id ` fst ` set ps)
      (\<lambda>r. r\<lparr>ao_status := AO_DISPATCHED\<rparr>) (au_outbox db)"
    using st(3) d [OF pl] by (simp add: update_where_update_where)
  moreover have "(\<lambda>r. ao_id r = ao_id row \<or> ao_id r \<in> ao_id ` fst ` set ps) = (\<lambda>r. ao_id r \<in> ao_id ` fst ` set (p # ps))"
    by (auto simp: p fun_eq_iff)
  ultimately show ?case using st d [OF pl] e new p by (auto intro!: exI [of _ "e # new"])
qed

subsection \<open>Sealed segments\<close>

text \<open>
  The manifests of a tenant, in the order they were written, seal consecutive segments of its
  chain; each records the head of the chain at its last index and carries a valid signature.
\<close>

fun segments :: "int \<Rightarrow> audit_manifest_row list \<Rightarrow> bool" where
  "segments a [] = True"
| "segments a (m # ms) \<longleftrightarrow> am_first_chain_index m = a + 1 \<and> a < am_last_chain_index m \<and>
     am_event_count m = am_last_chain_index m - a \<and> segments (am_last_chain_index m) ms"

fun sealed_to :: "int \<Rightarrow> audit_manifest_row list \<Rightarrow> int" where
  "sealed_to a [] = a"
| "sealed_to a (m # ms) = sealed_to (am_last_chain_index m) ms"

definition manifest_ok :: "string \<Rightarrow> audit_event_row list \<Rightarrow> audit_manifest_row \<Rightarrow> bool" where
  "manifest_ok key rows m \<longleftrightarrow>
     0 \<le> am_last_chain_index m \<and> am_last_chain_index m \<le> int (length rows) \<and>
     am_chain_head_hash m = chain_head GENESIS_HASH (take (nat (am_last_chain_index m)) rows) \<and>
     verify_manifest_signature (manifest_row_document m) (am_signature m) key"

definition manifest_inv :: "string \<Rightarrow> audit_tables \<Rightarrow> bool" where
  "manifest_inv key db \<longleftrightarrow> (\<forall>t. segments 0 (manifests_of t db) \<and>
     map am_manifest_index (manifests_of t db) = map int [1..<Suc (length (manifests_of t db))] \<and>
     (\<forall>m \<in> set (manifests_of t db). manifest_ok key (raw_chain t (au_events db)) m))"

lemma segments_append: "segments a (ms @ [m]) \<longleftrightarrow> segments a ms \<and> segments (sealed_to a ms) [m]"
  by (induction ms arbitrary: a) auto

lemma sealed_to_Max: "segments a ms \<Longrightarrow> ms \<noteq> [] \<Longrightarrow> Max (set (map am_last_chain_index ms)) = sealed_to a ms \<and> a < sealed_to a ms"
proof (induction ms arbitrary: a)
  case (Cons m ms)
  show ?case
  proof (cases "ms = []")
    case False
    then have "Max (set (map am_last_chain_index ms)) = sealed_to (am_last_chain_index m) ms"
      "am_last_chain_index m < sealed_to (am_last_chain_index m) ms" using Cons by auto
    then show ?thesis using False Cons.prems(1) by (auto simp: max_def)
  qed (use Cons.prems in auto)
qed simp

lemma max_or_zero_sealed: "segments 0 ms \<Longrightarrow> max_or_zero (map am_last_chain_index ms) = sealed_to 0 ms \<and> 0 \<le> sealed_to 0 ms"
  using sealed_to_Max [of 0 ms] by (cases "ms = []") (auto simp: max_or_zero_def)

lemma max_or_zero_count: "map f ms = map int [1..<Suc (length ms)] \<Longrightarrow> max_or_zero (map f ms) = int (length ms)"
proof (cases "ms = []")
  case False
  assume "map f ms = map int [1..<Suc (length ms)]"
  then have "set (map f ms) = int ` {1..<Suc (length ms)}" by (metis set_map set_upt)
  moreover have "Max (int ` {1..<Suc (length ms)}) = int (length ms)"
    using False by (intro Max_eqI) (auto simp: Suc_le_eq)
  ultimately show ?thesis using False by (simp add: max_or_zero_def)
qed (simp add: max_or_zero_def)

lemma manifest_ok_append: "manifest_ok key rows m \<Longrightarrow> manifest_ok key (rows @ new) m"
  by (auto simp: manifest_ok_def)

lemma manifest_inv_events:
  assumes "manifest_inv key db" "au_manifests db' = au_manifests db"
    "\<forall>t. \<exists>new. raw_chain t (au_events db') = raw_chain t (au_events db) @ new"
  shows "manifest_inv key db'"
  unfolding manifest_inv_def
proof
  fix t
  obtain new where "raw_chain t (au_events db') = raw_chain t (au_events db) @ new" using assms(3) by blast
  then show "segments 0 (manifests_of t db') \<and>
     map am_manifest_index (manifests_of t db') = map int [1..<Suc (length (manifests_of t db'))] \<and>
     (\<forall>m \<in> set (manifests_of t db'). manifest_ok key (raw_chain t (au_events db')) m)"
    using assms(1,2) manifest_ok_append unfolding manifest_inv_def manifests_of_def by auto
qed

lemma indexed_drop:
  assumes "indexed rows" "0 \<le> a" "a \<le> int (length rows)"
  shows "filter (\<lambda>r. a < the (ae_chain_index r)) rows = drop (nat a) rows"
proof -
  have idx: "the (ae_chain_index (rows ! i)) = int i + 1" if "i < length rows" for i using indexed_nth [OF assms(1) that] by simp
  have "filter (\<lambda>r. a < the (ae_chain_index r)) (take (nat a) rows) = []"
    using idx by (auto simp: filter_empty_conv in_set_conv_nth)
  moreover have "filter (\<lambda>r. a < the (ae_chain_index r)) (drop (nat a) rows) = drop (nat a) rows"
    using idx assms(2,3) by (auto simp: filter_id_conv in_set_conv_nth)
  moreover have "rows = take (nat a) rows @ drop (nat a) rows" by simp
  ultimately show ?thesis by (metis append_Nil filter_append)
qed

lemma chained_hashes: "chained p rows \<Longrightarrow> map (\<lambda>r. the (ae_event_hash r)) rows = map row_hash rows"
  by (induction rows arbitrary: p) auto

text \<open>The rows after the last sealed index: their indices, and the head of the chain over them.\<close>

lemma open_segment:
  assumes inv: "indexed rows" "chained GENESIS_HASH rows" and a: "0 \<le> a" "a \<le> int (length rows)" and rows: "drop (nat a) rows = f # fs"
  shows "nat a < length rows" "the (ae_chain_index f) = a + 1" "the (ae_chain_index (last (f # fs))) = int (length rows)"
    "fold_chain (the (ae_prev_event_hash f)) (map (\<lambda>r. the (ae_event_hash r)) (f # fs)) = chain_head GENESIS_HASH rows"
    "int (length (f # fs)) = int (length rows) - a"
proof -
  show lt: "nat a < length rows" using rows by (metis drop_all list.distinct(1) not_le)
  have f: "f = rows ! nat a" using rows lt by (metis Cons_nth_drop_Suc list.inject)
  show "the (ae_chain_index f) = a + 1" using indexed_nth [OF inv(1) lt] f a(1) by simp
  have "last (f # fs) = rows ! (length rows - 1)"
  proof -
    have "last (f # fs) = last rows" using last_drop [OF lt] rows by simp
    moreover have "rows \<noteq> []" using lt by auto
    ultimately show ?thesis by (simp add: last_conv_nth)
  qed
  then show "the (ae_chain_index (last (f # fs))) = int (length rows)"
    using indexed_nth [OF inv(1), of "length rows - 1"] lt by (simp add: of_nat_diff)
  have "chained (chain_head GENESIS_HASH (take (nat a) rows)) (f # fs)"
    using inv(2) rows by (metis append_take_drop_id chained_append)
  then have fprev: "ae_prev_event_hash f = Some (chain_head GENESIS_HASH (take (nat a) rows))"
    and hs: "map (\<lambda>r. the (ae_event_hash r)) (f # fs) = map row_hash (f # fs)" using chained_hashes by auto
  show "fold_chain (the (ae_prev_event_hash f)) (map (\<lambda>r. the (ae_event_hash r)) (f # fs)) = chain_head GENESIS_HASH rows"
    unfolding hs fprev option.sel chain_head_def [symmetric] by (metis rows append_take_drop_id chain_head_simps(3))
  show "int (length (f # fs)) = int (length rows) - a" using rows lt a(1) by (metis int_nat_eq length_drop less_imp_le of_nat_diff)
qed

lemma build_and_archive_inv:
  assumes "chain_inv db" "manifest_inv key db" "build_and_archive put key days c now t db = Inr (res, db')"
  shows "manifest_inv key db' \<and> au_events db' = au_events db \<and> au_chain_state db' = au_chain_state db \<and> au_outbox db' = au_outbox db \<and>
    (case res of None \<Rightarrow> db' = db | Some m \<Rightarrow> au_manifests db' = au_manifests db @ [m] \<and> am_tenant_id m = t)"
proof -
  define rows ms a where "rows = raw_chain t (au_events db)" and "ms = manifests_of t db" and "a = sealed_to 0 ms"
  have inv: "indexed rows" "chained GENESIS_HASH rows" using chain_invD [OF assms(1)] by (simp_all add: rows_def)
  have ms: "segments 0 ms" "map am_manifest_index ms = map int [1..<Suc (length ms)]" "\<forall>m \<in> set ms. manifest_ok key rows m"
    using assms(2) unfolding manifest_inv_def rows_def ms_def by auto
  have a: "max_or_zero (map am_last_chain_index ms) = a" "0 \<le> a" using max_or_zero_sealed [OF ms(1)] by (simp_all add: a_def)
  have "a \<in> {0} \<union> am_last_chain_index ` set ms"
    using a(1) by (auto simp: max_or_zero_def split: if_splits)
  then have alen: "a \<le> int (length rows)" using ms(3) by (auto simp: manifest_ok_def)
  have seg: "filter (\<lambda>r. a < the (ae_chain_index r)) (chain_rows t (au_events db)) = drop (nat a) rows"
    using indexed_drop [OF inv(1) a(2) alen] chain_rows_indexed [of t "au_events db"] inv(1) by (simp add: rows_def)
  show ?thesis
  proof (cases "drop (nat a) rows")
    case Nil
    then show ?thesis using assms(2,3) seg a(1) by (simp add: build_and_archive_def Let_def ms_def)
  next
    case (Cons f fs)
    note sg = open_segment [OF inv a(2) alen Cons]
    obtain m where m: "res = Some m" "db' = db\<lparr>au_manifests := au_manifests db @ [m]\<rparr>" "am_tenant_id m = t"
      "am_manifest_index m = int (length ms) + 1" "am_first_chain_index m = a + 1" "am_last_chain_index m = int (length rows)"
      "am_event_count m = int (length rows) - a" "am_chain_head_hash m = chain_head GENESIS_HASH rows"
      "am_signature m = sign_manifest (manifest_row_document m) key"
      using assms(3) seg a(1) Cons sg max_or_zero_count [OF ms(2)]
      by (auto simp: build_and_archive_def Let_def ms_def [symmetric] manifest_row_document_def
          simp del: last.simps list.map split: option.splits if_splits)
    have mof: "manifests_of u db' = manifests_of u db @ (if u = t then [m] else [])" for u
      using m by (simp add: manifests_of_def)
    have ok: "manifest_ok key rows m" using m by (simp add: manifest_ok_def verify_manifest_signature_def)
    have "manifest_inv key db'"
      unfolding manifest_inv_def
    proof
      fix u
      show "segments 0 (manifests_of u db') \<and>
        map am_manifest_index (manifests_of u db') = map int [1..<Suc (length (manifests_of u db'))] \<and>
        (\<forall>m \<in> set (manifests_of u db'). manifest_ok key (raw_chain u (au_events db')) m)"
      proof (cases "u = t")
        case True
        then show ?thesis using ms m ok sg(1) a(2) unfolding mof by (auto simp: segments_append ms_def [symmetric] a_def [symmetric] rows_def [symmetric])
      next
        case False
        then show ?thesis using assms(2) m(2) unfolding mof manifest_inv_def by simp
      qed
    qed
    then show ?thesis using m by simp
  qed
qed

subsection \<open>The writers together\<close>

text \<open>
  The transactions on the audit tables. Details are JSON that \<open>jsonb\<close> keeps; new tenants appear.
\<close>

inductive audit_step :: "(jobject \<Rightarrow> jobject) \<Rightarrow> string \<Rightarrow> audit_tables \<Rightarrow> audit_tables \<Rightarrow> bool" for jsonb key where
  tenant: "audit_step jsonb key db (db\<lparr>au_tenants := t # au_tenants db\<rparr>)"
| insert: "case det of None \<Rightarrow> True | Some d \<Rightarrow> plain (JDict d) \<Longrightarrow>
    insert_audit jsonb i now who a d tt ti tid det tr db = Inr db' \<Longrightarrow> audit_step jsonb key db db'"
| enqueue: "case det of None \<Rightarrow> True | Some d \<Rightarrow> plain (JDict d) \<Longrightarrow>
    enqueue_audit jsonb i now t ac am a d tt ti det tr db = Inr db' \<Longrightarrow> audit_step jsonb key db db'"
| dispatch: "dispatch_pending_audit jsonb batch uid t db = Inr (n, db') \<Longrightarrow> audit_step jsonb key db db'"
| archive: "build_and_archive put key days c now t db = Inr (res, db') \<Longrightarrow> audit_step jsonb key db db'"

definition empty_audit :: audit_tables where
  "empty_audit = \<lparr>au_tenants = [], au_chain_state = Map.empty, au_events = [], au_outbox = [], au_manifests = []\<rparr>"

definition audit_inv :: "string \<Rightarrow> audit_tables \<Rightarrow> bool" where
  "audit_inv key db \<longleftrightarrow> chain_inv db \<and> manifest_inv key db \<and> unique_key ao_id (au_outbox db) \<and>
     (\<forall>r \<in> set (au_outbox db). plain (JDict (ao_details r)))"

lemma plain_empty: "plain (JDict [])" by simp

lemma dispatch_pending_Inr:
  assumes "chain_inv db" "jsonb_keeps jsonb" "\<forall>r \<in> set (au_outbox db). plain (JDict (ao_details r))"
    and "dispatch_pending_audit jsonb batch uid t db = Inr (n, db')"
  shows "n = length (pending_intents t batch db) \<and> chain_inv db' \<and> au_manifests db' = au_manifests db \<and>
    au_outbox db' = update_where (\<lambda>r. ao_id r \<in> ao_id ` set (pending_intents t batch db))
      (\<lambda>r. r\<lparr>ao_status := AO_DISPATCHED\<rparr>) (au_outbox db) \<and>
    (\<exists>new. au_events db' = au_events db @ new \<and> list_all2 (records_intent t) (pending_intents t batch db) new \<and>
       map ae_id new = map uid [0..<n])"
proof -
  let ?rows = "pending_intents t batch db"
  let ?ps = "zip ?rows (map uid [0..<length ?rows])"
  have fs: "map fst ?ps = ?rows" "map snd ?ps = map uid [0..<length ?rows]" by simp_all
  have img: "fst ` set ?ps = set ?rows" using fs(1) by (metis set_map)
  have "set ?rows \<subseteq> set (au_outbox db)" unfolding pending_intents_def using set_take_subset by fastforce
  then have pl: "\<forall>p \<in> set ?ps. plain (JDict (ao_details (fst p)))" using assms(3) img by blast
  have run: "dispatch_rows jsonb t ?ps db = Inr db'" "n = length ?rows"
    using assms(4) by (auto simp: dispatch_pending_audit_def Let_def split: sum.splits)
  show ?thesis using dispatch_rows_Inr [OF assms(1,2) pl run(1)] run(2) unfolding fs img by simp
qed

lemma audit_step_inv:
  assumes "audit_step jsonb key db db'" "jsonb_keeps jsonb" "audit_inv key db"
  shows "audit_inv key db'"
  using assms(1)
proof cases
  case tenant
  then show ?thesis using assms(3) chain_inv_cong [of db' db] unfolding audit_inv_def manifest_inv_def manifests_of_def by simp
next
  case insert
  then show ?thesis using insert_audit_inv [OF _ assms(2) insert] manifest_inv_events [of key db db'] assms(3)
    unfolding audit_inv_def by simp
next
  case (enqueue det i now t ac am a d tt ti tr)
  have "plain (JDict (jsonb (case det of None \<Rightarrow> [] | Some d \<Rightarrow> d)))"
    using assms(2) enqueue(1) plain_empty unfolding jsonb_keeps_def by (cases det) auto
  then show ?thesis using enqueue(2) assms(3) chain_inv_cong [of db' db]
    by (auto simp: enqueue_audit_def audit_inv_def manifest_inv_def manifests_of_def unique_key_append simp del: plain.simps split: if_splits)
next
  case (dispatch batch uid t n)
  have inv: "chain_inv db" "\<forall>r \<in> set (au_outbox db). plain (JDict (ao_details r))" "unique_key ao_id (au_outbox db)"
    using assms(3) by (simp_all add: audit_inv_def del: plain.simps)
  note d = dispatch_pending_Inr [OF inv(1) assms(2) inv(2) dispatch]
  have "\<forall>r \<in> set (au_outbox db'). plain (JDict (ao_details r))"
    using d inv(2) by (auto simp: update_where_def simp del: plain.simps)
  moreover have "unique_key ao_id (au_outbox db')" using d inv(3) by (simp add: unique_key_update_where)
  moreover have "\<forall>u. \<exists>new. raw_chain u (au_events db') = raw_chain u (au_events db) @ new"
    using d by (auto simp: raw_chain_def)
  ultimately show ?thesis using d assms(3) manifest_inv_events [of key db db'] unfolding audit_inv_def by simp
next
  case archive
  then show ?thesis using build_and_archive_inv [OF _ _ archive] chain_inv_cong [of db' db] assms(3) unfolding audit_inv_def by simp
qed

lemma audit_inv_empty: "audit_inv key empty_audit"
  by (simp add: audit_inv_def empty_audit_def chain_inv_def manifest_inv_def manifests_of_def raw_chain_def indexed_def)

lemma audit_steps_inv:
  assumes "(audit_step jsonb key)\<^sup>*\<^sup>* empty_audit db" "jsonb_keeps jsonb"
  shows "audit_inv key db"
  using assms(1) by (induction rule: rtranclp_induct) (auto intro: audit_inv_empty audit_step_inv [OF _ assms(2)])

subsection \<open>Properties\<close>

text \<open>
  C17: the evidence the writers leave verifies. In every state the transactions lead to, recomputing
  a tenant's chain from the stored rows succeeds, counts exactly the events the chain state counts and
  ends in the head it records; so a writer never breaks the chain, whoever wrote last.
\<close>

theorem audit_chain_verifies:
  assumes "(audit_step jsonb key)\<^sup>*\<^sup>* empty_audit db" "jsonb_keeps jsonb"
  shows "\<exists>n h. verify_tenant_chain t db = ChainValid n h \<and>
    (case au_chain_state db t of None \<Rightarrow> n = 0 \<and> h = GENESIS_HASH | Some s \<Rightarrow> cs_last_index s = int n \<and> cs_last_hash s = h)"
proof -
  have inv: "chain_inv db" using audit_steps_inv [OF assms] by (simp add: audit_inv_def)
  note i = chain_invD [OF inv, of t]
  have "verify_tenant_chain t db =
      ChainValid (length (raw_chain t (au_events db))) (chain_head GENESIS_HASH (raw_chain t (au_events db)))"
    unfolding verify_tenant_chain_def chain_rows_indexed [OF i(1)] using i(2) by (simp add: verify_rows_valid_iff)
  then show ?thesis using i(3,4) by (auto split: option.split)
qed

lemma evidence_clean:
  assumes "chained GENESIS_HASH (chain_rows t (au_events db))" "\<forall>m \<in> set (manifests_of t db). manifest_ok key rows m"
  shows "\<not> er_tamper_detected (verify_tenant_evidence key t db)"
proof -
  obtain n h where "verify_tenant_chain t db = ChainValid n h"
    using assms(1) verify_rows_valid_iff unfolding verify_tenant_chain_def by blast
  then show ?thesis using assms(2) by (simp add: verify_tenant_evidence_def Let_def list_all_iff manifest_ok_def)
qed

text \<open>
  Manifests seal the chain without gaps. In every reachable state a tenant's manifests are numbered
  from 1, their segments follow one another from index 1 on, each counts its events and
  records the head of the chain at its last index, and verification reports no tampering.
\<close>

theorem manifests_seal_chain:
  assumes "(audit_step jsonb key)\<^sup>*\<^sup>* empty_audit db" "jsonb_keeps jsonb"
  shows "map am_manifest_index (manifests_of t db) = map int [1..<Suc (length (manifests_of t db))] \<and>
    segments 0 (manifests_of t db) \<and>
    (\<forall>m \<in> set (manifests_of t db). am_last_chain_index m \<le> int (length (chain_rows t (au_events db))) \<and>
       am_chain_head_hash m = chain_head GENESIS_HASH (take (nat (am_last_chain_index m)) (chain_rows t (au_events db)))) \<and>
    \<not> er_tamper_detected (verify_tenant_evidence key t db)"
proof -
  have inv: "chain_inv db" "manifest_inv key db" using audit_steps_inv [OF assms] by (simp_all add: audit_inv_def)
  note rows = chain_rows_indexed [OF chain_invD(1) [OF inv(1)], of t]
  have ms: "segments 0 (manifests_of t db)" "map am_manifest_index (manifests_of t db) = map int [1..<Suc (length (manifests_of t db))]"
    "\<forall>m \<in> set (manifests_of t db). manifest_ok key (raw_chain t (au_events db)) m"
    using inv(2) by (auto simp: manifest_inv_def)
  have "\<not> er_tamper_detected (verify_tenant_evidence key t db)"
    using evidence_clean [OF _ ms(3)] chain_invD(2) [OF inv(1), of t] rows by simp
  then show ?thesis using ms unfolding rows by (simp add: manifest_ok_def)
qed

text \<open>The texts hashed when rows are verified from a head on.\<close>

fun hashed_texts :: "string \<Rightarrow> audit_event_row list \<Rightarrow> string set" where
  "hashed_texts p [] = {}"
| "hashed_texts p (r # rs) =
     {canonical_event_json (stored_fingerprint r), p @ '':'' @ row_hash r} \<union> hashed_texts (chain_hash p (row_hash r)) rs"

lemma hashed_texts_append: "hashed_texts p (xs @ ys) = hashed_texts p xs \<union> hashed_texts (chain_head p xs) ys"
  by (induction xs arbitrary: p) auto

lemma length_row_hash [simp]: "length (row_hash r) = 64"
  by (simp add: row_hash_def event_hash_def)

lemma equal_heads:
  assumes "length xs = length ys" "chain_head p xs = chain_head p ys" "\<not> collision (hashed_texts p xs) (hashed_texts p ys)"
  shows "map (canonical_event_json \<circ> stored_fingerprint) xs = map (canonical_event_json \<circ> stored_fingerprint) ys"
  using assms
proof (induction xs arbitrary: ys rule: rev_induct)
  case (snoc x xs)
  then obtain ys' y where ys: "ys = ys' @ [y]" "length xs = length ys'" by (metis length_append_singleton length_Suc_conv_rev)
  let ?a = "chain_head p xs" and ?b = "chain_head p ys'"
  have nc: "\<not> collision (hashed_texts p xs) (hashed_texts p ys')"
    "\<not> collision {canonical_event_json (stored_fingerprint x), ?a @ '':'' @ row_hash x}
       {canonical_event_json (stored_fingerprint y), ?b @ '':'' @ row_hash y}"
    using snoc.prems(3) unfolding ys(1) hashed_texts_append collision_def by auto
  have "sha256_hex (?a @ '':'' @ row_hash x) = sha256_hex (?b @ '':'' @ row_hash y)"
    using snoc.prems(2) by (simp add: ys(1) chain_hash_def)
  then have "?a @ '':'' @ row_hash x = ?b @ '':'' @ row_hash y" using nc(2) unfolding collision_def by blast
  then have eq: "?a = ?b" "row_hash x = row_hash y" by (simp_all add: append_eq_append_conv)
  then have "canonical_event_json (stored_fingerprint x) = canonical_event_json (stored_fingerprint y)"
    using nc(2) unfolding collision_def row_hash_def event_hash_def by blast
  then show ?case using snoc.IH [OF ys(2) eq(1) nc(1)] ys(1) by simp
qed simp


lemma indexed_take:
  assumes "indexed rows" "0 \<le> a"
  shows "filter (\<lambda>r. the (ae_chain_index r) \<le> a) rows = take (nat a) rows"
proof -
  have idx: "the (ae_chain_index (rows ! i)) = int i + 1" if "i < length rows" for i using indexed_nth [OF assms(1) that] by simp
  have "filter (\<lambda>r. the (ae_chain_index r) \<le> a) (drop (nat a) rows) = []"
    using idx assms(2) by (auto simp: filter_empty_conv in_set_conv_nth)
  moreover have "filter (\<lambda>r. the (ae_chain_index r) \<le> a) (take (nat a) rows) = take (nat a) rows"
    using idx by (auto simp: filter_id_conv in_set_conv_nth)
  moreover have "rows = take (nat a) rows @ drop (nat a) rows" by simp
  ultimately show ?thesis by (metis append_Nil2 filter_append)
qed

lemma indexed_take_indexed: "indexed rows \<Longrightarrow> indexed (take k rows)"
  by (simp add: indexed_def take_map [symmetric] min_def take_upt del: upt_Suc) (simp add: take_map take_upt del: upt_Suc)

text \<open>The state after the newest events of a tenant's chain, those beyond index \<open>k\<close>, are deleted.\<close>

definition truncate_chain :: "uuid \<Rightarrow> int \<Rightarrow> audit_tables \<Rightarrow> audit_tables" where
  "truncate_chain t k db =
     db\<lparr>au_events := filter (\<lambda>e. \<not> (ae_tenant_id e = Some t \<and> ae_chain_index e \<noteq> None \<and> k < the (ae_chain_index e))) (au_events db)\<rparr>"

text \<open>
  A missing tail goes unnoticed. Neither the chain verification nor the verification of the evidence
  compares the recomputed head with the chain state or the manifests: if the newest events of a tenant are
  deleted, sealed ones included, both still report an intact trail.
\<close>

theorem tail_truncation_undetected:
  assumes "(audit_step jsonb key)\<^sup>*\<^sup>* empty_audit db" "jsonb_keeps jsonb" "0 \<le> k"
  shows "(\<exists>n h. verify_tenant_chain t (truncate_chain t k db) = ChainValid n h \<and> int n \<le> k) \<and>
    \<not> er_tamper_detected (verify_tenant_evidence key t (truncate_chain t k db))"
proof -
  have inv: "chain_inv db" "manifest_inv key db" using audit_steps_inv [OF assms(1,2)] by (simp_all add: audit_inv_def)
  let ?rows = "raw_chain t (au_events db)" and ?db = "truncate_chain t k db"
  have "raw_chain t (au_events ?db) = filter (\<lambda>r. the (ae_chain_index r) \<le> k) ?rows"
    by (auto simp: truncate_chain_def raw_chain_def not_less intro!: filter_cong)
  then have raw: "raw_chain t (au_events ?db) = take (nat k) ?rows" using indexed_take [OF chain_invD(1) [OF inv(1)] assms(3)] by simp
  have rows: "chain_rows t (au_events ?db) = take (nat k) ?rows"
    using chain_rows_indexed [of t "au_events ?db"] indexed_take_indexed [OF chain_invD(1) [OF inv(1)]] raw by simp
  have ch: "chained GENESIS_HASH (take (nat k) ?rows)"
    using chain_invD(2) [OF inv(1), of t] by (metis append_take_drop_id chained_append)
  have "\<not> er_tamper_detected (verify_tenant_evidence key t ?db)"
    using inv(2) ch rows by (intro evidence_clean [where rows = ?rows]) (auto simp: manifest_inv_def manifests_of_def truncate_chain_def)
  moreover have "verify_tenant_chain t ?db = ChainValid (length (take (nat k) ?rows)) (chain_head GENESIS_HASH (take (nat k) ?rows))"
    unfolding verify_tenant_chain_def rows using ch by (simp add: verify_rows_valid_iff)
  ultimately show ?thesis using assms(3) by (auto simp: min_def)
qed

text \<open>
  Audit intents are recorded once, in order. A dispatch takes the tenant's pending intents in the
  order of their ids, up to the batch size, appends exactly one chained event for each, in that order, and
  marks exactly those; nothing pending is left when the batch covers it.
\<close>

theorem audit_intents_recorded_once:
  assumes "(audit_step jsonb key)\<^sup>*\<^sup>* empty_audit db" "jsonb_keeps jsonb"
    and "dispatch_pending_audit jsonb batch uid t db = Inr (n, db')"
  shows "n = min batch (length (filter (\<lambda>r. ao_tenant_id r = t \<and> ao_status r = AO_PENDING) (au_outbox db))) \<and>
    (\<exists>new. au_events db' = au_events db @ new \<and> list_all2 (records_intent t) (pending_intents t batch db) new) \<and>
    filter (\<lambda>r. ao_tenant_id r = t \<and> ao_status r = AO_PENDING) (au_outbox db') =
      filter (\<lambda>r. ao_tenant_id r = t \<and> ao_status r = AO_PENDING \<and> r \<notin> set (pending_intents t batch db)) (au_outbox db)"
proof -
  have inv: "chain_inv db" "unique_key ao_id (au_outbox db)" "\<forall>r \<in> set (au_outbox db). plain (JDict (ao_details r))"
    using audit_steps_inv [OF assms(1,2)] by (simp_all add: audit_inv_def del: plain.simps)
  note d = dispatch_pending_Inr [OF inv(1) assms(2) inv(3) assms(3)]
  let ?pi = "pending_intents t batch db"
  have sub: "set ?pi \<subseteq> set (au_outbox db)" unfolding pending_intents_def using set_take_subset by fastforce
  have mem: "ao_id r \<in> ao_id ` set ?pi \<longleftrightarrow> r \<in> set ?pi" if "r \<in> set (au_outbox db)" for r
  proof
    assume "ao_id r \<in> ao_id ` set ?pi"
    then obtain q where "q \<in> set ?pi" "ao_id q = ao_id r" by auto
    then have "row_of ao_id (ao_id r) (au_outbox db) = Some q" "row_of ao_id (ao_id r) (au_outbox db) = Some r"
      using row_of_unique [OF inv(2)] sub that by (metis subsetD)+
    then show "r \<in> set ?pi" using \<open>q \<in> set ?pi\<close> by simp
  qed simp
  have "filter (\<lambda>r. ao_tenant_id r = t \<and> ao_status r = AO_PENDING) (update_where (\<lambda>r. ao_id r \<in> ao_id ` set ?pi)
      (\<lambda>r. r\<lparr>ao_status := AO_DISPATCHED\<rparr>) os) =
      filter (\<lambda>r. ao_tenant_id r = t \<and> ao_status r = AO_PENDING \<and> r \<notin> set ?pi) os" if "set os \<subseteq> set (au_outbox db)" for os
    using that mem by (induction os) (auto simp: update_where_Cons)
  then show ?thesis using d by (auto simp: pending_intents_def)
qed

text \<open>
  Timestamps are hashed exactly. From October 2005 until January 2038 the floating-point encoding of
  an instant is the instant itself in microseconds, so no change of \<open>occurred_at\<close> escapes the hash.
\<close>

theorem epoch_micros_exact:
  assumes "1130000000 * 1000000 \<le> t" "t < 2 ^ 31 * 1000000"
  shows "occurred_epoch_micros t = t"
proof -
  define a where "a = round_half_even (t * 2 ^ 22) 1000000"
  have err: "2 * \<bar>a * 1000000 - t * 2 ^ 22\<bar> \<le> 1000000" using round_half_even_error [of 1000000 "t * 2 ^ 22"] by (simp add: a_def)
  have bt: "bit_length (nat t) = 51" using bit_length_eq [of 50 "nat t"] assms by (simp add: nat_le_iff le_nat_iff nat_less_iff)
  have b6: "bit_length 1000000 = 20" using bit_length_eq [of 19 1000000] by simp
  have s1: "float_scale t 1000000 = 22" using assms by (simp add: float_scale_def bt b6 Let_def)
  have ba: "bit_length (nat (a * 1000000)) = 73"
    using bit_length_eq [of 72 "nat (a * 1000000)"] err assms by (simp add: le_nat_iff nat_less_iff)
  have b22: "bit_length 4194304 = 23" using bit_length_eq [of 22 4194304] by simp
  have s2: "float_scale (a * 1000000) (2 ^ 22) = 2" using err assms by (simp add: float_scale_def ba b22 Let_def)
  have "round_half_even (a * 1000000 * 2 ^ 2) (2 ^ 22) = t * 4" using err by (intro round_half_even_near) simp_all
  moreover have "a * 1000000 \<noteq> 0" "0 < t" using err assms by auto
  moreover have "float_div t 1000000 = (a, 2 ^ 22)" using assms by (simp add: float_div_def s1 a_def)
  moreover have "float_div (a * 1000000) (2 ^ 22) = (round_half_even (a * 1000000 * 2 ^ 2) (2 ^ 22), 2 ^ 2)"
    using calculation(2) unfolding float_div_def s2 by simp
  ultimately show ?thesis by (simp add: occurred_epoch_micros_def)
qed

text \<open>In the interval that follows, two instants can share their encoding.\<close>

lemma epoch_micros_collision:
  "occurred_epoch_micros 2147483648000002 = occurred_epoch_micros 2147483648000003"
proof -
  have "bit_length 2147483648000002 = 51" "bit_length 2147483648000003 = 51" "bit_length 1000000 = 20" "bit_length 2097152 = 22"
    "bit_length 4503599627370500000000 = 72" "bit_length 4503599627370502000000 = 72"
    using bit_length_eq [of 50 2147483648000002] bit_length_eq [of 50 2147483648000003] bit_length_eq [of 19 1000000]
      bit_length_eq [of 21 2097152] bit_length_eq [of 71 4503599627370500000000] bit_length_eq [of 71 4503599627370502000000]
    by simp_all
  then show ?thesis by (simp add: occurred_epoch_micros_def float_div_def float_scale_def round_half_even_def Let_def)
qed

subsection \<open>A trail\<close>

lemma jsonb_id: "jsonb_keeps (\<lambda>d. d)"
  by (simp add: jsonb_keeps_def)

definition sample_audit_base :: audit_tables where
  "sample_audit_base = empty_audit\<lparr>au_tenants := [''t'']\<rparr>"

lemma sample_audit_inserts:
  "\<exists>db e. insert_audit (\<lambda>d. d) ''e1'' 1760000000000000 None ''login'' ''DENY'' None None (Some ''t'') None None sample_audit_base = Inr db \<and>
     au_events db = [e] \<and> chain_rows ''t'' (au_events db) = [e]"
  by (simp add: insert_audit_def append_to_chain_def insert_event_row_def sample_audit_base_def empty_audit_def Let_def
      has_key_def chain_rows_def)

lemma sample_audit_steps:
  obtains db e where "(audit_step (\<lambda>d. d) key)\<^sup>*\<^sup>* empty_audit db" "chain_rows ''t'' (au_events db) = [e]"
proof -
  obtain db e where i: "insert_audit (\<lambda>d. d) ''e1'' 1760000000000000 None ''login'' ''DENY'' None None (Some ''t'') None None sample_audit_base = Inr db"
    "chain_rows ''t'' (au_events db) = [e]" using sample_audit_inserts by blast
  have "audit_step (\<lambda>d. d) key empty_audit sample_audit_base"
    using audit_step.tenant [of "\<lambda>d. d" key empty_audit "''t''"] by (simp add: sample_audit_base_def empty_audit_def)
  moreover have "audit_step (\<lambda>d. d) key sample_audit_base db" by (rule audit_step.insert [OF _ i(1)]) simp
  ultimately show ?thesis using that i(2) by (meson converse_rtranclp_into_rtranclp r_into_rtranclp)
qed

theorem audit_chain_verifies_witness:
  "\<exists>db n h. (audit_step (\<lambda>d. d) ''key'')\<^sup>*\<^sup>* empty_audit db \<and> length (chain_rows ''t'' (au_events db)) = 1 \<and>
     verify_tenant_chain ''t'' db = ChainValid n h"
proof -
  obtain db e where d: "(audit_step (\<lambda>d. d) ''key'')\<^sup>*\<^sup>* empty_audit db" "chain_rows ''t'' (au_events db) = [e]" by (rule sample_audit_steps)
  obtain n h where "verify_tenant_chain ''t'' db = ChainValid n h" using audit_chain_verifies [OF d(1) jsonb_id, of "''t''"] by blast
  then show ?thesis using d by (intro exI [of _ db] exI [of _ n] exI [of _ h]) simp
qed

theorem manifests_seal_chain_witness:
  "\<exists>db. (audit_step (\<lambda>d. d) ''key'')\<^sup>*\<^sup>* empty_audit db \<and> length (chain_rows ''t'' (au_events db)) = 1 \<and>
     \<not> er_tamper_detected (verify_tenant_evidence ''key'' ''t'' db)"
proof -
  obtain db e where d: "(audit_step (\<lambda>d. d) ''key'')\<^sup>*\<^sup>* empty_audit db" "chain_rows ''t'' (au_events db) = [e]" by (rule sample_audit_steps)
  then show ?thesis using manifests_seal_chain [OF d(1) jsonb_id, of "''t''"] by (intro exI [of _ db]) simp
qed

theorem tail_truncation_undetected_witness:
  "\<exists>db. length (chain_rows ''t'' (au_events db)) = 1 \<and> verify_tenant_chain ''t'' (truncate_chain ''t'' 0 db) = ChainValid 0 GENESIS_HASH \<and>
     \<not> er_tamper_detected (verify_tenant_evidence ''key'' ''t'' (truncate_chain ''t'' 0 db))"
proof -
  obtain db e where d: "(audit_step (\<lambda>d. d) ''key'')\<^sup>*\<^sup>* empty_audit db" "chain_rows ''t'' (au_events db) = [e]" by (rule sample_audit_steps)
  note u = tail_truncation_undetected [OF d(1) jsonb_id order_refl, of "''t''"]
  then obtain h where "verify_tenant_chain ''t'' (truncate_chain ''t'' 0 db) = ChainValid 0 h" by auto
  then have "verify_tenant_chain ''t'' (truncate_chain ''t'' 0 db) = ChainValid 0 GENESIS_HASH"
    unfolding verify_tenant_chain_def verify_rows_valid_iff by auto
  then show ?thesis using u d(2) by (intro exI [of _ db]) simp
qed


theorem audit_intents_recorded_once_witness:
  "\<exists>db db'. enqueue_audit (\<lambda>d. d) ''o1'' 5 ''t'' ''boss'' ''oidc'' ''approve'' ''ALLOW'' None None None None sample_audit_base = Inr db \<and>
     dispatch_pending_audit (\<lambda>d. d) 200 (\<lambda>n. ''e1'') ''t'' db = Inr (1, db') \<and> length (au_events db') = 1"
proof -
  obtain db where q: "enqueue_audit (\<lambda>d. d) ''o1'' 5 ''t'' ''boss'' ''oidc'' ''approve'' ''ALLOW'' None None None None sample_audit_base = Inr db"
    "\<exists>n db'. dispatch_pending_audit (\<lambda>d. d) 200 (\<lambda>n. ''e1'') ''t'' db = Inr (n, db')"
    "au_events db = []" "length (filter (\<lambda>r. ao_tenant_id r = ''t'' \<and> ao_status r = AO_PENDING) (au_outbox db)) = 1"
    by (simp add: enqueue_audit_def sample_audit_base_def empty_audit_def has_key_def dispatch_pending_audit_def pending_intents_def
        dispatch_row_def append_to_chain_def insert_event_row_def Let_def)
  then obtain n db' where d: "dispatch_pending_audit (\<lambda>d. d) 200 (\<lambda>n. ''e1'') ''t'' db = Inr (n, db')" by blast
  have "audit_step (\<lambda>d. d) ''key'' empty_audit sample_audit_base"
    using audit_step.tenant [of "\<lambda>d. d" "''key''" empty_audit "''t''"] by (simp add: sample_audit_base_def empty_audit_def)
  moreover have "audit_step (\<lambda>d. d) ''key'' sample_audit_base db" by (rule audit_step.enqueue [OF _ q(1)]) simp
  ultimately have reach: "(audit_step (\<lambda>d. d) ''key'')\<^sup>*\<^sup>* empty_audit db" by (meson converse_rtranclp_into_rtranclp r_into_rtranclp)
  from audit_intents_recorded_once [OF reach jsonb_id d] q(3,4) obtain new where
    "n = 1" "au_events db' = new" "list_all2 (records_intent ''t'') (pending_intents ''t'' 200 db) new" by auto
  moreover have "length (pending_intents ''t'' 200 db) = 1" using q(4) by (simp add: pending_intents_def)
  ultimately show ?thesis using q(1) d by (metis list_all2_lengthD)
qed

theorem epoch_micros_exact_witness: "occurred_epoch_micros 1760000000123457 = 1760000000123457"
  by (rule epoch_micros_exact) simp_all

end
