(* ===== verification/Admin_Access.thy ===== *)
theory Admin_Access
  imports Audit_Chain
begin

text \<open>
  What every route of the Admin API goes through: the tenant role checks of
  \<open>admin_api/tenant_access.py\<close> (a refusal is audited in a transaction of its own before the 403
  leaves) and the Idempotency-Key ledger of \<open>admin_api/idempotency.py\<close>. The tables a route touches
  beyond these are added by extending the record \<open>admin_tables\<close>; the checks are polymorphic in the
  extension.
\<close>

text \<open>\<open>HTTPException\<close> is an error of the route; the others are exceptions the application maps (a
  \<open>ServerError\<close> is any other Python exception, answered with 500).\<close>

datatype api_error =
    HTTPException nat string
  | IdempotencyConflictError
  | DatabaseError sql_error
  | ServerError string

record member_row =
  me_tenant_id :: uuid
  me_id :: uuid
  me_user_id :: uuid

record member_role_row =
  mr_tenant_id :: uuid
  mr_member_id :: uuid
  mr_role :: string

record idempotency_row =
  ir_actor :: string
  ir_key :: string
  ir_operation :: string
  ir_request_hash :: string
  ir_response :: jobject

record admin_tables =
  ad_audit :: audit_tables
  ad_members :: "member_row list"
  ad_roles :: "member_role_row list"
  ad_idempotency :: "idempotency_row list"

subsection \<open>Identifiers\<close>

text \<open>
  \<open>UUID(text)\<close>: the prefixes \<open>urn:\<close> and \<open>uuid:\<close>, surrounding braces and hyphens are dropped, and
  32 characters that \<open>int(_, 16)\<close> reads as a number that is not negative are left.
\<close>

function replace_all :: "string \<Rightarrow> string \<Rightarrow> string" where
  "replace_all p s =
     (if p = [] then s
      else if take (length p) s = p \<and> s \<noteq> [] then replace_all p (drop (length p) s)
      else case s of [] \<Rightarrow> [] | c # cs \<Rightarrow> c # replace_all p cs)"
  by pat_completeness auto
termination by (relation "measure (\<lambda>(p, s). length s)") auto

declare replace_all.simps [simp del]

definition strip :: "(char \<Rightarrow> bool) \<Rightarrow> string \<Rightarrow> string" where
  "strip P s = rev (dropWhile P (rev (dropWhile P s)))"

definition hex_value :: "char \<Rightarrow> nat option" where
  "hex_value c =
     (let n = (of_char c :: nat) in
      if 48 \<le> n \<and> n \<le> 57 then Some (n - 48)
      else if 97 \<le> n \<and> n \<le> 102 then Some (n - 87)
      else if 65 \<le> n \<and> n \<le> 70 then Some (n - 55) else None)"

text \<open>Digits of a numeral, single underscores allowed between digits; \<open>ok\<close> after a digit.\<close>

fun read_hex :: "bool \<Rightarrow> nat \<Rightarrow> string \<Rightarrow> nat option" where
  "read_hex ok acc [] = (if ok then Some acc else None)"
| "read_hex ok acc (c # cs) =
     (if c = CHR ''_'' then (if ok then read_hex False acc cs else None)
      else case hex_value c of Some d \<Rightarrow> read_hex True (16 * acc + d) cs | None \<Rightarrow> None)"

definition is_space :: "char \<Rightarrow> bool" where
  "is_space c \<longleftrightarrow> (let n = (of_char c :: nat) in n = 32 \<or> (9 \<le> n \<and> n \<le> 13) \<or> (28 \<le> n \<and> n \<le> 31))"

definition int_base16 :: "string \<Rightarrow> int option" where
  "int_base16 text =
     (let s = strip is_space text;
          neg = (take 1 s = ''-'');
          s1 = (if neg \<or> take 1 s = ''+'' then drop 1 s else s);
          prefixed = (take 2 s1 = ''0x'' \<or> take 2 s1 = ''0X'');
          s2 = (if prefixed then drop 2 s1 else s1)
      in if s2 = [] then None
         else map_option (\<lambda>n. if neg then - int n else int n) (read_hex prefixed 0 s2))"

fun hex_digits :: "nat \<Rightarrow> nat \<Rightarrow> string" where
  "hex_digits 0 n = []"
| "hex_digits (Suc w) n = hex_digits w (n div 16) @ [hex_digit (n mod 16)]"

definition parse_uuid :: "string \<Rightarrow> uuid option" where
  "parse_uuid text =
     (let h = filter (\<lambda>c. c \<noteq> CHR ''-'') (strip (\<lambda>c. c = CHR ''{'' \<or> c = CHR ''}'') (replace_all ''uuid:'' (replace_all ''urn:'' text)))
      in if length h \<noteq> 32 then None
         else case int_base16 h of
                None \<Rightarrow> None
              | Some n \<Rightarrow>
                 if n < 0 then None
                 else let x = hex_digits 32 (nat n) in
                   Some (take 8 x @ ''-'' @ take 4 (drop 8 x) @ ''-'' @ take 4 (drop 12 x) @ ''-'' @ take 4 (drop 16 x) @ ''-'' @ drop 20 x))"

subsection \<open>Roles\<close>

datatype access_mode = ReadAccess | WriteAccess

definition PLATFORM_ROLES :: "access_mode \<Rightarrow> string list" where
  "PLATFORM_ROLES mode = (case mode of ReadAccess \<Rightarrow> [''PLATFORM_ADMIN'', ''PLATFORM_AUDITOR''] | WriteAccess \<Rightarrow> [''PLATFORM_ADMIN''])"

definition TENANT_ROLES :: "access_mode \<Rightarrow> string list" where
  "TENANT_ROLES mode = (case mode of
     ReadAccess \<Rightarrow> [''TENANT_ADMIN'', ''AGENT_DEVELOPER'', ''TENANT_AUDITOR'']
   | WriteAccess \<Rightarrow> [''TENANT_ADMIN'', ''AGENT_DEVELOPER''])"

text \<open>The join of the tenant's members with their roles.\<close>

definition member_roles :: "uuid \<Rightarrow> uuid \<Rightarrow> 'x admin_tables_scheme \<Rightarrow> string list" where
  "member_roles tenant_id user_id db =
     concat (map (\<lambda>m. map mr_role (filter (\<lambda>r. mr_tenant_id r = me_tenant_id m \<and> mr_member_id r = me_id m) (ad_roles db)))
       (filter (\<lambda>m. me_tenant_id m = tenant_id \<and> me_user_id m = user_id) (ad_members db)))"

definition tenant_exists :: "uuid \<Rightarrow> 'x admin_tables_scheme \<Rightarrow> bool" where
  "tenant_exists tenant_id db \<longleftrightarrow> tenant_id \<in> set (au_tenants (ad_audit db))"

definition subject_user_id :: "principal \<Rightarrow> uuid option" where
  "subject_user_id who = (if pr_auth_method who = ''oidc'' then parse_uuid (pr_subject who) else None)"

text \<open>
  \<open>write_audit\<close> is a transaction of its own. A refusal that cannot be written is the database's error.
  The event's id and time are arguments.
\<close>

definition audit_denial ::
  "(jobject \<Rightarrow> jobject) \<Rightarrow> uuid \<Rightarrow> timestamp \<Rightarrow> principal \<Rightarrow> string \<Rightarrow> string \<Rightarrow> string option \<Rightarrow> uuid option \<Rightarrow> jobject \<Rightarrow> string
   \<Rightarrow> 'x admin_tables_scheme \<Rightarrow> api_error option \<times> 'x admin_tables_scheme" where
  "audit_denial jsonb event_id now who action target_type target_id tenant_id details detail db =
     (case insert_audit jsonb event_id now (Some who) action ''DENY'' (Some target_type) target_id tenant_id (Some details) None (ad_audit db) of
        Inl e \<Rightarrow> (Some (DatabaseError e), db)
      | Inr audit \<Rightarrow> (Some (HTTPException 403 detail), db\<lparr>ad_audit := audit\<rparr>))"

definition require_tenant_access ::
  "(jobject \<Rightarrow> jobject) \<Rightarrow> uuid \<Rightarrow> timestamp \<Rightarrow> principal \<Rightarrow> uuid \<Rightarrow> access_mode \<Rightarrow> string \<Rightarrow> string \<Rightarrow> string option
   \<Rightarrow> 'x admin_tables_scheme \<Rightarrow> api_error option \<times> 'x admin_tables_scheme" where
  "require_tenant_access jsonb event_id now who tenant_id mode action target_type target_id db =
     (if set (pr_roles who) \<inter> set (PLATFORM_ROLES mode) \<noteq> {} then (None, db)
      else let found = tenant_exists tenant_id db;
               roles = (case subject_user_id who of None \<Rightarrow> [] | Some user_id \<Rightarrow> member_roles tenant_id user_id db)
           in if set roles \<inter> set (TENANT_ROLES mode) \<noteq> {} then (None, db)
              else audit_denial jsonb event_id now who action target_type target_id (if found then Some tenant_id else None)
                     ((''reason'', JStr ''insufficient_tenant_role'') #
                      (if found then [] else [(''requested_tenant_id'', JStr tenant_id)]))
                     ''insufficient tenant role'' db)"

definition require_tenant_admin ::
  "(jobject \<Rightarrow> jobject) \<Rightarrow> uuid \<Rightarrow> timestamp \<Rightarrow> principal \<Rightarrow> uuid \<Rightarrow> string \<Rightarrow> string \<Rightarrow> string option
   \<Rightarrow> 'x admin_tables_scheme \<Rightarrow> api_error option \<times> 'x admin_tables_scheme" where
  "require_tenant_admin jsonb event_id now who tenant_id action target_type target_id db =
     (if ''PLATFORM_ADMIN'' \<in> set (pr_roles who) then (None, db)
      else let found = tenant_exists tenant_id db;
               is_admin = (case subject_user_id who of None \<Rightarrow> False
                             | Some user_id \<Rightarrow> ''TENANT_ADMIN'' \<in> set (member_roles tenant_id user_id db))
           in if is_admin then (None, db)
              else audit_denial jsonb event_id now who action target_type target_id (if found then Some tenant_id else None)
                     [(''reason'', JStr ''tenant_admin_required'')] ''tenant administrator role required'' db)"

text \<open>An audited command of a route: the audit row is part of the route's transaction.\<close>

definition audited ::
  "(jobject \<Rightarrow> jobject) \<Rightarrow> uuid \<Rightarrow> timestamp \<Rightarrow> principal option \<Rightarrow> string \<Rightarrow> string \<Rightarrow> string \<Rightarrow> string \<Rightarrow> uuid \<Rightarrow> jobject
   \<Rightarrow> 'x admin_tables_scheme \<Rightarrow> api_error + 'x admin_tables_scheme" where
  "audited jsonb event_id now who action decision target_type target_id tenant_id details db =
     (case insert_audit jsonb event_id now who action decision (Some target_type) (Some target_id) (Some tenant_id) (Some details) None (ad_audit db) of
        Inl e \<Rightarrow> Inl (DatabaseError e)
      | Inr audit \<Rightarrow> Inr (db\<lparr>ad_audit := audit\<rparr>))"

text \<open>
  A route: the check in its own transactions, then the command in one. An error of the command rolls
  back to what the check left.
\<close>

definition guarded ::
  "('x admin_tables_scheme \<Rightarrow> api_error option \<times> 'x admin_tables_scheme) \<Rightarrow>
   ('x admin_tables_scheme \<Rightarrow> api_error + ('a \<times> 'x admin_tables_scheme)) \<Rightarrow>
   'x admin_tables_scheme \<Rightarrow> (api_error + 'a) \<times> 'x admin_tables_scheme" where
  "guarded check command db =
     (case check db of
        (Some e, db1) \<Rightarrow> (Inl e, db1)
      | (None, db1) \<Rightarrow> (case command db1 of Inl e \<Rightarrow> (Inl e, db1) | Inr (r, db2) \<Rightarrow> (Inr r, db2)))"

subsection \<open>The Idempotency-Key ledger\<close>

text \<open>
  \<open>canonical\<close> is the text \<open>json.dumps\<close> gives for the payload with sorted keys; the advisory lock
  serialises the callers of one key, as one step of the model does.
\<close>

definition request_hash :: "jobject \<Rightarrow> string" where
  "request_hash payload = sha256_hex (canonical_dumps (JDict payload))"

definition idem_key :: "idempotency_row \<Rightarrow> string \<times> string" where
  "idem_key r = (ir_actor r, ir_key r)"

definition replay_for ::
  "string \<Rightarrow> string \<Rightarrow> string \<Rightarrow> jobject \<Rightarrow> 'x admin_tables_scheme \<Rightarrow> api_error + jobject option" where
  "replay_for actor key operation payload db =
     (case row_of idem_key (actor, key) (ad_idempotency db) of
        None \<Rightarrow> Inr None
      | Some row \<Rightarrow>
          if ir_operation row \<noteq> operation \<or> ir_request_hash row \<noteq> request_hash payload then Inl IdempotencyConflictError
          else Inr (Some (ir_response row)))"

definition remember ::
  "(jobject \<Rightarrow> jobject) \<Rightarrow> string \<Rightarrow> string \<Rightarrow> string \<Rightarrow> jobject \<Rightarrow> jobject \<Rightarrow> 'x admin_tables_scheme \<Rightarrow> api_error + 'x admin_tables_scheme" where
  "remember jsonb actor key operation payload response db =
     (if has_key idem_key (actor, key) (ad_idempotency db) then Inl (DatabaseError IntegrityError)
      else Inr (db\<lparr>ad_idempotency := ad_idempotency db @
             [\<lparr>ir_actor = actor, ir_key = key, ir_operation = operation, ir_request_hash = request_hash payload,
               ir_response = jsonb response\<rparr>]\<rparr>))"

text \<open>What a call of a route brings: the caller, the clock and fresh identifiers.\<close>

record call =
  rq_principal :: principal
  rq_now :: timestamp
  rq_denial_id :: uuid
  rq_event_id :: uuid

text \<open>\<open>str()\<close> of an aware UTC instant, which \<open>json.dumps(..., default=str)\<close> writes.\<close>

definition datetime_str :: "timestamp \<Rightarrow> string" where
  "datetime_str t = map (\<lambda>c. if c = CHR ''T'' then CHR '' '' else c) (isoformat t)"

text \<open>
  The body of an idempotent route: a stored response is returned as it is (\<open>True\<close>), otherwise the
  command runs and its result is stored, all in one transaction.
\<close>

definition idempotent ::
  "(jobject \<Rightarrow> jobject) \<Rightarrow> call \<Rightarrow> string \<Rightarrow> string \<Rightarrow> jobject \<Rightarrow> ('x admin_tables_scheme \<Rightarrow> api_error + (jobject \<times> 'x admin_tables_scheme))
   \<Rightarrow> 'x admin_tables_scheme \<Rightarrow> api_error + ((bool \<times> jobject) \<times> 'x admin_tables_scheme)" where
  "idempotent jsonb c key operation payload command db =
     (let actor = pr_subject (rq_principal c) in
      case replay_for actor key operation payload db of
        Inl e \<Rightarrow> Inl e
      | Inr (Some replayed) \<Rightarrow> Inr ((True, replayed), db)
      | Inr None \<Rightarrow>
         (case command db of
            Inl e \<Rightarrow> Inl e
          | Inr (result, db1) \<Rightarrow>
             (case remember jsonb actor key operation payload result db1 of
                Inl e \<Rightarrow> Inl e | Inr db2 \<Rightarrow> Inr ((False, result), db2))))"

subsection \<open>Facts about the checks\<close>

lemma audit_denial_denies: "fst (audit_denial jsonb i now who a tt ti t d msg db) \<noteq> None"
  by (simp add: audit_denial_def split: sum.splits)

lemma audit_denial_frame:
  "snd (audit_denial jsonb i now who a tt ti t d msg db) = db\<lparr>ad_audit := ad_audit (snd (audit_denial jsonb i now who a tt ti t d msg db))\<rparr>"
  by (simp add: audit_denial_def split: sum.splits)

lemma require_admin_frame:
  "snd (require_tenant_admin jsonb i now who t a tt ti db) = db\<lparr>ad_audit := ad_audit (snd (require_tenant_admin jsonb i now who t a tt ti db))\<rparr>"
  using audit_denial_frame by (auto simp: require_tenant_admin_def Let_def)

lemma require_admin_pass:
  "fst (require_tenant_admin jsonb i now who t a tt ti db) = None \<Longrightarrow> snd (require_tenant_admin jsonb i now who t a tt ti db) = db"
  by (auto simp: require_tenant_admin_def Let_def audit_denial_denies split: if_splits)

lemma require_access_frame:
  "snd (require_tenant_access jsonb i now who t m a tt ti db) = db\<lparr>ad_audit := ad_audit (snd (require_tenant_access jsonb i now who t m a tt ti db))\<rparr>"
  using audit_denial_frame by (auto simp: require_tenant_access_def Let_def)

lemma require_access_pass:
  "fst (require_tenant_access jsonb i now who t m a tt ti db) = None \<Longrightarrow> snd (require_tenant_access jsonb i now who t m a tt ti db) = db"
  by (auto simp: require_tenant_access_def Let_def audit_denial_denies split: if_splits)

lemma audited_frame: "audited jsonb i now who a d tt ti t det db = Inr db' \<Longrightarrow> db' = db\<lparr>ad_audit := ad_audit db'\<rparr>"
  by (auto simp: audited_def split: sum.splits)

lemma replay_after_remember:
  assumes "remember jsonb actor key op payload response db = Inr db'"
  shows "replay_for actor key op payload db' = Inr (Some (jsonb response))"
proof -
  have "row_of idem_key (actor, key) (ad_idempotency db) = None"
    "db' = db\<lparr>ad_idempotency := ad_idempotency db @ [\<lparr>ir_actor = actor, ir_key = key, ir_operation = op,
        ir_request_hash = request_hash payload, ir_response = jsonb response\<rparr>]\<rparr>"
    using assms by (auto simp: remember_def row_of_None_iff split: if_splits)
  then show ?thesis by (simp add: replay_for_def table_simps idem_key_def)
qed

end
