(* ===== verification/Storage.thy ===== *)
theory Storage
  imports Governance "HOL-Library.AList" "HOL-Library.Product_Lexorder"
begin

text \<open>
  The runtime Storage Adapters and the routing of a tenant's Storage Profile
  (\<open>trpc_service/storage.py\<close>). A dictionary is an association list in insertion order
  (\<open>AList.update\<close> keeps the position of a key that is present, \<open>AList.delete\<close> removes it);
  bytes and strings are lists of bytes. The contract of \<open>StorageAdapter\<close> is the locale
  \<open>storage_adapter\<close>, the one of \<open>OnlineMigrationAdapter\<close> extends it; both are interpreted on the
  adapters of the file.
\<close>

datatype adapter_kind = SQL | REDIS | VECTOR | OBJECT | EXTERNAL_MEMORY

definition kind_value :: "adapter_kind \<Rightarrow> string" where
  "kind_value k = (case k of SQL \<Rightarrow> ''SQL'' | REDIS \<Rightarrow> ''REDIS'' | VECTOR \<Rightarrow> ''VECTOR'' | OBJECT \<Rightarrow> ''OBJECT''
     | EXTERNAL_MEMORY \<Rightarrow> ''EXTERNAL_MEMORY'')"

text \<open>\<open>ValidationError\<close> is a \<open>ValueError\<close> of a pydantic validator.\<close>

datatype storage_error = StorageProfileError string | ValidationError string

subsection \<open>Storage Profiles\<close>

record storage_backend =
  sb_kind :: adapter_kind
  sb_endpoint :: string
  sb_dedicated :: bool
  sb_secret_ref :: string

record storage_profile =
  sp_tenant_id :: string
  sp_alias :: string
  sp_classification :: data_classification
  sp_worker_pool :: string
  sp_encryption_key_ref :: string
  sp_backends :: "storage_backend list"

definition startswith :: "string \<Rightarrow> string \<Rightarrow> bool" where
  "startswith s p \<longleftrightarrow> take (length p) s = p"

definition secret_is_a_vault_reference :: "string \<Rightarrow> storage_error + string" where
  "secret_is_a_vault_reference value =
     (if \<not> startswith value ''vault://'' \<or> CHR ''#'' \<notin> set value
      then Inl (ValidationError ''STORAGE_SECRET_REF_INVALID'') else Inr value)"

text \<open>The pattern \<open>^[a-z0-9][a-z0-9-]{1,62}$\<close>.\<close>

definition lower_alnum :: "char \<Rightarrow> bool" where
  "lower_alnum c \<longleftrightarrow> (CHR ''a'' \<le> c \<and> c \<le> CHR ''z'') \<or> (CHR ''0'' \<le> c \<and> c \<le> CHR ''9'')"

definition alias_pattern :: "string \<Rightarrow> bool" where
  "alias_pattern s = (case s of [] \<Rightarrow> False
     | c # cs \<Rightarrow> lower_alnum c \<and> list_all (\<lambda>d. lower_alnum d \<or> d = CHR ''-'') cs \<and> 1 \<le> length cs \<and> length cs \<le> 62)"

definition required_kinds :: "adapter_kind list" where
  "required_kinds = [SQL, REDIS, VECTOR, OBJECT]"

definition has_each_backend_once :: "storage_profile \<Rightarrow> storage_error + storage_profile" where
  "has_each_backend_once p =
     (let kinds = remdups (map sb_kind (sp_backends p)) in
      if \<not> set required_kinds \<subseteq> set kinds \<or> length kinds \<noteq> length (sp_backends p)
      then Inl (ValidationError ''STORAGE_BACKENDS_INCOMPLETE'') else Inr p)"

definition make_storage_profile :: "storage_profile \<Rightarrow> storage_error + storage_profile" where
  "make_storage_profile p =
     (if length (sp_tenant_id p) < 1 \<or> 64 < length (sp_tenant_id p) then Inl (ValidationError ''tenant_id'')
      else if \<not> alias_pattern (sp_alias p) then Inl (ValidationError ''alias'')
      else if \<not> alias_pattern (sp_worker_pool p) then Inl (ValidationError ''worker_pool'')
      else if length (sp_encryption_key_ref p) < 1 \<or> 384 < length (sp_encryption_key_ref p)
        then Inl (ValidationError ''encryption_key_ref'')
      else has_each_backend_once p)"

text \<open>\<open>StorageRouter.__init__\<close>: a router is its profile, or the refusal to route it.\<close>

definition storage_router :: "storage_profile \<Rightarrow> storage_error + storage_profile" where
  "storage_router p =
     (let high_sensitivity = sp_classification p \<in> {CONFIDENTIAL, RESTRICTED} in
      if high_sensitivity \<and> (sp_worker_pool p = ''shared-workers'' \<or> \<not> list_all sb_dedicated (sp_backends p))
      then Inl (StorageProfileError ''DEDICATED_STORAGE_REQUIRED'') else Inr p)"

definition lower_char :: "char \<Rightarrow> char" where
  "lower_char c = (if CHR ''A'' \<le> c \<and> c \<le> CHR ''Z'' then char_of (of_char c + 32 :: nat) else c)"

definition router_namespace :: "storage_profile \<Rightarrow> adapter_kind \<Rightarrow> storage_error + string" where
  "router_namespace p kind =
     (if kind \<notin> set (map sb_kind (sp_backends p)) then Inl (StorageProfileError ''STORAGE_BACKEND_UNAVAILABLE'')
      else let suffix = (if kind = OBJECT then ''objects'' else map lower_char (kind_value kind))
           in Inr (sp_tenant_id p @ ''/'' @ suffix))"

subsection \<open>The namespaced adapter\<close>

type_synonym change = "string \<times> string option"

record memory_adapter =
  ma_objects :: "((string \<times> string) \<times> string) list"
  ma_watermark :: int
  ma_changes :: "(int \<times> string \<times> string \<times> string option) list"

definition new_memory_adapter :: memory_adapter where
  "new_memory_adapter = \<lparr>ma_objects = [], ma_watermark = 0, ma_changes = []\<rparr>"

definition mem_put :: "string \<Rightarrow> string \<Rightarrow> string \<Rightarrow> memory_adapter \<Rightarrow> memory_adapter" where
  "mem_put tenant_id key value s =
     (let w = ma_watermark s + 1 in
      s\<lparr>ma_objects := AList.update (tenant_id, key) value (ma_objects s), ma_watermark := w,
        ma_changes := ma_changes s @ [(w, tenant_id, key, Some value)]\<rparr>)"

definition mem_get :: "string \<Rightarrow> string \<Rightarrow> memory_adapter \<Rightarrow> string option" where
  "mem_get tenant_id key s = map_of (ma_objects s) (tenant_id, key)"

definition tenant_keys :: "string \<Rightarrow> ((string \<times> string) \<times> string) list \<Rightarrow> (string \<times> string) list" where
  "tenant_keys tenant_id d = filter (\<lambda>k. fst k = tenant_id) (map fst d)"

definition mem_erase_tenant :: "string \<Rightarrow> memory_adapter \<Rightarrow> nat \<times> memory_adapter" where
  "mem_erase_tenant tenant_id s =
     (let ks = tenant_keys tenant_id (ma_objects s); w = ma_watermark s + 1 in
      (length ks,
       s\<lparr>ma_objects := fold AList.delete ks (ma_objects s), ma_watermark := w,
         ma_changes := ma_changes s @ map (\<lambda>k. (w, tenant_id, snd k, None)) ks\<rparr>))"

definition mem_verify_tenant_erased :: "string \<Rightarrow> memory_adapter \<Rightarrow> bool" where
  "mem_verify_tenant_erased tenant_id s \<longleftrightarrow> \<not> list_ex (\<lambda>e. fst (fst e) = tenant_id) (ma_objects s)"

definition snapshot_tenant :: "string \<Rightarrow> memory_adapter \<Rightarrow> int \<times> (string \<times> string) list" where
  "snapshot_tenant tenant_id s =
     (ma_watermark s, map (\<lambda>e. (snd (fst e), snd e)) (filter (\<lambda>e. fst (fst e) = tenant_id) (ma_objects s)))"

definition changes_since :: "string \<Rightarrow> int \<Rightarrow> memory_adapter \<Rightarrow> int \<times> change list" where
  "changes_since tenant_id watermark s =
     (ma_watermark s,
      map (\<lambda>(seq, t, k, v). (k, v)) (filter (\<lambda>(seq, t, k, v). t = tenant_id \<and> watermark < seq) (ma_changes s)))"

definition apply_change :: "string \<Rightarrow> change \<Rightarrow> memory_adapter \<Rightarrow> memory_adapter" where
  "apply_change tenant_id c s =
     (case snd c of
        None \<Rightarrow> s\<lparr>ma_objects := AList.delete (tenant_id, fst c) (ma_objects s)\<rparr>
      | Some value \<Rightarrow> s\<lparr>ma_objects := AList.update (tenant_id, fst c) value (ma_objects s)\<rparr>)"

definition apply_changes :: "string \<Rightarrow> change list \<Rightarrow> memory_adapter \<Rightarrow> memory_adapter" where
  "apply_changes tenant_id cs s = fold (apply_change tenant_id) cs s"

text \<open>\<open>digest_input\<close> is everything the digest of \<open>tenant_fingerprint\<close> is updated with.\<close>

definition NUL :: char where "NUL = CHR 0x00"

definition digest_input :: "(string \<times> string) list \<Rightarrow> string" where
  "digest_input items = concat (map (\<lambda>(key, value). key @ [NUL] @ value @ [NUL]) items)"

definition tenant_fingerprint :: "string \<Rightarrow> memory_adapter \<Rightarrow> nat \<times> string \<times> int" where
  "tenant_fingerprint tenant_id s =
     (let snapshot = snd (snapshot_tenant tenant_id s) in
      (length snapshot, sha256_hex (digest_input (sort snapshot)), ma_watermark s))"

text \<open>The recall is a double: the nearest one to the quotient, as a numerator and a denominator.\<close>

definition vector_recall_against :: "memory_adapter \<Rightarrow> string \<Rightarrow> memory_adapter \<Rightarrow> int \<times> int" where
  "vector_recall_against source tenant_id s =
     (let source_objects = snd (snapshot_tenant tenant_id source);
          target_objects = snd (snapshot_tenant tenant_id s)
      in if source_objects = [] then (1, 1)
         else let matches = length (filter (\<lambda>e. map_of target_objects (fst e) = Some (snd e)) source_objects)
              in float_div (int matches) (int (length source_objects)))"

subsection \<open>The Redis cache\<close>

text \<open>
  The cache holds a reference to its authority; its operations act on the cache and on the
  authority's state.
\<close>

type_synonym redis_cache = "((string \<times> string) \<times> string) list"

definition redis_put :: "string \<Rightarrow> string \<Rightarrow> string \<Rightarrow> redis_cache \<times> memory_adapter \<Rightarrow> redis_cache \<times> memory_adapter" where
  "redis_put tenant_id key value s =
     (AList.update (tenant_id, key) value (fst s), mem_put tenant_id key value (snd s))"

definition redis_get ::
  "string \<Rightarrow> string \<Rightarrow> redis_cache \<times> memory_adapter \<Rightarrow> string option \<times> redis_cache \<times> memory_adapter" where
  "redis_get tenant_id key s =
     (case map_of (fst s) (tenant_id, key) of
        Some cached \<Rightarrow> (Some cached, s)
      | None \<Rightarrow>
         (case mem_get tenant_id key (snd s) of
            Some value \<Rightarrow> (Some value, AList.update (tenant_id, key) value (fst s), snd s)
          | None \<Rightarrow> (None, s)))"

definition redis_erase_tenant :: "string \<Rightarrow> redis_cache \<times> memory_adapter \<Rightarrow> nat \<times> redis_cache \<times> memory_adapter" where
  "redis_erase_tenant tenant_id s =
     (let cache_keys = tenant_keys tenant_id (fst s);
          (authority_count, authority) = mem_erase_tenant tenant_id (snd s)
      in (max (length cache_keys) authority_count, fold AList.delete cache_keys (fst s), authority))"

definition redis_clear_cache :: "redis_cache \<times> memory_adapter \<Rightarrow> redis_cache \<times> memory_adapter" where
  "redis_clear_cache s = ([], snd s)"

definition redis_verify_tenant_erased :: "string \<Rightarrow> redis_cache \<times> memory_adapter \<Rightarrow> bool" where
  "redis_verify_tenant_erased tenant_id s \<longleftrightarrow>
     \<not> list_ex (\<lambda>e. fst (fst e) = tenant_id) (fst s) \<and> mem_verify_tenant_erased tenant_id (snd s)"

subsection \<open>Adapter objects\<close>

text \<open>
  Adapters are objects that several holders may share (the authority of a cache is also an adapter
  of its own), so they live in a heap: \<open>h_adapters\<close> the namespaced adapters, \<open>h_caches\<close> the Redis
  caches, each with the address of its authority. Only a namespaced adapter is authoritative, so
  the constructor of a cache accepts no cache as its authority.
\<close>

datatype adapter_ref = Namespaced nat | RedisCache nat

record adapter_heap =
  h_adapters :: "nat \<Rightarrow> memory_adapter"
  h_caches :: "nat \<Rightarrow> nat \<times> redis_cache"

definition authoritative :: "adapter_ref \<Rightarrow> bool" where
  "authoritative r = (case r of Namespaced a \<Rightarrow> True | RedisCache c \<Rightarrow> False)"

definition new_redis_cache :: "nat \<Rightarrow> adapter_ref \<Rightarrow> adapter_heap \<Rightarrow> storage_error + adapter_heap" where
  "new_redis_cache c authority h =
     (case authority of
        RedisCache _ \<Rightarrow> Inl (StorageProfileError ''REDIS_AUTHORITY_REQUIRED'')
      | Namespaced a \<Rightarrow> Inr (h\<lparr>h_caches := (h_caches h)(c := (a, []))\<rparr>))"

definition adapter_erase_tenant :: "string \<Rightarrow> adapter_ref \<Rightarrow> adapter_heap \<Rightarrow> nat \<times> adapter_heap" where
  "adapter_erase_tenant tenant_id r h =
     (case r of
        Namespaced a \<Rightarrow>
          (case mem_erase_tenant tenant_id (h_adapters h a) of (n, s) \<Rightarrow> (n, h\<lparr>h_adapters := (h_adapters h)(a := s)\<rparr>))
      | RedisCache c \<Rightarrow>
          (case h_caches h c of (a, cache) \<Rightarrow>
             case redis_erase_tenant tenant_id (cache, h_adapters h a) of (n, cache', s) \<Rightarrow>
               (n, h\<lparr>h_adapters := (h_adapters h)(a := s), h_caches := (h_caches h)(c := (a, cache'))\<rparr>)))"

definition adapter_verify_tenant_erased :: "string \<Rightarrow> adapter_heap \<Rightarrow> adapter_ref \<Rightarrow> bool" where
  "adapter_verify_tenant_erased tenant_id h r =
     (case r of
        Namespaced a \<Rightarrow> mem_verify_tenant_erased tenant_id (h_adapters h a)
      | RedisCache c \<Rightarrow> (case h_caches h c of (a, cache) \<Rightarrow> redis_verify_tenant_erased tenant_id (cache, h_adapters h a)))"

subsection \<open>Tenant erasure\<close>

record deletion_receipt =
  dr_tenant_id :: string
  dr_deleted_by_backend :: "(adapter_kind \<times> nat) list"
  dr_verified :: bool

definition deletion_coordinator ::
  "(adapter_kind \<times> adapter_ref) list \<Rightarrow> storage_error + (adapter_kind \<times> adapter_ref) list" where
  "deletion_coordinator adapters =
     (if set required_kinds \<subseteq> set (map fst adapters) then Inr adapters
      else Inl (StorageProfileError ''STORAGE_DELETION_ADAPTERS_INCOMPLETE''))"

fun erase_each ::
  "string \<Rightarrow> (adapter_kind \<times> adapter_ref) list \<Rightarrow> adapter_heap \<Rightarrow> (adapter_kind \<times> nat) list \<times> adapter_heap" where
  "erase_each tenant_id [] h = ([], h)"
| "erase_each tenant_id ((kind, r) # rs) h =
     (case adapter_erase_tenant tenant_id r h of (n, h1) \<Rightarrow>
        case erase_each tenant_id rs h1 of (ns, h2) \<Rightarrow> ((kind, n) # ns, h2))"

text \<open>The error leaves the adapters as they are at that point: there is no transaction around them.\<close>

definition coordinator_erase_tenant ::
  "(adapter_kind \<times> adapter_ref) list \<Rightarrow> string \<Rightarrow> bool \<Rightarrow> adapter_heap \<Rightarrow> (storage_error + deletion_receipt) \<times> adapter_heap" where
  "coordinator_erase_tenant adapters tenant_id legal_hold h =
     (if legal_hold then (Inl (StorageProfileError ''STORAGE_DELETION_LEGAL_HOLD''), h)
      else case erase_each tenant_id adapters h of (deleted, h1) \<Rightarrow>
        if list_all (adapter_verify_tenant_erased tenant_id h1) (map snd adapters)
        then (Inr \<lparr>dr_tenant_id = tenant_id, dr_deleted_by_backend = deleted, dr_verified = True\<rparr>, h1)
        else (Inl (StorageProfileError ''STORAGE_DELETION_UNVERIFIED''), h1))"

subsection \<open>The contract of a storage adapter\<close>

text \<open>A sequence of calls, and the answers of its reads; on a plain map this is the specification.\<close>

datatype storage_op = Op_put string string string | Op_get string string | Op_erase string

fun run_ops ::
  "(string \<Rightarrow> string \<Rightarrow> string \<Rightarrow> 's \<Rightarrow> 's) \<Rightarrow> (string \<Rightarrow> string \<Rightarrow> 's \<Rightarrow> string option \<times> 's) \<Rightarrow>
   (string \<Rightarrow> 's \<Rightarrow> nat \<times> 's) \<Rightarrow> storage_op list \<Rightarrow> 's \<Rightarrow> string option list \<times> 's" where
  "run_ops put get erase [] s = ([], s)"
| "run_ops put get erase (Op_put t k v # ops) s = run_ops put get erase ops (put t k v s)"
| "run_ops put get erase (Op_get t k # ops) s =
     (case get t k s of (r, s1) \<Rightarrow> case run_ops put get erase ops s1 of (rs, s2) \<Rightarrow> (r # rs, s2))"
| "run_ops put get erase (Op_erase t # ops) s = run_ops put get erase ops (snd (erase t s))"

type_synonym content = "string \<times> string \<Rightarrow> string option"

fun spec_answers :: "storage_op list \<Rightarrow> content \<Rightarrow> string option list" where
  "spec_answers [] m = []"
| "spec_answers (Op_put t k v # ops) m = spec_answers ops (m((t, k) \<mapsto> v))"
| "spec_answers (Op_get t k # ops) m = m (t, k) # spec_answers ops m"
| "spec_answers (Op_erase t # ops) m = spec_answers ops (\<lambda>p. if fst p = t then None else m p)"

locale storage_adapter =
  fixes inv :: "'s \<Rightarrow> bool"
    and lookup :: "'s \<Rightarrow> content"
    and put :: "string \<Rightarrow> string \<Rightarrow> string \<Rightarrow> 's \<Rightarrow> 's"
    and get :: "string \<Rightarrow> string \<Rightarrow> 's \<Rightarrow> string option \<times> 's"
    and erase :: "string \<Rightarrow> 's \<Rightarrow> nat \<times> 's"
    and verify :: "string \<Rightarrow> 's \<Rightarrow> bool"
  assumes put_inv: "inv s \<Longrightarrow> inv (put t k v s)"
    and get_inv: "inv s \<Longrightarrow> inv (snd (get t k s))"
    and erase_inv: "inv s \<Longrightarrow> inv (snd (erase t s))"
    and lookup_put: "inv s \<Longrightarrow> lookup (put t k v s) = (lookup s)((t, k) \<mapsto> v)"
    and get_answer: "inv s \<Longrightarrow> fst (get t k s) = lookup s (t, k)"
    and lookup_get: "inv s \<Longrightarrow> lookup (snd (get t k s)) = lookup s"
    and lookup_erase: "inv s \<Longrightarrow> lookup (snd (erase t s)) = (\<lambda>p. if fst p = t then None else lookup s p)"
    and erase_count: "inv s \<Longrightarrow> fst (erase t s) = card {k. lookup s (t, k) \<noteq> None}"
    and verify_iff: "inv s \<Longrightarrow> verify t s \<longleftrightarrow> (\<forall>k. lookup s (t, k) = None)"
begin

lemma answers:
  "inv s \<Longrightarrow> fst (run_ops put get erase ops s) = spec_answers ops (lookup s)"
proof (induction ops arbitrary: s)
  case (Cons x ops)
  show ?case
  proof (cases x)
    case (Op_get t k)
    then show ?thesis using Cons.IH [OF get_inv [OF Cons.prems]] get_answer [OF Cons.prems] lookup_get [OF Cons.prems]
      by (simp add: split_beta)
  qed (use Cons in \<open>simp_all add: put_inv erase_inv lookup_put lookup_erase fun_upd_def\<close>)
qed simp

lemma run_inv: "inv s \<Longrightarrow> inv (snd (run_ops put get erase ops s))"
proof (induction ops arbitrary: s)
  case (Cons x ops)
  then show ?case by (cases x) (simp_all add: put_inv get_inv erase_inv split_beta)
qed simp

lemma erased_verified: "inv s \<Longrightarrow> verify t (snd (erase t s))"
  by (simp add: verify_iff erase_inv lookup_erase)

lemma erase_count_zero: "inv s \<Longrightarrow> verify t s \<Longrightarrow> fst (erase t s) = 0"
  by (simp add: erase_count verify_iff)

end

subsection \<open>The namespaced adapter meets the contract\<close>

definition unique_objects :: "((string \<times> string) \<times> string) list \<Rightarrow> bool" where
  "unique_objects d \<longleftrightarrow> distinct (map fst d)"

lemma unique_objects_update [simp]: "unique_objects d \<Longrightarrow> unique_objects (AList.update k v d)"
  by (simp add: unique_objects_def distinct_update)

lemma unique_objects_delete [simp]: "unique_objects d \<Longrightarrow> unique_objects (AList.delete k d)"
  by (simp add: unique_objects_def distinct_delete)

lemma map_of_fold_delete: "map_of (fold AList.delete ks d) p = (if p \<in> set ks then None else map_of d p)"
  by (induction ks arbitrary: d) (auto simp: delete_conv')

lemma unique_objects_fold_delete [simp]: "unique_objects d \<Longrightarrow> unique_objects (fold AList.delete ks d)"
  by (induction ks arbitrary: d) auto

lemma map_of_tenant_erased:
  "map_of (fold AList.delete (tenant_keys t d) d) = (\<lambda>p. if fst p = t then None else map_of d p)"
  by (rule ext) (auto simp: map_of_fold_delete tenant_keys_def map_of_eq_None_iff)

lemma no_tenant_objects_iff: "\<not> list_ex (\<lambda>e. fst (fst e) = t) d \<longleftrightarrow> (\<forall>k. map_of d (t, k) = None)"
  by (force simp: list_ex_iff map_of_eq_None_iff)

lemma distinct_map_filter_inj:
  "distinct (map f d) \<Longrightarrow> distinct (map f (filter P d))"
  by (induction d) auto

lemma length_tenant_keys:
  assumes "unique_objects d"
  shows "length (tenant_keys t d) = card {k. map_of d (t, k) \<noteq> None}"
proof -
  have s: "set (tenant_keys t d) = Pair t ` {k. map_of d (t, k) \<noteq> None}"
    by (force simp: tenant_keys_def map_of_eq_None_iff)
  have "distinct (tenant_keys t d)" using assms by (simp add: tenant_keys_def unique_objects_def)
  then have "length (tenant_keys t d) = card (set (tenant_keys t d))" by (simp add: distinct_card)
  then show ?thesis by (simp add: s card_image inj_on_def)
qed

definition mem_inv :: "memory_adapter \<Rightarrow> bool" where
  "mem_inv s \<longleftrightarrow> unique_objects (ma_objects s) \<and> (\<forall>c \<in> set (ma_changes s). fst c \<le> ma_watermark s)"

lemmas mem_ops = mem_put_def mem_get_def mem_erase_tenant_def mem_verify_tenant_erased_def Let_def

lemma mem_put_inv [simp]: "mem_inv s \<Longrightarrow> mem_inv (mem_put t k v s)"
  by (force simp: mem_inv_def mem_ops)

lemma mem_erase_inv [simp]: "mem_inv s \<Longrightarrow> mem_inv (snd (mem_erase_tenant t s))"
  by (force simp: mem_inv_def mem_ops)

interpretation nma: storage_adapter mem_inv "\<lambda>s. map_of (ma_objects s)" mem_put "\<lambda>t k s. (mem_get t k s, s)"
  mem_erase_tenant mem_verify_tenant_erased
  by unfold_locales
    (simp_all add: mem_ops update_conv' map_of_tenant_erased no_tenant_objects_iff length_tenant_keys mem_inv_def
      split: if_splits, force+)

subsection \<open>The cache meets the contract over its authority\<close>

text \<open>Coherence: everything cached is what the authority holds.\<close>

definition redis_inv :: "redis_cache \<times> memory_adapter \<Rightarrow> bool" where
  "redis_inv s \<longleftrightarrow> unique_objects (fst s) \<and> mem_inv (snd s) \<and> map_of (fst s) \<subseteq>\<^sub>m map_of (ma_objects (snd s))"

lemma map_le_update: "m \<subseteq>\<^sub>m m' \<Longrightarrow> m(p \<mapsto> v) \<subseteq>\<^sub>m m'(p \<mapsto> v)"
  by (auto simp: map_le_def)

lemma map_le_update_same: "m \<subseteq>\<^sub>m m' \<Longrightarrow> m' p = Some v \<Longrightarrow> m(p \<mapsto> v) \<subseteq>\<^sub>m m'"
  by (auto simp: map_le_def)

lemma map_le_erase:
  "m \<subseteq>\<^sub>m m' \<Longrightarrow> (\<lambda>p. if P p then None else m p) \<subseteq>\<^sub>m (\<lambda>p. if P p then None else m' p)"
  by (auto simp: map_le_def dom_def split: if_splits)

lemma redis_put_inv: "redis_inv s \<Longrightarrow> redis_inv (redis_put t k v s)"
  by (simp add: redis_inv_def redis_put_def update_conv' map_le_update) (simp add: mem_put_def Let_def update_conv' map_le_update)

lemma redis_get_cases:
  assumes "redis_inv s"
  shows "fst (redis_get t k s) = mem_get t k (snd s) \<and> snd (snd (redis_get t k s)) = snd s \<and> redis_inv (snd (redis_get t k s))"
proof (cases "map_of (fst s) (t, k)")
  case None
  then show ?thesis using assms
    by (cases "mem_get t k (snd s)")
      (auto simp: redis_get_def redis_inv_def update_conv' mem_get_def intro: map_le_update_same)
next
  case (Some v)
  then have "map_of (ma_objects (snd s)) (t, k) = Some v"
    using assms by (force simp: redis_inv_def map_le_def dom_def)
  then show ?thesis using Some assms by (simp add: redis_get_def mem_get_def)
qed

lemma redis_erase_eq:
  assumes "redis_inv s"
  shows "fst (redis_erase_tenant t s) = fst (mem_erase_tenant t (snd s))"
    "snd (snd (redis_erase_tenant t s)) = snd (mem_erase_tenant t (snd s))"
    "redis_inv (snd (redis_erase_tenant t s))"
proof -
  have sub: "{k. map_of (fst s) (t, k) \<noteq> None} \<subseteq> {k. map_of (ma_objects (snd s)) (t, k) \<noteq> None}"
    using assms by (force simp: redis_inv_def map_le_def dom_def)
  have "finite (Pair t ` {k. map_of (ma_objects (snd s)) (t, k) \<noteq> None})"
    by (rule finite_subset [OF _ finite_dom_map_of]) (auto simp: dom_def)
  then have fin: "finite {k. map_of (ma_objects (snd s)) (t, k) \<noteq> None}"
    by (rule finite_imageD) (simp add: inj_on_def)
  have "length (tenant_keys t (fst s)) \<le> fst (mem_erase_tenant t (snd s))"
    using card_mono [OF fin sub] assms by (simp add: redis_inv_def length_tenant_keys mem_erase_tenant_def Let_def mem_inv_def)
  then show "fst (redis_erase_tenant t s) = fst (mem_erase_tenant t (snd s))"
    by (simp add: redis_erase_tenant_def split_beta Let_def)
  show eq: "snd (snd (redis_erase_tenant t s)) = snd (mem_erase_tenant t (snd s))"
    by (simp add: redis_erase_tenant_def split_beta Let_def)
  have "map_of (fst (snd (redis_erase_tenant t s))) = (\<lambda>p. if fst p = t then None else map_of (fst s) p)"
    by (simp add: redis_erase_tenant_def split_beta Let_def map_of_tenant_erased)
  moreover have "unique_objects (fst (snd (redis_erase_tenant t s)))"
    using assms by (simp add: redis_erase_tenant_def split_beta Let_def redis_inv_def)
  ultimately show "redis_inv (snd (redis_erase_tenant t s))"
    using assms nma.lookup_erase [of "snd s" t]
    by (simp add: redis_inv_def eq map_le_erase)
qed

lemma redis_verify_eq: "redis_inv s \<Longrightarrow> redis_verify_tenant_erased t s = mem_verify_tenant_erased t (snd s)"
  by (force simp: redis_verify_tenant_erased_def mem_verify_tenant_erased_def no_tenant_objects_iff redis_inv_def
      map_le_def dom_def)

lemma redis_inv_snd: "redis_inv s \<Longrightarrow> mem_inv (snd s)"
  by (simp add: redis_inv_def)

interpretation rca: storage_adapter redis_inv "\<lambda>s. map_of (ma_objects (snd s))" redis_put redis_get
  redis_erase_tenant redis_verify_tenant_erased
proof unfold_locales
  show "map_of (ma_objects (snd (redis_put t k v s))) = (map_of (ma_objects (snd s)))((t, k) \<mapsto> v)"
    if "redis_inv s" for s t k v
    using nma.lookup_put [OF redis_inv_snd [OF that]] by (simp add: redis_put_def)
qed (simp_all add: redis_put_inv redis_get_cases redis_erase_eq redis_verify_eq nma.lookup_erase nma.erase_count
      nma.verify_iff redis_inv_snd mem_get_def)

subsection \<open>The contract of an adapter that can be migrated online\<close>

text \<open>What a list of changes does to the content of one tenant.\<close>

definition feed :: "change list \<Rightarrow> (string \<rightharpoonup> string) \<Rightarrow> (string \<rightharpoonup> string)" where
  "feed cs m = fold (\<lambda>c m. m(fst c := snd c)) cs m"

lemma feed_simps [simp]:
  "feed [] m = m" "feed (c # cs) m = feed cs (m(fst c := snd c))" "feed (cs @ ds) m = feed ds (feed cs m)"
  by (simp_all add: feed_def)

lemma feed_notin: "k \<notin> set (map fst cs) \<Longrightarrow> feed cs m k = m k"
  by (induction cs arbitrary: m) auto

lemma feed_items:
  assumes "distinct (map fst items)"
  shows "feed (map (\<lambda>(k, v). (k, Some v)) items) m = m ++ map_of items"
  using assms
proof (induction items arbitrary: m)
  case (Cons a items)
  obtain k v where a: "a = (k, v)" by (cases a)
  have "dom (map_of items) \<inter> {k} = {}" using Cons.prems by (auto simp: a dom_map_of_conv_image_fst)
  then show ?case using Cons by (auto simp: a map_add_def fun_eq_iff split: option.splits)
qed simp

lemma feed_None: "feed (map (\<lambda>x. (g x, None)) xs) m = (\<lambda>k. if k \<in> g ` set xs then None else m k)"
  by (induction xs arbitrary: m) auto

locale online_migration_adapter = storage_adapter +
  fixes snapshot :: "string \<Rightarrow> 's \<Rightarrow> int \<times> (string \<times> string) list"
    and changes :: "string \<Rightarrow> int \<Rightarrow> 's \<Rightarrow> int \<times> change list"
    and replay :: "string \<Rightarrow> change list \<Rightarrow> 's \<Rightarrow> 's"
  assumes snapshot_content: "inv s \<Longrightarrow> map_of (snd (snapshot t s)) = (\<lambda>k. lookup s (t, k))"
    and snapshot_distinct: "inv s \<Longrightarrow> distinct (map fst (snd (snapshot t s)))"
    and changes_complete:
      "inv s \<Longrightarrow> feed (snd (changes t (fst (snapshot t s)) (snd (run_ops put get erase ops s)))) (\<lambda>k. lookup s (t, k)) =
         (\<lambda>k. lookup (snd (run_ops put get erase ops s)) (t, k))"
    and changes_touched:
      "inv s \<Longrightarrow> lookup (snd (run_ops put get erase ops s)) (t, k) \<noteq> lookup s (t, k) \<Longrightarrow>
         k \<in> set (map fst (snd (changes t (fst (snapshot t s)) (snd (run_ops put get erase ops s)))))"
    and replay_content: "lookup (replay t cs s) = (\<lambda>p. if fst p = t then feed cs (\<lambda>k. lookup s (t, k)) (snd p) else lookup s p)"
begin

lemma backfilled:
  "inv s \<Longrightarrow> lookup (replay t (map (\<lambda>(k, v). (k, Some v)) (snd (snapshot t s))) d) (t, k) =
     (case lookup s (t, k) of Some v \<Rightarrow> Some v | None \<Rightarrow> lookup d (t, k))"
  by (simp add: replay_content feed_items snapshot_distinct snapshot_content map_add_def)

text \<open>
  A target that held nothing of the tenant beyond the source's keys ends with the source's content:
  the snapshot, then every change made while it was being copied.
\<close>

lemma caught_up:
  assumes s: "inv s"
    and fresh: "\<And>k. lookup s (t, k) = None \<Longrightarrow> lookup d (t, k) = None"
  shows "lookup (replay t (snd (changes t (fst (snapshot t s)) (snd (run_ops put get erase ops s))))
           (replay t (map (\<lambda>(k, v). (k, Some v)) (snd (snapshot t s))) d)) (t, k) =
         lookup (snd (run_ops put get erase ops s)) (t, k)"
proof -
  have "lookup (replay t (map (\<lambda>(k, v). (k, Some v)) (snd (snapshot t s))) d) (t, k) = lookup s (t, k)" for k
    using fresh [of k] by (simp add: backfilled [OF s] split: option.splits)
  then show ?thesis by (simp add: replay_content [of t _ "replay t _ d"] changes_complete [OF s])
qed

end

abbreviation mem_run :: "storage_op list \<Rightarrow> memory_adapter \<Rightarrow> string option list \<times> memory_adapter" where
  "mem_run \<equiv> run_ops mem_put (\<lambda>t k s. (mem_get t k s, s)) mem_erase_tenant"

definition tenant_changes :: "string \<Rightarrow> (int \<times> string \<times> string \<times> string option) list \<Rightarrow> change list" where
  "tenant_changes t cs = map (\<lambda>(seq, t, k, v). (k, v)) (filter (\<lambda>(seq, t', k, v). t' = t) cs)"

definition logged :: "string \<Rightarrow> memory_adapter \<Rightarrow> memory_adapter \<Rightarrow> bool" where
  "logged t s s' \<longleftrightarrow> (\<exists>new. ma_changes s' = ma_changes s @ new \<and> (\<forall>c \<in> set new. ma_watermark s < fst c) \<and>
     ma_watermark s \<le> ma_watermark s' \<and>
     feed (tenant_changes t new) (\<lambda>k. map_of (ma_objects s) (t, k)) = (\<lambda>k. map_of (ma_objects s') (t, k)))"

lemma tenant_changes_simps [simp]:
  "tenant_changes t [] = []"
  "tenant_changes t (c # cs) = (if fst (snd c) = t then [snd (snd c)] else []) @ tenant_changes t cs"
  "tenant_changes t (cs @ ds) = tenant_changes t cs @ tenant_changes t ds"
  by (auto simp: tenant_changes_def split_beta)

lemma logged_refl: "logged t s s"
  by (simp add: logged_def)

lemma logged_trans:
  assumes "logged t s s1" "logged t s1 s2" shows "logged t s s2"
proof -
  from assms(1) obtain n1 where 1: "ma_changes s1 = ma_changes s @ n1" "\<forall>c \<in> set n1. ma_watermark s < fst c"
    "ma_watermark s \<le> ma_watermark s1" "feed (tenant_changes t n1) (\<lambda>k. map_of (ma_objects s) (t, k)) = (\<lambda>k. map_of (ma_objects s1) (t, k))"
    by (auto simp: logged_def)
  from assms(2) obtain n2 where 2: "ma_changes s2 = ma_changes s1 @ n2" "\<forall>c \<in> set n2. ma_watermark s1 < fst c"
    "ma_watermark s1 \<le> ma_watermark s2" "feed (tenant_changes t n2) (\<lambda>k. map_of (ma_objects s1) (t, k)) = (\<lambda>k. map_of (ma_objects s2) (t, k))"
    by (auto simp: logged_def)
  show ?thesis unfolding logged_def using 1 2 by (intro exI [of _ "n1 @ n2"]) auto
qed

lemma logged_put: "logged t s (mem_put t' k v s)"
  unfolding logged_def by (intro exI [of _ "[(ma_watermark s + 1, t', k, Some v)]"]) (auto simp: mem_put_def Let_def update_conv' fun_eq_iff)

lemma logged_erase: "logged t s (snd (mem_erase_tenant t' s))"
proof -
  let ?ks = "tenant_keys t' (ma_objects s)" and ?w = "ma_watermark s + 1"
  have f: "tenant_changes t (map (\<lambda>k. (?w, t', snd k, None)) ks) = (if t' = t then map (\<lambda>k. (snd k, None)) ks else [])"
    for ks :: "(string \<times> string) list" by (induction ks) auto
  have "k \<in> snd ` set ?ks \<longleftrightarrow> map_of (ma_objects s) (t', k) \<noteq> None" for k
    by (force simp: tenant_keys_def map_of_eq_None_iff)
  then show ?thesis
    unfolding logged_def by (intro exI [of _ "map (\<lambda>k. (?w, t', snd k, None)) ?ks"])
      (auto simp: mem_erase_tenant_def Let_def f feed_None map_of_tenant_erased fun_eq_iff)
qed

lemma logged_run: "logged t s (snd (mem_run ops s))"
proof (induction ops arbitrary: s)
  case (Cons x ops)
  then show ?case
    by (cases x) (auto simp: split_beta intro: logged_trans logged_put logged_erase)
qed (simp add: logged_refl)

lemma changes_since_snapshot:
  assumes "mem_inv s" "ma_changes s' = ma_changes s @ new" "\<forall>c \<in> set new. ma_watermark s < fst c"
  shows "snd (changes_since t (ma_watermark s) s') = tenant_changes t new"
proof -
  have "filter (\<lambda>(seq, t', k, v). t' = t \<and> ma_watermark s < seq) (ma_changes s) = []"
    using assms(1) by (force simp: mem_inv_def filter_empty_conv)
  moreover have "filter (\<lambda>(seq, t', k, v). t' = t \<and> ma_watermark s < seq) new = filter (\<lambda>(seq, t', k, v). t' = t) new"
    using assms(3) by (intro filter_cong) auto
  ultimately show ?thesis by (simp add: changes_since_def assms(2) tenant_changes_def)
qed

lemma map_of_snapshot: "map_of (snd (snapshot_tenant t s)) = (\<lambda>k. map_of (ma_objects s) (t, k))"
proof -
  have "map_of (map (\<lambda>e. (snd (fst e), snd e)) (filter (\<lambda>e. fst (fst e) = t) d)) k = map_of d (t, k)"
    for d :: "((string \<times> string) \<times> string) list" and k
    by (induction d) auto
  then show ?thesis by (auto simp: snapshot_tenant_def)
qed

lemma distinct_snapshot: "unique_objects (ma_objects s) \<Longrightarrow> distinct (map fst (snd (snapshot_tenant t s)))"
proof -
  have "distinct (map fst d) \<Longrightarrow> distinct (map fst (map (\<lambda>e. (snd (fst e), snd e)) (filter (\<lambda>e. fst (fst e) = t) d)))"
    for d :: "((string \<times> string) \<times> string) list"
    by (induction d) (auto simp: rev_image_eqI image_iff)
  then show "unique_objects (ma_objects s) \<Longrightarrow> distinct (map fst (snd (snapshot_tenant t s)))"
    by (simp add: snapshot_tenant_def unique_objects_def)
qed

lemma map_of_apply_changes:
  "map_of (ma_objects (apply_changes t cs s)) =
     (\<lambda>p. if fst p = t then feed cs (\<lambda>k. map_of (ma_objects s) (t, k)) (snd p) else map_of (ma_objects s) p)"
proof (induction cs arbitrary: s)
  case (Cons c cs)
  have other: "map_of (ma_objects (apply_change t c s)) p = map_of (ma_objects s) p" if "fst p \<noteq> t" for p
    using that by (auto simp: apply_change_def update_conv' delete_conv' split: option.splits)
  have same: "(\<lambda>k. map_of (ma_objects (apply_change t c s)) (t, k)) = (\<lambda>k. map_of (ma_objects s) (t, k))(fst c := snd c)"
    by (auto simp: apply_change_def update_conv' delete_conv' fun_eq_iff split: option.splits)
  have "apply_changes t (c # cs) s = apply_changes t cs (apply_change t c s)" by (simp add: apply_changes_def)
  then show ?case by (auto simp: Cons [of "apply_change t c s"] same other)
qed (auto simp: apply_changes_def)

lemma mem_changes_complete:
  assumes "mem_inv s"
  shows "feed (snd (changes_since t (fst (snapshot_tenant t s)) (snd (mem_run ops s)))) (\<lambda>k. map_of (ma_objects s) (t, k)) =
    (\<lambda>k. map_of (ma_objects (snd (mem_run ops s))) (t, k))"
proof -
  obtain new where n: "ma_changes (snd (mem_run ops s)) = ma_changes s @ new" "\<forall>c \<in> set new. ma_watermark s < fst c"
    "feed (tenant_changes t new) (\<lambda>k. map_of (ma_objects s) (t, k)) = (\<lambda>k. map_of (ma_objects (snd (mem_run ops s))) (t, k))"
    using logged_run [of t s ops] by (auto simp: logged_def)
  then show ?thesis using changes_since_snapshot [OF assms n(1,2)] by (simp add: snapshot_tenant_def)
qed

interpretation nmo: online_migration_adapter mem_inv "\<lambda>s. map_of (ma_objects s)" mem_put "\<lambda>t k s. (mem_get t k s, s)"
  mem_erase_tenant mem_verify_tenant_erased snapshot_tenant changes_since apply_changes
proof unfold_locales
  show "k \<in> set (map fst (snd (changes_since t (fst (snapshot_tenant t s)) (snd (mem_run ops s)))))"
    if "mem_inv s" "map_of (ma_objects (snd (mem_run ops s))) (t, k) \<noteq> map_of (ma_objects s) (t, k)" for s ops t k
    using mem_changes_complete [OF that(1), of t ops] that(2) feed_notin by (metis (no_types, lifting))
qed (simp_all add: map_of_snapshot distinct_snapshot mem_inv_def mem_changes_complete map_of_apply_changes)

lemma mem_inv_new [simp]: "mem_inv new_memory_adapter"
  by (simp add: mem_inv_def unique_objects_def new_memory_adapter_def)

lemma mem_inv_apply_changes: "mem_inv s \<Longrightarrow> mem_inv (apply_changes t cs s)"
proof (induction cs arbitrary: s)
  case (Cons c cs)
  have "mem_inv (apply_change t c s)"
    using Cons.prems by (auto simp: apply_change_def mem_inv_def split: option.splits)
  then show ?case using Cons.IH by (simp add: apply_changes_def)
qed (simp add: apply_changes_def)

abbreviation redis_run ::
  "storage_op list \<Rightarrow> redis_cache \<times> memory_adapter \<Rightarrow> string option list \<times> redis_cache \<times> memory_adapter" where
  "redis_run \<equiv> run_ops redis_put redis_get redis_erase_tenant"

lemma redis_inv_clear: "redis_inv s \<Longrightarrow> redis_inv (redis_clear_cache s)"
  by (simp add: redis_inv_def redis_clear_cache_def unique_objects_def)

lemma run_ops_append:
  "run_ops put get erase (ops1 @ ops2) s =
     (case run_ops put get erase ops1 s of (as, s1) \<Rightarrow> case run_ops put get erase ops2 s1 of (bs, s2) \<Rightarrow> (as @ bs, s2))"
proof (induction ops1 arbitrary: s)
  case (Cons x ops1)
  then show ?case by (cases x) (simp_all add: split_beta)
qed simp

lemma redis_run_lookup:
  assumes "redis_inv s"
  shows "map_of (ma_objects (snd (snd (redis_run ops s)))) = map_of (ma_objects (snd (mem_run ops (snd s))))"
  using assms
proof (induction ops arbitrary: s)
  case (Cons x ops)
  show ?case
  proof (cases x)
    case (Op_put t k v)
    then show ?thesis using Cons.IH [OF redis_put_inv [OF Cons.prems]] by (simp add: redis_put_def)
  next
    case (Op_get t k)
    then show ?thesis using Cons.IH [of "snd (redis_get t k s)"] redis_get_cases [OF Cons.prems] by (simp add: split_beta)
  next
    case (Op_erase t)
    then show ?thesis using Cons.IH [OF redis_erase_eq(3) [OF Cons.prems]] redis_erase_eq(2) [OF Cons.prems] by simp
  qed
qed simp

text \<open>
  Reading through the Redis cache is indistinguishable from reading the authority. From a new cache
  over a new authority, whatever sequence of puts, gets and tenant erasures runs and wherever the
  cache is cleared between two of them, every read answers what the same calls on an uncached
  adapter answer.
\<close>

theorem cache_transparent:
  "(let (as, s) = redis_run ops1 ([], new_memory_adapter); (bs, _) = redis_run ops2 (redis_clear_cache s) in as @ bs) =
   fst (mem_run (ops1 @ ops2) new_memory_adapter)"
proof -
  let ?s0 = "([] :: redis_cache, new_memory_adapter)"
  have i0: "redis_inv ?s0" by (simp add: redis_inv_def unique_objects_def)
  let ?s1 = "snd (redis_run ops1 ?s0)"
  have i1: "redis_inv (redis_clear_cache ?s1)" by (intro redis_inv_clear rca.run_inv i0)
  have m1: "mem_inv (snd (mem_run ops1 new_memory_adapter))" by (rule nma.run_inv) simp
  have "fst (redis_run ops1 ?s0) = fst (mem_run ops1 new_memory_adapter)"
    using rca.answers [OF i0] nma.answers [OF mem_inv_new] by simp
  moreover have "fst (redis_run ops2 (redis_clear_cache ?s1)) = fst (mem_run ops2 (snd (mem_run ops1 new_memory_adapter)))"
    using rca.answers [OF i1] nma.answers [OF m1] redis_run_lookup [OF i0] by (simp add: redis_clear_cache_def)
  ultimately show ?thesis by (simp add: split_beta run_ops_append)
qed

subsection \<open>Erasing a tenant from every backend\<close>

definition erased_in :: "string \<Rightarrow> adapter_heap \<Rightarrow> adapter_ref \<Rightarrow> bool" where
  "erased_in t h r = (case r of
     Namespaced a \<Rightarrow> (\<forall>k. map_of (ma_objects (h_adapters h a)) (t, k) = None)
   | RedisCache c \<Rightarrow> (\<forall>k. map_of (snd (h_caches h c)) (t, k) = None \<and> map_of (ma_objects (h_adapters h (fst (h_caches h c)))) (t, k) = None))"

lemma verify_erased_in: "adapter_verify_tenant_erased t h r \<longleftrightarrow> erased_in t h r"
  by (auto simp: adapter_verify_tenant_erased_def erased_in_def mem_verify_tenant_erased_def redis_verify_tenant_erased_def
      no_tenant_objects_iff split: adapter_ref.splits prod.splits)

text \<open>One erasure removes the tenant's objects, touches no other tenant and keeps the authorities.\<close>

definition only_erases :: "string \<Rightarrow> adapter_heap \<Rightarrow> adapter_heap \<Rightarrow> bool" where
  "only_erases t h h' \<longleftrightarrow>
     (\<forall>a p. map_of (ma_objects (h_adapters h' a)) p = map_of (ma_objects (h_adapters h a)) p \<or>
        fst p = t \<and> map_of (ma_objects (h_adapters h' a)) p = None) \<and>
     (\<forall>c p. fst (h_caches h' c) = fst (h_caches h c) \<and>
        (map_of (snd (h_caches h' c)) p = map_of (snd (h_caches h c)) p \<or>
         fst p = t \<and> map_of (snd (h_caches h' c)) p = None))"

lemma mem_erase_lookup:
  "map_of (ma_objects (snd (mem_erase_tenant t s))) p = (if fst p = t then None else map_of (ma_objects s) p)"
  by (simp add: mem_erase_tenant_def Let_def map_of_tenant_erased)

lemma redis_erase_lookup:
  "map_of (fst (snd (redis_erase_tenant t s))) p = (if fst p = t then None else map_of (fst s) p)"
  "snd (snd (redis_erase_tenant t s)) = snd (mem_erase_tenant t (snd s))"
  by (simp_all add: redis_erase_tenant_def Let_def map_of_tenant_erased split_beta)

lemma adapter_erase_effect:
  "erased_in t (snd (adapter_erase_tenant t r h)) r" "only_erases t h (snd (adapter_erase_tenant t r h))"
  by (auto simp: adapter_erase_tenant_def erased_in_def only_erases_def mem_erase_lookup redis_erase_lookup split_beta
      split: adapter_ref.splits)

lemma only_erases_refl: "only_erases t h h"
  by (simp add: only_erases_def)

lemma only_erases_trans: "only_erases t h h1 \<Longrightarrow> only_erases t h1 h2 \<Longrightarrow> only_erases t h h2"
  unfolding only_erases_def by metis

lemma only_erases_keeps: "erased_in t h r \<Longrightarrow> only_erases t h h' \<Longrightarrow> erased_in t h' r"
  by (cases r) (simp_all add: erased_in_def only_erases_def, metis+)

lemma erase_each_effect:
  "only_erases t h (snd (erase_each t rs h)) \<and> (\<forall>r \<in> set (map snd rs). erased_in t (snd (erase_each t rs h)) r) \<and>
   map fst (fst (erase_each t rs h)) = map fst rs"
proof (induction rs arbitrary: h)
  case (Cons a rs)
  obtain kind r where a: "a = (kind, r)" by (cases a)
  let ?h1 = "snd (adapter_erase_tenant t r h)"
  have "erased_in t (snd (erase_each t rs ?h1)) r"
    using only_erases_keeps [OF adapter_erase_effect(1)] Cons.IH [of ?h1] by blast
  then show ?case using Cons.IH [of ?h1] only_erases_trans [OF adapter_erase_effect(2)]
    by (auto simp: a split_beta)
qed (simp add: only_erases_refl)

lemma no_hold_erases:
  "\<exists>deleted h'. coordinator_erase_tenant adapters t False h =
       (Inr \<lparr>dr_tenant_id = t, dr_deleted_by_backend = deleted, dr_verified = True\<rparr>, h') \<and>
     map fst deleted = map fst adapters \<and> (\<forall>r \<in> set (map snd adapters). erased_in t h' r) \<and> only_erases t h h'"
proof -
  have "list_all (adapter_verify_tenant_erased t (snd (erase_each t adapters h))) (map snd adapters)"
    using erase_each_effect [of t h adapters] by (simp add: list_all_iff verify_erased_in)
  then show ?thesis using erase_each_effect [of t h adapters]
    by (auto simp: coordinator_erase_tenant_def split_beta)
qed

text \<open>
  C33: Erasing a tenant succeeds on every set of adapters, however the caches and the adapters share
  state: with no legal hold the coordinator returns a verified receipt with an entry for each
  configured backend, no configured adapter or cache (nor a cache's authority) holds a key of the
  tenant, and no object of another tenant is touched anywhere; under a legal hold it refuses and
  changes nothing.
\<close>

theorem tenant_erasure_complete:
  "case coordinator_erase_tenant adapters t legal_hold h of
     (Inl e, h') \<Rightarrow> legal_hold \<and> e = StorageProfileError ''STORAGE_DELETION_LEGAL_HOLD'' \<and> h' = h
   | (Inr receipt, h') \<Rightarrow> dr_verified receipt \<and> map fst (dr_deleted_by_backend receipt) = map fst adapters \<and>
       list_all (erased_in t h') (map snd adapters) \<and> only_erases t h h' \<and> \<not> legal_hold"
proof (cases legal_hold)
  case False
  then show ?thesis using no_hold_erases [of adapters t h] by (auto simp: list_all_iff)
qed (simp add: coordinator_erase_tenant_def)

subsection \<open>What a fingerprint proves\<close>

definition nul_free :: "(string \<times> string) list \<Rightarrow> bool" where
  "nul_free items \<longleftrightarrow> (\<forall>(k, v) \<in> set items. NUL \<notin> set k \<and> NUL \<notin> set v)"

lemma separator_inject: "x \<notin> set k \<Longrightarrow> x \<notin> set l \<Longrightarrow> k @ x # a = l @ x # b \<Longrightarrow> k = l \<and> a = b"
proof (induction k arbitrary: l)
  case Nil
  then show ?case by (cases l) auto
next
  case (Cons c k)
  then show ?case by (cases l) auto
qed

lemma digest_input_inject:
  "nul_free xs \<Longrightarrow> nul_free ys \<Longrightarrow> digest_input xs = digest_input ys \<Longrightarrow> xs = ys"
proof (induction xs arbitrary: ys)
  case Nil
  then show ?case by (cases ys) (auto simp: digest_input_def)
next
  case (Cons x xs)
  then obtain y zs where ys: "ys = y # zs" by (cases ys) (auto simp: digest_input_def split: prod.splits)
  obtain k v l w where p: "x = (k, v)" "y = (l, w)" by (cases x, cases y)
  have "k @ NUL # (v @ NUL # digest_input xs) = l @ NUL # (w @ NUL # digest_input zs)"
    using Cons.prems(3) by (simp add: ys p digest_input_def)
  then have "k = l \<and> v @ NUL # digest_input xs = w @ NUL # digest_input zs"
    using Cons.prems(1,2) separator_inject [of NUL k l] by (simp add: nul_free_def ys p)
  then have "k = l \<and> v = w \<and> digest_input xs = digest_input zs"
    using Cons.prems(1,2) separator_inject [of NUL v w "digest_input xs" "digest_input zs"] by (simp add: nul_free_def ys p)
  then show ?case using Cons by (simp add: nul_free_def ys p)
qed

lemma nul_free_sort [simp]: "nul_free (sort xs) = nul_free xs"
  by (simp add: nul_free_def)

text \<open>Content of a tenant is what a lookup sees, so equal sorted snapshots mean equal content.\<close>

lemma fingerprint_content:
  assumes "unique_objects (ma_objects s)" "unique_objects (ma_objects d)"
    and "sort (snd (snapshot_tenant t s)) = sort (snd (snapshot_tenant t d))"
  shows "map_of (ma_objects s) (t, k) = map_of (ma_objects d) (t, k)"
proof -
  have "set (snd (snapshot_tenant t s)) = set (snd (snapshot_tenant t d))"
    using assms(3) by (metis set_sort)
  then have "map_of (snd (snapshot_tenant t s)) = map_of (snd (snapshot_tenant t d))"
    using distinct_snapshot [OF assms(1)] distinct_snapshot [OF assms(2)] by (intro map_of_eqI) (auto simp: map_of_inject_set)
  then show ?thesis by (simp add: map_of_snapshot fun_eq_iff)
qed

lemma content_fingerprint:
  assumes "unique_objects (ma_objects s)" "unique_objects (ma_objects d)"
    and "\<And>k. map_of (ma_objects s) (t, k) = map_of (ma_objects d) (t, k)"
  shows "sort (snd (snapshot_tenant t s)) = sort (snd (snapshot_tenant t d))"
proof -
  have "map_of (snd (snapshot_tenant t s)) = map_of (snd (snapshot_tenant t d))"
    using assms(3) by (simp add: map_of_snapshot)
  then have "set (snd (snapshot_tenant t s)) = set (snd (snapshot_tenant t d))"
    using map_of_inject_set [OF distinct_snapshot [OF assms(1)] distinct_snapshot [OF assms(2)]] by simp
  moreover have "distinct (snd (snapshot_tenant t s))" "distinct (snd (snapshot_tenant t d))"
    using distinct_snapshot assms(1,2) distinct_map by blast+
  ultimately show ?thesis by (metis sorted_list_of_set_sort_remdups distinct_remdups_id)
qed

end
