(* ===== verification/Storage_Migration.thy ===== *)
theory Storage_Migration
  imports Storage
begin

text \<open>
  Online migration of a Storage Profile, the part that needs no database: the state machine, the
  validation evidence and the executor of \<open>trpc_service/storage_migration.py\<close>. The adapter factory is
  a parameter (the repository declares only its protocol): for a tenant and a pair of profiles it
  gives the addresses of the adapter pairs. The adapters themselves are the namespaced adapters of
  \<open>Storage\<close>, in a heap, because a migration and the business requests share them.
\<close>

datatype migration_state =
    PREPARED | BACKFILLING | CATCHING_UP | VALIDATING | READY_TO_SWITCH | OBSERVING | ROLLING_BACK
  | ROLLBACK_CATCHING_UP | ROLLBACK_VALIDATING | COMPLETED | ROLLED_BACK | FAILED

datatype migration_operation =
    START_BACKFILL | BACKFILL_COMPLETE | CATCH_UP_COMPLETE | VALIDATE | SWITCH | COMPLETE | START_ROLLBACK
  | ROLLBACK_BACKFILL_COMPLETE | ROLLBACK_CATCH_UP_COMPLETE | ROLLBACK_VALIDATE | FAIL

text \<open>A \<open>KeyError\<close> is not a \<open>StorageMigrationError\<close>: the worker does not catch it.\<close>

datatype migration_error = StorageMigrationError string | KeyError string

text \<open>A double is a numerator and a positive denominator.\<close>

type_synonym double = "int \<times> int"

definition float_le :: "double \<Rightarrow> double \<Rightarrow> bool" where
  "float_le x y \<longleftrightarrow> fst x * snd y \<le> fst y * snd x"

record validation_evidence =
  ve_source_count :: nat
  ve_target_count :: nat
  ve_source_digest :: string
  ve_target_digest :: string
  ve_source_version :: int
  ve_target_version :: int
  ve_vector_recall :: double

definition minimum_vector_recall :: double where
  "minimum_vector_recall = float_div 95 100"

definition is_valid :: "validation_evidence \<Rightarrow> bool" where
  "is_valid e \<longleftrightarrow> ve_source_count e = ve_target_count e \<and> ve_source_digest e = ve_target_digest e \<and>
     ve_source_version e = ve_target_version e \<and> float_le minimum_vector_recall (ve_vector_recall e)"

subsection \<open>The state machine\<close>

definition TRANSITIONS :: "((migration_state \<times> migration_operation) \<times> migration_state) list" where
  "TRANSITIONS =
    [((PREPARED, START_BACKFILL), BACKFILLING),
     ((BACKFILLING, BACKFILL_COMPLETE), CATCHING_UP),
     ((CATCHING_UP, CATCH_UP_COMPLETE), VALIDATING),
     ((VALIDATING, VALIDATE), READY_TO_SWITCH),
     ((READY_TO_SWITCH, SWITCH), OBSERVING),
     ((OBSERVING, COMPLETE), COMPLETED),
     ((OBSERVING, START_ROLLBACK), ROLLING_BACK),
     ((ROLLING_BACK, ROLLBACK_BACKFILL_COMPLETE), ROLLBACK_CATCHING_UP),
     ((ROLLBACK_CATCHING_UP, ROLLBACK_CATCH_UP_COMPLETE), ROLLBACK_VALIDATING),
     ((ROLLBACK_VALIDATING, ROLLBACK_VALIDATE), ROLLED_BACK)]"

record migration_machine =
  mm_source :: uuid
  mm_target :: uuid
  mm_state :: migration_state

definition new_machine :: "uuid \<Rightarrow> uuid \<Rightarrow> migration_state \<Rightarrow> migration_error + migration_machine" where
  "new_machine source target state =
     (if source = target then Inl (StorageMigrationError ''STORAGE_MIGRATION_IDENTICAL_PROFILES'')
      else Inr \<lparr>mm_source = source, mm_target = target, mm_state = state\<rparr>)"

definition business_write_profile_id :: "migration_machine \<Rightarrow> uuid option" where
  "business_write_profile_id m =
     (if mm_state m \<in> {ROLLING_BACK, ROLLBACK_CATCHING_UP, ROLLBACK_VALIDATING} then None
      else if mm_state m \<in> {OBSERVING, COMPLETED} then Some (mm_target m)
      else Some (mm_source m))"

definition source_is_authoritative :: "migration_machine \<Rightarrow> bool" where
  "source_is_authoritative m \<longleftrightarrow> business_write_profile_id m = Some (mm_source m)"

definition advance ::
  "migration_operation \<Rightarrow> validation_evidence option \<Rightarrow> migration_machine \<Rightarrow> migration_error + migration_machine" where
  "advance operation validation m =
     (if operation = FAIL \<and> mm_state m \<in> {PREPARED, BACKFILLING, CATCHING_UP, VALIDATING, READY_TO_SWITCH}
      then Inr (m\<lparr>mm_state := FAILED\<rparr>)
      else case map_of TRANSITIONS (mm_state m, operation) of
             None \<Rightarrow> Inl (StorageMigrationError ''STORAGE_MIGRATION_INVALID_TRANSITION'')
           | Some next_state \<Rightarrow>
               if operation = VALIDATE \<and> (case validation of None \<Rightarrow> True | Some e \<Rightarrow> \<not> is_valid e)
               then Inl (StorageMigrationError ''STORAGE_MIGRATION_VALIDATION_FAILED'')
               else Inr (m\<lparr>mm_state := next_state\<rparr>))"

subsection \<open>The executor\<close>

type_synonym adapters = "nat \<Rightarrow> memory_adapter"
type_synonym watermarks = "(string \<times> int) list"
type_synonym adapter_factory = "string \<Rightarrow> uuid \<Rightarrow> uuid \<Rightarrow> (nat \<times> nat) list"

definition as_changes :: "(string \<times> string) list \<Rightarrow> change list" where
  "as_changes items = map (\<lambda>(k, v). (k, Some v)) items"

fun backfill_pairs :: "string \<Rightarrow> nat \<Rightarrow> (nat \<times> nat) list \<Rightarrow> watermarks \<Rightarrow> adapters \<Rightarrow> watermarks \<times> adapters" where
  "backfill_pairs t index [] marks h = (marks, h)"
| "backfill_pairs t index ((source, target) # pairs) marks h =
     (case snapshot_tenant t (h source) of (watermark, snapshot) \<Rightarrow>
        backfill_pairs t (Suc index) pairs (AList.update (str_of_nat index) watermark marks)
          (h(target := apply_changes t (as_changes snapshot) (h target))))"

definition executor_backfill ::
  "adapter_factory \<Rightarrow> string \<Rightarrow> uuid \<Rightarrow> uuid \<Rightarrow> adapters \<Rightarrow> (migration_error + watermarks) \<times> adapters" where
  "executor_backfill factory t source_id target_id h =
     (let pairs = factory t source_id target_id in
      if pairs = [] then (Inl (StorageMigrationError ''STORAGE_MIGRATION_ADAPTERS_UNAVAILABLE''), h)
      else case backfill_pairs t 0 pairs [] h of (marks, h') \<Rightarrow> (Inr marks, h'))"

fun catch_up_pairs ::
  "string \<Rightarrow> nat \<Rightarrow> watermarks \<Rightarrow> (nat \<times> nat) list \<Rightarrow> watermarks \<Rightarrow> adapters \<Rightarrow> (migration_error + watermarks) \<times> adapters" where
  "catch_up_pairs t index marks [] updated h = (Inr updated, h)"
| "catch_up_pairs t index marks ((source, target) # pairs) updated h =
     (case map_of marks (str_of_nat index) of
        None \<Rightarrow> (Inl (KeyError (str_of_nat index)), h)
      | Some mark \<Rightarrow>
         (case changes_since t mark (h source) of (watermark, changes) \<Rightarrow>
            catch_up_pairs t (Suc index) marks pairs (AList.update (str_of_nat index) watermark updated)
              (h(target := apply_changes t changes (h target)))))"

definition executor_catch_up ::
  "adapter_factory \<Rightarrow> string \<Rightarrow> uuid \<Rightarrow> uuid \<Rightarrow> watermarks \<Rightarrow> adapters \<Rightarrow> (migration_error + watermarks) \<times> adapters" where
  "executor_catch_up factory t source_id target_id marks h =
     (let pairs = factory t source_id target_id in
      if length pairs \<noteq> length marks then (Inl (StorageMigrationError ''STORAGE_MIGRATION_CHECKPOINT_INVALID''), h)
      else catch_up_pairs t 0 marks pairs [] h)"

definition folded :: "string list \<Rightarrow> string" where
  "folded values = sha256_hex (concat values)"

definition target_version :: "string \<Rightarrow> adapters \<Rightarrow> nat \<times> nat \<Rightarrow> int" where
  "target_version t h p =
     (case tenant_fingerprint t (h (fst p)) of (source_count, source_digest, source_version) \<Rightarrow>
      case tenant_fingerprint t (h (snd p)) of (target_count, target_digest, target_version) \<Rightarrow>
        if source_count = target_count \<and> source_digest = target_digest then source_version else target_version)"

text \<open>\<open>max\<close> and \<open>min\<close> of a non-empty list.\<close>

fun max_list :: "int list \<Rightarrow> int" where
  "max_list [] = 0"
| "max_list (x # xs) = fold max xs x"

definition float_min :: "double \<Rightarrow> double \<Rightarrow> double" where
  "float_min x y = (if float_le y x \<and> \<not> float_le x y then y else x)"

fun float_min_list :: "double list \<Rightarrow> double" where
  "float_min_list [] = (0, 1)"
| "float_min_list (x # xs) = fold (\<lambda>y m. float_min m y) xs x"

definition executor_validate ::
  "adapter_factory \<Rightarrow> string \<Rightarrow> uuid \<Rightarrow> uuid \<Rightarrow> adapters \<Rightarrow> migration_error + validation_evidence" where
  "executor_validate factory t source_id target_id h =
     (let pairs = factory t source_id target_id;
          sources = map (\<lambda>p. tenant_fingerprint t (h (fst p))) pairs;
          targets = map (\<lambda>p. tenant_fingerprint t (h (snd p))) pairs
      in if pairs = [] then Inl (StorageMigrationError ''STORAGE_MIGRATION_ADAPTERS_UNAVAILABLE'')
         else Inr \<lparr>ve_source_count = sum_list (map fst sources), ve_target_count = sum_list (map fst targets),
                   ve_source_digest = folded (map (fst \<circ> snd) sources), ve_target_digest = folded (map (fst \<circ> snd) targets),
                   ve_source_version = max_list (map (snd \<circ> snd) sources),
                   ve_target_version = max_list (map (target_version t h) pairs),
                   ve_vector_recall = float_min_list (map (\<lambda>p. vector_recall_against (h (fst p)) t (h (snd p))) pairs)\<rparr>)"

subsection \<open>What the executor does to the adapters\<close>

text \<open>The pairs are separate objects: no adapter is on both sides or in two pairs.\<close>

definition separate :: "(nat \<times> nat) list \<Rightarrow> bool" where
  "separate pairs \<longleftrightarrow> distinct (map fst pairs @ map snd pairs)"

lemma separate_Cons:
  "separate ((s, d) # pairs) \<longleftrightarrow> s \<noteq> d \<and> s \<notin> fst ` set pairs \<and> s \<notin> snd ` set pairs \<and> d \<notin> fst ` set pairs \<and>
     d \<notin> snd ` set pairs \<and> separate pairs"
  by (auto simp: separate_def)

definition keys_below :: "nat \<Rightarrow> watermarks \<Rightarrow> bool" where
  "keys_below i marks \<longleftrightarrow> (\<forall>j \<ge> i. str_of_nat j \<notin> set (map fst marks))"

lemma keys_below_update: "keys_below i marks \<Longrightarrow> keys_below (Suc i) (AList.update (str_of_nat i) w marks)"
  by (auto simp: keys_below_def update_keys)

lemma length_update_below: "keys_below i marks \<Longrightarrow> length (AList.update (str_of_nat i) w marks) = Suc (length marks)"
proof -
  assume "keys_below i marks"
  then have "map fst (AList.update (str_of_nat i) w marks) = map fst marks @ [str_of_nat i]"
    by (auto simp: keys_below_def update_keys)
  then show ?thesis by (metis length_append_singleton length_map)
qed

lemma backfill_marks:
  assumes "separate pairs" "keys_below i marks"
  shows "length (fst (backfill_pairs t i pairs marks h)) = length marks + length pairs \<and>
    (\<forall>j < i. map_of (fst (backfill_pairs t i pairs marks h)) (str_of_nat j) = map_of marks (str_of_nat j)) \<and>
    (\<forall>n < length pairs. map_of (fst (backfill_pairs t i pairs marks h)) (str_of_nat (i + n)) = Some (ma_watermark (h (fst (pairs ! n)))))"
  using assms
proof (induction pairs arbitrary: i marks h)
  case (Cons p pairs)
  obtain s d where p: "p = (s, d)" by (cases p)
  define h1 where "h1 = h(d := apply_changes t (as_changes (snd (snapshot_tenant t (h s)))) (h d))"
  define m1 where "m1 = AList.update (str_of_nat i) (ma_watermark (h s)) marks"
  have e: "backfill_pairs t i (p # pairs) marks h = backfill_pairs t (Suc i) pairs m1 h1"
    by (simp add: p h1_def m1_def split_beta) (simp add: snapshot_tenant_def)
  have sep: "separate pairs" "d \<notin> fst ` set pairs" using Cons.prems(1) by (auto simp: p separate_Cons)
  have IH: "length (fst (backfill_pairs t (Suc i) pairs m1 h1)) = length m1 + length pairs"
    "\<forall>j < Suc i. map_of (fst (backfill_pairs t (Suc i) pairs m1 h1)) (str_of_nat j) = map_of m1 (str_of_nat j)"
    "\<forall>n < length pairs. map_of (fst (backfill_pairs t (Suc i) pairs m1 h1)) (str_of_nat (Suc i + n)) = Some (ma_watermark (h1 (fst (pairs ! n))))"
    using Cons.IH [OF sep(1) keys_below_update [OF Cons.prems(2)], of "ma_watermark (h s)" h1] unfolding m1_def by blast+
  have h1: "h1 (fst (pairs ! n)) = h (fst (pairs ! n))" if "n < length pairs" for n
    using that sep(2) by (auto simp: h1_def image_iff)
  show ?case unfolding e
  proof (intro conjI allI impI)
    show "length (fst (backfill_pairs t (Suc i) pairs m1 h1)) = length marks + length (p # pairs)"
      using IH(1) length_update_below [OF Cons.prems(2)] by (simp add: m1_def)
    show "map_of (fst (backfill_pairs t (Suc i) pairs m1 h1)) (str_of_nat j) = map_of marks (str_of_nat j)" if "j < i" for j
      using IH(2) that by (simp add: m1_def update_conv')
    show "map_of (fst (backfill_pairs t (Suc i) pairs m1 h1)) (str_of_nat (i + n)) = Some (ma_watermark (h (fst ((p # pairs) ! n))))"
      if "n < length (p # pairs)" for n
      using IH(2,3) that h1 by (cases n) (auto simp: m1_def update_conv' p)
  qed
qed simp

lemma backfill_adapters:
  assumes "separate pairs"
  shows "(\<forall>(s, d) \<in> set pairs. snd (backfill_pairs t i pairs marks h) d = apply_changes t (as_changes (snd (snapshot_tenant t (h s)))) (h d)) \<and>
    (\<forall>a. a \<notin> snd ` set pairs \<longrightarrow> snd (backfill_pairs t i pairs marks h) a = h a)"
  using assms
proof (induction pairs arbitrary: i marks h)
  case (Cons p pairs)
  obtain s d where p: "p = (s, d)" by (cases p)
  define h1 where "h1 = h(d := apply_changes t (as_changes (snd (snapshot_tenant t (h s)))) (h d))"
  define h2 where "h2 = snd (backfill_pairs t i (p # pairs) marks h)"
  have e: "h2 = snd (backfill_pairs t (Suc i) pairs (AList.update (str_of_nat i) (ma_watermark (h s)) marks) h1)"
    by (simp add: p h1_def h2_def split_beta) (simp add: snapshot_tenant_def)
  have sep: "separate pairs" "d \<notin> fst ` set pairs" "d \<notin> snd ` set pairs" using Cons.prems(1) by (auto simp: p separate_Cons)
  have IH: "\<forall>(s, d) \<in> set pairs. h2 d = apply_changes t (as_changes (snd (snapshot_tenant t (h1 s)))) (h1 d)"
    "\<forall>a. a \<notin> snd ` set pairs \<longrightarrow> h2 a = h1 a"
    using Cons.IH [OF sep(1)] unfolding e by blast+
  have "h2 d' = apply_changes t (as_changes (snd (snapshot_tenant t (h s')))) (h d')" if "(s', d') \<in> set pairs" for s' d'
  proof -
    have "s' \<noteq> d" "d' \<noteq> d" using that sep(2,3) by force+
    then show ?thesis using IH(1) that by (auto simp: h1_def)
  qed
  moreover have "h2 d = h1 d" using IH(2) sep(3) by blast
  ultimately show ?case using IH(2) unfolding h2_def [symmetric] by (auto simp: p h1_def)
qed simp

lemma catch_up_adapters:
  assumes "separate pairs" "\<forall>n < length pairs. map_of marks (str_of_nat (i + n)) = Some (mark (fst (pairs ! n)))"
  shows "\<exists>updated' h'. catch_up_pairs t i marks pairs updated h = (Inr updated', h') \<and>
    (\<forall>(s, d) \<in> set pairs. h' d = apply_changes t (snd (changes_since t (mark s) (h s))) (h d)) \<and>
    (\<forall>a. a \<notin> snd ` set pairs \<longrightarrow> h' a = h a)"
  using assms
proof (induction pairs arbitrary: i updated h)
  case (Cons p pairs)
  obtain s d where p: "p = (s, d)" by (cases p)
  define h1 where "h1 = h(d := apply_changes t (snd (changes_since t (mark s) (h s))) (h d))"
  define u1 where "u1 = AList.update (str_of_nat i) (ma_watermark (h s)) updated"
  have m: "map_of marks (str_of_nat i) = Some (mark s)" using Cons.prems(2) [rule_format, of 0] by (simp add: p)
  have e: "catch_up_pairs t i marks (p # pairs) updated h = catch_up_pairs t (Suc i) marks pairs u1 h1"
    by (simp add: p m h1_def u1_def split_beta) (simp add: changes_since_def)
  have sep: "separate pairs" "d \<notin> fst ` set pairs" "d \<notin> snd ` set pairs" using Cons.prems(1) by (auto simp: p separate_Cons)
  have "\<forall>n < length pairs. map_of marks (str_of_nat (Suc i + n)) = Some (mark (fst (pairs ! n)))"
    using Cons.prems(2) by (auto dest: spec [of _ "Suc _"])
  from Cons.IH [OF sep(1) this, of u1 h1] obtain u2 h2 where
    2: "catch_up_pairs t (Suc i) marks pairs u1 h1 = (Inr u2, h2)"
      "\<forall>(s, d) \<in> set pairs. h2 d = apply_changes t (snd (changes_since t (mark s) (h1 s))) (h1 d)"
      "\<forall>a. a \<notin> snd ` set pairs \<longrightarrow> h2 a = h1 a" by blast
  have "h2 d' = apply_changes t (snd (changes_since t (mark s') (h s'))) (h d')" if "(s', d') \<in> set pairs" for s' d'
  proof -
    have "s' \<noteq> d" "d' \<noteq> d" using that sep(2,3) by force+
    then show ?thesis using 2(2) that by (auto simp: h1_def)
  qed
  moreover have "h2 d = h1 d" using 2(3) sep(3) by blast
  ultimately show ?case unfolding e 2(1) using 2(3) by (auto simp: p h1_def)
qed simp

text \<open>Business requests keep writing to the adapters they own: \<open>ops a\<close> are the calls on adapter \<open>a\<close>.\<close>

definition business_writes :: "(nat \<Rightarrow> storage_op list) \<Rightarrow> adapters \<Rightarrow> adapters" where
  "business_writes ops h = (\<lambda>a. snd (mem_run (ops a) (h a)))"

definition content :: "string \<Rightarrow> memory_adapter \<Rightarrow> string \<rightharpoonup> string" where
  "content t s = (\<lambda>k. map_of (ma_objects s) (t, k))"

lemma backfill_then_catch_up:
  assumes sep: "separate (factory t src tgt)" and ne: "factory t src tgt \<noteq> []"
    and inv: "\<forall>a. mem_inv (h a)"
    and idle: "\<forall>d \<in> snd ` set (factory t src tgt). ops d = []"
  obtains marks h1 marks' h3 where
    "executor_backfill factory t src tgt h = (Inr marks, h1)"
    "executor_catch_up factory t src tgt marks (business_writes ops h1) = (Inr marks', h3)"
    "\<forall>(s, d) \<in> set (factory t src tgt). h3 s = snd (mem_run (ops s) (h s)) \<and>
       h3 d = apply_changes t (snd (changes_since t (fst (snapshot_tenant t (h s))) (snd (mem_run (ops s) (h s)))))
                (apply_changes t (as_changes (snd (snapshot_tenant t (h s)))) (h d))"
    "\<forall>a. mem_inv (h3 a)"
proof -
  let ?pairs = "factory t src tgt"
  obtain marks h1 where b: "backfill_pairs t 0 ?pairs [] h = (marks, h1)" by (cases "backfill_pairs t 0 ?pairs [] h")
  have kb: "keys_below 0 []" by (simp add: keys_below_def)
  have marks: "length marks = length ?pairs"
    "\<forall>n < length ?pairs. map_of marks (str_of_nat (0 + n)) = Some (ma_watermark (h (fst (?pairs ! n))))"
    using backfill_marks [OF sep kb, of t h] by (simp_all add: b)
  have h1: "\<forall>(s, d) \<in> set ?pairs. h1 d = apply_changes t (as_changes (snd (snapshot_tenant t (h s)))) (h d)"
    "\<forall>a. a \<notin> snd ` set ?pairs \<longrightarrow> h1 a = h a"
    using backfill_adapters [OF sep, of t 0 "[]" h] by (simp_all add: b)
  obtain marks' h3 where c: "catch_up_pairs t 0 marks ?pairs [] (business_writes ops h1) = (Inr marks', h3)"
    and h3: "\<forall>(s, d) \<in> set ?pairs. h3 d = apply_changes t (snd (changes_since t (ma_watermark (h s)) (business_writes ops h1 s)))
              (business_writes ops h1 d)"
      "\<forall>a. a \<notin> snd ` set ?pairs \<longrightarrow> h3 a = business_writes ops h1 a"
    using catch_up_adapters [OF sep marks(2), of t "[]" "business_writes ops h1"] by blast
  have src: "s \<notin> snd ` set ?pairs" if "(s, d) \<in> set ?pairs" for s d
    using sep that by (force simp: separate_def)
  have pair: "h3 s = snd (mem_run (ops s) (h s)) \<and>
       h3 d = apply_changes t (snd (changes_since t (fst (snapshot_tenant t (h s))) (snd (mem_run (ops s) (h s)))))
                (apply_changes t (as_changes (snd (snapshot_tenant t (h s)))) (h d))" if "(s, d) \<in> set ?pairs" for s d
  proof -
    have d: "ops d = []" using idle that by force
    have "h1 d = apply_changes t (as_changes (snd (snapshot_tenant t (h s)))) (h d)" using h1(1) that by blast
    moreover have "h1 s = h s" "h3 s = business_writes ops h1 s" using h1(2) h3(2) src [OF that] by blast+
    moreover have "h3 d = apply_changes t (snd (changes_since t (ma_watermark (h s)) (business_writes ops h1 s))) (business_writes ops h1 d)"
      using h3(1) that by blast
    moreover have "fst (snapshot_tenant t (h s)) = ma_watermark (h s)" by (simp add: snapshot_tenant_def)
    ultimately show ?thesis by (simp add: business_writes_def d)
  qed
  have "mem_inv (h3 a)" for a
  proof (cases "a \<in> snd ` set ?pairs")
    case True
    then obtain s where "(s, a) \<in> set ?pairs" by force
    then show ?thesis using pair inv by (simp add: mem_inv_apply_changes)
  next
    case False
    then show ?thesis using h1(2) h3(2) inv by (simp add: business_writes_def nma.run_inv)
  qed
  then show thesis
    using that [of marks h1 marks' h3] b c marks(1) ne pair
    by (auto simp: executor_backfill_def executor_catch_up_def Let_def)
qed

subsection \<open>Evidence\<close>

lemma float_div_self: "0 < n \<Longrightarrow> float_div n n = (2 ^ 52, 2 ^ 52)"
  by (simp add: float_div_def float_scale_def Let_def round_half_even_def)

lemma recall_same_content:
  assumes "unique_objects (ma_objects s)" "content t s = content t d"
  shows "vector_recall_against s t d \<in> {(1, 1), (2 ^ 52, 2 ^ 52)}"
proof (cases "snd (snapshot_tenant t s) = []")
  case False
  have "map_of (snd (snapshot_tenant t d)) (fst e) = Some (snd e)" if "e \<in> set (snd (snapshot_tenant t s))" for e
  proof -
    have "map_of (snd (snapshot_tenant t s)) (fst e) = Some (snd e)"
      using that distinct_snapshot [OF assms(1)] by (simp add: map_of_eq_Some_iff)
    then show ?thesis using assms(2) by (simp add: map_of_snapshot content_def fun_eq_iff)
  qed
  then have "filter (\<lambda>e. map_of (snd (snapshot_tenant t d)) (fst e) = Some (snd e)) (snd (snapshot_tenant t s)) = snd (snapshot_tenant t s)"
    by (simp add: filter_id_conv)
  then show ?thesis using False by (simp add: vector_recall_against_def Let_def float_div_self)
qed (simp add: vector_recall_against_def Let_def)

lemma float_min_list_mem: "xs \<noteq> [] \<Longrightarrow> float_min_list xs \<in> set xs"
proof (cases xs)
  case (Cons x ys)
  have "fold (\<lambda>y m. float_min m y) ys x \<in> insert x (set ys)" for x
    by (induction ys arbitrary: x) (auto simp: float_min_def)
  then show ?thesis by (simp add: Cons)
qed simp

lemma minimum_recall_value: "minimum_vector_recall = (8556839292003942, 9007199254740992)"
proof -
  have b: "bit_length 95 = 7" "bit_length 100 = 7" by (simp_all add: bit_length.simps)
  then show ?thesis by (simp add: minimum_vector_recall_def float_div_def float_scale_def Let_def round_half_even_def)
qed

lemma same_content_valid:
  assumes ne: "factory t src tgt \<noteq> []" and inv: "\<forall>a. mem_inv (h a)"
    and same: "\<forall>(s, d) \<in> set (factory t src tgt). content t (h s) = content t (h d)"
  shows "\<exists>e. executor_validate factory t src tgt h = Inr e \<and> is_valid e"
proof -
  let ?pairs = "factory t src tgt"
  have u: "unique_objects (ma_objects (h a))" for a using inv by (simp add: mem_inv_def)
  have srt: "sort (snd (snapshot_tenant t (h (fst p)))) = sort (snd (snapshot_tenant t (h (snd p))))" if "p \<in> set ?pairs" for p
  proof (rule content_fingerprint [OF u u])
    have "content t (h (fst p)) = content t (h (snd p))" using same that by (cases p) auto
    then show "map_of (ma_objects (h (fst p))) (t, k) = map_of (ma_objects (h (snd p))) (t, k)" for k
      by (simp add: content_def fun_eq_iff)
  qed
  have len: "length (snd (snapshot_tenant t (h (fst p)))) = length (snd (snapshot_tenant t (h (snd p))))" if "p \<in> set ?pairs" for p
    using srt [OF that] by (metis length_sort)
  have ver: "target_version t h p = ma_watermark (h (fst p))" if "p \<in> set ?pairs" for p
    using srt [OF that] len [OF that] by (simp add: target_version_def tenant_fingerprint_def Let_def)
  let ?rs = "map (\<lambda>p. vector_recall_against (h (fst p)) t (h (snd p))) ?pairs"
  have "set ?rs \<subseteq> {(1, 1), (2 ^ 52, 2 ^ 52)}"
    using recall_same_content [OF u] same by force
  then have r: "float_min_list ?rs \<in> {(1, 1), (2 ^ 52, 2 ^ 52)}" using float_min_list_mem [of ?rs] ne by blast
  show ?thesis using ne r
    by (auto simp: executor_validate_def is_valid_def Let_def tenant_fingerprint_def comp_def srt len ver float_le_def minimum_recall_value
        cong: map_cong)
qed

lemma snapshot_keys: "set (map fst (snd (snapshot_tenant t s))) = dom (content t s)"
  by (simp add: content_def dom_map_of_conv_image_fst [symmetric] map_of_snapshot)

lemma caught_up_content:
  assumes "mem_inv s" "dom (content t d) \<subseteq> dom (content t s)"
  shows "content t (apply_changes t (snd (changes_since t (fst (snapshot_tenant t s)) (snd (mem_run ops s))))
           (apply_changes t (as_changes (snd (snapshot_tenant t s))) d)) = content t (snd (mem_run ops s))"
  unfolding content_def as_changes_def
  by (rule ext, rule nmo.caught_up [OF assms(1)]) (use assms(2) in \<open>auto simp: content_def dom_def\<close>)


definition sample_adapters :: adapters where
  "sample_adapters = (\<lambda>a. if a = 0 then mem_put ''t'' ''session:1'' ''event'' new_memory_adapter else new_memory_adapter)"

lemma sample_adapters_inv: "\<forall>a. mem_inv (sample_adapters a)"
  by (simp add: sample_adapters_def)

lemma content_new: "content t new_memory_adapter = Map.empty"
  by (simp add: content_def new_memory_adapter_def)

definition sample_factory :: adapter_factory where
  "sample_factory t src tgt = [(0, 1)]"

definition sample_ops :: "nat \<Rightarrow> storage_op list" where
  "sample_ops a = (if a = 0 then [Op_put ''t'' ''session:2'' ''late''] else [])"


subsection \<open>What valid evidence proves\<close>

definition hashed_contents :: "string \<Rightarrow> adapters \<Rightarrow> nat list \<Rightarrow> string set" where
  "hashed_contents t h as =
     insert (concat (map (\<lambda>a. fst (snd (tenant_fingerprint t (h a)))) as))
       (set (map (\<lambda>a. digest_input (sort (snd (snapshot_tenant t (h a))))) as))"

lemma equal_digests:
  assumes "folded (map (\<lambda>p. fst (snd (tenant_fingerprint t (h (fst p))))) pairs) = folded (map (\<lambda>p. fst (snd (tenant_fingerprint t (h (snd p))))) pairs)"
    and "\<not> collision (hashed_contents t h (map fst pairs)) (hashed_contents t h (map snd pairs))" and "p \<in> set pairs"
  shows "digest_input (sort (snd (snapshot_tenant t (h (fst p))))) = digest_input (sort (snd (snapshot_tenant t (h (snd p)))))"
proof -
  let ?d = "\<lambda>a. fst (snd (tenant_fingerprint t (h a)))"
  have "concat (map (\<lambda>p. ?d (fst p)) pairs) = concat (map (\<lambda>p. ?d (snd p)) pairs)"
    using assms(1,2) by (auto simp: folded_def collision_def hashed_contents_def comp_def)
  moreover have "length (?d a) = 64" for a by (simp add: tenant_fingerprint_def Let_def)
  ultimately have "map (\<lambda>p. ?d (fst p)) pairs = map (\<lambda>p. ?d (snd p)) pairs"
    by (subst (asm) concat_eq_concat_iff) (auto simp: set_zip)
  then have "?d (fst p) = ?d (snd p)" using assms(3) by (auto simp: map_eq_conv)
  then have "sha256_hex (digest_input (sort (snd (snapshot_tenant t (h (fst p)))))) =
      sha256_hex (digest_input (sort (snd (snapshot_tenant t (h (snd p))))))" by (simp add: tenant_fingerprint_def Let_def)
  then show ?thesis using assms(2,3) unfolding collision_def hashed_contents_def by fastforce
qed



text \<open>
  The NUL bytes matter: the digest's input does not determine the objects, and two contents of equal
  size can have the same fingerprint.
\<close>

lemma fingerprint_ambiguous:
  "let xs = [(''a'', ''x'' @ [NUL] @ ''b'' @ [NUL] @ ''y''), (''c'', ''z'')];
       ys = [(''a'', ''x''), (''b'', ''y'' @ [NUL] @ ''c'' @ [NUL] @ ''z'')]
   in length xs = length ys \<and> digest_input xs = digest_input ys \<and> map_of xs \<noteq> map_of ys"
proof -
  have "map_of [(''a'', ''x'' @ [NUL] @ ''b'' @ [NUL] @ ''y''), (''c'', ''z'')] ''b'' \<noteq>
      map_of [(''a'', ''x''), (''b'', ''y'' @ [NUL] @ ''c'' @ [NUL] @ ''z'')] ''b''" by simp
  then have "map_of [(''a'', ''x'' @ [NUL] @ ''b'' @ [NUL] @ ''y''), (''c'', ''z'')] \<noteq>
      map_of [(''a'', ''x''), (''b'', ''y'' @ [NUL] @ ''c'' @ [NUL] @ ''z'')]" by metis
  then show ?thesis by (simp add: digest_input_def)
qed

subsection \<open>Leftovers on the target side\<close>

lemma length_snapshot: "unique_objects (ma_objects s) \<Longrightarrow> length (snd (snapshot_tenant t s)) = card (dom (content t s))"
  using distinct_card [OF distinct_snapshot] snapshot_keys by (metis length_map)

lemma finite_content: "finite (dom (content t s))"
  using snapshot_keys by (metis List.finite_set)

lemma quiet_replay:
  assumes "mem_inv s"
  shows "content t (apply_changes t (snd (changes_since t (fst (snapshot_tenant t s)) s)) (apply_changes t (as_changes (snd (snapshot_tenant t s))) d)) =
    content t d ++ content t s"
proof -
  have "snd (changes_since t (fst (snapshot_tenant t s)) s) = []"
    using changes_since_snapshot [OF assms, of s "[]" t] by (simp add: snapshot_tenant_def)
  then show ?thesis
    using nmo.backfilled [OF assms, of t d]
    by (auto simp: content_def as_changes_def map_add_def fun_eq_iff apply_changes_def split: option.splits)
qed

lemma sum_list_strict:
  fixes f g :: "'a \<Rightarrow> nat"
  assumes "\<forall>x \<in> set xs. f x \<le> g x" "x \<in> set xs" "f x < g x"
  shows "sum_list (map f xs) < sum_list (map g xs)"
  using assms
proof (induction xs)
  case (Cons y ys)
  have "sum_list (map f ys) \<le> sum_list (map g ys)" using Cons.prems(1) by (auto intro: sum_list_mono)
  then show ?case using Cons by fastforce
qed simp

text \<open>
  A target that holds a key the source lacks never validates. When one adapter pair's target side
  starts with a key of the tenant that its source side does not have, then after a backfill and a
  catch-up with no writes in between the evidence is invalid, however often the two run: nothing
  in the copy removes a key. For a rollback, whose sources are the profile that took the
  observation-phase writes, this is a tenant erasure during observation: the old profile still
  holds the erased keys, and the rollback cannot pass its validation.
\<close>

theorem leftover_never_validates:
  assumes "separate (factory t src tgt)" "factory t src tgt \<noteq> []" "\<forall>a. mem_inv (h a)"
    and "(s0, d0) \<in> set (factory t src tgt)" "content t (h d0) k \<noteq> None" "content t (h s0) k = None"
  shows "\<exists>marks h1 marks' h2 e.
    executor_backfill factory t src tgt h = (Inr marks, h1) \<and>
    executor_catch_up factory t src tgt marks h1 = (Inr marks', h2) \<and>
    executor_validate factory t src tgt h2 = Inr e \<and> \<not> is_valid e \<and>
    content t (h2 d0) k \<noteq> None \<and> content t (h2 s0) k = None"
proof -
  let ?pairs = "factory t src tgt"
  have idle: "\<forall>d \<in> snd ` set ?pairs. (\<lambda>_. []) d = ([] :: storage_op list)" by simp
  obtain marks h1 marks' h3 where r0: "executor_backfill factory t src tgt h = (Inr marks, h1)"
    "executor_catch_up factory t src tgt marks (business_writes (\<lambda>_. []) h1) = (Inr marks', h3)"
    and p0: "\<forall>(s, d) \<in> set ?pairs. h3 s = snd (mem_run [] (h s)) \<and>
       h3 d = apply_changes t (snd (changes_since t (fst (snapshot_tenant t (h s))) (snd (mem_run [] (h s)))))
                (apply_changes t (as_changes (snd (snapshot_tenant t (h s)))) (h d))"
    and inv: "\<forall>a. mem_inv (h3 a)"
    by (rule backfill_then_catch_up [of factory t src tgt h "\<lambda>_. []", OF assms(1-3) idle])
  have r: "executor_backfill factory t src tgt h = (Inr marks, h1)" "executor_catch_up factory t src tgt marks h1 = (Inr marks', h3)"
    using r0 by (simp_all add: business_writes_def)
  note p = p0 [simplified]
  have c: "content t (h3 s) = content t (h s)" "content t (h3 d) = content t (h d) ++ content t (h s)" if "(s, d) \<in> set ?pairs" for s d
    using p that quiet_replay assms(3) by fastforce+
  let ?n = "\<lambda>a. length (snd (snapshot_tenant t (h3 a)))"
  have n: "?n a = card (dom (content t (h3 a)))" for a using inv by (simp add: length_snapshot mem_inv_def)
  have "dom (content t (h3 s)) \<subseteq> dom (content t (h3 d))" if "(s, d) \<in> set ?pairs" for s d
    using c [OF that] by auto
  then have le: "\<forall>q \<in> set ?pairs. ?n (fst q) \<le> ?n (snd q)" unfolding n by (force intro!: card_mono finite_content)
  have "k \<in> dom (content t (h3 d0))" "k \<notin> dom (content t (h3 s0))"
    using c [OF assms(4)] assms(5,6) by auto
  then have "dom (content t (h3 s0)) \<subset> dom (content t (h3 d0))"
    using c [OF assms(4)] by auto
  then have lt: "?n (fst (s0, d0)) < ?n (snd (s0, d0))" unfolding n by (simp add: psubset_card_mono finite_content)
  obtain e where e: "executor_validate factory t src tgt h3 = Inr e" "ve_source_count e \<noteq> ve_target_count e"
    using assms(2) sum_list_strict [OF le assms(4) lt]
    by (auto simp: executor_validate_def Let_def tenant_fingerprint_def comp_def)
  have "content t (h3 d0) k \<noteq> None" "content t (h3 s0) k = None"
    using c [OF assms(4)] assms(5,6) by (auto simp: map_add_def split: option.splits)
  then show ?thesis using r e by (auto simp: is_valid_def)
qed

theorem leftover_never_validates_witness:
  "\<exists>marks h1 marks' h2 e. executor_backfill sample_factory ''t'' ''p2'' ''p1'' (\<lambda>a. sample_adapters (1 - a)) = (Inr marks, h1) \<and>
    executor_catch_up sample_factory ''t'' ''p2'' ''p1'' marks h1 = (Inr marks', h2) \<and>
    executor_validate sample_factory ''t'' ''p2'' ''p1'' h2 = Inr e \<and> \<not> is_valid e"
proof -
  have "(0, 1) \<in> set (sample_factory ''t'' ''p2'' ''p1'')" "separate (sample_factory ''t'' ''p2'' ''p1'')"
    "sample_factory ''t'' ''p2'' ''p1'' \<noteq> []" by (simp_all add: sample_factory_def separate_def)
  moreover have "\<forall>a. mem_inv (sample_adapters (1 - a))" using sample_adapters_inv by blast
  moreover have "content ''t'' (sample_adapters (1 - 1)) ''session:1'' \<noteq> None" "content ''t'' (sample_adapters (1 - 0)) ''session:1'' = None"
    by (simp_all add: content_def sample_adapters_def mem_put_def new_memory_adapter_def Let_def)
  ultimately show ?thesis
    using leftover_never_validates [of sample_factory "''t''" "''p2''" "''p1''" "\<lambda>a. sample_adapters (1 - a)" 0 1 "''session:1''"]
    by blast
qed

end
