(* ===== verification/Storage_Control.thy ===== *)
theory Storage_Control
  imports Admin_Access Storage_Migration
begin

text \<open>
  The durable side of Storage Profiles: the tables of the migrations 0022 to 0028 with their keys and
  unique indexes, the routes of \<open>admin_api/storage_profiles.py\<close> and \<open>admin_api/storage_migrations.py\<close>,
  the worker of \<open>storage_migration_worker.py\<close> and the resolver of \<open>storage.py\<close>. A route is a
  transaction over the tables (its error leaves them as its role check left them); the worker also
  changes the adapters, which no transaction rolls back. \<open>uuid7()\<close> values and the clock are
  arguments, one instant for a call. Row-level security restricts every statement to the tenant of
  its transaction.
\<close>

datatype decision_status = St_none | St_pending | St_approved | St_denied

record profile_row =
  pf_id :: uuid
  pf_profile :: storage_profile
  pf_active :: bool
  pf_version :: int
  pf_created_at :: timestamp
  pf_updated_at :: timestamp

definition pf_tenant_id :: "profile_row \<Rightarrow> uuid" where "pf_tenant_id r = sp_tenant_id (pf_profile r)"

definition pf_key :: "profile_row \<Rightarrow> uuid \<times> uuid" where "pf_key r = (pf_tenant_id r, pf_id r)"

definition pf_alias_key :: "profile_row \<Rightarrow> uuid \<times> string" where "pf_alias_key r = (pf_tenant_id r, sp_alias (pf_profile r))"

record claim_row =
  cl_kind :: string
  cl_fingerprint :: string
  cl_tenant_id :: uuid

definition cl_key :: "claim_row \<Rightarrow> string \<times> string" where "cl_key r = (cl_kind r, cl_fingerprint r)"

record migration_row =
  mg_tenant_id :: uuid
  mg_id :: uuid
  mg_source :: uuid
  mg_target :: uuid
  mg_state :: migration_state
  mg_approval_status :: decision_status
  mg_requested_by :: string
  mg_approved_by :: "string option"
  mg_rollback_status :: decision_status
  mg_rollback_requested_by :: "string option"
  mg_rollback_approved_by :: "string option"
  mg_validation :: "validation_evidence option"
  mg_observation_seconds :: int
  mg_observation_ends_at :: "timestamp option"
  mg_version :: int

definition mg_key :: "migration_row \<Rightarrow> uuid \<times> uuid" where "mg_key r = (mg_tenant_id r, mg_id r)"

record checkpoint_row =
  sc_tenant_id :: uuid
  sc_migration_id :: uuid
  sc_forward :: watermarks
  sc_rollback :: watermarks

definition sc_key :: "checkpoint_row \<Rightarrow> uuid \<times> uuid" where "sc_key r = (sc_tenant_id r, sc_migration_id r)"

record storage_tables = admin_tables +
  st_profiles :: "profile_row list"
  st_claims :: "claim_row list"
  st_migrations :: "migration_row list"
  st_checkpoints :: "checkpoint_row list"

definition open_states :: "migration_state list" where
  "open_states = [PREPARED, BACKFILLING, CATCHING_UP, VALIDATING, READY_TO_SWITCH, OBSERVING, ROLLING_BACK,
     ROLLBACK_CATCHING_UP, ROLLBACK_VALIDATING]"

definition state_value :: "migration_state \<Rightarrow> string" where
  "state_value s = (case s of PREPARED \<Rightarrow> ''PREPARED'' | BACKFILLING \<Rightarrow> ''BACKFILLING'' | CATCHING_UP \<Rightarrow> ''CATCHING_UP''
     | VALIDATING \<Rightarrow> ''VALIDATING'' | READY_TO_SWITCH \<Rightarrow> ''READY_TO_SWITCH'' | OBSERVING \<Rightarrow> ''OBSERVING''
     | ROLLING_BACK \<Rightarrow> ''ROLLING_BACK'' | ROLLBACK_CATCHING_UP \<Rightarrow> ''ROLLBACK_CATCHING_UP''
     | ROLLBACK_VALIDATING \<Rightarrow> ''ROLLBACK_VALIDATING'' | COMPLETED \<Rightarrow> ''COMPLETED'' | ROLLED_BACK \<Rightarrow> ''ROLLED_BACK''
     | FAILED \<Rightarrow> ''FAILED'')"

definition operation_value :: "migration_operation \<Rightarrow> string" where
  "operation_value x = (case x of START_BACKFILL \<Rightarrow> ''START_BACKFILL'' | BACKFILL_COMPLETE \<Rightarrow> ''BACKFILL_COMPLETE''
     | CATCH_UP_COMPLETE \<Rightarrow> ''CATCH_UP_COMPLETE'' | VALIDATE \<Rightarrow> ''VALIDATE'' | SWITCH \<Rightarrow> ''SWITCH'' | COMPLETE \<Rightarrow> ''COMPLETE''
     | START_ROLLBACK \<Rightarrow> ''START_ROLLBACK'' | ROLLBACK_BACKFILL_COMPLETE \<Rightarrow> ''ROLLBACK_BACKFILL_COMPLETE''
     | ROLLBACK_CATCH_UP_COMPLETE \<Rightarrow> ''ROLLBACK_CATCH_UP_COMPLETE'' | ROLLBACK_VALIDATE \<Rightarrow> ''ROLLBACK_VALIDATE'' | FAIL \<Rightarrow> ''FAIL'')"

definition active_profile_of :: "uuid \<Rightarrow> profile_row list \<Rightarrow> profile_row option" where
  "active_profile_of tenant_id t = find (\<lambda>r. pf_tenant_id r = tenant_id \<and> pf_active r) t"

subsection \<open>Storage Profile routes\<close>

definition storage_error_text :: "storage_error \<Rightarrow> string" where
  "storage_error_text e = (case e of StorageProfileError s \<Rightarrow> s | ValidationError s \<Rightarrow> s)"

definition validate_profile :: "storage_profile \<Rightarrow> api_error option" where
  "validate_profile p =
     (let prefix = ''vault://tenant/'' @ sp_tenant_id p @ ''/'' in
      if \<not> startswith (sp_encryption_key_ref p) prefix \<or> list_ex (\<lambda>b. \<not> startswith (sb_secret_ref b) prefix) (sp_backends p)
      then Some (HTTPException 422 ''STORAGE_SECRET_REF_SCOPE_INVALID'')
      else case make_storage_profile p of
             Inl e \<Rightarrow> Some (HTTPException 422 (storage_error_text e))
           | Inr q \<Rightarrow> (case storage_router q of
                 Inl e \<Rightarrow> Some (HTTPException 422 (storage_error_text e)) | Inr _ \<Rightarrow> None))"

definition dedicated_resources :: "storage_profile \<Rightarrow> (string \<times> string) list" where
  "dedicated_resources p =
     map (\<lambda>b. (kind_value (sb_kind b), sb_endpoint b)) (filter sb_dedicated (sp_backends p)) @
     (if sp_worker_pool p \<noteq> ''shared-workers'' then [(''WORKER_POOL'', sp_worker_pool p)] else [])"

fun claim_resources ::
  "uuid list \<Rightarrow> uuid \<Rightarrow> (string \<times> string) list \<Rightarrow> claim_row list \<Rightarrow> api_error + claim_row list" where
  "claim_resources tenants tenant_id [] t = Inr t"
| "claim_resources tenants tenant_id ((kind, identity) # rs) t =
     (let fingerprint = sha256_hex identity in
      case row_of cl_key (kind, fingerprint) t of
        None \<Rightarrow>
          if tenant_id \<notin> set tenants then Inl (DatabaseError IntegrityError)
          else claim_resources tenants tenant_id rs (t @ [\<lparr>cl_kind = kind, cl_fingerprint = fingerprint, cl_tenant_id = tenant_id\<rparr>])
      | Some owner \<Rightarrow>
          if cl_tenant_id owner \<noteq> tenant_id then Inl (HTTPException 409 ''STORAGE_RESOURCE_ALREADY_CLAIMED'')
          else claim_resources tenants tenant_id rs t)"

text \<open>The keys, indexes and checks of \<open>tenant.storage_profile\<close>.\<close>

definition insert_profile_row :: "profile_row \<Rightarrow> 'x storage_tables_scheme \<Rightarrow> api_error + 'x storage_tables_scheme" where
  "insert_profile_row r db =
     (if has_key pf_key (pf_key r) (st_profiles db) \<or> has_key pf_alias_key (pf_alias_key r) (st_profiles db) \<or>
         (pf_active r \<and> active_profile_of (pf_tenant_id r) (st_profiles db) \<noteq> None) \<or>
         \<not> tenant_exists (pf_tenant_id r) db
      then Inl (DatabaseError IntegrityError)
      else Inr (db\<lparr>st_profiles := st_profiles db @ [r]\<rparr>))"

definition classification_value :: "data_classification \<Rightarrow> string" where
  "classification_value c = (case c of PUBLIC \<Rightarrow> ''PUBLIC'' | INTERNAL \<Rightarrow> ''INTERNAL'' | CONFIDENTIAL \<Rightarrow> ''CONFIDENTIAL''
     | RESTRICTED \<Rightarrow> ''RESTRICTED'')"

definition backend_json :: "storage_backend \<Rightarrow> json" where
  "backend_json b = JDict [(''kind'', JStr (kind_value (sb_kind b))), (''endpoint'', JStr (sb_endpoint b)),
     (''dedicated'', JBool (sb_dedicated b)), (''secret_ref'', JStr (sb_secret_ref b))]"

definition profile_request :: "storage_profile \<Rightarrow> bool \<Rightarrow> jobject" where
  "profile_request p activate =
     [(''tenant_id'', JStr (sp_tenant_id p)), (''alias'', JStr (sp_alias p)),
      (''classification'', JStr (classification_value (sp_classification p))), (''worker_pool'', JStr (sp_worker_pool p)),
      (''encryption_key_ref'', JStr (sp_encryption_key_ref p)), (''backends'', JList (map backend_json (sp_backends p))),
      (''activate'', JBool activate)]"

definition profile_result :: "profile_row \<Rightarrow> jobject" where
  "profile_result r =
     (let p = pf_profile r in
      [(''id'', JStr (pf_id r)), (''tenant_id'', JStr (sp_tenant_id p)), (''alias'', JStr (sp_alias p)),
       (''classification'', JStr (classification_value (sp_classification p))), (''worker_pool'', JStr (sp_worker_pool p)),
       (''encryption_key_ref'', JStr (sp_encryption_key_ref p)), (''backends'', JList (map backend_json (sp_backends p))),
       (''active'', JBool (pf_active r)), (''version'', JInt (pf_version r)),
       (''created_at'', JStr (datetime_str (pf_created_at r))), (''updated_at'', JStr (datetime_str (pf_updated_at r)))])"

definition alias_conflict :: "api_error \<Rightarrow> api_error" where
  "alias_conflict e = (if e = DatabaseError IntegrityError then HTTPException 409 ''storage profile alias already exists'' else e)"

text \<open>The command of \<open>create_profile\<close>, the tenant of the path being the profile's.\<close>

definition create_profile_command ::
  "(jobject \<Rightarrow> jobject) \<Rightarrow> call \<Rightarrow> uuid \<Rightarrow> string \<Rightarrow> storage_profile \<Rightarrow> bool \<Rightarrow> 'x storage_tables_scheme
   \<Rightarrow> api_error + (jobject \<times> 'x storage_tables_scheme)" where
  "create_profile_command jsonb c profile_id key p activate db =
     (let tenant_id = sp_tenant_id p; actor = pr_subject (rq_principal c); payload = profile_request p activate in
      case replay_for actor key ''storage_profile.create'' payload db of
        Inl e \<Rightarrow> Inl e
      | Inr (Some replayed) \<Rightarrow> Inr (replayed, db)
      | Inr None \<Rightarrow>
          if activate \<and> active_profile_of tenant_id (st_profiles db) \<noteq> None
          then Inl (HTTPException 409 ''STORAGE_MIGRATION_REQUIRED'')
          else case claim_resources (au_tenants (ad_audit db)) tenant_id (dedicated_resources p) (st_claims db) of
            Inl e \<Rightarrow> Inl e
          | Inr claims \<Rightarrow>
             (let row = \<lparr>pf_id = profile_id, pf_profile = p, pf_active = activate, pf_version = 1,
                         pf_created_at = rq_now c, pf_updated_at = rq_now c\<rparr> in
              case insert_profile_row row (db\<lparr>st_claims := claims\<rparr>) of
                Inl e \<Rightarrow> Inl e
              | Inr db1 \<Rightarrow>
                 (case audited jsonb (rq_event_id c) (rq_now c) (Some (rq_principal c)) ''storage_profile.create'' ''ALLOW''
                         ''storage_profile'' profile_id tenant_id [(''active'', JBool activate)] db1 of
                    Inl e \<Rightarrow> Inl e
                  | Inr db2 \<Rightarrow>
                     (case remember jsonb actor key ''storage_profile.create'' payload (profile_result row) db2 of
                        Inl e \<Rightarrow> Inl e | Inr db3 \<Rightarrow> Inr (profile_result row, db3)))))"

definition create_profile ::
  "(jobject \<Rightarrow> jobject) \<Rightarrow> call \<Rightarrow> uuid \<Rightarrow> string \<Rightarrow> storage_profile \<Rightarrow> bool \<Rightarrow> 'x storage_tables_scheme
   \<Rightarrow> (api_error + jobject) \<times> 'x storage_tables_scheme" where
  "create_profile jsonb c profile_id key p activate =
     guarded (require_tenant_access jsonb (rq_denial_id c) (rq_now c) (rq_principal c) (sp_tenant_id p) WriteAccess
                ''storage_profile.create'' ''storage_profile'' None)
       (\<lambda>db. case validate_profile p of
               Some e \<Rightarrow> Inl e
             | None \<Rightarrow> (case create_profile_command jsonb c profile_id key p activate db of
                   Inl e \<Rightarrow> Inl (alias_conflict e) | Inr r \<Rightarrow> Inr r))"

definition active_profile :: 
  "(jobject \<Rightarrow> jobject) \<Rightarrow> call \<Rightarrow> uuid \<Rightarrow> 'x storage_tables_scheme \<Rightarrow> (api_error + jobject) \<times> 'x storage_tables_scheme" where
  "active_profile jsonb c tenant_id =
     guarded (require_tenant_access jsonb (rq_denial_id c) (rq_now c) (rq_principal c) tenant_id ReadAccess
                ''storage_profile.get'' ''storage_profile'' None)
       (\<lambda>db. case active_profile_of tenant_id (st_profiles db) of
               None \<Rightarrow> Inl (HTTPException 404 ''active storage profile not found'')
             | Some r \<Rightarrow> Inr (profile_result r, db))"

subsection \<open>The resolver\<close>

definition blocked_target :: "uuid \<Rightarrow> uuid \<Rightarrow> migration_row list \<Rightarrow> bool" where
  "blocked_target tenant_id profile_id t \<longleftrightarrow>
     list_ex (\<lambda>m. mg_tenant_id m = tenant_id \<and> mg_target m = profile_id \<and> mg_state m \<notin> {OBSERVING, COMPLETED}) t"

definition resolve_row :: "uuid \<Rightarrow> 'x storage_tables_scheme \<Rightarrow> profile_row option" where
  "resolve_row tenant_id db =
     find (\<lambda>p. pf_tenant_id p = tenant_id \<and> pf_active p \<and> \<not> blocked_target tenant_id (pf_id p) (st_migrations db)) (st_profiles db)"

definition resolve :: "uuid \<Rightarrow> 'x storage_tables_scheme \<Rightarrow> storage_error + storage_profile option" where
  "resolve tenant_id db =
     (case resolve_row tenant_id db of
        None \<Rightarrow> Inr None
      | Some row \<Rightarrow>
         (case make_storage_profile (pf_profile row) of
            Inl e \<Rightarrow> Inl e
          | Inr p \<Rightarrow> (case storage_router p of Inl e \<Rightarrow> Inl e | Inr r \<Rightarrow> Inr (Some r))))"

subsection \<open>Migration routes\<close>

definition row_machine :: "migration_row \<Rightarrow> migration_error + migration_machine" where
  "row_machine r = new_machine (mg_source r) (mg_target r) (mg_state r)"

definition transition_error :: "migration_error \<Rightarrow> api_error" where
  "transition_error e = HTTPException 409 (case e of StorageMigrationError code \<Rightarrow> code | KeyError k \<Rightarrow> k)"

text \<open>The state an operation leads to from a row, or its error.\<close>

definition row_advance :: "migration_operation \<Rightarrow> validation_evidence option \<Rightarrow> migration_row \<Rightarrow> migration_error + migration_state" where
  "row_advance operation validation r =
     (case row_machine r of
        Inl e \<Rightarrow> Inl e
      | Inr m \<Rightarrow> (case advance operation validation m of Inl e \<Rightarrow> Inl e | Inr m' \<Rightarrow> Inr (mm_state m')))"

definition has_open_migration :: "uuid \<Rightarrow> migration_row list \<Rightarrow> bool" where
  "has_open_migration tenant_id t \<longleftrightarrow> list_ex (\<lambda>m. mg_tenant_id m = tenant_id \<and> mg_state m \<in> set open_states) t"

text \<open>The keys, the index of one open migration per tenant and the checks of \<open>tenant.storage_migration\<close>.\<close>

definition insert_migration_row :: "migration_row \<Rightarrow> 'x storage_tables_scheme \<Rightarrow> api_error + 'x storage_tables_scheme" where
  "insert_migration_row r db =
     (if has_key mg_key (mg_key r) (st_migrations db) \<or>
         (mg_state r \<in> set open_states \<and> has_open_migration (mg_tenant_id r) (st_migrations db)) \<or>
         mg_source r = mg_target r \<or> mg_requested_by r = [] \<or> 256 < length (mg_requested_by r) \<or>
         mg_observation_seconds r < 60 \<or> 86400 < mg_observation_seconds r
      then Inl (DatabaseError IntegrityError)
      else Inr (db\<lparr>st_migrations := st_migrations db @ [r]\<rparr>))"

definition update_migration ::
  "uuid \<Rightarrow> uuid \<Rightarrow> (migration_row \<Rightarrow> migration_row) \<Rightarrow> 'x storage_tables_scheme \<Rightarrow> 'x storage_tables_scheme" where
  "update_migration tenant_id migration_id f db =
     db\<lparr>st_migrations := update_where (\<lambda>r. mg_key r = (tenant_id, migration_id)) (\<lambda>r. f (r\<lparr>mg_version := mg_version r + 1\<rparr>)) (st_migrations db)\<rparr>"

definition set_profile_active ::
  "uuid \<Rightarrow> uuid \<Rightarrow> bool \<Rightarrow> timestamp \<Rightarrow> 'x storage_tables_scheme \<Rightarrow> api_error + 'x storage_tables_scheme" where
  "set_profile_active tenant_id profile_id active now db =
     (let updated = update_where (\<lambda>r. pf_key r = (tenant_id, profile_id))
            (\<lambda>r. r\<lparr>pf_active := active, pf_version := pf_version r + 1, pf_updated_at := now\<rparr>) (st_profiles db)
      in if 1 < length (filter (\<lambda>r. pf_tenant_id r = tenant_id \<and> pf_active r) updated)
         then Inl (DatabaseError IntegrityError) else Inr (db\<lparr>st_profiles := updated\<rparr>))"

definition audit_command ::
  "(jobject \<Rightarrow> jobject) \<Rightarrow> call \<Rightarrow> string \<Rightarrow> uuid \<Rightarrow> uuid \<Rightarrow> jobject \<Rightarrow> 'x storage_tables_scheme \<Rightarrow> api_error + 'x storage_tables_scheme" where
  "audit_command jsonb c action migration_id tenant_id details db =
     audited jsonb (rq_event_id c) (rq_now c) (Some (rq_principal c)) action ''ALLOW'' ''storage_migration'' migration_id tenant_id details db"

definition admin_route ::
  "(jobject \<Rightarrow> jobject) \<Rightarrow> call \<Rightarrow> uuid \<Rightarrow> string \<Rightarrow> string option \<Rightarrow>
   ('x storage_tables_scheme \<Rightarrow> api_error + 'x storage_tables_scheme) \<Rightarrow>
   'x storage_tables_scheme \<Rightarrow> (api_error + unit) \<times> 'x storage_tables_scheme" where
  "admin_route jsonb c tenant_id action target_id command =
     guarded (require_tenant_admin jsonb (rq_denial_id c) (rq_now c) (rq_principal c) tenant_id action ''storage_migration'' target_id)
       (\<lambda>db. case command db of Inl e \<Rightarrow> Inl e | Inr db' \<Rightarrow> Inr ((), db'))"

definition create_migration_command ::
  "(jobject \<Rightarrow> jobject) \<Rightarrow> call \<Rightarrow> uuid \<Rightarrow> uuid \<Rightarrow> uuid \<Rightarrow> int \<Rightarrow> 'x storage_tables_scheme \<Rightarrow> api_error + 'x storage_tables_scheme" where
  "create_migration_command jsonb c migration_id tenant_id target_profile_id observation_seconds db =
     (case (active_profile_of tenant_id (st_profiles db), row_of pf_key (tenant_id, target_profile_id) (st_profiles db)) of
        (Some source, Some target) \<Rightarrow>
          if pf_id source = target_profile_id \<or> pf_active target then Inl (HTTPException 409 ''STORAGE_MIGRATION_INVALID_PROFILES'')
          else (case insert_migration_row
                       \<lparr>mg_tenant_id = tenant_id, mg_id = migration_id, mg_source = pf_id source, mg_target = target_profile_id,
                        mg_state = PREPARED, mg_approval_status = St_pending, mg_requested_by = pr_subject (rq_principal c),
                        mg_approved_by = None, mg_rollback_status = St_none, mg_rollback_requested_by = None,
                        mg_rollback_approved_by = None, mg_validation = None, mg_observation_seconds = observation_seconds,
                        mg_observation_ends_at = None, mg_version = 1\<rparr> db of
                  Inl e \<Rightarrow> Inl e
                | Inr db1 \<Rightarrow> audit_command jsonb c ''storage_migration.request'' migration_id tenant_id
                    [(''source_profile_id'', JStr (pf_id source)), (''target_profile_id'', JStr target_profile_id)] db1)
      | _ \<Rightarrow> Inl (HTTPException 404 ''STORAGE_PROFILE_NOT_FOUND''))"

definition create_migration ::
  "(jobject \<Rightarrow> jobject) \<Rightarrow> call \<Rightarrow> uuid \<Rightarrow> uuid \<Rightarrow> uuid \<Rightarrow> int \<Rightarrow> 'x storage_tables_scheme \<Rightarrow> (api_error + unit) \<times> 'x storage_tables_scheme" where
  "create_migration jsonb c migration_id tenant_id target_profile_id observation_seconds =
     admin_route jsonb c tenant_id ''storage_migration.request'' None
       (create_migration_command jsonb c migration_id tenant_id target_profile_id observation_seconds)"

text \<open>The commands on one migration read its row under a lock first.\<close>

definition on_migration ::
  "uuid \<Rightarrow> uuid \<Rightarrow> (migration_row \<Rightarrow> 'x storage_tables_scheme \<Rightarrow> api_error + 'x storage_tables_scheme) \<Rightarrow>
   'x storage_tables_scheme \<Rightarrow> api_error + 'x storage_tables_scheme" where
  "on_migration tenant_id migration_id command db =
     (case row_of mg_key (tenant_id, migration_id) (st_migrations db) of
        None \<Rightarrow> Inl (HTTPException 404 ''STORAGE_MIGRATION_NOT_FOUND'')
      | Some row \<Rightarrow> command row db)"

definition approval_command ::
  "(jobject \<Rightarrow> jobject) \<Rightarrow> call \<Rightarrow> bool \<Rightarrow> migration_row \<Rightarrow> 'x storage_tables_scheme \<Rightarrow> api_error + 'x storage_tables_scheme" where
  "approval_command jsonb c approve row db =
     (let who = pr_subject (rq_principal c) in
      if mg_approval_status row \<noteq> St_pending then Inl (HTTPException 409 ''STORAGE_MIGRATION_APPROVAL_ALREADY_DECIDED'')
      else if who = mg_requested_by row then Inl (HTTPException 409 ''STORAGE_MIGRATION_SELF_APPROVAL_DENIED'')
      else let status = (if approve then St_approved else St_denied); state = (if approve then PREPARED else FAILED)
           in audit_command jsonb c ''storage_migration.approve'' (mg_id row) (mg_tenant_id row)
                [(''decision'', JStr (if approve then ''APPROVED'' else ''DENIED'')), (''state'', JStr (state_value state))]
                (update_migration (mg_tenant_id row) (mg_id row)
                   (\<lambda>r. r\<lparr>mg_state := state, mg_approval_status := status, mg_approved_by := Some who\<rparr>) db))"

definition start_command ::
  "(jobject \<Rightarrow> jobject) \<Rightarrow> call \<Rightarrow> migration_row \<Rightarrow> 'x storage_tables_scheme \<Rightarrow> api_error + 'x storage_tables_scheme" where
  "start_command jsonb c row db =
     (if mg_approval_status row \<noteq> St_approved then Inl (HTTPException 409 ''STORAGE_MIGRATION_APPROVAL_REQUIRED'')
      else case row_advance START_BACKFILL None row of
             Inl e \<Rightarrow> Inl (transition_error e)
           | Inr state \<Rightarrow> audit_command jsonb c ''storage_migration.start'' (mg_id row) (mg_tenant_id row)
               [(''state'', JStr (state_value state))]
               (update_migration (mg_tenant_id row) (mg_id row) (\<lambda>r. r\<lparr>mg_state := state\<rparr>) db))"

text \<open>The payload admits \<open>SWITCH\<close> and \<open>COMPLETE\<close> only.\<close>

definition advance_command ::
  "(jobject \<Rightarrow> jobject) \<Rightarrow> call \<Rightarrow> migration_operation \<Rightarrow> migration_row \<Rightarrow> 'x storage_tables_scheme \<Rightarrow> api_error + 'x storage_tables_scheme" where
  "advance_command jsonb c operation row db =
     (let t = mg_tenant_id row; now = rq_now c in
      if mg_approval_status row \<noteq> St_approved then Inl (HTTPException 409 ''STORAGE_MIGRATION_APPROVAL_REQUIRED'')
      else if operation = COMPLETE \<and> (case mg_observation_ends_at row of None \<Rightarrow> True | Some ends_at \<Rightarrow> now < ends_at)
      then Inl (HTTPException 409 ''STORAGE_MIGRATION_OBSERVATION_REQUIRED'')
      else case row_advance operation None row of
        Inl e \<Rightarrow> Inl (transition_error e)
      | Inr state \<Rightarrow>
         (let ends = (if operation = SWITCH then Some (now + seconds (mg_observation_seconds row)) else mg_observation_ends_at row) in
          case (if operation = SWITCH
                then case set_profile_active t (mg_source row) False now db of
                       Inl e \<Rightarrow> Inl e | Inr db1 \<Rightarrow> set_profile_active t (mg_target row) True now db1
                else Inr db) of
            Inl e \<Rightarrow> Inl e
          | Inr db2 \<Rightarrow>
              audit_command jsonb c ''storage_migration.advance'' (mg_id row) t
                [(''operation'', JStr (operation_value operation)), (''state'', JStr (state_value state))]
                (update_migration t (mg_id row)
                   (\<lambda>r. r\<lparr>mg_state := state, mg_validation := mg_validation row, mg_observation_ends_at := ends\<rparr>) db2)))"

datatype rollback_decision = Request | Approve | Deny

definition set_rollback :: "decision_status \<Rightarrow> string option \<Rightarrow> string option \<Rightarrow> migration_row \<Rightarrow> migration_row" where
  "set_rollback status requested_by approved_by r =
     r\<lparr>mg_rollback_status := status,
       mg_rollback_requested_by := (case requested_by of Some w \<Rightarrow> Some w | None \<Rightarrow> mg_rollback_requested_by r),
       mg_rollback_approved_by := approved_by\<rparr>"

definition rollback_approval_command ::
  "(jobject \<Rightarrow> jobject) \<Rightarrow> call \<Rightarrow> rollback_decision \<Rightarrow> migration_row \<Rightarrow> 'x storage_tables_scheme \<Rightarrow> api_error + 'x storage_tables_scheme" where
  "rollback_approval_command jsonb c decision row db =
     (let who = pr_subject (rq_principal c); current = mg_rollback_status row in
      if mg_state row \<noteq> OBSERVING then Inl (HTTPException 409 ''STORAGE_MIGRATION_ROLLBACK_UNAVAILABLE'')
      else case (if decision = Request
                 then if current \<noteq> St_none then Inl (HTTPException 409 ''STORAGE_MIGRATION_ROLLBACK_ALREADY_REQUESTED'')
                      else Inr (St_pending, Some who, None)
                 else if current \<noteq> St_pending \<or> Some who = mg_rollback_requested_by row
                      then Inl (HTTPException 409 ''STORAGE_MIGRATION_ROLLBACK_APPROVAL_DENIED'')
                      else Inr (if decision = Approve then St_approved else St_denied, None, Some who)) of
        Inl e \<Rightarrow> Inl e
      | Inr (status, requested_by, approved_by) \<Rightarrow>
          audit_command jsonb c ''storage_migration.rollback_approval'' (mg_id row) (mg_tenant_id row)
            [(''decision'', JStr (case decision of Request \<Rightarrow> ''REQUEST'' | Approve \<Rightarrow> ''APPROVE'' | Deny \<Rightarrow> ''DENY''))]
            (update_migration (mg_tenant_id row) (mg_id row) (set_rollback status requested_by approved_by) db))"

definition rollback_command ::
  "(jobject \<Rightarrow> jobject) \<Rightarrow> call \<Rightarrow> migration_row \<Rightarrow> 'x storage_tables_scheme \<Rightarrow> api_error + 'x storage_tables_scheme" where
  "rollback_command jsonb c row db =
     (if mg_rollback_status row \<noteq> St_approved then Inl (HTTPException 409 ''STORAGE_MIGRATION_ROLLBACK_APPROVAL_REQUIRED'')
      else case row_advance START_ROLLBACK None row of
             Inl e \<Rightarrow> Inl (transition_error e)
           | Inr state \<Rightarrow> audit_command jsonb c ''storage_migration.rollback'' (mg_id row) (mg_tenant_id row)
               [(''state'', JStr (state_value state)), (''fenced_profile_id'', JStr (mg_target row))]
               (update_migration (mg_tenant_id row) (mg_id row) (\<lambda>r. r\<lparr>mg_state := state\<rparr>) db))"

definition decide_migration_approval ::
  "(jobject \<Rightarrow> jobject) \<Rightarrow> call \<Rightarrow> uuid \<Rightarrow> uuid \<Rightarrow> bool \<Rightarrow> 'x storage_tables_scheme \<Rightarrow> (api_error + unit) \<times> 'x storage_tables_scheme" where
  "decide_migration_approval jsonb c tenant_id migration_id approve =
     admin_route jsonb c tenant_id ''storage_migration.approve'' (Some migration_id)
       (on_migration tenant_id migration_id (approval_command jsonb c approve))"

definition start_migration ::
  "(jobject \<Rightarrow> jobject) \<Rightarrow> call \<Rightarrow> uuid \<Rightarrow> uuid \<Rightarrow> 'x storage_tables_scheme \<Rightarrow> (api_error + unit) \<times> 'x storage_tables_scheme" where
  "start_migration jsonb c tenant_id migration_id =
     admin_route jsonb c tenant_id ''storage_migration.start'' (Some migration_id)
       (on_migration tenant_id migration_id (start_command jsonb c))"

definition advance_migration ::
  "(jobject \<Rightarrow> jobject) \<Rightarrow> call \<Rightarrow> uuid \<Rightarrow> uuid \<Rightarrow> migration_operation \<Rightarrow> 'x storage_tables_scheme \<Rightarrow> (api_error + unit) \<times> 'x storage_tables_scheme" where
  "advance_migration jsonb c tenant_id migration_id operation =
     admin_route jsonb c tenant_id ''storage_migration.advance'' (Some migration_id)
       (on_migration tenant_id migration_id (advance_command jsonb c operation))"

definition decide_rollback_approval ::
  "(jobject \<Rightarrow> jobject) \<Rightarrow> call \<Rightarrow> uuid \<Rightarrow> uuid \<Rightarrow> rollback_decision \<Rightarrow> 'x storage_tables_scheme \<Rightarrow> (api_error + unit) \<times> 'x storage_tables_scheme" where
  "decide_rollback_approval jsonb c tenant_id migration_id decision =
     admin_route jsonb c tenant_id ''storage_migration.rollback_approval'' (Some migration_id)
       (on_migration tenant_id migration_id (rollback_approval_command jsonb c decision))"

definition rollback_migration ::
  "(jobject \<Rightarrow> jobject) \<Rightarrow> call \<Rightarrow> uuid \<Rightarrow> uuid \<Rightarrow> 'x storage_tables_scheme \<Rightarrow> (api_error + unit) \<times> 'x storage_tables_scheme" where
  "rollback_migration jsonb c tenant_id migration_id =
     admin_route jsonb c tenant_id ''storage_migration.rollback'' (Some migration_id)
       (on_migration tenant_id migration_id (rollback_command jsonb c))"

subsection \<open>The worker\<close>

text \<open>
  A phase either ends (\<open>None\<close>) or raises; what it wrote before the exception stays in the transaction
  when the worker catches it.
\<close>

datatype phase_error = PhaseError migration_error | PhaseDatabase api_error

definition upsert_checkpoint ::
  "uuid \<Rightarrow> uuid \<Rightarrow> watermarks option \<Rightarrow> watermarks option \<Rightarrow> 'x storage_tables_scheme \<Rightarrow> 'x storage_tables_scheme" where
  "upsert_checkpoint tenant_id migration_id forward rollback db =
     (let merge = (\<lambda>new old. case new of Some w \<Rightarrow> w | None \<Rightarrow> old) in
      if has_key sc_key (tenant_id, migration_id) (st_checkpoints db)
      then db\<lparr>st_checkpoints := update_where (\<lambda>r. sc_key r = (tenant_id, migration_id))
             (\<lambda>r. r\<lparr>sc_forward := merge forward (sc_forward r), sc_rollback := merge rollback (sc_rollback r)\<rparr>) (st_checkpoints db)\<rparr>
      else db\<lparr>st_checkpoints := st_checkpoints db @
             [\<lparr>sc_tenant_id = tenant_id, sc_migration_id = migration_id, sc_forward = merge forward [], sc_rollback = merge rollback []\<rparr>]\<rparr>)"

definition set_evidence :: "migration_state \<Rightarrow> validation_evidence option \<Rightarrow> migration_row \<Rightarrow> migration_row" where
  "set_evidence state evidence r =
     r\<lparr>mg_state := state, mg_validation := (case evidence of Some e \<Rightarrow> Some e | None \<Rightarrow> mg_validation r)\<rparr>"

definition worker_advance ::
  "(jobject \<Rightarrow> jobject) \<Rightarrow> uuid \<Rightarrow> timestamp \<Rightarrow> migration_row \<Rightarrow> migration_operation \<Rightarrow> string \<Rightarrow> validation_evidence option
   \<Rightarrow> 'x storage_tables_scheme \<Rightarrow> phase_error option \<times> 'x storage_tables_scheme" where
  "worker_advance jsonb event_id now row operation action evidence db =
     (case row_advance operation (if operation \<in> {VALIDATE, ROLLBACK_VALIDATE} then evidence else None) row of
        Inl e \<Rightarrow> (Some (PhaseError e), db)
      | Inr state \<Rightarrow>
         (let db1 = update_migration (mg_tenant_id row) (mg_id row) (set_evidence state evidence) db in
          case audited jsonb event_id now None (''storage_migration.worker.'' @ action) ''ALLOW'' ''storage_migration'' (mg_id row)
                 (mg_tenant_id row) [(''state'', JStr (state_value state)), (''operation'', JStr (operation_value operation))] db1 of
            Inl e \<Rightarrow> (Some (PhaseDatabase e), db1)
          | Inr db2 \<Rightarrow> (None, db2)))"

text \<open>The copy phases of either direction: run the executor, record the watermarks, advance.\<close>

definition copy_phase ::
  "(jobject \<Rightarrow> jobject) \<Rightarrow> uuid \<Rightarrow> timestamp \<Rightarrow> migration_row \<Rightarrow> (migration_error + watermarks) \<times> adapters \<Rightarrow> bool \<Rightarrow>
   migration_operation \<Rightarrow> string \<Rightarrow> 'x storage_tables_scheme \<Rightarrow> phase_error option \<times> 'x storage_tables_scheme \<times> adapters" where
  "copy_phase jsonb event_id now row run is_rollback operation action db =
     (case run of
        (Inl e, h') \<Rightarrow> (Some (PhaseError e), db, h')
      | (Inr marks, h') \<Rightarrow>
         (let db1 = upsert_checkpoint (mg_tenant_id row) (mg_id row) (if is_rollback then None else Some marks)
                      (if is_rollback then Some marks else None) db in
          case worker_advance jsonb event_id now row operation action None db1 of (e, db2) \<Rightarrow> (e, db2, h')))"

definition execute_phase ::
  "(jobject \<Rightarrow> jobject) \<Rightarrow> adapter_factory \<Rightarrow> uuid \<Rightarrow> timestamp \<Rightarrow> migration_row \<Rightarrow> 'x storage_tables_scheme \<Rightarrow> adapters
   \<Rightarrow> phase_error option \<times> 'x storage_tables_scheme \<times> adapters" where
  "execute_phase jsonb factory event_id now row db h =
     (let t = mg_tenant_id row; source = mg_source row; target = mg_target row;
          checkpoint = row_of sc_key (t, mg_id row) (st_checkpoints db)
      in if mg_state row = BACKFILLING
         then copy_phase jsonb event_id now row (executor_backfill factory t source target h) False BACKFILL_COMPLETE ''backfill'' db
         else case checkpoint of
           None \<Rightarrow> (Some (PhaseError (StorageMigrationError ''STORAGE_MIGRATION_CHECKPOINT_MISSING'')), db, h)
         | Some cp \<Rightarrow>
             if mg_state row = CATCHING_UP
             then copy_phase jsonb event_id now row (executor_catch_up factory t source target (sc_forward cp) h) False
                    CATCH_UP_COMPLETE ''catch_up'' db
             else if mg_state row = VALIDATING
             then (case executor_validate factory t source target h of
                     Inl e \<Rightarrow> (Some (PhaseError e), db, h)
                   | Inr evidence \<Rightarrow>
                       if \<not> is_valid evidence then (Some (PhaseError (StorageMigrationError ''STORAGE_MIGRATION_VALIDATION_FAILED'')), db, h)
                       else case worker_advance jsonb event_id now row VALIDATE ''validate'' (Some evidence) db of (e, db1) \<Rightarrow> (e, db1, h))
             else if mg_state row = ROLLING_BACK
             then copy_phase jsonb event_id now row (executor_backfill factory t target source h) True
                    ROLLBACK_BACKFILL_COMPLETE ''rollback_backfill'' db
             else if mg_state row = ROLLBACK_CATCHING_UP
             then copy_phase jsonb event_id now row (executor_catch_up factory t target source (sc_rollback cp) h) True
                    ROLLBACK_CATCH_UP_COMPLETE ''rollback_catch_up'' db
             else (case executor_validate factory t target source h of
                     Inl e \<Rightarrow> (Some (PhaseError e), db, h)
                   | Inr evidence \<Rightarrow>
                       if \<not> is_valid evidence
                       then (Some (PhaseError (StorageMigrationError ''STORAGE_MIGRATION_ROLLBACK_VALIDATION_FAILED'')), db, h)
                       else case set_profile_active t target False now db of
                         Inl e \<Rightarrow> (Some (PhaseDatabase e), db, h)
                       | Inr db1 \<Rightarrow>
                          (case set_profile_active t source True now db1 of
                             Inl e \<Rightarrow> (Some (PhaseDatabase e), db1, h)
                           | Inr db2 \<Rightarrow>
                              (case worker_advance jsonb event_id now row ROLLBACK_VALIDATE ''rollback_switch'' (Some evidence) db2 of
                                 (e, db3) \<Rightarrow> (e, db3, h)))))"

definition rollback_states :: "migration_state list" where
  "rollback_states = [ROLLING_BACK, ROLLBACK_CATCHING_UP, ROLLBACK_VALIDATING]"

definition record_failure ::
  "(jobject \<Rightarrow> jobject) \<Rightarrow> uuid \<Rightarrow> timestamp \<Rightarrow> migration_row \<Rightarrow> string \<Rightarrow> 'x storage_tables_scheme \<Rightarrow> api_error + 'x storage_tables_scheme" where
  "record_failure jsonb event_id now row code db =
     (let in_rollback = mg_state row \<in> set rollback_states;
          outcome = (if in_rollback then ''RETRY_REQUIRED'' else ''FAILED'');
          db1 = (if in_rollback then db
                 else update_migration (mg_tenant_id row) (mg_id row) (\<lambda>r. r\<lparr>mg_state := FAILED\<rparr>) db)
      in audited jsonb event_id now None ''storage_migration.worker.failure'' ''DENY'' ''storage_migration'' (mg_id row)
           (mg_tenant_id row) [(''error'', JStr code), (''outcome'', JStr outcome)] db1)"

definition worker_states :: "migration_state list" where
  "worker_states = [BACKFILLING, CATCHING_UP, VALIDATING, ROLLING_BACK, ROLLBACK_CATCHING_UP, ROLLBACK_VALIDATING]"

text \<open>
  One call of the worker: the oldest migration of the tenant in a data phase. An exception other
  than a \<open>StorageMigrationError\<close> leaves the transaction, which rolls back; the adapters keep what
  was written to them.
\<close>

definition run_once ::
  "(jobject \<Rightarrow> jobject) \<Rightarrow> adapter_factory \<Rightarrow> uuid \<Rightarrow> timestamp \<Rightarrow> uuid \<Rightarrow> 'x storage_tables_scheme \<Rightarrow> adapters
   \<Rightarrow> (phase_error + bool) \<times> 'x storage_tables_scheme \<times> adapters" where
  "run_once jsonb factory event_id now tenant_id db h =
     (case find (\<lambda>r. mg_tenant_id r = tenant_id \<and> mg_state r \<in> set worker_states) (st_migrations db) of
        None \<Rightarrow> (Inr False, db, h)
      | Some row \<Rightarrow>
         (case execute_phase jsonb factory event_id now row db h of
            (None, db1, h1) \<Rightarrow> (Inr True, db1, h1)
          | (Some (PhaseError (StorageMigrationError code)), db1, h1) \<Rightarrow>
             (case record_failure jsonb event_id now row code db1 of
                Inl e \<Rightarrow> (Inl (PhaseDatabase e), db, h1)
              | Inr db2 \<Rightarrow> (Inr True, db2, h1))
          | (Some e, db1, h1) \<Rightarrow> (Inl e, db, h1)))"

end
