(* ===== verification/Storage_Safety.thy ===== *)
theory Storage_Safety
  imports Storage_Control
begin

text \<open>
  Safety of the migration control plane: the invariant of the Storage Profile and migration tables
  under every route and every call of the worker, and what follows for the profile a worker may
  write to. The adapters are arbitrary at every call of the worker, so the results hold whatever
  the data plane does between two calls.
\<close>

subsection \<open>The invariant\<close>

definition is_active :: "profile_row list \<Rightarrow> uuid \<Rightarrow> uuid \<Rightarrow> bool" where
  "is_active ps t i \<longleftrightarrow> (\<exists>r \<in> set ps. pf_key r = (t, i) \<and> pf_active r)"

definition before_switch :: "migration_state list" where
  "before_switch = [PREPARED, BACKFILLING, CATCHING_UP, VALIDATING, READY_TO_SWITCH]"

definition after_switch :: "migration_state list" where
  "after_switch = [OBSERVING, ROLLING_BACK, ROLLBACK_CATCHING_UP, ROLLBACK_VALIDATING]"

lemma open_split: "s \<in> set open_states \<longleftrightarrow> s \<in> set before_switch \<or> s \<in> set after_switch"
  by (auto simp: open_states_def before_switch_def after_switch_def)

definition profiles_inv :: "profile_row list \<Rightarrow> bool" where
  "profiles_inv ps \<longleftrightarrow> unique_key pf_key ps \<and>
     (\<forall>p \<in> set ps. \<forall>q \<in> set ps. pf_active p \<and> pf_active q \<and> pf_tenant_id p = pf_tenant_id q \<longrightarrow> p = q)"

text \<open>What one migration row promises, given the profiles.\<close>

definition switch_inv :: "profile_row list \<Rightarrow> migration_row \<Rightarrow> bool" where
  "switch_inv ps m \<longleftrightarrow> mg_source m \<noteq> mg_target m \<and>
     has_key pf_key (mg_tenant_id m, mg_source m) ps \<and> has_key pf_key (mg_tenant_id m, mg_target m) ps \<and>
     (mg_state m \<in> set before_switch \<longrightarrow> is_active ps (mg_tenant_id m) (mg_source m)) \<and>
     (mg_state m \<in> set after_switch \<longrightarrow> is_active ps (mg_tenant_id m) (mg_target m))"

definition decision_inv :: "migration_row \<Rightarrow> bool" where
  "decision_inv m \<longleftrightarrow>
     (mg_approval_status m = St_pending \<longrightarrow> mg_state m = PREPARED) \<and>
     (mg_approval_status m \<noteq> St_approved \<longrightarrow> mg_state m \<in> {PREPARED, FAILED}) \<and>
     (mg_approval_status m = St_approved \<longrightarrow> (\<exists>a. mg_approved_by m = Some a \<and> a \<noteq> mg_requested_by m)) \<and>
     (mg_rollback_status m \<in> {St_pending, St_approved} \<longrightarrow> mg_rollback_requested_by m \<noteq> None) \<and>
     (mg_rollback_status m = St_approved \<longrightarrow>
        mg_rollback_approved_by m \<noteq> None \<and> mg_rollback_approved_by m \<noteq> mg_rollback_requested_by m) \<and>
     (mg_state m \<in> {ROLLING_BACK, ROLLBACK_CATCHING_UP, ROLLBACK_VALIDATING, ROLLED_BACK} \<longrightarrow> mg_rollback_status m = St_approved)"

definition evidence_inv :: "migration_row \<Rightarrow> bool" where
  "evidence_inv m \<longleftrightarrow>
     (mg_state m \<in> {READY_TO_SWITCH, COMPLETED, ROLLED_BACK} \<or> mg_state m \<in> set after_switch \<longrightarrow>
        (\<exists>e. mg_validation m = Some e \<and> is_valid e))"

definition row_inv :: "profile_row list \<Rightarrow> migration_row \<Rightarrow> bool" where
  "row_inv ps m \<longleftrightarrow> switch_inv ps m \<and> decision_inv m \<and> evidence_inv m"

definition migrations_inv :: "profile_row list \<Rightarrow> migration_row list \<Rightarrow> bool" where
  "migrations_inv ps ms \<longleftrightarrow> unique_key mg_key ms \<and>
     (\<forall>m \<in> set ms. \<forall>n \<in> set ms. mg_state m \<in> set open_states \<and> mg_state n \<in> set open_states \<and>
        mg_tenant_id m = mg_tenant_id n \<longrightarrow> m = n) \<and>
     (\<forall>m \<in> set ms. row_inv ps m)"

definition control_inv :: "'x storage_tables_scheme \<Rightarrow> bool" where
  "control_inv db \<longleftrightarrow> profiles_inv (st_profiles db) \<and> migrations_inv (st_profiles db) (st_migrations db)"

text \<open>A step keeps the invariant and leaves every closed migration as it is.\<close>

definition step_ok :: "'x storage_tables_scheme \<Rightarrow> 'x storage_tables_scheme \<Rightarrow> bool" where
  "step_ok db db' \<longleftrightarrow> control_inv db' \<and>
     (\<forall>m \<in> set (st_migrations db). mg_state m \<notin> set open_states \<longrightarrow> m \<in> set (st_migrations db'))"

subsection \<open>Changing one row\<close>

definition bumped :: "migration_row \<Rightarrow> migration_row" where
  "bumped r = r\<lparr>mg_version := mg_version r + 1\<rparr>"

lemma bumped_simps [simp]:
  "mg_tenant_id (bumped r) = mg_tenant_id r" "mg_id (bumped r) = mg_id r" "mg_source (bumped r) = mg_source r"
  "mg_target (bumped r) = mg_target r" "mg_state (bumped r) = mg_state r" "mg_approval_status (bumped r) = mg_approval_status r"
  "mg_requested_by (bumped r) = mg_requested_by r" "mg_approved_by (bumped r) = mg_approved_by r"
  "mg_rollback_status (bumped r) = mg_rollback_status r" "mg_rollback_requested_by (bumped r) = mg_rollback_requested_by r"
  "mg_rollback_approved_by (bumped r) = mg_rollback_approved_by r" "mg_validation (bumped r) = mg_validation r"
  "mg_observation_ends_at (bumped r) = mg_observation_ends_at r"
  by (simp_all add: bumped_def)

lemma update_migration_tables:
  "st_migrations (update_migration t i f db) = update_where (\<lambda>r. mg_key r = (t, i)) (\<lambda>r. f (bumped r)) (st_migrations db)"
  "st_profiles (update_migration t i f db) = st_profiles db"
  "st_claims (update_migration t i f db) = st_claims db"
  by (simp_all add: update_migration_def bumped_def)

lemma in_updated_row:
  assumes "unique_key mg_key ms" "row_of mg_key k ms = Some row" "m \<in> set (update_where (\<lambda>r. mg_key r = k) g ms)"
  shows "m = g row \<or> m \<in> set ms \<and> mg_key m \<noteq> k"
proof -
  obtain q where q: "q \<in> set ms" "m = (if mg_key q = k then g q else q)" using assms(3) by (rule in_update_whereE)
  have "q = row" if "mg_key q = k" using row_of_unique [OF assms(1) q(1)] assms(2) that by simp
  then show ?thesis using q by auto
qed

lemma migrations_inv_update:
  assumes inv: "migrations_inv ps ms" and row: "row_of mg_key k ms = Some row"
    and key: "\<And>r. mg_key (g r) = mg_key r"
    and op: "mg_state (g row) \<in> set open_states \<longrightarrow> mg_state row \<in> set open_states"
    and others: "\<And>m. m \<in> set ms \<Longrightarrow> mg_key m \<noteq> k \<Longrightarrow> row_inv ps' m"
    and this_row: "row_inv ps' (g row)"
  shows "migrations_inv ps' (update_where (\<lambda>r. mg_key r = k) g ms)"
  unfolding migrations_inv_def
proof (intro conjI ballI impI)
  have u: "unique_key mg_key ms" using inv by (simp add: migrations_inv_def)
  note in_row = in_updated_row [OF u row]
  have rk: "row \<in> set ms" "mg_key row = k" using row_of_SomeD [OF row] by auto
  have gt: "mg_tenant_id (g row) = mg_tenant_id row" using key [of row] by (simp add: mg_key_def)
  have one: "m = n" if "m \<in> set ms" "n \<in> set ms" "mg_state m \<in> set open_states" "mg_state n \<in> set open_states"
    "mg_tenant_id m = mg_tenant_id n" for m n using inv that by (simp add: migrations_inv_def)
  show "unique_key mg_key (update_where (\<lambda>r. mg_key r = k) g ms)" using u key by (simp add: unique_key_update_where)
  fix m assume m: "m \<in> set (update_where (\<lambda>r. mg_key r = k) g ms)"
  show "row_inv ps' m" using in_row [OF m] others this_row by blast
  fix n assume n: "n \<in> set (update_where (\<lambda>r. mg_key r = k) g ms)"
    and o: "mg_state m \<in> set open_states \<and> mg_state n \<in> set open_states \<and> mg_tenant_id m = mg_tenant_id n"
  show "m = n"
    using in_row [OF m] in_row [OF n] o one rk op gt by metis
qed

lemma closed_kept:
  assumes "row_of mg_key k ms = Some row" "unique_key mg_key ms" "mg_state row \<in> set open_states" "m \<in> set ms" "mg_state m \<notin> set open_states"
  shows "m \<in> set (update_where (\<lambda>r. mg_key r = k) g ms)"
proof -
  have u: "row_of mg_key (mg_key m) ms = Some m" by (rule row_of_unique [OF assms(2,4)])
  have n: "mg_key m \<noteq> k" using u assms(1,3,5) by (metis option.inject)
  show ?thesis unfolding update_where_def set_map by (rule image_eqI [OF _ assms(4)]) (simp add: n)
qed

lemma control_inv_update:
  assumes inv: "control_inv db" and row: "row_of mg_key (t, i) (st_migrations db) = Some row"
    and key: "\<And>r. mg_key (f r) = mg_key r"
    and op: "mg_state row \<in> set open_states"
    and this_row: "row_inv (st_profiles db) (f (bumped row))"
  shows "step_ok db (update_migration t i f db)"
proof -
  have "migrations_inv (st_profiles db) (update_where (\<lambda>r. mg_key r = (t, i)) (\<lambda>r. f (bumped r)) (st_migrations db))"
  proof (rule migrations_inv_update [OF _ row])
    show "mg_key (f (bumped r)) = mg_key r" for r using key [of "bumped r"] by (simp add: mg_key_def)
  qed (use inv op this_row in \<open>auto simp: control_inv_def migrations_inv_def\<close>)
  moreover have "unique_key mg_key (st_migrations db)" using inv by (simp add: control_inv_def migrations_inv_def)
  ultimately show ?thesis using inv closed_kept [OF row _ op] by (simp add: step_ok_def control_inv_def update_migration_tables)
qed

lemma row_inv_of: "control_inv db \<Longrightarrow> row_of mg_key k (st_migrations db) = Some row \<Longrightarrow> row_inv (st_profiles db) row \<and> mg_key row = k \<and> row \<in> set (st_migrations db)"
  using row_of_SomeD by (fastforce simp: control_inv_def migrations_inv_def)

subsection \<open>Moving the active profile\<close>

lemma pf_key_active [simp]:
  "pf_key (r\<lparr>pf_active := a, pf_version := v, pf_updated_at := u\<rparr>) = pf_key r"
  "pf_tenant_id (r\<lparr>pf_active := a, pf_version := v, pf_updated_at := u\<rparr>) = pf_tenant_id r"
  by (simp_all add: pf_key_def pf_tenant_id_def)

lemma set_profile_active_Inr:
  assumes "set_profile_active t i a now db = Inr db'"
  shows "st_profiles db' = update_where (\<lambda>r. pf_key r = (t, i)) (\<lambda>r. r\<lparr>pf_active := a, pf_version := pf_version r + 1, pf_updated_at := now\<rparr>) (st_profiles db)"
    "st_migrations db' = st_migrations db" "st_claims db' = st_claims db"
  using assms by (auto simp: set_profile_active_def Let_def split: if_splits)

text \<open>Deactivating \<open>i\<close> and activating \<open>j\<close>.\<close>

definition moved :: "uuid \<Rightarrow> uuid \<Rightarrow> uuid \<Rightarrow> profile_row list \<Rightarrow> profile_row list \<Rightarrow> bool" where
  "moved t i j ps ps' \<longleftrightarrow> map pf_key ps' = map pf_key ps \<and> map pf_profile ps' = map pf_profile ps \<and>
     (\<forall>n < length ps. pf_active (ps' ! n) =
        (if pf_key (ps ! n) = (t, j) then True else if pf_key (ps ! n) = (t, i) then False else pf_active (ps ! n)))"

lemma move_active:
  assumes "set_profile_active t i False now db = Inr db1" "set_profile_active t j True now db1 = Inr db2"
  shows "moved t i j (st_profiles db) (st_profiles db2)" "st_migrations db2 = st_migrations db" "st_claims db2 = st_claims db"
proof -
  note 1 = set_profile_active_Inr [OF assms(1)] and 2 = set_profile_active_Inr [OF assms(2)]
  show "st_migrations db2 = st_migrations db" "st_claims db2 = st_claims db" using 1 2 by simp_all
  show "moved t i j (st_profiles db) (st_profiles db2)"
    unfolding moved_def 1(1) 2(1) by (auto simp: update_where_def comp_def)
qed

lemma moved_member:
  assumes "moved t i j ps ps'" "r' \<in> set ps'"
  obtains r where "r \<in> set ps" "pf_key r' = pf_key r"
    "pf_active r' = (if pf_key r = (t, j) then True else if pf_key r = (t, i) then False else pf_active r)"
proof -
  obtain n where n: "n < length ps'" "r' = ps' ! n" using assms(2) by (auto simp: in_set_conv_nth)
  have len: "length ps' = length ps" using assms(1) by (auto simp: moved_def dest: map_eq_imp_length_eq)
  have "pf_key (ps' ! n) = pf_key (ps ! n)"
    using assms(1) n(1) len by (metis moved_def nth_map)
  then show thesis using that [of "ps ! n"] assms(1) n len by (auto simp: moved_def)
qed

lemma moved_sym_member:
  assumes "moved t i j ps ps'" "r \<in> set ps"
  obtains r' where "r' \<in> set ps'" "pf_key r' = pf_key r"
    "pf_active r' = (if pf_key r = (t, j) then True else if pf_key r = (t, i) then False else pf_active r)"
proof -
  obtain n where n: "n < length ps" "r = ps ! n" using assms(2) by (auto simp: in_set_conv_nth)
  have len: "length ps' = length ps" using assms(1) by (auto simp: moved_def dest: map_eq_imp_length_eq)
  have "pf_key (ps' ! n) = pf_key (ps ! n)" using assms(1) n(1) len by (metis moved_def nth_map)
  moreover have "pf_active (ps' ! n) = (if pf_key (ps ! n) = (t, j) then True else if pf_key (ps ! n) = (t, i) then False else pf_active (ps ! n))"
    using assms(1) n(1) by (simp add: moved_def)
  moreover have "ps' ! n \<in> set ps'" using n(1) len by simp
  ultimately show thesis using that [of "ps' ! n"] n(2) by simp
qed

lemma moved_has_key: "moved t i j ps ps' \<Longrightarrow> has_key pf_key k ps' = has_key pf_key k ps"
  by (simp add: moved_def has_key_def del: set_map)

lemma only_active:
  assumes "profiles_inv ps" "is_active ps t i" "r \<in> set ps" "pf_active r" "pf_tenant_id r = t"
  shows "pf_key r = (t, i)"
  using assms by (auto simp: profiles_inv_def is_active_def pf_key_def)

lemma moved_profiles_inv:
  assumes m: "moved t i j ps ps'" and inv: "profiles_inv ps" and act: "is_active ps t i"
  shows "profiles_inv ps'"
  unfolding profiles_inv_def
proof (intro conjI ballI impI)
  show u: "unique_key pf_key ps'" using m inv by (simp add: moved_def profiles_inv_def unique_key_def)
  have same: "p = q" if "p \<in> set ps'" "q \<in> set ps'" "pf_key p = pf_key q" for p q
    using row_of_unique [OF u] that by (metis option.inject)
  fix p q assume pq: "p \<in> set ps'" "q \<in> set ps'" and a: "pf_active p \<and> pf_active q \<and> pf_tenant_id p = pf_tenant_id q"
  obtain p0 where p0: "p0 \<in> set ps" "pf_key p = pf_key p0"
    "pf_active p = (if pf_key p0 = (t, j) then True else if pf_key p0 = (t, i) then False else pf_active p0)"
    by (rule moved_member [OF m pq(1)])
  obtain q0 where q0: "q0 \<in> set ps" "pf_key q = pf_key q0"
    "pf_active q = (if pf_key q0 = (t, j) then True else if pf_key q0 = (t, i) then False else pf_active q0)"
    by (rule moved_member [OF m pq(2)])
  have ten: "pf_tenant_id p = pf_tenant_id p0" "pf_tenant_id q = pf_tenant_id q0" using p0(2) q0(2) by (simp_all add: pf_key_def)
  show "p = q"
  proof (cases "pf_tenant_id p = t")
    case True
    have tp: "pf_tenant_id p0 = t" "pf_tenant_id q0 = t" using True ten a by simp_all
    have "pf_key p0 = (t, j)" using only_active [OF inv act p0(1) _ tp(1)] p0(3) a by metis
    moreover have "pf_key q0 = (t, j)" using only_active [OF inv act q0(1) _ tp(2)] q0(3) a by metis
    ultimately have "pf_key p = pf_key q" using p0(2) q0(2) by simp
    then show ?thesis by (rule same [OF pq])
  next
    case False
    then have "pf_tenant_id p0 \<noteq> t" "pf_tenant_id q0 \<noteq> t" using a ten by simp_all
    then have "pf_key p0 \<noteq> (t, k)" "pf_key q0 \<noteq> (t, k)" for k by (simp_all add: pf_key_def)
    then have "pf_active p0 \<and> pf_active q0 \<and> pf_tenant_id p0 = pf_tenant_id q0" using a p0(3) q0(3) ten by simp
    then have "p0 = q0" using inv p0(1) q0(1) unfolding profiles_inv_def by blast
    then have "pf_key p = pf_key q" using p0(2) q0(2) by simp
    then show ?thesis by (rule same [OF pq])
  qed
qed

lemma moved_is_active: "moved t i j ps ps' \<Longrightarrow> has_key pf_key (t, j) ps \<Longrightarrow> is_active ps' t j"
  by (force simp: is_active_def has_key_def elim!: moved_sym_member)

lemma moved_other_tenant:
  assumes "moved t i j ps ps'" "is_active ps t' k" "t' \<noteq> t"
  shows "is_active ps' t' k"
proof -
  obtain r where r: "r \<in> set ps" "pf_key r = (t', k)" "pf_active r" using assms(2) by (auto simp: is_active_def)
  obtain r' where "r' \<in> set ps'" "pf_key r' = pf_key r"
    "pf_active r' = (if pf_key r = (t, j) then True else if pf_key r = (t, i) then False else pf_active r)"
    by (rule moved_sym_member [OF assms(1) r(1)])
  then show ?thesis using r assms(3) by (auto simp: is_active_def)
qed

text \<open>The open migration's switch, in either direction: the other rows of the tenant are closed.\<close>

lemma control_inv_switch:
  assumes inv: "control_inv db" and row: "row_of mg_key (t, i) (st_migrations db) = Some row"
    and mv: "moved t x y (st_profiles db) (st_profiles db1)" "st_migrations db1 = st_migrations db"
    and act: "is_active (st_profiles db) t x" and y: "has_key pf_key (t, y) (st_profiles db)"
    and key: "\<And>r. mg_key (f r) = mg_key r"
    and op: "mg_state row \<in> set open_states"
    and this_row: "is_active (st_profiles db1) t y \<Longrightarrow> row_inv (st_profiles db1) (f (bumped row))"
  shows "step_ok db (update_migration t i f db1)"
proof -
  have pi: "profiles_inv (st_profiles db)" and mi: "migrations_inv (st_profiles db) (st_migrations db)"
    using inv by (simp_all add: control_inv_def)
  have rk: "row \<in> set (st_migrations db)" "mg_tenant_id row = t" "mg_key row = (t, i)"
    using row_of_SomeD [OF row] by (auto simp: mg_key_def)
  have others: "row_inv (st_profiles db1) m" if "m \<in> set (st_migrations db)" "mg_key m \<noteq> (t, i)" for m
  proof -
    have "mg_state m \<notin> set open_states" if "mg_tenant_id m = t"
      using mi rk op \<open>m \<in> _\<close> \<open>mg_key m \<noteq> _\<close> that by (auto simp: migrations_inv_def)
    moreover have "row_inv (st_profiles db) m" using mi that by (simp add: migrations_inv_def)
    ultimately show ?thesis using moved_has_key [OF mv(1)] moved_other_tenant [OF mv(1)]
      by (auto simp: row_inv_def switch_inv_def open_split)
  qed
  have "migrations_inv (st_profiles db1) (update_where (\<lambda>r. mg_key r = (t, i)) (\<lambda>r. f (bumped r)) (st_migrations db))"
  proof (rule migrations_inv_update [OF mi row])
    show "mg_key (f (bumped r)) = mg_key r" for r using key [of "bumped r"] by (simp add: mg_key_def)
  qed (use op others this_row moved_is_active [OF mv(1) y] in auto)
  moreover have "unique_key mg_key (st_migrations db)" using mi by (simp add: migrations_inv_def)
  ultimately show ?thesis using moved_profiles_inv [OF mv(1) pi act] closed_kept [OF row _ op]
    by (simp add: step_ok_def control_inv_def update_migration_tables mv(2))
qed

subsection \<open>What a transition from a row means\<close>

lemma row_advance_Inr:
  assumes "row_advance x v r = Inr s" "x \<noteq> FAIL"
  shows "map_of TRANSITIONS (mg_state r, x) = Some s"
  using assms by (auto simp: row_advance_def row_machine_def new_machine_def advance_def split: if_splits sum.splits option.splits)

lemma row_advance_cases:
  "row_advance START_BACKFILL v r = Inr s \<Longrightarrow> mg_state r = PREPARED \<and> s = BACKFILLING"
  "row_advance SWITCH v r = Inr s \<Longrightarrow> mg_state r = READY_TO_SWITCH \<and> s = OBSERVING"
  "row_advance COMPLETE v r = Inr s \<Longrightarrow> mg_state r = OBSERVING \<and> s = COMPLETED"
  "row_advance START_ROLLBACK v r = Inr s \<Longrightarrow> mg_state r = OBSERVING \<and> s = ROLLING_BACK"
  "row_advance BACKFILL_COMPLETE v r = Inr s \<Longrightarrow> mg_state r = BACKFILLING \<and> s = CATCHING_UP"
  "row_advance CATCH_UP_COMPLETE v r = Inr s \<Longrightarrow> mg_state r = CATCHING_UP \<and> s = VALIDATING"
  "row_advance VALIDATE v r = Inr s \<Longrightarrow> mg_state r = VALIDATING \<and> s = READY_TO_SWITCH"
  "row_advance ROLLBACK_BACKFILL_COMPLETE v r = Inr s \<Longrightarrow> mg_state r = ROLLING_BACK \<and> s = ROLLBACK_CATCHING_UP"
  "row_advance ROLLBACK_CATCH_UP_COMPLETE v r = Inr s \<Longrightarrow> mg_state r = ROLLBACK_CATCHING_UP \<and> s = ROLLBACK_VALIDATING"
  "row_advance ROLLBACK_VALIDATE v r = Inr s \<Longrightarrow> mg_state r = ROLLBACK_VALIDATING \<and> s = ROLLED_BACK"
  by (drule row_advance_Inr; simp add: TRANSITIONS_def split: if_splits)+

lemma audit_command_tables:
  assumes "audit_command jsonb c a i t d db = Inr db'"
  shows "st_profiles db' = st_profiles db" "st_migrations db' = st_migrations db" "st_claims db' = st_claims db"
    "st_checkpoints db' = st_checkpoints db"
  using assms by (auto simp: audit_command_def audited_def split: sum.splits)

lemma audited_tables:
  assumes "audited jsonb i now who a d tt ti t det db = Inr db'"
  shows "st_profiles db' = st_profiles db" "st_migrations db' = st_migrations db" "st_claims db' = st_claims db"
    "st_checkpoints db' = st_checkpoints db"
  using assms by (auto simp: audited_def split: sum.splits)

lemma step_ok_cong: "st_profiles db' = st_profiles db1 \<Longrightarrow> st_migrations db' = st_migrations db1 \<Longrightarrow> step_ok db db1 \<Longrightarrow> step_ok db db'"
  by (simp add: step_ok_def control_inv_def)

lemma step_ok_refl: "control_inv db \<Longrightarrow> step_ok db db"
  by (simp add: step_ok_def)

subsection \<open>Every command keeps the invariant\<close>

lemmas row_inv_defs = row_inv_def switch_inv_def decision_inv_def evidence_inv_def before_switch_def after_switch_def

lemma audit_command_ok: "audit_command jsonb c a i t d db1 = Inr db' \<Longrightarrow> step_ok db db1 \<Longrightarrow> step_ok db db'"
  using audit_command_tables step_ok_cong by metis

lemma on_migration_inv:
  assumes "on_migration t i command db = Inr db'" "control_inv db"
    and "\<And>row. row_of mg_key (t, i) (st_migrations db) = Some row \<Longrightarrow> mg_tenant_id row = t \<Longrightarrow> mg_id row = i \<Longrightarrow>
           row_inv (st_profiles db) row \<Longrightarrow> command row db = Inr db' \<Longrightarrow> step_ok db db'"
  shows "step_ok db db'"
proof -
  obtain row where r: "row_of mg_key (t, i) (st_migrations db) = Some row" "command row db = Inr db'"
    using assms(1) by (auto simp: on_migration_def split: option.splits)
  then show ?thesis using assms(3) row_inv_of [OF assms(2) r(1)] by (auto simp: mg_key_def)
qed

lemma approval_inv:
  assumes "on_migration t i (approval_command jsonb c approve) db = Inr db'" "control_inv db"
  shows "step_ok db db'"
proof (rule on_migration_inv [OF assms])
  fix row assume row: "row_of mg_key (t, i) (st_migrations db) = Some row" "mg_tenant_id row = t" "mg_id row = i"
    and ri: "row_inv (st_profiles db) row" and c: "approval_command jsonb c approve row db = Inr db'"
  let ?f = "\<lambda>r. r\<lparr>mg_state := if approve then PREPARED else FAILED, mg_approval_status := if approve then St_approved else St_denied,
    mg_approved_by := Some (pr_subject (rq_principal c))\<rparr>"
  have p: "mg_approval_status row = St_pending" "pr_subject (rq_principal c) \<noteq> mg_requested_by row"
    and a: "\<exists>d. audit_command jsonb c ''storage_migration.approve'' i t d (update_migration t i ?f db) = Inr db'"
    using c row by (auto simp: approval_command_def Let_def split: if_splits)
  have st: "mg_state row = PREPARED" using ri p(1) by (simp add: row_inv_defs)
  have "step_ok db (update_migration t i ?f db)"
  proof (rule control_inv_update [OF assms(2) row(1)])
    show "row_inv (st_profiles db) (?f (bumped row))" using ri p st by (auto simp: row_inv_defs)
  qed (auto simp: mg_key_def st open_states_def)
  then show "step_ok db db'" using a audit_command_ok by blast
qed

lemma start_inv:
  assumes "on_migration t i (start_command jsonb c) db = Inr db'" "control_inv db"
  shows "step_ok db db'"
proof (rule on_migration_inv [OF assms])
  fix row assume row: "row_of mg_key (t, i) (st_migrations db) = Some row" "mg_tenant_id row = t" "mg_id row = i"
    and ri: "row_inv (st_profiles db) row" and c: "start_command jsonb c row db = Inr db'"
  obtain s where s: "mg_approval_status row = St_approved" "row_advance START_BACKFILL None row = Inr s"
    and a: "\<exists>d. audit_command jsonb c ''storage_migration.start'' i t d (update_migration t i (\<lambda>r. r\<lparr>mg_state := s\<rparr>) db) = Inr db'"
    using c row by (auto simp: start_command_def split: if_splits sum.splits)
  note st = row_advance_cases(1) [OF s(2)]
  have "step_ok db (update_migration t i (\<lambda>r. r\<lparr>mg_state := s\<rparr>) db)"
  proof (rule control_inv_update [OF assms(2) row(1)])
    show "row_inv (st_profiles db) (bumped row\<lparr>mg_state := s\<rparr>)" using ri s(1) st by (auto simp: row_inv_defs)
  qed (auto simp: mg_key_def st open_states_def)
  then show "step_ok db db'" using a audit_command_ok by blast
qed

lemma rollback_inv:
  assumes "on_migration t i (rollback_command jsonb c) db = Inr db'" "control_inv db"
  shows "step_ok db db'"
proof (rule on_migration_inv [OF assms])
  fix row assume row: "row_of mg_key (t, i) (st_migrations db) = Some row" "mg_tenant_id row = t" "mg_id row = i"
    and ri: "row_inv (st_profiles db) row" and c: "rollback_command jsonb c row db = Inr db'"
  obtain s where s: "mg_rollback_status row = St_approved" "row_advance START_ROLLBACK None row = Inr s"
    and a: "\<exists>d. audit_command jsonb c ''storage_migration.rollback'' i t d (update_migration t i (\<lambda>r. r\<lparr>mg_state := s\<rparr>) db) = Inr db'"
    using c row by (auto simp: rollback_command_def split: if_splits sum.splits)
  note st = row_advance_cases(4) [OF s(2)]
  have "step_ok db (update_migration t i (\<lambda>r. r\<lparr>mg_state := s\<rparr>) db)"
  proof (rule control_inv_update [OF assms(2) row(1)])
    show "row_inv (st_profiles db) (bumped row\<lparr>mg_state := s\<rparr>)" using ri s(1) st by (auto simp: row_inv_defs)
  qed (auto simp: mg_key_def st open_states_def)
  then show "step_ok db db'" using a audit_command_ok by blast
qed

lemma rollback_approval_inv:
  assumes "on_migration t i (rollback_approval_command jsonb c d) db = Inr db'" "control_inv db"
  shows "step_ok db db'"
proof (rule on_migration_inv [OF assms])
  fix row assume row: "row_of mg_key (t, i) (st_migrations db) = Some row" "mg_tenant_id row = t" "mg_id row = i"
    and ri: "row_inv (st_profiles db) row" and c: "rollback_approval_command jsonb c d row db = Inr db'"
  let ?who = "pr_subject (rq_principal c)"
  obtain status q a where st: "mg_state row = OBSERVING"
    and v: "status = St_pending \<and> q = Some ?who \<and> a = None \<or>
       status \<in> {St_approved, St_denied} \<and> q = None \<and> a = Some ?who \<and> mg_rollback_status row = St_pending \<and> Some ?who \<noteq> mg_rollback_requested_by row"
    and au: "\<exists>x. audit_command jsonb c ''storage_migration.rollback_approval'' i t x (update_migration t i (set_rollback status q a) db) = Inr db'"
    using c row by (auto simp: rollback_approval_command_def Let_def split: if_splits)
  have "step_ok db (update_migration t i (set_rollback status q a) db)"
  proof (rule control_inv_update [OF assms(2) row(1)])
    show "row_inv (st_profiles db) (set_rollback status q a (bumped row))" using ri st v by (auto simp: row_inv_defs set_rollback_def)
  qed (auto simp: mg_key_def st open_states_def set_rollback_def)
  then show "step_ok db db'" using au audit_command_ok by blast
qed

lemma advance_inv:
  assumes "on_migration t i (advance_command jsonb c x) db = Inr db'" "control_inv db" "x \<in> {SWITCH, COMPLETE}"
  shows "step_ok db db'"
proof (rule on_migration_inv [OF assms(1,2)])
  fix row assume row: "row_of mg_key (t, i) (st_migrations db) = Some row" "mg_tenant_id row = t" "mg_id row = i"
    and ri: "row_inv (st_profiles db) row" and c: "advance_command jsonb c x row db = Inr db'"
  let ?f = "\<lambda>s ends r. r\<lparr>mg_state := s, mg_validation := mg_validation row, mg_observation_ends_at := ends\<rparr>"
  obtain s ends db2 where s: "mg_approval_status row = St_approved" "row_advance x None row = Inr s"
    and sw: "(if x = SWITCH then case set_profile_active t (mg_source row) False (rq_now c) db of
                Inl e \<Rightarrow> Inl e | Inr db1 \<Rightarrow> set_profile_active t (mg_target row) True (rq_now c) db1 else Inr db) = Inr db2"
    and a: "\<exists>d. audit_command jsonb c ''storage_migration.advance'' i t d (update_migration t i (?f s ends) db2) = Inr db'"
    using c row by (auto simp: advance_command_def Let_def split: if_splits sum.splits)
  have "step_ok db (update_migration t i (?f s ends) db2)"
  proof (cases "x = SWITCH")
    case True
    note st = row_advance_cases(2) [OF s(2) [unfolded True]]
    obtain db1 where 1: "set_profile_active t (mg_source row) False (rq_now c) db = Inr db1"
      "set_profile_active t (mg_target row) True (rq_now c) db1 = Inr db2" using sw True by (auto split: sum.splits)
    note mv = move_active [OF 1]
    show ?thesis
    proof (rule control_inv_switch [OF assms(2) row(1) mv(1,2)])
      show "row_inv (st_profiles db2) (?f s ends (bumped row))" if "is_active (st_profiles db2) t (mg_target row)"
        using ri st s(1) that row(2) moved_has_key [OF mv(1)] by (auto simp: row_inv_defs)
    qed (use ri st row(2) in \<open>auto simp: row_inv_defs mg_key_def open_states_def\<close>)
  next
    case False
    then have x: "x = COMPLETE" and db2: "db2 = db" using assms(3) sw by auto
    note st = row_advance_cases(3) [OF s(2) [unfolded x]]
    show ?thesis unfolding db2
    proof (rule control_inv_update [OF assms(2) row(1)])
      show "row_inv (st_profiles db) (?f s ends (bumped row))" using ri st s(1) by (auto simp: row_inv_defs)
    qed (auto simp: mg_key_def st open_states_def)
  qed
  then show "step_ok db db'" using a audit_command_ok by blast
qed

lemma active_profile_of_Some:
  "active_profile_of t ps = Some r \<Longrightarrow> r \<in> set ps \<and> pf_tenant_id r = t \<and> pf_active r"
  by (auto simp: active_profile_of_def dest: find_SomeD)

lemma active_profile_of_None: "active_profile_of t ps = None \<longleftrightarrow> (\<forall>r \<in> set ps. pf_tenant_id r = t \<longrightarrow> \<not> pf_active r)"
  by (auto simp: active_profile_of_def find_None_set)

lemma row_inv_append: "row_inv ps m \<Longrightarrow> row_inv (ps @ [r]) m"
  by (auto simp: row_inv_def switch_inv_def has_key_def is_active_def)

abbreviation new_profile_row :: "call \<Rightarrow> uuid \<Rightarrow> storage_profile \<Rightarrow> bool \<Rightarrow> profile_row" where
  "new_profile_row c i p activate \<equiv> \<lparr>pf_id = i, pf_profile = p, pf_active = activate, pf_version = 1,
     pf_created_at = rq_now c, pf_updated_at = rq_now c\<rparr>"

abbreviation profile_replay :: "call \<Rightarrow> string \<Rightarrow> storage_profile \<Rightarrow> bool \<Rightarrow> 'x storage_tables_scheme \<Rightarrow> api_error + jobject option" where
  "profile_replay c key p activate db \<equiv>
     replay_for (pr_subject (rq_principal c)) key ''storage_profile.create'' (profile_request p activate) db"

lemma create_profile_fresh:
  assumes "create_profile_command jsonb c i key p activate db = Inr (res, db')" "profile_replay c key p activate db = Inr None"
  obtains claims db1 db2 where "\<not> (activate \<and> active_profile_of (sp_tenant_id p) (st_profiles db) \<noteq> None)"
    "claim_resources (au_tenants (ad_audit db)) (sp_tenant_id p) (dedicated_resources p) (st_claims db) = Inr claims"
    "insert_profile_row (new_profile_row c i p activate) (db\<lparr>st_claims := claims\<rparr>) = Inr db1"
    "audited jsonb (rq_event_id c) (rq_now c) (Some (rq_principal c)) ''storage_profile.create'' ''ALLOW''
       ''storage_profile'' i (sp_tenant_id p) [(''active'', JBool activate)] db1 = Inr db2"
    "remember jsonb (pr_subject (rq_principal c)) key ''storage_profile.create'' (profile_request p activate)
       (profile_result (new_profile_row c i p activate)) db2 = Inr db'" "res = profile_result (new_profile_row c i p activate)"
proof -
  have na: "\<not> (activate \<and> active_profile_of (sp_tenant_id p) (st_profiles db) \<noteq> None)"
    using assms by (simp add: create_profile_command_def Let_def split: if_splits)
  show thesis
    using assms(1) unfolding create_profile_command_def Let_def assms(2) sum.case option.case if_not_P [OF na] result_simps
    by (elim exE conjE) (rule that [OF na], assumption+, simp_all)
qed

lemma create_profile_command_cases:
  assumes "create_profile_command jsonb c i key p activate db = Inr (res, db')"
  shows "profile_replay c key p activate db = Inr (Some res) \<and> db' = db \<or>
    (\<exists>claims row. row = new_profile_row c i p activate \<and>
       claim_resources (au_tenants (ad_audit db)) (sp_tenant_id p) (dedicated_resources p) (st_claims db) = Inr claims \<and>
       \<not> has_key pf_key (pf_key row) (st_profiles db) \<and> \<not> has_key pf_alias_key (pf_alias_key row) (st_profiles db) \<and>
       \<not> (activate \<and> active_profile_of (sp_tenant_id p) (st_profiles db) \<noteq> None) \<and>
       res = profile_result row \<and> st_profiles db' = st_profiles db @ [row] \<and> st_migrations db' = st_migrations db \<and>
       st_claims db' = claims \<and> profile_replay c key p activate db' = Inr (Some (jsonb res)))"
proof (cases "profile_replay c key p activate db = Inr None")
  case True
  obtain claims db1 db2 where na: "\<not> (activate \<and> active_profile_of (sp_tenant_id p) (st_profiles db) \<noteq> None)"
    and cl: "claim_resources (au_tenants (ad_audit db)) (sp_tenant_id p) (dedicated_resources p) (st_claims db) = Inr claims"
    and ins: "insert_profile_row (new_profile_row c i p activate) (db\<lparr>st_claims := claims\<rparr>) = Inr db1"
    and au: "audited jsonb (rq_event_id c) (rq_now c) (Some (rq_principal c)) ''storage_profile.create'' ''ALLOW''
       ''storage_profile'' i (sp_tenant_id p) [(''active'', JBool activate)] db1 = Inr db2"
    and rm: "remember jsonb (pr_subject (rq_principal c)) key ''storage_profile.create'' (profile_request p activate)
       (profile_result (new_profile_row c i p activate)) db2 = Inr db'" and res: "res = profile_result (new_profile_row c i p activate)"
    by (rule create_profile_fresh [OF assms True])
  have 1: "db1 = db\<lparr>st_claims := claims, st_profiles := st_profiles db @ [new_profile_row c i p activate]\<rparr>"
    "\<not> has_key pf_key (pf_key (new_profile_row c i p activate)) (st_profiles db)"
    "\<not> has_key pf_alias_key (pf_alias_key (new_profile_row c i p activate)) (st_profiles db)"
    using ins by (auto simp: insert_profile_row_def split: if_splits)
  have "st_profiles db' = st_profiles db2" "st_migrations db' = st_migrations db2" "st_claims db' = st_claims db2"
    using rm by (auto simp: remember_def split: if_splits)
  then show ?thesis using 1 na cl res audited_tables [OF au] replay_after_remember [OF rm] by simp
next
  case False
  then have "profile_replay c key p activate db = Inr (Some res) \<and> db' = db"
    using assms by (auto simp: create_profile_command_def Let_def split: sum.splits option.splits)
  then show ?thesis by blast
qed

lemma profile_added_inv:
  assumes inv: "control_inv db" and t: "st_profiles db' = st_profiles db @ [r]" "st_migrations db' = st_migrations db"
    and k: "\<not> has_key pf_key (pf_key r) (st_profiles db)" "\<not> (pf_active r \<and> active_profile_of (pf_tenant_id r) (st_profiles db) \<noteq> None)"
  shows "step_ok db db'"
proof -
  have "profiles_inv (st_profiles db @ [r])"
    using inv k by (auto simp: control_inv_def profiles_inv_def unique_key_append active_profile_of_None)
  moreover have "migrations_inv (st_profiles db @ [r]) (st_migrations db)"
    using inv by (auto simp: control_inv_def migrations_inv_def intro: row_inv_append)
  ultimately show ?thesis by (simp add: step_ok_def control_inv_def t)
qed

lemma create_profile_inv:
  assumes "create_profile_command jsonb c i key p activate db = Inr (res, db')" "control_inv db"
  shows "step_ok db db'"
  using create_profile_command_cases [OF assms(1)]
proof (elim disjE exE conjE)
  fix claims row
  assume r: "row = new_profile_row c i p activate" and k: "\<not> has_key pf_key (pf_key row) (st_profiles db)"
    "\<not> (activate \<and> active_profile_of (sp_tenant_id p) (st_profiles db) \<noteq> None)"
    and t: "st_profiles db' = st_profiles db @ [row]" "st_migrations db' = st_migrations db"
  show ?thesis by (rule profile_added_inv [OF assms(2) t k(1)]) (use k(2) in \<open>simp add: r pf_tenant_id_def\<close>)
qed (use assms(2) in \<open>simp add: step_ok_refl\<close>)

lemma create_migration_inv:
  assumes "create_migration_command jsonb c i t target obs db = Inr db'" "control_inv db"
  shows "step_ok db db'"
proof -
  obtain src tgt where a: "active_profile_of t (st_profiles db) = Some src" "row_of pf_key (t, target) (st_profiles db) = Some tgt"
    using assms(1) by (auto simp: create_migration_command_def split: option.splits)
  define m where "m = \<lparr>mg_tenant_id = t, mg_id = i, mg_source = pf_id src, mg_target = target,
      mg_state = PREPARED, mg_approval_status = St_pending, mg_requested_by = pr_subject (rq_principal c),
      mg_approved_by = None, mg_rollback_status = St_none, mg_rollback_requested_by = None,
      mg_rollback_approved_by = None, mg_validation = None, mg_observation_seconds = obs,
      mg_observation_ends_at = None, mg_version = 1\<rparr>"
  obtain db1 where i: "insert_migration_row m db = Inr db1"
    and au: "\<exists>d. audit_command jsonb c ''storage_migration.request'' i t d db1 = Inr db'"
    using assms(1) a by (auto simp: create_migration_command_def m_def split: if_splits sum.splits)
  have k: "\<not> has_key mg_key (mg_key m) (st_migrations db)" "\<not> has_open_migration t (st_migrations db)" "mg_source m \<noteq> target"
    and db1: "db1 = db\<lparr>st_migrations := st_migrations db @ [m]\<rparr>"
    using i by (auto simp: insert_migration_row_def m_def open_states_def split: if_splits)
  have src: "src \<in> set (st_profiles db)" "pf_key src = (t, pf_id src)" "pf_active src"
    using active_profile_of_Some [OF a(1)] by (auto simp: pf_key_def)
  have "has_key pf_key (t, pf_id src) (st_profiles db)" "is_active (st_profiles db) t (pf_id src)"
    using src by (force simp: has_key_def is_active_def)+
  moreover have "has_key pf_key (t, target) (st_profiles db)" using row_of_SomeD [OF a(2)] by (force simp: has_key_def)
  ultimately have "row_inv (st_profiles db) m" using k(3) by (simp add: row_inv_defs m_def)
  then have "migrations_inv (st_profiles db) (st_migrations db @ [m])"
    using assms(2) k by (auto simp: control_inv_def migrations_inv_def unique_key_append has_open_migration_def list_ex_iff m_def)
  then have "step_ok db db1" using assms(2) by (simp add: step_ok_def control_inv_def db1)
  then show ?thesis using au audit_command_ok by blast
qed

subsection \<open>The worker keeps the invariant\<close>

lemma set_evidence_simps [simp]:
  "mg_key (set_evidence s ev r) = mg_key r" "mg_state (set_evidence s ev r) = s"
  by (simp_all add: set_evidence_def mg_key_def)

lemma worker_advance_None:
  assumes "worker_advance jsonb e now row x action ev db = (None, db')"
  obtains s v where "row_advance x v row = Inr s"
    "st_profiles db' = st_profiles (update_migration (mg_tenant_id row) (mg_id row) (set_evidence s ev) db)"
    "st_migrations db' = st_migrations (update_migration (mg_tenant_id row) (mg_id row) (set_evidence s ev) db)"
    "st_claims db' = st_claims db"
proof -
  let ?v = "if x \<in> {VALIDATE, ROLLBACK_VALIDATE} then ev else None"
  obtain s where s: "row_advance x ?v row = Inr s"
    using assms by (auto simp: worker_advance_def split: sum.splits)
  obtain a d where "audited jsonb e now None a ''ALLOW'' ''storage_migration'' (mg_id row) (mg_tenant_id row) d
      (update_migration (mg_tenant_id row) (mg_id row) (set_evidence s ev) db) = Inr db'"
    using assms unfolding worker_advance_def s Let_def sum.case by (auto split: sum.splits)
  from audited_tables [OF this] show thesis using that [OF s] by (simp add: update_migration_tables)
qed

lemma worker_advance_error:
  "worker_advance jsonb e now row x action ev db = (Some (PhaseError er), db') \<Longrightarrow> db' = db"
  by (auto simp: worker_advance_def Let_def split: sum.splits)

lemma upsert_tables [simp]:
  "st_profiles (upsert_checkpoint t i f r db) = st_profiles db" "st_migrations (upsert_checkpoint t i f r db) = st_migrations db"
  "st_claims (upsert_checkpoint t i f r db) = st_claims db"
  by (simp_all add: upsert_checkpoint_def Let_def)

lemma copy_phase_error:
  "copy_phase jsonb e now row run rb x action db = (Some (PhaseError er), db', h') \<Longrightarrow>
   st_profiles db' = st_profiles db \<and> st_migrations db' = st_migrations db \<and> st_claims db' = st_claims db"
  by (auto simp: copy_phase_def Let_def split: prod.splits sum.splits dest: worker_advance_error)

lemma copy_phase_None:
  assumes "copy_phase jsonb e now row run rb x action db = (None, db', h')"
  obtains s v where "row_advance x v row = Inr s"
    "st_profiles db' = st_profiles (update_migration (mg_tenant_id row) (mg_id row) (set_evidence s None) db)"
    "st_migrations db' = st_migrations (update_migration (mg_tenant_id row) (mg_id row) (set_evidence s None) db)"
    "st_claims db' = st_claims db"
proof -
  obtain marks where "worker_advance jsonb e now row x action None (upsert_checkpoint (mg_tenant_id row) (mg_id row)
      (if rb then None else Some marks) (if rb then Some marks else None) db) = (None, db')"
    using assms by (auto simp: copy_phase_def Let_def split: prod.splits sum.splits)
  from worker_advance_None [OF this] show thesis using that by (metis update_migration_tables upsert_tables)
qed

lemma rollback_advance_legal:
  "mg_state row = ROLLBACK_VALIDATING \<Longrightarrow> mg_source row \<noteq> mg_target row \<Longrightarrow>
   worker_advance jsonb e now row ROLLBACK_VALIDATE action ev db \<noteq> (Some (PhaseError er), db')"
  by (auto simp: worker_advance_def row_advance_def row_machine_def new_machine_def advance_def TRANSITIONS_def Let_def
      split: sum.splits)

lemma execute_phase_error:
  assumes "execute_phase jsonb factory e now row db h = (Some (PhaseError er), db', h')" "mg_source row \<noteq> mg_target row"
    "mg_state row \<in> set worker_states"
  shows "st_profiles db' = st_profiles db \<and> st_migrations db' = st_migrations db \<and> st_claims db' = st_claims db"
proof (cases "mg_state row = ROLLBACK_VALIDATING")
  case True
  then show ?thesis using assms(1) unfolding execute_phase_def Let_def
    by (auto simp: rollback_advance_legal [OF True assms(2)] split: if_splits option.splits sum.splits prod.splits)
next
  case False
  then show ?thesis using assms(1,3) unfolding execute_phase_def Let_def worker_states_def
    by (auto split: if_splits option.splits sum.splits prod.splits dest: copy_phase_error worker_advance_error)
qed

text \<open>A phase that ends: the row moved on, or the rollback switched back.\<close>

lemma execute_phase_None:
  assumes "execute_phase jsonb factory e now row db h = (None, db', h')" "mg_state row \<in> set worker_states"
  obtains (move) s ev where "st_profiles db' = st_profiles (update_migration (mg_tenant_id row) (mg_id row) (set_evidence s ev) db)"
      "st_migrations db' = st_migrations (update_migration (mg_tenant_id row) (mg_id row) (set_evidence s ev) db)"
      "st_claims db' = st_claims db"
      "(mg_state row, s) \<in> {(BACKFILLING, CATCHING_UP), (CATCHING_UP, VALIDATING), (ROLLING_BACK, ROLLBACK_CATCHING_UP),
         (ROLLBACK_CATCHING_UP, ROLLBACK_VALIDATING)} \<and> ev = None \<or>
       mg_state row = VALIDATING \<and> s = READY_TO_SWITCH \<and> (\<exists>v. ev = Some v \<and> is_valid v)"
  | (return) v db1 db2 where "mg_state row = ROLLBACK_VALIDATING" "is_valid v"
      "set_profile_active (mg_tenant_id row) (mg_target row) False now db = Inr db1"
      "set_profile_active (mg_tenant_id row) (mg_source row) True now db1 = Inr db2"
      "st_profiles db' = st_profiles (update_migration (mg_tenant_id row) (mg_id row) (set_evidence ROLLED_BACK (Some v)) db2)"
      "st_migrations db' = st_migrations (update_migration (mg_tenant_id row) (mg_id row) (set_evidence ROLLED_BACK (Some v)) db2)"
      "st_claims db' = st_claims db"
proof -
  let ?s = "mg_state row"
  consider (copy) run rb x action where "copy_phase jsonb e now row run rb x action db = (None, db', h')"
      "(?s, x) \<in> {(BACKFILLING, BACKFILL_COMPLETE), (CATCHING_UP, CATCH_UP_COMPLETE), (ROLLING_BACK, ROLLBACK_BACKFILL_COMPLETE),
        (ROLLBACK_CATCHING_UP, ROLLBACK_CATCH_UP_COMPLETE)}"
    | (check) v where "?s = VALIDATING" "is_valid v" "worker_advance jsonb e now row VALIDATE ''validate'' (Some v) db = (None, db')"
    | (rback) v db1 db2 where "?s = ROLLBACK_VALIDATING" "is_valid v"
      "set_profile_active (mg_tenant_id row) (mg_target row) False now db = Inr db1"
      "set_profile_active (mg_tenant_id row) (mg_source row) True now db1 = Inr db2"
      "worker_advance jsonb e now row ROLLBACK_VALIDATE ''rollback_switch'' (Some v) db2 = (None, db')"
    using assms unfolding execute_phase_def Let_def worker_states_def
    by (auto split: if_splits option.splits sum.splits prod.splits)
  then show thesis
  proof cases
    case copy
    obtain s v where a: "row_advance x v row = Inr s"
      and t: "st_profiles db' = st_profiles (update_migration (mg_tenant_id row) (mg_id row) (set_evidence s None) db)"
      "st_migrations db' = st_migrations (update_migration (mg_tenant_id row) (mg_id row) (set_evidence s None) db)"
      "st_claims db' = st_claims db" by (rule copy_phase_None [OF copy(1)])
    show thesis by (rule move [OF t]) (use copy(2) a in \<open>auto dest: row_advance_cases\<close>)
  next
    case check
    obtain s w where a: "row_advance VALIDATE w row = Inr s"
      and t: "st_profiles db' = st_profiles (update_migration (mg_tenant_id row) (mg_id row) (set_evidence s (Some v)) db)"
      "st_migrations db' = st_migrations (update_migration (mg_tenant_id row) (mg_id row) (set_evidence s (Some v)) db)"
      "st_claims db' = st_claims db" by (rule worker_advance_None [OF check(3)])
    show thesis by (rule move [OF t]) (use check row_advance_cases(7) [OF a] in auto)
  next
    case rback
    obtain s w where a: "row_advance ROLLBACK_VALIDATE w row = Inr s"
      and t: "st_profiles db' = st_profiles (update_migration (mg_tenant_id row) (mg_id row) (set_evidence s (Some v)) db2)"
      "st_migrations db' = st_migrations (update_migration (mg_tenant_id row) (mg_id row) (set_evidence s (Some v)) db2)"
      "st_claims db' = st_claims db2" by (rule worker_advance_None [OF rback(5)])
    have "s = ROLLED_BACK" using row_advance_cases(10) [OF a] by simp
    then show thesis using return [OF rback(1-4)] t move_active(3) [OF rback(3,4)] by simp
  qed
qed

lemma phase_inv:
  assumes ph: "execute_phase jsonb factory e now row db h = (None, db', h')" and inv: "control_inv db"
    and row: "row_of mg_key (mg_tenant_id row, mg_id row) (st_migrations db) = Some row" and w: "mg_state row \<in> set worker_states"
  shows "step_ok db db'"
  using ph w
proof (cases rule: execute_phase_None)
  case (move s ev)
  have ri: "row_inv (st_profiles db) row" using row_inv_of [OF inv row] by simp
  have "step_ok db (update_migration (mg_tenant_id row) (mg_id row) (set_evidence s ev) db)"
  proof (rule control_inv_update [OF inv row])
    have "switch_inv (st_profiles db) (set_evidence s ev (bumped row))"
      using ri move(4) by (auto simp: row_inv_def switch_inv_def before_switch_def after_switch_def set_evidence_def)
    moreover have "decision_inv (set_evidence s ev (bumped row))"
      using ri move(4) by (elim disjE conjE insertE emptyE exE; simp add: row_inv_def decision_inv_def set_evidence_def)
    moreover have "evidence_inv (set_evidence s ev (bumped row))"
      using ri move(4) by (elim disjE conjE insertE emptyE exE; simp add: row_inv_def evidence_inv_def after_switch_def set_evidence_def)
    ultimately show "row_inv (st_profiles db) (set_evidence s ev (bumped row))" by (simp add: row_inv_def)
  qed (use move(4) in \<open>auto simp: open_states_def\<close>)
  then show ?thesis using move(1,2) step_ok_cong by blast
next
  case (return v db1 db2)
  have ri: "row_inv (st_profiles db) row" using row_inv_of [OF inv row] by simp
  note mv = move_active [OF return(3,4)]
  have "step_ok db (update_migration (mg_tenant_id row) (mg_id row) (set_evidence ROLLED_BACK (Some v)) db2)"
  proof (rule control_inv_switch [OF inv row mv(1,2)])
    show "row_inv (st_profiles db2) (set_evidence ROLLED_BACK (Some v) (bumped row))"
      using ri return(1,2) moved_has_key [OF mv(1)] by (auto simp: row_inv_defs set_evidence_def)
  qed (use ri return(1) in \<open>auto simp: row_inv_defs open_states_def\<close>)
  then show ?thesis using return(5,6) step_ok_cong by blast
qed

lemma record_failure_ok:
  assumes "record_failure jsonb e now row code db1 = Inr db'" and inv: "control_inv db"
    and t: "st_profiles db1 = st_profiles db" "st_migrations db1 = st_migrations db"
    and row: "row_of mg_key (mg_tenant_id row, mg_id row) (st_migrations db) = Some row" and w: "mg_state row \<in> set worker_states"
  shows "step_ok db db'"
proof (cases "mg_state row \<in> set rollback_states")
  case True
  then obtain x d where "audited jsonb e now None x ''DENY'' ''storage_migration'' (mg_id row) (mg_tenant_id row) d db1 = Inr db'"
    using assms(1) by (auto simp: record_failure_def Let_def)
  then show ?thesis using audited_tables t step_ok_cong [OF _ _ step_ok_refl [OF inv]] by metis
next
  case False
  let ?u = "update_migration (mg_tenant_id row) (mg_id row) (\<lambda>r. r\<lparr>mg_state := FAILED\<rparr>)"
  obtain x d where a: "audited jsonb e now None x ''DENY'' ''storage_migration'' (mg_id row) (mg_tenant_id row) d (?u db1) = Inr db'"
    using assms(1) False by (auto simp: record_failure_def Let_def)
  have ri: "row_inv (st_profiles db) row" using row_inv_of [OF inv row] by simp
  have "mg_state row \<notin> {PREPARED, FAILED}" using w by (auto simp: worker_states_def)
  then have ap: "mg_approval_status row = St_approved" using ri by (auto simp: row_inv_def decision_inv_def)
  have "step_ok db (?u db)"
  proof (rule control_inv_update [OF inv row])
    show "row_inv (st_profiles db) (bumped row\<lparr>mg_state := FAILED\<rparr>)"
      using ri ap unfolding row_inv_def switch_inv_def decision_inv_def evidence_inv_def
      by (simp add: before_switch_def after_switch_def)
  qed (use w in \<open>auto simp: mg_key_def worker_states_def open_states_def\<close>)
  then show ?thesis by (rule step_ok_cong [rotated 2]) (simp_all add: audited_tables [OF a] t update_migration_tables)
qed

lemma run_once_ok:
  assumes "run_once jsonb factory e now t db h = (res, db', h')" and inv: "control_inv db"
  shows "step_ok db db'"
proof (cases "find (\<lambda>r. mg_tenant_id r = t \<and> mg_state r \<in> set worker_states) (st_migrations db)")
  case None
  then show ?thesis using assms by (simp add: run_once_def step_ok_refl)
next
  case (Some row)
  have r: "row \<in> set (st_migrations db)" "mg_state row \<in> set worker_states" using find_SomeD [OF Some] by auto
  have u: "unique_key mg_key (st_migrations db)" using inv by (simp add: control_inv_def migrations_inv_def)
  have row: "row_of mg_key (mg_tenant_id row, mg_id row) (st_migrations db) = Some row"
    using row_of_unique [OF u r(1)] by (simp add: mg_key_def)
  have ne: "mg_source row \<noteq> mg_target row" using row_inv_of [OF inv row] by (simp add: row_inv_def switch_inv_def)
  obtain er db1 h1 where ph: "execute_phase jsonb factory e now row db h = (er, db1, h1)" by (cases "execute_phase jsonb factory e now row db h")
  consider "er = None" "db' = db1" | code where "er = Some (PhaseError (StorageMigrationError code))" "record_failure jsonb e now row code db1 = Inr db'"
    | "db' = db"
    using assms(1) by (auto simp: run_once_def Some ph split: option.splits phase_error.splits migration_error.splits sum.splits)
  then show ?thesis
  proof cases
    case 1
    then show ?thesis using phase_inv [OF _ inv row r(2)] ph by simp
  next
    case (2 code)
    note tabs = execute_phase_error [OF ph [unfolded 2(1)] ne r(2)]
    show ?thesis using record_failure_ok [OF 2(2) inv _ _ row r(2)] tabs by simp
  qed (simp add: step_ok_refl inv)
qed

lemma audit_denial_tables:
  "st_profiles (snd (audit_denial jsonb i now who a tt ti t d msg db)) = st_profiles db"
  "st_migrations (snd (audit_denial jsonb i now who a tt ti t d msg db)) = st_migrations db"
  "st_claims (snd (audit_denial jsonb i now who a tt ti t d msg db)) = st_claims db"
  by (simp_all add: audit_denial_def split: sum.splits)

lemma require_admin_tables:
  "st_profiles (snd (require_tenant_admin jsonb i now who t a tt ti db)) = st_profiles db"
  "st_migrations (snd (require_tenant_admin jsonb i now who t a tt ti db)) = st_migrations db"
  "st_claims (snd (require_tenant_admin jsonb i now who t a tt ti db)) = st_claims db"
  by (simp_all add: require_tenant_admin_def Let_def audit_denial_tables)

lemma require_access_tables:
  "st_profiles (snd (require_tenant_access jsonb i now who t m a tt ti db)) = st_profiles db"
  "st_migrations (snd (require_tenant_access jsonb i now who t m a tt ti db)) = st_migrations db"
  "st_claims (snd (require_tenant_access jsonb i now who t m a tt ti db)) = st_claims db"
  by (simp_all add: require_tenant_access_def Let_def audit_denial_tables)

lemma admin_route_ok:
  assumes "admin_route jsonb c t a ti command db = (res, db')" "control_inv db"
    and "\<And>db2. command db = Inr db2 \<Longrightarrow> step_ok db db2"
  shows "step_ok db db'"
proof -
  let ?check = "require_tenant_admin jsonb (rq_denial_id c) (rq_now c) (rq_principal c) t a ''storage_migration'' ti db"
  have f: "st_profiles (snd ?check) = st_profiles db" "st_migrations (snd ?check) = st_migrations db"
    by (rule require_admin_tables)+
  show ?thesis
  proof (cases "fst ?check")
    case None
    then have "?check = (None, db)" using require_admin_pass by (metis prod.collapse)
    then show ?thesis using assms by (auto simp: admin_route_def guarded_def step_ok_refl split: sum.splits)
  next
    case (Some e)
    then have "db' = snd ?check" using assms(1) by (auto simp: admin_route_def guarded_def split: prod.splits)
    then show ?thesis using f step_ok_cong [OF _ _ step_ok_refl [OF assms(2)]] by metis
  qed
qed

subsection \<open>Reachable tables\<close>

text \<open>
  One step of the platform as these tables see it: a call of a route (whatever it answers), a call
  of the worker over any adapters, or anything else the platform does, which leaves the four
  storage tables alone.
\<close>

inductive storage_step :: "(jobject \<Rightarrow> jobject) \<Rightarrow> adapter_factory \<Rightarrow> storage_tables \<Rightarrow> storage_tables \<Rightarrow> bool"
  for jsonb factory where
  profile: "create_profile jsonb c i key p activate db = (r, db') \<Longrightarrow> storage_step jsonb factory db db'"
| request: "create_migration jsonb c i t target obs db = (r, db') \<Longrightarrow> storage_step jsonb factory db db'"
| decide: "decide_migration_approval jsonb c t i approve db = (r, db') \<Longrightarrow> storage_step jsonb factory db db'"
| start: "start_migration jsonb c t i db = (r, db') \<Longrightarrow> storage_step jsonb factory db db'"
| advance: "advance_migration jsonb c t i x db = (r, db') \<Longrightarrow> x \<in> {SWITCH, COMPLETE} \<Longrightarrow> storage_step jsonb factory db db'"
| rollback_approval: "decide_rollback_approval jsonb c t i d db = (r, db') \<Longrightarrow> storage_step jsonb factory db db'"
| rollback: "rollback_migration jsonb c t i db = (r, db') \<Longrightarrow> storage_step jsonb factory db db'"
| worker: "run_once jsonb factory e now t db h = (r, db', h') \<Longrightarrow> storage_step jsonb factory db db'"
| elsewhere: "st_profiles db' = st_profiles db \<Longrightarrow> st_claims db' = st_claims db \<Longrightarrow> st_migrations db' = st_migrations db \<Longrightarrow>
    st_checkpoints db' = st_checkpoints db \<Longrightarrow> storage_step jsonb factory db db'"

definition storage_run :: "(jobject \<Rightarrow> jobject) \<Rightarrow> adapter_factory \<Rightarrow> storage_tables \<Rightarrow> storage_tables \<Rightarrow> bool" where
  "storage_run jsonb factory = (storage_step jsonb factory)\<^sup>*\<^sup>*"

definition no_storage :: "storage_tables \<Rightarrow> bool" where
  "no_storage db \<longleftrightarrow> st_profiles db = [] \<and> st_claims db = [] \<and> st_migrations db = [] \<and> st_checkpoints db = []"

definition storage_reachable :: "(jobject \<Rightarrow> jobject) \<Rightarrow> adapter_factory \<Rightarrow> storage_tables \<Rightarrow> bool" where
  "storage_reachable jsonb factory db \<longleftrightarrow> (\<exists>db0. no_storage db0 \<and> storage_run jsonb factory db0 db)"

lemma create_profile_ok:
  assumes "create_profile jsonb c i key p activate db = (res, db')" "control_inv db"
  shows "step_ok db db'"
proof -
  let ?check = "require_tenant_access jsonb (rq_denial_id c) (rq_now c) (rq_principal c) (sp_tenant_id p) WriteAccess
      ''storage_profile.create'' ''storage_profile'' None db"
  show ?thesis
  proof (cases "fst ?check")
    case None
    then have "?check = (None, db)" using require_access_pass by (metis prod.collapse)
    then have "db' = db \<or> (\<exists>r. create_profile_command jsonb c i key p activate db = Inr (r, db'))"
      using assms(1) by (auto simp: create_profile_def guarded_def split: sum.splits option.splits)
    then show ?thesis using create_profile_inv assms(2) step_ok_refl by blast
  next
    case (Some e)
    then have "db' = snd ?check" using assms(1) by (auto simp: create_profile_def guarded_def split: prod.splits)
    then show ?thesis using step_ok_cong [OF _ _ step_ok_refl [OF assms(2)], of db'] by (simp add: require_access_tables)
  qed
qed

lemma storage_step_ok:
  assumes "storage_step jsonb factory db db'" "control_inv db"
  shows "step_ok db db'"
  using assms
proof cases
  case (elsewhere)
  then show ?thesis using step_ok_cong [OF _ _ step_ok_refl [OF assms(2)]] by blast
next
  case profile
  then show ?thesis using create_profile_ok assms(2) by blast
next
  case worker
  then show ?thesis using run_once_ok assms(2) by blast
next
  case request
  then show ?thesis using admin_route_ok assms(2) create_migration_inv unfolding create_migration_def by blast
next
  case decide
  then show ?thesis using admin_route_ok assms(2) approval_inv unfolding decide_migration_approval_def by blast
next
  case start
  then show ?thesis using admin_route_ok assms(2) start_inv unfolding start_migration_def by blast
next
  case advance
  then show ?thesis using admin_route_ok assms(2) advance_inv unfolding advance_migration_def by blast
next
  case rollback_approval
  then show ?thesis using admin_route_ok assms(2) rollback_approval_inv unfolding decide_rollback_approval_def by blast
next
  case rollback
  then show ?thesis using admin_route_ok assms(2) rollback_inv unfolding rollback_migration_def by blast
qed

lemma storage_run_ok: "storage_run jsonb factory db db' \<Longrightarrow> control_inv db \<Longrightarrow> step_ok db db'"
  unfolding storage_run_def
proof (induction rule: rtranclp_induct)
  case (step db1 db2)
  then have 1: "step_ok db db1" by simp
  then have "step_ok db1 db2" using storage_step_ok step.hyps(2) by (simp add: step_ok_def)
  then show ?case using 1 by (simp add: step_ok_def)
qed (simp add: step_ok_refl)

lemma reachable_inv: "storage_reachable jsonb factory db \<Longrightarrow> control_inv db"
proof -
  assume "storage_reachable jsonb factory db"
  then obtain db0 where "no_storage db0" "storage_run jsonb factory db0 db" by (auto simp: storage_reachable_def)
  moreover from this(1) have "control_inv db0" by (simp add: no_storage_def control_inv_def profiles_inv_def migrations_inv_def)
  ultimately show ?thesis using storage_run_ok by (auto simp: step_ok_def)
qed

subsection \<open>Which profile may be written\<close>

definition migration_writer :: "migration_row \<Rightarrow> uuid option" where
  "migration_writer m = business_write_profile_id \<lparr>mm_source = mg_source m, mm_target = mg_target m, mm_state = mg_state m\<rparr>"

lemma resolve_row_Some:
  "resolve_row t db = Some p \<Longrightarrow> p \<in> set (st_profiles db) \<and> pf_tenant_id p = t \<and> pf_active p \<and> \<not> blocked_target t (pf_id p) (st_migrations db)"
  by (auto simp: resolve_row_def dest: find_SomeD)


text \<open>
  C20: Nothing is switched without evidence and two people. In every reachable state, a migration that was
  switched (it is observed, completed, or in or past a rollback) carries validation evidence that
  is valid and an approval by someone other than its requester; one in or past a rollback also
  carries a rollback approval by someone other than who asked for the rollback.
\<close>

theorem switch_needs_evidence_and_approval:
  assumes "storage_reachable jsonb factory db" "m \<in> set (st_migrations db)"
    and "mg_state m \<in> {OBSERVING, ROLLING_BACK, ROLLBACK_CATCHING_UP, ROLLBACK_VALIDATING, COMPLETED, ROLLED_BACK}"
  shows "(case mg_validation m of None \<Rightarrow> False | Some e \<Rightarrow> is_valid e) \<and>
    (case mg_approved_by m of None \<Rightarrow> False | Some a \<Rightarrow> a \<noteq> mg_requested_by m) \<and>
    (mg_state m \<in> {OBSERVING, COMPLETED} \<or> (mg_rollback_approved_by m \<noteq> None \<and> mg_rollback_approved_by m \<noteq> mg_rollback_requested_by m))"
proof -
  have d: "decision_inv m" and e: "evidence_inv m"
    using reachable_inv [OF assms(1)] assms(2) by (auto simp: control_inv_def migrations_inv_def row_inv_def)
  have "mg_state m \<notin> {PREPARED, FAILED}" using assms(3) by auto
  then obtain a where a: "mg_approved_by m = Some a" "a \<noteq> mg_requested_by m" using d unfolding decision_inv_def by blast
  have "mg_state m \<in> {READY_TO_SWITCH, COMPLETED, ROLLED_BACK} \<or> mg_state m \<in> set after_switch"
    using assms(3) by (auto simp: after_switch_def)
  then obtain v where v: "mg_validation m = Some v" "is_valid v" using e unfolding evidence_inv_def by blast
  have "mg_state m \<in> {OBSERVING, COMPLETED} \<or> mg_rollback_status m = St_approved"
    using d assms(3) unfolding decision_inv_def by blast
  then have "mg_state m \<in> {OBSERVING, COMPLETED} \<or> mg_rollback_approved_by m \<noteq> None \<and> mg_rollback_approved_by m \<noteq> mg_rollback_requested_by m"
    using d unfolding decision_inv_def by blast
  then show ?thesis using a v by simp
qed

text \<open>
  A profile that was once the target of a failed or rolled-back migration is never served again.
  However a later migration to it fares, even one that is switched and completed, the resolver
  answers no storage for the tenant as long as that profile is the active one.
\<close>

theorem failed_target_never_served:
  assumes "storage_reachable jsonb factory db" "m \<in> set (st_migrations db)" "mg_state m \<in> {FAILED, ROLLED_BACK}"
    and "storage_run jsonb factory db db'"
  shows "case resolve_row (mg_tenant_id m) db' of None \<Rightarrow> True | Some p \<Rightarrow> pf_id p \<noteq> mg_target m"
proof (cases "resolve_row (mg_tenant_id m) db'")
  case (Some p)
  have "m \<in> set (st_migrations db')"
    using storage_run_ok [OF assms(4) reachable_inv [OF assms(1)]] assms(2,3) by (auto simp: step_ok_def open_states_def)
  then show ?thesis using resolve_row_Some [OF Some] assms(3) by (auto simp: Some blocked_target_def list_ex_iff)
qed simp

subsection \<open>Dedicated resources\<close>

definition owned :: "claim_row list \<Rightarrow> uuid \<Rightarrow> string \<times> string \<Rightarrow> bool" where
  "owned cs t r \<longleftrightarrow> (\<exists>c. row_of cl_key (fst r, sha256_hex (snd r)) cs = Some c \<and> cl_tenant_id c = t)"

lemma owned_append: "owned cs t r \<Longrightarrow> owned (cs @ [c]) t r"
  by (auto simp: owned_def table_simps)

lemma claim_resources_owned:
  "claim_resources ts t rs cs = Inr cs' \<Longrightarrow> (\<forall>r \<in> set rs. owned cs' t r) \<and> (\<forall>t' r. owned cs t' r \<longrightarrow> owned cs' t' r)"
proof (induction rs arbitrary: cs)
  case (Cons x rs)
  obtain k i where x: "x = (k, i)" by (cases x)
  show ?case
  proof (cases "row_of cl_key (k, sha256_hex i) cs")
    case None
    let ?cs1 = "cs @ [\<lparr>cl_kind = k, cl_fingerprint = sha256_hex i, cl_tenant_id = t\<rparr>]"
    have r: "claim_resources ts t rs ?cs1 = Inr cs'" using Cons.prems None by (simp add: x Let_def split: if_splits)
    have "owned ?cs1 t x" using None by (simp add: owned_def x table_simps cl_key_def)
    then have "owned cs' t x" using Cons.IH [OF r] by blast
    then show ?thesis using Cons.IH [OF r] owned_append by auto
  next
    case (Some c)
    then have r: "cl_tenant_id c = t" "claim_resources ts t rs cs = Inr cs'" using Cons.prems by (auto simp: x Let_def split: if_splits)
    have "owned cs t x" using Some r(1) by (simp add: owned_def x)
    then have "owned cs' t x" using Cons.IH [OF r(2)] by blast
    then show ?thesis using Cons.IH [OF r(2)] by auto
  qed
qed simp

definition claims_inv :: "'x storage_tables_scheme \<Rightarrow> bool" where
  "claims_inv db \<longleftrightarrow> (\<forall>q \<in> set (map pf_profile (st_profiles db)). \<forall>r \<in> set (dedicated_resources q). owned (st_claims db) (sp_tenant_id q) r)"

definition same_resources :: "'x storage_tables_scheme \<Rightarrow> 'x storage_tables_scheme \<Rightarrow> bool" where
  "same_resources db db' \<longleftrightarrow> st_claims db' = st_claims db \<and> map pf_profile (st_profiles db') = map pf_profile (st_profiles db)"

lemma same_resources_inv: "same_resources db db' \<Longrightarrow> claims_inv db \<Longrightarrow> claims_inv db'"
  by (simp add: same_resources_def claims_inv_def del: set_map)

lemma audited_same:
  "audited jsonb i now who a d tt ti t det db1 = Inr db' \<Longrightarrow> st_claims db' = st_claims db1 \<and> st_profiles db' = st_profiles db1"
  "audit_command jsonb c x i t z db1 = Inr db' \<Longrightarrow> st_claims db' = st_claims db1 \<and> st_profiles db' = st_profiles db1"
  using audited_tables audit_command_tables by metis+

lemma command_same_resources:
  "approval_command jsonb c b row db = Inr db' \<Longrightarrow> same_resources db db'"
  "start_command jsonb c row db = Inr db' \<Longrightarrow> same_resources db db'"
  "rollback_command jsonb c row db = Inr db' \<Longrightarrow> same_resources db db'"
  "rollback_approval_command jsonb c d row db = Inr db' \<Longrightarrow> same_resources db db'"
  "create_migration_command jsonb c i t target obs db = Inr db' \<Longrightarrow> same_resources db db'"
  by (auto simp: same_resources_def approval_command_def start_command_def rollback_command_def rollback_approval_command_def
      create_migration_command_def insert_migration_row_def Let_def update_migration_tables
      dest!: audited_same split: if_splits sum.splits option.splits prod.splits)

lemma advance_same_resources: "advance_command jsonb c x row db = Inr db' \<Longrightarrow> same_resources db db'"
proof -
  assume a: "advance_command jsonb c x row db = Inr db'"
  obtain db2 u i t d f where sw: "(if x = SWITCH then case set_profile_active (mg_tenant_id row) (mg_source row) False (rq_now c) db of
                Inl e \<Rightarrow> Inl e | Inr db1 \<Rightarrow> set_profile_active (mg_tenant_id row) (mg_target row) True (rq_now c) db1 else Inr db) = Inr db2"
    and au: "audit_command jsonb c u i t d (update_migration (mg_tenant_id row) (mg_id row) f db2) = Inr db'"
    using a by (auto simp: advance_command_def Let_def split: if_splits sum.splits)
  have "st_claims db2 = st_claims db \<and> map pf_profile (st_profiles db2) = map pf_profile (st_profiles db)"
  proof (cases "x = SWITCH")
    case True
    then obtain db1 where "set_profile_active (mg_tenant_id row) (mg_source row) False (rq_now c) db = Inr db1"
      "set_profile_active (mg_tenant_id row) (mg_target row) True (rq_now c) db1 = Inr db2" using sw by (auto split: sum.splits)
    from move_active [OF this] show ?thesis by (simp add: moved_def)
  qed (use sw in simp)
  then show ?thesis using audit_command_tables [OF au] by (simp add: same_resources_def update_migration_tables)
qed

lemma run_once_same_resources:
  assumes "run_once jsonb factory e now t db h = (res, db', h')" "control_inv db"
  shows "same_resources db db'"
proof (cases "find (\<lambda>r. mg_tenant_id r = t \<and> mg_state r \<in> set worker_states) (st_migrations db)")
  case None
  then show ?thesis using assms by (simp add: run_once_def same_resources_def)
next
  case (Some row)
  have r: "row \<in> set (st_migrations db)" "mg_state row \<in> set worker_states" using find_SomeD [OF Some] by auto
  have ne: "mg_source row \<noteq> mg_target row"
    using assms(2) r(1) by (auto simp: control_inv_def migrations_inv_def row_inv_def switch_inv_def)
  obtain er db1 h1 where ph: "execute_phase jsonb factory e now row db h = (er, db1, h1)" by (cases "execute_phase jsonb factory e now row db h")
  consider "er = None" "db' = db1" | code where "er = Some (PhaseError (StorageMigrationError code))" "record_failure jsonb e now row code db1 = Inr db'"
    | "db' = db"
    using assms(1) by (auto simp: run_once_def Some ph split: option.splits phase_error.splits migration_error.splits sum.splits)
  then show ?thesis
  proof cases
    case 1
    from ph [unfolded 1(1)] r(2) show ?thesis
    proof (cases rule: execute_phase_None)
      case (return v d1 d2)
      then show ?thesis using move_active(1) [OF return(3,4)] 1(2) by (simp add: same_resources_def update_migration_tables moved_def)
    qed (use 1(2) in \<open>simp add: same_resources_def update_migration_tables\<close>)
  next
    case (2 code)
    then show ?thesis using execute_phase_error [OF ph [unfolded 2(1)] ne r(2)]
      by (auto simp: same_resources_def record_failure_def Let_def update_migration_tables dest!: audited_same split: if_splits)
  qed (simp add: same_resources_def)
qed

lemma admin_route_same_resources:
  assumes "admin_route jsonb c t a ti command db = (res, db')" "\<And>db2. command db = Inr db2 \<Longrightarrow> same_resources db db2"
  shows "same_resources db db'"
proof -
  let ?check = "require_tenant_admin jsonb (rq_denial_id c) (rq_now c) (rq_principal c) t a ''storage_migration'' ti db"
  show ?thesis
  proof (cases "fst ?check")
    case None
    then have "?check = (None, db)" using require_admin_pass by (metis prod.collapse)
    then show ?thesis using assms by (auto simp: admin_route_def guarded_def same_resources_def split: sum.splits)
  next
    case (Some e)
    then have "db' = snd ?check" using assms(1) by (auto simp: admin_route_def guarded_def split: prod.splits)
    then show ?thesis by (simp add: same_resources_def require_admin_tables)
  qed
qed

lemma on_migration_same:
  "on_migration t i command db = Inr db' \<Longrightarrow> (\<And>row. command row db = Inr db' \<Longrightarrow> same_resources db db') \<Longrightarrow> same_resources db db'"
  by (auto simp: on_migration_def split: option.splits)

lemma on_migration_claims:
  assumes "admin_route jsonb c t a ti (on_migration t i command) db = (res, db')" "claims_inv db"
    and "\<And>row db2. command row db = Inr db2 \<Longrightarrow> same_resources db db2"
  shows "claims_inv db'"
  using admin_route_same_resources [OF assms(1)] on_migration_same assms(3) same_resources_inv assms(2) by metis

lemma create_profile_claims:
  assumes "create_profile jsonb c i key p activate db = (res, db')" "claims_inv db"
  shows "claims_inv db'"
proof -
  let ?check = "require_tenant_access jsonb (rq_denial_id c) (rq_now c) (rq_principal c) (sp_tenant_id p) WriteAccess
      ''storage_profile.create'' ''storage_profile'' None db"
  show ?thesis
  proof (cases "fst ?check")
    case None
    then have "?check = (None, db)" using require_access_pass by (metis prod.collapse)
    then have "db' = db \<or> (\<exists>r. create_profile_command jsonb c i key p activate db = Inr (r, db'))"
      using assms(1) by (auto simp: create_profile_def guarded_def split: sum.splits option.splits)
    then have "db' = db \<or> (\<exists>claims. claim_resources (au_tenants (ad_audit db)) (sp_tenant_id p) (dedicated_resources p) (st_claims db) = Inr claims \<and>
        st_profiles db' = st_profiles db @ [new_profile_row c i p activate] \<and> st_claims db' = claims)"
      using create_profile_command_cases by blast
    then show ?thesis using assms(2) by (auto simp: claims_inv_def dest!: claim_resources_owned)
  next
    case (Some e)
    then have "db' = snd ?check" using assms(1) by (auto simp: create_profile_def guarded_def split: prod.splits)
    then show ?thesis using assms(2) by (simp add: claims_inv_def require_access_tables)
  qed
qed

lemma storage_step_claims:
  assumes "storage_step jsonb factory db db'" "control_inv db" "claims_inv db"
  shows "claims_inv db'"
  using assms(1)
proof cases
  case profile
  then show ?thesis using create_profile_claims assms(3) by blast
next
  case worker
  then show ?thesis using run_once_same_resources same_resources_inv assms(2,3) by blast
next
  case request
  then show ?thesis using admin_route_same_resources command_same_resources(5) same_resources_inv assms(3)
    unfolding create_migration_def by blast
next
  case decide
  then show ?thesis unfolding decide_migration_approval_def by (rule on_migration_claims [OF _ assms(3)]) (rule command_same_resources(1))
next
  case start
  then show ?thesis unfolding start_migration_def by (rule on_migration_claims [OF _ assms(3)]) (rule command_same_resources(2))
next
  case advance
  show ?thesis by (rule on_migration_claims [OF advance(1) [unfolded advance_migration_def] assms(3)]) (rule advance_same_resources)
next
  case rollback_approval
  then show ?thesis unfolding decide_rollback_approval_def by (rule on_migration_claims [OF _ assms(3)]) (rule command_same_resources(4))
next
  case rollback
  then show ?thesis unfolding rollback_migration_def by (rule on_migration_claims [OF _ assms(3)]) (rule command_same_resources(3))
next
  case elsewhere
  then show ?thesis using assms(3) by (simp add: claims_inv_def)
qed

lemma reachable_claims:
  assumes "storage_reachable jsonb factory db"
  shows "claims_inv db"
proof -
  obtain db0 where db0: "no_storage db0" "storage_run jsonb factory db0 db" using assms by (auto simp: storage_reachable_def)
  have 0: "control_inv db0" "claims_inv db0"
    using db0(1) by (simp_all add: no_storage_def control_inv_def profiles_inv_def migrations_inv_def claims_inv_def)
  have "control_inv db \<and> claims_inv db" using db0(2) unfolding storage_run_def
  proof (induction rule: rtranclp_induct)
    case (step x y)
    then show ?case using storage_step_ok storage_step_claims by (auto simp: step_ok_def)
  qed (use 0 in simp)
  then show ?thesis by simp
qed

text \<open>
  Dedicated resources are exclusive. In every reachable state no two profiles of different tenants have
  a dedicated backend of the same kind at the same endpoint, nor the same dedicated worker pool.
\<close>

theorem dedicated_resources_exclusive:
  assumes "storage_reachable jsonb factory db" "p \<in> set (st_profiles db)" "q \<in> set (st_profiles db)"
    and "pf_tenant_id p \<noteq> pf_tenant_id q"
  shows "set (dedicated_resources (pf_profile p)) \<inter> set (dedicated_resources (pf_profile q)) = {}"
proof -
  have "owned (st_claims db) (pf_tenant_id x) r" if "x \<in> set (st_profiles db)" "r \<in> set (dedicated_resources (pf_profile x))" for x r
    using reachable_claims [OF assms(1)] that by (simp add: claims_inv_def pf_tenant_id_def)
  then have "pf_tenant_id p = pf_tenant_id q" if "r \<in> set (dedicated_resources (pf_profile p))" "r \<in> set (dedicated_resources (pf_profile q))" for r
    using assms(2,3) that unfolding owned_def by (metis option.inject)
  then show ?thesis using assms(4) by blast
qed

subsection \<open>A sample history\<close>

text \<open>
  Two profiles of tenant \<open>t\<close>, a migration between them that is approved, copied, validated and
  switched, and one that is denied. Between two steps the audit tables may be anything, so the
  history keeps the storage tables and starts every call from an empty chain.
\<close>

definition sample_profile :: "string \<Rightarrow> string \<Rightarrow> storage_profile" where
  "sample_profile tn name = \<lparr>sp_tenant_id = tn, sp_alias = name, sp_classification = INTERNAL, sp_worker_pool = ''shared-workers'',
     sp_encryption_key_ref = ''vault://tenant/'' @ tn @ ''/k#v'',
     sp_backends = map (\<lambda>k. \<lparr>sb_kind = k, sb_endpoint = ''s3://x'', sb_dedicated = False, sb_secret_ref = ''vault://tenant/'' @ tn @ ''/s#v''\<rparr>) required_kinds\<rparr>"

definition sample_call :: "string \<Rightarrow> call" where
  "sample_call who = \<lparr>rq_principal = \<lparr>pr_subject = who, pr_auth_method = ''emergency'', pr_roles = [''PLATFORM_ADMIN'']\<rparr>, rq_now = 0,
     rq_denial_id = ''e0'', rq_event_id = ''e1''\<rparr>"

definition sample_pf :: "string \<Rightarrow> string \<Rightarrow> bool \<Rightarrow> int \<Rightarrow> profile_row" where
  "sample_pf tn name active v = \<lparr>pf_id = name, pf_profile = sample_profile tn name, pf_active = active, pf_version = v, pf_created_at = 0, pf_updated_at = 0\<rparr>"

definition sample_mg :: "migration_state \<Rightarrow> decision_status \<Rightarrow> validation_evidence option \<Rightarrow> timestamp option \<Rightarrow> int \<Rightarrow> migration_row" where
  "sample_mg st ap val ends v =
     \<lparr>mg_tenant_id = ''t'', mg_id = ''m1'', mg_source = ''p1'', mg_target = ''p2'', mg_state = st, mg_approval_status = ap,
      mg_requested_by = ''alice'', mg_approved_by = (if ap = St_pending then None else Some ''bob''), mg_rollback_status = St_none,
      mg_rollback_requested_by = None, mg_rollback_approved_by = None, mg_validation = val, mg_observation_seconds = 60,
      mg_observation_ends_at = ends, mg_version = v\<rparr>"

definition sample_audits :: audit_tables where
  "sample_audits = empty_audit\<lparr>au_tenants := [''t'', ''u'']\<rparr>"

definition sample_tables :: "profile_row list \<Rightarrow> migration_row list \<Rightarrow> checkpoint_row list \<Rightarrow> storage_tables" where
  "sample_tables ps ms cps = \<lparr>ad_audit = sample_audits, ad_members = [], ad_roles = [], ad_idempotency = [],
     st_profiles = ps, st_claims = [], st_migrations = ms, st_checkpoints = cps\<rparr>"

abbreviation sample_reach :: "profile_row list \<Rightarrow> migration_row list \<Rightarrow> checkpoint_row list \<Rightarrow> bool" where
  "sample_reach ps ms cps \<equiv> storage_reachable (\<lambda>d. d) sample_factory (sample_tables ps ms cps)"

lemma sample_next:
  assumes "sample_reach ps ms cps" "storage_step (\<lambda>d. d) sample_factory (sample_tables ps ms cps) db"
    and "st_profiles db = ps'" "st_claims db = []" "st_migrations db = ms'" "st_checkpoints db = cps'"
  shows "sample_reach ps' ms' cps'"
proof -
  have "storage_step (\<lambda>d. d) sample_factory db (sample_tables ps' ms' cps')"
    by (rule elsewhere) (simp_all add: sample_tables_def assms(3-6))
  then show ?thesis using assms(1,2) unfolding storage_reachable_def storage_run_def by (meson rtranclp.rtrancl_into_rtrancl)
qed

lemma audited_sample:
  assumes "ad_audit db = sample_audits" "who = None \<or> who = Some (rq_principal (sample_call x))" "d = ''ALLOW''" "tn \<in> {''t'', ''u''}"
  shows "\<exists>a. audited (\<lambda>d. d) i now who act d tt ti tn det db = Inr (db\<lparr>ad_audit := a\<rparr>)"
  using assms by (auto simp: audited_def insert_audit_def append_to_chain_def insert_event_row_def sample_audits_def empty_audit_def
      sample_call_def chain_key_def has_key_def Let_def)

lemma sample_profile_valid: "validate_profile (sample_profile tn name) = None" if "name \<in> {''p1'', ''p2''}" "tn \<in> {''t'', ''u''}"
  using that by (auto simp: validate_profile_def sample_profile_def make_storage_profile_def has_each_backend_once_def storage_router_def
      startswith_def alias_pattern_def lower_alnum_def less_eq_char_def required_kinds_def Let_def)

lemma sample_created:
  assumes n: "name \<in> {''p1'', ''p2''}" "tn \<in> {''t'', ''u''}" and f: "name \<notin> pf_id ` set ps" "name \<notin> (sp_alias \<circ> pf_profile) ` set ps"
    and a: "active \<longrightarrow> ps = []"
  obtains r db' where "create_profile (\<lambda>d. d) (sample_call ''alice'') name ''k'' (sample_profile tn name) active (sample_tables ps [] []) = (Inr r, db')"
    "st_profiles db' = ps @ [sample_pf tn name active 1]" "st_claims db' = []" "st_migrations db' = []" "st_checkpoints db' = []"
proof -
  let ?c = "sample_call ''alice''" and ?db = "sample_tables ps [] []" and ?p = "sample_profile tn name"
  have acc: "require_tenant_access (\<lambda>d. d) (rq_denial_id ?c) (rq_now ?c) (rq_principal ?c) (sp_tenant_id ?p) WriteAccess
      ''storage_profile.create'' ''storage_profile'' None ?db = (None, ?db)"
    by (simp add: require_tenant_access_def sample_call_def PLATFORM_ROLES_def)
  have res: "dedicated_resources ?p = []" by (simp add: dedicated_resources_def sample_profile_def required_kinds_def)
  have row: "new_profile_row ?c name ?p active = sample_pf tn name active 1" by (simp add: sample_pf_def sample_call_def)
  have act: "\<not> (active \<and> active_profile_of tn (st_profiles ?db) \<noteq> None)" using a by (auto simp: sample_tables_def active_profile_of_def)
  have ins: "insert_profile_row (sample_pf tn name active 1) (?db\<lparr>st_claims := st_claims ?db\<rparr>) = Inr (?db\<lparr>st_profiles := ps @ [sample_pf tn name active 1]\<rparr>)"
    using f act n(2) by (auto simp: insert_profile_row_def has_key_def pf_key_def pf_alias_key_def pf_tenant_id_def sample_pf_def sample_profile_def
        sample_tables_def tenant_exists_def sample_audits_def image_iff)
  obtain au where au: "audited (\<lambda>d. d) (rq_event_id ?c) (rq_now ?c) (Some (rq_principal ?c)) ''storage_profile.create'' ''ALLOW'' ''storage_profile''
      name tn [(''active'', JBool active)] (?db\<lparr>st_profiles := ps @ [sample_pf tn name active 1]\<rparr>) =
      Inr (?db\<lparr>st_profiles := ps @ [sample_pf tn name active 1], ad_audit := au\<rparr>)"
    using audited_sample [of "?db\<lparr>st_profiles := ps @ [sample_pf tn name active 1]\<rparr>" _ _ _ tn] n(2) by (fastforce simp: sample_tables_def)
  have tid: "sp_tenant_id ?p = tn" by (simp add: sample_profile_def)
  have rep: "replay_for x k' op pl ?db = Inr None" for x k' op pl by (simp add: replay_for_def sample_tables_def)
  have cl: "claim_resources ts tn (dedicated_resources ?p) cs = Inr cs" for ts cs by (simp add: res)
  obtain db3 where rm: "remember (\<lambda>d. d) (pr_subject (rq_principal ?c)) ''k'' ''storage_profile.create'' (profile_request ?p active)
      (profile_result (sample_pf tn name active 1)) (?db\<lparr>st_profiles := ps @ [sample_pf tn name active 1], ad_audit := au\<rparr>) = Inr db3"
    and t3: "st_profiles db3 = ps @ [sample_pf tn name active 1]" "st_claims db3 = []" "st_migrations db3 = []" "st_checkpoints db3 = []"
    by (simp add: remember_def sample_tables_def has_key_def)
  have "create_profile_command (\<lambda>d. d) ?c name ''k'' ?p active ?db = Inr (profile_result (sample_pf tn name active 1), db3)"
    unfolding create_profile_command_def Let_def tid rep sum.case option.case if_not_P [OF act] cl row ins au rm ..
  then have "create_profile (\<lambda>d. d) ?c name ''k'' ?p active ?db = (Inr (profile_result (sample_pf tn name active 1)), db3)"
    by (simp add: create_profile_def guarded_def acc sample_profile_valid [OF n])
  then show thesis using that t3 by blast
qed

lemma sample_create_profile:
  assumes r: "sample_reach ps [] []" and n: "name \<in> {''p1'', ''p2''}" "tn \<in> {''t'', ''u''}"
    and f: "name \<notin> pf_id ` set ps" "name \<notin> (sp_alias \<circ> pf_profile) ` set ps" and a: "active \<longrightarrow> ps = []"
  shows "sample_reach (ps @ [sample_pf tn name active 1]) [] []"
proof -
  obtain x db' where c: "create_profile (\<lambda>d. d) (sample_call ''alice'') name ''k'' (sample_profile tn name) active (sample_tables ps [] []) = (Inr x, db')"
    and t: "st_profiles db' = ps @ [sample_pf tn name active 1]" "st_claims db' = []" "st_migrations db' = []" "st_checkpoints db' = []"
    by (rule sample_created [OF n f a])
  show ?thesis by (rule sample_next [OF r storage_step.profile [OF c] t])
qed

lemma sample_profiles: "sample_reach [sample_pf ''t'' ''p1'' True 1, sample_pf ''t'' ''p2'' False 1] [] []"
proof -
  have "sample_reach [] [] []"
    unfolding storage_reachable_def storage_run_def by (intro exI [of _ "sample_tables [] [] []"]) (simp add: no_storage_def sample_tables_def)
  then have "sample_reach ([] @ [sample_pf ''t'' ''p1'' True 1]) [] []" by (rule sample_create_profile) simp_all
  then have "sample_reach ([sample_pf ''t'' ''p1'' True 1] @ [sample_pf ''t'' ''p2'' False 1]) [] []"
    by (intro sample_create_profile) (simp_all add: sample_pf_def sample_profile_def)
  then show ?thesis by simp
qed

text \<open>A command of an administrator, and the update it makes.\<close>

lemma sample_route:
  assumes "command (sample_tables ps ms cps) = Inr db"
  shows "admin_route (\<lambda>d. d) (sample_call who) ''t'' action ti command (sample_tables ps ms cps) = (Inr (), db)"
  using assms by (simp add: admin_route_def guarded_def require_tenant_admin_def sample_call_def)

lemma sample_audit_command:
  assumes "ad_audit db = sample_audits"
  shows "\<exists>a. audit_command (\<lambda>d. d) (sample_call who) act i ''t'' det db = Inr (db\<lparr>ad_audit := a\<rparr>)"
  using audited_sample [OF assms, of _ _ _ "''t''"] by (simp add: audit_command_def)

abbreviation sample_ps :: "profile_row list" where
  "sample_ps \<equiv> [sample_pf ''t'' ''p1'' True 1, sample_pf ''t'' ''p2'' False 1]"

lemma sample_row_of: "row_of mg_key (''t'', ''m1'') (st_migrations (sample_tables ps [sample_mg st ap val ends v] cps)) = Some (sample_mg st ap val ends v)"
  by (simp add: sample_tables_def row_of_def mg_key_def sample_mg_def)

lemma sample_update:
  "update_migration ''t'' ''m1'' f (sample_tables ps [sample_mg st ap val ends v] cps) = sample_tables ps [f (sample_mg st ap val ends (v + 1))] cps"
  by (simp add: update_migration_def sample_tables_def update_where_def mg_key_def sample_mg_def)

lemma sample_key [simp]: "mg_tenant_id (sample_mg st ap val ends v) = ''t''" "mg_id (sample_mg st ap val ends v) = ''m1''"
  by (simp_all add: sample_mg_def)

lemma sample_audit [simp]: "ad_audit (sample_tables ps ms cps) = sample_audits"
  by (simp add: sample_tables_def)

lemma sample_on_migration:
  assumes r: "sample_reach ps [sample_mg st ap val ends v] cps"
    and c: "command (sample_mg st ap val ends v) (sample_tables ps [sample_mg st ap val ends v] cps) =
        audit_command (\<lambda>d. d) (sample_call who) act ''m1'' ''t'' det (sample_tables ps' ms' cps)"
    and s: "\<And>r db'. admin_route (\<lambda>d. d) (sample_call who) ''t'' action (Some ''m1'') (on_migration ''t'' ''m1'' command)
        (sample_tables ps [sample_mg st ap val ends v] cps) = (r, db') \<Longrightarrow>
        storage_step (\<lambda>d. d) sample_factory (sample_tables ps [sample_mg st ap val ends v] cps) db'"
  shows "sample_reach ps' ms' cps"
proof -
  obtain a where a: "audit_command (\<lambda>d. d) (sample_call who) act ''m1'' ''t'' det (sample_tables ps' ms' cps) = Inr (sample_tables ps' ms' cps\<lparr>ad_audit := a\<rparr>)"
    using sample_audit_command [OF sample_audit] by blast
  have "on_migration ''t'' ''m1'' command (sample_tables ps [sample_mg st ap val ends v] cps) = Inr (sample_tables ps' ms' cps\<lparr>ad_audit := a\<rparr>)"
    unfolding on_migration_def sample_row_of option.case c a ..
  then show ?thesis using sample_next [OF r s [OF sample_route]] by (simp add: sample_tables_def)
qed

lemma sample_requested: "sample_reach sample_ps [sample_mg PREPARED St_pending None None 1] []"
proof -
  let ?c = "sample_call ''alice''" and ?db = "sample_tables sample_ps [] []"
  obtain d where "create_migration_command (\<lambda>d. d) ?c ''m1'' ''t'' ''p2'' 60 ?db =
      audit_command (\<lambda>d. d) ?c ''storage_migration.request'' ''m1'' ''t'' d (sample_tables sample_ps [sample_mg PREPARED St_pending None None 1] [])"
    by (simp add: create_migration_command_def sample_tables_def active_profile_of_def row_of_def sample_pf_def pf_key_def pf_tenant_id_def
        sample_profile_def insert_migration_row_def has_key_def has_open_migration_def sample_mg_def sample_call_def)
  moreover obtain a where "audit_command (\<lambda>d. d) ?c ''storage_migration.request'' ''m1'' ''t'' d (sample_tables sample_ps [sample_mg PREPARED St_pending None None 1] []) =
      Inr (sample_tables sample_ps [sample_mg PREPARED St_pending None None 1] []\<lparr>ad_audit := a\<rparr>)"
    using sample_audit_command [OF sample_audit] by blast
  ultimately have "create_migration (\<lambda>d. d) ?c ''m1'' ''t'' ''p2'' 60 ?db = (Inr (), sample_tables sample_ps [sample_mg PREPARED St_pending None None 1] []\<lparr>ad_audit := a\<rparr>)"
    unfolding create_migration_def by (intro sample_route) simp
  then show ?thesis using sample_next [OF sample_profiles storage_step.request] by (simp add: sample_tables_def)
qed

lemma sample_decided:
  "sample_reach sample_ps [sample_mg (if approve then PREPARED else FAILED) (if approve then St_approved else St_denied) None None 2] []"
proof (rule sample_on_migration [OF sample_requested, where command = "approval_command (\<lambda>d. d) (sample_call ''bob'') approve"])
  show "approval_command (\<lambda>d. d) (sample_call ''bob'') approve (sample_mg PREPARED St_pending None None 1) (sample_tables sample_ps [sample_mg PREPARED St_pending None None 1] []) =
    audit_command (\<lambda>d. d) (sample_call ''bob'') ''storage_migration.approve'' ''m1'' ''t''
      [(''decision'', JStr (if approve then ''APPROVED'' else ''DENIED'')), (''state'', JStr (state_value (if approve then PREPARED else FAILED)))]
      (sample_tables sample_ps [sample_mg (if approve then PREPARED else FAILED) (if approve then St_approved else St_denied) None None 2] [])"
    by (simp add: approval_command_def Let_def sample_update) (simp add: sample_mg_def sample_call_def)
qed (use storage_step.decide in \<open>auto simp: decide_migration_approval_def\<close>)

lemma sample_started: "sample_reach sample_ps [sample_mg BACKFILLING St_approved None None 3] []"
proof (rule sample_on_migration [where command = "start_command (\<lambda>d. d) (sample_call ''bob'')"])
  show "sample_reach sample_ps [sample_mg PREPARED St_approved None None 2] []" using sample_decided [of True] by simp
  have "row_advance START_BACKFILL None (sample_mg PREPARED St_approved None None 2) = Inr BACKFILLING"
    by (simp add: row_advance_def row_machine_def new_machine_def advance_def TRANSITIONS_def sample_mg_def)
  then show "start_command (\<lambda>d. d) (sample_call ''bob'') (sample_mg PREPARED St_approved None None 2) (sample_tables sample_ps [sample_mg PREPARED St_approved None None 2] []) =
    audit_command (\<lambda>d. d) (sample_call ''bob'') ''storage_migration.start'' ''m1'' ''t'' [(''state'', JStr (state_value BACKFILLING))]
      (sample_tables sample_ps [sample_mg BACKFILLING St_approved None None 3] [])"
    by (simp add: start_command_def sample_update) (simp add: sample_mg_def)
qed (use storage_step.start in \<open>auto simp: start_migration_def\<close>)

lemma sample_run_once:
  assumes "sample_reach ps [sample_mg st ap val ends v] cps" "st \<in> set worker_states"
    and "execute_phase (\<lambda>d. d) sample_factory ''e1'' 0 (sample_mg st ap val ends v) (sample_tables ps [sample_mg st ap val ends v] cps) h = (None, db, h')"
    and "st_profiles db = ps'" "st_claims db = []" "st_migrations db = ms'" "st_checkpoints db = cps'"
  shows "sample_reach ps' ms' cps'"
proof -
  have "find (\<lambda>r. mg_tenant_id r = ''t'' \<and> mg_state r \<in> set worker_states) (st_migrations (sample_tables ps [sample_mg st ap val ends v] cps)) = Some (sample_mg st ap val ends v)"
    using assms(2) by (simp add: sample_tables_def) (simp add: sample_mg_def)
  then have "run_once (\<lambda>d. d) sample_factory ''e1'' 0 ''t'' (sample_tables ps [sample_mg st ap val ends v] cps) h = (Inr True, db, h')"
    by (simp add: run_once_def assms(3))
  then show ?thesis using sample_next [OF assms(1) storage_step.worker] assms(4-7) by blast
qed

lemma sample_worker_advance:
  assumes "row_advance x (if x \<in> {VALIDATE, ROLLBACK_VALIDATE} then ev else None) (sample_mg st ap val ends v) = Inr s"
  shows "\<exists>a. worker_advance (\<lambda>d. d) ''e1'' 0 (sample_mg st ap val ends v) x act ev (sample_tables ps [sample_mg st ap val ends v] cps) =
    (None, sample_tables ps [sample_mg s ap (case ev of Some e \<Rightarrow> Some e | None \<Rightarrow> val) ends (v + 1)] cps\<lparr>ad_audit := a\<rparr>)"
proof -
  have e: "set_evidence s ev (sample_mg st ap val ends (v + 1)) = sample_mg s ap (case ev of Some e \<Rightarrow> Some e | None \<Rightarrow> val) ends (v + 1)"
    by (cases ev) (simp_all add: set_evidence_def sample_mg_def)
  let ?db = "sample_tables ps [sample_mg s ap (case ev of Some e \<Rightarrow> Some e | None \<Rightarrow> val) ends (v + 1)] cps"
  obtain a where a: "audited (\<lambda>d. d) ''e1'' 0 None (''storage_migration.worker.'' @ act) ''ALLOW'' ''storage_migration'' ''m1'' ''t''
      [(''state'', JStr (state_value s)), (''operation'', JStr (operation_value x))] ?db = Inr (?db\<lparr>ad_audit := a\<rparr>)"
    using audited_sample [OF sample_audit, of _ _ _ "''t''"] by blast
  show ?thesis unfolding worker_advance_def assms sum.case Let_def sample_key sample_update e a by blast
qed

abbreviation sample_cp :: "checkpoint_row list" where
  "sample_cp \<equiv> [\<lparr>sc_tenant_id = ''t'', sc_migration_id = ''m1'', sc_forward = [(''0'', 0)], sc_rollback = []\<rparr>]"

abbreviation idle_adapters :: adapters where "idle_adapters \<equiv> \<lambda>_. new_memory_adapter"

lemma str_of_zero: "str_of_nat 0 = ''0''"
  by (simp add: str_of_nat.simps digit_char_def char_of_def bit_0)

lemma idle_copies:
  "executor_backfill sample_factory ''t'' ''p1'' ''p2'' idle_adapters = (Inr [(''0'', 0)], idle_adapters)"
  "executor_catch_up sample_factory ''t'' ''p1'' ''p2'' [(''0'', 0)] idle_adapters = (Inr [(''0'', 0)], idle_adapters)"
  by (simp_all add: executor_backfill_def executor_catch_up_def sample_factory_def snapshot_tenant_def changes_since_def new_memory_adapter_def
      as_changes_def apply_changes_def str_of_zero fun_upd_idem)

lemma sample_advances:
  "row_advance BACKFILL_COMPLETE None (sample_mg BACKFILLING ap val ends v) = Inr CATCHING_UP"
  "row_advance CATCH_UP_COMPLETE None (sample_mg CATCHING_UP ap val ends v) = Inr VALIDATING"
  "is_valid e \<Longrightarrow> row_advance VALIDATE (Some e) (sample_mg VALIDATING ap val ends v) = Inr READY_TO_SWITCH"
  "row_advance SWITCH None (sample_mg READY_TO_SWITCH ap val ends v) = Inr OBSERVING"
  by (simp_all add: row_advance_def row_machine_def new_machine_def advance_def TRANSITIONS_def sample_mg_def)

lemma sample_upsert: "cps = [] \<or> cps = sample_cp \<Longrightarrow>
  upsert_checkpoint ''t'' ''m1'' (Some [(''0'', 0)]) None (sample_tables ps ms cps) = sample_tables ps ms sample_cp"
  by (elim disjE) (simp_all add: upsert_checkpoint_def sample_tables_def has_key_def sc_key_def update_where_def)

lemma sample_copy:
  assumes "row_advance x None (sample_mg st St_approved None None v) = Inr s" "cps = [] \<or> cps = sample_cp" "x \<notin> {VALIDATE, ROLLBACK_VALIDATE}"
  shows "\<exists>a. copy_phase (\<lambda>d. d) ''e1'' 0 (sample_mg st St_approved None None v) (Inr [(''0'', 0)], idle_adapters) False x act
      (sample_tables sample_ps [sample_mg st St_approved None None v] cps) =
      (None, sample_tables sample_ps [sample_mg s St_approved None None (v + 1)] sample_cp\<lparr>ad_audit := a\<rparr>, idle_adapters)"
proof -
  obtain a where "worker_advance (\<lambda>d. d) ''e1'' 0 (sample_mg st St_approved None None v) x act None (sample_tables sample_ps [sample_mg st St_approved None None v] sample_cp) =
    (None, sample_tables sample_ps [sample_mg s St_approved None None (v + 1)] sample_cp\<lparr>ad_audit := a\<rparr>)"
    using sample_worker_advance [of x None st St_approved None None v s act sample_ps sample_cp] assms(1,3) by auto
  then show ?thesis using sample_upsert [OF assms(2)] by (intro exI [of _ a]) (simp add: copy_phase_def)
qed

lemma sample_mg_state [simp]:
  "mg_state (sample_mg st ap val ends v) = st" "mg_source (sample_mg st ap val ends v) = ''p1''" "mg_target (sample_mg st ap val ends v) = ''p2''"
  by (simp_all add: sample_mg_def)

lemma sample_checkpoint: "row_of sc_key (''t'', ''m1'') (st_checkpoints (sample_tables ps ms sample_cp)) = Some (hd sample_cp)"
  by (simp add: sample_tables_def row_of_def sc_key_def)

lemma sample_backfilled: "sample_reach sample_ps [sample_mg CATCHING_UP St_approved None None 4] sample_cp"
proof -
  obtain a where "copy_phase (\<lambda>d. d) ''e1'' 0 (sample_mg BACKFILLING St_approved None None 3) (Inr [(''0'', 0)], idle_adapters) False BACKFILL_COMPLETE ''backfill''
      (sample_tables sample_ps [sample_mg BACKFILLING St_approved None None 3] []) =
      (None, sample_tables sample_ps [sample_mg CATCHING_UP St_approved None None (3 + 1)] sample_cp\<lparr>ad_audit := a\<rparr>, idle_adapters)"
    using sample_copy [OF sample_advances(1)] by blast
  then have "execute_phase (\<lambda>d. d) sample_factory ''e1'' 0 (sample_mg BACKFILLING St_approved None None 3)
      (sample_tables sample_ps [sample_mg BACKFILLING St_approved None None 3] []) idle_adapters =
      (None, sample_tables sample_ps [sample_mg CATCHING_UP St_approved None None (3 + 1)] sample_cp\<lparr>ad_audit := a\<rparr>, idle_adapters)"
    by (simp add: execute_phase_def Let_def idle_copies)
  from sample_run_once [OF sample_started _ this] show ?thesis by (simp add: worker_states_def sample_tables_def)
qed

lemma sample_caught_up: "sample_reach sample_ps [sample_mg VALIDATING St_approved None None 5] sample_cp"
proof -
  obtain a where "copy_phase (\<lambda>d. d) ''e1'' 0 (sample_mg CATCHING_UP St_approved None None 4) (Inr [(''0'', 0)], idle_adapters) False CATCH_UP_COMPLETE ''catch_up''
      (sample_tables sample_ps [sample_mg CATCHING_UP St_approved None None 4] sample_cp) =
      (None, sample_tables sample_ps [sample_mg VALIDATING St_approved None None (4 + 1)] sample_cp\<lparr>ad_audit := a\<rparr>, idle_adapters)"
    using sample_copy [OF sample_advances(2)] by blast
  then have "execute_phase (\<lambda>d. d) sample_factory ''e1'' 0 (sample_mg CATCHING_UP St_approved None None 4)
      (sample_tables sample_ps [sample_mg CATCHING_UP St_approved None None 4] sample_cp) idle_adapters =
      (None, sample_tables sample_ps [sample_mg VALIDATING St_approved None None (4 + 1)] sample_cp\<lparr>ad_audit := a\<rparr>, idle_adapters)"
    by (simp add: execute_phase_def Let_def idle_copies sample_checkpoint)
  from sample_run_once [OF sample_backfilled _ this] show ?thesis by (simp add: worker_states_def sample_tables_def)
qed

lemma sample_ready:
  obtains e where "is_valid e" "sample_reach sample_ps [sample_mg READY_TO_SWITCH St_approved (Some e) None 6] sample_cp"
proof -
  obtain e where e: "executor_validate sample_factory ''t'' ''p1'' ''p2'' idle_adapters = Inr e" "is_valid e"
    using same_content_valid [of sample_factory "''t''" "''p1''" "''p2''" idle_adapters] by (auto simp: sample_factory_def)
  obtain a where "worker_advance (\<lambda>d. d) ''e1'' 0 (sample_mg VALIDATING St_approved None None 5) VALIDATE ''validate'' (Some e)
      (sample_tables sample_ps [sample_mg VALIDATING St_approved None None 5] sample_cp) =
      (None, sample_tables sample_ps [sample_mg READY_TO_SWITCH St_approved (Some e) None (5 + 1)] sample_cp\<lparr>ad_audit := a\<rparr>)"
    using sample_worker_advance [of VALIDATE "Some e" VALIDATING St_approved None None 5 READY_TO_SWITCH "''validate''" sample_ps sample_cp]
      sample_advances(3) [OF e(2)] by auto
  then have "execute_phase (\<lambda>d. d) sample_factory ''e1'' 0 (sample_mg VALIDATING St_approved None None 5)
      (sample_tables sample_ps [sample_mg VALIDATING St_approved None None 5] sample_cp) idle_adapters =
      (None, sample_tables sample_ps [sample_mg READY_TO_SWITCH St_approved (Some e) None (5 + 1)] sample_cp\<lparr>ad_audit := a\<rparr>, idle_adapters)"
    using e by (simp add: execute_phase_def Let_def sample_checkpoint)
  from sample_run_once [OF sample_caught_up _ this] show thesis using that [OF e(2)] by (simp add: worker_states_def sample_tables_def)
qed

abbreviation switched_ps :: "profile_row list" where
  "switched_ps \<equiv> [sample_pf ''t'' ''p1'' False 2, sample_pf ''t'' ''p2'' True 2]"

lemma sample_set_active:
  "set_profile_active ''t'' ''p1'' False 0 (sample_tables sample_ps ms cps) = Inr (sample_tables [sample_pf ''t'' ''p1'' False 2, sample_pf ''t'' ''p2'' False 1] ms cps)"
  "set_profile_active ''t'' ''p2'' True 0 (sample_tables [sample_pf ''t'' ''p1'' False 2, sample_pf ''t'' ''p2'' False 1] ms cps) = Inr (sample_tables switched_ps ms cps)"
  by (simp_all add: set_profile_active_def sample_tables_def update_where_def pf_key_def pf_tenant_id_def sample_pf_def sample_profile_def Let_def)

lemma sample_switched:
  obtains e where "is_valid e" "sample_reach switched_ps [sample_mg OBSERVING St_approved (Some e) (Some 60000000) 7] sample_cp"
proof -
  obtain e where e: "is_valid e" "sample_reach sample_ps [sample_mg READY_TO_SWITCH St_approved (Some e) None 6] sample_cp" by (rule sample_ready)
  have "sample_reach switched_ps [sample_mg OBSERVING St_approved (Some e) (Some 60000000) 7] sample_cp"
  proof (rule sample_on_migration [OF e(2), where command = "advance_command (\<lambda>d. d) (sample_call ''bob'') SWITCH"
        and action = "''storage_migration.advance''"])
    have n: "rq_now (sample_call ''bob'') = 0" by (simp add: sample_call_def)
    show "advance_command (\<lambda>d. d) (sample_call ''bob'') SWITCH (sample_mg READY_TO_SWITCH St_approved (Some e) None 6)
        (sample_tables sample_ps [sample_mg READY_TO_SWITCH St_approved (Some e) None 6] sample_cp) =
      audit_command (\<lambda>d. d) (sample_call ''bob'') ''storage_migration.advance'' ''m1'' ''t''
        [(''operation'', JStr (operation_value SWITCH)), (''state'', JStr (state_value OBSERVING))]
        (sample_tables switched_ps [sample_mg OBSERVING St_approved (Some e) (Some 60000000) 7] sample_cp)"
      by (simp add: advance_command_def Let_def sample_advances sample_set_active n sample_update) (simp add: sample_mg_def seconds_def)
  qed (use storage_step.advance [of "\<lambda>d. d" _ _ _ SWITCH] in \<open>simp_all add: advance_migration_def\<close>)
  then show thesis using that e(1) by blast
qed

lemma sample_member: "m \<in> set (st_migrations (sample_tables ps [m] cps))"
  by (simp add: sample_tables_def)


theorem switch_needs_evidence_and_approval_witness:
  "\<exists>db m. storage_reachable (\<lambda>d. d) sample_factory db \<and> m \<in> set (st_migrations db) \<and> mg_state m = OBSERVING \<and>
     (case mg_validation m of None \<Rightarrow> False | Some e \<Rightarrow> is_valid e) \<and> (case mg_approved_by m of None \<Rightarrow> False | Some a \<Rightarrow> a \<noteq> mg_requested_by m)"
proof -
  obtain e where e: "sample_reach switched_ps [sample_mg OBSERVING St_approved (Some e) (Some 60000000) 7] sample_cp"
    by (rule sample_switched)
  let ?m = "sample_mg OBSERVING St_approved (Some e) (Some 60000000) 7"
  have s: "mg_state ?m \<in> {OBSERVING, ROLLING_BACK, ROLLBACK_CATCHING_UP, ROLLBACK_VALIDATING, COMPLETED, ROLLED_BACK}" by simp
  show ?thesis using switch_needs_evidence_and_approval [OF e sample_member s] e sample_member [of ?m switched_ps sample_cp] sample_mg_state(1) by blast
qed

theorem failed_target_never_served_witness:
  "\<exists>db m. storage_reachable (\<lambda>d. d) sample_factory db \<and> m \<in> set (st_migrations db) \<and> mg_state m = FAILED \<and>
     (case resolve_row (mg_tenant_id m) db of None \<Rightarrow> True | Some p \<Rightarrow> pf_id p \<noteq> mg_target m)"
proof -
  let ?m = "sample_mg FAILED St_denied None None 2" and ?db = "sample_tables sample_ps [sample_mg FAILED St_denied None None 2] []"
  have r: "storage_reachable (\<lambda>d. d) sample_factory ?db" using sample_decided [of False] by simp
  have run: "storage_run (\<lambda>d. d) sample_factory ?db ?db" by (simp add: storage_run_def)
  have s: "mg_state ?m \<in> {FAILED, ROLLED_BACK}" by simp
  show ?thesis using failed_target_never_served [OF r sample_member s run] r sample_member [of ?m sample_ps "[]"] sample_mg_state(1) by blast
qed

theorem dedicated_resources_exclusive_witness:
  "\<exists>db p q. storage_reachable (\<lambda>d. d) sample_factory db \<and> p \<in> set (st_profiles db) \<and> q \<in> set (st_profiles db) \<and>
    pf_tenant_id p \<noteq> pf_tenant_id q \<and> set (dedicated_resources (pf_profile p)) \<inter> set (dedicated_resources (pf_profile q)) = {}"
proof -
  have "sample_reach [] [] []"
    unfolding storage_reachable_def storage_run_def by (intro exI [of _ "sample_tables [] [] []"]) (simp add: no_storage_def sample_tables_def)
  then have "sample_reach ([] @ [sample_pf ''t'' ''p1'' True 1]) [] []" by (rule sample_create_profile) simp_all
  then have reach: "sample_reach ([sample_pf ''t'' ''p1'' True 1] @ [sample_pf ''u'' ''p2'' False 1]) [] []"
    by (intro sample_create_profile) (simp_all add: sample_pf_def sample_profile_def)
  note r = dedicated_resources_exclusive [OF reach, of "sample_pf ''t'' ''p1'' True 1" "sample_pf ''u'' ''p2'' False 1"]
  have "pf_tenant_id (sample_pf ''t'' ''p1'' True 1) \<noteq> pf_tenant_id (sample_pf ''u'' ''p2'' False 1)"
    by (simp add: sample_pf_def sample_profile_def pf_tenant_id_def)
  moreover have "sample_pf ''t'' ''p1'' True 1 \<in> set (st_profiles (sample_tables ([sample_pf ''t'' ''p1'' True 1] @ [sample_pf ''u'' ''p2'' False 1]) [] []))"
    "sample_pf ''u'' ''p2'' False 1 \<in> set (st_profiles (sample_tables ([sample_pf ''t'' ''p1'' True 1] @ [sample_pf ''u'' ''p2'' False 1]) [] []))"
    by (simp_all add: sample_tables_def)
  ultimately show ?thesis using r reach by blast
qed

subsection \<open>Repeating a request\<close>

lemma require_access_tables_only:
  assumes "fst (require_tenant_access jsonb i now who t m a tt ti db) = None" "ad_members db' = ad_members db" "ad_roles db' = ad_roles db"
  shows "require_tenant_access jsonb i' now' who t m a tt ti db' = (None, db')"
proof -
  have "member_roles t u db' = member_roles t u db" for u by (simp add: member_roles_def assms(2,3))
  then show ?thesis using assms(1) by (auto simp: require_tenant_access_def Let_def audit_denial_denies split: if_splits)
qed

lemma create_profile_members:
  assumes "create_profile_command jsonb c i key p activate db = Inr (res, db')"
  shows "ad_members db' = ad_members db \<and> ad_roles db' = ad_roles db"
proof (cases "profile_replay c key p activate db = Inr None")
  case True
  obtain claims db1 db2 where "insert_profile_row (new_profile_row c i p activate) (db\<lparr>st_claims := claims\<rparr>) = Inr db1"
    "audited jsonb (rq_event_id c) (rq_now c) (Some (rq_principal c)) ''storage_profile.create'' ''ALLOW''
       ''storage_profile'' i (sp_tenant_id p) [(''active'', JBool activate)] db1 = Inr db2"
    "remember jsonb (pr_subject (rq_principal c)) key ''storage_profile.create'' (profile_request p activate)
       (profile_result (new_profile_row c i p activate)) db2 = Inr db'"
    by (rule create_profile_fresh [OF assms True])
  then show ?thesis by (auto simp: insert_profile_row_def audited_def remember_def split: if_splits sum.splits)
next
  case False
  then show ?thesis using create_profile_command_cases [OF assms] assms
    by (auto simp: create_profile_command_def Let_def split: sum.splits option.splits)
qed

text \<open>
  Creating a Storage Profile is idempotent in its key. When a request succeeded, the same caller's
  same request under the same Idempotency-Key, at any later time with any other identifiers, is
  answered with the stored response and changes nothing: no second profile, claim or audit event.
\<close>

theorem create_profile_idempotent:
  assumes "create_profile jsonb c i key p activate db = (Inr r, db')" "rq_principal c' = rq_principal c"
  shows "\<exists>r'. create_profile jsonb c' i' key p activate db' = (Inr r', db') \<and> (r' = r \<or> r' = jsonb r)"
proof -
  let ?check = "\<lambda>c. require_tenant_access jsonb (rq_denial_id c) (rq_now c) (rq_principal c) (sp_tenant_id p) WriteAccess
      ''storage_profile.create'' ''storage_profile'' None"
  have n: "fst (?check c db) = None" using assms(1) by (auto simp: create_profile_def guarded_def split: prod.splits option.splits)
  then have "?check c db = (None, db)" using require_access_pass by (metis prod.collapse)
  then have v: "validate_profile p = None" and cmd: "create_profile_command jsonb c i key p activate db = Inr (r, db')"
    using assms(1) by (auto simp: create_profile_def guarded_def split: sum.splits option.splits)
  have chk: "?check c' db' = (None, db')"
    unfolding assms(2) by (rule require_access_tables_only [OF n]) (use create_profile_members [OF cmd] in auto)
  have "\<exists>r'. profile_replay c key p activate db' = Inr (Some r') \<and> (r' = r \<or> r' = jsonb r)"
    using create_profile_command_cases [OF cmd] by blast
  then obtain r' where r': "profile_replay c key p activate db' = Inr (Some r')" "r' = r \<or> r' = jsonb r" by blast
  have "create_profile_command jsonb c' i' key p activate db' = Inr (r', db')"
    using r'(1) by (simp add: create_profile_command_def Let_def assms(2))
  then show ?thesis using chk v r'(2) by (auto simp: create_profile_def guarded_def)
qed

theorem create_profile_idempotent_witness:
  "\<exists>r r' db. create_profile (\<lambda>d. d) (sample_call ''alice'') ''p1'' ''k'' (sample_profile ''t'' ''p1'') True (sample_tables [] [] []) = (Inr r, db) \<and>
    create_profile (\<lambda>d. d) (sample_call ''alice''\<lparr>rq_now := 5\<rparr>) ''p9'' ''k'' (sample_profile ''t'' ''p1'') True db = (Inr r', db)"
proof -
  obtain r db where "create_profile (\<lambda>d. d) (sample_call ''alice'') ''p1'' ''k'' (sample_profile ''t'' ''p1'') True (sample_tables [] [] []) = (Inr r, db)"
    by (rule sample_created [of "''p1''" "''t''" "[]" True]) simp_all
  then show ?thesis using create_profile_idempotent [of "\<lambda>d. d" _ _ _ _ _ _ r db "sample_call ''alice''\<lparr>rq_now := 5\<rparr>" "''p9''"] by fastforce
qed

end
