(* ===== verification/Regex.thy ===== *)
theory Regex
  imports Py_Lib
begin

text \<open>
  What \<open>governance.py\<close> uses of Python's \<open>re\<close>: character classes, sequences, alternatives,
  bounded and unbounded repetition, the word boundary and \<open>Pattern.search\<close>. A pattern is
  matched against code points; which code points above 127 are word characters, decimal digits or
  white space is the Unicode database's matter and an argument of the matcher. \<open>search\<close> only
  asks whether a match exists, so greedy and lazy repetition are the same.
\<close>

subsection \<open>Code points\<close>

definition ascii :: "char \<Rightarrow> bool" where
  "ascii c \<longleftrightarrow> of_char c < (128 :: nat)"

definition cp :: "char \<Rightarrow> nat" where
  "cp c = of_char c"

record unicode_tables =
  alphanumeric :: "nat \<Rightarrow> bool"
  decimal :: "nat \<Rightarrow> bool"
  white_space :: "nat \<Rightarrow> bool"

subsection \<open>Classes and patterns\<close>

datatype char_class =
    Lit char
  | LitIgnoreCase char
  | Between char char
  | WordChar
  | DigitChar
  | SpaceChar
  | NoneOf "char list"
  | OneOf "char_class list"

definition is_digit_cp :: "unicode_tables \<Rightarrow> nat \<Rightarrow> bool" where
  "is_digit_cp U x \<longleftrightarrow> (if x < 128 then 48 \<le> x \<and> x \<le> 57 else decimal U x)"

definition is_word_cp :: "unicode_tables \<Rightarrow> nat \<Rightarrow> bool" where
  "is_word_cp U x \<longleftrightarrow>
     (if x < 128 then 48 \<le> x \<and> x \<le> 57 \<or> 65 \<le> x \<and> x \<le> 90 \<or> 97 \<le> x \<and> x \<le> 122 \<or> x = 95
      else alphanumeric U x)"

definition is_space_cp :: "unicode_tables \<Rightarrow> nat \<Rightarrow> bool" where
  "is_space_cp U x \<longleftrightarrow> (if x < 128 then 9 \<le> x \<and> x \<le> 13 \<or> 28 \<le> x \<and> x \<le> 32 else white_space U x)"

text \<open>
  Under \<open>(?i)\<close> a lower-case letter also matches its upper case; the dotted and the dotless i,
  the long s and the Kelvin sign fold to ASCII letters as well.
\<close>

definition folds_to :: "nat \<Rightarrow> char \<Rightarrow> bool" where
  "folds_to x c \<longleftrightarrow>
     x = cp c \<or> 97 \<le> cp c \<and> cp c \<le> 122 \<and> x = cp c - 32 \<or>
     c = CHR ''i'' \<and> (x = 304 \<or> x = 305) \<or> c = CHR ''s'' \<and> x = 383 \<or> c = CHR ''k'' \<and> x = 8490"

fun in_class :: "unicode_tables \<Rightarrow> char_class \<Rightarrow> nat \<Rightarrow> bool" where
  "in_class U (Lit c) x \<longleftrightarrow> x = cp c"
| "in_class U (LitIgnoreCase c) x \<longleftrightarrow> folds_to x c"
| "in_class U (Between a b) x \<longleftrightarrow> cp a \<le> x \<and> x \<le> cp b"
| "in_class U WordChar x \<longleftrightarrow> is_word_cp U x"
| "in_class U DigitChar x \<longleftrightarrow> is_digit_cp U x"
| "in_class U SpaceChar x \<longleftrightarrow> is_space_cp U x"
| "in_class U (NoneOf cs) x \<longleftrightarrow> x \<notin> set (map cp cs)"
| "in_class U (OneOf cs) x \<longleftrightarrow> list_ex (\<lambda>c. in_class U c x) cs"

datatype regex =
    Empty
  | Cls char_class
  | Boundary
  | Seq regex regex
  | Alt regex regex
  | Rep nat "nat option" regex

definition seqs :: "regex list \<Rightarrow> regex" where
  "seqs rs = foldr Seq rs Empty"

definition literal :: "string \<Rightarrow> regex" where
  "literal s = seqs (map (\<lambda>c. Cls (Lit c)) s)"

definition literal_ignore_case :: "string \<Rightarrow> regex" where
  "literal_ignore_case s = seqs (map (\<lambda>c. Cls (LitIgnoreCase c)) s)"

definition exactly :: "nat \<Rightarrow> regex \<Rightarrow> regex" where
  "exactly n r = Rep n (Some n) r"

definition at_least :: "nat \<Rightarrow> regex \<Rightarrow> regex" where
  "at_least n r = Rep n None r"

subsection \<open>The matcher\<close>

text \<open>A position is the code point before it, if there is one, and the text that follows.\<close>

type_synonym position = "nat option \<times> nat list"

definition word_before :: "unicode_tables \<Rightarrow> nat option \<Rightarrow> bool" where
  "word_before U p \<longleftrightarrow> (case p of None \<Rightarrow> False | Some x \<Rightarrow> is_word_cp U x)"

definition word_after :: "unicode_tables \<Rightarrow> nat list \<Rightarrow> bool" where
  "word_after U s \<longleftrightarrow> (case s of [] \<Rightarrow> False | x # _ \<Rightarrow> is_word_cp U x)"

primrec repeat :: "nat \<Rightarrow> (position \<Rightarrow> position list) \<Rightarrow> position list \<Rightarrow> position list" where
  "repeat 0 f ps = ps"
| "repeat (Suc n) f ps = repeat n f (concat (map f ps))"

primrec repeat_up_to :: "nat \<Rightarrow> (position \<Rightarrow> position list) \<Rightarrow> position list \<Rightarrow> position list" where
  "repeat_up_to 0 f ps = ps"
| "repeat_up_to (Suc n) f ps = ps @ (if ps = [] then [] else repeat_up_to n f (concat (map f ps)))"

text \<open>
  All positions a match can end at. An unbounded repetition needs at most as many optional rounds
  as there are characters left, since a round that consumes nothing leads nowhere new.
\<close>

primrec ends :: "unicode_tables \<Rightarrow> regex \<Rightarrow> position \<Rightarrow> position list" where
  "ends U Empty q = [q]"
| "ends U (Cls c) q = (case snd q of [] \<Rightarrow> [] | x # s \<Rightarrow> if in_class U c x then [(Some x, s)] else [])"
| "ends U Boundary q = (if word_before U (fst q) \<noteq> word_after U (snd q) then [q] else [])"
| "ends U (Seq a b) q = concat (map (ends U b) (ends U a q))"
| "ends U (Alt a b) q = ends U a q @ ends U b q"
| "ends U (Rep n m r) q =
     repeat_up_to (case m of None \<Rightarrow> length (snd q) | Some k \<Rightarrow> k - n) (ends U r) (repeat n (ends U r) [q])"

fun search_from :: "unicode_tables \<Rightarrow> regex \<Rightarrow> nat option \<Rightarrow> nat list \<Rightarrow> bool" where
  "search_from U r p [] = (ends U r (p, []) \<noteq> [])"
| "search_from U r p (x # s) = (ends U r (p, x # s) \<noteq> [] \<or> search_from U r (Some x) s)"

definition search :: "unicode_tables \<Rightarrow> regex \<Rightarrow> string \<Rightarrow> bool" where
  "search U r s = search_from U r None (utf8_decode s)"

subsection \<open>What a match is\<close>

text \<open>The documented meaning: \<open>moves U r\<close> relates two positions when \<open>r\<close> matches the text between them.\<close>

primrec moves :: "unicode_tables \<Rightarrow> regex \<Rightarrow> (position \<times> position) set" where
  "moves U Empty = Id"
| "moves U (Cls c) = {((p, x # s), (Some x, s)) | p x s. in_class U c x}"
| "moves U Boundary = {(q, q) | q. word_before U (fst q) \<noteq> word_after U (snd q)}"
| "moves U (Seq a b) = moves U a O moves U b"
| "moves U (Alt a b) = moves U a \<union> moves U b"
| "moves U (Rep n m r) = (\<Union>k \<in> {k. n \<le> k \<and> (case m of None \<Rightarrow> True | Some j \<Rightarrow> k \<le> max n j)}. moves U r ^^ k)"

text \<open>The position after \<open>xs\<close> when \<open>p\<close> is before it.\<close>

definition after :: "nat option \<Rightarrow> nat list \<Rightarrow> nat option" where
  "after p xs = (if xs = [] then p else Some (last xs))"

lemma after_append [simp]: "after (after p xs) ys = after p (xs @ ys)"
  by (simp add: after_def)

lemma after_simps [simp]: "after p [] = p" "after p [x] = Some x"
  by (simp_all add: after_def)

lemma after_Some: "after (Some x) xs = after p (x # xs)"
  by (simp add: after_def)

lemma moves_split: "(q, q') \<in> moves U r \<Longrightarrow> \<exists>w. snd q = w @ snd q' \<and> fst q' = after (fst q) w"
proof (induction r arbitrary: q q')
  case (Cls c)
  then obtain p x s where "q = (p, x # s)" and "q' = (Some x, s)" by auto
  then show ?case by (intro exI [of _ "[x]"]) simp
next
  case (Seq a b)
  then obtain m where "(q, m) \<in> moves U a" and "(m, q') \<in> moves U b" by auto
  with Seq.IH obtain v w where "snd q = v @ snd m" "fst m = after (fst q) v" "snd m = w @ snd q'" "fst q' = after (fst m) w"
    by blast
  then show ?case by (intro exI [of _ "v @ w"]) simp
next
  case (Rep n m r)
  then obtain k where "(q, q') \<in> moves U r ^^ k" by auto
  then show ?case
  proof (induction k arbitrary: q')
    case (Suc k)
    then obtain y where "(q, y) \<in> moves U r ^^ k" and "(y, q') \<in> moves U r" by auto
    with Suc.IH [of y] Rep.IH [of y q'] obtain v w
      where "snd q = v @ snd y" "fst y = after (fst q) v" "snd y = w @ snd q'" "fst q' = after (fst y) w" by blast
    then show ?case by (intro exI [of _ "v @ w"]) simp
  qed (intro exI [of _ "[]"], simp)
qed auto

lemma moves_shrink:
  assumes "(q, q') \<in> moves U r"
  shows "q = q' \<or> length (snd q') < length (snd q)"
proof -
  obtain w where "snd q = w @ snd q'" and "fst q' = after (fst q) w" using moves_split [OF assms] by blast
  then show ?thesis by (cases w) (simp_all add: prod_eq_iff)
qed

text \<open>A run with more rounds than characters has a round that consumes nothing, which can be left out.\<close>

lemma relpow_shrink_length:
  assumes shrink: "\<And>a b. (a, b) \<in> R \<Longrightarrow> a = b \<or> length (snd b) < length (snd a)"
    and "(q, q') \<in> R ^^ k"
  shows "length (snd q') \<le> length (snd q)"
  using assms(2)
proof (induction k arbitrary: q')
  case (Suc k)
  then obtain y where "(q, y) \<in> R ^^ k" and "(y, q') \<in> R" by auto
  with Suc.IH [of y] shrink [of y q'] show ?case by auto
qed simp

lemma relpow_drop_round:
  assumes shrink: "\<And>a b. (a, b) \<in> R \<Longrightarrow> a = b \<or> length (snd b) < length (snd a)"
    and "(q, q') \<in> R ^^ Suc k" and "length (snd q) - length (snd q') \<le> k"
  shows "(q, q') \<in> R ^^ k"
  using assms(2,3)
proof (induction k arbitrary: q')
  case 0
  then have "(q, q') \<in> R" by simp
  with shrink [of q q'] 0 show ?case by auto
next
  case (Suc k)
  then obtain y where qy: "(q, y) \<in> R ^^ Suc k" and yq: "(y, q') \<in> R" by auto
  show ?case
  proof (cases "y = q'")
    case False
    have "length (snd q') < length (snd y)" "length (snd y) \<le> length (snd q)"
      using shrink [OF yq] False relpow_shrink_length [OF shrink qy] by auto
    then have "length (snd q) - length (snd y) \<le> k" using Suc.prems(2) by simp
    from Suc.IH [OF qy this] yq show ?thesis by auto
  qed (use qy in simp)
qed

lemma relpow_short:
  assumes shrink: "\<And>a b. (a, b) \<in> R \<Longrightarrow> a = b \<or> length (snd b) < length (snd a)"
    and "(q, q') \<in> R ^^ k" and "n \<le> k"
  shows "\<exists>j \<le> length (snd q). (q, q') \<in> R ^^ (n + j)"
  using assms(2,3)
proof (induction k)
  case (Suc k)
  show ?case
  proof (cases "Suc k \<le> n + length (snd q)")
    case True
    then show ?thesis using Suc.prems by (intro exI [of _ "Suc k - n"]) auto
  next
    case False
    then have "length (snd q) - length (snd q') \<le> k" and "n \<le> k" by auto
    with Suc relpow_drop_round [OF shrink Suc.prems(1)] show ?thesis by blast
  qed
qed auto

lemma relpow_Suc_Image: "(R ^^ Suc n) `` S = (R ^^ n) `` (R `` S)"
proof -
  have "R ^^ Suc n = R O R ^^ n" by (simp add: relpow_commute)
  then show ?thesis by (simp only: relcomp_Image)
qed

lemma set_repeat:
  "set (repeat n f ps) = ({(a, b). b \<in> set (f a)} ^^ n) `` set ps"
proof (induction n arbitrary: ps)
  case (Suc n)
  have "set (concat (map f ps)) = {(a, b). b \<in> set (f a)} `` set ps" by auto
  then show ?case using Suc [of "concat (map f ps)"] by (simp only: repeat.simps relpow_Suc_Image)
qed auto

lemma set_repeat_up_to:
  "set (repeat_up_to n f ps) = (\<Union>k \<in> {..n}. ({(a, b). b \<in> set (f a)} ^^ k) `` set ps)"
proof (induction n arbitrary: ps)
  case (Suc n)
  let ?R = "{(a, b). b \<in> set (f a)}"
  have step: "set (concat (map f ps)) = ?R `` set ps" by auto
  have "(\<Union>k \<in> {..Suc n}. (?R ^^ k) `` set ps) = set ps \<union> (\<Union>k \<in> {..n}. (?R ^^ Suc k) `` set ps)"
    by (simp add: atMost_Suc_eq_insert_0)
  also have "\<dots> = set ps \<union> set (repeat_up_to n f (concat (map f ps)))"
    by (simp only: relpow_Suc_Image Suc step)
  finally show ?case by (cases "ps = []") auto
qed simp

lemma ends_moves: "q' \<in> set (ends U r q) \<longleftrightarrow> (q, q') \<in> moves U r"
proof (induction r arbitrary: q q')
  case (Cls c)
  then show ?case by (cases q; cases "snd q") auto
next
  case (Rep n m r)
  have R: "{(a, b). b \<in> set (ends U r a)} = moves U r" using Rep by auto
  let ?j = "case m of None \<Rightarrow> length (snd q) | Some k \<Rightarrow> k - n"
  have "q' \<in> set (ends U (Rep n m r) q) \<longleftrightarrow> (\<exists>j \<le> ?j. (q, q') \<in> moves U r ^^ n O moves U r ^^ j)"
    by (simp add: set_repeat_up_to set_repeat R) blast
  also have "\<dots> \<longleftrightarrow> (\<exists>j \<le> ?j. (q, q') \<in> moves U r ^^ (n + j))"
    by (simp only: relpow_add)
  also have "\<dots> \<longleftrightarrow> (q, q') \<in> moves U (Rep n m r)"
  proof (cases m)
    case None
    have "(\<exists>j \<le> length (snd q). (q, q') \<in> moves U r ^^ (n + j)) \<longleftrightarrow> (\<exists>k \<ge> n. (q, q') \<in> moves U r ^^ k)"
      using relpow_short [of "moves U r" q q' _ n] moves_shrink [of _ _ U r] by (meson le_add1)
    then show ?thesis using None by auto
  next
    case (Some k)
    have "(\<exists>j \<le> k - n. (q, q') \<in> moves U r ^^ (n + j)) \<longleftrightarrow> (\<exists>i. n \<le> i \<and> i \<le> max n k \<and> (q, q') \<in> moves U r ^^ i)"
    proof (intro iffI; elim exE conjE)
      fix i assume "n \<le> i" "i \<le> max n k" "(q, q') \<in> moves U r ^^ i"
      then show "\<exists>j \<le> k - n. (q, q') \<in> moves U r ^^ (n + j)" by (intro exI [of _ "i - n"]) auto
    next
      fix j assume "j \<le> k - n" "(q, q') \<in> moves U r ^^ (n + j)"
      then show "\<exists>i. n \<le> i \<and> i \<le> max n k \<and> (q, q') \<in> moves U r ^^ i" by (intro exI [of _ "n + j"]) auto
    qed
    then show ?thesis using Some by auto
  qed
  finally show ?case .
next
  case (Seq a b)
  have "q' \<in> set (ends U (Seq a b) q) \<longleftrightarrow> (\<exists>y. y \<in> set (ends U a q) \<and> q' \<in> set (ends U b y))" by auto
  also have "\<dots> \<longleftrightarrow> (q, q') \<in> moves U (Seq a b)" unfolding Seq.IH moves.simps by blast
  finally show ?case .
qed auto

lemma ends_not_Nil: "ends U r q \<noteq> [] \<longleftrightarrow> (\<exists>q'. (q, q') \<in> moves U r)"
proof -
  have "ends U r q \<noteq> [] \<longleftrightarrow> (\<exists>q'. q' \<in> set (ends U r q))" by (cases "ends U r q") (auto simp del: split_paired_Ex)
  then show ?thesis by (simp only: ends_moves)
qed

text \<open>\<open>search\<close> finds exactly the texts in which some place starts a match.\<close>

lemma search_from_iff:
  "search_from U r p s \<longleftrightarrow> (\<exists>A B q. s = A @ B \<and> ((after p A, B), q) \<in> moves U r)"
proof (induction s arbitrary: p)
  case (Cons x s)
  have "(\<exists>A B q. x # s = A @ B \<and> ((after p A, B), q) \<in> moves U r) \<longleftrightarrow>
      (\<exists>q. ((p, x # s), q) \<in> moves U r) \<or> (\<exists>A B q. s = A @ B \<and> ((after p (x # A), B), q) \<in> moves U r)"
    unfolding Cons_eq_append_conv by (auto simp del: split_paired_Ex) (metis after_simps(1))
  then show ?case using Cons by (simp add: after_Some [of x _ p] ends_not_Nil)
qed (auto simp: ends_not_Nil)

end
