(* ===== verification/Json_Canonical.thy ===== *)
theory Json_Canonical
  imports Py_Lib
begin

text \<open>
  The canonical \<open>json.dumps\<close> text determines the value: two values with the same text are equal up
  to the order of dictionary members. This is what makes a hash or a signature over the text a
  statement about the value.
\<close>

text \<open>The value with every dictionary in key order.\<close>

fun jnorm :: "json \<Rightarrow> json" where
  "jnorm (JList vs) = JList (map jnorm vs)"
| "jnorm (JDict kvs) = JDict (sort_key fst (map (\<lambda>(k, v). (k, jnorm v)) kvs))"
| "jnorm v = v"

text \<open>
  A float is carried as its \<open>repr\<close> text, which is never the numeral of an integer, has no
  delimiter and starts with a digit, a sign or a capital (\<open>NaN\<close>, \<open>Infinity\<close>).
\<close>

definition delimiters :: "char list" where
  "delimiters = [CHR '','', CHR '']'', CHR ''}'']"

definition int_chars :: "char list" where
  "int_chars = ''-0123456789''"

definition float_text :: "string \<Rightarrow> bool" where
  "float_text t \<longleftrightarrow> t \<noteq> [] \<and> hd t \<in> set (int_chars @ ''NI'') \<and> (\<exists>c \<in> set t. c \<notin> set int_chars) \<and>
     (\<forall>c \<in> set t. c \<notin> set delimiters)"

fun wf_json :: "json \<Rightarrow> bool" where
  "wf_json (JFloat t) = float_text t"
| "wf_json (JList vs) = list_all wf_json vs"
| "wf_json (JDict kvs) = list_all (\<lambda>(k, v). wf_json v) kvs"
| "wf_json v = True"

definition ends_value :: "string \<Rightarrow> bool" where
  "ends_value s \<longleftrightarrow> s = [] \<or> hd s \<in> set delimiters"

subsection \<open>Strings\<close>

lemma char_ofI: "of_char c = (n :: nat) \<Longrightarrow> c = char_of n"
  by auto

lemma char_of_eq_iff: "m < 256 \<Longrightarrow> n < 256 \<Longrightarrow> char_of m = (char_of n :: char) \<longleftrightarrow> m = (n :: nat)"
  by (metis char_of_mod_256 mod_less of_char_of)

lemma hex_digit_inject: "m < 16 \<Longrightarrow> n < 16 \<Longrightarrow> hex_digit m = hex_digit n \<longleftrightarrow> m = n"
  by (simp add: hex_digit_def char_of_eq_iff)

text \<open>The second character of an escape of two characters, and whether a character is escaped at all.\<close>

definition short_escape :: "nat \<Rightarrow> nat" where
  "short_escape n = (if n = 10 then 110 else if n = 13 then 114 else if n = 9 then 116 else if n = 8 then 98
     else if n = 12 then 102 else n)"

definition escape_kind :: "nat \<Rightarrow> nat" where
  "escape_kind n = (if n = 34 \<or> n = 92 \<or> n = 10 \<or> n = 13 \<or> n = 9 \<or> n = 8 \<or> n = 12 then 1 else if n < 32 then 2 else 0)"

lemma json_escape_char_kind:
  "json_escape_char c = (let n = of_char c in
     if escape_kind n = 0 then [c]
     else if escape_kind n = 1 then [char_of (92 :: nat), char_of (short_escape n)]
     else [char_of (92 :: nat), CHR ''u'', CHR ''0'', CHR ''0'', hex_digit (n div 16), hex_digit (n mod 16)])"
  by (auto simp: json_escape_char_def escape_kind_def short_escape_def Let_def intro!: char_ofI)

lemma short_escape_lt: "n < 256 \<Longrightarrow> short_escape n < 256"
  by (simp add: short_escape_def)

lemma escape_kinds: "escape_kind n = 0 \<or> escape_kind n = 1 \<or> escape_kind n = 2"
  by (simp add: escape_kind_def)

lemma escape_kind_1: "escape_kind n = 1 \<Longrightarrow> n \<in> {34, 92, 10, 13, 9, 8, 12}"
  by (simp add: escape_kind_def split: if_splits)

lemma short_escape_inject:
  assumes "escape_kind m = 1" "escape_kind n = 1" "short_escape m = short_escape n"
  shows "m = n"
  using escape_kind_1 [OF assms(1)] escape_kind_1 [OF assms(2)] assms(3)
  by (elim insertE emptyE) (simp_all add: short_escape_def)

lemma short_escape_not_u:
  assumes "escape_kind m = 1"
  shows "short_escape m \<noteq> 117"
  using escape_kind_1 [OF assms] by (elim insertE emptyE) (simp_all add: short_escape_def)

lemma escape_plain: "escape_kind (of_char c) = 0 \<Longrightarrow> json_escape_char c = [c] \<and> c \<noteq> char_of (92 :: nat)"
  by (auto simp: json_escape_char_kind Let_def) (simp add: escape_kind_def)

lemma escape_short: "escape_kind (of_char c) = 1 \<Longrightarrow> json_escape_char c = [char_of (92 :: nat), char_of (short_escape (of_char c))]"
  by (simp add: json_escape_char_kind Let_def)

lemma escape_long:
  "escape_kind (of_char c) = 2 \<Longrightarrow>
     json_escape_char c = [char_of (92 :: nat), char_of (117 :: nat), CHR ''0'', CHR ''0'', hex_digit (of_char c div 16), hex_digit (of_char c mod 16)]"
  by (simp add: json_escape_char_kind Let_def char_ofI)

lemma escape_short_inject:
  assumes "escape_kind (of_char c) = 1" "escape_kind (of_char d) = 1"
    "char_of (short_escape (of_char c)) = (char_of (short_escape (of_char d)) :: char)"
  shows "c = d"
proof -
  have "short_escape (of_char c) = short_escape (of_char d)"
    using assms(3) char_of_eq_iff [OF short_escape_lt short_escape_lt, of "of_char c" "of_char d"] by simp
  from short_escape_inject [OF assms(1,2) this] show ?thesis by simp
qed

lemma escape_long_inject:
  fixes c d :: char
  assumes "hex_digit (of_char c div 16) = hex_digit (of_char d div 16)" "hex_digit (of_char c mod 16) = hex_digit (of_char d mod 16)"
  shows "c = d"
proof -
  have lt: "of_char x < (256 :: nat)" for x by simp
  have "of_char c div 16 = (of_char d div 16 :: nat)" "of_char c mod 16 = (of_char d mod 16 :: nat)"
    using assms lt [of c] lt [of d] hex_digit_inject [of "of_char c div 16" "of_char d div 16"]
      hex_digit_inject [of "of_char c mod 16" "of_char d mod 16"] by auto
  then have "of_char c = (of_char d :: nat)" by (metis div_mult_mod_eq)
  then show ?thesis by simp
qed

lemma escape_short_not_u: "escape_kind (of_char c) = 1 \<Longrightarrow> char_of (short_escape (of_char c)) \<noteq> (char_of (117 :: nat) :: char)"
  using short_escape_not_u [of "of_char c"] char_of_eq_iff [OF short_escape_lt, of "of_char c" 117] by simp

lemma escape_prefix_free:
  assumes "json_escape_char c @ s = json_escape_char d @ t"
  shows "c = d \<and> s = t"
  using escape_kinds [of "of_char c"] escape_kinds [of "of_char d"]
proof (elim disjE)
  assume "escape_kind (of_char c) = 2" "escape_kind (of_char d) = 2"
  then show ?thesis using assms escape_long_inject [of c d] by (simp add: escape_long)
next
  assume "escape_kind (of_char c) = 1" "escape_kind (of_char d) = 1"
  then show ?thesis using assms escape_short_inject [of c d] by (simp add: escape_short)
next
  assume "escape_kind (of_char c) = 1" "escape_kind (of_char d) = 2"
  then show ?thesis using assms escape_short_not_u [of c] by (simp add: escape_short escape_long)
next
  assume "escape_kind (of_char c) = 2" "escape_kind (of_char d) = 1"
  then show ?thesis using assms escape_short_not_u [of d] by (simp add: escape_short escape_long)
next
  assume "escape_kind (of_char c) = 0" "escape_kind (of_char d) = 0"
  then show ?thesis using assms by (simp add: escape_plain)
qed (use assms in \<open>auto simp: escape_short escape_long dest: escape_plain\<close>)

lemma escape_not_quote: "json_escape_char c @ s \<noteq> char_of (34 :: nat) # t"
  by (auto simp: json_escape_char_kind Let_def escape_kind_def split: if_splits)

lemma escaped_inject:
  "concat (map json_escape_char a) @ char_of (34 :: nat) # s = concat (map json_escape_char b) @ char_of (34 :: nat) # t
   \<Longrightarrow> a = b \<and> s = t"
proof (induction a arbitrary: b)
  case Nil
  then show ?case using escape_not_quote by (cases b) (auto, metis append_assoc)
next
  case (Cons c a)
  show ?case
  proof (cases b)
    case Nil
    then show ?thesis using Cons.prems escape_not_quote by auto
  next
    case (Cons d b')
    then have "json_escape_char c @ (concat (map json_escape_char a) @ char_of (34 :: nat) # s) =
        json_escape_char d @ (concat (map json_escape_char b') @ char_of (34 :: nat) # t)"
      using Cons.prems by simp
    from escape_prefix_free [OF this] Cons.IH [of b'] show ?thesis using Cons by simp
  qed
qed

lemma json_str_inject: "json_str a @ s = json_str b @ t \<longleftrightarrow> a = b \<and> s = t"
  using escaped_inject [of a s b t] by (auto simp: json_str_def)

subsection \<open>Values\<close>

lemma digit_char_in: "d < 10 \<Longrightarrow> digit_char d \<in> set ''0123456789''"
proof -
  assume "d < 10"
  then have "d \<in> set [0, 1, 2, 3, 4, 5, 6, 7, 8, 9]" by auto
  moreover have "\<forall>d \<in> set [0, 1, 2, 3, 4, 5, 6, 7, 8, 9]. digit_char d \<in> set ''0123456789''"
    by (simp add: digit_char_def char_of_def bit_0)
  ultimately show ?thesis by blast
qed

lemma str_of_nat_chars: "set (str_of_nat n) \<subseteq> set ''0123456789''"
proof (induction n rule: str_of_nat.induct)
  case (1 n)
  show ?case
    using 1 digit_char_in [of n] digit_char_in [of "n mod 10"]
    by (subst str_of_nat.simps) (auto split: if_splits)
qed

lemma str_of_nat_not_Nil [simp]: "str_of_nat n \<noteq> []"
  by (subst str_of_nat.simps) simp

lemma str_of_int_chars: "set (str_of_int i) \<subseteq> set int_chars" "str_of_int i \<noteq> []"
proof -
  have ic: "set int_chars = insert (CHR ''-'') (set ''0123456789'')" by (simp add: int_chars_def)
  have sub: "set (CHR ''-'' # s) \<subseteq> insert (CHR ''-'') S" "set s \<subseteq> insert (CHR ''-'') S" if "set s \<subseteq> S" for s S
    using that by auto
  show "set (str_of_int i) \<subseteq> set int_chars"
    unfolding ic str_of_int_def using sub [OF str_of_nat_chars] by (cases "i < 0") (simp_all only: if_True if_False)
qed (simp add: str_of_int_def)

lemma minus_not_numeral: "CHR ''-'' # xs \<noteq> str_of_nat n"
proof
  assume "CHR ''-'' # xs = str_of_nat n"
  then have "CHR ''-'' \<in> set (str_of_nat n)" by (metis list.set_intros(1))
  then have "CHR ''-'' \<in> set ''0123456789''" using str_of_nat_chars by blast
  then show False by simp
qed

lemma str_of_int_inject: "str_of_int i = str_of_int j \<longleftrightarrow> i = j"
proof (cases "i < 0"; cases "j < 0")
  assume "i < 0" "\<not> j < 0"
  then show ?thesis using minus_not_numeral [of "str_of_nat (nat (- i))" "nat j"] by (auto simp: str_of_int_def)
next
  assume "\<not> i < 0" "j < 0"
  then show ?thesis using minus_not_numeral [of "str_of_nat (nat (- j))" "nat i"] by (auto simp: str_of_int_def)
qed (auto simp: str_of_int_def)

lemma join_Cons: "join sep (x # xs) = x @ concat (map (\<lambda>y. sep @ y) xs)"
  by (induction xs arbitrary: x) auto

lemma ends_value_simps [simp]:
  "ends_value []" "ends_value (CHR '','' # s)" "ends_value (CHR '']'' # s)" "ends_value (CHR ''}'' # s)"
  by (simp_all add: ends_value_def delimiters_def)

text \<open>A text without delimiters is what precedes the first delimiter.\<close>

lemma undelimited_inject:
  assumes "a @ s = b @ t" "set a \<inter> set delimiters = {}" "set b \<inter> set delimiters = {}" "ends_value s" "ends_value t"
  shows "a = b \<and> s = t"
  using assms
proof (induction a arbitrary: b)
  case Nil
  then show ?case by (cases b; cases s) (auto simp: ends_value_def)
next
  case (Cons c a)
  then show ?case by (cases b; cases t) (auto simp: ends_value_def)
qed

text \<open>Numbers and keywords.\<close>

definition scalar :: "json \<Rightarrow> bool" where
  "scalar v \<longleftrightarrow> (case v of JNull \<Rightarrow> True | JBool _ \<Rightarrow> True | JInt _ \<Rightarrow> True | JFloat _ \<Rightarrow> True | _ \<Rightarrow> False)"

lemma int_chars_delimiters: "set int_chars \<inter> set delimiters = {}"
  by (simp add: int_chars_def delimiters_def)

lemma scalar_undelimited:
  assumes "scalar v" "wf_json v"
  shows "set (canonical_dumps v) \<inter> set delimiters = {}"
proof (cases v)
  case (JInt i)
  then show ?thesis using str_of_int_chars(1) [of i] int_chars_delimiters by auto
next
  case (JBool b)
  then show ?thesis by (cases b) (simp_all add: delimiters_def)
qed (use assms in \<open>auto simp: scalar_def float_text_def delimiters_def\<close>)

lemma scalar_head:
  assumes "scalar v" "wf_json v"
  shows "\<exists>c r. canonical_dumps v = c # r \<and> c \<in> set (int_chars @ ''NIntf'')"
proof (cases v)
  case (JInt i)
  then show ?thesis using str_of_int_chars [of i] by (cases "str_of_int i") auto
next
  case (JFloat t)
  then show ?thesis using assms by (cases t) (auto simp: float_text_def)
next
  case (JBool b)
  then show ?thesis by (cases b) simp_all
qed (use assms in \<open>auto simp: scalar_def\<close>)

lemma scalar_inject:
  assumes "scalar v" "scalar w" "wf_json v" "wf_json w" "canonical_dumps v = canonical_dumps w"
  shows "v = w"
proof -
  have key: "set (str_of_int i) \<subseteq> set int_chars" for i by (rule str_of_int_chars)
  have notint: "str_of_int i \<noteq> k" if "\<exists>c \<in> set k. c \<notin> set int_chars" for i k using that key [of i] by auto
  have nt: "str_of_int i \<noteq> ''null''" "str_of_int i \<noteq> ''true''" "str_of_int i \<noteq> ''false''" for i
    by (rule notint, simp add: int_chars_def)+
  have nf: "\<not> float_text ''null''" "\<not> float_text ''true''" "\<not> float_text ''false''"
    by (simp_all add: float_text_def int_chars_def)
  have nfi: "\<not> float_text (str_of_int i)" for i
    using key [of i] by (auto simp: float_text_def)
  show ?thesis
    using assms nt nt [symmetric] nf nfi
    by (cases v; cases w) (auto simp: scalar_def str_of_int_inject split: if_splits)
qed

lemma not_scalar: "\<not> scalar v \<longleftrightarrow> (\<exists>s. v = JStr s) \<or> (\<exists>vs. v = JList vs) \<or> (\<exists>kvs. v = JDict kvs)"
  by (cases v) (simp_all add: scalar_def)

lemma insort_key_members: "insort_key fst (k, f v) (map (\<lambda>(k, v). (k, f v)) kvs) = map (\<lambda>(k, v). (k, f v)) (insort_key fst (k, v) kvs)"
  by (induction kvs) auto

lemma sort_key_members: "sort_key fst (map (\<lambda>(k, v). (k, f v)) kvs) = map (\<lambda>(k, v). (k, f v)) (sort_key fst kvs)"
  by (induction kvs) (auto simp: insort_key_members)

definition member_text :: "string \<times> json \<Rightarrow> string" where
  "member_text m = json_str (fst m) @ '':'' @ canonical_dumps (snd m)"

lemma canonical_dict: "canonical_dumps (JDict kvs) = ''{'' @ join '','' (map member_text (sort_key fst kvs)) @ ''}''"
  unfolding canonical_dumps.simps sort_key_members by (simp add: comp_def case_prod_unfold member_text_def [abs_def])

subsection \<open>Sequences\<close>

definition tail_text :: "('a \<Rightarrow> string) \<Rightarrow> 'a list \<Rightarrow> string" where
  "tail_text F xs = concat (map (\<lambda>x. CHR '','' # F x) xs)"

lemma join_tail: "join '','' (map F (x # xs)) = F x @ tail_text F xs"
  by (simp add: join_Cons tail_text_def comp_def del: join.simps)

lemma ends_value_tail: "c \<in> set delimiters \<Longrightarrow> ends_value (tail_text F xs @ c # s)"
  by (cases xs) (simp_all add: tail_text_def ends_value_def delimiters_def)

lemma tail_text_inject:
  assumes "\<And>x y s t. x \<in> set xs \<Longrightarrow> W y \<Longrightarrow> ends_value s \<Longrightarrow> ends_value t \<Longrightarrow> F x @ s = F y @ t \<Longrightarrow> N x y \<and> s = t"
    and "\<forall>y \<in> set ys. W y" and c: "c \<in> set delimiters" "c \<noteq> CHR '',''"
    and "tail_text F xs @ c # s = tail_text F ys @ c # t"
  shows "list_all2 N xs ys \<and> s = t"
  using assms(1,2,5)
proof (induction xs arbitrary: ys)
  case Nil
  then show ?case using c by (cases ys) (simp_all add: tail_text_def)
next
  case (Cons x xs)
  show ?case
  proof (cases ys)
    case (Cons y ys')
    then have e: "F x @ tail_text F xs @ c # s = F y @ tail_text F ys' @ c # t"
      using Cons.prems(3) by (simp add: tail_text_def)
    have "N x y \<and> tail_text F xs @ c # s = tail_text F ys' @ c # t"
      by (rule Cons.prems(1) [OF _ _ ends_value_tail [OF c(1)] ends_value_tail [OF c(1)] e])
        (use Cons.prems(2) Cons in auto)
    then have xy: "N x y" "tail_text F xs @ c # s = tail_text F ys' @ c # t" by auto
    have "list_all2 N xs ys' \<and> s = t"
      by (rule Cons.IH) (use Cons.prems(1,2) Cons xy(2) in auto)
    then show ?thesis using Cons xy by simp
  qed (use Cons.prems(3) c in \<open>simp add: tail_text_def\<close>)
qed

lemma join_text_inject:
  assumes inj: "\<And>x y s t. x \<in> set xs \<Longrightarrow> W y \<Longrightarrow> ends_value s \<Longrightarrow> ends_value t \<Longrightarrow> F x @ s = F y @ t \<Longrightarrow> N x y \<and> s = t"
    and W: "\<forall>x \<in> set xs. W x" "\<forall>y \<in> set ys. W y" and c: "c \<in> set delimiters" "c \<noteq> CHR '',''"
    and start: "\<And>y u. W y \<Longrightarrow> F y @ u \<noteq> c # s \<and> F y @ u \<noteq> c # t"
    and eq: "join '','' (map F xs) @ c # s = join '','' (map F ys) @ c # t"
  shows "list_all2 N xs ys \<and> s = t"
proof (cases xs; cases ys)
  fix x xs' y ys'
  assume xs: "xs = x # xs'" and ys: "ys = y # ys'"
  have e: "F x @ tail_text F xs' @ c # s = F y @ tail_text F ys' @ c # t"
    using eq unfolding xs ys join_tail by simp
  have xy: "N x y" "tail_text F xs' @ c # s = tail_text F ys' @ c # t"
    using inj [OF _ _ ends_value_tail [OF c(1)] ends_value_tail [OF c(1)] e] W xs ys by auto
  have "list_all2 N xs' ys' \<and> s = t"
    by (rule tail_text_inject [where W = W and F = F and c = c]) (use inj W c xy(2) xs ys in auto)
  then show ?thesis using xy xs ys by simp
next
  fix y ys'
  assume "xs = []" and ys: "ys = y # ys'"
  then have "c # s = F y @ (tail_text F ys' @ c # t)" using eq unfolding ys join_tail by simp
  then show ?thesis using start [of y] W ys by (metis list.set_intros(1))
next
  fix x xs'
  assume xs: "xs = x # xs'" and "ys = []"
  then have "F x @ (tail_text F xs' @ c # s) = c # t" using eq unfolding xs join_tail by simp
  then show ?thesis using start [of x] W xs by (metis list.set_intros(1))
qed (use eq in simp)

subsection \<open>Injectivity\<close>

definition shape :: "json \<Rightarrow> nat" where
  "shape v = (case v of JStr _ \<Rightarrow> 1 | JList _ \<Rightarrow> 2 | JDict _ \<Rightarrow> 3 | _ \<Rightarrow> 0)"

lemma shape_scalar: "shape v = 0 \<longleftrightarrow> scalar v"
  by (cases v) (simp_all add: shape_def scalar_def)

definition head_shape :: "char \<Rightarrow> nat" where
  "head_shape c = (if c = CHR 0x22 then 1 else if c = CHR ''['' then 2 else if c = CHR ''{'' then 3 else 0)"

lemma scalar_chars_shape: "c \<in> set (int_chars @ ''NIntf'') \<Longrightarrow> head_shape c = 0 \<and> c \<notin> set delimiters"
proof -
  have "\<forall>c \<in> set (int_chars @ ''NIntf''). head_shape c = 0 \<and> c \<notin> set delimiters"
    by (simp add: int_chars_def head_shape_def delimiters_def)
  then show "c \<in> set (int_chars @ ''NIntf'') \<Longrightarrow> head_shape c = 0 \<and> c \<notin> set delimiters" by blast
qed

lemma quote_char: "char_of (34 :: nat) = CHR 0x22"
  by (rule char_ofI [symmetric]) simp

lemma dumps_head:
  assumes "wf_json v"
  shows "\<exists>c r. canonical_dumps v = c # r \<and> head_shape c = shape v \<and> c \<notin> set delimiters"
proof (cases "scalar v")
  case True
  obtain c r where "canonical_dumps v = c # r" "c \<in> set (int_chars @ ''NIntf'')" using scalar_head [OF True assms] by blast
  then show ?thesis using scalar_chars_shape [of c] shape_scalar True by auto
next
  case False
  then consider (str) a where "v = JStr a" | (list) vs where "v = JList vs" | (dict) kvs where "v = JDict kvs"
    unfolding not_scalar by blast
  then show ?thesis
    by cases (simp_all add: shape_def head_shape_def json_str_def quote_char delimiters_def del: canonical_dumps.simps(7) add: canonical_dict)
qed

lemma list_all2_map_eq: "list_all2 (\<lambda>x y. f x = f y) xs ys \<Longrightarrow> map f xs = map f ys"
  by (induction rule: list_all2_induct) simp_all

lemma same_shape:
  assumes "wf_json v" "wf_json w" "canonical_dumps v @ s = canonical_dumps w @ t"
  shows "shape v = shape w"
  using dumps_head [OF assms(1)] dumps_head [OF assms(2)] assms(3) by auto

lemma scalar_prefix_inject:
  assumes "scalar v" "wf_json v" "wf_json w" "ends_value s" "ends_value t" "canonical_dumps v @ s = canonical_dumps w @ t"
  shows "jnorm v = jnorm w \<and> s = t"
proof -
  have w: "scalar w" using same_shape [OF assms(2,3,6)] assms(1) shape_scalar by metis
  have "canonical_dumps v = canonical_dumps w \<and> s = t"
    by (rule undelimited_inject [OF assms(6) scalar_undelimited scalar_undelimited]) (use assms w in auto)
  then show ?thesis using scalar_inject [OF assms(1) w assms(2,3)] by simp
qed

lemma delimiter_not_head:
  assumes "wf_json v" "c \<in> set delimiters"
  shows "canonical_dumps v @ u \<noteq> c # s"
  using dumps_head [OF assms(1)] assms(2) by auto

lemma quote_not_delimiter: "c \<in> set delimiters \<Longrightarrow> member_text m @ u \<noteq> c # s"
  by (auto simp: member_text_def json_str_def delimiters_def quote_char)

lemma dumps_prefix_inject:
  "wf_json v \<Longrightarrow> wf_json w \<Longrightarrow> ends_value s \<Longrightarrow> ends_value t \<Longrightarrow> canonical_dumps v @ s = canonical_dumps w @ t
   \<Longrightarrow> jnorm v = jnorm w \<and> s = t"
proof (induction v arbitrary: w s t)
  case (JStr a)
  obtain b where w: "w = JStr b" using same_shape [OF JStr(1,2,5)] by (cases w) (simp_all add: shape_def)
  show ?case using JStr(5) unfolding w by (simp add: json_str_inject)
next
  case (JList vs)
  obtain ws where w: "w = JList ws" using same_shape [OF JList(2,3,6)] by (cases w) (simp_all add: shape_def)
  have "list_all2 (\<lambda>x y. jnorm x = jnorm y) vs ws \<and> s = t"
    by (rule join_text_inject [where W = wf_json and F = canonical_dumps and c = "CHR '']''"])
      (use JList delimiter_not_head in \<open>auto simp: w list_all_iff delimiters_def\<close>)
  then show ?case by (auto simp: w dest: list_all2_map_eq)
next
  case (JDict kvs)
  obtain ms where w: "w = JDict ms" using same_shape [OF JDict(2,3,6)] by (cases w) (simp_all add: shape_def)
  have eq: "join '','' (map member_text (sort_key fst kvs)) @ CHR ''}'' # s = join '','' (map member_text (sort_key fst ms)) @ CHR ''}'' # t"
    using JDict(6) unfolding w canonical_dict by simp
  have step: "(fst x = fst y \<and> jnorm (snd x) = jnorm (snd y)) \<and> u = u'"
    if "x \<in> set (sort_key fst kvs)" "wf_json (snd y)" "ends_value u" "ends_value u'" "member_text x @ u = member_text y @ u'" for x y u u'
  proof -
    have "canonical_dumps (snd x) @ u = canonical_dumps (snd y) @ u'" and k: "fst x = fst y"
      using that(5) by (auto simp: member_text_def json_str_inject)
    moreover have "wf_json (snd x)" "x \<in> set kvs" using that(1) JDict(2) by (auto simp: list_all_iff)
    ultimately show ?thesis using JDict(1) [of x "snd x" "snd y" u u'] that k by (cases x) (auto simp: snds.simps)
  qed
  have "list_all2 (\<lambda>x y. fst x = fst y \<and> jnorm (snd x) = jnorm (snd y)) (sort_key fst kvs) (sort_key fst ms) \<and> s = t"
    by (rule join_text_inject [where W = "\<lambda>m. wf_json (snd m)" and F = member_text and c = "CHR ''}''", OF step _ _ _ _ _ eq])
      (use JDict(2,3) quote_not_delimiter in \<open>auto simp: w list_all_iff delimiters_def\<close>)
  moreover from this have "map (\<lambda>(k, v). (k, jnorm v)) (sort_key fst kvs) = map (\<lambda>(k, v). (k, jnorm v)) (sort_key fst ms)"
    by (intro list_all2_map_eq) (auto elim!: list_all2_mono)
  ultimately show ?case by (simp add: w sort_key_members)
qed (rule scalar_prefix_inject; simp add: scalar_def)+

theorem canonical_dumps_inject:
  "wf_json v \<Longrightarrow> wf_json w \<Longrightarrow> canonical_dumps v = canonical_dumps w \<Longrightarrow> jnorm v = jnorm w"
  using dumps_prefix_inject [of v w "[]" "[]"] by simp

text \<open>Equal members: dictionaries with equal normal forms have the same members up to normal form.\<close>

lemma jnorm_dict_members:
  assumes "jnorm (JDict kvs) = jnorm (JDict ms)"
  shows "set (map (\<lambda>(k, v). (k, jnorm v)) kvs) = set (map (\<lambda>(k, v). (k, jnorm v)) ms)"
proof -
  have "sort_key fst (map (\<lambda>(k, v). (k, jnorm v)) kvs) = sort_key fst (map (\<lambda>(k, v). (k, jnorm v)) ms)"
    using assms by simp
  from arg_cong [OF this, of set] show ?thesis by (simp only: set_sort)
qed

lemma jnorm_field:
  assumes "jnorm (JDict kvs) = jnorm (JDict ms)" "(k, v) \<in> set kvs" "(k, w) \<in> set ms" "distinct (map fst ms)"
  shows "jnorm v = jnorm w"
proof -
  have "(k, jnorm v) \<in> set (map (\<lambda>(k, v). (k, jnorm v)) ms)"
    unfolding jnorm_dict_members [OF assms(1), symmetric] using assms(2) by force
  then obtain w' where "(k, w') \<in> set ms" "jnorm v = jnorm w'" by auto
  moreover have "w' = w" using assms(3,4) calculation(1) by (metis map_of_is_SomeI option.inject)
  ultimately show ?thesis by simp
qed

end
