(* ===== verification/Content_Scan.thy ===== *)
theory Content_Scan
  imports Governance Regex Json_Canonical
begin

text \<open>
  The rest of \<open>trpc_service/governance.py\<close>: secret and DLP detection over serialised messages, the
  outbound decision, masking, and the signed Policy Bundle document; and the before-model callback
  of \<open>agent/runner.py\<close> that applies the decision to a model request.

  The Unicode database is an argument of the detectors. Mask patterns are regular expressions a
  tenant writes, so Python's \<open>re.compile\<close> and \<open>Pattern.sub\<close> for them are arguments too: the
  substitution answers \<open>None\<close> where Python raises \<open>re.error\<close>.
\<close>

type_synonym message = "(string \<times> json) list"

subsection \<open>Detection rules\<close>

record detection_rule =
  dr_name :: string
  dr_pattern :: regex
  dr_classification :: "data_classification option"

definition DQUOTE :: char where "DQUOTE = CHR 0x22"

definition QUOTE :: char where "QUOTE = CHR 0x27"

abbreviation digit :: regex where "digit \<equiv> Cls DigitChar"

definition alts :: "regex list \<Rightarrow> regex" where
  "alts rs = (case rs of [] \<Rightarrow> Empty | r # rs' \<Rightarrow> foldl Alt r rs')"

definition private_key_block :: regex where
  "private_key_block =
     seqs [literal ''-----BEGIN '', at_least 0 (Cls (OneOf [Between (CHR ''A'') (CHR ''Z''), Lit (CHR '' '')])),
           literal ''PRIVATE KEY-----'']"

definition upper_alnum_class :: char_class where
  "upper_alnum_class = OneOf [Between (CHR ''0'') (CHR ''9''), Between (CHR ''A'') (CHR ''Z'')]"

definition aws_access_key :: regex where
  "aws_access_key = seqs [Boundary, literal ''AKIA'', exactly 16 (Cls upper_alnum_class), Boundary]"

definition assigned_api_key :: regex where
  "assigned_api_key =
     seqs [Boundary, alts [literal ''sk'', literal ''rk'', literal ''pk''], literal ''-'',
           at_least 20 (Cls (OneOf [Between (CHR ''A'') (CHR ''Z''), Between (CHR ''a'') (CHR ''z''),
             Between (CHR ''0'') (CHR ''9''), Lit (CHR ''_''), Lit (CHR ''-'')])), Boundary]"

definition credential_assignment :: regex where
  "credential_assignment =
     seqs [Boundary,
       alts [seqs [literal_ignore_case ''api'', Rep 0 (Some 1) (Cls (OneOf [Lit (CHR ''_''), Lit (CHR ''-'')])), literal_ignore_case ''key''],
             literal_ignore_case ''secret'', literal_ignore_case ''password'', literal_ignore_case ''token''],
       at_least 0 (Cls SpaceChar), Cls (OneOf [Lit (CHR ''=''), Lit (CHR '':'')]), at_least 0 (Cls SpaceChar),
       Cls (OneOf [Lit QUOTE, Lit DQUOTE]), at_least 8 (Cls (NoneOf [QUOTE, DQUOTE])), Cls (OneOf [Lit QUOTE, Lit DQUOTE])]"

definition SECRET_DETECTION_RULES :: "detection_rule list" where
  "SECRET_DETECTION_RULES =
     [\<lparr>dr_name = ''private-key-block'', dr_pattern = private_key_block, dr_classification = None\<rparr>,
      \<lparr>dr_name = ''aws-access-key'', dr_pattern = aws_access_key, dr_classification = None\<rparr>,
      \<lparr>dr_name = ''assigned-api-key'', dr_pattern = assigned_api_key, dr_classification = None\<rparr>,
      \<lparr>dr_name = ''credential-assignment'', dr_pattern = credential_assignment, dr_classification = None\<rparr>]"

definition mainland_id_number :: regex where
  "mainland_id_number =
     seqs [Boundary, Cls (Between (CHR ''1'') (CHR ''9'')), exactly 5 digit, alts [literal ''19'', literal ''20''], exactly 2 digit,
       alts [seqs [literal ''0'', Cls (Between (CHR ''1'') (CHR ''9''))], seqs [literal ''1'', Cls (Between (CHR ''0'') (CHR ''2''))]],
       alts [seqs [literal ''0'', Cls (Between (CHR ''1'') (CHR ''9''))],
             seqs [Cls (OneOf [Lit (CHR ''1''), Lit (CHR ''2'')]), digit],
             seqs [literal ''3'', Cls (OneOf [Lit (CHR ''0''), Lit (CHR ''1'')])]],
       exactly 3 digit, Cls (OneOf [DigitChar, Lit (CHR ''X''), Lit (CHR ''x'')]), Boundary]"

definition payment_card_number :: regex where
  "payment_card_number =
     seqs [Boundary, Rep 13 (Some 19) (Seq digit (at_least 0 (Cls (OneOf [Lit (CHR '' ''), Lit (CHR ''-'')])))), Boundary]"

definition mainland_phone_number :: regex where
  "mainland_phone_number =
     seqs [Boundary, literal ''1'', Cls (Between (CHR ''3'') (CHR ''9'')), exactly 9 digit, Boundary]"

definition DLP_RULES :: "detection_rule list" where
  "DLP_RULES =
     [\<lparr>dr_name = ''mainland-id-number'', dr_pattern = mainland_id_number, dr_classification = Some CONFIDENTIAL\<rparr>,
      \<lparr>dr_name = ''payment-card-number'', dr_pattern = payment_card_number, dr_classification = Some CONFIDENTIAL\<rparr>,
      \<lparr>dr_name = ''mainland-phone-number'', dr_pattern = mainland_phone_number, dr_classification = Some INTERNAL\<rparr>]"

subsection \<open>Scanning\<close>

record content_scan_result =
  sc_detected_secrets :: "string list"
  sc_detected_classification :: data_classification

definition scan_blocked :: "content_scan_result \<Rightarrow> bool" where
  "scan_blocked r \<longleftrightarrow> sc_detected_secrets r \<noteq> []"

text \<open>\<open>json.dumps(value, ensure_ascii=False)\<close>: members in insertion order, a space after separators.\<close>

fun json_dumps :: "json \<Rightarrow> string" where
  "json_dumps JNull = ''null''"
| "json_dumps (JBool b) = (if b then ''true'' else ''false'')"
| "json_dumps (JInt i) = str_of_int i"
| "json_dumps (JFloat t) = t"
| "json_dumps (JStr s) = json_str s"
| "json_dumps (JList vs) = ''['' @ join '', '' (map json_dumps vs) @ '']''"
| "json_dumps (JDict kvs) = ''{'' @ join '', '' (map (\<lambda>(k, v). json_str k @ '': '' @ json_dumps v) kvs) @ ''}''"

definition secrets_in :: "unicode_tables \<Rightarrow> string \<Rightarrow> string list" where
  "secrets_in U content = map dr_name (filter (\<lambda>rule. search U (dr_pattern rule) content) SECRET_DETECTION_RULES)"

definition raise_by :: "unicode_tables \<Rightarrow> string \<Rightarrow> data_classification \<Rightarrow> detection_rule \<Rightarrow> data_classification" where
  "raise_by U content detected rule =
     (if dr_classification rule \<noteq> None \<and> search U (dr_pattern rule) content
      then highest_classification [Some detected, dr_classification rule] else detected)"

definition scan_message :: "unicode_tables \<Rightarrow> string list \<times> data_classification \<Rightarrow> message \<Rightarrow> string list \<times> data_classification" where
  "scan_message U acc m =
     (let content = json_dumps (JDict m)
      in (fst acc @ secrets_in U content, foldl (raise_by U content) (snd acc) DLP_RULES))"

definition scan_messages :: "unicode_tables \<Rightarrow> message list \<Rightarrow> content_scan_result" where
  "scan_messages U messages =
     (let (secrets, detected) = foldl (scan_message U) ([], PUBLIC) messages
      in \<lparr>sc_detected_secrets = secrets, sc_detected_classification = detected\<rparr>)"

subsection \<open>Rules and decisions\<close>

record mask_pattern =
  mp_name :: string
  mp_regex :: string
  mp_replacement :: string

record governance_rules =
  gr_max_outbound_classification :: data_classification
  gr_allow_restricted_to_private_endpoints :: bool
  gr_require_approval_above :: "data_classification option"
  gr_secret_detection_enabled :: bool
  gr_mask_patterns :: "mask_pattern list"

datatype decision_type = ALLOW | DENY | MASK | NEEDS_APPROVAL

record governance_decision =
  gd_decision :: decision_type
  gd_effective_classification :: data_classification
  gd_reason :: string
  gd_masked_messages :: "message list option"

datatype re_error = ReError

record re_engine =
  re_compiles :: "string \<Rightarrow> bool"
  re_sub :: "string \<Rightarrow> string \<Rightarrow> string \<Rightarrow> string option"

fun rewrite_all :: "re_engine \<Rightarrow> mask_pattern list \<Rightarrow> string \<Rightarrow> re_error + string" where
  "rewrite_all E [] content = Inr content"
| "rewrite_all E (p # ps) content =
     (case re_sub E (mp_regex p) (mp_replacement p) content of
        None \<Rightarrow> Inl ReError
      | Some rewritten \<Rightarrow> rewrite_all E ps rewritten)"

definition content_of :: "message \<Rightarrow> string" where
  "content_of m = (case dict_get m ''content'' of None \<Rightarrow> [] | Some v \<Rightarrow> py_str v)"

text \<open>\<open>d[k] = v\<close>: the key keeps its place, a new key goes to the end.\<close>

fun dict_set :: "string \<Rightarrow> json \<Rightarrow> message \<Rightarrow> message" where
  "dict_set k v [] = [(k, v)]"
| "dict_set k v ((j, w) # d) = (if j = k then (k, v) # d else (j, w) # dict_set k v d)"

text \<open>The loop of \<open>_apply_masks\<close> from message \<open>index\<close> on; \<open>masked\<close> is the copy made at the first change.\<close>

fun mask_loop :: "re_engine \<Rightarrow> mask_pattern list \<Rightarrow> message list \<Rightarrow> nat \<Rightarrow> message list \<Rightarrow> message list option \<Rightarrow> re_error + message list option" where
  "mask_loop E ps messages index [] masked = Inr masked"
| "mask_loop E ps messages index (m # rest) masked =
     (case rewrite_all E ps (content_of m) of
        Inl e \<Rightarrow> Inl e
      | Inr rewritten \<Rightarrow>
          if rewritten \<noteq> content_of m then
            let copy = (case masked of None \<Rightarrow> messages | Some c \<Rightarrow> c)
            in mask_loop E ps messages (Suc index) rest
                 (Some (copy[index := dict_set ''content'' (JStr rewritten) (copy ! index)]))
          else mask_loop E ps messages (Suc index) rest masked)"

definition apply_masks :: "re_engine \<Rightarrow> governance_rules \<Rightarrow> message list \<Rightarrow> re_error + message list option" where
  "apply_masks E rules messages =
     (if gr_mask_patterns rules = [] then Inr None
      else if \<not> list_all (\<lambda>p. re_compiles E (mp_regex p)) (gr_mask_patterns rules) then Inl ReError
      else mask_loop E (gr_mask_patterns rules) messages 0 messages None)"

definition verdict :: "decision_type \<Rightarrow> data_classification \<Rightarrow> string \<Rightarrow> message list option \<Rightarrow> governance_decision" where
  "verdict d c reason masked =
     \<lparr>gd_decision = d, gd_effective_classification = c, gd_reason = reason, gd_masked_messages = masked\<rparr>"

definition evaluate_outbound ::
  "unicode_tables \<Rightarrow> re_engine \<Rightarrow> governance_rules \<Rightarrow> message list \<Rightarrow> data_classification \<Rightarrow> bool \<Rightarrow> re_error + governance_decision" where
  "evaluate_outbound U E rules messages declared private =
     (let scan = scan_messages U messages;
          effective = highest_classification [Some declared, Some (sc_detected_classification scan)]
      in if gr_secret_detection_enabled rules \<and> scan_blocked scan then
           Inr (verdict DENY effective (''secret detected: '' @ join '', '' (sc_detected_secrets scan)) None)
         else if effective = RESTRICTED \<and> \<not> (gr_allow_restricted_to_private_endpoints rules \<and> private) then
           Inr (verdict DENY effective ''restricted data cannot enter external models'' None)
         else if effective \<noteq> RESTRICTED \<and> rank (gr_max_outbound_classification rules) < rank effective then
           Inr (verdict DENY effective (class_value effective @ '' exceeds the policy ceiling '' @
             class_value (gr_max_outbound_classification rules)) None)
         else if (case gr_require_approval_above rules of None \<Rightarrow> False | Some c \<Rightarrow> rank c < rank effective) then
           Inr (verdict NEEDS_APPROVAL effective (class_value effective @ '' exceeds the approval-free ceiling'') None)
         else (case apply_masks E rules messages of
                 Inl e \<Rightarrow> Inl e
               | Inr (Some masked) \<Rightarrow> Inr (verdict MASK effective ''mask patterns applied'' (Some masked))
               | Inr None \<Rightarrow> Inr (verdict ALLOW effective ''within policy'' None)))"

subsection \<open>Bundles\<close>

definition mask_json :: "mask_pattern \<Rightarrow> json" where
  "mask_json p = JDict [(''name'', JStr (mp_name p)), (''regex'', JStr (mp_regex p)), (''replacement'', JStr (mp_replacement p))]"

definition rules_json :: "governance_rules \<Rightarrow> json" where
  "rules_json r = JDict
     [(''max_outbound_classification'', JStr (class_value (gr_max_outbound_classification r))),
      (''allow_restricted_to_private_endpoints'', JBool (gr_allow_restricted_to_private_endpoints r)),
      (''require_approval_above'', case gr_require_approval_above r of None \<Rightarrow> JNull | Some c \<Rightarrow> JStr (class_value c)),
      (''secret_detection_enabled'', JBool (gr_secret_detection_enabled r)),
      (''mask_patterns'', JList (map mask_json (gr_mask_patterns r)))]"

definition compile_bundle :: "governance_rules \<Rightarrow> int \<Rightarrow> json" where
  "compile_bundle rules version = JDict [(''version'', JInt version), (''governance'', rules_json rules)]"

definition bundle_document :: "governance_rules \<Rightarrow> int \<Rightarrow> json" where
  "bundle_document rules version = JDict
     [(''rules'', rules_json rules), (''version'', JInt version), (''bundle'', compile_bundle rules version)]"

definition sign_bundle :: "governance_rules \<Rightarrow> int \<Rightarrow> string \<Rightarrow> string option" where
  "sign_bundle rules version signing_key =
     (if signing_key = [] then None
      else Some (hmac_sha256_hex signing_key (canonical_dumps (bundle_document rules version))))"

definition verify_bundle :: "governance_rules \<Rightarrow> int \<Rightarrow> string \<Rightarrow> string \<Rightarrow> bool option" where
  "verify_bundle rules version signature signing_key =
     map_option (\<lambda>expected. expected = signature) (sign_bundle rules version signing_key)"

definition canary_bucket :: "string \<Rightarrow> int" where
  "canary_bucket decision_key = int_from_bytes_big (take 8 (sha256 decision_key)) mod 100"

subsection \<open>The before-model callback\<close>

text \<open>
  A model request as the callback sees it: contents with a role and parts, a part being its text or
  \<open>None\<close> (a function call or response). The policy resolver may raise, find no bundle or give rules.
\<close>

record llm_content =
  lc_role :: string
  lc_parts :: "string option list"

datatype resolved_rules = ResolveRaises | NoBundle | Rules governance_rules

datatype callback_result = Proceed | Blocked string | CallbackRaises

definition part_text :: "string option \<Rightarrow> string" where
  "part_text p = (case p of None \<Rightarrow> [] | Some t \<Rightarrow> t)"

definition request_messages :: "llm_content list \<Rightarrow> message list" where
  "request_messages contents =
     map (\<lambda>c. [(''role'', JStr (lc_role c)), (''content'', JStr (concat (map part_text (lc_parts c))))]) contents"

definition apply_masked_contents :: "llm_content list \<Rightarrow> message list \<Rightarrow> llm_content list" where
  "apply_masked_contents contents masked =
     map (\<lambda>(c, m). c\<lparr>lc_parts := map (map_option (\<lambda>_. content_of m)) (lc_parts c)\<rparr>) (zip contents masked) @
     drop (length masked) contents"

definition governance_model_callback ::
  "unicode_tables \<Rightarrow> re_engine \<Rightarrow> resolved_rules \<Rightarrow> data_classification \<Rightarrow> llm_content list \<Rightarrow> callback_result \<times> llm_content list" where
  "governance_model_callback U E resolved declared contents =
     (case resolved of
        ResolveRaises \<Rightarrow> (Blocked ''GOVERNANCE_UNAVAILABLE'', contents)
      | NoBundle \<Rightarrow> (Proceed, contents)
      | Rules rules \<Rightarrow>
          (case evaluate_outbound U E rules (request_messages contents) declared False of
             Inl e \<Rightarrow> (CallbackRaises, contents)
           | Inr d \<Rightarrow>
               (case (gd_decision d, gd_masked_messages d) of
                  (MASK, Some masked) \<Rightarrow> (Proceed, apply_masked_contents contents masked)
                | (DENY, _) \<Rightarrow> (Blocked ''GOVERNANCE_DENIED'', contents)
                | (NEEDS_APPROVAL, _) \<Rightarrow> (Blocked ''GOVERNANCE_APPROVAL_REQUIRED'', contents)
                | _ \<Rightarrow> (Proceed, contents))))"

subsection \<open>Detection is exact\<close>

definition occurs :: "unicode_tables \<Rightarrow> regex \<Rightarrow> string \<Rightarrow> bool" where
  "occurs U r text \<longleftrightarrow> (\<exists>A B q. utf8_decode text = A @ B \<and> ((after None A, B), q) \<in> moves U r)"

lemma search_occurs: "search U r text = occurs U r text"
  by (simp add: search_def occurs_def search_from_iff)

definition message_text :: "message \<Rightarrow> string" where
  "message_text m = json_dumps (JDict m)"

lemma highest_two: "highest_classification [Some a, Some b] = max a b"
  by (auto simp: highest_classification_def raise_to_max max_def)

lemma raise_by_max:
  "raise_by U text d rule =
     (case dr_classification rule of None \<Rightarrow> d | Some c \<Rightarrow> if search U (dr_pattern rule) text then max d c else d)"
  by (auto simp: raise_by_def highest_two split: option.splits)

definition dlp_hits :: "unicode_tables \<Rightarrow> string \<Rightarrow> data_classification set" where
  "dlp_hits U text = {c. \<exists>rule \<in> set DLP_RULES. dr_classification rule = Some c \<and> occurs U (dr_pattern rule) text}"

lemma Max_insert_max: "finite S \<Longrightarrow> Max (insert (max a b) S) = Max (insert a (insert b S))"
  by (cases "S = {}") (simp_all add: max.assoc)

lemma Max_insert_Max:
  assumes "finite H" "finite T"
  shows "Max (insert (Max (insert d H)) T) = Max (insert d (H \<union> T))"
proof (cases "T = {}")
  case False
  have "Max (insert d (H \<union> T)) = Max (insert d H \<union> T)" by simp
  also have "\<dots> = max (Max (insert d H)) (Max T)" using assms False by (intro Max_Un) auto
  finally show ?thesis using assms False by simp
qed simp

lemma foldl_raise_by:
  "foldl (raise_by U text) d rules =
     Max (insert d {c. \<exists>rule \<in> set rules. dr_classification rule = Some c \<and> occurs U (dr_pattern rule) text})"
proof (induction rules arbitrary: d)
  case (Cons r rules)
  let ?S = "\<lambda>rs. {c. \<exists>rule \<in> set rs. dr_classification rule = Some c \<and> occurs U (dr_pattern rule) text}"
  have fin: "finite (?S rs)" for rs
    by (rule finite_subset [of _ "the ` dr_classification ` set rs"]) (auto simp: image_iff, metis option.sel)
  show ?case
  proof (cases "dr_classification r \<noteq> None \<and> occurs U (dr_pattern r) text")
    case True
    then obtain c where c: "dr_classification r = Some c" by blast
    have "?S (r # rules) = insert c (?S rules)" using True c by auto
    then have "insert d (?S (r # rules)) = insert d (insert c (?S rules))" by simp
    moreover have "Max (insert (max d c) (?S rules)) = Max (insert d (insert c (?S rules)))"
      by (rule Max_insert_max [OF fin])
    ultimately show ?thesis using Cons c True by (simp add: raise_by_max search_occurs)
  next
    case False
    then have "?S (r # rules) = ?S rules" by auto
    then show ?thesis using Cons False by (auto simp: raise_by_max search_occurs split: option.splits)
  qed
qed simp

lemma finite_dlp_hits: "finite (dlp_hits U text)"
  by (rule finite_subset [of _ "{PUBLIC, INTERNAL, CONFIDENTIAL, RESTRICTED}"]) (auto intro: data_classification.exhaust)

lemma scan_message_eq:
  "scan_message U acc m = (fst acc @ secrets_in U (message_text m), Max (insert (snd acc) (dlp_hits U (message_text m))))"
  unfolding scan_message_def Let_def message_text_def foldl_raise_by dlp_hits_def by (rule refl)

lemma scan_fold:
  "foldl (scan_message U) (secrets, d) ms =
     (secrets @ concat (map (\<lambda>m. secrets_in U (message_text m)) ms), Max (insert d (\<Union>m \<in> set ms. dlp_hits U (message_text m))))"
proof (induction ms arbitrary: secrets d)
  case (Cons m ms)
  let ?H = "dlp_hits U (message_text m)" and ?T = "\<Union>m \<in> set ms. dlp_hits U (message_text m)"
  have fin: "finite ?H" "finite ?T" by (simp_all add: finite_dlp_hits)
  have "Max (insert (Max (insert d ?H)) ?T) = Max (insert d (?H \<union> ?T))"
    by (rule Max_insert_Max [OF fin])
  then show ?case by (simp add: Cons scan_message_eq [of U _ m])
qed simp

lemma scan_secrets: "sc_detected_secrets (scan_messages U ms) = concat (map (\<lambda>m. secrets_in U (message_text m)) ms)"
  by (simp add: scan_messages_def scan_fold)

lemma scan_classification:
  "sc_detected_classification (scan_messages U ms) = Max (insert PUBLIC (\<Union>m \<in> set ms. dlp_hits U (message_text m)))"
  by (simp add: scan_messages_def scan_fold)

text \<open>
  C26: The scan is exact. A rule's name is reported for a request exactly when the rule's pattern has
  an occurrence, in the documented sense of regular expressions, in the JSON text of some message;
  and the detected classification is the highest one among the DLP rules that occur, PUBLIC when
  none does.
\<close>

theorem scan_exact:
  "(name \<in> set (sc_detected_secrets (scan_messages U ms)) \<longleftrightarrow>
      (\<exists>m \<in> set ms. \<exists>rule \<in> set SECRET_DETECTION_RULES. dr_name rule = name \<and> occurs U (dr_pattern rule) (json_dumps (JDict m)))) \<and>
   sc_detected_classification (scan_messages U ms) =
     Max (insert PUBLIC {c. \<exists>m \<in> set ms. \<exists>rule \<in> set DLP_RULES.
       dr_classification rule = Some c \<and> occurs U (dr_pattern rule) (json_dumps (JDict m))})"
proof
  show "name \<in> set (sc_detected_secrets (scan_messages U ms)) \<longleftrightarrow>
      (\<exists>m \<in> set ms. \<exists>rule \<in> set SECRET_DETECTION_RULES. dr_name rule = name \<and> occurs U (dr_pattern rule) (json_dumps (JDict m)))"
    by (simp add: scan_secrets secrets_in_def search_occurs message_text_def) blast
  have "(\<Union>m \<in> set ms. dlp_hits U (message_text m)) =
      {c. \<exists>m \<in> set ms. \<exists>rule \<in> set DLP_RULES. dr_classification rule = Some c \<and> occurs U (dr_pattern rule) (json_dumps (JDict m))}"
    by (auto simp: dlp_hits_def message_text_def)
  then show "sc_detected_classification (scan_messages U ms) = Max (insert PUBLIC {c. \<exists>m \<in> set ms. \<exists>rule \<in> set DLP_RULES.
       dr_classification rule = Some c \<and> occurs U (dr_pattern rule) (json_dumps (JDict m))})"
    by (simp add: scan_classification)
qed

subsection \<open>Standalone keys are found\<close>

text \<open>Decoding restarts at every ASCII byte.\<close>

lemma utf8_decode_from_append:
  "ascii c \<Longrightarrow> utf8_decode_from k acc (xs @ c # ys) = utf8_decode_from k acc xs @ cp c # utf8_decode_from 0 0 ys"
  by (induction xs arbitrary: k acc) (auto simp: ascii_def cp_def Let_def split: nat.splits)

lemma utf8_decode_append: "ascii c \<Longrightarrow> utf8_decode (xs @ c # ys) = utf8_decode xs @ cp c # utf8_decode ys"
  by (simp add: utf8_decode_def utf8_decode_from_append)

lemma utf8_decode_ascii: "list_all ascii w \<Longrightarrow> utf8_decode (w @ ys) = map cp w @ utf8_decode ys"
proof (induction w)
  case (Cons c w)
  then show ?case using utf8_decode_append [of c "[]" "w @ ys"] by (simp add: utf8_decode_def)
qed simp

lemma moves_seqs_Nil: "(q, q) \<in> moves U (seqs [])"
  by (simp add: seqs_def)

lemma moves_seqs_Cons: "(q, q') \<in> moves U r \<Longrightarrow> (q', q'') \<in> moves U (seqs rs) \<Longrightarrow> (q, q'') \<in> moves U (seqs (r # rs))"
  by (auto simp: seqs_def)

lemma moves_literal: "((p, map cp w @ s), (after p (map cp w), s)) \<in> moves U (literal w)"
proof (induction w arbitrary: p)
  case (Cons c w)
  show ?case
    using Cons [of "Some (cp c)"] after_Some [of "cp c" "map cp w" p]
    unfolding literal_def by (auto intro!: moves_seqs_Cons)
qed (simp add: literal_def seqs_def)

lemma moves_exactly:
  "list_all (in_class U k) w \<Longrightarrow> ((p, w @ s), (after p w, s)) \<in> moves U (exactly (length w) (Cls k))"
proof -
  have "list_all (in_class U k) w \<Longrightarrow> ((p, w @ s), (after p w, s)) \<in> moves U (Cls k) ^^ length w"
  proof (induction w arbitrary: p)
    case (Cons c w)
    have "((p, (c # w) @ s), (Some c, w @ s)) \<in> moves U (Cls k)" using Cons.prems by auto
    moreover have "((Some c, w @ s), (after p (c # w), s)) \<in> moves U (Cls k) ^^ length w"
      using Cons.IH [of "Some c"] Cons.prems after_Some [of c w p] by (simp del: moves.simps)
    ultimately show ?case by (metis length_Cons relpow_Suc_I2)
  qed simp
  then show "list_all (in_class U k) w \<Longrightarrow> ?thesis" by (auto simp: exactly_def)
qed

definition upper_alnum :: "char \<Rightarrow> bool" where
  "upper_alnum c \<longleftrightarrow> CHR ''0'' \<le> c \<and> c \<le> CHR ''9'' \<or> CHR ''A'' \<le> c \<and> c \<le> CHR ''Z''"

definition word_char :: "char \<Rightarrow> bool" where
  "word_char c \<longleftrightarrow> upper_alnum c \<or> CHR ''a'' \<le> c \<and> c \<le> CHR ''z'' \<or> c = CHR ''_''"

lemma of_char_underscore: "of_char (CHR ''_'') = (95 :: nat)"
  by simp

lemma word_char_cp: "word_char c \<longleftrightarrow> cp c < 128 \<and> is_word_cp U (cp c)"
proof -
  have "c = CHR ''_'' \<longleftrightarrow> of_char c = (95 :: nat)" using of_char_eq_iff [of c "CHR ''_''"] of_char_underscore by metis
  then show ?thesis by (auto simp: word_char_def upper_alnum_def is_word_cp_def cp_def less_eq_char_def)
qed

lemma upper_alnum_class: "upper_alnum c \<Longrightarrow> in_class U upper_alnum_class (cp c)"
  by (auto simp: upper_alnum_def upper_alnum_class_def cp_def less_eq_char_def)

lemma upper_alnum_facts:
  assumes "upper_alnum c"
  shows "ascii c" "is_word_cp U (cp c)" "json_escape_char c = [c]"
proof -
  have "48 \<le> cp c" "cp c \<noteq> 92" "cp c < 128" using assms by (auto simp: upper_alnum_def cp_def less_eq_char_def)
  then show "ascii c" "json_escape_char c = [c]" by (auto simp: ascii_def cp_def json_escape_char_def Let_def)
  show "is_word_cp U (cp c)" using assms word_char_cp [of c U] by (auto simp: word_char_def)
qed

lemma aws_key_occurs:
  assumes k: "length k = 16" "list_all upper_alnum k"
    and b: "ascii b" "\<not> word_char b" and a: "ascii a" "\<not> word_char a"
  shows "occurs U aws_access_key (X @ b # ''AKIA'' @ k @ a # Y)"
proof -
  let ?key = "''AKIA'' @ k"
  let ?B = "map cp ?key @ cp a # utf8_decode Y"
  have up: "list_all upper_alnum ?key" using k by (simp add: upper_alnum_def less_eq_char_def)
  have nw: "\<not> is_word_cp U (cp b)" "\<not> is_word_cp U (cp a)"
    using a b word_char_cp [of b U] word_char_cp [of a U] by (auto simp: ascii_def cp_def)
  have dec: "utf8_decode (X @ b # ?key @ a # Y) = (utf8_decode X @ [cp b]) @ ?B"
    using utf8_decode_append [OF b(1), of X "?key @ a # Y"] utf8_decode_ascii [of ?key "a # Y"] utf8_decode_append [OF a(1), of "[]" Y]
      up upper_alnum_facts(1) by (simp add: list_all_iff utf8_decode_def)
  let ?q = "after (Some (cp b)) (map cp ''AKIA'')"
  have whole: "after ?q (map cp k) = Some (last (map cp k))" "k \<noteq> []" using k by (auto simp: after_def)
  have last: "is_word_cp U (last (map cp k))"
    using k whole(2) upper_alnum_facts(2) [of "last k" U] by (simp add: last_map list_all_iff)
  have m1: "((Some (cp b), ?B), (Some (cp b), ?B)) \<in> moves U Boundary"
    using nw upper_alnum_facts(2) [of "CHR ''A''" U] by (simp add: word_before_def word_after_def upper_alnum_def less_eq_char_def)
  have m2: "((Some (cp b), ?B), (?q, map cp k @ cp a # utf8_decode Y)) \<in> moves U (literal ''AKIA'')"
    using moves_literal [of "Some (cp b)" "''AKIA''" "map cp k @ cp a # utf8_decode Y" U] by simp
  have m3: "((?q, map cp k @ cp a # utf8_decode Y), (after ?q (map cp k), cp a # utf8_decode Y)) \<in> moves U (exactly 16 (Cls upper_alnum_class))"
    using moves_exactly [of U upper_alnum_class "map cp k" ?q "cp a # utf8_decode Y"] k upper_alnum_class
    by (simp add: list_all_iff del: moves.simps)
  have m4: "((after ?q (map cp k), cp a # utf8_decode Y), (after ?q (map cp k), cp a # utf8_decode Y)) \<in> moves U Boundary"
    using whole last nw by (simp add: word_before_def word_after_def)
  have "((Some (cp b), ?B), (after ?q (map cp k), cp a # utf8_decode Y)) \<in> moves U aws_access_key"
    unfolding aws_access_key_def
    by (rule moves_seqs_Cons [OF m1], rule moves_seqs_Cons [OF m2], rule moves_seqs_Cons [OF m3], rule moves_seqs_Cons [OF m4], rule moves_seqs_Nil)
  moreover have "after None (utf8_decode X @ [cp b]) = Some (cp b)" by (simp add: after_def)
  ultimately have "((after None (utf8_decode X @ [cp b]), ?B), (after ?q (map cp k), cp a # utf8_decode Y)) \<in> moves U aws_access_key"
    by (simp only:)
  then show ?thesis unfolding occurs_def using dec by (simp only: append_assoc) (intro exI conjI, simp_all)
qed

lemma join_middle: "\<exists>L R. join sep (xs @ x # ys) = L @ x @ R"
proof (cases xs)
  case Nil
  have "join sep ([] @ x # ys) = [] @ x @ concat (map (\<lambda>y. sep @ y) ys)" by (simp add: join_Cons del: join.simps)
  then show ?thesis using Nil by blast
next
  case (Cons y xs')
  have "join sep ((y # xs') @ x # ys) = (y @ concat (map (\<lambda>y. sep @ y) xs') @ sep) @ x @ concat (map (\<lambda>y. sep @ y) ys)"
    by (simp add: join_Cons del: join.simps)
  then show ?thesis using Cons by blast
qed

lemma dict_member_text:
  assumes "(f, JStr v) \<in> set m"
  shows "\<exists>L R. message_text m = L @ json_str v @ R"
proof -
  obtain m1 m2 where "m = m1 @ (f, JStr v) # m2" using assms split_list by meson
  then obtain L R where "message_text m = L @ (json_str f @ '': '' @ json_str v) @ R"
    using join_middle [of "'', ''" "map (\<lambda>(k, v). json_str k @ '': '' @ json_dumps v) m1" "json_str f @ '': '' @ json_str v"
        "map (\<lambda>(k, v). json_str k @ '': '' @ json_dumps v) m2"]
    by (auto simp: message_text_def) (metis append_Cons append_assoc)
  then show ?thesis by (metis append_assoc)
qed

text \<open>A neighbour that leaves the key standing alone after JSON escaping: printable and no word character.\<close>

definition separates :: "char \<Rightarrow> bool" where
  "separates c \<longleftrightarrow> ascii c \<and> 32 \<le> cp c \<and> \<not> word_char c"

lemma escape_last:
  assumes "separates c"
  shows "\<exists>w. json_escape_char c = w @ [c]"
  using assms by (auto simp: separates_def json_escape_char_def cp_def Let_def)

lemma escape_first:
  assumes "ascii c" "\<not> word_char c"
  shows "\<exists>a w. json_escape_char c = a # w \<and> ascii a \<and> \<not> word_char a"
proof -
  have "ascii (char_of (92 :: nat))" "\<not> word_char (char_of (92 :: nat))"
    using word_char_cp [of "char_of (92 :: nat)"] by (auto simp: ascii_def cp_def is_word_cp_def)
  then show ?thesis using assms by (auto simp: json_escape_char_def Let_def)
qed

lemma key_in_text:
  assumes "pre = [] \<or> separates (last pre)" "post = [] \<or> ascii (hd post) \<and> \<not> word_char (hd post)" "list_all upper_alnum key"
  shows "\<exists>X b a Y. json_str (pre @ key @ post) = X @ b # key @ a # Y \<and> ascii b \<and> \<not> word_char b \<and> ascii a \<and> \<not> word_char a"
proof -
  let ?esc = "\<lambda>s. concat (map json_escape_char s)"
  have q: "ascii (char_of (34 :: nat))" "\<not> word_char (char_of (34 :: nat))"
    using word_char_cp [of "char_of (34 :: nat)"] by (auto simp: ascii_def cp_def is_word_cp_def)
  have key: "?esc key = key" using assms(3) upper_alnum_facts(3) by (induction key) auto
  have "\<exists>X b. [char_of (34 :: nat)] @ ?esc pre = X @ [b] \<and> ascii b \<and> \<not> word_char b"
  proof (cases "pre = []")
    case False
    then obtain w where w: "json_escape_char (last pre) = w @ [last pre]" using assms(1) escape_last by auto
    have "[char_of (34 :: nat)] @ ?esc pre = (char_of (34 :: nat) # ?esc (butlast pre) @ w) @ [last pre]"
      using False w by (subst append_butlast_last_id [OF False, symmetric]) (simp only: map_append concat_append list.map concat.simps append_Nil2 append_Cons append_assoc append_Nil)
    then show ?thesis using assms(1) False by (auto simp: separates_def)
  qed (use q in auto)
  then obtain X b where b: "[char_of (34 :: nat)] @ ?esc pre = X @ [b]" "ascii b" "\<not> word_char b" by blast
  have "\<exists>a Y. ?esc post @ [char_of (34 :: nat)] = a # Y \<and> ascii a \<and> \<not> word_char a"
  proof (cases post)
    case (Cons c post')
    then obtain a w where "json_escape_char c = a # w" "ascii a" "\<not> word_char a" using assms(2) escape_first by fastforce
    then show ?thesis using Cons by auto
  qed (use q in auto)
  then obtain a Y where a: "?esc post @ [char_of (34 :: nat)] = a # Y" "ascii a" "\<not> word_char a" by blast
  have "json_str (pre @ key @ post) = ([char_of (34 :: nat)] @ ?esc pre) @ ?esc key @ (?esc post @ [char_of (34 :: nat)])"
    by (simp add: json_str_def)
  also have "\<dots> = X @ b # key @ a # Y" unfolding b(1) a(1) key by simp
  finally show ?thesis using a b by blast
qed

text \<open>
  A standalone access key blocks the request. Whichever field of whichever message carries an AWS
  access key id (\<open>AKIA\<close> and sixteen capitals or digits), with arbitrary text around it, the scan
  reports it as long as the character before the key is a printable ASCII one that is no letter, digit
  or underscore (or the text starts with the key), and the one after it is an ASCII one that is none
  of these.
\<close>

theorem standalone_key_blocked:
  assumes "m \<in> set ms" "(field, JStr (pre @ ''AKIA'' @ k @ post)) \<in> set m"
    and "length k = 16" "list_all upper_alnum k"
    and "pre = [] \<or> separates (last pre)" "post = [] \<or> ascii (hd post) \<and> \<not> word_char (hd post)"
  shows "''aws-access-key'' \<in> set (sc_detected_secrets (scan_messages U ms)) \<and> scan_blocked (scan_messages U ms)"
proof -
  have key: "list_all upper_alnum (''AKIA'' @ k)" using assms(4) by (simp add: upper_alnum_def less_eq_char_def)
  obtain X b a Y where t: "json_str (pre @ (''AKIA'' @ k) @ post) = X @ b # (''AKIA'' @ k) @ a # Y"
    "ascii b" "\<not> word_char b" "ascii a" "\<not> word_char a" using key_in_text [OF assms(5,6) key] by blast
  obtain L R where "message_text m = L @ json_str (pre @ ''AKIA'' @ k @ post) @ R" using dict_member_text [OF assms(2)] by blast
  then have "message_text m = (L @ X) @ b # ''AKIA'' @ k @ a # (Y @ R)" using t(1) by simp
  then have "occurs U aws_access_key (message_text m)" using aws_key_occurs [OF assms(3,4) t(2-5)] by metis
  then have "''aws-access-key'' \<in> set (secrets_in U (message_text m))"
    by (simp add: secrets_in_def search_occurs SECRET_DETECTION_RULES_def)
  then have "''aws-access-key'' \<in> set (sc_detected_secrets (scan_messages U ms))"
    using assms(1) by (auto simp: scan_secrets)
  then show ?thesis by (auto simp: scan_blocked_def)
qed

definition no_tables :: unicode_tables where
  "no_tables = \<lparr>alphanumeric = \<lambda>_. False, decimal = \<lambda>_. False, white_space = \<lambda>_. False\<rparr>"

definition user_message :: "string \<Rightarrow> message" where
  "user_message c = [(''role'', JStr ''user''), (''content'', JStr c)]"

theorem standalone_key_blocked_witness:
  "scan_blocked (scan_messages no_tables [user_message ''hello'', user_message ''use AKIA0123456789ABCDEF, please''])"
proof -
  have "''aws-access-key'' \<in> set (sc_detected_secrets (scan_messages no_tables [user_message ''hello'', user_message ''use AKIA0123456789ABCDEF, please'']))
      \<and> scan_blocked (scan_messages no_tables [user_message ''hello'', user_message ''use AKIA0123456789ABCDEF, please''])"
    by (rule standalone_key_blocked [where m = "user_message ''use AKIA0123456789ABCDEF, please''" and field = "''content''"
          and pre = "''use ''" and k = "''0123456789ABCDEF''" and post = "'', please''"])
      (simp_all add: user_message_def upper_alnum_def separates_def ascii_def word_char_def cp_def less_eq_char_def)
  then show ?thesis by (rule conjunct2)
qed

subsection \<open>Where escaping hides a secret\<close>

lemma repeat_numeral: "repeat (numeral k) f ps = repeat (pred_numeral k) f (concat (map f ps))"
  by (simp add: numeral_eq_Suc)

lemma repeat_up_to_numeral:
  "repeat_up_to (numeral k) f ps = ps @ (if ps = [] then [] else repeat_up_to (pred_numeral k) f (concat (map f ps)))"
  by (simp add: numeral_eq_Suc)

lemmas pattern_simps =
  seqs_def literal_def literal_ignore_case_def exactly_def at_least_def alts_def cp_def is_digit_cp_def is_word_cp_def
  is_space_cp_def folds_to_def word_before_def word_after_def DQUOTE_def QUOTE_def upper_alnum_class_def repeat_numeral repeat_up_to_numeral

lemmas text_simps = utf8_decode_def message_text_def user_message_def json_str_def json_escape_char_def quote_char

definition newline_key :: string where
  "newline_key = CHR 0x0A # ''AKIA0123456789ABCDEF''"

definition quoted_password :: string where
  "quoted_password = ''password='' @ [DQUOTE] @ ''correct-horse-battery'' @ [DQUOTE]"

lemma newline_key_text:
  "utf8_decode (message_text (user_message newline_key)) =
     [123, 34, 114, 111, 108, 101, 34, 58, 32, 34, 117, 115, 101, 114, 34, 44, 32, 34, 99, 111, 110, 116, 101, 110, 116, 34, 58, 32, 34,
      92, 110, 65, 75, 73, 65, 48, 49, 50, 51, 52, 53, 54, 55, 56, 57, 65, 66, 67, 68, 69, 70, 34, 125]"
  by (simp add: text_simps newline_key_def)

lemma quoted_password_text:
  "utf8_decode (message_text (user_message quoted_password)) =
     [123, 34, 114, 111, 108, 101, 34, 58, 32, 34, 117, 115, 101, 114, 34, 44, 32, 34, 99, 111, 110, 116, 101, 110, 116, 34, 58, 32, 34,
      112, 97, 115, 115, 119, 111, 114, 100, 61, 92, 34, 99, 111, 114, 114, 101, 99, 116, 45, 104, 111, 114, 115, 101, 45,
      98, 97, 116, 116, 101, 114, 121, 92, 34, 34, 125]"
  by (simp add: text_simps quoted_password_def DQUOTE_def)

lemma newline_key_search:
  "\<not> search U private_key_block (message_text (user_message newline_key))"
  "\<not> search U aws_access_key (message_text (user_message newline_key))"
  "\<not> search U assigned_api_key (message_text (user_message newline_key))"
  "\<not> search U credential_assignment (message_text (user_message newline_key))"
  unfolding search_def newline_key_text
  by (simp_all add: private_key_block_def aws_access_key_def assigned_api_key_def credential_assignment_def pattern_simps)

lemma quoted_password_search:
  "\<not> search U private_key_block (message_text (user_message quoted_password))"
  "\<not> search U aws_access_key (message_text (user_message quoted_password))"
  "\<not> search U assigned_api_key (message_text (user_message quoted_password))"
  "\<not> search U credential_assignment (message_text (user_message quoted_password))"
  unfolding search_def quoted_password_text
  by (simp_all add: private_key_block_def aws_access_key_def assigned_api_key_def credential_assignment_def pattern_simps)

text \<open>The patterns themselves do match the two contents.\<close>

lemma raw_secrets_match: "search U aws_access_key newline_key" "search U credential_assignment quoted_password"
  by (simp_all add: search_def newline_key_def quoted_password_def utf8_decode_def aws_access_key_def credential_assignment_def pattern_simps)

text \<open>
  Serialising before matching hides secrets. The patterns are run over the JSON text of a message,
  in which a line feed has become a backslash and the letter n, and a double quote has a backslash
  before it. So an AWS key at the start of a line, and a password assigned in double quotes, are not
  reported, although the rules' patterns match these very contents.
\<close>

theorem escaping_hides_secrets:
  "search U aws_access_key newline_key \<and> sc_detected_secrets (scan_messages U [user_message newline_key]) = [] \<and>
   search U credential_assignment quoted_password \<and> sc_detected_secrets (scan_messages U [user_message quoted_password]) = []"
  using raw_secrets_match [of U] newline_key_search [of U] quoted_password_search [of U]
  by (simp add: scan_secrets secrets_in_def SECRET_DETECTION_RULES_def)

subsection \<open>The outbound decision\<close>

lemma dlp_hits_bound: "c \<in> dlp_hits U text \<Longrightarrow> c \<le> CONFIDENTIAL"
  by (auto simp: dlp_hits_def DLP_RULES_def less_eq_data_classification_def rank_def CLASSIFICATION_ORDER_def)

lemma detected_bound: "sc_detected_classification (scan_messages U ms) \<le> CONFIDENTIAL"
  unfolding scan_classification by (rule Max.boundedI) (auto simp: finite_dlp_hits dest: dlp_hits_bound)

lemma le_CONFIDENTIAL: "c \<le> CONFIDENTIAL \<longleftrightarrow> c \<noteq> RESTRICTED"
  by (cases c) (simp_all add: less_eq_data_classification_def rank_def CLASSIFICATION_ORDER_def)

definition effective_class :: "unicode_tables \<Rightarrow> message list \<Rightarrow> data_classification \<Rightarrow> data_classification" where
  "effective_class U ms declared = max declared (sc_detected_classification (scan_messages U ms))"

lemma rank_less_iff: "rank a < rank b \<longleftrightarrow> \<not> b \<le> a"
  by (auto simp: less_eq_data_classification_def)

lemma evaluate_outbound_effective:
  "evaluate_outbound U E rules ms declared private = Inr d \<Longrightarrow> gd_effective_classification d = effective_class U ms declared"
  by (auto simp: evaluate_outbound_def Let_def highest_two effective_class_def verdict_def split: if_splits sum.splits option.splits)


definition open_rules :: governance_rules where
  "open_rules = \<lparr>gr_max_outbound_classification = CONFIDENTIAL, gr_allow_restricted_to_private_endpoints = False,
     gr_require_approval_above = Some CONFIDENTIAL, gr_secret_detection_enabled = True, gr_mask_patterns = []\<rparr>"

definition sample_engine :: re_engine where
  "sample_engine = \<lparr>re_compiles = \<lambda>_. True, re_sub = \<lambda>regex repl text. Some (if text = regex then repl else text)\<rparr>"


subsection \<open>Masking\<close>

definition rewritten :: "re_engine \<Rightarrow> mask_pattern list \<Rightarrow> string \<Rightarrow> string" where
  "rewritten E ps t = (case rewrite_all E ps t of Inl _ \<Rightarrow> t | Inr w \<Rightarrow> w)"

definition mask_message :: "re_engine \<Rightarrow> mask_pattern list \<Rightarrow> message \<Rightarrow> message" where
  "mask_message E ps m =
     (let w = rewritten E ps (content_of m) in if w \<noteq> content_of m then dict_set ''content'' (JStr w) m else m)"

lemma map_of_dict_set: "map_of (dict_set k v d) = (map_of d)(k \<mapsto> v)"
  by (induction k v d rule: dict_set.induct) (auto simp: fun_eq_iff)

lemma content_of_mask: "content_of (mask_message E ps m) = rewritten E ps (content_of m)"
  by (auto simp: mask_message_def Let_def content_of_def dict_get_def map_of_dict_set py_str_def)

definition current :: "message list \<Rightarrow> message list option \<Rightarrow> message list" where
  "current messages masked = (case masked of None \<Rightarrow> messages | Some c \<Rightarrow> c)"

lemma mask_loop_spec:
  "mask_loop E ps messages (length pre) rest masked = Inr r \<Longrightarrow> current messages masked = pre @ rest \<Longrightarrow>
   current messages r = pre @ map (mask_message E ps) rest \<and>
   (r = None \<longleftrightarrow> masked = None \<and> (\<forall>m \<in> set rest. rewritten E ps (content_of m) = content_of m))"
proof (induction rest arbitrary: pre masked)
  case (Cons m rest)
  obtain w where w: "rewrite_all E ps (content_of m) = Inr w" using Cons.prems(1) by (auto split: sum.splits)
  have rw: "rewritten E ps (content_of m) = w" by (simp add: rewritten_def w)
  let ?masked = "if w \<noteq> content_of m then Some ((current messages masked)[length pre := dict_set ''content'' (JStr w) (current messages masked ! length pre)]) else masked"
  have step: "mask_loop E ps messages (length (pre @ [mask_message E ps m])) rest ?masked = Inr r"
    using Cons.prems(1) w by (auto simp: Let_def current_def split: if_splits)
  have cur: "current messages ?masked = (pre @ [mask_message E ps m]) @ rest"
    using Cons.prems(2) by (simp add: current_def mask_message_def rw Let_def)
  from Cons.IH [OF step cur] rw show ?case by auto
qed simp

lemma apply_masks_spec:
  assumes "apply_masks E rules ms = Inr r"
  shows "current ms r = map (mask_message E (gr_mask_patterns rules)) ms \<and>
    (r = None \<longleftrightarrow> (\<forall>m \<in> set ms. rewritten E (gr_mask_patterns rules) (content_of m) = content_of m))"
proof (cases "gr_mask_patterns rules = []")
  case True
  then show ?thesis using assms by (simp add: apply_masks_def current_def mask_message_def rewritten_def map_idI)
next
  case False
  then have "mask_loop E (gr_mask_patterns rules) ms (length []) ms None = Inr r"
    using assms by (auto simp: apply_masks_def split: if_splits)
  from mask_loop_spec [OF this] show ?thesis by (simp add: current_def)
qed

lemma evaluate_outbound_masks:
  assumes "evaluate_outbound U E rules ms declared private = Inr d" "gd_decision d \<in> {ALLOW, MASK}"
  shows "apply_masks E rules ms = Inr (gd_masked_messages d) \<and> (gd_decision d = MASK \<longleftrightarrow> gd_masked_messages d \<noteq> None)"
  using assms by (auto simp: evaluate_outbound_def Let_def verdict_def split: if_splits sum.splits option.splits)

text \<open>
  Masking is complete. When a request is let out, every message goes out with its content rewritten
  by all mask patterns in order and its other fields unchanged: MASK carries exactly these messages,
  and ALLOW is only answered when no pattern changes any content.
\<close>

theorem masking_complete:
  assumes "evaluate_outbound U E rules ms declared private = Inr d" "gd_decision d \<in> {ALLOW, MASK}"
  shows "(case gd_masked_messages d of None \<Rightarrow> ms | Some masked \<Rightarrow> masked) = map (mask_message E (gr_mask_patterns rules)) ms \<and>
    (gd_decision d = ALLOW \<longleftrightarrow> (\<forall>m \<in> set ms. rewritten E (gr_mask_patterns rules) (content_of m) = content_of m)) \<and>
    (\<forall>m. content_of (mask_message E (gr_mask_patterns rules) m) = rewritten E (gr_mask_patterns rules) (content_of m))"
  using apply_masks_spec [of E rules ms] evaluate_outbound_masks [OF assms] assms(2) content_of_mask
  by (auto simp: current_def)

definition mask_rules :: governance_rules where
  "mask_rules = \<lparr>gr_max_outbound_classification = CONFIDENTIAL, gr_allow_restricted_to_private_endpoints = False,
     gr_require_approval_above = None, gr_secret_detection_enabled = False,
     gr_mask_patterns = [\<lparr>mp_name = ''name'', mp_regex = ''Bob'', mp_replacement = ''***''\<rparr>]\<rparr>"

lemma max_le_CONFIDENTIAL: "max PUBLIC (sc_detected_classification (scan_messages U ms)) \<le> CONFIDENTIAL"
  using detected_bound [of U ms] by simp

lemma mask_rules_decision:
  assumes "apply_masks E mask_rules ms = Inr (Some masked)"
  shows "\<exists>d. evaluate_outbound U E mask_rules ms PUBLIC False = Inr d \<and> gd_decision d = MASK \<and> gd_masked_messages d = Some masked"
proof -
  have c: "max PUBLIC (sc_detected_classification (scan_messages U ms)) \<noteq> RESTRICTED"
    "\<not> rank CONFIDENTIAL < rank (max PUBLIC (sc_detected_classification (scan_messages U ms)))"
    using max_le_CONFIDENTIAL [of U ms] by (simp_all add: le_CONFIDENTIAL rank_less_iff)
  have f: "gr_secret_detection_enabled mask_rules = False" "gr_max_outbound_classification mask_rules = CONFIDENTIAL"
    "gr_require_approval_above mask_rules = None" by (simp_all add: mask_rules_def)
  show ?thesis unfolding evaluate_outbound_def Let_def highest_two f using c assms by (simp add: verdict_def)
qed

lemma sample_masks: "apply_masks sample_engine mask_rules [user_message ''Bob''] = Inr (Some [user_message ''***''])"
  by (simp add: apply_masks_def mask_rules_def sample_engine_def user_message_def content_of_def dict_get_def py_str_def)

theorem masking_complete_witness:
  "\<exists>d. evaluate_outbound no_tables sample_engine mask_rules [user_message ''Bob''] PUBLIC False = Inr d \<and>
     gd_masked_messages d = Some (map (mask_message sample_engine (gr_mask_patterns mask_rules)) [user_message ''Bob''])"
proof -
  obtain d where d: "evaluate_outbound no_tables sample_engine mask_rules [user_message ''Bob''] PUBLIC False = Inr d"
    "gd_decision d = MASK" "gd_masked_messages d = Some [user_message ''***'']"
    using mask_rules_decision [OF sample_masks] by blast
  show ?thesis using masking_complete [OF d(1)] d by auto
qed

subsection \<open>The callback\<close>

definition content_text :: "llm_content \<Rightarrow> string" where
  "content_text c = concat (map part_text (lc_parts c))"

definition text_parts :: "llm_content \<Rightarrow> nat" where
  "text_parts c = length (filter (\<lambda>p. p \<noteq> None) (lc_parts c))"

lemma concat_text_parts: "concat (map part_text (map (map_option (\<lambda>_. w)) ps)) = concat (replicate (length (filter (\<lambda>p. p \<noteq> None) ps)) w)"
  by (induction ps) (auto simp: part_text_def split: option.splits)

lemma request_messages_content: "i < length cs \<Longrightarrow> content_of (request_messages cs ! i) = content_text (cs ! i)"
  by (simp add: request_messages_def content_of_def dict_get_def py_str_def content_text_def)

text \<open>
  What a masked request contains. When the governance decision is to mask, the model is called, and
  the text of every content is its masked text once for each text part the content has: a content of
  one text part is masked as intended, one of several is sent with its whole text repeated in each part.
\<close>

theorem masked_parts_repeat:
  assumes "evaluate_outbound U E rules (request_messages cs) declared False = Inr d" "gd_decision d = MASK"
  shows "\<exists>cs'. governance_model_callback U E (Rules rules) declared cs = (Proceed, cs') \<and> length cs' = length cs \<and>
    (\<forall>i < length cs. content_text (cs' ! i) =
       concat (replicate (text_parts (cs ! i)) (rewritten E (gr_mask_patterns rules) (content_text (cs ! i)))))"
proof -
  have am: "apply_masks E rules (request_messages cs) = Inr (gd_masked_messages d)" "gd_masked_messages d \<noteq> None"
    using evaluate_outbound_masks [OF assms(1)] assms(2) by auto
  then obtain masked where d: "gd_masked_messages d = Some masked" by blast
  have m: "masked = map (mask_message E (gr_mask_patterns rules)) (request_messages cs)"
    using apply_masks_spec [OF am(1)] by (simp add: d current_def)
  have len: "length masked = length cs" by (simp add: m request_messages_def)
  have "content_text (apply_masked_contents cs masked ! i) =
       concat (replicate (text_parts (cs ! i)) (rewritten E (gr_mask_patterns rules) (content_text (cs ! i))))" if "i < length cs" for i
    using that len request_messages_content [OF that]
    by (simp add: apply_masked_contents_def content_text_def text_parts_def concat_text_parts [unfolded map_map] m content_of_mask request_messages_def)
  moreover have "length (apply_masked_contents cs masked) = length cs" by (simp add: apply_masked_contents_def len)
  ultimately show ?thesis using assms d by (simp add: governance_model_callback_def)
qed

definition two_parts :: "llm_content list" where
  "two_parts = [\<lparr>lc_role = ''user'', lc_parts = [Some ''B'', Some ''ob'']\<rparr>]"

theorem masked_parts_repeat_witness:
  "\<exists>cs'. governance_model_callback no_tables sample_engine (Rules mask_rules) PUBLIC two_parts = (Proceed, cs') \<and>
     map content_text cs' = [''******'']"
proof -
  have rm: "request_messages two_parts = [user_message ''Bob'']"
    by (simp add: request_messages_def two_parts_def user_message_def part_text_def)
  obtain d where "evaluate_outbound no_tables sample_engine mask_rules (request_messages two_parts) PUBLIC False = Inr d" "gd_decision d = MASK"
    using mask_rules_decision [OF sample_masks] unfolding rm by blast
  from masked_parts_repeat [OF this] obtain cs' where cs': "governance_model_callback no_tables sample_engine (Rules mask_rules) PUBLIC two_parts = (Proceed, cs')"
    "length cs' = 1" "content_text (cs' ! 0) = ''******''"
    by (auto simp: two_parts_def text_parts_def content_text_def part_text_def mask_rules_def sample_engine_def rewritten_def numeral_2_eq_2)
  then have "map content_text cs' = [''******'']" by (cases cs') auto
  then show ?thesis by (intro exI [of _ cs'] conjI cs'(1))
qed

subsection \<open>Signatures\<close>

lemma class_value_inject: "class_value a = class_value b \<longleftrightarrow> a = b"
  by (cases a; cases b) (simp_all add: class_value_def)

lemma jnorm_mask_json:
  assumes "jnorm (mask_json p) = jnorm (mask_json q)"
  shows "p = q"
proof -
  note field = jnorm_field [OF assms [unfolded mask_json_def]]
  have "jnorm (JStr (mp_name p)) = jnorm (JStr (mp_name q))" by (rule field [of "''name''"]) simp_all
  moreover have "jnorm (JStr (mp_regex p)) = jnorm (JStr (mp_regex q))" by (rule field [of "''regex''"]) simp_all
  moreover have "jnorm (JStr (mp_replacement p)) = jnorm (JStr (mp_replacement q))" by (rule field [of "''replacement''"]) simp_all
  ultimately show ?thesis by (cases p; cases q) simp
qed

lemma jnorm_rules_json:
  assumes "jnorm (rules_json r) = jnorm (rules_json r')"
  shows "r = r'"
proof -
  note field = jnorm_field [OF assms [unfolded rules_json_def]]
  have "jnorm (JStr (class_value (gr_max_outbound_classification r))) = jnorm (JStr (class_value (gr_max_outbound_classification r')))"
    by (rule field [of "''max_outbound_classification''"]) simp_all
  moreover have "jnorm (JBool (gr_allow_restricted_to_private_endpoints r)) = jnorm (JBool (gr_allow_restricted_to_private_endpoints r'))"
    by (rule field [of "''allow_restricted_to_private_endpoints''"]) simp_all
  moreover have "jnorm (case gr_require_approval_above r of None \<Rightarrow> JNull | Some c \<Rightarrow> JStr (class_value c)) =
      jnorm (case gr_require_approval_above r' of None \<Rightarrow> JNull | Some c \<Rightarrow> JStr (class_value c))"
    by (rule field [of "''require_approval_above''"]) simp_all
  moreover have "jnorm (JBool (gr_secret_detection_enabled r)) = jnorm (JBool (gr_secret_detection_enabled r'))"
    by (rule field [of "''secret_detection_enabled''"]) simp_all
  moreover have "jnorm (JList (map mask_json (gr_mask_patterns r))) = jnorm (JList (map mask_json (gr_mask_patterns r')))"
    by (rule field [of "''mask_patterns''"]) simp_all
  then have "map (\<lambda>p. jnorm (mask_json p)) (gr_mask_patterns r) = map (\<lambda>p. jnorm (mask_json p)) (gr_mask_patterns r')"
    by (simp add: comp_def)
  then have "gr_mask_patterns r = gr_mask_patterns r'"
    using inj_map_eq_map [OF injI [of "\<lambda>p. jnorm (mask_json p)", OF jnorm_mask_json]] by blast
  ultimately show ?thesis by (cases r; cases r') (simp add: class_value_inject split: option.splits)
qed

lemma wf_bundle_document: "wf_json (bundle_document r v)"
  by (simp add: bundle_document_def compile_bundle_def rules_json_def mask_json_def list_all_iff split: option.splits)

lemma bundle_document_inject:
  assumes "canonical_dumps (bundle_document r v) = canonical_dumps (bundle_document r' v')"
  shows "r = r' \<and> v = v'"
proof -
  have "jnorm (bundle_document r v) = jnorm (bundle_document r' v')"
    by (rule canonical_dumps_inject [OF wf_bundle_document wf_bundle_document assms])
  note field = jnorm_field [OF this [unfolded bundle_document_def]]
  have "jnorm (rules_json r) = jnorm (rules_json r')" by (rule field [of "''rules''"]) simp_all
  moreover have "jnorm (JInt v) = jnorm (JInt v')" by (rule field [of "''version''"]) simp_all
  ultimately have "jnorm (rules_json r) = jnorm (rules_json r')" "v = v'" by simp_all
  then show ?thesis using jnorm_rules_json by blast
qed

text \<open>
  A signature fixes the bundle. A bundle verifies under the signature made for it; and if two
  bundles verify under the same signature and key, they have the same rules and the same version, or
  their two canonical documents differ and HMAC-SHA256 gives both the same code.
\<close>

theorem bundle_tamper_evident:
  assumes "signing_key \<noteq> []" "verify_bundle r v signature signing_key = Some True" "verify_bundle r' v' signature signing_key = Some True"
  shows "sign_bundle r v signing_key = Some signature \<and>
    (r = r' \<and> v = v' \<or>
     (\<exists>a b. a \<noteq> b \<and> a = canonical_dumps (bundle_document r v) \<and> b = canonical_dumps (bundle_document r' v') \<and>
        hmac_sha256_hex signing_key a = hmac_sha256_hex signing_key b))"
  using assms bundle_document_inject [of r v r' v']
  by (cases "canonical_dumps (bundle_document r v) = canonical_dumps (bundle_document r' v')") (auto simp: verify_bundle_def sign_bundle_def)

theorem bundle_tamper_evident_witness:
  "sign_bundle open_rules 3 ''key'' = Some (the (sign_bundle open_rules 3 ''key''))"
proof -
  have v: "verify_bundle open_rules 3 (the (sign_bundle open_rules 3 ''key'')) ''key'' = Some True"
    by (simp add: verify_bundle_def sign_bundle_def)
  show ?thesis using bundle_tamper_evident [OF _ v v] by simp
qed

end
