(* ===== verification/Policy_Bundles.thy ===== *)
theory Policy_Bundles
  imports Content_Scan Storage_Control
begin

text \<open>
  The lifecycle of signed Policy Bundles: \<open>trpc_service/policy_bundles.py\<close> over the table
  \<open>tenant.policy_bundle\<close> (primary key tenant and version), and the commands of
  \<open>admin_api/policies.py\<close>. A stored row keeps the rules as the service validated them; the service's
  signing key is not empty, as its constructor demands. Creating a version is a read of the next number
  and, in another transaction, an insert; the routes are further transactions around it.
\<close>

datatype bundle_status = Bs_draft | Bs_active | Bs_canary | Bs_retired

datatype policy_error = PolicyBundleError string | PolicyDatabase sql_error | PolicyKeyMissing

record bundle_row =
  bu_tenant_id :: uuid
  bu_version :: int
  bu_rules :: governance_rules
  bu_bundle :: json
  bu_signature :: string
  bu_status :: bundle_status
  bu_canary_percentage :: int
  bu_created_by :: string
  bu_created_at :: timestamp
  bu_activated_at :: "timestamp option"

definition bu_key :: "bundle_row \<Rightarrow> uuid \<times> int" where
  "bu_key r = (bu_tenant_id r, bu_version r)"

record resolved_policy =
  rp_version :: int
  rp_rules :: governance_rules
  rp_canary :: bool

subsection \<open>The service\<close>

definition next_version :: "uuid \<Rightarrow> bundle_row list \<Rightarrow> int" where
  "next_version tenant_id t = Max (insert 0 (bu_version ` {r \<in> set t. bu_tenant_id r = tenant_id})) + 1"

definition insert_version ::
  "string \<Rightarrow> timestamp \<Rightarrow> uuid list \<Rightarrow> uuid \<Rightarrow> int \<Rightarrow> governance_rules \<Rightarrow> string \<Rightarrow> bundle_row list \<Rightarrow> policy_error + (bundle_row \<times> bundle_row list)" where
  "insert_version signing_key now tenants tenant_id version rules actor t =
     (case sign_bundle rules version signing_key of
        None \<Rightarrow> Inl PolicyKeyMissing
      | Some signature \<Rightarrow>
          (let row = \<lparr>bu_tenant_id = tenant_id, bu_version = version, bu_rules = rules, bu_bundle = compile_bundle rules version,
                 bu_signature = signature, bu_status = Bs_draft, bu_canary_percentage = 0, bu_created_by = actor,
                 bu_created_at = now, bu_activated_at = None\<rparr> in
           if has_key bu_key (tenant_id, version) t \<or> version < 1 \<or> tenant_id \<notin> set tenants \<or> actor = [] \<or> 256 < length actor
           then Inl (PolicyDatabase IntegrityError) else Inr (row, t @ [row])))"

definition create_version ::
  "string \<Rightarrow> timestamp \<Rightarrow> uuid list \<Rightarrow> uuid \<Rightarrow> governance_rules \<Rightarrow> string \<Rightarrow> bundle_row list \<Rightarrow> policy_error + (bundle_row \<times> bundle_row list)" where
  "create_version signing_key now tenants tenant_id rules actor t =
     insert_version signing_key now tenants tenant_id (next_version tenant_id t) rules actor t"

text \<open>The statuses that give way to the new one, and the row's update.\<close>

definition retires :: "int \<Rightarrow> bundle_status list" where
  "retires canary_percentage = (if 0 < canary_percentage then [Bs_canary] else [Bs_active, Bs_canary])"

definition retire_others :: "uuid \<Rightarrow> int \<Rightarrow> int \<Rightarrow> bundle_row list \<Rightarrow> bundle_row list" where
  "retire_others tenant_id version canary_percentage t =
     update_where (\<lambda>r. bu_tenant_id r = tenant_id \<and> bu_status r \<in> set (retires canary_percentage) \<and> bu_version r \<noteq> version)
       (\<lambda>r. r\<lparr>bu_status := Bs_retired, bu_canary_percentage := 0\<rparr>) t"

definition set_active :: "timestamp \<Rightarrow> int \<Rightarrow> bundle_row \<Rightarrow> bundle_row" where
  "set_active now canary_percentage r =
     r\<lparr>bu_status := (if 0 < canary_percentage then Bs_canary else Bs_active), bu_canary_percentage := canary_percentage,
       bu_activated_at := Some now\<rparr>"

definition activate ::
  "string \<Rightarrow> timestamp \<Rightarrow> uuid \<Rightarrow> int \<Rightarrow> int \<Rightarrow> bundle_row list \<Rightarrow> policy_error + (bundle_row \<times> bundle_row list)" where
  "activate signing_key now tenant_id version canary_percentage t =
     (case row_of bu_key (tenant_id, version) t of
        None \<Rightarrow> Inl (PolicyBundleError ''POLICY_BUNDLE_NOT_FOUND'')
      | Some row \<Rightarrow>
          (case verify_bundle (bu_rules row) version (bu_signature row) signing_key of
             None \<Rightarrow> Inl PolicyKeyMissing
           | Some False \<Rightarrow> Inl (PolicyBundleError ''POLICY_BUNDLE_SIGNATURE_INVALID'')
           | Some True \<Rightarrow>
               if canary_percentage < 0 \<or> 100 < canary_percentage then Inl (PolicyDatabase IntegrityError)
               else Inr (set_active now canary_percentage row,
                 update_where (\<lambda>r. bu_key r = (tenant_id, version)) (set_active now canary_percentage)
                   (retire_others tenant_id version canary_percentage t))))"

definition governing_rows :: "uuid \<Rightarrow> bundle_row list \<Rightarrow> bundle_row list" where
  "governing_rows tenant_id t = sort_key bu_version (filter (\<lambda>r. bu_tenant_id r = tenant_id \<and> bu_status r \<in> {Bs_active, Bs_canary}) t)"

definition chosen_row :: "string \<Rightarrow> bundle_row \<Rightarrow> bundle_row option \<Rightarrow> bundle_row \<times> bool" where
  "chosen_row decision_key stable_row canary =
     (case canary of
        None \<Rightarrow> (stable_row, False)
      | Some c \<Rightarrow> if 0 < bu_canary_percentage c \<and> canary_bucket decision_key < bu_canary_percentage c then (c, True) else (stable_row, False))"

definition resolve_policy ::
  "string \<Rightarrow> uuid \<Rightarrow> string \<Rightarrow> bundle_row list \<Rightarrow> policy_error + resolved_policy option" where
  "resolve_policy signing_key tenant_id decision_key t =
     (let rows = governing_rows tenant_id t;
          stable_row = find (\<lambda>r. bu_status r = Bs_active) rows;
          canary = find (\<lambda>r. bu_status r = Bs_canary) rows
      in if rows = [] then Inr None
         else case stable_row of
                None \<Rightarrow> if canary \<noteq> None then Inl (PolicyBundleError ''POLICY_BUNDLE_UNAVAILABLE'') else Inr None
              | Some s \<Rightarrow>
                  (let (chosen, canary_used) = chosen_row decision_key s canary in
                   case verify_bundle (bu_rules chosen) (bu_version chosen) (bu_signature chosen) signing_key of
                     None \<Rightarrow> Inl PolicyKeyMissing
                   | Some False \<Rightarrow> Inl (PolicyBundleError ''POLICY_BUNDLE_SIGNATURE_INVALID'')
                   | Some True \<Rightarrow> Inr (Some \<lparr>rp_version = bu_version chosen, rp_rules = bu_rules chosen, rp_canary = canary_used\<rparr>)))"

definition list_versions :: "uuid \<Rightarrow> bundle_row list \<Rightarrow> bundle_row list" where
  "list_versions tenant_id t = sort_key (\<lambda>r. - bu_version r) (filter (\<lambda>r. bu_tenant_id r = tenant_id) t)"

text \<open>\<open>PolicyBundleRulesResolver.resolve_rules\<close>, as the before-model callback receives it.\<close>

definition resolve_rules :: "string \<Rightarrow> uuid \<Rightarrow> string \<Rightarrow> bundle_row list \<Rightarrow> resolved_rules" where
  "resolve_rules signing_key tenant_id decision_key t =
     (case resolve_policy signing_key tenant_id decision_key t of
        Inl e \<Rightarrow> ResolveRaises | Inr None \<Rightarrow> NoBundle | Inr (Some p) \<Rightarrow> Rules (rp_rules p))"

subsection \<open>The routes\<close>

record policy_tables = admin_tables +
  po_bundles :: "bundle_row list"

definition policy_api_error :: "policy_error \<Rightarrow> api_error" where
  "policy_api_error e =
     (case e of
        PolicyBundleError code \<Rightarrow> HTTPException (if code = ''POLICY_BUNDLE_NOT_FOUND'' then 404 else 409) code
      | PolicyDatabase d \<Rightarrow> DatabaseError d
      | PolicyKeyMissing \<Rightarrow> HTTPException 500 ''policy signing key is required'')"

definition status_value :: "bundle_status \<Rightarrow> string" where
  "status_value s = (case s of Bs_draft \<Rightarrow> ''DRAFT'' | Bs_active \<Rightarrow> ''ACTIVE'' | Bs_canary \<Rightarrow> ''CANARY'' | Bs_retired \<Rightarrow> ''RETIRED'')"

definition bundle_fields :: "bundle_row \<Rightarrow> jobject" where
  "bundle_fields r =
     [(''version'', JInt (bu_version r)), (''rules'', rules_json (bu_rules r)), (''bundle'', bu_bundle r),
      (''signature'', JStr (bu_signature r)), (''status'', JStr (status_value (bu_status r))),
      (''canary_percentage'', JInt (bu_canary_percentage r)), (''created_by'', JStr (bu_created_by r)),
      (''created_at'', JStr (datetime_str (bu_created_at r))),
      (''activated_at'', case bu_activated_at r of None \<Rightarrow> JNull | Some a \<Rightarrow> JStr (datetime_str a))]"

text \<open>
  A command of the policy API: the replay of the key in one transaction, the service call in its own,
  audit and ledger in a last one. An error of a later transaction leaves the earlier ones in place.
\<close>

definition policy_command ::
  "(jobject \<Rightarrow> jobject) \<Rightarrow> call \<Rightarrow> uuid \<Rightarrow> string \<Rightarrow> string \<Rightarrow> jobject \<Rightarrow>
   (bundle_row list \<Rightarrow> policy_error + (bundle_row \<times> bundle_row list)) \<Rightarrow> (bundle_row \<Rightarrow> string \<times> jobject) \<Rightarrow>
   'x policy_tables_scheme \<Rightarrow> (api_error + jobject) \<times> 'x policy_tables_scheme" where
  "policy_command jsonb c tenant_id key operation payload service details db =
     (case replay_for (pr_subject (rq_principal c)) key operation payload db of
        Inl e \<Rightarrow> (Inl e, db)
      | Inr (Some replayed) \<Rightarrow> (Inr replayed, db)
      | Inr None \<Rightarrow>
         (case service (po_bundles db) of
            Inl e \<Rightarrow> (Inl (policy_api_error e), db)
          | Inr (row, rows) \<Rightarrow>
             (let db1 = db\<lparr>po_bundles := rows\<rparr> in
              case audited jsonb (rq_event_id c) (rq_now c) (Some (rq_principal c)) operation ''ALLOW'' ''policy_bundle''
                     (fst (details row)) tenant_id (snd (details row)) db1 of
                Inl e \<Rightarrow> (Inl e, db1)
              | Inr db2 \<Rightarrow>
                 (case remember jsonb (pr_subject (rq_principal c)) key operation payload (bundle_fields row) db2 of
                    Inl e \<Rightarrow> (Inl e, db1)
                  | Inr db3 \<Rightarrow> (Inr (bundle_fields row), db3)))))"

definition checked_route ::
  "('x admin_tables_scheme \<Rightarrow> api_error option \<times> 'x admin_tables_scheme) \<Rightarrow>
   ('x admin_tables_scheme \<Rightarrow> (api_error + 'a) \<times> 'x admin_tables_scheme) \<Rightarrow> 'x admin_tables_scheme \<Rightarrow> (api_error + 'a) \<times> 'x admin_tables_scheme" where
  "checked_route check handler db = (case check db of (Some e, db1) \<Rightarrow> (Inl e, db1) | (None, db1) \<Rightarrow> handler db1)"

definition create_bundle ::
  "(jobject \<Rightarrow> jobject) \<Rightarrow> string \<Rightarrow> call \<Rightarrow> uuid \<Rightarrow> string \<Rightarrow> governance_rules \<Rightarrow> 'x policy_tables_scheme \<Rightarrow> (api_error + jobject) \<times> 'x policy_tables_scheme" where
  "create_bundle jsonb signing_key c tenant_id key rules =
     checked_route
       (require_tenant_access jsonb (rq_denial_id c) (rq_now c) (rq_principal c) tenant_id WriteAccess ''policy_bundle.create'' ''policy_bundle'' None)
       (\<lambda>db. policy_command jsonb c tenant_id key ''policy_bundle.create''
          [(''tenant_id'', JStr tenant_id), (''rules'', rules_json rules)]
          (create_version signing_key (rq_now c) (au_tenants (ad_audit db)) tenant_id rules (pr_subject (rq_principal c)))
          (\<lambda>row. (str_of_int (bu_version row), [(''signature'', JStr (bu_signature row))])) db)"

definition activate_bundle ::
  "(jobject \<Rightarrow> jobject) \<Rightarrow> string \<Rightarrow> call \<Rightarrow> uuid \<Rightarrow> string \<Rightarrow> int \<Rightarrow> int \<Rightarrow> 'x policy_tables_scheme \<Rightarrow> (api_error + jobject) \<times> 'x policy_tables_scheme" where
  "activate_bundle jsonb signing_key c tenant_id key version canary_percentage =
     checked_route
       (require_tenant_access jsonb (rq_denial_id c) (rq_now c) (rq_principal c) tenant_id WriteAccess ''policy_bundle.activate'' ''policy_bundle''
          (Some (str_of_int version)))
       (\<lambda>db. policy_command jsonb c tenant_id key ''policy_bundle.activate''
          [(''tenant_id'', JStr tenant_id), (''version'', JInt version), (''canary_percentage'', JInt canary_percentage)]
          (activate signing_key (rq_now c) tenant_id version canary_percentage)
          (\<lambda>row. (str_of_int version, [(''status'', JStr (status_value (bu_status row))), (''canary_percentage'', JInt canary_percentage)])) db)"

subsection \<open>The states the service can reach\<close>

text \<open>
  A step is one writing transaction of some call: the insert of a version, whatever number was read
  before, or an activation.
\<close>

inductive policy_step :: "string \<Rightarrow> bundle_row list \<Rightarrow> bundle_row list \<Rightarrow> bool" for signing_key where
  Insert: "insert_version signing_key now tenants tenant_id version rules actor t = Inr (row, t') \<Longrightarrow> policy_step signing_key t t'"
| Activate: "activate signing_key now tenant_id version percentage t = Inr (row, t') \<Longrightarrow> policy_step signing_key t t'"

definition policy_reachable :: "string \<Rightarrow> bundle_row list \<Rightarrow> bool" where
  "policy_reachable signing_key t \<longleftrightarrow> (policy_step signing_key)\<^sup>*\<^sup>* [] t"

definition genuine :: "string \<Rightarrow> bundle_row \<Rightarrow> bool" where
  "genuine signing_key r \<longleftrightarrow> sign_bundle (bu_rules r) (bu_version r) signing_key = Some (bu_signature r) \<and> 1 \<le> bu_version r \<and>
     (bu_status r = Bs_canary \<longleftrightarrow> 0 < bu_canary_percentage r) \<and> 0 \<le> bu_canary_percentage r \<and> bu_canary_percentage r \<le> 100"

definition one_of_status :: "bundle_status \<Rightarrow> bundle_row list \<Rightarrow> bool" where
  "one_of_status st t \<longleftrightarrow> (\<forall>r \<in> set t. \<forall>q \<in> set t. bu_tenant_id r = bu_tenant_id q \<and> bu_status r = st \<and> bu_status q = st \<longrightarrow> r = q)"

definition policy_inv :: "string \<Rightarrow> bundle_row list \<Rightarrow> bool" where
  "policy_inv signing_key t \<longleftrightarrow> unique_key bu_key t \<and> (\<forall>r \<in> set t. genuine signing_key r) \<and>
     one_of_status Bs_active t \<and> one_of_status Bs_canary t"

text \<open>An activation rewrites each row by itself.\<close>

definition activated :: "timestamp \<Rightarrow> uuid \<Rightarrow> int \<Rightarrow> int \<Rightarrow> bundle_row \<Rightarrow> bundle_row" where
  "activated now tenant_id version p r =
     (if bu_key r = (tenant_id, version) then set_active now p r
      else if bu_tenant_id r = tenant_id \<and> bu_status r \<in> set (retires p) then r\<lparr>bu_status := Bs_retired, bu_canary_percentage := 0\<rparr>
      else r)"

lemma activate_map:
  "update_where (\<lambda>r. bu_key r = (tenant_id, version)) (set_active now p) (retire_others tenant_id version p t) =
     map (activated now tenant_id version p) t"
  by (induction t) (auto simp: update_where_def retire_others_def activated_def bu_key_def)

lemma activate_Inr_iff:
  "activate signing_key now tenant_id version p t = Inr (row, t') \<longleftrightarrow>
     (\<exists>r. row_of bu_key (tenant_id, version) t = Some r \<and> verify_bundle (bu_rules r) version (bu_signature r) signing_key = Some True \<and>
        0 \<le> p \<and> p \<le> 100 \<and> row = set_active now p r \<and> t' = map (activated now tenant_id version p) t)"
  by (auto simp: activate_def activate_map split: option.splits bool.splits if_splits)

lemma activated_key [simp]: "bu_key (activated now tenant_id version p r) = bu_key r"
  by (simp add: activated_def set_active_def bu_key_def)

lemma activated_fields [simp]:
  "bu_tenant_id (activated now tenant_id version p r) = bu_tenant_id r"
  "bu_version (activated now tenant_id version p r) = bu_version r"
  "bu_rules (activated now tenant_id version p r) = bu_rules r"
  "bu_signature (activated now tenant_id version p r) = bu_signature r"
  by (simp_all add: activated_def set_active_def)

lemma activated_genuine:
  assumes "genuine signing_key r" "0 \<le> p" "p \<le> 100"
  shows "genuine signing_key (activated now tenant_id version p r)"
  using assms by (auto simp: genuine_def activated_def set_active_def)

text \<open>
  Of the tenant's rows the canary is the activated one, and so is the active one unless the activation
  was a canary's, which leaves the active row alone.
\<close>

lemma activated_status:
  assumes "bu_status (activated now tenant_id version p r) = st" "st = Bs_active \<or> st = Bs_canary" "bu_tenant_id r = tenant_id"
  shows "if st = Bs_active \<and> 0 < p then bu_status r = Bs_active else bu_key r = (tenant_id, version)"
  using assms by (auto simp: activated_def set_active_def retires_def split: if_splits)

lemma activated_other_tenant: "bu_tenant_id r \<noteq> tenant_id \<Longrightarrow> activated now tenant_id version p r = r"
  by (simp add: activated_def bu_key_def)

lemma unique_rows: "unique_key bu_key t \<Longrightarrow> r \<in> set t \<Longrightarrow> q \<in> set t \<Longrightarrow> bu_key r = bu_key q \<Longrightarrow> r = q"
  by (simp add: unique_key_def) (metis inj_on_def distinct_map)

lemma one_of_status_activated:
  assumes "unique_key bu_key t" "one_of_status st t" "st = Bs_active \<or> st = Bs_canary"
  shows "one_of_status st (map (activated now tenant_id version p) t)"
  unfolding one_of_status_def set_map
proof (intro ballI impI, elim imageE, goal_cases)
  case (1 r' q' r q)
  have t: "bu_tenant_id r = bu_tenant_id q" using 1 by auto
  have "r = q"
  proof (cases "bu_tenant_id r = tenant_id")
    case True
    have r: "if st = Bs_active \<and> 0 < p then bu_status r = Bs_active else bu_key r = (tenant_id, version)"
      by (rule activated_status [of now, OF _ assms(3) True]) (use 1 in simp)
    have q: "if st = Bs_active \<and> 0 < p then bu_status q = Bs_active else bu_key q = (tenant_id, version)"
      by (rule activated_status [of now, OF _ assms(3)]) (use 1 t True in simp_all)
    show ?thesis
    proof (cases "st = Bs_active \<and> 0 < p")
      case True
      then show ?thesis using r q 1 t assms(2) unfolding one_of_status_def by simp
    next
      case False
      then show ?thesis using r q 1 unique_rows [OF assms(1), of r q] by simp
    qed
  next
    case False
    then show ?thesis using 1 t assms(2) activated_other_tenant [of r tenant_id] activated_other_tenant [of q tenant_id]
      by (auto simp: one_of_status_def)
  qed
  then show ?case using 1 by simp
qed

lemma policy_inv_insert:
  assumes "policy_inv signing_key t" "insert_version signing_key now tenants tenant_id version rules actor t = Inr (row, t')"
  shows "policy_inv signing_key t'"
proof -
  have t': "t' = t @ [row]" "bu_key row = (tenant_id, version)" "\<not> has_key bu_key (tenant_id, version) t"
    "bu_status row = Bs_draft" "genuine signing_key row"
    using assms(2) by (auto simp: insert_version_def Let_def bu_key_def genuine_def split: option.splits if_splits)
  have "one_of_status st t \<Longrightarrow> st \<noteq> Bs_draft \<Longrightarrow> one_of_status st t'" for st
    using t'(1,4) by (auto simp: one_of_status_def)
  then show ?thesis using assms(1) t' by (auto simp: policy_inv_def table_simps)
qed

lemma policy_inv_activate:
  assumes "policy_inv signing_key t" "activate signing_key now tenant_id version p t = Inr (row, t')"
  shows "policy_inv signing_key t'"
proof -
  have t': "t' = map (activated now tenant_id version p) t" and p: "0 \<le> p" "p \<le> 100" using assms(2) by (auto simp: activate_Inr_iff)
  have inv: "unique_key bu_key t" "\<forall>r \<in> set t. genuine signing_key r" "one_of_status Bs_active t" "one_of_status Bs_canary t"
    using assms(1) by (simp_all add: policy_inv_def)
  have "unique_key bu_key t'" using inv(1) by (simp add: t' unique_key_def comp_def)
  moreover have "\<forall>r \<in> set t'. genuine signing_key r" using inv(2) activated_genuine [OF _ p] by (auto simp: t')
  ultimately show ?thesis
    using one_of_status_activated [OF inv(1,3)] one_of_status_activated [OF inv(1,4)] by (simp add: policy_inv_def t')
qed

lemma policy_reachable_inv: "policy_reachable signing_key t \<Longrightarrow> policy_inv signing_key t"
  unfolding policy_reachable_def
proof (induction rule: rtranclp_induct)
  case base
  show ?case by (simp add: policy_inv_def one_of_status_def)
next
  case (step t t')
  from step(2,3) show ?case by cases (auto intro: policy_inv_insert policy_inv_activate)
qed

lemma find_same_set:
  assumes "set xs = set ys" "\<And>x y. x \<in> set xs \<Longrightarrow> y \<in> set xs \<Longrightarrow> P x \<Longrightarrow> P y \<Longrightarrow> x = y"
  shows "find P xs = find P ys"
proof (cases "find P xs"; cases "find P ys")
  fix a b assume "find P xs = Some a" "find P ys = Some b"
  then show ?thesis using assms find_SomeD [of P xs a] find_SomeD [of P ys b] by auto
next
  assume "find P xs = None" "find P ys = None"
  then show ?thesis by simp
qed (use assms(1) in \<open>auto simp: find_None_set dest: find_SomeD\<close>)

definition row_with :: "uuid \<Rightarrow> bundle_status \<Rightarrow> bundle_row list \<Rightarrow> bundle_row option" where
  "row_with tenant_id st t = find (\<lambda>r. bu_tenant_id r = tenant_id \<and> bu_status r = st) t"

lemma row_with_unique:
  assumes "one_of_status st t" "r \<in> set t" "bu_status r = st"
  shows "row_with (bu_tenant_id r) st t = Some r"
proof (cases "row_with (bu_tenant_id r) st t")
  case None
  then show ?thesis using assms by (auto simp: row_with_def find_None_set)
next
  case (Some q)
  then show ?thesis using find_SomeD [of _ t q] assms by (fastforce simp: row_with_def one_of_status_def)
qed

lemma governing_find:
  assumes "one_of_status st t" "st = Bs_active \<or> st = Bs_canary"
  shows "find (\<lambda>r. bu_status r = st) (governing_rows tenant_id t) = row_with tenant_id st t"
proof -
  let ?rows = "filter (\<lambda>r. bu_tenant_id r = tenant_id \<and> bu_status r \<in> {Bs_active, Bs_canary}) t"
  have "find (\<lambda>r. bu_status r = st) (governing_rows tenant_id t) = find (\<lambda>r. bu_status r = st) ?rows"
    by (rule find_same_set) (use assms(1) in \<open>auto simp: governing_rows_def one_of_status_def\<close>)
  also have "\<dots> = row_with tenant_id st t"
    using assms(2) by (induction t) (auto simp: row_with_def)
  finally show ?thesis .
qed

definition policy_of :: "bool \<Rightarrow> bundle_row \<Rightarrow> resolved_policy" where
  "policy_of canary r = \<lparr>rp_version = bu_version r, rp_rules = bu_rules r, rp_canary = canary\<rparr>"

lemma governing_empty:
  "governing_rows tenant_id t = [] \<longleftrightarrow> row_with tenant_id Bs_active t = None \<and> row_with tenant_id Bs_canary t = None"
proof -
  have "governing_rows tenant_id t = [] \<longleftrightarrow> filter (\<lambda>r. bu_tenant_id r = tenant_id \<and> bu_status r \<in> {Bs_active, Bs_canary}) t = []"
    unfolding governing_rows_def length_0_conv [symmetric] length_sort by (rule refl)
  then show ?thesis by (auto simp: row_with_def find_None_set filter_empty_conv)
qed

lemma genuine_verifies: "genuine signing_key r \<Longrightarrow> verify_bundle (bu_rules r) (bu_version r) (bu_signature r) signing_key = Some True"
  by (simp add: genuine_def verify_bundle_def)

lemma row_with_SomeD: "row_with tenant_id st t = Some r \<Longrightarrow> r \<in> set t \<and> bu_tenant_id r = tenant_id \<and> bu_status r = st"
  unfolding row_with_def by (drule find_SomeD) simp

lemma resolve_policy_inv:
  assumes "policy_inv signing_key t"
  shows "resolve_policy signing_key tenant_id decision_key t =
    (case (row_with tenant_id Bs_active t, row_with tenant_id Bs_canary t) of
       (None, None) \<Rightarrow> Inr None
     | (None, Some c) \<Rightarrow> Inl (PolicyBundleError ''POLICY_BUNDLE_UNAVAILABLE'')
     | (Some s, None) \<Rightarrow> Inr (Some (policy_of False s))
     | (Some s, Some c) \<Rightarrow> Inr (Some (if canary_bucket decision_key < bu_canary_percentage c then policy_of True c else policy_of False s)))"
proof -
  have u: "one_of_status Bs_active t" "one_of_status Bs_canary t" using assms by (simp_all add: policy_inv_def)
  have f: "find (\<lambda>r. bu_status r = Bs_active) (governing_rows tenant_id t) = row_with tenant_id Bs_active t"
    "find (\<lambda>r. bu_status r = Bs_canary) (governing_rows tenant_id t) = row_with tenant_id Bs_canary t"
    by (simp_all add: governing_find u)
  have g: "row_with tenant_id st t = Some r \<Longrightarrow> genuine signing_key r \<and> bu_status r = st" for st r
    using assms row_with_SomeD by (auto simp: policy_inv_def)
  show ?thesis
  proof (cases "row_with tenant_id Bs_active t"; cases "row_with tenant_id Bs_canary t")
    fix s c assume sc: "row_with tenant_id Bs_active t = Some s" "row_with tenant_id Bs_canary t = Some c"
    then have "0 < bu_canary_percentage c" using g [OF sc(2)] by (metis genuine_def)
    then show ?thesis using sc g [OF sc(1)] g [OF sc(2)]
      by (simp add: resolve_policy_def f governing_empty chosen_row_def genuine_verifies policy_of_def)
  next
    fix s assume s: "row_with tenant_id Bs_active t = Some s" "row_with tenant_id Bs_canary t = None"
    then show ?thesis using g [OF s(1)]
      by (simp add: resolve_policy_def f governing_empty chosen_row_def genuine_verifies policy_of_def)
  qed (simp_all add: resolve_policy_def f governing_empty)
qed


lemma row_with_activated_other:
  assumes "other \<noteq> tenant_id"
  shows "row_with other st (map (activated now tenant_id version p) t) = row_with other st t"
proof (induction t)
  case (Cons r t)
  then show ?case
    using assms by (cases "bu_tenant_id r = other") (auto simp: row_with_def activated_other_tenant)
qed (simp add: row_with_def)

text \<open>What an activation leaves as the active and the canary row of its tenant.\<close>

lemma activated_row_in:
  assumes "row_of bu_key (tenant_id, version) t = Some r"
  shows "activated now tenant_id version p r = set_active now p r" "set_active now p r \<in> set (map (activated now tenant_id version p) t)"
    "bu_tenant_id (set_active now p r) = tenant_id" "bu_version r = version"
proof -
  have r: "bu_key r = (tenant_id, version)" "r \<in> set t" using row_of_SomeD [OF assms] by simp_all
  then show e: "activated now tenant_id version p r = set_active now p r" by (simp add: activated_def)
  show "set_active now p r \<in> set (map (activated now tenant_id version p) t)" using r(2) e by force
  show "bu_tenant_id (set_active now p r) = tenant_id" "bu_version r = version" using r(1) by (simp_all add: bu_key_def set_active_def)
qed

lemma no_canary_after:
  assumes "\<not> 0 < p"
  shows "row_with tenant_id Bs_canary (map (activated now tenant_id version p) t) = None"
  unfolding row_with_def find_None_set set_map
proof (intro ballI notI, elim conjE imageE)
  fix q r assume q: "bu_tenant_id q = tenant_id" "bu_status q = Bs_canary" "q = activated now tenant_id version p r"
  then have "bu_key r = (tenant_id, version)" using activated_status [of now tenant_id version p r Bs_canary] by simp
  then show False using q assms by (simp add: activated_def set_active_def)
qed

text \<open>
  Activation and rollback take effect at once. After a version is activated without a percentage,
  however old it is and whatever was active or canary before, every decision of the tenant is governed
  by that version's rules, and the decisions of other tenants are as before.
\<close>

theorem activation_takes_effect:
  assumes "policy_reachable signing_key t" "activate signing_key now tenant_id version 0 t = Inr (row, t')"
  shows "resolve_policy signing_key tenant_id decision_key t' = Inr (Some (policy_of False row)) \<and> bu_version row = version \<and>
    (\<exists>r \<in> set t. bu_key r = (tenant_id, version) \<and> bu_rules r = bu_rules row) \<and>
    (other \<noteq> tenant_id \<longrightarrow> resolve_policy signing_key other decision_key t' = resolve_policy signing_key other decision_key t)"
proof -
  have inv: "policy_inv signing_key t" by (rule policy_reachable_inv [OF assms(1)])
  have inv': "policy_inv signing_key t'" by (rule policy_inv_activate [OF inv assms(2)])
  obtain r where r: "row_of bu_key (tenant_id, version) t = Some r" "row = set_active now 0 r" "t' = map (activated now tenant_id version 0) t"
    using assms(2) by (auto simp: activate_Inr_iff)
  have rt: "r \<in> set t" "bu_key r = (tenant_id, version)" using row_of_SomeD [OF r(1)] by simp_all
  have "row_with (bu_tenant_id row) Bs_active t' = Some row"
    by (rule row_with_unique) (use inv' activated_row_in(2) [OF r(1), of now 0] r in \<open>auto simp: policy_inv_def set_active_def\<close>)
  then have a: "row_with tenant_id Bs_active t' = Some row" using activated_row_in(3) [OF r(1)] r(2) by simp
  have c: "row_with tenant_id Bs_canary t' = None" unfolding r(3) by (rule no_canary_after) simp
  have "resolve_policy signing_key tenant_id decision_key t' = Inr (Some (policy_of False row))"
    using a c by (simp add: resolve_policy_inv [OF inv'])
  moreover have "other \<noteq> tenant_id \<Longrightarrow> resolve_policy signing_key other decision_key t' = resolve_policy signing_key other decision_key t"
    unfolding resolve_policy_inv [OF inv'] resolve_policy_inv [OF inv] unfolding r(3) by (simp only: row_with_activated_other not_False_eq_True)
  moreover have "bu_version row = version" "bu_rules r = bu_rules row" using activated_row_in(4) [OF r(1)] r(2) by (simp_all add: set_active_def)
  ultimately show ?thesis using rt by blast
qed

text \<open>
  Making the active version its own canary stops the tenant. When the version activated with a
  percentage is the tenant's active one, the tenant is left with a canary and no active version, and
  from then on no decision can be resolved.
\<close>

theorem canary_of_active_unavailable:
  assumes "policy_reachable signing_key t" "row_with tenant_id Bs_active t = Some s" "0 < p"
    and "activate signing_key now tenant_id (bu_version s) p t = Inr (row, t')"
  shows "resolve_policy signing_key tenant_id decision_key t' = Inl (PolicyBundleError ''POLICY_BUNDLE_UNAVAILABLE'')"
proof -
  have inv: "policy_inv signing_key t" by (rule policy_reachable_inv [OF assms(1)])
  have inv': "policy_inv signing_key t'" by (rule policy_inv_activate [OF inv assms(4)])
  have s: "s \<in> set t" "bu_tenant_id s = tenant_id" "bu_status s = Bs_active" using row_with_SomeD [OF assms(2)] by simp_all
  obtain r where r: "row_of bu_key (tenant_id, bu_version s) t = Some r" "row = set_active now p r"
    "t' = map (activated now tenant_id (bu_version s) p) t" using assms(4) by (auto simp: activate_Inr_iff)
  have "row_with (bu_tenant_id row) Bs_canary t' = Some row"
    by (rule row_with_unique) (use inv' activated_row_in(2) [OF r(1), of now p] r assms(3) in \<open>auto simp: policy_inv_def set_active_def\<close>)
  then have c: "row_with tenant_id Bs_canary t' = Some row" using activated_row_in(3) [OF r(1)] r(2) by simp
  have "row_with tenant_id Bs_active t' = None"
    unfolding row_with_def find_None_set
  proof (intro ballI notI, elim conjE)
    fix q' assume "q' \<in> set t'" "bu_tenant_id q' = tenant_id" "bu_status q' = Bs_active"
    then obtain q where q: "q \<in> set t" "q' = activated now tenant_id (bu_version s) p q" using r(3) by auto
    then have tq: "bu_tenant_id q = tenant_id" using \<open>bu_tenant_id q' = tenant_id\<close> activated_fields(1) by metis
    then have "bu_status q = Bs_active"
      using activated_status [of now tenant_id "bu_version s" p q Bs_active] assms(3) \<open>bu_status q' = Bs_active\<close> q(2) tq by simp
    then have "q = s" using inv q s tq by (simp add: policy_inv_def one_of_status_def)
    then show False using q(2) s assms(3) \<open>bu_status q' = Bs_active\<close> by (simp add: activated_def bu_key_def set_active_def)
  qed
  with c show ?thesis by (simp add: resolve_policy_inv [OF inv'])
qed

subsection \<open>A sample history\<close>

text \<open>A tenant whose first version is created and activated.\<close>

definition sample_draft :: bundle_row where
  "sample_draft = \<lparr>bu_tenant_id = ''t'', bu_version = 1, bu_rules = open_rules, bu_bundle = compile_bundle open_rules 1,
     bu_signature = hmac_sha256_hex ''k'' (canonical_dumps (bundle_document open_rules 1)), bu_status = Bs_draft,
     bu_canary_percentage = 0, bu_created_by = ''admin'', bu_created_at = 5, bu_activated_at = None\<rparr>"

lemma sample_insert: "insert_version ''k'' 5 [''t''] ''t'' 1 open_rules ''admin'' [] = Inr (sample_draft, [sample_draft])"
  by (simp add: insert_version_def sign_bundle_def sample_draft_def has_key_def Let_def)

lemma sample_activate:
  assumes "0 \<le> p" "p \<le> 100" "r = sample_draft \<or> r = set_active m 0 sample_draft"
  shows "activate ''k'' n ''t'' 1 p [r] = Inr (set_active n p r, [set_active n p r])"
proof -
  have "verify_bundle (bu_rules r) 1 (bu_signature r) ''k'' = Some True" "bu_key r = (''t'', 1)"
    using assms(3) by (auto simp: verify_bundle_def sign_bundle_def sample_draft_def set_active_def bu_key_def)
  then show ?thesis using assms(1,2) by (simp add: activate_Inr_iff row_of_def activated_def)
qed

lemma sample_reachable: "policy_reachable ''k'' [sample_draft]" "policy_reachable ''k'' [set_active 6 0 sample_draft]"
proof -
  have "policy_step ''k'' [] [sample_draft]" by (rule policy_step.Insert [OF sample_insert])
  then show a: "policy_reachable ''k'' [sample_draft]" by (simp add: policy_reachable_def)
  have "policy_step ''k'' [sample_draft] [set_active 6 0 sample_draft]"
    by (rule policy_step.Activate [OF sample_activate]) simp_all
  then show "policy_reachable ''k'' [set_active 6 0 sample_draft]"
    using a unfolding policy_reachable_def by (rule rtranclp.rtrancl_into_rtrancl [rotated])
qed

lemma sample_rows:
  "row_with ''t'' Bs_active [set_active 6 0 sample_draft] = Some (set_active 6 0 sample_draft)"
  "row_with ''t'' Bs_canary [set_active 6 0 sample_draft] = None"
  by (simp_all add: row_with_def set_active_def sample_draft_def)


theorem activation_takes_effect_witness:
  "resolve_policy ''k'' ''t'' ''s'' [set_active 6 0 sample_draft] = Inr (Some (policy_of False (set_active 6 0 sample_draft)))"
  using activation_takes_effect [OF sample_reachable(1) sample_activate [of 0 sample_draft 0 6], of "''s''" "''u''"] by simp

theorem canary_of_active_unavailable_witness:
  "resolve_policy ''k'' ''t'' ''s'' [set_active 7 10 (set_active 6 0 sample_draft)] = Inl (PolicyBundleError ''POLICY_BUNDLE_UNAVAILABLE'')"
proof -
  have v: "bu_version (set_active 6 0 sample_draft) = 1" by (simp add: set_active_def sample_draft_def)
  show ?thesis
    by (rule canary_of_active_unavailable [OF sample_reachable(2) sample_rows(1), of 10 7, unfolded v, OF _ sample_activate [where m = 6]]) simp_all
qed

end
