(* ===== verification/Resilience.thy ===== *)
theory Resilience
  imports Py_Lib "HOL-Library.Char_ord" "HOL-Library.List_Lexorder"
begin

text \<open>
  Three small components that keep the platform inside its limits: the degradation registry
  (\<open>degradation.py\<close>), the global failover lease (\<open>failover.py\<close> over \<open>platform.failover_lease\<close>) and
  the admission controller (\<open>backpressure.py\<close>). Clocks are arguments. The token bucket's floats are
  exact numbers here: times are microseconds and tokens are counted in millionths, so that one second
  at the sustained rate is a whole number.
\<close>

subsection \<open>Degradation registry\<close>

datatype degradation_domain = Dd_artifact | Dd_im | Dd_knowledge | Dd_memory | Dd_model

definition domain_value :: "degradation_domain \<Rightarrow> string" where
  "domain_value d = (case d of Dd_artifact \<Rightarrow> ''ARTIFACT'' | Dd_im \<Rightarrow> ''IM'' | Dd_knowledge \<Rightarrow> ''KNOWLEDGE''
     | Dd_memory \<Rightarrow> ''MEMORY'' | Dd_model \<Rightarrow> ''MODEL'')"

record degradation =
  dg_domain :: degradation_domain
  dg_reason :: string
  dg_entered_at :: string
  dg_detail :: "string option"

text \<open>The active degradations and what the audit hook was told.\<close>

record degradation_registry =
  rg_active :: "(degradation_domain \<times> degradation) list"
  rg_notified :: "(string \<times> degradation) list"

definition new_registry :: degradation_registry where
  "new_registry = \<lparr>rg_active = [], rg_notified = []\<rparr>"

fun assign :: "'k \<Rightarrow> 'v \<Rightarrow> ('k \<times> 'v) list \<Rightarrow> ('k \<times> 'v) list" where
  "assign k v [] = [(k, v)]"
| "assign k v ((j, w) # d) = (if j = k then (k, v) # d else (j, w) # assign k v d)"

definition degrade ::
  "timestamp \<Rightarrow> degradation_domain \<Rightarrow> string \<Rightarrow> string option \<Rightarrow> degradation_registry \<Rightarrow> degradation \<times> degradation_registry" where
  "degrade now domain reason detail reg =
     (let d = \<lparr>dg_domain = domain, dg_reason = reason, dg_entered_at = isoformat now, dg_detail = detail\<rparr>
      in (d, reg\<lparr>rg_active := assign domain d (rg_active reg), rg_notified := rg_notified reg @ [(''degradation.entered'', d)]\<rparr>))"

definition restore :: "degradation_domain \<Rightarrow> string \<Rightarrow> degradation_registry \<Rightarrow> bool \<times> degradation_registry" where
  "restore domain reason reg =
     (case map_of (rg_active reg) domain of
        None \<Rightarrow> (False, reg)
      | Some d \<Rightarrow>
          (True, reg\<lparr>rg_active := filter (\<lambda>(k, _). k \<noteq> domain) (rg_active reg),
             rg_notified := rg_notified reg @
               [(''degradation.restored'', \<lparr>dg_domain = domain, dg_reason = reason, dg_entered_at = dg_entered_at d,
                  dg_detail = Some (dg_reason d)\<rparr>)]\<rparr>))"

definition is_degraded :: "degradation_domain \<Rightarrow> degradation_registry \<Rightarrow> bool" where
  "is_degraded domain reg \<longleftrightarrow> domain \<in> set (map fst (rg_active reg))"

definition degradation_status :: "degradation_registry \<Rightarrow> degradation list" where
  "degradation_status reg = sort_key (\<lambda>d. domain_value (dg_domain d)) (map snd (rg_active reg))"

subsection \<open>Failover lease\<close>

datatype failover_role = PRIMARY | STANDBY | FAILING_OVER | FAILING_BACK | FENCED

datatype failover_error = FailoverError string | FailoverDatabase sql_error

record lease_row =
  fl_region :: string
  fl_role :: failover_role
  fl_fencing_token :: int
  fl_acquired_at :: timestamp
  fl_expires_at :: timestamp
  fl_released_at :: "timestamp option"
  fl_operator :: string

definition live_primary :: "lease_row \<Rightarrow> bool" where
  "live_primary r \<longleftrightarrow> fl_role r = PRIMARY \<and> fl_released_at r = None"

text \<open>The checks and the partial unique index of the table.\<close>

definition insert_lease :: "lease_row \<Rightarrow> lease_row list \<Rightarrow> failover_error + (lease_row \<times> lease_row list)" where
  "insert_lease r t =
     (if \<not> (1 \<le> length (fl_region r) \<and> length (fl_region r) \<le> 64) \<or> fl_fencing_token r < 0 \<or> fl_expires_at r \<le> fl_acquired_at r \<or>
         \<not> (1 \<le> length (fl_operator r) \<and> length (fl_operator r) \<le> 256) \<or> (live_primary r \<and> list_ex live_primary t)
      then Inl (FailoverDatabase IntegrityError) else Inr (r, t @ [r]))"

definition register_standby ::
  "timestamp \<Rightarrow> timestamp \<Rightarrow> int \<Rightarrow> string \<Rightarrow> string \<Rightarrow> lease_row list \<Rightarrow> failover_error + (lease_row \<times> lease_row list)" where
  "register_standby now db_now ttl region operator t =
     insert_lease \<lparr>fl_region = region, fl_role = STANDBY, fl_fencing_token = 0, fl_acquired_at = db_now,
       fl_expires_at = now + ttl, fl_released_at = None, fl_operator = operator\<rparr> t"

definition next_fencing_token :: "lease_row list \<Rightarrow> int" where
  "next_fencing_token t = (case map fl_fencing_token t of [] \<Rightarrow> 0 | x # xs \<Rightarrow> fold max xs x) + 1"

definition promote ::
  "timestamp \<Rightarrow> timestamp \<Rightarrow> int \<Rightarrow> string \<Rightarrow> string \<Rightarrow> lease_row list \<Rightarrow> failover_error + (lease_row \<times> lease_row list)" where
  "promote now db_now ttl region operator t =
     (case find live_primary t of
        Some p \<Rightarrow> if fl_region p = region then Inl (FailoverError ''FAILOVER_ALREADY_PRIMARY'')
          else
            (let t1 = update_where live_primary (\<lambda>r. r\<lparr>fl_role := FENCED, fl_released_at := Some db_now\<rparr>) t
             in insert_lease \<lparr>fl_region = region, fl_role = PRIMARY, fl_fencing_token = next_fencing_token t1, fl_acquired_at = db_now,
                  fl_expires_at = now + ttl, fl_released_at = None, fl_operator = operator\<rparr> t1)
      | None \<Rightarrow>
          insert_lease \<lparr>fl_region = region, fl_role = PRIMARY, fl_fencing_token = next_fencing_token t, fl_acquired_at = db_now,
            fl_expires_at = now + ttl, fl_released_at = None, fl_operator = operator\<rparr> t)"

definition current_primary :: "lease_row list \<Rightarrow> lease_row option" where
  "current_primary t = find live_primary t"

subsection \<open>Admission\<close>

record capacity_policy =
  cp_sustained_per_second :: int
  cp_burst_per_second :: int
  cp_burst_seconds :: int
  cp_max_in_flight :: int

definition default_policy :: capacity_policy where
  "default_policy = \<lparr>cp_sustained_per_second = 1000, cp_burst_per_second = 3000, cp_burst_seconds = 60, cp_max_in_flight = 10000\<rparr>"

record admission_controller =
  ac_policy :: capacity_policy
  ac_bucket :: "(int \<times> int) option"

definition bucket_capacity :: "capacity_policy \<Rightarrow> int" where
  "bucket_capacity p = cp_burst_per_second p * cp_burst_seconds p * 1000000"

definition refill :: "int \<Rightarrow> admission_controller \<Rightarrow> int \<times> admission_controller" where
  "refill now ac =
     (case ac_bucket ac of
        None \<Rightarrow> (bucket_capacity (ac_policy ac), ac\<lparr>ac_bucket := Some (bucket_capacity (ac_policy ac), now)\<rparr>)
      | Some (tokens, last_refill) \<Rightarrow>
          (let elapsed = max 0 (now - last_refill);
               tokens' = min (bucket_capacity (ac_policy ac)) (tokens + elapsed * cp_sustained_per_second (ac_policy ac))
           in (tokens', ac\<lparr>ac_bucket := Some (tokens', now)\<rparr>)))"

text \<open>\<open>admit\<close>: \<open>False\<close> is the rejection \<open>RATE_EXCEEDED\<close>.\<close>

definition admit :: "int \<Rightarrow> admission_controller \<Rightarrow> bool \<times> admission_controller" where
  "admit now ac =
     (let (tokens, ac1) = refill now ac
      in if tokens < 1000000 then (False, ac1) else (True, ac1\<lparr>ac_bucket := Some (tokens - 1000000, now)\<rparr>))"

datatype shed = GREEN | YELLOW | RED

definition shed_level :: "int \<Rightarrow> int \<Rightarrow> capacity_policy \<Rightarrow> shed" where
  "shed_level in_flight pending p =
     (if cp_max_in_flight p \<le> in_flight \<or> cp_burst_per_second p \<le> pending then RED
      else if cp_max_in_flight p div 2 \<le> in_flight \<or> cp_burst_per_second p div 2 \<le> pending then YELLOW
      else GREEN)"

subsection \<open>One primary\<close>

inductive failover_step :: "lease_row list \<Rightarrow> lease_row list \<Rightarrow> bool" where
  Register: "register_standby now db_now ttl region operator t = Inr (r, t') \<Longrightarrow> failover_step t t'"
| Promote: "promote now db_now ttl region operator t = Inr (r, t') \<Longrightarrow> failover_step t t'"

definition contenders :: "lease_row list \<Rightarrow> lease_row list" where
  "contenders t = filter (\<lambda>r. fl_role r \<noteq> STANDBY) t"

text \<open>
  The rows that ever were primary have increasing tokens in their order, standby rows have token zero,
  and only the last contender can still be the live primary.
\<close>

definition failover_inv :: "lease_row list \<Rightarrow> bool" where
  "failover_inv t \<longleftrightarrow> sorted_wrt (<) (map fl_fencing_token (contenders t)) \<and>
     (\<forall>r \<in> set t. if fl_role r = STANDBY then fl_fencing_token r = 0 else 0 < fl_fencing_token r) \<and>
     filter live_primary (butlast (contenders t)) = []"

lemma live_primary_contender: "filter live_primary (contenders t) = filter live_primary t"
  by (induction t) (auto simp: contenders_def live_primary_def)

lemma fold_max_ge: "x \<le> fold max xs (x :: int)" "y \<in> set xs \<Longrightarrow> y \<le> fold max xs x"
  by (induction xs arbitrary: x y) (auto, meson max.bounded_iff order_trans, meson max.bounded_iff order_trans)

lemma next_fencing_token_gt: "r \<in> set t \<Longrightarrow> fl_fencing_token r < next_fencing_token t"
proof (cases t)
  case (Cons a u)
  assume "r \<in> set t"
  then show ?thesis
    using Cons fold_max_ge(1) [of "fl_fencing_token a" "map fl_fencing_token u"] fold_max_ge(2) [of "fl_fencing_token r" "map fl_fencing_token u" "fl_fencing_token a"]
    by (auto simp: next_fencing_token_def)
qed simp

lemma next_fencing_token_pos:
  assumes "failover_inv t"
  shows "0 < next_fencing_token t"
proof (cases t)
  case (Cons a u)
  then have "0 \<le> fl_fencing_token a" using assms by (auto simp: failover_inv_def split: if_splits)
  then show ?thesis using next_fencing_token_gt [of a t] Cons by simp
qed (simp add: next_fencing_token_def)

definition fence_all :: "timestamp \<Rightarrow> lease_row list \<Rightarrow> lease_row list" where
  "fence_all db_now t = update_where live_primary (\<lambda>r. r\<lparr>fl_role := FENCED, fl_released_at := Some db_now\<rparr>) t"

lemma fence_all_facts:
  "filter live_primary (fence_all db_now t) = []"
  "map fl_fencing_token (contenders (fence_all db_now t)) = map fl_fencing_token (contenders t)"
  "next_fencing_token (fence_all db_now t) = next_fencing_token t"
  "failover_inv t \<Longrightarrow> failover_inv (fence_all db_now t)"
proof -
  show l: "filter live_primary (fence_all db_now t) = []"
    by (auto simp: fence_all_def update_where_def live_primary_def filter_empty_conv)
  show m: "map fl_fencing_token (contenders (fence_all db_now t)) = map fl_fencing_token (contenders t)"
    by (induction t) (auto simp: fence_all_def update_where_def contenders_def live_primary_def)
  have "map fl_fencing_token (fence_all db_now t) = map fl_fencing_token t"
    by (simp add: fence_all_def update_where_def comp_def if_distrib cong: if_cong)
  then show "next_fencing_token (fence_all db_now t) = next_fencing_token t" by (simp add: next_fencing_token_def)
  assume inv: "failover_inv t"
  have "filter live_primary (butlast (contenders (fence_all db_now t))) = []"
    using l live_primary_contender [of "fence_all db_now t"] by (auto simp: filter_empty_conv dest: in_set_butlastD)
  then show "failover_inv (fence_all db_now t)"
    using inv m by (auto simp: failover_inv_def fence_all_def update_where_def live_primary_def split: if_splits)
qed

definition new_primary :: "timestamp \<Rightarrow> timestamp \<Rightarrow> int \<Rightarrow> string \<Rightarrow> string \<Rightarrow> lease_row list \<Rightarrow> lease_row" where
  "new_primary now db_now ttl region operator t =
     \<lparr>fl_region = region, fl_role = PRIMARY, fl_fencing_token = next_fencing_token t, fl_acquired_at = db_now,
      fl_expires_at = now + ttl, fl_released_at = None, fl_operator = operator\<rparr>"

lemma find_None_filter: "find P xs = None \<longleftrightarrow> filter P xs = []"
  by (auto simp: find_None_set filter_empty_conv)

lemma promote_Inr:
  assumes "promote now db_now ttl region operator t = Inr (r, t')"
  shows "r = new_primary now db_now ttl region operator t \<and> t' = fence_all db_now t @ [r]"
proof (cases "find live_primary t")
  case None
  then have "fence_all db_now t = t" by (auto simp: fence_all_def find_None_set intro!: update_where_none)
  then show ?thesis using assms None by (auto simp: promote_def insert_lease_def new_primary_def split: if_splits)
next
  case (Some p)
  then show ?thesis
    using assms by (auto simp: promote_def insert_lease_def new_primary_def Let_def fence_all_def [symmetric] fence_all_facts(3) split: if_splits)
qed

lemma failover_inv_promote:
  assumes "failover_inv t" "promote now db_now ttl region operator t = Inr (r, t')"
  shows "failover_inv t'"
proof -
  let ?u = "fence_all db_now t"
  have r: "r = new_primary now db_now ttl region operator t" "t' = ?u @ [r]" using promote_Inr [OF assms(2)] by auto
  have inv: "failover_inv ?u" by (rule fence_all_facts(4) [OF assms(1)])
  have c: "contenders t' = contenders ?u @ [r]" by (simp add: r contenders_def new_primary_def)
  have "\<forall>q \<in> set (contenders ?u). fl_fencing_token q < fl_fencing_token r"
    using next_fencing_token_gt [of _ ?u] by (simp add: r new_primary_def fence_all_facts(3) contenders_def)
  moreover have "filter live_primary (contenders ?u) = []" by (simp add: live_primary_contender fence_all_facts(1))
  moreover have "0 < fl_fencing_token r" using next_fencing_token_pos [OF assms(1)] by (simp add: r new_primary_def)
  moreover have "fl_role r = PRIMARY" by (simp add: r new_primary_def)
  ultimately show ?thesis using inv c unfolding failover_inv_def r(2) by (auto simp: sorted_wrt_append)
qed

lemma failover_inv_register:
  assumes "failover_inv t" "register_standby now db_now ttl region operator t = Inr (r, t')"
  shows "failover_inv t'"
  using assms by (auto simp: failover_inv_def register_standby_def insert_lease_def contenders_def split: if_splits)

lemma failover_reachable_inv: "failover_step\<^sup>*\<^sup>* [] t \<Longrightarrow> failover_inv t"
proof (induction rule: rtranclp_induct)
  case base
  show ?case by (simp add: failover_inv_def contenders_def)
next
  case (step t t')
  from step(2,3) show ?case by cases (auto intro: failover_inv_register failover_inv_promote)
qed

lemma failover_inv_primary:
  assumes "failover_inv t" "current_primary t = Some p"
  shows "filter live_primary t = [p] \<and> (\<forall>r \<in> set t. r \<noteq> p \<longrightarrow> fl_fencing_token r < fl_fencing_token p)"
proof -
  have p: "p \<in> set t" "live_primary p" using assms(2) find_SomeD [of live_primary t p] by (auto simp: current_primary_def)
  then have pc: "p \<in> set (contenders t)" by (auto simp: contenders_def live_primary_def)
  then obtain cs c where c: "contenders t = cs @ [c]" by (metis append_butlast_last_id empty_iff empty_set)
  have e: "filter live_primary cs = []" using assms(1) c by (simp add: failover_inv_def)
  then have "p = c" using pc p(2) c by (auto simp: filter_empty_conv)
  have "filter live_primary t = [p]" using live_primary_contender [of t] c e p(2) \<open>p = c\<close> by simp
  moreover have "fl_fencing_token r < fl_fencing_token p" if "r \<in> set t" "r \<noteq> p" for r
  proof (cases "fl_role r = STANDBY")
    case True
    have "fl_role p \<noteq> STANDBY" using p(2) by (simp add: live_primary_def)
    then show ?thesis using True that p assms(1) by (auto simp: failover_inv_def split: if_splits)
  next
    case False
    then have "r \<in> set (contenders t)" using that(1) by (simp add: contenders_def)
    then have "r \<in> set cs" using that(2) c \<open>p = c\<close> by auto
    then show ?thesis using assms(1) c \<open>p = c\<close> by (auto simp: failover_inv_def sorted_wrt_append)
  qed
  ultimately show ?thesis by blast
qed

text \<open>
  C31: Two primaries never coexist and a promotion outranks everything before it. In every state the lease
  manager can reach there is at most one live primary, and its fencing token is larger than that of
  every other row; a promotion of another region makes that region the primary, with a token larger than
  every token issued before.
\<close>

theorem single_primary_fencing:
  assumes "failover_step\<^sup>*\<^sup>* [] t"
  shows "length (filter live_primary t) \<le> 1 \<and>
    (\<forall>p. current_primary t = Some p \<longrightarrow> (\<forall>r \<in> set t. r \<noteq> p \<longrightarrow> fl_fencing_token r < fl_fencing_token p)) \<and>
    (\<forall>now db_now ttl region operator p t'. promote now db_now ttl region operator t = Inr (p, t') \<longrightarrow>
       current_primary t' = Some p \<and> fl_region p = region \<and> (\<forall>r \<in> set t. fl_fencing_token r < fl_fencing_token p))"
proof (intro conjI allI impI)
  have inv: "failover_inv t" by (rule failover_reachable_inv [OF assms])
  show "length (filter live_primary t) \<le> 1"
    using failover_inv_primary [OF inv] by (cases "current_primary t") (auto simp: current_primary_def find_None_filter)
  show "current_primary t = Some p \<Longrightarrow> \<forall>r \<in> set t. r \<noteq> p \<longrightarrow> fl_fencing_token r < fl_fencing_token p" for p
    using failover_inv_primary [OF inv] by blast
  fix now db_now ttl region operator p t'
  assume "promote now db_now ttl region operator t = Inr (p, t')"
  then have p: "p = new_primary now db_now ttl region operator t" "t' = fence_all db_now t @ [p]" using promote_Inr by auto
  have "find live_primary (fence_all db_now t) = None" by (simp add: find_None_filter fence_all_facts(1))
  then show "current_primary t' = Some p"
    using p by (simp add: current_primary_def find_append new_primary_def live_primary_def)
  show "fl_region p = region" "\<forall>r \<in> set t. fl_fencing_token r < fl_fencing_token p"
    using p(1) next_fencing_token_gt by (auto simp: new_primary_def)
qed

definition sample_lease :: lease_row where
  "sample_lease = \<lparr>fl_region = ''eu'', fl_role = PRIMARY, fl_fencing_token = 1, fl_acquired_at = 5, fl_expires_at = 65,
     fl_released_at = None, fl_operator = ''op''\<rparr>"

theorem single_primary_fencing_witness:
  "current_primary [sample_lease] = Some sample_lease \<and> length (filter live_primary [sample_lease]) \<le> 1 \<and>
   (\<exists>p t'. promote 100 100 60 ''us'' ''op'' [sample_lease] = Inr (p, t') \<and> current_primary t' = Some p \<and> fl_fencing_token sample_lease < fl_fencing_token p)"
proof -
  have "promote 5 5 60 ''eu'' ''op'' [] = Inr (sample_lease, [sample_lease])"
    by (simp add: promote_def insert_lease_def sample_lease_def next_fencing_token_def)
  then have r: "failover_step\<^sup>*\<^sup>* [] [sample_lease]" by (auto intro: failover_step.Promote)
  obtain p t' where p: "promote 100 100 60 ''us'' ''op'' [sample_lease] = Inr (p, t')"
    by (simp add: promote_def insert_lease_def sample_lease_def next_fencing_token_def live_primary_def update_where_def)
  show ?thesis
    using single_primary_fencing [OF r] p by (auto simp: current_primary_def sample_lease_def live_primary_def)
qed

subsection \<open>What the admission controller lets through\<close>

fun admit_all :: "int list \<Rightarrow> admission_controller \<Rightarrow> bool list \<times> admission_controller" where
  "admit_all [] ac = ([], ac)"
| "admit_all (now # instants) ac =
     (let (ok, ac1) = admit now ac; (oks, ac2) = admit_all instants ac1 in (ok # oks, ac2))"

definition admitted :: "bool list \<Rightarrow> int" where
  "admitted oks = int (length (filter (\<lambda>ok. ok) oks))"

definition bucket_ok :: "admission_controller \<Rightarrow> bool" where
  "bucket_ok ac \<longleftrightarrow> 0 \<le> cp_sustained_per_second (ac_policy ac) \<and> 1000000 \<le> bucket_capacity (ac_policy ac) \<and>
     (case ac_bucket ac of None \<Rightarrow> True | Some (tokens, _) \<Rightarrow> 0 \<le> tokens \<and> tokens \<le> bucket_capacity (ac_policy ac))"

lemma admit_step:
  assumes "ac_bucket ac = Some (tokens, last_refill)" "last_refill \<le> now" "bucket_ok ac" "admit now ac = (ok, ac')"
  shows "\<exists>tokens'. ac_bucket ac' = Some (tokens', now) \<and> ac_policy ac' = ac_policy ac \<and> bucket_ok ac' \<and>
    tokens' + (if ok then 1000000 else 0) \<le> tokens + (now - last_refill) * cp_sustained_per_second (ac_policy ac) \<and>
    tokens - 1000000 \<le> tokens' \<and> (1000000 \<le> tokens \<longrightarrow> ok)"
proof -
  define gain where "gain = (now - last_refill) * cp_sustained_per_second (ac_policy ac)"
  have g: "0 \<le> gain" and e: "max 0 (now - last_refill) * cp_sustained_per_second (ac_policy ac) = gain"
    using assms(2,3) by (simp_all add: bucket_ok_def gain_def)
  have "admit now ac = (let tokens' = min (bucket_capacity (ac_policy ac)) (tokens + gain) in
      if tokens' < 1000000 then (False, ac\<lparr>ac_bucket := Some (tokens', now)\<rparr>)
      else (True, ac\<lparr>ac_bucket := Some (tokens' - 1000000, now)\<rparr>))"
    by (simp add: admit_def refill_def Let_def assms(1) e)
  then show ?thesis using g assms(1,3,4) unfolding gain_def [symmetric]
    by (auto simp: Let_def bucket_ok_def min_def split: if_splits)
qed

lemma admit_all_bound:
  "ac_bucket ac = Some (tokens, last_refill) \<Longrightarrow> bucket_ok ac \<Longrightarrow> sorted (last_refill # instants) \<Longrightarrow> admit_all instants ac = (oks, ac') \<Longrightarrow>
   1000000 * admitted oks \<le> tokens + (last (last_refill # instants) - last_refill) * cp_sustained_per_second (ac_policy ac) \<and>
   (1000000 * int (length instants) \<le> tokens \<longrightarrow> list_all (\<lambda>ok. ok) oks)"
proof (induction instants arbitrary: ac tokens last_refill oks ac')
  case Nil
  then show ?case by (simp add: admitted_def bucket_ok_def)
next
  case (Cons now instants)
  obtain ok ac1 oks1 where s: "admit now ac = (ok, ac1)" "admit_all instants ac1 = (oks1, ac')" "oks = ok # oks1"
    using Cons.prems(4) by (auto simp: split_beta Let_def prod_eq_iff)
  obtain tokens' where t: "ac_bucket ac1 = Some (tokens', now)" "ac_policy ac1 = ac_policy ac" "bucket_ok ac1"
    "tokens' + (if ok then 1000000 else 0) \<le> tokens + (now - last_refill) * cp_sustained_per_second (ac_policy ac)"
    "tokens - 1000000 \<le> tokens'" "1000000 \<le> tokens \<longrightarrow> ok"
    using admit_step [OF Cons.prems(1) _ Cons.prems(2) s(1)] Cons.prems(3) by auto
  let ?rate = "cp_sustained_per_second (ac_policy ac)"
  have IH: "1000000 * admitted oks1 \<le> tokens' + (last (now # instants) - now) * ?rate" "1000000 * int (length instants) \<le> tokens' \<longrightarrow> list_all (\<lambda>ok. ok) oks1"
    using Cons.IH [OF t(1,3) _ s(2)] Cons.prems(3) t(2) by auto
  have "admitted oks = (if ok then 1 else 0) + admitted oks1" by (simp add: admitted_def s(3))
  moreover have "(last (now # instants) - last_refill) * ?rate = (last (now # instants) - now) * ?rate + (now - last_refill) * ?rate"
    by (simp add: algebra_simps)
  ultimately show ?case using IH t(4,5,6) s(3) by (auto split: if_splits)
qed

lemma fresh_bucket: "ac_bucket ac = None \<Longrightarrow> admit now ac = admit now (ac\<lparr>ac_bucket := Some (bucket_capacity (ac_policy ac), now)\<rparr>)"
  by (simp add: admit_def refill_def Let_def)

text \<open>
  The admission envelope. Over any series of requests from the start of a controller, at most the
  bucket's capacity plus the sustained rate times the elapsed time is admitted; and as many requests as
  the bucket holds are all admitted, however close together they arrive (so the burst rate per second
  is not a limit of its own).
\<close>

theorem admission_bounded:
  assumes "ac_bucket ac = None" "bucket_ok ac" "sorted (start # instants)" "admit_all (start # instants) ac = (oks, ac')"
  shows "1000000 * admitted oks \<le> bucket_capacity (ac_policy ac) + (last (start # instants) - start) * cp_sustained_per_second (ac_policy ac) \<and>
    (1000000 * int (length (start # instants)) \<le> bucket_capacity (ac_policy ac) \<longrightarrow> list_all (\<lambda>ok. ok) oks)"
proof -
  let ?ac = "ac\<lparr>ac_bucket := Some (bucket_capacity (ac_policy ac), start)\<rparr>"
  have "admit_all (start # instants) ?ac = (oks, ac')" using assms(4) fresh_bucket [OF assms(1), of start] by simp
  moreover have "bucket_ok ?ac" using assms(1,2) by (simp add: bucket_ok_def)
  ultimately show ?thesis
    using admit_all_bound [of ?ac "bucket_capacity (ac_policy ac)" start "start # instants" oks ac'] assms(3) by simp
qed

theorem admission_bounded_witness:
  "\<exists>oks ac'. admit_all [7, 7, 7] \<lparr>ac_policy = default_policy, ac_bucket = None\<rparr> = (oks, ac') \<and> list_all (\<lambda>ok. ok) oks \<and>
     1000000 * admitted oks \<le> 180000000000"
proof -
  obtain oks ac' where a: "admit_all [7, 7, 7] \<lparr>ac_policy = default_policy, ac_bucket = None\<rparr> = (oks, ac')" by fastforce
  show ?thesis
    using admission_bounded [OF _ _ _ a] a by (auto simp: bucket_ok_def default_policy_def bucket_capacity_def)
qed

text \<open>Entering and leaving a degraded mode; the audit hook hears of each change once.\<close>

lemma map_of_assign: "map_of (assign k v d) = (map_of d)(k \<mapsto> v)"
  by (induction k v d rule: assign.induct) auto

lemma is_degraded_map_of: "is_degraded domain reg \<longleftrightarrow> map_of (rg_active reg) domain \<noteq> None"
  by (simp add: is_degraded_def map_of_eq_None_iff)

lemma map_of_filter_other: "j \<noteq> k \<Longrightarrow> map_of (filter (\<lambda>(k', _). k' \<noteq> k) d) j = map_of d j"
  by (induction d) auto

lemma degrade_restore:
  "is_degraded domain (snd (degrade now domain reason detail reg))"
  "\<not> is_degraded domain (snd (restore domain reason reg))"
  "fst (restore domain reason reg) = is_degraded domain reg"
  "other \<noteq> domain \<Longrightarrow> is_degraded other (snd (restore domain reason (snd (degrade now domain r d reg)))) = is_degraded other reg"
  by (auto simp: degrade_def restore_def Let_def is_degraded_map_of map_of_assign split: option.splits)
    (auto simp: map_of_eq_None_iff map_of_assign map_of_filter_other split: if_splits)

end
