(* ===== verification/LLM_Gateway.thy ===== *)
theory LLM_Gateway
  imports Content_Scan Budgets Agent_Worker Resilience Admin_Access
begin

text \<open>
  The LLM Gateway of \<open>trpc_service/llm_gateway.py\<close>: the content scan, the budget guard, the choice
  among candidate profiles, the outbound policy, circuit breaker and rate limit per profile, and the
  provider call. What lies outside (the model profile lookup, the OPA and Vault services, the provider,
  the clocks and the Unicode tables) is a record of ports whose answers may differ from one interaction
  to the next: the number of interactions so far is part of the state and an argument of every answer.
  Monotonic readings are microseconds with exact differences. An exception that is no
  \<open>ModelGatewayError\<close> leaves \<open>complete\<close> as \<open>Crashed\<close>.
\<close>

datatype http_reply = HttpError | HttpReply nat "json option" | OtherException

datatype gateway_exit = ModelGatewayError string | Crashed

type_synonym profile_key = "string \<times> string"

record gateway_event =
  ge_tenant_id :: string
  ge_model_alias :: string
  ge_fallback_used :: bool
  ge_outcome :: string
  ge_error_code :: "string option"
  ge_request_content_hash :: string
  ge_response_content_hash :: "string option"
  ge_latency_ms :: int
  ge_input_tokens :: "int option"
  ge_output_tokens :: "int option"

text \<open>
  The gateway's own state, the observer's events, the process's degradation registry, the audit tables,
  and the trace of what was asked of the outside: secrets resolved and provider requests sent.
\<close>

datatype outgoing = SecretResolved string string | ProviderCalled model_profile "(string \<times> string) list list" string

record gateway_state =
  gs_failures :: "profile_key \<Rightarrow> nat"
  gs_opened_at :: "profile_key \<rightharpoonup> int"
  gs_requests :: "profile_key \<Rightarrow> int list"
  gs_events :: "gateway_event list"
  gs_registry :: degradation_registry
  gs_audit :: audit_tables
  gs_tick :: nat
  gs_trace :: "outgoing list"

record gateway_ports =
  gp_unicode :: unicode_tables
  gp_monotonic :: "nat \<Rightarrow> int"
  gp_utc :: "nat \<Rightarrow> timestamp"
  gp_profiles :: "string \<Rightarrow> string \<Rightarrow> model_profile option"
  gp_secrets :: "nat \<Rightarrow> string \<Rightarrow> string \<Rightarrow> string option"
  gp_policy :: "nat \<Rightarrow> gateway_request \<Rightarrow> model_profile \<Rightarrow> data_classification \<Rightarrow> bool"
  gp_provider :: "nat \<Rightarrow> model_profile \<Rightarrow> (string \<times> string) list list \<Rightarrow> string \<Rightarrow> http_reply"

record gateway_config =
  gc_circuit_failure_threshold :: nat
  gc_circuit_reset :: int
  gc_policy_audit :: "(nat \<Rightarrow> gateway_request \<Rightarrow> data_classification \<Rightarrow> string \<Rightarrow> audit_tables \<Rightarrow> sql_error + audit_tables) option"

definition tick :: "gateway_state \<Rightarrow> gateway_state" where
  "tick st = st\<lparr>gs_tick := Suc (gs_tick st)\<rparr>"

definition read_monotonic :: "gateway_ports \<Rightarrow> gateway_state \<Rightarrow> int \<times> gateway_state" where
  "read_monotonic ports st = (gp_monotonic ports (gs_tick st), tick st)"

subsection \<open>Candidates\<close>

definition snapshot_of :: "gateway_request \<Rightarrow> string \<Rightarrow> model_profile option" where
  "snapshot_of request alias = map_of (rev (map (\<lambda>p. (mp_alias p, p)) (gq_profile_snapshots request))) alias"

definition lookup_profile :: "gateway_ports \<Rightarrow> gateway_request \<Rightarrow> string \<Rightarrow> model_profile option" where
  "lookup_profile ports request alias =
     (case snapshot_of request alias of
        Some p \<Rightarrow> Some p
      | None \<Rightarrow> if gq_profile_snapshots request = [] then gp_profiles ports (gq_tenant_id request) alias else None)"

text \<open>
  The loop ends: an alias from outside the allowed fallbacks leaves the queue and never enters it again,
  and every allowed one is expanded at most once.
\<close>

lemma card_minus_seen:
  "a \<notin> set seen \<Longrightarrow> card (set allowed - set (a # seen)) + (if a \<in> set allowed then 1 else 0) = card (set allowed - set seen)"
proof -
  assume "a \<notin> set seen"
  have "set allowed - set (a # seen) = (set allowed - set seen) - {a}" by auto
  then show ?thesis
    using \<open>a \<notin> set seen\<close> card_Suc_Diff1 [of "set allowed - set seen" a] by (cases "a \<in> set allowed") auto
qed

function candidate_loop ::
  "(string \<Rightarrow> model_profile option) \<Rightarrow> string \<Rightarrow> string list \<Rightarrow> string list \<Rightarrow> string list \<Rightarrow> model_profile list \<Rightarrow> model_profile list" where
  "candidate_loop lookup tenant_id allowed [] seen profiles = profiles"
| "candidate_loop lookup tenant_id allowed (alias # aliases) seen profiles =
     (if alias \<in> set seen then candidate_loop lookup tenant_id allowed aliases seen profiles
      else case lookup alias of
             None \<Rightarrow> candidate_loop lookup tenant_id allowed aliases (alias # seen) profiles
           | Some p \<Rightarrow>
               if mp_tenant_id p \<noteq> tenant_id then candidate_loop lookup tenant_id allowed aliases (alias # seen) profiles
               else candidate_loop lookup tenant_id allowed
                      (aliases @ filter (\<lambda>f. f \<in> set allowed) (mp_fallback_aliases p)) (alias # seen) (profiles @ [p]))"
  by pat_completeness auto

termination
proof (relation "measures [\<lambda>(lookup, t, allowed, aliases, seen, ps).
    card (set allowed - set seen) + length (filter (\<lambda>a. a \<notin> set allowed) aliases),
    \<lambda>(lookup, t, allowed, aliases, seen, ps). length aliases]", goal_cases)
  case (3 lookup t allowed a aliases seen ps)
  then show ?case using card_minus_seen [of a seen allowed] by (auto split: if_splits)
next
  case (4 lookup t allowed a aliases seen ps p)
  then show ?case using card_minus_seen [of a seen allowed] by (auto split: if_splits)
next
  case (5 lookup t allowed a aliases seen ps p)
  then show ?case using card_minus_seen [of a seen allowed] by (auto simp: filter_filter split: if_splits)
qed auto

definition candidate_profiles :: "gateway_ports \<Rightarrow> gateway_request \<Rightarrow> model_profile list" where
  "candidate_profiles ports request =
     candidate_loop (lookup_profile ports request) (gq_tenant_id request) (gq_allowed_fallback_aliases request) [gq_model_alias request] [] []"

subsection \<open>Policy, circuit breaker and rate limit\<close>

definition static_allows :: "gateway_request \<Rightarrow> model_profile \<Rightarrow> data_classification \<Rightarrow> bool" where
  "static_allows request p effective \<longleftrightarrow>
     gq_data_classification request \<noteq> RESTRICTED \<and> effective \<noteq> RESTRICTED \<and> gq_region request = mp_region p \<and>
     rank (gq_data_classification request) \<le> rank (mp_data_classification p)"

definition allows :: "gateway_ports \<Rightarrow> gateway_request \<Rightarrow> model_profile \<Rightarrow> data_classification \<Rightarrow> gateway_state \<Rightarrow> bool \<times> gateway_state" where
  "allows ports request p effective st =
     (if static_allows request p effective then (gp_policy ports (gs_tick st) request p effective, tick st) else (False, st))"

definition circuit_open :: "gateway_config \<Rightarrow> gateway_ports \<Rightarrow> profile_key \<Rightarrow> gateway_state \<Rightarrow> bool \<times> gateway_state" where
  "circuit_open cfg ports key st =
     (case gs_opened_at st key of
        None \<Rightarrow> (False, st)
      | Some opened_at \<Rightarrow>
          (let (now, st1) = read_monotonic ports st in
           if now - opened_at < gc_circuit_reset cfg then (True, st1)
           else (False, st1\<lparr>gs_opened_at := (gs_opened_at st1)(key := None), gs_failures := (gs_failures st1)(key := 0)\<rparr>)))"

definition admit_request :: "int \<Rightarrow> int \<Rightarrow> int list \<Rightarrow> bool \<times> int list" where
  "admit_request now limit requests =
     (let recent = dropWhile (\<lambda>t. t \<le> now - seconds 60) requests
      in if limit \<le> int (length recent) then (False, recent) else (True, recent @ [now]))"

definition within_rate_limit :: "gateway_ports \<Rightarrow> profile_key \<Rightarrow> int \<Rightarrow> gateway_state \<Rightarrow> bool \<times> gateway_state" where
  "within_rate_limit ports key limit st =
     (let (now, st1) = read_monotonic ports st; (ok, requests) = admit_request now limit (gs_requests st1 key)
      in (ok, st1\<lparr>gs_requests := (gs_requests st1)(key := requests)\<rparr>))"

definition record_profile_failure :: "gateway_config \<Rightarrow> gateway_ports \<Rightarrow> profile_key \<Rightarrow> gateway_state \<Rightarrow> gateway_state" where
  "record_profile_failure cfg ports key st =
     (let st1 = st\<lparr>gs_failures := (gs_failures st)(key := Suc (gs_failures st key))\<rparr> in
      if gc_circuit_failure_threshold cfg \<le> gs_failures st1 key
      then let (now, st2) = read_monotonic ports st1 in st2\<lparr>gs_opened_at := (gs_opened_at st2)(key \<mapsto> now)\<rparr>
      else st1)"

definition record_profile_success :: "profile_key \<Rightarrow> gateway_state \<Rightarrow> gateway_state" where
  "record_profile_success key st =
     st\<lparr>gs_failures := (gs_failures st)(key := 0), gs_opened_at := (gs_opened_at st)(key := None)\<rparr>"

subsection \<open>Events and the provider\<close>

definition messages_json :: "(string \<times> string) list list \<Rightarrow> message list" where
  "messages_json ms = map (map (\<lambda>(k, v). (k, JStr v))) ms"

definition content_hash :: "json \<Rightarrow> string" where
  "content_hash v = sha256_hex (py_repr v)"

definition json_int :: "json \<Rightarrow> int option" where
  "json_int v = (case v of JInt i \<Rightarrow> Some i | JBool b \<Rightarrow> Some (if b then 1 else 0) | _ \<Rightarrow> None)"

fun token_count :: "(string \<times> json) list \<Rightarrow> string list \<Rightarrow> int option" where
  "token_count usage_map [] = None"
| "token_count usage_map (key # keys) =
     (case Option.bind (dict_get usage_map key) json_int of Some i \<Rightarrow> Some i | None \<Rightarrow> token_count usage_map keys)"

definition usage_mapping :: "(string \<times> json) list option \<Rightarrow> (string \<times> json) list" where
  "usage_mapping completion =
     (case Option.bind completion (\<lambda>c. dict_get c ''usage'') of Some (JDict d) \<Rightarrow> d | _ \<Rightarrow> [])"

definition record_event ::
  "gateway_ports \<Rightarrow> gateway_request \<Rightarrow> string \<Rightarrow> bool \<Rightarrow> string \<Rightarrow> string option \<Rightarrow> string option \<Rightarrow> int
   \<Rightarrow> (string \<times> json) list option \<Rightarrow> gateway_state \<Rightarrow> gateway_state" where
  "record_event ports request model_alias fallback_used outcome error_code response_hash started_at completion st =
     (let (now, st1) = read_monotonic ports st; usage_map = usage_mapping completion in
      st1\<lparr>gs_events := gs_events st1 @
        [\<lparr>ge_tenant_id = gq_tenant_id request, ge_model_alias = model_alias, ge_fallback_used = fallback_used,
          ge_outcome = outcome, ge_error_code = error_code,
          ge_request_content_hash = content_hash (JList (map JDict (messages_json (gq_messages request)))),
          ge_response_content_hash = response_hash, ge_latency_ms = (now - started_at) div 1000,
          ge_input_tokens = token_count usage_map [''prompt_tokens'', ''input_tokens''],
          ge_output_tokens = token_count usage_map [''completion_tokens'', ''output_tokens'']\<rparr>]\<rparr>)"

text \<open>\<open>_provider_completion\<close>: \<open>Inl None\<close> for the exceptions its caller handles.\<close>

definition provider_reply :: "http_reply \<Rightarrow> gateway_exit option + (string \<times> json) list" where
  "provider_reply r =
     (case r of
        HttpError \<Rightarrow> Inl None
      | OtherException \<Rightarrow> Inl (Some Crashed)
      | HttpReply status body \<Rightarrow>
          if 400 \<le> status then Inl None
          else case body of Some (JDict payload) \<Rightarrow> Inr payload | _ \<Rightarrow> Inl None)"

definition provider_completion ::
  "gateway_ports \<Rightarrow> model_profile \<Rightarrow> (string \<times> string) list list \<Rightarrow> string \<Rightarrow> gateway_state
   \<Rightarrow> (gateway_exit option + (string \<times> json) list) \<times> gateway_state" where
  "provider_completion ports p messages credential st =
     (provider_reply (gp_provider ports (gs_tick st) p messages credential),
      (tick st)\<lparr>gs_trace := gs_trace st @ [ProviderCalled p messages credential]\<rparr>)"

definition resolve_secret :: "gateway_ports \<Rightarrow> model_profile \<Rightarrow> gateway_state \<Rightarrow> string option \<times> gateway_state" where
  "resolve_secret ports p st =
     (gp_secrets ports (gs_tick st) (mp_tenant_id p) (mp_secret_ref p),
      (tick st)\<lparr>gs_trace := gs_trace st @ [SecretResolved (mp_tenant_id p) (mp_secret_ref p)]\<rparr>)"

definition note_fallback :: "gateway_ports \<Rightarrow> gateway_request \<Rightarrow> model_profile \<Rightarrow> gateway_state \<Rightarrow> gateway_state" where
  "note_fallback ports request p st =
     (if mp_alias p \<noteq> gq_model_alias request
      then (tick st)\<lparr>gs_registry := snd (degrade (gp_utc ports (gs_tick st)) Dd_model ''LLM_FALLBACK_USED''
             (Some (''primary='' @ gq_model_alias request @ '' served_by='' @ mp_alias p)) (gs_registry st))\<rparr>
      else st\<lparr>gs_registry := snd (restore Dd_model ''PRIMARY_RECOVERED'' (gs_registry st))\<rparr>)"

subsection \<open>The loop over the candidates\<close>

record loop_flags =
  lf_attempted :: bool
  lf_rate_limited :: bool
  lf_circuit_open :: bool
  lf_last_failure_code :: "string option"
  lf_failure_recorded :: bool

definition no_flags :: loop_flags where
  "no_flags = \<lparr>lf_attempted = False, lf_rate_limited = False, lf_circuit_open = False, lf_last_failure_code = None,
     lf_failure_recorded = False\<rparr>"

datatype attempt = Skipped loop_flags | Failed loop_flags | Served gateway_result | AttemptCrashed

definition failed_attempt ::
  "gateway_config \<Rightarrow> gateway_ports \<Rightarrow> gateway_request \<Rightarrow> int \<Rightarrow> model_profile \<Rightarrow> string \<Rightarrow> loop_flags \<Rightarrow> gateway_state \<Rightarrow> attempt \<times> gateway_state" where
  "failed_attempt cfg ports request started_at p code flags st =
     (Failed (flags\<lparr>lf_last_failure_code := Some code, lf_failure_recorded := True\<rparr>),
      record_event ports request (mp_alias p) False ''FAILURE'' (Some code) None started_at None
        (record_profile_failure cfg ports (mp_tenant_id p, mp_alias p) st))"

text \<open>One pass of the loop body.\<close>

definition call_profile ::
  "gateway_config \<Rightarrow> gateway_ports \<Rightarrow> gateway_request \<Rightarrow> int \<Rightarrow> model_profile \<Rightarrow> loop_flags \<Rightarrow> gateway_state \<Rightarrow> attempt \<times> gateway_state" where
  "call_profile cfg ports request started_at p flags st =
     (case resolve_secret ports p st of
        (None, st1) \<Rightarrow> failed_attempt cfg ports request started_at p ''SECRET_RESOLUTION_FAILED'' flags st1
      | (Some credential, st1) \<Rightarrow>
         (case provider_completion ports p (gq_messages request) credential st1 of
            (Inl (Some _), st2) \<Rightarrow> (AttemptCrashed, st2)
          | (Inl None, st2) \<Rightarrow> failed_attempt cfg ports request started_at p ''UPSTREAM_FAILURE'' flags st2
          | (Inr completion, st2) \<Rightarrow>
             (let st3 = note_fallback ports request p (record_profile_success (mp_tenant_id p, mp_alias p) st2);
                  result = \<lparr>gr_model_alias = mp_alias p, gr_fallback_used = (mp_alias p \<noteq> gq_model_alias request),
                            gr_completion = completion\<rparr>
              in (Served result,
                  record_event ports request (gr_model_alias result) (gr_fallback_used result) ''SUCCESS'' None
                    (Some (content_hash (JDict completion))) started_at (Some completion) st3))))"

definition try_profile ::
  "gateway_config \<Rightarrow> gateway_ports \<Rightarrow> gateway_request \<Rightarrow> data_classification \<Rightarrow> int \<Rightarrow> model_profile \<Rightarrow> loop_flags \<Rightarrow> gateway_state \<Rightarrow> attempt \<times> gateway_state" where
  "try_profile cfg ports request effective started_at p flags st =
     (case allows ports request p effective st of
        (False, st1) \<Rightarrow> (Skipped flags, st1)
      | (True, st1) \<Rightarrow>
         (let flags1 = flags\<lparr>lf_attempted := True\<rparr>; key = (mp_tenant_id p, mp_alias p) in
          case circuit_open cfg ports key st1 of
            (True, st2) \<Rightarrow> (Skipped (flags1\<lparr>lf_circuit_open := True\<rparr>), st2)
          | (False, st2) \<Rightarrow>
             (case within_rate_limit ports key (mp_requests_per_minute p) st2 of
                (False, st3) \<Rightarrow> (Skipped (flags1\<lparr>lf_rate_limited := True\<rparr>), st3)
              | (True, st3) \<Rightarrow> call_profile cfg ports request started_at p flags1 st3)))"

definition exhausted_code :: "loop_flags \<Rightarrow> string" where
  "exhausted_code flags =
     (if \<not> lf_attempted flags then ''MODEL_POLICY_DENIED''
      else if lf_rate_limited flags \<and> \<not> lf_circuit_open flags then ''RATE_LIMITED''
      else if lf_circuit_open flags \<and> \<not> lf_rate_limited flags then ''CIRCUIT_OPEN''
      else if lf_last_failure_code flags = Some ''SECRET_RESOLUTION_FAILED'' then ''SECRET_RESOLUTION_FAILED''
      else ''MODEL_UNAVAILABLE'')"

fun try_profiles ::
  "gateway_config \<Rightarrow> gateway_ports \<Rightarrow> gateway_request \<Rightarrow> data_classification \<Rightarrow> int \<Rightarrow> model_profile list \<Rightarrow> loop_flags \<Rightarrow> gateway_state
   \<Rightarrow> (gateway_exit + gateway_result) \<times> gateway_state" where
  "try_profiles cfg ports request effective started_at [] flags st =
     (Inl (ModelGatewayError (exhausted_code flags)),
      if lf_failure_recorded flags then st
      else record_event ports request (gq_model_alias request) False ''FAILURE'' (Some (exhausted_code flags)) None started_at None st)"
| "try_profiles cfg ports request effective started_at (p # ps) flags st =
     (case try_profile cfg ports request effective started_at p flags st of
        (Skipped flags1, st1) \<Rightarrow> try_profiles cfg ports request effective started_at ps flags1 st1
      | (Failed flags1, st1) \<Rightarrow> try_profiles cfg ports request effective started_at ps flags1 st1
      | (Served result, st1) \<Rightarrow> (Inr result, st1)
      | (AttemptCrashed, st1) \<Rightarrow> (Inl Crashed, st1))"

definition complete_with_guard ::
  "gateway_config \<Rightarrow> gateway_ports \<Rightarrow> gateway_request \<Rightarrow> data_classification \<Rightarrow> int \<Rightarrow> gateway_state \<Rightarrow> (gateway_exit + gateway_result) \<times> gateway_state" where
  "complete_with_guard cfg ports request effective started_at st =
     try_profiles cfg ports request effective started_at (candidate_profiles ports request) no_flags st"

subsection \<open>The budget guard\<close>

text \<open>The protocol \<open>BudgetGuard\<close>; \<open>None\<close> is a gateway without a guard.\<close>

record 'b budget_guard =
  bg_reserve :: "gateway_request \<Rightarrow> 'b \<Rightarrow> (gateway_exit + reservation_bundle) \<times> 'b"
  bg_settle :: "reservation_bundle \<Rightarrow> 'b \<Rightarrow> gateway_exit option \<times> 'b"
  bg_release :: "reservation_bundle \<Rightarrow> string \<Rightarrow> 'b \<Rightarrow> gateway_exit option \<times> 'b"

definition audit_refusal ::
  "gateway_config \<Rightarrow> gateway_request \<Rightarrow> data_classification \<Rightarrow> string \<Rightarrow> gateway_state \<Rightarrow> sql_error option \<times> gateway_state" where
  "audit_refusal cfg request effective reason st =
     (case gc_policy_audit cfg of
        None \<Rightarrow> (None, st)
      | Some record_denied \<Rightarrow>
         (case record_denied (gs_tick st) request effective reason (gs_audit st) of
            Inl e \<Rightarrow> (Some e, tick st)
          | Inr audit \<Rightarrow> (None, (tick st)\<lparr>gs_audit := audit\<rparr>)))"

definition reserve_budget ::
  "'b budget_guard option \<Rightarrow> gateway_request \<Rightarrow> 'b \<Rightarrow> (gateway_exit + reservation_bundle option) \<times> 'b" where
  "reserve_budget guard request b =
     (case guard of
        None \<Rightarrow> (Inr None, b)
      | Some g \<Rightarrow> (case bg_reserve g request b of (Inl e, b1) \<Rightarrow> (Inl e, b1) | (Inr bn, b1) \<Rightarrow> (Inr (Some bn), b1)))"

text \<open>Every exception of \<open>release\<close> becomes \<open>BUDGET_STATE_UNKNOWN\<close>; those of \<open>settle\<close> pass through.\<close>

definition release_budget ::
  "'b budget_guard option \<Rightarrow> reservation_bundle option \<Rightarrow> string \<Rightarrow> 'b \<Rightarrow> bool \<times> 'b" where
  "release_budget guard bn code b =
     (case (guard, bn) of
        (Some g, Some r) \<Rightarrow> (case bg_release g r code b of (None, b1) \<Rightarrow> (True, b1) | (Some _, b1) \<Rightarrow> (False, b1))
      | _ \<Rightarrow> (True, b))"

definition settle_budget ::
  "'b budget_guard option \<Rightarrow> reservation_bundle option \<Rightarrow> 'b \<Rightarrow> gateway_exit option \<times> 'b" where
  "settle_budget guard bn b = (case (guard, bn) of (Some g, Some r) \<Rightarrow> bg_settle g r b | _ \<Rightarrow> (None, b))"

definition effective_classification :: "gateway_ports \<Rightarrow> gateway_request \<Rightarrow> data_classification" where
  "effective_classification ports request =
     highest_classification [Some (gq_data_classification request),
       Some (sc_detected_classification (scan_messages (gp_unicode ports) (messages_json (gq_messages request))))]"

text \<open>The handling of a \<open>ModelGatewayError\<close> of the loop.\<close>

definition on_gateway_error ::
  "gateway_config \<Rightarrow> 'b budget_guard option \<Rightarrow> gateway_request \<Rightarrow> data_classification \<Rightarrow> reservation_bundle option \<Rightarrow> string
   \<Rightarrow> gateway_state \<Rightarrow> 'b \<Rightarrow> gateway_exit \<times> gateway_state \<times> 'b" where
  "on_gateway_error cfg guard request effective bn code st b =
     (case release_budget guard bn code b of
        (False, b1) \<Rightarrow> (ModelGatewayError ''BUDGET_STATE_UNKNOWN'', st, b1)
      | (True, b1) \<Rightarrow>
          if effective = RESTRICTED \<and> code = ''MODEL_POLICY_DENIED''
          then (case audit_refusal cfg request effective code st of
                  (Some _, st1) \<Rightarrow> (Crashed, st1, b1) | (None, st1) \<Rightarrow> (ModelGatewayError code, st1, b1))
          else (ModelGatewayError code, st, b1))"

definition gateway_complete ::
  "gateway_config \<Rightarrow> gateway_ports \<Rightarrow> 'b budget_guard option \<Rightarrow> gateway_request \<Rightarrow> gateway_state \<Rightarrow> 'b
   \<Rightarrow> (gateway_exit + gateway_result) \<times> gateway_state \<times> 'b" where
  "gateway_complete cfg ports guard request st b =
     (let (started_at, st0) = read_monotonic ports st;
          scan = scan_messages (gp_unicode ports) (messages_json (gq_messages request));
          effective = effective_classification ports request
      in if scan_blocked scan then
           (case audit_refusal cfg request effective (''secret detected: '' @ join '', '' (sc_detected_secrets scan)) st0 of
              (Some _, st1) \<Rightarrow> (Inl (ModelGatewayError ''AUDIT_UNAVAILABLE''), st1, b)
            | (None, st1) \<Rightarrow> (Inl (ModelGatewayError ''SECRET_DETECTED''), st1, b))
         else
           (case reserve_budget guard request b of
              (Inl e, b1) \<Rightarrow> (Inl e, st0, b1)
            | (Inr bn, b1) \<Rightarrow>
               (case complete_with_guard cfg ports request effective started_at st0 of
                  (Inl Crashed, st1) \<Rightarrow> (Inl Crashed, st1, b1)
                | (Inl (ModelGatewayError code), st1) \<Rightarrow>
                    (case on_gateway_error cfg guard request effective bn code st1 b1 of (e, st2, b2) \<Rightarrow> (Inl e, st2, b2))
                | (Inr result, st1) \<Rightarrow>
                    (case settle_budget guard bn b1 of
                       (Some e, b2) \<Rightarrow> (Inl e, st1, b2)
                     | (None, b2) \<Rightarrow> (Inr result, st1, b2)))))"

subsection \<open>The guard over the budget tables\<close>

text \<open>The clock and the fates of the reservation's transactions are arguments, as in \<open>Budgets\<close>.\<close>

definition DEFAULT_OUTPUT_TOKENS :: int where "DEFAULT_OUTPUT_TOKENS = 512"

definition budget_exit :: "budget_error \<Rightarrow> gateway_exit" where
  "budget_exit e =
     (case e of
        BudgetExceeded \<Rightarrow> ModelGatewayError ''BUDGET_EXCEEDED''
      | BudgetStateUnknown code \<Rightarrow> ModelGatewayError code
      | _ \<Rightarrow> Crashed)"

definition guard_command :: "gateway_request \<Rightarrow> budget_tables \<Rightarrow> budget_command" where
  "guard_command request db =
     (let (prices, price_version) = latest_prices (gq_tenant_id request) db;
          (input_micros, output_micros) =
            (case prices (gq_model_alias request) of
               None \<Rightarrow> (0, 0) | Some price \<Rightarrow> (pr_input_micros_per_1k price, pr_output_micros_per_1k price));
          (input_tokens, output_tokens) = estimate_tokens (messages_json (gq_messages request)) DEFAULT_OUTPUT_TOKENS
      in \<lparr>cmd_tenant_id = gq_tenant_id request, cmd_application_id = gq_application_id request,
          cmd_execution_id = gq_execution_id request,
          cmd_estimated_micros = estimate_cost_micros input_tokens output_tokens input_micros output_micros,
          cmd_price_version = price_version\<rparr>)"

definition guard_reserve ::
  "timestamp \<Rightarrow> tx_fate \<Rightarrow> tx_fate \<Rightarrow> gateway_request \<Rightarrow> budget_tables \<Rightarrow> (gateway_exit + reservation_bundle) \<times> budget_tables" where
  "guard_reserve moment fate1 fate2 request db =
     (if fst (latest_prices (gq_tenant_id request) db) (gq_model_alias request) = None \<and> has_active_budgets (gq_tenant_id request) db
      then (Inl (ModelGatewayError ''MODEL_UNPRICED''), db)
      else case reserve moment fate1 fate2 (guard_command request db) db of
             (Inl e, db1) \<Rightarrow> (Inl (budget_exit e), db1) | (Inr bn, db1) \<Rightarrow> (Inr bn, db1))"

definition guard_settle :: "reservation_bundle \<Rightarrow> budget_tables \<Rightarrow> gateway_exit option \<times> budget_tables" where
  "guard_settle bn db =
     (case settle bn None db of Inl _ \<Rightarrow> (Some (ModelGatewayError ''BUDGET_STATE_UNKNOWN''), db) | Inr db1 \<Rightarrow> (None, db1))"

definition guard_release :: "reservation_bundle \<Rightarrow> string \<Rightarrow> budget_tables \<Rightarrow> gateway_exit option \<times> budget_tables" where
  "guard_release bn reason db =
     (case release_bundle bn reason db of Inl _ \<Rightarrow> (Some (ModelGatewayError ''BUDGET_STATE_UNKNOWN''), db) | Inr db1 \<Rightarrow> (None, db1))"

definition database_guard :: "timestamp \<Rightarrow> tx_fate \<Rightarrow> tx_fate \<Rightarrow> budget_tables budget_guard" where
  "database_guard moment fate1 fate2 =
     \<lparr>bg_reserve = guard_reserve moment fate1 fate2, bg_settle = guard_settle, bg_release = guard_release\<rparr>"

subsection \<open>Auditor, OPA and the HTTP surface\<close>

definition record_denied ::
  "(jobject \<Rightarrow> jobject) \<Rightarrow> (nat \<Rightarrow> uuid) \<Rightarrow> (nat \<Rightarrow> timestamp) \<Rightarrow> nat \<Rightarrow> gateway_request \<Rightarrow> data_classification \<Rightarrow> string
   \<Rightarrow> audit_tables \<Rightarrow> sql_error + audit_tables" where
  "record_denied jsonb event_id now n request effective reason audit =
     insert_audit jsonb (event_id n) (now n) None ''governance.outbound_denied'' ''DENY'' (Some ''model_call'')
       (Some (case gq_release_id request of Some r \<Rightarrow> if r = [] then gq_model_alias request else r | None \<Rightarrow> gq_model_alias request))
       (Some (gq_tenant_id request))
       (Some [(''effective_classification'', JStr (class_value effective)), (''model_alias'', JStr (gq_model_alias request)),
              (''reason'', JStr reason)]) None audit"

definition field_is_true :: "(string \<times> json) list \<Rightarrow> string \<Rightarrow> bool" where
  "field_is_true d k \<longleftrightarrow> dict_get d k = Some (JBool True)"

text \<open>\<open>OpaOutboundPolicy.allows\<close> on OPA's answer; \<open>None\<close> is an exception it does not handle.\<close>

definition opa_result :: "data_classification \<Rightarrow> json option \<Rightarrow> bool" where
  "opa_result effective result =
     (case result of
        Some (JBool True) \<Rightarrow> effective \<noteq> RESTRICTED
      | Some (JDict d) \<Rightarrow>
          if \<not> field_is_true d ''allow'' then False
          else if effective = RESTRICTED then field_is_true d ''allow_restricted'' \<and> field_is_true d ''private_endpoint''
          else effective \<noteq> CONFIDENTIAL \<or> field_is_true d ''private_endpoint''
      | _ \<Rightarrow> False)"

definition opa_allows :: "data_classification \<Rightarrow> http_reply \<Rightarrow> bool option" where
  "opa_allows effective reply =
     (case reply of
        HttpError \<Rightarrow> Some False
      | OtherException \<Rightarrow> None
      | HttpReply status body \<Rightarrow>
          if \<not> (200 \<le> status \<and> status < 300) then Some False
          else (case body of Some (JDict d) \<Rightarrow> Some (opa_result effective (dict_get d ''result'')) | _ \<Rightarrow> Some False))"

definition released_request ::
  "release_row list \<Rightarrow> string \<Rightarrow> string \<Rightarrow> (string \<times> string) list list \<Rightarrow> string option \<Rightarrow> string option \<Rightarrow> gateway_exit + gateway_request" where
  "released_request releases tenant_id release_id messages application_id execution_id =
     (case (parse_uuid tenant_id, parse_uuid release_id) of
        (Some t, Some r) \<Rightarrow>
          (case find (\<lambda>row. rw_tenant_id row = t \<and> rw_id row = r) releases of
             None \<Rightarrow> Inl (ModelGatewayError ''RELEASE_NOT_FOUND'')
           | Some row \<Rightarrow>
               if rw_model_profiles row = [] then Inl (ModelGatewayError ''RELEASE_NOT_FOUND'')
               else Inr \<lparr>gq_tenant_id = tenant_id, gq_model_alias = rw_model_alias row, gq_messages = messages,
                      gq_data_classification = rw_data_classification row, gq_region = rw_region row,
                      gq_allowed_fallback_aliases = rw_fallback_aliases row, gq_profile_snapshots = rw_model_profiles row,
                      gq_release_id = Some release_id, gq_application_id = None, gq_execution_id = None\<rparr>)
      | _ \<Rightarrow> Inl (ModelGatewayError ''RELEASE_NOT_FOUND''))"

definition http_completion ::
  "gateway_config \<Rightarrow> gateway_ports \<Rightarrow> 'b budget_guard option \<Rightarrow> release_row list \<Rightarrow> string \<Rightarrow> string \<Rightarrow> (string \<times> string) list list
   \<Rightarrow> string option \<Rightarrow> string option \<Rightarrow> gateway_state \<Rightarrow> 'b \<Rightarrow> (gateway_exit + gateway_result) \<times> gateway_state \<times> 'b" where
  "http_completion cfg ports guard releases tenant_id release_id messages application_id execution_id st b =
     (case released_request releases tenant_id release_id messages application_id execution_id of
        Inl e \<Rightarrow> (Inl e, st, b)
      | Inr request \<Rightarrow> gateway_complete cfg ports guard request st b)"

subsection \<open>The candidates\<close>

text \<open>
  Invariants of the loop: what is collected was looked up under an alias that has been seen, and every
  alias in play is the requested one or an allowed fallback.
\<close>

lemma candidate_loop_collects:
  "set aliases \<subseteq> insert m (set allowed) \<Longrightarrow> set seen \<subseteq> insert m (set allowed) \<Longrightarrow> length ps \<le> card (set seen) \<Longrightarrow>
   \<forall>p \<in> set ps. mp_tenant_id p = t \<and> (\<exists>a \<in> set seen. lookup a = Some p) \<Longrightarrow>
   (let qs = candidate_loop lookup t allowed aliases seen ps in
     length qs \<le> Suc (card (set allowed)) \<and> (\<exists>rest. qs = ps @ rest) \<and>
     (\<forall>p \<in> set qs. mp_tenant_id p = t \<and> (\<exists>a \<in> insert m (set allowed). lookup a = Some p)))"
proof (induction lookup t allowed aliases seen ps rule: candidate_loop.induct)
  case (1 lookup t allowed seen ps)
  have "card (set seen) \<le> Suc (card (set allowed))"
    using card_mono [OF _ 1(2)] card_insert_le_m1 [of "Suc (card (set allowed))" "set allowed" m] by (simp add: card_insert_if split: if_splits)
  then show ?case using 1 by (auto simp: Let_def)
next
  case (2 lookup t allowed a aliases seen ps)
  have new: "a \<notin> set seen \<Longrightarrow> card (set (a # seen)) = Suc (card (set seen))" by simp
  show ?case
  proof (cases "a \<in> set seen")
    case True
    then show ?thesis using 2 by auto
  next
    case False
    show ?thesis
    proof (cases "lookup a")
      case None
      then show ?thesis using 2 False new [OF False] by (auto simp: Let_def)
    next
      case (Some p)
      show ?thesis
      proof (cases "mp_tenant_id p = t")
        case True
        have "let qs = candidate_loop lookup t allowed (aliases @ filter (\<lambda>f. f \<in> set allowed) (mp_fallback_aliases p)) (a # seen) (ps @ [p]) in
            length qs \<le> Suc (card (set allowed)) \<and> (\<exists>rest. qs = (ps @ [p]) @ rest) \<and>
            (\<forall>p \<in> set qs. mp_tenant_id p = t \<and> (\<exists>a \<in> insert m (set allowed). lookup a = Some p))"
          by (rule 2(4) [OF False Some]) (use 2(5-8) True Some new [OF False] in auto)
        then show ?thesis using False Some True by (auto simp: Let_def)
      next
        case neq: False
        then show ?thesis using 2(3) [OF False Some] 2(5-8) False Some new [OF False] by (auto simp: Let_def)
      qed
    qed
  qed
qed

text \<open>
  The choice of candidates ends and stays inside the tenant. However the profiles' fallbacks refer to
  each other, cycles included, the candidates of a request are found after finitely many steps (the
  loop is a total function), there are at most one more than the allowed fallbacks, and each is a
  profile of the request's own tenant found under the requested alias or an allowed fallback; the
  requested profile comes first when it exists.
\<close>

theorem candidates_bounded:
  "length (candidate_profiles ports request) \<le> Suc (card (set (gq_allowed_fallback_aliases request))) \<and>
   (\<forall>p \<in> set (candidate_profiles ports request). mp_tenant_id p = gq_tenant_id request \<and>
      (\<exists>a. (a = gq_model_alias request \<or> a \<in> set (gq_allowed_fallback_aliases request)) \<and> lookup_profile ports request a = Some p)) \<and>
   (\<forall>p. lookup_profile ports request (gq_model_alias request) = Some p \<and> mp_tenant_id p = gq_tenant_id request \<longrightarrow>
      (\<exists>rest. candidate_profiles ports request = p # rest))"
proof -
  let ?m = "gq_model_alias request" and ?t = "gq_tenant_id request" and ?al = "gq_allowed_fallback_aliases request"
  have start: "length (candidate_profiles ports request) \<le> Suc (card (set ?al)) \<and>
      (\<forall>p \<in> set (candidate_profiles ports request). mp_tenant_id p = ?t \<and> (\<exists>a \<in> insert ?m (set ?al). lookup_profile ports request a = Some p))"
    using candidate_loop_collects [of "[?m]" ?m ?al "[]" "[]" ?t "lookup_profile ports request"]
    unfolding candidate_profiles_def Let_def by simp
  have "\<exists>rest. candidate_profiles ports request = p # rest"
    if p: "lookup_profile ports request ?m = Some p" "mp_tenant_id p = ?t" for p
  proof -
    have "candidate_profiles ports request =
        candidate_loop (lookup_profile ports request) ?t ?al (filter (\<lambda>f. f \<in> set ?al) (mp_fallback_aliases p)) [?m] [p]"
      using p by (simp add: candidate_profiles_def)
    then show ?thesis
      using candidate_loop_collects [of "filter (\<lambda>f. f \<in> set ?al) (mp_fallback_aliases p)" ?m ?al "[?m]" "[p]" ?t "lookup_profile ports request"] p
      by (auto simp: Let_def)
  qed
  with start show ?thesis by blast
qed

text \<open>Two profiles that name each other as fallback; the provider fails the first.\<close>

definition cyclic_profile :: "string \<Rightarrow> string \<Rightarrow> model_profile" where
  "cyclic_profile name other = \<lparr>mp_tenant_id = ''t'', mp_alias = name, mp_provider_model = name, mp_endpoint_url = ''https://m'',
     mp_secret_ref = name, mp_data_classification = INTERNAL, mp_region = ''eu'', mp_fallback_aliases = [other],
     mp_requests_per_minute = 2\<rparr>"

definition cyclic_request :: gateway_request where
  "cyclic_request = \<lparr>gq_tenant_id = ''t'', gq_model_alias = ''a'', gq_messages = [], gq_data_classification = PUBLIC, gq_region = ''eu'',
     gq_allowed_fallback_aliases = [''a'', ''b''], gq_profile_snapshots = [cyclic_profile ''a'' ''b'', cyclic_profile ''b'' ''a''],
     gq_release_id = None, gq_application_id = None, gq_execution_id = None\<rparr>"

definition cyclic_ports :: gateway_ports where
  "cyclic_ports = \<lparr>gp_unicode = no_tables, gp_monotonic = int, gp_utc = int, gp_profiles = (\<lambda>_ _. None),
     gp_secrets = (\<lambda>_ _ ref. Some ref), gp_policy = (\<lambda>_ _ _ _. True),
     gp_provider = (\<lambda>_ p _ _. if mp_alias p = ''a'' then HttpReply 503 None else HttpReply 200 (Some (JDict [])))\<rparr>"

definition cyclic_config :: gateway_config where
  "cyclic_config = \<lparr>gc_circuit_failure_threshold = 3, gc_circuit_reset = seconds 30, gc_policy_audit = None\<rparr>"

definition idle_gateway :: gateway_state where
  "idle_gateway = \<lparr>gs_failures = (\<lambda>_. 0), gs_opened_at = (\<lambda>_. None), gs_requests = (\<lambda>_. []), gs_events = [], gs_registry = new_registry,
     gs_audit = \<lparr>au_tenants = [], au_chain_state = (\<lambda>_. None), au_events = [], au_outbox = [], au_manifests = []\<rparr>, gs_tick = 0, gs_trace = []\<rparr>"

lemma cyclic_candidates: "candidate_profiles cyclic_ports cyclic_request = [cyclic_profile ''a'' ''b'', cyclic_profile ''b'' ''a'']"
  by (simp add: candidate_profiles_def cyclic_request_def cyclic_profile_def lookup_profile_def snapshot_of_def)

theorem candidates_bounded_witness:
  "length (candidate_profiles cyclic_ports cyclic_request) \<le> 3 \<and>
   (\<exists>rest. candidate_profiles cyclic_ports cyclic_request = cyclic_profile ''a'' ''b'' # rest)"
proof -
  have "lookup_profile cyclic_ports cyclic_request (gq_model_alias cyclic_request) = Some (cyclic_profile ''a'' ''b'')"
    "mp_tenant_id (cyclic_profile ''a'' ''b'') = gq_tenant_id cyclic_request"
    "Suc (card (set (gq_allowed_fallback_aliases cyclic_request))) = 3"
    by (simp_all add: cyclic_request_def cyclic_profile_def lookup_profile_def snapshot_of_def)
  then show ?thesis using candidates_bounded [of cyclic_ports cyclic_request] by metis
qed

subsection \<open>What leaves the gateway\<close>

named_theorems trace_simps

lemma trace_tick [trace_simps]: "gs_trace (tick st) = gs_trace st"
  by (simp add: tick_def)

lemma trace_read [trace_simps]: "gs_trace (snd (read_monotonic ports st)) = gs_trace st"
  by (simp add: read_monotonic_def trace_simps)

lemma trace_allows [trace_simps]: "gs_trace (snd (allows ports request p effective st)) = gs_trace st"
  by (simp add: allows_def trace_simps)

lemma trace_circuit [trace_simps]: "gs_trace (snd (circuit_open cfg ports key st)) = gs_trace st"
  by (simp add: circuit_open_def read_monotonic_def Let_def trace_simps split: option.split)

lemma trace_rate [trace_simps]: "gs_trace (snd (within_rate_limit ports key limit st)) = gs_trace st"
  by (simp add: within_rate_limit_def read_monotonic_def Let_def trace_simps split: prod.split)

lemma trace_failure [trace_simps]: "gs_trace (record_profile_failure cfg ports key st) = gs_trace st"
  by (simp add: record_profile_failure_def read_monotonic_def Let_def trace_simps)

lemma trace_success [trace_simps]: "gs_trace (record_profile_success key st) = gs_trace st"
  by (simp add: record_profile_success_def)

lemma trace_event [trace_simps]: "gs_trace (record_event ports request a f out code h started c st) = gs_trace st"
  by (simp add: record_event_def read_monotonic_def Let_def trace_simps)

lemma trace_note [trace_simps]: "gs_trace (note_fallback ports request p st) = gs_trace st"
  by (simp add: note_fallback_def trace_simps)

lemma trace_audit [trace_simps]: "gs_trace (snd (audit_refusal cfg request effective reason st)) = gs_trace st"
  by (simp add: audit_refusal_def trace_simps split: option.split sum.split)

text \<open>An outgoing request to a candidate that the gateway and the outbound policy allowed.\<close>

definition permitted :: "gateway_ports \<Rightarrow> gateway_request \<Rightarrow> data_classification \<Rightarrow> model_profile \<Rightarrow> outgoing \<Rightarrow> bool" where
  "permitted ports request effective p x \<longleftrightarrow>
     static_allows request p effective \<and> (\<exists>n. gp_policy ports n request p effective) \<and>
     (x = SecretResolved (mp_tenant_id p) (mp_secret_ref p) \<or>
      (\<exists>n c. gp_secrets ports n (mp_tenant_id p) (mp_secret_ref p) = Some c \<and> x = ProviderCalled p (gq_messages request) c))"

lemma call_profile_trace:
  assumes "call_profile cfg ports request started p flags st = (r, st')"
    and "static_allows request p effective" "gp_policy ports n request p effective"
  shows "\<exists>new. gs_trace st' = gs_trace st @ new \<and> (\<forall>x \<in> set new. permitted ports request effective p x)"
proof -
  have s: "permitted ports request effective p (SecretResolved (mp_tenant_id p) (mp_secret_ref p))"
    "gp_secrets ports m (mp_tenant_id p) (mp_secret_ref p) = Some c \<Longrightarrow> permitted ports request effective p (ProviderCalled p (gq_messages request) c)" for m c
    using assms(2,3) by (auto simp: permitted_def)
  show ?thesis
    using assms(1) s
    by (auto simp: call_profile_def resolve_secret_def provider_completion_def failed_attempt_def trace_simps Let_def
        split: option.splits sum.splits)
qed

lemma try_profile_trace:
  assumes "try_profile cfg ports request effective started p flags st = (r, st')"
  shows "\<exists>new. gs_trace st' = gs_trace st @ new \<and> (\<forall>x \<in> set new. permitted ports request effective p x)"
proof -
  obtain ok st1 where a: "allows ports request p effective st = (ok, st1)" by fastforce
  obtain op st2 where c: "circuit_open cfg ports (mp_tenant_id p, mp_alias p) st1 = (op, st2)" by fastforce
  obtain rl st3 where w: "within_rate_limit ports (mp_tenant_id p, mp_alias p) (mp_requests_per_minute p) st2 = (rl, st3)" by fastforce
  have t: "gs_trace st1 = gs_trace st" "gs_trace st2 = gs_trace st" "gs_trace st3 = gs_trace st"
    using trace_allows [of ports request p effective st] trace_circuit [of cfg ports "(mp_tenant_id p, mp_alias p)" st1]
      trace_rate [of ports "(mp_tenant_id p, mp_alias p)" "mp_requests_per_minute p" st2] a c w by simp_all
  show ?thesis
  proof (cases "ok \<and> \<not> op \<and> rl")
    case True
    have pol: "static_allows request p effective" "gp_policy ports (gs_tick st) request p effective"
      using a True by (auto simp: allows_def split: if_splits)
    have "call_profile cfg ports request started p (flags\<lparr>lf_attempted := True\<rparr>) st3 = (r, st')"
      using assms a c w True by (simp add: try_profile_def Let_def)
    from call_profile_trace [OF this pol] t show ?thesis by simp
  next
    case False
    then have "gs_trace st' = gs_trace st" using assms a c w t by (auto simp: try_profile_def Let_def split: if_splits bool.splits)
    then show ?thesis by simp
  qed
qed

lemma try_profiles_trace:
  "try_profiles cfg ports request effective started ps flags st = (r, st') \<Longrightarrow>
   \<exists>new. gs_trace st' = gs_trace st @ new \<and> (\<forall>x \<in> set new. \<exists>p \<in> set ps. permitted ports request effective p x)"
proof (induction ps arbitrary: flags st)
  case Nil
  then show ?case by (auto simp: trace_simps split: if_splits)
next
  case (Cons p ps)
  obtain a st1 where a: "try_profile cfg ports request effective started p flags st = (a, st1)" by fastforce
  obtain new where new: "gs_trace st1 = gs_trace st @ new" "\<forall>x \<in> set new. permitted ports request effective p x"
    using try_profile_trace [OF a] by blast
  show ?case
  proof (cases "\<exists>flags1. try_profiles cfg ports request effective started ps flags1 st1 = (r, st')")
    case True
    then obtain more where "gs_trace st' = gs_trace st1 @ more" "\<forall>x \<in> set more. \<exists>p \<in> set ps. permitted ports request effective p x"
      using Cons.IH by blast
    then show ?thesis using new by (intro exI [of _ "new @ more"]) auto
  next
    case False
    then have "st' = st1" using Cons.prems a by (auto split: attempt.splits)
    then show ?thesis using new by auto
  qed
qed

text \<open>
  C24: Nothing leaves the gateway unchecked. Whatever a completion returns or raises, every secret it
  resolved and every provider request it sent was for a candidate profile of the request's own tenant,
  in the request's region, of at least its classification, and allowed by the outbound policy under the
  effective classification, which is not RESTRICTED and at least the declared and the detected one; the
  provider got the credential of that profile. If anything left at all, no secret had been detected in
  the messages and the budget guard, if there is one, had accepted the call before.
\<close>

theorem egress_checked:
  assumes "gateway_complete cfg ports guard request st b = (result, st', b')"
  shows "\<exists>new. gs_trace st' = gs_trace st @ new \<and>
    (\<forall>x \<in> set new. \<exists>p \<in> set (candidate_profiles ports request).
       permitted ports request (effective_classification ports request) p x \<and> mp_tenant_id p = gq_tenant_id request) \<and>
    (new \<noteq> [] \<longrightarrow> sc_detected_secrets (scan_messages (gp_unicode ports) (messages_json (gq_messages request))) = [] \<and>
       (\<forall>g. guard = Some g \<longrightarrow> is_ok (fst (bg_reserve g request b))))"
proof -
  obtain started st0 where r: "read_monotonic ports st = (started, st0)" by fastforce
  have t0: "gs_trace st0 = gs_trace st" using trace_read [of ports st] r by simp
  let ?scan = "scan_messages (gp_unicode ports) (messages_json (gq_messages request))"
  let ?eff = "effective_classification ports request"
  obtain rb b1 where rb: "reserve_budget guard request b = (rb, b1)" by fastforce
  obtain cr st1 where cg: "complete_with_guard cfg ports request ?eff started st0 = (cr, st1)" by fastforce
  show ?thesis
  proof (cases "scan_blocked ?scan \<or> \<not> is_ok rb")
    case True
    then have "gs_trace st' = gs_trace st"
      using assms r rb t0 trace_audit [of cfg request ?eff _ st0]
      by (auto simp: gateway_complete_def Let_def is_ok_def split: sum.splits option.splits prod.splits if_splits) (metis snd_conv)+
    then show ?thesis by simp
  next
    case False
    then obtain bn where bn: "rb = Inr bn" by (cases rb) auto
    have guard: "guard = Some g \<Longrightarrow> is_ok (fst (bg_reserve g request b))" for g
      using rb bn by (auto simp: reserve_budget_def split: prod.splits sum.splits)
    have oe: "gs_trace (fst (snd (on_gateway_error cfg guard request ?eff bn code st1 b1))) = gs_trace st1" for code
      using trace_audit [of cfg request ?eff code st1] by (auto simp: on_gateway_error_def split: prod.splits bool.splits option.splits if_splits)
    have t': "gs_trace st' = gs_trace st1"
      using assms r rb bn cg False oe
      by (auto simp: gateway_complete_def Let_def split: sum.splits gateway_exit.splits prod.splits option.splits) (metis fst_conv snd_conv)+
    obtain new where "gs_trace st1 = gs_trace st0 @ new" "\<forall>x \<in> set new. \<exists>p \<in> set (candidate_profiles ports request). permitted ports request ?eff p x"
      using try_profiles_trace [OF cg [unfolded complete_with_guard_def]] by blast
    moreover have "p \<in> set (candidate_profiles ports request) \<Longrightarrow> mp_tenant_id p = gq_tenant_id request" for p
      using candidate_loop_collects [of "[gq_model_alias request]" "gq_model_alias request" "gq_allowed_fallback_aliases request" "[]" "[]"
          "gq_tenant_id request" "lookup_profile ports request"] unfolding candidate_profiles_def Let_def by simp
    ultimately show ?thesis using t' t0 guard False by (auto simp: scan_blocked_def)
  qed
qed

text \<open>The run above: the first profile's provider fails, the second one serves the request.\<close>

definition cyclic_run :: "(gateway_exit + gateway_result) \<times> gateway_state \<times> unit" where
  "cyclic_run = gateway_complete cyclic_config cyclic_ports None cyclic_request idle_gateway ()"

lemmas gateway_eval_defs = cyclic_ports_def cyclic_request_def idle_gateway_def cyclic_config_def cyclic_profile_def
  read_monotonic_def tick_def reserve_budget_def settle_budget_def try_profile_def allows_def static_allows_def circuit_open_def
  within_rate_limit_def admit_request_def call_profile_def resolve_secret_def provider_completion_def provider_reply_def
  failed_attempt_def record_profile_failure_def record_profile_success_def record_event_def note_fallback_def
  CLASSIFICATION_ORDER_def rank_def no_flags_def Let_def seconds_def

lemma cyclic_run_trace:
  "gs_trace (fst (snd cyclic_run)) =
     [SecretResolved ''t'' ''a'', ProviderCalled (cyclic_profile ''a'' ''b'') [] ''a'',
      SecretResolved ''t'' ''b'', ProviderCalled (cyclic_profile ''b'' ''a'') [] ''b'']"
proof -
  have eff: "effective_classification cyclic_ports cyclic_request = PUBLIC"
    by (simp add: effective_classification_def cyclic_request_def cyclic_ports_def messages_json_def scan_messages_def
        highest_classification_def raise_to_def)
  have free: "\<not> scan_blocked (scan_messages (gp_unicode cyclic_ports) (messages_json (gq_messages cyclic_request)))"
    by (simp add: cyclic_ports_def cyclic_request_def messages_json_def scan_messages_def scan_blocked_def)
  show ?thesis
    unfolding cyclic_run_def gateway_complete_def Let_def complete_with_guard_def cyclic_candidates eff
    using free by (simp add: gateway_eval_defs)
qed

theorem egress_checked_witness:
  "list_all (\<lambda>x. \<exists>p. p \<in> {cyclic_profile ''a'' ''b'', cyclic_profile ''b'' ''a''} \<and>
       permitted cyclic_ports cyclic_request (effective_classification cyclic_ports cyclic_request) p x)
     [SecretResolved ''t'' ''a'', ProviderCalled (cyclic_profile ''a'' ''b'') [] ''a'',
      SecretResolved ''t'' ''b'', ProviderCalled (cyclic_profile ''b'' ''a'') [] ''b'']"
proof -
  obtain result st' b' where run: "gateway_complete cyclic_config cyclic_ports None cyclic_request idle_gateway () = (result, st', b')"
    by (cases "gateway_complete cyclic_config cyclic_ports None cyclic_request idle_gateway ()") blast
  have "gs_trace st' = gs_trace (fst (snd cyclic_run))" by (simp add: cyclic_run_def run)
  then show ?thesis
    using egress_checked [OF run] unfolding cyclic_run_trace cyclic_candidates
    by (force simp: idle_gateway_def)
qed

end
