(* ===== verification/Adaptive_Reply.thy ===== *)
theory Adaptive_Reply
  imports Regex
begin

text \<open>
  Reply planning of \<open>trpc_service/channels/adaptive_reply.py\<close>. A text is its list of code points, as
  a Python string is; which code points above 127 are white space is the Unicode database's matter.
  The loop of \<open>split_reply_text\<close> is a partial function: with a limit of zero characters, which the
  field constraint of \<open>ChannelReplyCapabilities\<close> excludes, it would not end.
\<close>

type_synonym code_points = "nat list"

datatype reply_strategy = MERGED_STREAM | FINAL_ONLY

record reply_capabilities =
  supports_updates :: bool
  max_text_chars :: nat
  stream_chunk_chars :: nat

definition capabilities_ok :: "reply_capabilities \<Rightarrow> bool" where
  "capabilities_ok c \<longleftrightarrow> 1 \<le> max_text_chars c \<and> max_text_chars c \<le> 100000 \<and>
     1 \<le> stream_chunk_chars c \<and> stream_chunk_chars c \<le> 100000"

record reply_plan =
  rp_strategy :: reply_strategy
  rp_processing_notice :: bool
  rp_stream_chunks :: "code_points list"
  rp_final_messages :: "code_points list"

subsection \<open>Markdown\<close>

text \<open>\<open>value.count("```")\<close>: occurrences that do not overlap, from the left.\<close>

fun count_fences :: "code_points \<Rightarrow> nat" where
  "count_fences (x # y # z # s) =
     (if x = 96 \<and> y = 96 \<and> z = 96 then Suc (count_fences s) else count_fences (y # z # s))"
| "count_fences s = 0"

definition bracket_step :: "nat \<Rightarrow> nat \<Rightarrow> nat" where
  "bracket_step brackets character =
     (if character = 91 then brackets + 1 else if character = 93 \<and> brackets \<noteq> 0 then brackets - 1 else brackets)"

definition markdown_state :: "code_points \<Rightarrow> nat \<times> nat" where
  "markdown_state v = (count_fences v mod 2, foldl bracket_step 0 v)"

definition markdown_boundary :: "code_points \<Rightarrow> nat \<Rightarrow> nat" where
  "markdown_boundary v maximum =
     (let candidates = filter (\<lambda>i. v ! (i - 1) \<in> {10, 32} \<and> markdown_state (take i v) = (0, 0)) [1..<Suc maximum] in
      if candidates \<noteq> [] then last candidates
      else if markdown_state (take maximum v) = (0, 0) then maximum else 0)"

subsection \<open>Splitting\<close>

definition rstrip :: "unicode_tables \<Rightarrow> code_points \<Rightarrow> code_points" where
  "rstrip U s = rev (dropWhile (is_space_cp U) (rev s))"

definition lstrip_blank :: "code_points \<Rightarrow> code_points" where
  "lstrip_blank s = dropWhile (\<lambda>c. c = 32 \<or> c = 10) s"

text \<open>One pass of the loop: the piece cut off and the boundary it was cut at.\<close>

definition cut_piece :: "unicode_tables \<Rightarrow> nat \<Rightarrow> code_points \<Rightarrow> code_points \<times> nat" where
  "cut_piece U max_chars remaining =
     (let b = markdown_boundary remaining max_chars;
          boundary = (if b \<le> 0 then max_chars else b);
          piece = rstrip U (take boundary remaining)
      in if piece = [] then (take max_chars remaining, max_chars) else (piece, boundary))"

partial_function (option) split_loop :: "unicode_tables \<Rightarrow> nat \<Rightarrow> code_points list \<Rightarrow> code_points \<Rightarrow> code_points list option" where
  "split_loop U max_chars pieces remaining =
     (if max_chars < length remaining
      then (case cut_piece U max_chars remaining of
              (piece, boundary) \<Rightarrow> split_loop U max_chars (pieces @ [piece]) (lstrip_blank (drop boundary remaining)))
      else Some (if remaining \<noteq> [] then pieces @ [remaining] else pieces))"

definition split_reply_text :: "unicode_tables \<Rightarrow> code_points \<Rightarrow> nat \<Rightarrow> code_points list option" where
  "split_reply_text U content max_chars =
     (let clean = filter (\<lambda>c. c \<noteq> 0) content in
      if clean = [] then Some [[8230]] else split_loop U max_chars [] clean)"

definition plan_reply :: "unicode_tables \<Rightarrow> code_points \<Rightarrow> reply_capabilities \<Rightarrow> bool \<Rightarrow> reply_plan option" where
  "plan_reply U content capabilities is_group =
     (case split_reply_text U content (max_text_chars capabilities) of
        None \<Rightarrow> None
      | Some final_messages \<Rightarrow>
          if is_group \<or> \<not> supports_updates capabilities
          then Some \<lparr>rp_strategy = FINAL_ONLY, rp_processing_notice = is_group, rp_stream_chunks = [], rp_final_messages = final_messages\<rparr>
          else (case split_reply_text U content (stream_chunk_chars capabilities) of
                  None \<Rightarrow> None
                | Some streamed \<Rightarrow>
                    Some \<lparr>rp_strategy = MERGED_STREAM, rp_processing_notice = False, rp_stream_chunks = streamed,
                          rp_final_messages = final_messages\<rparr>))"

subsection \<open>One cut\<close>

definition visible_text :: "unicode_tables \<Rightarrow> code_points \<Rightarrow> code_points" where
  "visible_text U s = filter (\<lambda>c. \<not> is_space_cp U c) s"

lemma visible_append [simp]: "visible_text U (s @ t) = visible_text U s @ visible_text U t"
  by (simp add: visible_text_def)

lemma filter_dropWhile: "(\<And>x. Q x \<Longrightarrow> \<not> P x) \<Longrightarrow> filter P (dropWhile Q s) = filter P s"
  by (induction s) auto

lemma visible_rstrip: "visible_text U (rstrip U s) = visible_text U s"
  unfolding visible_text_def rstrip_def rev_filter [symmetric] by (subst filter_dropWhile) (auto simp: rev_filter)

lemma visible_lstrip: "visible_text U (lstrip_blank s) = visible_text U s"
  unfolding visible_text_def lstrip_blank_def by (rule filter_dropWhile) (auto simp: is_space_cp_def)

lemma length_rstrip: "length (rstrip U s) \<le> length s"
  using length_dropWhile_le [of "is_space_cp U" "rev s"] by (simp add: rstrip_def)

lemma markdown_boundary_le: "markdown_boundary v maximum \<le> maximum"
proof -
  let ?c = "filter (\<lambda>i. v ! (i - 1) \<in> {10, 32} \<and> markdown_state (take i v) = (0, 0)) [1..<Suc maximum]"
  have "?c \<noteq> [] \<Longrightarrow> last ?c \<in> set ?c" by (rule last_in_set)
  then have "?c \<noteq> [] \<Longrightarrow> last ?c \<le> maximum" by (simp del: upt_Suc)
  then show ?thesis unfolding markdown_boundary_def Let_def by (simp del: upt_Suc)
qed

text \<open>A piece is not empty and within the limit, the text shrinks, and only white space is dropped.\<close>

lemma cut_piece_facts:
  assumes "1 \<le> max_chars" "max_chars < length s" "cut_piece U max_chars s = (piece, boundary)"
  shows "piece \<noteq> []" "length piece \<le> max_chars" "1 \<le> boundary" "boundary \<le> max_chars"
    "visible_text U piece = visible_text U (take boundary s)"
proof -
  let ?b = "markdown_boundary s max_chars"
  let ?e = "if ?b \<le> 0 then max_chars else ?b"
  have e: "1 \<le> ?e" "?e \<le> max_chars" using assms(1) markdown_boundary_le [of s max_chars] by auto
  have r: "length (rstrip U (take ?e s)) \<le> max_chars" using length_rstrip [of U "take ?e s"] e by simp
  have c: "piece = take max_chars s \<and> boundary = max_chars \<or>
      piece = rstrip U (take ?e s) \<and> piece \<noteq> [] \<and> boundary = ?e"
    using assms(3) unfolding cut_piece_def Let_def by (auto split: if_splits)
  from c show "piece \<noteq> []" using assms(1,2) by auto
  from c show "length piece \<le> max_chars" using r by auto
  from c show "1 \<le> boundary" using e assms(1) by auto
  from c show "boundary \<le> max_chars" using e by auto
  from c show "visible_text U piece = visible_text U (take boundary s)" by (auto simp: visible_rstrip)
qed

subsection \<open>The whole text\<close>

lemma length_lstrip: "length (lstrip_blank s) \<le> length s"
  by (simp add: lstrip_blank_def length_dropWhile_le)

lemma split_loop_returns:
  assumes "1 \<le> max_chars"
  shows "\<exists>new. split_loop U max_chars pieces s = Some (pieces @ new) \<and> (s \<noteq> [] \<longrightarrow> new \<noteq> []) \<and>
     list_all (\<lambda>p. p \<noteq> [] \<and> length p \<le> max_chars) new \<and> visible_text U (concat new) = visible_text U s \<and> length new \<le> length s"
proof (induction "length s" arbitrary: s pieces rule: less_induct)
  case less
  show ?case
  proof (cases "max_chars < length s")
    case False
    then show ?thesis
      by (intro exI [of _ "if s \<noteq> [] then [s] else []"]) (auto simp: split_loop.simps Suc_le_eq)
  next
    case True
    obtain piece boundary where c: "cut_piece U max_chars s = (piece, boundary)" by fastforce
    note f = cut_piece_facts [OF assms True c]
    let ?s = "lstrip_blank (drop boundary s)"
    have shorter: "length ?s < length s"
      using length_lstrip [of "drop boundary s"] f(3) True by simp
    obtain new where new: "split_loop U max_chars (pieces @ [piece]) ?s = Some ((pieces @ [piece]) @ new)"
      "list_all (\<lambda>p. p \<noteq> [] \<and> length p \<le> max_chars) new" "visible_text U (concat new) = visible_text U ?s" "length new \<le> length ?s"
      using less.hyps [OF shorter] by blast
    have "visible_text U s = visible_text U (take boundary s) @ visible_text U (drop boundary s)"
      using visible_append [of U "take boundary s" "drop boundary s"] by simp
    then have v: "visible_text U (concat (piece # new)) = visible_text U s" using new(3) f(5) by (simp add: visible_lstrip)
    show ?thesis
      using new f(1,2) True c v shorter by (intro exI [of _ "piece # new"]) (simp add: split_loop.simps)
  qed
qed

lemma split_reply_facts:
  assumes "1 \<le> max_chars"
  shows "\<exists>ps. split_reply_text U content max_chars = Some ps \<and> ps \<noteq> [] \<and>
     list_all (\<lambda>p. 1 \<le> length p \<and> length p \<le> max_chars) ps \<and> length ps \<le> max 1 (length content) \<and>
     (if set content \<subseteq> {0} then ps = [[8230]]
      else visible_text U (concat ps) = visible_text U (filter (\<lambda>c. c \<noteq> 0) content))"
proof (cases "set content \<subseteq> {0}")
  case True
  then have "filter (\<lambda>c. c \<noteq> 0) content = []" by (auto simp: filter_empty_conv)
  then show ?thesis using assms True by (simp add: split_reply_text_def)
next
  case False
  let ?clean = "filter (\<lambda>c. c \<noteq> 0) content"
  have ne: "?clean \<noteq> []" using False by (auto simp: filter_empty_conv)
  obtain new where new: "split_loop U max_chars [] ?clean = Some new" "new \<noteq> []"
    "list_all (\<lambda>p. p \<noteq> [] \<and> length p \<le> max_chars) new" "visible_text U (concat new) = visible_text U ?clean" "length new \<le> length ?clean"
    using split_loop_returns [OF assms, of U "[]" ?clean] ne by auto
  have "split_reply_text U content max_chars = Some new" using new(1) ne by (simp add: split_reply_text_def)
  moreover have "list_all (\<lambda>p. 1 \<le> length p \<and> length p \<le> max_chars) new"
    using new(3) by (auto simp: list_all_iff Suc_le_eq)
  moreover have "length new \<le> max 1 (length content)" using new(5) length_filter_le [of "\<lambda>c. c \<noteq> 0" content] by linarith
  ultimately show ?thesis using new(2,4) False by simp
qed

text \<open>
  C35: Splitting a reply always ends and loses nothing visible. For every limit of at least one
  character the loop returns; there is at least one piece, each has between one character and the
  limit, there are no more pieces than characters, and the pieces together show exactly the characters
  of the reply that are neither white space nor NUL, in their order. A reply of NULs only becomes an
  ellipsis.
\<close>

theorem split_reply_complete:
  assumes "1 \<le> max_chars"
  shows "\<exists>ps. split_reply_text U content max_chars = Some ps \<and> ps \<noteq> [] \<and>
     list_all (\<lambda>p. 1 \<le> length p \<and> length p \<le> max_chars) ps \<and> length ps \<le> max 1 (length content) \<and>
     (if set content \<subseteq> {0} then ps = [[8230]]
      else visible_text U (concat ps) = visible_text U (filter (\<lambda>c. c \<noteq> 0) content))"
  by (rule split_reply_facts [OF assms])

definition word_tables :: unicode_tables where
  "word_tables = \<lparr>alphanumeric = \<lambda>_. False, decimal = \<lambda>_. False, white_space = \<lambda>_. False\<rparr>"

theorem split_reply_complete_witness:
  "\<exists>ps. split_reply_text word_tables [104, 105, 32, 98, 111, 98] 4 = Some ps \<and> visible_text word_tables (concat ps) = [104, 105, 98, 111, 98]"
proof -
  have "visible_text word_tables (filter (\<lambda>c. c \<noteq> 0) [104, 105, 32, 98, 111, 98]) = [104, 105, 98, 111, 98]"
    by (simp add: visible_text_def is_space_cp_def)
  then show ?thesis using split_reply_complete [of 4 word_tables "[104, 105, 32, 98, 111, 98]"] by auto
qed

subsection \<open>Plans\<close>

definition within :: "nat \<Rightarrow> code_points list \<Rightarrow> bool" where
  "within limit ps \<longleftrightarrow> list_all (\<lambda>p. 1 \<le> length p \<and> length p \<le> limit) ps"

text \<open>What a channel adapter relies on in a plan.\<close>

definition plan_ok :: "reply_capabilities \<Rightarrow> bool \<Rightarrow> reply_plan \<Rightarrow> bool" where
  "plan_ok c is_group p \<longleftrightarrow>
     rp_final_messages p \<noteq> [] \<and> within (max_text_chars c) (rp_final_messages p) \<and> within (stream_chunk_chars c) (rp_stream_chunks p) \<and>
     (rp_strategy p = MERGED_STREAM \<longleftrightarrow> \<not> is_group \<and> supports_updates c) \<and>
     (rp_stream_chunks p \<noteq> [] \<longleftrightarrow> rp_strategy p = MERGED_STREAM) \<and> (rp_processing_notice p \<longleftrightarrow> is_group)"

text \<open>
  C38: Every reply gets a well-formed plan. For capabilities within their field constraints, planning
  returns a plan with at least one final message; final messages and stream chunks keep to their
  limits; output is streamed exactly in a direct conversation of a channel with updates, so a group
  never sees intermediate output; and the processing notice is for groups only.
\<close>

theorem plan_reply_typed:
  assumes "capabilities_ok c"
  shows "\<exists>p. plan_reply U content c is_group = Some p \<and> plan_ok c is_group p"
proof -
  have c: "1 \<le> max_text_chars c" "1 \<le> stream_chunk_chars c" using assms by (simp_all add: capabilities_ok_def)
  obtain ps where ps: "split_reply_text U content (max_text_chars c) = Some ps" "ps \<noteq> []" "within (max_text_chars c) ps"
    using split_reply_facts [OF c(1)] unfolding within_def by blast
  obtain qs where qs: "split_reply_text U content (stream_chunk_chars c) = Some qs" "qs \<noteq> []" "within (stream_chunk_chars c) qs"
    using split_reply_facts [OF c(2)] unfolding within_def by blast
  show ?thesis using ps qs by (auto simp: plan_reply_def plan_ok_def within_def)
qed

theorem plan_reply_typed_witness:
  "\<exists>p. plan_reply word_tables [104, 105] \<lparr>supports_updates = True, max_text_chars = 4096, stream_chunk_chars = 256\<rparr> True = Some p \<and>
     plan_ok \<lparr>supports_updates = True, max_text_chars = 4096, stream_chunk_chars = 256\<rparr> True p"
  by (rule plan_reply_typed) (simp add: capabilities_ok_def)

text \<open>
  Without a safe boundary the text is cut at the limit all the same: here the link text \<open>[ab]\<close> is cut
  in two, and the first message has a bracket that is still open.
\<close>

lemma unsafe_cut:
  "markdown_boundary [91, 97, 98, 93] 2 = 0 \<and> split_reply_text word_tables [91, 97, 98, 93] 2 = Some [[91, 97], [98, 93]] \<and>
   markdown_state [91, 97] = (0, 1)"
proof -
  have up: "[1..<Suc 2] = [1, 2]" by (simp add: upt_rec)
  have b: "markdown_boundary [91, 97, 98, 93] 2 = 0"
    unfolding markdown_boundary_def up by (simp add: markdown_state_def bracket_step_def)
  have c: "cut_piece word_tables 2 [91, 97, 98, 93] = ([91, 97], 2)"
    by (simp add: cut_piece_def b rstrip_def is_space_cp_def)
  have "split_loop word_tables 2 [] [91, 97, 98, 93] = Some [[91, 97], [98, 93]]"
    by (subst split_loop.simps, simp add: c lstrip_blank_def, subst split_loop.simps, simp)
  then show ?thesis using b by (simp add: split_reply_text_def markdown_state_def bracket_step_def)
qed

end
