(* ===== verification/Reply_Delivery.thy ===== *)
theory Reply_Delivery
  imports Py_Lib
begin

text \<open>
  The reply delivery state machine of \<open>trpc_service/channels/delivery.py\<close>, with its in-memory store
  and the PostgreSQL store of \<open>channels/store.py\<close> over the tables of migration \<open>0016\<close>. The
  transport, the clock and fresh identifiers are functions of the number of interactions so far, and
  so is what other workers do to the store before each access of it. The loop of \<open>run\<close> need not
  end, since a channel may limit the rate forever: it is a partial function. Identifiers are UUIDs in
  canonical form, so that \<open>UUID(...)\<close> accepts them. Delays are microseconds.
\<close>

datatype delivery_state = Ds_queued | Ds_in_flight | Ds_delivered | Ds_rate_limited | Ds_failed | Ds_outcome_unknown | Ds_dead_letter

definition TERMINAL_STATES :: "delivery_state list" where
  "TERMINAL_STATES = [Ds_delivered, Ds_dead_letter]"

datatype delivery_error = ReplyDeliveryError string | OverflowError | StoreError sql_error

record reply_delivery =
  rd_tenant_id :: uuid
  rd_delivery_id :: uuid
  rd_binding_id :: uuid
  rd_execution_id :: string
  rd_external_conversation_id :: string
  rd_content :: string
  rd_status :: delivery_state
  rd_attempts :: nat
  rd_created_at :: timestamp

record delivery_attempt =
  da_attempt_id :: uuid
  da_tenant_id :: uuid
  da_delivery_id :: uuid
  da_attempt_no :: nat
  da_outcome :: string
  da_error_code :: "string option"
  da_started_at :: timestamp
  da_finished_at :: timestamp

record transport_outcome =
  to_delivered :: bool
  to_rate_limited :: bool
  to_outcome_unknown :: bool
  to_error_code :: "string option"

definition state_text :: "delivery_state \<Rightarrow> string" where
  "state_text s = (case s of Ds_queued \<Rightarrow> ''QUEUED'' | Ds_in_flight \<Rightarrow> ''IN_FLIGHT'' | Ds_delivered \<Rightarrow> ''DELIVERED''
     | Ds_rate_limited \<Rightarrow> ''RATE_LIMITED'' | Ds_failed \<Rightarrow> ''FAILED'' | Ds_outcome_unknown \<Rightarrow> ''OUTCOME_UNKNOWN''
     | Ds_dead_letter \<Rightarrow> ''DEAD_LETTER'')"

subsection \<open>Stores\<close>

record 's delivery_ops =
  op_save_delivery :: "reply_delivery \<Rightarrow> 's \<Rightarrow> sql_error + 's"
  op_get_delivery :: "uuid \<Rightarrow> uuid \<Rightarrow> 's \<Rightarrow> reply_delivery option"
  op_save_attempt :: "delivery_attempt \<Rightarrow> 's \<Rightarrow> sql_error + 's"
  op_list_dead_letters :: "uuid \<Rightarrow> 's \<Rightarrow> reply_delivery list"
  op_claim_attempt :: "uuid \<Rightarrow> uuid \<Rightarrow> delivery_state \<Rightarrow> nat \<Rightarrow> 's \<Rightarrow> reply_delivery option \<times> 's"

record delivery_tables =
  reply_delivery_rows :: "reply_delivery list"
  attempt_rows :: "delivery_attempt list"

text \<open>The in-memory store is keyed by the delivery id alone; a dictionary keeps its insertion order.\<close>

definition mem_save_delivery :: "reply_delivery \<Rightarrow> delivery_tables \<Rightarrow> delivery_tables" where
  "mem_save_delivery d s =
     s\<lparr>reply_delivery_rows :=
         (if has_key rd_delivery_id (rd_delivery_id d) (reply_delivery_rows s)
          then update_where (\<lambda>q. rd_delivery_id q = rd_delivery_id d) (\<lambda>_. d) (reply_delivery_rows s)
          else reply_delivery_rows s @ [d])\<rparr>"

definition mem_get_delivery :: "uuid \<Rightarrow> uuid \<Rightarrow> delivery_tables \<Rightarrow> reply_delivery option" where
  "mem_get_delivery tenant_id delivery_id s =
     (case row_of rd_delivery_id delivery_id (reply_delivery_rows s) of
        None \<Rightarrow> None | Some d \<Rightarrow> if rd_tenant_id d \<noteq> tenant_id then None else Some d)"

definition mem_save_attempt :: "delivery_attempt \<Rightarrow> delivery_tables \<Rightarrow> delivery_tables" where
  "mem_save_attempt a s = s\<lparr>attempt_rows := attempt_rows s @ [a]\<rparr>"

definition mem_list_dead_letters :: "uuid \<Rightarrow> delivery_tables \<Rightarrow> reply_delivery list" where
  "mem_list_dead_letters tenant_id s =
     filter (\<lambda>d. rd_tenant_id d = tenant_id \<and> rd_status d = Ds_dead_letter) (reply_delivery_rows s)"

definition claimed :: "nat \<Rightarrow> reply_delivery \<Rightarrow> reply_delivery" where
  "claimed attempt_no d = d\<lparr>rd_status := Ds_in_flight, rd_attempts := attempt_no\<rparr>"

definition mem_claim_attempt ::
  "uuid \<Rightarrow> uuid \<Rightarrow> delivery_state \<Rightarrow> nat \<Rightarrow> delivery_tables \<Rightarrow> reply_delivery option \<times> delivery_tables" where
  "mem_claim_attempt tenant_id delivery_id from_status attempt_no s =
     (case mem_get_delivery tenant_id delivery_id s of
        None \<Rightarrow> (None, s)
      | Some d \<Rightarrow>
          if rd_status d \<noteq> from_status then (None, s)
          else (Some (claimed attempt_no d), mem_save_delivery (claimed attempt_no d) s))"

definition mem_delivery_ops :: "delivery_tables delivery_ops" where
  "mem_delivery_ops =
     \<lparr>op_save_delivery = (\<lambda>d s. Inr (mem_save_delivery d s)), op_get_delivery = mem_get_delivery,
      op_save_attempt = (\<lambda>a s. Inr (mem_save_attempt a s)), op_list_dead_letters = mem_list_dead_letters,
      op_claim_attempt = mem_claim_attempt\<rparr>"

text \<open>The tables: keys \<open>(tenant_id, delivery_id)\<close> and \<open>(tenant_id, attempt_id)\<close>, attempt numbers unique per delivery.\<close>

definition delivery_key :: "reply_delivery \<Rightarrow> uuid \<times> uuid" where
  "delivery_key d = (rd_tenant_id d, rd_delivery_id d)"

definition attempt_key :: "delivery_attempt \<Rightarrow> uuid \<times> uuid" where
  "attempt_key a = (da_tenant_id a, da_attempt_id a)"

definition attempt_number :: "delivery_attempt \<Rightarrow> uuid \<times> uuid \<times> nat" where
  "attempt_number a = (da_tenant_id a, da_delivery_id a, da_attempt_no a)"

definition conversation_ok :: "string \<Rightarrow> bool" where
  "conversation_ok c \<longleftrightarrow> 1 \<le> length c \<and> length c \<le> 256"

definition db_save_delivery :: "reply_delivery \<Rightarrow> delivery_tables \<Rightarrow> sql_error + delivery_tables" where
  "db_save_delivery d s =
     (if \<not> conversation_ok (rd_external_conversation_id d) then Inl IntegrityError
      else Inr (s\<lparr>reply_delivery_rows :=
        (if has_key delivery_key (delivery_key d) (reply_delivery_rows s)
         then update_where (\<lambda>q. delivery_key q = delivery_key d)
                (\<lambda>q. q\<lparr>rd_content := rd_content d, rd_status := rd_status d, rd_attempts := rd_attempts d\<rparr>) (reply_delivery_rows s)
         else reply_delivery_rows s @ [d])\<rparr>))"

definition db_get_delivery :: "uuid \<Rightarrow> uuid \<Rightarrow> delivery_tables \<Rightarrow> reply_delivery option" where
  "db_get_delivery tenant_id delivery_id s = row_of delivery_key (tenant_id, delivery_id) (reply_delivery_rows s)"

definition db_save_attempt :: "delivery_attempt \<Rightarrow> delivery_tables \<Rightarrow> sql_error + delivery_tables" where
  "db_save_attempt a s =
     (if da_attempt_no a < 1 then Inl IntegrityError
      else if has_key attempt_key (attempt_key a) (attempt_rows s) then Inr s
      else if has_key attempt_number (attempt_number a) (attempt_rows s) then Inl IntegrityError
      else Inr (s\<lparr>attempt_rows := attempt_rows s @ [a]\<rparr>))"

definition db_claim_attempt ::
  "uuid \<Rightarrow> uuid \<Rightarrow> delivery_state \<Rightarrow> nat \<Rightarrow> delivery_tables \<Rightarrow> reply_delivery option \<times> delivery_tables" where
  "db_claim_attempt tenant_id delivery_id from_status attempt_no s =
     (case find (\<lambda>q. delivery_key q = (tenant_id, delivery_id) \<and> rd_status q = from_status) (reply_delivery_rows s) of
        None \<Rightarrow> (None, s)
      | Some d \<Rightarrow> (Some (claimed attempt_no d),
          s\<lparr>reply_delivery_rows := update_where (\<lambda>q. delivery_key q = (tenant_id, delivery_id) \<and> rd_status q = from_status)
              (claimed attempt_no) (reply_delivery_rows s)\<rparr>))"

definition db_list_dead_letters :: "uuid \<Rightarrow> delivery_tables \<Rightarrow> reply_delivery list" where
  "db_list_dead_letters tenant_id s =
     sort_key rd_created_at (filter (\<lambda>d. rd_tenant_id d = tenant_id \<and> rd_status d = Ds_dead_letter) (reply_delivery_rows s))"

definition db_delivery_ops :: "delivery_tables delivery_ops" where
  "db_delivery_ops =
     \<lparr>op_save_delivery = db_save_delivery, op_get_delivery = db_get_delivery, op_save_attempt = db_save_attempt,
      op_list_dead_letters = db_list_dead_letters, op_claim_attempt = db_claim_attempt\<rparr>"

subsection \<open>The service\<close>

definition MAX_BACKOFF :: int where "MAX_BACKOFF = seconds 60"
definition DEFAULT_MAX_ATTEMPTS :: nat where "DEFAULT_MAX_ATTEMPTS = 5"

text \<open>\<open>float(2 ** n)\<close> raises \<open>OverflowError\<close> from 1024 on.\<close>

definition backoff_delay :: "nat \<Rightarrow> int \<Rightarrow> delivery_error + int" where
  "backoff_delay attempt_no base =
     (if 1024 \<le> attempt_no - 1 then Inl OverflowError else Inr (min (base * 2 ^ (attempt_no - 1)) MAX_BACKOFF))"

text \<open>What a run did to the outside: sends with their outcome (\<open>None\<close>: the send raised) and reconciliations.\<close>

datatype delivery_event = Sent nat "transport_outcome option" | Reconciled nat string

record 's world =
  wd_others :: "nat \<Rightarrow> 's \<Rightarrow> 's"
  wd_send :: "nat \<Rightarrow> reply_delivery \<Rightarrow> nat \<Rightarrow> transport_outcome option"
  wd_reconcile :: "nat \<Rightarrow> reply_delivery \<Rightarrow> nat \<Rightarrow> string"
  wd_now :: "nat \<Rightarrow> timestamp"
  wd_id :: "nat \<Rightarrow> uuid"

record 's delivery_run =
  dl_store :: 's
  dl_tick :: nat
  dl_events :: "delivery_event list"

definition awaited :: "'s world \<Rightarrow> 's delivery_run \<Rightarrow> 's delivery_run" where
  "awaited w st = st\<lparr>dl_store := wd_others w (dl_tick st) (dl_store st), dl_tick := Suc (dl_tick st)\<rparr>"

definition load_delivery :: "'s delivery_ops \<Rightarrow> 's world \<Rightarrow> uuid \<Rightarrow> uuid \<Rightarrow> 's delivery_run \<Rightarrow> (delivery_error + reply_delivery) \<times> 's delivery_run" where
  "load_delivery ops w tenant_id delivery_id st =
     (let st1 = awaited w st in
      case op_get_delivery ops tenant_id delivery_id (dl_store st1) of
        None \<Rightarrow> (Inl (ReplyDeliveryError ''DELIVERY_NOT_FOUND''), st1) | Some d \<Rightarrow> (Inr d, st1))"

definition save_changed :: "'s delivery_ops \<Rightarrow> 's world \<Rightarrow> reply_delivery \<Rightarrow> 's delivery_run \<Rightarrow> (delivery_error + reply_delivery) \<times> 's delivery_run" where
  "save_changed ops w d st =
     (let st1 = awaited w st in
      case op_save_delivery ops d (dl_store st1) of
        Inl e \<Rightarrow> (Inl (StoreError e), st1) | Inr s \<Rightarrow> (Inr d, st1\<lparr>dl_store := s\<rparr>))"

definition transition ::
  "'s delivery_ops \<Rightarrow> 's world \<Rightarrow> reply_delivery \<Rightarrow> delivery_state \<Rightarrow> nat option \<Rightarrow> 's delivery_run
   \<Rightarrow> (delivery_error + reply_delivery) \<times> 's delivery_run" where
  "transition ops w d status attempts st =
     save_changed ops w (d\<lparr>rd_status := status, rd_attempts := (case attempts of None \<Rightarrow> rd_attempts d | Some a \<Rightarrow> a)\<rparr>) st"

definition record_attempt ::
  "'s delivery_ops \<Rightarrow> 's world \<Rightarrow> reply_delivery \<Rightarrow> nat \<Rightarrow> string \<Rightarrow> string option \<Rightarrow> timestamp \<Rightarrow> 's delivery_run
   \<Rightarrow> delivery_error option \<times> 's delivery_run" where
  "record_attempt ops w d attempt_no outcome error_code started st =
     (let st1 = awaited w st in
      case op_save_attempt ops
             \<lparr>da_attempt_id = wd_id w (dl_tick st), da_tenant_id = rd_tenant_id d, da_delivery_id = rd_delivery_id d,
              da_attempt_no = attempt_no, da_outcome = outcome, da_error_code = error_code, da_started_at = started,
              da_finished_at = wd_now w (dl_tick st)\<rparr> (dl_store st1) of
        Inl e \<Rightarrow> (Some (StoreError e), st1) | Inr s \<Rightarrow> (None, st1\<lparr>dl_store := s\<rparr>))"

definition reconcile :: "'s world \<Rightarrow> reply_delivery \<Rightarrow> nat \<Rightarrow> 's delivery_run \<Rightarrow> string \<times> 's delivery_run" where
  "reconcile w d attempt_no st =
     (let verdict = wd_reconcile w (dl_tick st) d attempt_no
      in (verdict, st\<lparr>dl_tick := Suc (dl_tick st), dl_events := dl_events st @ [Reconciled attempt_no verdict]\<rparr>))"

definition send :: "'s world \<Rightarrow> reply_delivery \<Rightarrow> nat \<Rightarrow> 's delivery_run \<Rightarrow> transport_outcome option \<times> 's delivery_run" where
  "send w d attempt_no st =
     (let outcome = wd_send w (dl_tick st) d attempt_no
      in (outcome, st\<lparr>dl_tick := Suc (dl_tick st), dl_events := dl_events st @ [Sent attempt_no outcome]\<rparr>))"

definition enqueue ::
  "'s delivery_ops \<Rightarrow> 's world \<Rightarrow> uuid \<Rightarrow> uuid \<Rightarrow> string \<Rightarrow> string \<Rightarrow> string \<Rightarrow> uuid option \<Rightarrow> 's delivery_run
   \<Rightarrow> (delivery_error + reply_delivery) \<times> 's delivery_run" where
  "enqueue ops w tenant_id binding_id execution_id external_conversation_id content delivery_id st =
     (let stable_id = (case delivery_id of Some i \<Rightarrow> i | None \<Rightarrow> wd_id w (dl_tick st));
          new = \<lparr>rd_tenant_id = tenant_id, rd_delivery_id = stable_id, rd_binding_id = binding_id, rd_execution_id = execution_id,
                 rd_external_conversation_id = external_conversation_id, rd_content = content, rd_status = Ds_queued,
                 rd_attempts = 0, rd_created_at = wd_now w (dl_tick st)\<rparr>
      in case delivery_id of
           None \<Rightarrow> save_changed ops w new st
         | Some i \<Rightarrow>
            (let st1 = awaited w st in
             case op_get_delivery ops tenant_id i (dl_store st1) of
               Some existing \<Rightarrow> (Inr existing, st1)
             | None \<Rightarrow> save_changed ops w new st1))"

text \<open>What \<open>run\<close> records of an outcome, the state that follows and whether it goes on.\<close>

datatype next_step = Finish delivery_state "nat option" | Continue delivery_state

definition judge ::
  "'s world \<Rightarrow> reply_delivery \<Rightarrow> nat \<Rightarrow> transport_outcome option \<Rightarrow> 's delivery_run \<Rightarrow> (string \<times> string option \<times> next_step) \<times> 's delivery_run" where
  "judge w d attempt_no outcome st =
     (case outcome of
        None \<Rightarrow> ((''OUTCOME_UNKNOWN'', Some ''CHANNEL_SEND_FAILED'', Finish Ds_outcome_unknown None), st)
      | Some out \<Rightarrow>
          if to_delivered out then ((''DELIVERED'', None, Finish Ds_delivered (Some attempt_no)), st)
          else if to_outcome_unknown out then
            (case reconcile w d attempt_no st of
               (verdict, st1) \<Rightarrow>
                 if verdict = ''delivered'' then ((''RECONCILED_DELIVERED'', to_error_code out, Finish Ds_delivered (Some attempt_no)), st1)
                 else if verdict = ''unknown'' then ((''OUTCOME_UNKNOWN'', to_error_code out, Finish Ds_outcome_unknown None), st1)
                 else ((''RECONCILED_NOT_DELIVERED'', to_error_code out, Continue Ds_failed), st1))
          else (let state = (if to_rate_limited out then Ds_rate_limited else Ds_failed)
                in ((state_text state, to_error_code out, Continue state), st)))"

definition conclude ::
  "'s delivery_ops \<Rightarrow> 's world \<Rightarrow> reply_delivery \<Rightarrow> nat \<Rightarrow> timestamp \<Rightarrow> string \<Rightarrow> string option \<Rightarrow> next_step \<Rightarrow> 's delivery_run
   \<Rightarrow> ((delivery_error + reply_delivery) + reply_delivery) \<times> 's delivery_run" where
  "conclude ops w d attempt_no started label code step st =
     (case record_attempt ops w d attempt_no label code started st of
        (Some e, st1) \<Rightarrow> (Inl (Inl e), st1)
      | (None, st1) \<Rightarrow>
         (case step of
            Finish status attempts \<Rightarrow> (case transition ops w d status attempts st1 of (r, st2) \<Rightarrow> (Inl r, st2))
          | Continue status \<Rightarrow>
              (case transition ops w d status (Some attempt_no) st1 of
                 (Inl e, st2) \<Rightarrow> (Inl (Inl e), st2) | (Inr d1, st2) \<Rightarrow> (Inr d1, st2))))"

text \<open>One pass of the loop: \<open>Inl\<close> when \<open>run\<close> returns or raises, \<open>Inr\<close> the delivery it goes on with.\<close>

definition attempt_once ::
  "'s delivery_ops \<Rightarrow> 's world \<Rightarrow> int \<Rightarrow> nat \<Rightarrow> uuid \<Rightarrow> uuid \<Rightarrow> reply_delivery \<Rightarrow> 's delivery_run
   \<Rightarrow> ((delivery_error + reply_delivery) + reply_delivery) \<times> 's delivery_run" where
  "attempt_once ops w base budget tenant_id delivery_id d st =
     (if budget \<le> rd_attempts d \<and> rd_status d \<noteq> Ds_rate_limited
      then (case transition ops w d Ds_dead_letter None st of (r, st1) \<Rightarrow> (Inl r, st1))
      else case (if 0 < rd_attempts d then backoff_delay (rd_attempts d) base else Inr 0) of
             Inl e \<Rightarrow> (Inl (Inl e), st)
           | Inr _ \<Rightarrow>
              (let attempt_no = rd_attempts d + 1; st1 = awaited w st in
               case op_claim_attempt ops tenant_id delivery_id (rd_status d) attempt_no (dl_store st1) of
                 (None, s) \<Rightarrow> (Inl (Inr d), st1\<lparr>dl_store := s\<rparr>)
               | (Some c, s) \<Rightarrow>
                  (case send w c attempt_no (st1\<lparr>dl_store := s\<rparr>) of
                     (outcome, st2) \<Rightarrow>
                      (case judge w c attempt_no outcome st2 of
                         ((label, code, step), st3) \<Rightarrow> conclude ops w c attempt_no (wd_now w (dl_tick st1)) label code step st3))))"

partial_function (option) run_loop ::
  "'s delivery_ops \<Rightarrow> 's world \<Rightarrow> int \<Rightarrow> nat \<Rightarrow> uuid \<Rightarrow> uuid \<Rightarrow> reply_delivery \<Rightarrow> 's delivery_run
   \<Rightarrow> ((delivery_error + reply_delivery) \<times> 's delivery_run) option" where
  "run_loop ops w base budget tenant_id delivery_id d st =
     (case attempt_once ops w base budget tenant_id delivery_id d st of
        (Inl r, st1) \<Rightarrow> Some (r, st1)
      | (Inr d1, st1) \<Rightarrow> run_loop ops w base budget tenant_id delivery_id d1 st1)"

definition resume_reconciliation ::
  "'s delivery_ops \<Rightarrow> 's world \<Rightarrow> reply_delivery \<Rightarrow> 's delivery_run \<Rightarrow> (delivery_error + reply_delivery) \<times> 's delivery_run" where
  "resume_reconciliation ops w d st =
     (case reconcile w d (rd_attempts d) st of
        (verdict, st1) \<Rightarrow>
          if verdict = ''delivered'' then transition ops w d Ds_delivered None st1
          else if verdict = ''unknown'' then (Inr d, st1)
          else transition ops w d Ds_failed None st1)"

definition run_delivery ::
  "'s delivery_ops \<Rightarrow> 's world \<Rightarrow> int \<Rightarrow> nat \<Rightarrow> uuid \<Rightarrow> uuid \<Rightarrow> 's delivery_run
   \<Rightarrow> ((delivery_error + reply_delivery) \<times> 's delivery_run) option" where
  "run_delivery ops w base budget tenant_id delivery_id st =
     (case load_delivery ops w tenant_id delivery_id st of
        (Inl e, st1) \<Rightarrow> Some (Inl e, st1)
      | (Inr d, st1) \<Rightarrow>
          if rd_status d \<in> set TERMINAL_STATES then Some (Inr d, st1)
          else if rd_status d = Ds_outcome_unknown then
            (case resume_reconciliation ops w d st1 of
               (Inl e, st2) \<Rightarrow> Some (Inl e, st2)
             | (Inr d1, st2) \<Rightarrow>
                 if rd_status d1 \<in> set (Ds_outcome_unknown # TERMINAL_STATES) then Some (Inr d1, st2)
                 else run_loop ops w base budget tenant_id delivery_id d1 st2)
          else run_loop ops w base budget tenant_id delivery_id d st1)"

definition replay ::
  "'s delivery_ops \<Rightarrow> 's world \<Rightarrow> int \<Rightarrow> uuid \<Rightarrow> uuid \<Rightarrow> 's delivery_run \<Rightarrow> ((delivery_error + reply_delivery) \<times> 's delivery_run) option" where
  "replay ops w base tenant_id delivery_id st =
     (case load_delivery ops w tenant_id delivery_id st of
        (Inl e, st1) \<Rightarrow> Some (Inl e, st1)
      | (Inr d, st1) \<Rightarrow>
          if rd_status d \<noteq> Ds_dead_letter then Some (Inl (ReplyDeliveryError ''DELIVERY_NOT_DEAD_LETTER''), st1)
          else case transition ops w d Ds_queued None st1 of
                 (Inl e, st2) \<Rightarrow> Some (Inl e, st2)
               | (Inr d1, st2) \<Rightarrow> run_delivery ops w base (rd_attempts d1 + 1) tenant_id delivery_id st2)"

definition update_delivery ::
  "'s delivery_ops \<Rightarrow> 's world \<Rightarrow> uuid \<Rightarrow> uuid \<Rightarrow> string \<Rightarrow> 's delivery_run \<Rightarrow> (delivery_error + reply_delivery) \<times> 's delivery_run" where
  "update_delivery ops w tenant_id delivery_id content st =
     (case load_delivery ops w tenant_id delivery_id st of
        (Inl e, st1) \<Rightarrow> (Inl e, st1)
      | (Inr d, st1) \<Rightarrow>
          if rd_status d \<noteq> Ds_delivered then (Inl (ReplyDeliveryError ''DELIVERY_NOT_UPDATABLE''), st1)
          else save_changed ops w (d\<lparr>rd_content := content, rd_status := Ds_queued\<rparr>) st1)"

subsection \<open>What a run sends\<close>

text \<open>An event after which the reply is known not to have reached the channel.\<close>

fun miss :: "delivery_event \<Rightarrow> bool" where
  "miss (Sent n outcome) = (case outcome of None \<Rightarrow> False | Some out \<Rightarrow> \<not> to_delivered out \<and> \<not> to_outcome_unknown out)"
| "miss (Reconciled n verdict) = (verdict \<noteq> ''delivered'' \<and> verdict \<noteq> ''unknown'')"

fun is_send :: "delivery_event \<Rightarrow> bool" where
  "is_send (Sent n outcome) = True"
| "is_send (Reconciled n verdict) = False"

fun resends_ok :: "delivery_event list \<Rightarrow> bool" where
  "resends_ok (e # f # es) = ((is_send f \<longrightarrow> miss e) \<and> resends_ok (f # es))"
| "resends_ok es = True"

fun attempt_of :: "delivery_event \<Rightarrow> nat" where
  "attempt_of (Sent n outcome) = n"
| "attempt_of (Reconciled n verdict) = n"

definition sent_numbers :: "delivery_event list \<Rightarrow> nat list" where
  "sent_numbers es = map attempt_of (filter is_send es)"

lemma sent_numbers_append [simp]: "sent_numbers (xs @ ys) = sent_numbers xs @ sent_numbers ys"
  by (simp add: sent_numbers_def)

lemma resends_ok_append:
  "resends_ok xs \<Longrightarrow> resends_ok ys \<Longrightarrow> (xs \<noteq> [] \<Longrightarrow> ys \<noteq> [] \<Longrightarrow> is_send (hd ys) \<Longrightarrow> miss (last xs)) \<Longrightarrow> resends_ok (xs @ ys)"
  by (induction xs rule: resends_ok.induct) (cases ys; auto)+

lemma events_awaited [simp]: "dl_events (awaited w st) = dl_events st"
  by (simp add: awaited_def)

lemma events_save [simp]: "dl_events (snd (save_changed ops w d st)) = dl_events st"
  by (simp add: save_changed_def Let_def split: sum.split)

lemma events_record: "record_attempt ops w d n l c t st = (r, st') \<Longrightarrow> dl_events st' = dl_events st"
  by (auto simp: record_attempt_def Let_def split: sum.splits)

lemma transition_result:
  assumes "transition ops w d status attempts st = (r, st')"
  shows "dl_events st' = dl_events st"
    "r = Inr d' \<Longrightarrow> d' = d\<lparr>rd_status := status, rd_attempts := (case attempts of None \<Rightarrow> rd_attempts d | Some a \<Rightarrow> a)\<rparr>"
  using assms by (auto simp: transition_def save_changed_def Let_def split: sum.splits)

text \<open>One pass: nothing, one send, or one send and its reconciliation; it goes on only after a miss.\<close>

definition pass_events :: "nat \<Rightarrow> delivery_event list \<Rightarrow> bool" where
  "pass_events n es \<longleftrightarrow> es = [] \<or> (\<exists>out. es = [Sent n out]) \<or> (\<exists>out v. es = [Sent n out, Reconciled n v])"

lemma judge_events:
  assumes "judge w c n out st = ((label, code, step), st')"
  shows "\<exists>es. dl_events st' = dl_events st @ es \<and> pass_events n (Sent n out # es) \<and> (\<forall>status. step = Continue status \<longrightarrow> miss (last (Sent n out # es)))"
proof (cases out)
  case None
  then show ?thesis using assms by (auto simp: judge_def pass_events_def)
next
  case (Some x)
  let ?v = "wd_reconcile w (dl_tick st) c n"
  show ?thesis
  proof (cases "to_delivered x \<or> \<not> to_outcome_unknown x")
    case True
    then show ?thesis using assms Some by (auto simp: judge_def pass_events_def Let_def split: if_splits)
  next
    case False
    then have ev: "dl_events st' = dl_events st @ [Reconciled n ?v]"
      and step: "step = Continue status \<Longrightarrow> ?v \<noteq> ''delivered'' \<and> ?v \<noteq> ''unknown''" for status
      using assms Some by (auto simp: judge_def reconcile_def Let_def simp del: list.inject split: if_splits)
    show ?thesis using ev step by (intro exI [of _ "[Reconciled n ?v]"]) (simp add: pass_events_def)
  qed
qed

lemma conclude_result:
  assumes "conclude ops w c n started label code step st = (r, st')"
  shows "dl_events st' = dl_events st" "r = Inr d1 \<Longrightarrow> rd_attempts d1 = n \<and> (\<exists>status. step = Continue status)"
proof -
  obtain e st1 where r1: "record_attempt ops w c n label code started st = (e, st1)" by fastforce
  have e1: "dl_events st1 = dl_events st" by (rule events_record [OF r1])
  show "dl_events st' = dl_events st" "r = Inr d1 \<Longrightarrow> rd_attempts d1 = n \<and> (\<exists>status. step = Continue status)"
    using assms r1 e1 transition_result
    by (auto simp: conclude_def split: option.splits next_step.splits prod.splits sum.splits) fastforce+
qed

lemma attempt_once_events:
  assumes "attempt_once ops w base budget t i d st = (r, st')"
  shows "\<exists>es. dl_events st' = dl_events st @ es \<and> pass_events (Suc (rd_attempts d)) es \<and>
     (\<forall>d1. r = Inr d1 \<longrightarrow> es \<noteq> [] \<and> miss (last es) \<and> rd_attempts d1 = Suc (rd_attempts d))"
proof -
  let ?n = "rd_attempts d + 1" and ?st1 = "awaited w st"
  obtain c s where claim: "op_claim_attempt ops t i (rd_status d) ?n (dl_store ?st1) = (c, s)" by fastforce
  consider (nothing) "\<exists>x. r = Inl x" "dl_events st' = dl_events st"
    | (sent) c' where "c = Some c'"
        "\<not> (budget \<le> rd_attempts d \<and> rd_status d \<noteq> Ds_rate_limited)"
        "\<exists>x. (if 0 < rd_attempts d then backoff_delay (rd_attempts d) base else Inr 0) = Inr x"
    using assms claim transition_result(1) [of ops w d Ds_dead_letter None st]
    by (cases c) (auto simp: attempt_once_def Let_def split: if_splits sum.splits prod.splits)
  then show ?thesis
  proof cases
    case nothing
    then show ?thesis by (auto simp: pass_events_def)
  next
    case sent
    obtain out st2 where s2: "send w c' ?n (?st1\<lparr>dl_store := s\<rparr>) = (out, st2)" by fastforce
    have e2: "dl_events st2 = dl_events st @ [Sent ?n out]" using s2 by (auto simp: send_def Let_def)
    obtain label code step st3 where s3: "judge w c' ?n out st2 = ((label, code, step), st3)" by (metis surj_pair)
    obtain es where es: "dl_events st3 = dl_events st2 @ es" "pass_events ?n (Sent ?n out # es)"
      "\<forall>status. step = Continue status \<longrightarrow> miss (last (Sent ?n out # es))"
      using judge_events [OF s3] by blast
    obtain x where x: "(if 0 < rd_attempts d then backoff_delay (rd_attempts d) base else Inr 0) = Inr x" using sent(3) by blast
    have body: "conclude ops w c' ?n (wd_now w (dl_tick ?st1)) label code step st3 = (r, st')"
      using assms sent(1,2) claim x s2 s3 by (simp add: attempt_once_def Let_def)
    show ?thesis
      using conclude_result [OF body] es e2 by (intro exI [of _ "Sent ?n out # es"]) auto
  qed
qed

lemma pass_events_facts:
  assumes "pass_events n es" "es \<noteq> []"
  shows "resends_ok es" "is_send (hd es)" "sent_numbers es = [n]"
  using assms by (auto simp: pass_events_def sent_numbers_def)

definition numbered_from :: "nat \<Rightarrow> delivery_event list \<Rightarrow> bool" where
  "numbered_from n es \<longleftrightarrow> sent_numbers es = [n..<n + length (sent_numbers es)]"

lemma numbered_from_Cons:
  "sent_numbers xs = [n] \<Longrightarrow> numbered_from (Suc n) ys \<Longrightarrow> numbered_from n (xs @ ys)"
  unfolding numbered_from_def by (simp add: upt_conv_Cons del: upt_Suc)

definition run_events :: "reply_delivery \<Rightarrow> 's delivery_run \<Rightarrow> 's delivery_run \<Rightarrow> bool" where
  "run_events d st st' \<longleftrightarrow> (\<exists>es. dl_events st' = dl_events st @ es \<and> resends_ok es \<and> numbered_from (Suc (rd_attempts d)) es \<and>
     (es \<noteq> [] \<longrightarrow> is_send (hd es)))"

lemma run_events_pass:
  assumes a: "attempt_once ops w base budget t i d st = (r1, st1)"
  shows "r1 = Inl x \<Longrightarrow> run_events d st st1" "r1 = Inr d1 \<Longrightarrow> run_events d1 st1 st' \<Longrightarrow> run_events d st st'"
proof -
  obtain es where es: "dl_events st1 = dl_events st @ es" "pass_events (Suc (rd_attempts d)) es"
    "\<forall>d1. r1 = Inr d1 \<longrightarrow> es \<noteq> [] \<and> miss (last es) \<and> rd_attempts d1 = Suc (rd_attempts d)"
    using attempt_once_events [OF a] by blast
  have "numbered_from (Suc (rd_attempts d)) es" "resends_ok es" "es \<noteq> [] \<longrightarrow> is_send (hd es)"
    using es(2) by (auto simp: pass_events_def numbered_from_def sent_numbers_def)
  then show "r1 = Inl x \<Longrightarrow> run_events d st st1" using es(1) unfolding run_events_def by blast
  assume r: "r1 = Inr d1" and "run_events d1 st1 st'"
  then obtain es' where y: "dl_events st' = dl_events st1 @ es'" "resends_ok es'" "numbered_from (Suc (rd_attempts d1)) es'"
    unfolding run_events_def by blast
  note f = es(3) [rule_format, OF r]
  note p = pass_events_facts [OF es(2) conjunct1 [OF f]]
  have "resends_ok (es @ es')" using p(1) y(2) f by (intro resends_ok_append) auto
  moreover have "numbered_from (Suc (rd_attempts d)) (es @ es')" using p(3) y(3) f by (intro numbered_from_Cons) auto
  moreover have "is_send (hd (es @ es'))" using p(2) f by simp
  ultimately show "run_events d st st'" unfolding run_events_def using es(1) y(1) by (intro exI [of _ "es @ es'"]) simp
qed

lemma run_loop_events:
  assumes "run_loop ops w base budget t i d st = Some (r, st')"
  shows "run_events d st st'"
proof -
  have "run_events d st (snd (r, st'))"
  proof (rule run_loop.raw_induct [where P = "\<lambda>ops w base budget t i d st y. run_events d st (snd y)", OF _ assms])
    fix loop :: "'a delivery_ops \<Rightarrow> 'a world \<Rightarrow> int \<Rightarrow> nat \<Rightarrow> uuid \<Rightarrow> uuid \<Rightarrow> reply_delivery \<Rightarrow> 'a delivery_run
        \<Rightarrow> ((delivery_error + reply_delivery) \<times> 'a delivery_run) option"
    fix ops w base budget t i d st y
    assume IH: "\<And>ops w base budget t i d st y. loop ops w base budget t i d st = Some y \<Longrightarrow> run_events d st (snd y)"
      and body: "(case attempt_once ops w base budget t i d st of (Inl r, st1) \<Rightarrow> Some (r, st1)
        | (Inr d1, st1) \<Rightarrow> loop ops w base budget t i d1 st1) = Some y"
    obtain r1 st1 where a: "attempt_once ops w base budget t i d st = (r1, st1)" by fastforce
    show "run_events d st (snd y)"
    proof (cases r1)
      case (Inl x)
      then show ?thesis using body a run_events_pass(1) [OF a Inl] by auto
    next
      case (Inr d1)
      then have "loop ops w base budget t i d1 st1 = Some y" using body a by simp
      from run_events_pass(2) [OF a Inr IH [OF this]] show ?thesis .
    qed
  qed
  then show ?thesis by simp
qed


subsection \<open>What a store promises\<close>

text \<open>The fields that saving a delivery never changes.\<close>

definition same_reply :: "reply_delivery \<Rightarrow> reply_delivery \<Rightarrow> bool" where
  "same_reply q d \<longleftrightarrow> q\<lparr>rd_content := rd_content d, rd_status := rd_status d, rd_attempts := rd_attempts d\<rparr> = d"

locale delivery_store =
  fixes ops :: "'s delivery_ops"
    and wf :: "'s \<Rightarrow> bool"
    and view :: "'s \<Rightarrow> uuid \<times> uuid \<Rightarrow> reply_delivery option"
    and log :: "'s \<Rightarrow> delivery_attempt list"
  assumes view_key: "wf s \<Longrightarrow> view s k = Some d \<Longrightarrow> delivery_key d = k"
    and get_view: "wf s \<Longrightarrow> op_get_delivery ops t i s = view s (t, i)"
    and save_known: "wf s \<Longrightarrow> view s (delivery_key d) = Some q \<Longrightarrow> same_reply q d \<Longrightarrow>
      \<exists>s'. op_save_delivery ops d s = Inr s' \<and> wf s' \<and> view s' = (view s)(delivery_key d \<mapsto> d) \<and> log s' = log s"
    and claim_hit: "wf s \<Longrightarrow> view s (t, i) = Some d \<Longrightarrow>
      \<exists>s'. op_claim_attempt ops t i (rd_status d) n s = (Some (claimed n d), s') \<and> wf s' \<and>
        view s' = (view s)((t, i) \<mapsto> claimed n d) \<and> log s' = log s"
    and claim_miss: "wf s \<Longrightarrow> (\<forall>d. view s (t, i) = Some d \<longrightarrow> rd_status d \<noteq> from_status) \<Longrightarrow>
      op_claim_attempt ops t i from_status n s = (None, s)"
    and attempt_new: "wf s \<Longrightarrow> 1 \<le> da_attempt_no a \<Longrightarrow> attempt_key a \<notin> attempt_key ` set (log s) \<Longrightarrow>
      attempt_number a \<notin> attempt_number ` set (log s) \<Longrightarrow>
      \<exists>s'. op_save_attempt ops a s = Inr s' \<and> wf s' \<and> view s' = view s \<and> log s' = log s @ [a]"

text \<open>A worker that has the store to itself and draws identifiers that were never used.\<close>

definition undisturbed :: "'s world \<Rightarrow> bool" where
  "undisturbed w \<longleftrightarrow> (\<forall>n s. wd_others w n s = s) \<and> (\<forall>m n. wd_id w m = wd_id w n \<longrightarrow> m = n)"

text \<open>From interaction \<open>M\<close> on the channel limits the rate no more.\<close>

definition limits_stop :: "nat \<Rightarrow> 's world \<Rightarrow> bool" where
  "limits_stop M w \<longleftrightarrow> (\<forall>n \<ge> M. \<forall>c k out. wd_send w n c k = Some out \<longrightarrow> \<not> to_rate_limited out)"

lemma awaited_undisturbed: "undisturbed w \<Longrightarrow> awaited w st = st\<lparr>dl_tick := Suc (dl_tick st)\<rparr>"
  by (simp add: awaited_def undisturbed_def)

lemma same_reply_simps [simp]:
  "same_reply d (d\<lparr>rd_status := x, rd_attempts := n\<rparr>)" "same_reply d (claimed n d)"
  "same_reply d (d\<lparr>rd_content := c, rd_status := x\<rparr>)"
  by (simp_all add: same_reply_def claimed_def)

lemma delivery_key_simps [simp]:
  "delivery_key (d\<lparr>rd_status := x, rd_attempts := n\<rparr>) = delivery_key d" "delivery_key (claimed n d) = delivery_key d"
  "rd_attempts (claimed n d) = n" "rd_status (claimed n d) = Ds_in_flight"
  by (simp_all add: delivery_key_def claimed_def)

context delivery_store
begin

text \<open>The store holds the worker's copy of the delivery, and its attempts are the recorded ones at most.\<close>

definition holds :: "'s world \<Rightarrow> uuid \<times> uuid \<Rightarrow> reply_delivery \<Rightarrow> nat \<Rightarrow> 's delivery_run \<Rightarrow> bool" where
  "holds w k d hi st \<longleftrightarrow> wf (dl_store st) \<and> view (dl_store st) k = Some d \<and>
     (\<forall>a \<in> set (log (dl_store st)). (da_tenant_id a, da_delivery_id a) = k \<longrightarrow> da_attempt_no a \<le> hi) \<and>
     (\<forall>a \<in> set (log (dl_store st)). \<forall>n \<ge> dl_tick st. da_attempt_id a \<noteq> wd_id w n)"

lemma holds_tick: "holds w k d hi st \<Longrightarrow> dl_tick st \<le> m \<Longrightarrow> holds w k d hi (st\<lparr>dl_tick := m\<rparr>)"
  by (auto simp: holds_def)

lemma holds_cong: "dl_store st' = dl_store st \<Longrightarrow> dl_tick st \<le> dl_tick st' \<Longrightarrow> holds w k d hi st \<Longrightarrow> holds w k d hi st'"
  by (auto simp: holds_def)

lemma transition_ok:
  assumes "undisturbed w" "holds w k d hi st"
  shows "\<exists>st'. transition ops w d status attempts st = (Inr (d\<lparr>rd_status := status, rd_attempts := (case attempts of None \<Rightarrow> rd_attempts d | Some a \<Rightarrow> a)\<rparr>), st') \<and>
     holds w k (d\<lparr>rd_status := status, rd_attempts := (case attempts of None \<Rightarrow> rd_attempts d | Some a \<Rightarrow> a)\<rparr>) hi st' \<and> dl_tick st' = Suc (dl_tick st)"
proof -
  let ?d = "d\<lparr>rd_status := status, rd_attempts := (case attempts of None \<Rightarrow> rd_attempts d | Some a \<Rightarrow> a)\<rparr>"
  have k: "delivery_key d = k" using assms(2) view_key [of "dl_store st" k d] by (simp add: holds_def)
  obtain s' where s': "op_save_delivery ops ?d (dl_store st) = Inr s'" "wf s'" "view s' = (view (dl_store st))(k \<mapsto> ?d)" "log s' = log (dl_store st)"
    using save_known [of "dl_store st" ?d d] assms(2) k by (auto simp: holds_def)
  show ?thesis
    using assms s' by (auto simp: transition_def save_changed_def awaited_undisturbed holds_def)
qed

lemma record_ok:
  assumes "undisturbed w" "holds w k d (n - 1) st" "1 \<le> n"
  shows "\<exists>st'. record_attempt ops w d n label code started st = (None, st') \<and> holds w k d n st' \<and> dl_tick st' = Suc (dl_tick st)"
proof -
  let ?a = "\<lparr>da_attempt_id = wd_id w (dl_tick st), da_tenant_id = rd_tenant_id d, da_delivery_id = rd_delivery_id d,
     da_attempt_no = n, da_outcome = label, da_error_code = code, da_started_at = started, da_finished_at = wd_now w (dl_tick st)\<rparr>"
  have h: "wf (dl_store st)" "view (dl_store st) k = Some d"
    "\<forall>a \<in> set (log (dl_store st)). (da_tenant_id a, da_delivery_id a) = k \<longrightarrow> da_attempt_no a \<le> n - 1"
    "\<forall>a \<in> set (log (dl_store st)). \<forall>m \<ge> dl_tick st. da_attempt_id a \<noteq> wd_id w m"
    using assms(2) by (auto simp: holds_def)
  have k: "k = (rd_tenant_id d, rd_delivery_id d)" using view_key [OF h(1,2)] by (simp add: delivery_key_def)
  have "attempt_key ?a \<notin> attempt_key ` set (log (dl_store st))" using h(4) by (force simp: attempt_key_def)
  moreover have "attempt_number ?a \<notin> attempt_number ` set (log (dl_store st))"
    using h(3) assms(3) unfolding k by (force simp: attempt_number_def)
  ultimately obtain s' where s': "op_save_attempt ops ?a (dl_store st) = Inr s'" "wf s'" "view s' = view (dl_store st)" "log s' = log (dl_store st) @ [?a]"
    using attempt_new [OF h(1), of ?a] assms(3) by auto
  have "holds w k d n (st\<lparr>dl_tick := Suc (dl_tick st), dl_store := s'\<rparr>)"
    using h s' assms(1) by (fastforce simp: holds_def undisturbed_def)
  then show ?thesis
    using s'(1) by (simp add: record_attempt_def awaited_undisturbed [OF assms(1)])
qed

lemma conclude_ok:
  assumes "undisturbed w" "holds w k c (n - 1) st" "1 \<le> n" "rd_attempts c = n"
  shows "step = Finish status attempts \<Longrightarrow> attempts \<in> {None, Some n} \<Longrightarrow>
      \<exists>st'. conclude ops w c n started label code step st = (Inl (Inr (c\<lparr>rd_status := status\<rparr>)), st') \<and> holds w k (c\<lparr>rd_status := status\<rparr>) n st'"
    "step = Continue status \<Longrightarrow>
      \<exists>st'. conclude ops w c n started label code step st = (Inr (c\<lparr>rd_status := status\<rparr>), st') \<and> holds w k (c\<lparr>rd_status := status\<rparr>) n st' \<and>
        dl_tick st < dl_tick st'"
proof -
  obtain st1 where r: "record_attempt ops w c n label code started st = (None, st1)" "holds w k c n st1" "dl_tick st1 = Suc (dl_tick st)"
    using record_ok [OF assms(1-3)] by blast
  have c: "c\<lparr>rd_status := x, rd_attempts := n\<rparr> = c\<lparr>rd_status := x\<rparr>" for x using assms(4) by (cases c) simp
  have t: "\<exists>st'. transition ops w c status attempts st1 = (Inr (c\<lparr>rd_status := status\<rparr>), st') \<and> holds w k (c\<lparr>rd_status := status\<rparr>) n st' \<and>
      dl_tick st1 < dl_tick st'" if "attempts \<in> {None, Some n}" for attempts
    using transition_ok [OF assms(1) r(2), of status attempts] that assms(4) c by auto
  show "\<exists>st'. conclude ops w c n started label code step st = (Inl (Inr (c\<lparr>rd_status := status\<rparr>)), st') \<and> holds w k (c\<lparr>rd_status := status\<rparr>) n st'"
    if "step = Finish status attempts" "attempts \<in> {None, Some n}"
    using t [OF that(2)] that(1) r(1) by (auto simp: conclude_def)
  show "\<exists>st'. conclude ops w c n started label code step st = (Inr (c\<lparr>rd_status := status\<rparr>), st') \<and> holds w k (c\<lparr>rd_status := status\<rparr>) n st' \<and>
        dl_tick st < dl_tick st'" if "step = Continue status"
    using t [of "Some n"] that r(1,3) by (auto simp: conclude_def)
qed

text \<open>A pass below the budget sends, and either settles the delivery or goes on with the next attempt.\<close>

lemma attempt_once_ok:
  assumes w: "undisturbed w" and h: "holds w (t, i) d (rd_attempts d) st"
    and go: "rd_attempts d < budget \<or> rd_status d = Ds_rate_limited" and small: "rd_attempts d \<le> 1024"
  shows "(\<exists>d' st'. attempt_once ops w base budget t i d st = (Inl (Inr d'), st') \<and> rd_status d' \<in> {Ds_delivered, Ds_outcome_unknown} \<and>
      holds w (t, i) d' (rd_attempts d') st') \<or>
    (\<exists>d' st'. attempt_once ops w base budget t i d st = (Inr d', st') \<and> holds w (t, i) d' (rd_attempts d') st' \<and>
      rd_attempts d' = Suc (rd_attempts d) \<and> dl_tick st + 2 \<le> dl_tick st' \<and>
      (rd_status d' = Ds_failed \<or> rd_status d' = Ds_rate_limited \<and>
        (\<exists>c out. wd_send w (Suc (dl_tick st)) c (rd_attempts d') = Some out \<and> to_rate_limited out)))"
proof -
  let ?n = "rd_attempts d + 1" and ?st1 = "st\<lparr>dl_tick := Suc (dl_tick st)\<rparr>" and ?c = "claimed (rd_attempts d + 1) d"
  have b: "\<exists>x. (if 0 < rd_attempts d then backoff_delay (rd_attempts d) base else Inr 0) = Inr x"
    using small by (auto simp: backoff_delay_def)
  obtain s where s: "op_claim_attempt ops t i (rd_status d) ?n (dl_store st) = (Some ?c, s)" "wf s"
    "view s = (view (dl_store st))((t, i) \<mapsto> ?c)" "log s = log (dl_store st)"
    using claim_hit [of "dl_store st" t i d ?n] h by (auto simp: holds_def)
  let ?out = "wd_send w (Suc (dl_tick st)) ?c ?n"
  let ?st2 = "?st1\<lparr>dl_store := s, dl_tick := Suc (Suc (dl_tick st)), dl_events := dl_events st @ [Sent ?n ?out]\<rparr>"
  obtain label code step st3 where j: "judge w ?c ?n ?out ?st2 = ((label, code, step), st3)" by (metis surj_pair)
  have j3: "dl_store st3 = s" "dl_tick st + 2 \<le> dl_tick st3"
    using j by (auto simp: judge_def reconcile_def Let_def split: option.splits if_splits)
  have h3: "holds w (t, i) ?c (?n - 1) st3" using h s j3 by (auto simp: holds_def)
  have once: "attempt_once ops w base budget t i d st = conclude ops w ?c ?n (wd_now w (dl_tick ?st1)) label code step st3"
    using go b s(1) j by (auto simp: attempt_once_def awaited_undisturbed [OF w] send_def Let_def)
  have steps: "(\<exists>status attempts. step = Finish status attempts \<and> attempts \<in> {None, Some ?n} \<and> status \<in> {Ds_delivered, Ds_outcome_unknown}) \<or>
      step = Continue Ds_failed \<or> step = Continue Ds_rate_limited \<and> (\<exists>out. ?out = Some out \<and> to_rate_limited out)"
    using j by (auto simp: judge_def reconcile_def Let_def split: option.splits if_splits)
  note c = conclude_ok [OF w h3]
  from steps show ?thesis
  proof (elim disjE exE conjE)
    fix status attempts assume f: "step = Finish status attempts" "attempts \<in> {None, Some ?n}" "status \<in> {Ds_delivered, Ds_outcome_unknown}"
    show ?thesis using c(1) [OF _ _ f(1,2), of "wd_now w (dl_tick ?st1)" label code] f(3) unfolding once by (intro disjI1) (force simp: claimed_def)
  next
    assume f: "step = Continue Ds_failed"
    show ?thesis using c(2) [OF _ _ f, of "wd_now w (dl_tick ?st1)" label code] j3(2) unfolding once by (intro disjI2) (force simp: claimed_def)
  next
    fix out assume f: "step = Continue Ds_rate_limited" "?out = Some out" "to_rate_limited out"
    show ?thesis
      using c(2) [OF _ _ f(1), of "wd_now w (dl_tick ?st1)" label code] j3(2) f(2,3) unfolding once by (intro disjI2) (force simp: claimed_def)
  qed
qed

text \<open>
  The passes that are left: answers before \<open>M\<close> may limit the rate, later ones do not, so from there on
  every pass uses up the budget, apart from one after a last rate limit.
\<close>

definition passes_left :: "nat \<Rightarrow> nat \<Rightarrow> reply_delivery \<Rightarrow> 's delivery_run \<Rightarrow> nat" where
  "passes_left M budget d st = (M - dl_tick st) + (budget - rd_attempts d) + (if rd_status d = Ds_rate_limited then 1 else 0)"

lemma run_loop_returns:
  assumes w: "undisturbed w" and M: "limits_stop M w"
  shows "holds w (t, i) d (rd_attempts d) st \<Longrightarrow> rd_attempts d + passes_left M budget d st \<le> 1024 \<Longrightarrow>
    \<exists>d' st'. run_loop ops w base budget t i d st = Some (Inr d', st') \<and> wf (dl_store st') \<and> view (dl_store st') (t, i) = Some d' \<and>
      (rd_status d' \<in> {Ds_delivered, Ds_outcome_unknown} \<or> rd_status d' = Ds_dead_letter \<and> budget \<le> rd_attempts d')"
proof (induction "passes_left M budget d st" arbitrary: d st rule: less_induct)
  case less
  show ?case
  proof (cases "rd_attempts d < budget \<or> rd_status d = Ds_rate_limited")
    case False
    obtain st' where "transition ops w d Ds_dead_letter None st = (Inr (d\<lparr>rd_status := Ds_dead_letter, rd_attempts := rd_attempts d\<rparr>), st')"
      "holds w (t, i) (d\<lparr>rd_status := Ds_dead_letter, rd_attempts := rd_attempts d\<rparr>) (rd_attempts d) st'"
      using transition_ok [OF w less(2), of Ds_dead_letter None] by auto
    then show ?thesis using False by (subst run_loop.simps) (auto simp: attempt_once_def holds_def)
  next
    case True
    have small: "rd_attempts d \<le> 1024" using less(3) by linarith
    from attempt_once_ok [OF w less(2) True small, of base] show ?thesis
    proof (elim disjE exE conjE)
      fix d' st' assume a: "attempt_once ops w base budget t i d st = (Inl (Inr d'), st')" "holds w (t, i) d' (rd_attempts d') st'"
        "rd_status d' \<in> {Ds_delivered, Ds_outcome_unknown}"
      then show ?thesis by (subst run_loop.simps) (auto simp: holds_def)
    next
      fix d' st' assume a: "attempt_once ops w base budget t i d st = (Inr d', st')" "holds w (t, i) d' (rd_attempts d') st'"
        "rd_attempts d' = Suc (rd_attempts d)" "dl_tick st + 2 \<le> dl_tick st'"
      assume "rd_status d' = Ds_failed"
      then have l: "passes_left M budget d' st' < passes_left M budget d st" using a(3,4) True by (auto simp: passes_left_def)
      then have "rd_attempts d' + passes_left M budget d' st' \<le> 1024" using a(3) less(3) by linarith
      from less(1) [OF l a(2) this] show ?thesis using a(1) by (subst run_loop.simps) simp
    next
      fix d' st' c out assume a: "attempt_once ops w base budget t i d st = (Inr d', st')" "holds w (t, i) d' (rd_attempts d') st'"
        "rd_attempts d' = Suc (rd_attempts d)" "dl_tick st + 2 \<le> dl_tick st'"
      assume r: "wd_send w (Suc (dl_tick st)) c (rd_attempts d') = Some out" "to_rate_limited out"
      have "Suc (dl_tick st) < M" using M r unfolding limits_stop_def by (meson not_le)
      then have l: "passes_left M budget d' st' < passes_left M budget d st" using a(3,4) by (auto simp: passes_left_def)
      then have "rd_attempts d' + passes_left M budget d' st' \<le> 1024" using a(3) less(3) by linarith
      from less(1) [OF l a(2) this] show ?thesis using a(1) by (subst run_loop.simps) simp
    qed
  qed
qed

text \<open>The whole \<open>run\<close> on a delivery that is neither settled nor parked.\<close>

lemma run_delivery_returns:
  assumes "undisturbed w" "limits_stop M w"
    and "holds w (t, i) d (rd_attempts d) st" "rd_status d \<in> {Ds_queued, Ds_in_flight, Ds_rate_limited, Ds_failed}"
    and "rd_attempts d + M + budget < 1024"
  shows "\<exists>d' st'. run_delivery ops w base budget t i st = Some (Inr d', st') \<and> op_get_delivery ops t i (dl_store st') = Some d' \<and>
      (rd_status d' \<in> {Ds_delivered, Ds_outcome_unknown} \<or> rd_status d' = Ds_dead_letter \<and> budget \<le> rd_attempts d')"
proof -
  let ?st1 = "st\<lparr>dl_tick := Suc (dl_tick st)\<rparr>"
  have h: "holds w (t, i) d (rd_attempts d) ?st1" using assms(3) by (auto simp: holds_def)
  have g: "op_get_delivery ops t i (dl_store st) = Some d" using assms(3) by (simp add: holds_def get_view)
  have "rd_attempts d + passes_left M budget d ?st1 \<le> 1024" using assms(5) by (auto simp: passes_left_def)
  from run_loop_returns [OF assms(1,2) h this, where base = base] obtain d' st' where r: "run_loop ops w base budget t i d ?st1 = Some (Inr d', st')"
    "wf (dl_store st')" "view (dl_store st') (t, i) = Some d'" "rd_status d' \<in> {Ds_delivered, Ds_outcome_unknown} \<or> rd_status d' = Ds_dead_letter \<and> budget \<le> rd_attempts d'"
    by blast
  have "run_delivery ops w base budget t i st = Some (Inr d', st')"
    using assms(4) g r(1) by (auto simp: run_delivery_def load_delivery_def awaited_undisturbed [OF assms(1)] TERMINAL_STATES_def)
  then show ?thesis using r(2-) by (auto simp: get_view)
qed

end

subsection \<open>The two stores\<close>

definition db_delivery_wf :: "delivery_tables \<Rightarrow> bool" where
  "db_delivery_wf s \<longleftrightarrow> unique_key delivery_key (reply_delivery_rows s) \<and>
     (\<forall>d \<in> set (reply_delivery_rows s). conversation_ok (rd_external_conversation_id d))"

lemma row_of_key: "row_of key k t = Some r \<Longrightarrow> r \<in> set t \<and> key r = k"
  using row_of_SomeD by metis

lemma has_row: "row_of key k t = Some r \<Longrightarrow> has_key key k t"
  unfolding has_key_def using row_of_key [of key k t r] by (metis image_eqI set_map)

lemma find_claim:
  assumes "unique_key delivery_key t" "row_of delivery_key k t = Some d"
  shows "find (\<lambda>q. delivery_key q = k \<and> rd_status q = x) t = (if rd_status d = x then Some d else None)"
  using assms by (induction t) (auto simp: row_of_Cons unique_key_def find_None_iff image_iff split: if_splits)

interpretation dds: delivery_store db_delivery_ops db_delivery_wf "\<lambda>s k. row_of delivery_key k (reply_delivery_rows s)" attempt_rows
proof (unfold_locales, goal_cases)
  case (1 s k d)
  then show ?case using row_of_key by metis
next
  case (2 s t i)
  then show ?case by (simp add: db_delivery_ops_def db_get_delivery_def)
next
  case (3 s d q)
  let ?rows = "reply_delivery_rows s"
  have q: "q \<in> set ?rows" "delivery_key q = delivery_key d" using row_of_key [OF 3(2)] by auto
  have "rd_external_conversation_id d = rd_external_conversation_id q"
    using arg_cong [OF 3(3) [unfolded same_reply_def], of rd_external_conversation_id] by simp
  then have c: "conversation_ok (rd_external_conversation_id d)" using 3(1) q(1) by (simp add: db_delivery_wf_def)
  have has: "has_key delivery_key (delivery_key d) ?rows" by (rule has_row [OF 3(2)])
  let ?f = "\<lambda>q. q\<lparr>rd_content := rd_content d, rd_status := rd_status d, rd_attempts := rd_attempts d\<rparr>"
  let ?s' = "s\<lparr>reply_delivery_rows := update_where (\<lambda>q. delivery_key q = delivery_key d) ?f ?rows\<rparr>"
  have k: "delivery_key (?f r) = delivery_key r" for r by (simp add: delivery_key_def)
  have v: "row_of delivery_key k' (reply_delivery_rows ?s') = ((\<lambda>k. row_of delivery_key k ?rows)(delivery_key d \<mapsto> d)) k'" for k'
    using 3(2,3) row_of_key [of delivery_key k' ?rows]
    by (cases "row_of delivery_key k' ?rows") (auto simp: row_of_update_where [of delivery_key ?f, OF k] same_reply_def)
  have wf: "db_delivery_wf ?s'"
    using 3(1) by (auto simp: db_delivery_wf_def unique_key_update_where [of delivery_key ?f, OF k] elim!: in_update_whereE)
  show ?case using c has v wf by (auto simp: db_delivery_ops_def db_save_delivery_def)
next
  case (4 s t i d n)
  let ?rows = "reply_delivery_rows s"
  let ?P = "\<lambda>q. delivery_key q = (t, i) \<and> rd_status q = rd_status d"
  let ?s' = "s\<lparr>reply_delivery_rows := update_where ?P (claimed n) ?rows\<rparr>"
  have f: "find ?P ?rows = Some d" using find_claim [of ?rows "(t, i)" d "rd_status d"] 4 by (simp add: db_delivery_wf_def)
  have v: "row_of delivery_key k' (reply_delivery_rows ?s') = ((\<lambda>k. row_of delivery_key k ?rows)((t, i) \<mapsto> claimed n d)) k'" for k'
    using 4(2) row_of_key [of delivery_key k' ?rows]
    by (cases "row_of delivery_key k' ?rows") (auto simp: row_of_update_where)
  have wf: "db_delivery_wf ?s'"
    using 4(1) by (auto simp: db_delivery_wf_def table_simps claimed_def elim!: in_update_whereE)
  show ?case using f v wf by (auto simp: db_delivery_ops_def db_claim_attempt_def)
next
  case (5 s t i from_status n)
  have "find (\<lambda>q. delivery_key q = (t, i) \<and> rd_status q = from_status) (reply_delivery_rows s) = None"
    using 5 row_of_unique [of delivery_key "reply_delivery_rows s"] unfolding find_None_iff db_delivery_wf_def by metis
  then show ?case by (simp add: db_delivery_ops_def db_claim_attempt_def)
next
  case (6 s a)
  then show ?case by (auto simp: db_delivery_ops_def db_save_attempt_def db_delivery_wf_def has_key_def)
qed

lemma mem_save_view:
  assumes "unique_key rd_delivery_id (reply_delivery_rows s)"
    and "row_of rd_delivery_id (rd_delivery_id d) (reply_delivery_rows s) = Some q" "rd_tenant_id q = rd_tenant_id d"
  shows "unique_key rd_delivery_id (reply_delivery_rows (mem_save_delivery d s))"
    "(\<lambda>(t, i). mem_get_delivery t i (mem_save_delivery d s)) = (\<lambda>(t, i). mem_get_delivery t i s)(delivery_key d \<mapsto> d)"
    "attempt_rows (mem_save_delivery d s) = attempt_rows s"
proof -
  let ?rows = "reply_delivery_rows s" and ?i = "rd_delivery_id d"
  have has: "has_key rd_delivery_id ?i ?rows" by (rule has_row [OF assms(2)])
  have rows: "reply_delivery_rows (mem_save_delivery d s) = update_where (\<lambda>q. rd_delivery_id q = ?i) (\<lambda>_. d) ?rows"
    using has by (simp add: mem_save_delivery_def)
  have keys: "map rd_delivery_id (update_where (\<lambda>q. rd_delivery_id q = ?i) (\<lambda>_. d) ?rows) = map rd_delivery_id ?rows"
    by (simp add: update_where_def)
  show "unique_key rd_delivery_id (reply_delivery_rows (mem_save_delivery d s))"
    using assms(1) keys unfolding rows unique_key_def by simp
  have row: "row_of rd_delivery_id i (update_where (\<lambda>q. rd_delivery_id q = ?i) (\<lambda>_. d) t) =
      (if i = ?i then map_option (\<lambda>_. d) (row_of rd_delivery_id i t) else row_of rd_delivery_id i t)" for i t
    by (induction t) (auto simp: row_of_Cons update_where_Cons)
  have "mem_get_delivery t i (mem_save_delivery d s) = ((\<lambda>(t, i). mem_get_delivery t i s)(delivery_key d \<mapsto> d)) (t, i)" for t i
    using assms(2,3) unfolding mem_get_delivery_def rows row by (auto simp: delivery_key_def mem_get_delivery_def)
  then show "(\<lambda>(t, i). mem_get_delivery t i (mem_save_delivery d s)) = (\<lambda>(t, i). mem_get_delivery t i s)(delivery_key d \<mapsto> d)"
    by (intro ext) (simp add: split_beta)
  show "attempt_rows (mem_save_delivery d s) = attempt_rows s" by (simp add: mem_save_delivery_def)
qed

interpretation mds: delivery_store mem_delivery_ops "\<lambda>s. unique_key rd_delivery_id (reply_delivery_rows s)"
  "\<lambda>s (t, i). mem_get_delivery t i s" attempt_rows
proof (unfold_locales, goal_cases)
  case (1 s k d)
  then show ?case
    by (cases k) (auto simp: mem_get_delivery_def delivery_key_def split: option.splits if_splits dest: row_of_key)
next
  case (2 s t i)
  then show ?case by (simp add: mem_delivery_ops_def)
next
  case (3 s d q)
  have r: "row_of rd_delivery_id (rd_delivery_id d) (reply_delivery_rows s) = Some q" "rd_tenant_id q = rd_tenant_id d"
    using 3(2) by (auto simp: mem_get_delivery_def delivery_key_def split: option.splits if_splits)
  show ?case using mem_save_view [OF 3(1) r] by (auto simp: mem_delivery_ops_def)
next
  case (4 s t i d n)
  have r: "row_of rd_delivery_id (rd_delivery_id (claimed n d)) (reply_delivery_rows s) = Some d" "rd_tenant_id d = rd_tenant_id (claimed n d)"
    "t = rd_tenant_id d" "i = rd_delivery_id d"
    using 4(2) by (auto simp: mem_get_delivery_def claimed_def split: option.splits if_splits dest: row_of_key)
  show ?case using mem_save_view [OF 4(1) r(1,2)] 4(2) r(3,4)
    by (auto simp: mem_delivery_ops_def mem_claim_attempt_def delivery_key_def claimed_def)
next
  case (5 s t i from_status n)
  then show ?case by (auto simp: mem_delivery_ops_def mem_claim_attempt_def split: option.splits)
next
  case (6 s a)
  then show ?case by (auto simp: mem_delivery_ops_def mem_save_attempt_def mem_get_delivery_def)
qed

lemma failed_pass:
  assumes w: "undisturbed w" and h: "dds.holds w (t, i) d (rd_attempts d) st"
    and "rd_attempts d < budget \<or> rd_status d = Ds_rate_limited" "rd_attempts d \<le> 1024"
    and out: "wd_send w (Suc (dl_tick st)) (claimed (Suc (rd_attempts d)) d) (Suc (rd_attempts d)) = Some out"
    and "\<not> to_delivered out" "\<not> to_outcome_unknown out" "\<not> to_rate_limited out"
  shows "\<exists>d' st'. attempt_once db_delivery_ops w base budget t i d st = (Inr d', st') \<and> dds.holds w (t, i) d' (rd_attempts d') st' \<and>
    rd_attempts d' = Suc (rd_attempts d) \<and> rd_status d' = Ds_failed \<and> dl_events st' = dl_events st @ [Sent (Suc (rd_attempts d)) (Some out)]"
proof -
  let ?n = "Suc (rd_attempts d)" and ?c = "claimed (Suc (rd_attempts d)) d"
  have b: "\<exists>x. (if 0 < rd_attempts d then backoff_delay (rd_attempts d) base else Inr 0) = Inr x"
    using assms(4) by (auto simp: backoff_delay_def)
  obtain s where s: "op_claim_attempt db_delivery_ops t i (rd_status d) ?n (dl_store st) = (Some ?c, s)" "db_delivery_wf s"
    "(\<lambda>k. row_of delivery_key k (reply_delivery_rows s)) = (\<lambda>k. row_of delivery_key k (reply_delivery_rows (dl_store st)))((t, i) \<mapsto> ?c)"
    "attempt_rows s = attempt_rows (dl_store st)"
    using dds.claim_hit [of "dl_store st" t i d ?n] h unfolding dds.holds_def by blast
  let ?st3 = "st\<lparr>dl_store := s, dl_tick := Suc (Suc (dl_tick st)), dl_events := dl_events st @ [Sent ?n (Some out)]\<rparr>"
  have h3: "dds.holds w (t, i) ?c (?n - 1) ?st3" using h s fun_cong [OF s(3), of "(t, i)"] by (auto simp: dds.holds_def)
  have once: "attempt_once db_delivery_ops w base budget t i d st =
      conclude db_delivery_ops w ?c ?n (wd_now w (Suc (dl_tick st))) (state_text Ds_failed) (to_error_code out) (Continue Ds_failed) ?st3"
    using assms(3,5-) b s(1) by (auto simp: attempt_once_def awaited_undisturbed [OF w] send_def judge_def Let_def)
  obtain st' where c: "conclude db_delivery_ops w ?c ?n (wd_now w (Suc (dl_tick st))) (state_text Ds_failed) (to_error_code out) (Continue Ds_failed) ?st3 =
      (Inr (?c\<lparr>rd_status := Ds_failed\<rparr>), st')" "dds.holds w (t, i) (?c\<lparr>rd_status := Ds_failed\<rparr>) ?n st'"
    using dds.conclude_ok(2) [OF w h3, of "Continue Ds_failed" Ds_failed "wd_now w (Suc (dl_tick st))" "state_text Ds_failed" "to_error_code out"] by auto
  show ?thesis
    unfolding once using c conclude_result(1) [OF c(1)] by (intro exI [of _ "?c\<lparr>rd_status := Ds_failed\<rparr>"] exI [of _ st']) (simp add: claimed_def)
qed

subsection \<open>Every delivery is settled\<close>


subsection \<open>Concrete runs\<close>

definition sample_delivery :: "delivery_state \<Rightarrow> nat \<Rightarrow> reply_delivery" where
  "sample_delivery status attempts = \<lparr>rd_tenant_id = ''t'', rd_delivery_id = ''d'', rd_binding_id = ''b'', rd_execution_id = ''x'',
     rd_external_conversation_id = ''c'', rd_content = ''hi'', rd_status = status, rd_attempts = attempts, rd_created_at = 0\<rparr>"

definition start_run :: "reply_delivery \<Rightarrow> delivery_tables delivery_run" where
  "start_run d = \<lparr>dl_store = \<lparr>reply_delivery_rows = [d], attempt_rows = []\<rparr>, dl_tick = 0, dl_events = []\<rparr>"

definition outcome_limited :: transport_outcome where
  "outcome_limited = \<lparr>to_delivered = False, to_rate_limited = True, to_outcome_unknown = False, to_error_code = None\<rparr>"

definition outcome_failed :: transport_outcome where
  "outcome_failed = outcome_limited\<lparr>to_rate_limited := False\<rparr>"

definition outcome_delivered :: transport_outcome where
  "outcome_delivered = outcome_failed\<lparr>to_delivered := True\<rparr>"

definition scripted :: "(nat \<Rightarrow> delivery_tables \<Rightarrow> delivery_tables) \<Rightarrow> string \<Rightarrow> (nat \<Rightarrow> transport_outcome) \<Rightarrow> delivery_tables world" where
  "scripted others prefix script = \<lparr>wd_others = others, wd_send = (\<lambda>_ _ k. Some (script k)), wd_reconcile = (\<lambda>_ _ _. ''unknown''),
     wd_now = int, wd_id = (\<lambda>n. prefix @ replicate n CHR ''0'')\<rparr>"

lemmas delivery_eval_defs = scripted_def start_run_def sample_delivery_def outcome_limited_def outcome_failed_def outcome_delivered_def
  run_delivery_def load_delivery_def awaited_def TERMINAL_STATES_def attempt_once_def send_def judge_def conclude_def record_attempt_def
  transition_def save_changed_def backoff_delay_def claimed_def delivery_key_def attempt_key_def attempt_number_def conversation_ok_def
  db_delivery_ops_def db_save_delivery_def db_get_delivery_def db_save_attempt_def db_claim_attempt_def
  row_of_def has_key_def update_where_Cons state_text_def Let_def



text \<open>
  Rate limits use up the attempts after all. Whatever the budget, a delivery whose attempts reached it
  through rate limits alone becomes a dead letter after its first failure.
\<close>

theorem rate_limits_use_the_budget:
  assumes "undisturbed w" "db_delivery_wf (dl_store st)" "db_get_delivery t i (dl_store st) = Some d" "rd_status d = Ds_rate_limited"
    and "\<forall>a \<in> set (attempt_rows (dl_store st)). (da_tenant_id a, da_delivery_id a) = (t, i) \<longrightarrow> da_attempt_no a \<le> rd_attempts d"
    and "\<forall>a \<in> set (attempt_rows (dl_store st)). \<forall>n \<ge> dl_tick st. da_attempt_id a \<noteq> wd_id w n"
    and "budget \<le> rd_attempts d" "rd_attempts d \<le> 1024"
    and "wd_send w (dl_tick st + 2) (claimed (Suc (rd_attempts d)) d) (Suc (rd_attempts d)) = Some outcome_failed"
  shows "\<exists>d' st'. run_delivery db_delivery_ops w base budget t i st = Some (Inr d', st') \<and> rd_status d' = Ds_dead_letter \<and>
      dl_events st' = dl_events st @ [Sent (Suc (rd_attempts d)) (Some outcome_failed)]"
proof -
  let ?st1 = "st\<lparr>dl_tick := Suc (dl_tick st)\<rparr>"
  have h: "dds.holds w (t, i) d (rd_attempts d) ?st1" using assms(2,3,5,6) by (auto simp: dds.holds_def db_get_delivery_def)
  have run: "run_delivery db_delivery_ops w base budget t i st = run_loop db_delivery_ops w base budget t i d ?st1"
    using assms(3,4) by (simp add: run_delivery_def load_delivery_def awaited_undisturbed [OF assms(1)] db_delivery_ops_def TERMINAL_STATES_def)
  obtain r st2 where a: "attempt_once db_delivery_ops w base budget t i d ?st1 = (r, st2)" by fastforce
  obtain d' where r: "r = Inr d'" "dds.holds w (t, i) d' (rd_attempts d') st2" "rd_attempts d' = Suc (rd_attempts d)" "rd_status d' = Ds_failed"
    "dl_events st2 = dl_events st @ [Sent (Suc (rd_attempts d)) (Some outcome_failed)]"
    using failed_pass [OF assms(1) h _ assms(8), of budget outcome_failed base] assms(4,9) a
    by (auto simp: outcome_failed_def outcome_limited_def)
  obtain st' where t: "transition db_delivery_ops w d' Ds_dead_letter None st2 = (Inr (d'\<lparr>rd_status := Ds_dead_letter, rd_attempts := rd_attempts d'\<rparr>), st')"
    using dds.transition_ok [OF assms(1) r(2), of Ds_dead_letter None] by auto
  have "run_loop db_delivery_ops w base budget t i d' st2 = Some (Inr (d'\<lparr>rd_status := Ds_dead_letter, rd_attempts := rd_attempts d'\<rparr>), st')"
    using r(3,4) assms(7) t by (subst run_loop.simps) (simp add: attempt_once_def)
  then show ?thesis
    using a r(1,5) transition_result(1) [OF t] unfolding run by (subst run_loop.simps) simp
qed

theorem rate_limits_use_the_budget_witness:
  "\<exists>d' st'. run_delivery db_delivery_ops (scripted (\<lambda>_ s. s) ''a'' (\<lambda>_. outcome_failed)) 1 5 ''t'' ''d''
      (start_run (sample_delivery Ds_rate_limited 5)) = Some (Inr d', st') \<and> rd_status d' = Ds_dead_letter \<and>
      dl_events st' = [Sent 6 (Some outcome_failed)]"
  using rate_limits_use_the_budget [of "scripted (\<lambda>_ s. s) ''a'' (\<lambda>_. outcome_failed)" "start_run (sample_delivery Ds_rate_limited 5)"
      "''t''" "''d''" "sample_delivery Ds_rate_limited 5" 5 1]
  by (simp add: undisturbed_def db_delivery_wf_def unique_key_def scripted_def start_run_def sample_delivery_def
      db_get_delivery_def row_of_def delivery_key_def conversation_ok_def)

text \<open>
  A delivery that has been rate limited more than 1024 times can never be run again: computing the
  delay overflows before anything is sent, the error leaves \<open>run\<close>, and the delivery stays as it was.
\<close>

theorem backoff_overflow_sticks:
  assumes "undisturbed w" "db_get_delivery t i (dl_store st) = Some d" "rd_status d = Ds_rate_limited" "1024 < rd_attempts d"
  shows "\<exists>st'. run_delivery db_delivery_ops w base budget t i st = Some (Inl OverflowError, st') \<and> dl_store st' = dl_store st \<and>
     dl_events st' = dl_events st"
proof -
  have "1024 \<le> rd_attempts d - 1" using assms(4) by linarith
  then have "attempt_once db_delivery_ops w base budget t i d st1 = (Inl (Inl OverflowError), st1)" for st1
    using assms(3,4) by (simp add: attempt_once_def backoff_delay_def)
  then have "run_loop db_delivery_ops w base budget t i d st1 = Some (Inl OverflowError, st1)" for st1
    by (subst run_loop.simps) simp
  then show ?thesis
    using assms(2,3)
    by (simp add: run_delivery_def load_delivery_def awaited_undisturbed [OF assms(1)] db_delivery_ops_def TERMINAL_STATES_def)
qed

theorem backoff_overflow_sticks_witness:
  "\<exists>st'. run_delivery db_delivery_ops (scripted (\<lambda>_ s. s) ''a'' (\<lambda>_. outcome_delivered)) 1 5 ''t'' ''d''
      (start_run (sample_delivery Ds_rate_limited 1025)) = Some (Inl OverflowError, st') \<and> dl_events st' = []"
  using backoff_overflow_sticks [of "scripted (\<lambda>_ s. s) ''a'' (\<lambda>_. outcome_delivered)" "''t''" "''d''"
      "start_run (sample_delivery Ds_rate_limited 1025)" "sample_delivery Ds_rate_limited 1025" 1 5]
  by (auto simp: undisturbed_def scripted_def start_run_def sample_delivery_def db_get_delivery_def row_of_def delivery_key_def)

text \<open>
  Two workers. While the first waits for the channel's answer (before its fourth interaction), the second
  runs the same delivery: it finds it IN_FLIGHT and takes it over.
\<close>

definition second_run :: "delivery_tables \<Rightarrow> ((delivery_error + reply_delivery) \<times> delivery_tables delivery_run) option" where
  "second_run s = run_delivery db_delivery_ops (scripted (\<lambda>_ s. s) ''b'' (\<lambda>_. outcome_delivered)) 1 5 ''t'' ''d''
     \<lparr>dl_store = s, dl_tick = 0, dl_events = []\<rparr>"

definition second_worker :: "delivery_tables \<Rightarrow> delivery_tables" where
  "second_worker s = (case second_run s of Some (r, st) \<Rightarrow> dl_store st | None \<Rightarrow> s)"

definition first_run :: "((delivery_error + reply_delivery) \<times> delivery_tables delivery_run) option" where
  "first_run = run_delivery db_delivery_ops
     (scripted (\<lambda>n s. if n = 3 then second_worker s else s) ''a'' (\<lambda>k. if k = 1 then outcome_failed else outcome_delivered)) 1 5 ''t'' ''d''
     (start_run (sample_delivery Ds_queued 0))"

lemma second_worker_in_flight:
  "second_run \<lparr>reply_delivery_rows = [sample_delivery Ds_in_flight 1], attempt_rows = []\<rparr> =
     Some (Inr (sample_delivery Ds_delivered 2),
       \<lparr>dl_store = \<lparr>reply_delivery_rows = [sample_delivery Ds_delivered 2],
          attempt_rows = [\<lparr>da_attempt_id = ''b000'', da_tenant_id = ''t'', da_delivery_id = ''d'', da_attempt_no = 2, da_outcome = ''DELIVERED'',
            da_error_code = None, da_started_at = 2, da_finished_at = 3\<rparr>]\<rparr>, dl_tick = 5, dl_events = [Sent 2 (Some outcome_delivered)]\<rparr>)"
  by (simp add: second_run_def delivery_eval_defs run_loop.simps numeral_eq_Suc)


end
