(* ===== verification/Agent_Gateway.thy ===== *)
theory Agent_Gateway
  imports Agent_Worker Resilience Json_Canonical
begin

text \<open>
  The entry of executions, \<open>trpc_service/agent_gateway.py\<close>: the submitter that commits an execution and
  its Outbox record in one transaction, idempotent by message id, behind the capacity function
  \<open>platform.try_admit_execution\<close> of migration \<open>0032\<close>, and the HTTP handler in front of it. A submission
  waits for the capacity lock inside its transaction; what other transactions commit meanwhile is the
  argument \<open>others\<close>. An error rolls the transaction back. Identifiers are drawn from \<open>ids\<close>; tokens
  are counted in millionths, as time is.
\<close>

datatype submit_error = AgentGatewayError string | SubmitSessionError session_error | SubmitSqlError sql_error

record submission =
  sb_tenant_id :: uuid
  sb_application_id :: uuid
  sb_environment :: string
  sb_session_id :: string
  sb_subject_id :: "string option"
  sb_memory_policy_version :: string
  sb_messages :: "(string \<times> string) list list"
  sb_message_id :: "string option"
  sb_channel_context :: "(string \<times> string) list option"
  sb_trace_parent :: "string option"

record accepted =
  ea_execution_id :: uuid
  ea_release_id :: uuid
  ea_session_id :: string
  ea_deduplicated :: bool

text \<open>The field constraints of the request model.\<close>

definition length_within :: "nat \<Rightarrow> nat \<Rightarrow> 'x list \<Rightarrow> bool" where
  "length_within lo hi s \<longleftrightarrow> lo \<le> length s \<and> length s \<le> hi"

definition submission_ok :: "submission \<Rightarrow> bool" where
  "submission_ok sb \<longleftrightarrow> sb_environment sb \<in> {''DEVELOPMENT'', ''STAGING'', ''PRODUCTION''} \<and> length_within 1 512 (sb_session_id sb) \<and>
     (case sb_subject_id sb of None \<Rightarrow> True | Some s \<Rightarrow> length_within 1 256 s) \<and> length_within 1 128 (sb_memory_policy_version sb) \<and>
     length_within 1 200 (sb_messages sb) \<and> (case sb_message_id sb of None \<Rightarrow> True | Some m \<Rightarrow> length_within 1 256 m) \<and>
     (case sb_trace_parent sb of None \<Rightarrow> True | Some tp \<Rightarrow> length_within 1 128 tp)"

record gateway_tables = session_tables +
  agent_release :: "release_row list"
  execution_admission_bucket :: "int \<times> timestamp"

definition opt_json :: "string option \<Rightarrow> json" where
  "opt_json v = (case v of None \<Rightarrow> JNull | Some s \<Rightarrow> JStr s)"

definition context_json :: "(string \<times> string) list option \<Rightarrow> json" where
  "context_json v = (case v of None \<Rightarrow> JNull | Some d \<Rightarrow> json_of_str_dict d)"

definition payload_json :: "submission \<Rightarrow> json" where
  "payload_json sb = JDict
     [(''tenant_id'', JStr (sb_tenant_id sb)), (''application_id'', JStr (sb_application_id sb)), (''environment'', JStr (sb_environment sb)),
      (''session_id'', JStr (sb_session_id sb)), (''subject_id'', opt_json (sb_subject_id sb)),
      (''memory_policy_version'', JStr (sb_memory_policy_version sb)), (''messages'', JList (map json_of_str_dict (sb_messages sb))),
      (''channel_context'', context_json (sb_channel_context sb))]"

definition payload_hash :: "submission \<Rightarrow> string" where
  "payload_hash sb = sha256_hex (canonical_dumps (payload_json sb))"

subsection \<open>Capacity\<close>

definition pending_execution_count :: "'a session_tables_scheme \<Rightarrow> int" where
  "pending_execution_count db = int (length (filter (\<lambda>r. ex_status r = EX_PENDING) (agent_execution db)))"

definition try_admit_execution :: "capacity_policy \<Rightarrow> timestamp \<Rightarrow> gateway_tables \<Rightarrow> sql_error + (string \<times> gateway_tables)" where
  "try_admit_execution policy clock db =
     (if cp_max_in_flight policy < 1 \<or> cp_sustained_per_second policy < 1 \<or> cp_burst_per_second policy < 1 \<or> cp_burst_seconds policy < 1
      then Inl OperationalError
      else case execution_admission_bucket db of
        (tokens, last_refill_at) \<Rightarrow>
          (let bucket_tokens = min (bucket_capacity policy) (tokens + max 0 ((clock - last_refill_at) * cp_sustained_per_second policy)) in
           if cp_max_in_flight policy \<le> pending_execution_count db
           then Inr (''INFLIGHT_SATURATED'', db\<lparr>execution_admission_bucket := (bucket_tokens, clock)\<rparr>)
           else if bucket_tokens < 1000000
           then Inr (''RATE_EXCEEDED'', db\<lparr>execution_admission_bucket := (bucket_tokens, clock)\<rparr>)
           else Inr (''ALLOWED'', db\<lparr>execution_admission_bucket := (bucket_tokens - 1000000, clock)\<rparr>)))"

subsection \<open>Submission\<close>

definition execution_key :: "agent_execution_row \<Rightarrow> uuid \<times> string" where
  "execution_key r = (ex_tenant_id r, ex_message_id r)"

definition deduplicated_submission ::
  "submission \<Rightarrow> string \<Rightarrow> string \<Rightarrow> uuid \<Rightarrow> 'a session_tables_scheme \<Rightarrow> submit_error + accepted option" where
  "deduplicated_submission sb message_id hash release_id db =
     (case row_of execution_key (sb_tenant_id sb, message_id) (agent_execution db) of
        None \<Rightarrow> Inr None
      | Some existing \<Rightarrow>
          if ex_payload_hash existing \<noteq> hash then Inl (AgentGatewayError ''MESSAGE_PAYLOAD_CONFLICT'')
          else Inr (Some \<lparr>ea_execution_id = ex_id existing, ea_release_id = release_id, ea_session_id = sb_session_id sb, ea_deduplicated = True\<rparr>))"

text \<open>\<open>INSERT ... ON CONFLICT (tenant_id,message_id) DO NOTHING RETURNING id\<close>\<close>

definition insert_execution ::
  "uuid \<Rightarrow> submission \<Rightarrow> uuid \<Rightarrow> string \<Rightarrow> string \<Rightarrow> gateway_tables \<Rightarrow> sql_error + (uuid option \<times> gateway_tables)" where
  "insert_execution new_id sb release_id message_id hash db =
     (let r = \<lparr>ex_tenant_id = sb_tenant_id sb, ex_id = new_id, ex_message_id = message_id, ex_session_id = sb_session_id sb,
               ex_status = EX_PENDING, ex_knowledge_revision_ids = [], ex_application_id = sb_application_id sb, ex_release_id = release_id,
               ex_environment = sb_environment sb, ex_subject_id = sb_subject_id sb, ex_memory_policy_version = sb_memory_policy_version sb,
               ex_payload_hash = hash\<rparr>
      in if \<not> (sb_environment sb \<in> {''DEVELOPMENT'', ''STAGING'', ''PRODUCTION''} \<and> length_within 1 256 message_id) then Inl IntegrityError
         else if has_key execution_key (execution_key r) (agent_execution db) then Inr (None, db)
         else if has_key (\<lambda>q. (ex_tenant_id q, ex_id q)) (sb_tenant_id sb, new_id) (agent_execution db) then Inl IntegrityError
         else if (sb_tenant_id sb, sb_application_id sb) \<notin> set (agent_application db) \<or>
                 agent_session db (sb_tenant_id sb, sb_session_id sb) = None \<or>
                 \<not> has_key (\<lambda>q. (rw_tenant_id q, rw_id q)) (sb_tenant_id sb, release_id) (agent_release db)
         then Inl IntegrityError
         else Inr (Some new_id, db\<lparr>agent_execution := agent_execution db @ [r]\<rparr>))"

text \<open>\<open>ExecutionRequestedData(...).model_dump()\<close>, written to the Outbox as JSON.\<close>

definition requested_data :: "submission \<Rightarrow> uuid \<Rightarrow> uuid \<Rightarrow> execution_requested" where
  "requested_data sb execution_id release_id =
     \<lparr>rq_tenant_id = sb_tenant_id sb, rq_application_id = sb_application_id sb, rq_execution_id = execution_id, rq_release_id = release_id,
      rq_environment = sb_environment sb, rq_session_id = sb_session_id sb, rq_messages = sb_messages sb,
      rq_channel_context = sb_channel_context sb, rq_trace_parent = sb_trace_parent sb\<rparr>"

definition requested_payload :: "execution_requested \<Rightarrow> (string \<times> json) list" where
  "requested_payload data =
     [(''tenant_id'', JStr (rq_tenant_id data)), (''application_id'', JStr (rq_application_id data)),
      (''execution_id'', JStr (rq_execution_id data)), (''release_id'', JStr (rq_release_id data)),
      (''environment'', JStr (rq_environment data)), (''session_id'', JStr (rq_session_id data)),
      (''messages'', JList (map json_of_str_dict (rq_messages data))), (''channel_context'', context_json (rq_channel_context data)),
      (''trace_parent'', opt_json (rq_trace_parent data))]"

text \<open>The part of the transaction behind the capacity lock, on the tables as they are then.\<close>

definition admit_and_insert ::
  "capacity_policy \<Rightarrow> (nat \<Rightarrow> uuid) \<Rightarrow> timestamp \<Rightarrow> submission \<Rightarrow> string \<Rightarrow> string \<Rightarrow> release_row \<Rightarrow> gateway_tables
   \<Rightarrow> submit_error + (accepted \<times> gateway_tables)" where
  "admit_and_insert policy ids now sb message_id hash rel db =
     (case try_admit_execution policy now db of
        Inl e \<Rightarrow> Inl (SubmitSqlError e)
      | Inr (admission, db1) \<Rightarrow>
          if admission \<noteq> ''ALLOWED'' then
            (case deduplicated_submission sb message_id hash (rw_id rel) db1 of
               Inl e \<Rightarrow> Inl e | Inr (Some dup) \<Rightarrow> Inr (dup, db1) | Inr None \<Rightarrow> Inl (AgentGatewayError admission))
          else
            (case create_session_if_missing now (sb_tenant_id sb) (sb_application_id sb) (sb_session_id sb) db1 of
               Inl e \<Rightarrow> Inl (SubmitSessionError e)
             | Inr db2 \<Rightarrow>
                (case insert_execution (ids 1) sb (rw_id rel) message_id hash db2 of
                   Inl e \<Rightarrow> Inl (SubmitSqlError e)
                 | Inr (None, db3) \<Rightarrow>
                    (case deduplicated_submission sb message_id hash (rw_id rel) db3 of
                       Inl e \<Rightarrow> Inl e | Inr (Some dup) \<Rightarrow> Inr (dup, db3)
                     | Inr None \<Rightarrow> Inl (AgentGatewayError ''MESSAGE_PAYLOAD_CONFLICT''))
                 | Inr (Some execution_id, db3) \<Rightarrow>
                    (case insert_outbox_record now (ids 2) (sb_tenant_id sb) message_id GATEWAY_SOURCE EXECUTION_REQUESTED_EVENT
                            (session_partition_key (sb_tenant_id sb) (sb_session_id sb))
                            (requested_payload (requested_data sb execution_id (rw_id rel)))
                            None (Some execution_id) (Some (class_value (rw_data_classification rel))) db3 of
                       Inl e \<Rightarrow> Inl (SubmitSqlError e)
                     | Inr db4 \<Rightarrow>
                         Inr (\<lparr>ea_execution_id = execution_id, ea_release_id = rw_id rel, ea_session_id = sb_session_id sb,
                               ea_deduplicated = False\<rparr>, db4)))))"

definition message_id_of :: "(nat \<Rightarrow> uuid) \<Rightarrow> submission \<Rightarrow> string" where
  "message_id_of ids sb = (case sb_message_id sb of Some m \<Rightarrow> if m = [] then ids 0 else m | None \<Rightarrow> ids 0)"

definition release_of :: "uuid \<Rightarrow> uuid \<Rightarrow> gateway_tables \<Rightarrow> release_row option" where
  "release_of tenant_id release_id db = row_of (\<lambda>q. (rw_tenant_id q, rw_id q)) (tenant_id, release_id) (agent_release db)"

definition submit_to_release ::
  "capacity_policy \<Rightarrow> (nat \<Rightarrow> uuid) \<Rightarrow> timestamp \<Rightarrow> (gateway_tables \<Rightarrow> gateway_tables) \<Rightarrow> submission \<Rightarrow> uuid \<Rightarrow> gateway_tables
   \<Rightarrow> (submit_error + accepted) \<times> gateway_tables" where
  "submit_to_release policy ids now others sb release_id db =
     (let message_id = message_id_of ids sb; hash = payload_hash sb in
      case release_of (sb_tenant_id sb) release_id db of
        None \<Rightarrow> (Inl (AgentGatewayError ''DEPLOYMENT_NOT_FOUND''), db)
      | Some rel \<Rightarrow>
         (case deduplicated_submission sb message_id hash release_id db of
            Inl e \<Rightarrow> (Inl e, db)
          | Inr (Some dup) \<Rightarrow> (Inr dup, db)
          | Inr None \<Rightarrow>
             (case admit_and_insert policy ids now sb message_id hash rel (others db) of
                Inl e \<Rightarrow> (Inl e, others db) | Inr (a, db1) \<Rightarrow> (Inr a, db1))))"

definition submit ::
  "(string \<Rightarrow> bool) \<Rightarrow> (string \<Rightarrow> string \<Rightarrow> string \<Rightarrow> sql_error + deployment_route option) \<Rightarrow> (string \<times> string \<times> string \<rightharpoonup> deployment_route)
   \<Rightarrow> capacity_policy \<Rightarrow> (nat \<Rightarrow> uuid) \<Rightarrow> timestamp \<Rightarrow> (gateway_tables \<Rightarrow> gateway_tables) \<Rightarrow> submission \<Rightarrow> gateway_tables
   \<Rightarrow> (submit_error + accepted) \<times> gateway_tables" where
  "submit uuid_ok query routes policy ids now others sb db =
     (case fst (resolve_deployment uuid_ok query routes (sb_tenant_id sb) (sb_application_id sb) (sb_environment sb) (sb_session_id sb)) of
        None \<Rightarrow> (Inl (AgentGatewayError ''DEPLOYMENT_NOT_FOUND''), db)
      | Some release_id \<Rightarrow> submit_to_release policy ids now others sb release_id db)"

subsection \<open>The HTTP handler\<close>

datatype submit_reply = Http_error nat string | Http_crash | Http_ok nat accepted

definition reply_of_error :: "submit_error \<Rightarrow> submit_reply" where
  "reply_of_error e =
     (case e of
        AgentGatewayError code \<Rightarrow> Http_error (if code \<in> {''INFLIGHT_SATURATED'', ''RATE_EXCEEDED''} then 429 else 409) code
      | _ \<Rightarrow> Http_crash)"

definition submit_execution ::
  "(string \<Rightarrow> bool) \<Rightarrow> (string \<Rightarrow> string \<Rightarrow> string \<Rightarrow> sql_error + deployment_route option) \<Rightarrow> (string \<times> string \<times> string \<rightharpoonup> deployment_route)
   \<Rightarrow> bool \<Rightarrow> (nat \<Rightarrow> uuid) \<Rightarrow> timestamp \<Rightarrow> (gateway_tables \<Rightarrow> gateway_tables) \<Rightarrow> string option \<Rightarrow> submission \<Rightarrow> int
   \<Rightarrow> admission_controller \<Rightarrow> gateway_tables \<Rightarrow> submit_reply \<times> admission_controller \<times> gateway_tables" where
  "submit_execution uuid_ok query routes standby_mode ids now others traceparent sb monotonic ac db =
     (if standby_mode then (Http_error 503 ''STANDBY_FENCED'', ac, db)
      else case admit monotonic ac of
        (False, ac1) \<Rightarrow> (Http_error 429 ''RATE_EXCEEDED'', ac1, db)
      | (True, ac1) \<Rightarrow>
         (let sb1 = (if traceparent \<noteq> None \<and> sb_trace_parent sb = None then sb\<lparr>sb_trace_parent := traceparent\<rparr> else sb) in
          case submit uuid_ok query routes (ac_policy ac) ids now others sb1 db of
            (Inl e, db1) \<Rightarrow> (reply_of_error e, ac1, db1)
          | (Inr a, db1) \<Rightarrow> (Http_ok (if ea_deduplicated a then 200 else 202) a, ac1, db1)))"

record capacity_report =
  cr_in_flight :: int
  cr_pending_outbox_records :: int
  cr_shed_level :: shed

definition capacity_status :: "capacity_policy \<Rightarrow> gateway_tables \<Rightarrow> capacity_report" where
  "capacity_status policy db =
     (let pending = pending_execution_count db;
          outbox = int (length (filter (\<lambda>r. ob_status r = PENDING_OUT \<and> ob_event_type r = EXECUTION_REQUESTED_EVENT) (outbox_record db)))
      in \<lparr>cr_in_flight = pending, cr_pending_outbox_records = outbox, cr_shed_level = shed_level pending outbox policy\<rparr>)"

subsection \<open>One execution per message\<close>

text \<open>What never changes in an execution row, and tables in which every execution of others is still there.\<close>

definition execution_identity :: "agent_execution_row \<Rightarrow> uuid \<times> uuid \<times> string \<times> string \<times> uuid \<times> uuid \<times> string" where
  "execution_identity r = (ex_tenant_id r, ex_id r, ex_message_id r, ex_session_id r, ex_application_id r, ex_release_id r, ex_payload_hash r)"

definition executions_unique :: "'a session_tables_scheme \<Rightarrow> bool" where
  "executions_unique db \<longleftrightarrow> unique_key execution_key (agent_execution db)"

definition executions_kept :: "'a session_tables_scheme \<Rightarrow> 'a session_tables_scheme \<Rightarrow> bool" where
  "executions_kept db db' \<longleftrightarrow> execution_identity ` set (agent_execution db) \<subseteq> execution_identity ` set (agent_execution db')"

definition fair_others :: "(gateway_tables \<Rightarrow> gateway_tables) \<Rightarrow> gateway_tables \<Rightarrow> bool" where
  "fair_others others db \<longleftrightarrow> executions_unique (others db) \<and> executions_kept db (others db)"

lemma executions_kept_refl [simp]: "executions_kept db db"
  by (simp add: executions_kept_def)

lemma executions_kept_trans: "executions_kept a b \<Longrightarrow> executions_kept b c \<Longrightarrow> executions_kept a c"
  unfolding executions_kept_def by blast

definition names_execution :: "uuid \<Rightarrow> string \<Rightarrow> uuid \<Rightarrow> string \<Rightarrow> 'a session_tables_scheme \<Rightarrow> bool" where
  "names_execution t m x h db \<longleftrightarrow> (\<exists>r \<in> set (agent_execution db). execution_key r = (t, m) \<and> ex_id r = x \<and> ex_payload_hash r = h)"

lemma names_execution_kept: "names_execution t m x h db \<Longrightarrow> executions_kept db db' \<Longrightarrow> names_execution t m x h db'"
  unfolding names_execution_def executions_kept_def execution_identity_def execution_key_def by fastforce

lemma names_execution_row:
  assumes "executions_unique db" "names_execution t m x h db"
  shows "\<exists>r. row_of execution_key (t, m) (agent_execution db) = Some r \<and> ex_id r = x \<and> ex_payload_hash r = h"
proof -
  obtain r where r: "r \<in> set (agent_execution db)" "execution_key r = (t, m)" "ex_id r = x" "ex_payload_hash r = h"
    using assms(2) unfolding names_execution_def by blast
  then have "row_of execution_key (t, m) (agent_execution db) = Some r"
    using row_of_unique [OF assms(1) [unfolded executions_unique_def] r(1)] by simp
  then show ?thesis using r by blast
qed

lemma dedup_names:
  assumes "deduplicated_submission sb m h release_id db = Inr (Some a)"
  shows "names_execution (sb_tenant_id sb) m (ea_execution_id a) h db" "ea_deduplicated a"
  using assms row_of_SomeD [of execution_key "(sb_tenant_id sb, m)" "agent_execution db"]
  unfolding deduplicated_submission_def names_execution_def by (fastforce split: option.splits if_splits)+

lemma try_admit_executions: "try_admit_execution policy clock db = Inr (x, db1) \<Longrightarrow> agent_execution db1 = agent_execution db"
  by (auto simp: try_admit_execution_def Let_def split: if_splits prod.splits)

lemma create_session_executions: "create_session_if_missing now t a s db = Inr db' \<Longrightarrow> agent_execution db' = agent_execution db"
  by (auto simp: create_session_if_missing_def split: if_splits option.splits)

lemma insert_outbox_executions:
  "insert_outbox_record now i t m so ty pk p ca co cl (db :: gateway_tables) = Inr db' \<Longrightarrow> agent_execution db' = agent_execution db"
  by (auto simp: insert_outbox_record_def Let_def split: if_splits)

text \<open>Behind the lock: the rows stay, one may be added under a new message id, and the answer names the message's row.\<close>

lemma admit_and_insert_effect:
  assumes "admit_and_insert policy ids now sb m h rel db = Inr (a, db')" "executions_unique db"
  shows "executions_unique db'" "executions_kept db db'" "names_execution (sb_tenant_id sb) m (ea_execution_id a) h db'"
    "ea_deduplicated a \<Longrightarrow> agent_execution db' = agent_execution db"
    "\<not> ea_deduplicated a \<Longrightarrow> \<exists>r. agent_execution db' = agent_execution db @ [r] \<and> ex_status r = EX_PENDING \<and> pending_execution_count db < cp_max_in_flight policy"
proof -
  obtain x db1 where t: "try_admit_execution policy now db = Inr (x, db1)"
    using assms(1) by (auto simp: admit_and_insert_def split: sum.splits)
  note e1 = try_admit_executions [OF t]
  have low: "x = ''ALLOWED'' \<Longrightarrow> pending_execution_count db < cp_max_in_flight policy"
    using t by (auto simp: try_admit_execution_def Let_def split: if_splits prod.splits)
  have "executions_unique db' \<and> executions_kept db db' \<and> names_execution (sb_tenant_id sb) m (ea_execution_id a) h db' \<and>
      (ea_deduplicated a \<longrightarrow> agent_execution db' = agent_execution db) \<and>
      (\<not> ea_deduplicated a \<longrightarrow> (\<exists>r. agent_execution db' = agent_execution db @ [r] \<and> ex_status r = EX_PENDING \<and> pending_execution_count db < cp_max_in_flight policy))"
  proof (cases "x = ''ALLOWED''")
    case False
    then have "deduplicated_submission sb m h (rw_id rel) db1 = Inr (Some a)" "db' = db1"
      using assms(1) t by (auto simp: admit_and_insert_def split: sum.splits option.splits)
    then show ?thesis using dedup_names [of sb m h "rw_id rel" db1 a] e1 assms(2) by (auto simp: executions_unique_def executions_kept_def)
  next
    case True
    obtain db2 where c: "create_session_if_missing now (sb_tenant_id sb) (sb_application_id sb) (sb_session_id sb) db1 = Inr db2"
      using assms(1) t True by (auto simp: admit_and_insert_def split: sum.splits)
    obtain y db3 where i: "insert_execution (ids 1) sb (rw_id rel) m h db2 = Inr (y, db3)"
      using assms(1) t True c by (auto simp: admit_and_insert_def split: sum.splits)
    have e2: "agent_execution db2 = agent_execution db" using create_session_executions [OF c] e1 by simp
    show ?thesis
    proof (cases y)
      case None
      then have "deduplicated_submission sb m h (rw_id rel) db3 = Inr (Some a)" "db' = db3" "db3 = db2"
        using assms(1) t True c i by (auto simp: admit_and_insert_def insert_execution_def Let_def split: sum.splits option.splits if_splits)
      then show ?thesis using dedup_names [of sb m h "rw_id rel" db3 a] e2 assms(2) by (auto simp: executions_unique_def executions_kept_def)
    next
      case (Some z)
      obtain db4 where o: "insert_outbox_record now (ids 2) (sb_tenant_id sb) m GATEWAY_SOURCE EXECUTION_REQUESTED_EVENT
          (session_partition_key (sb_tenant_id sb) (sb_session_id sb)) (requested_payload (requested_data sb z (rw_id rel)))
          None (Some z) (Some (class_value (rw_data_classification rel))) db3 = Inr db4"
        and a: "a = \<lparr>ea_execution_id = z, ea_release_id = rw_id rel, ea_session_id = sb_session_id sb, ea_deduplicated = False\<rparr>" "db' = db4"
        using assms(1) t True c i Some by (auto simp: admit_and_insert_def split: sum.splits)
      obtain r where r: "agent_execution db3 = agent_execution db2 @ [r]" "execution_key r = (sb_tenant_id sb, m)" "ex_id r = z" "ex_payload_hash r = h"
        "\<not> has_key execution_key (execution_key r) (agent_execution db2)" "ex_status r = EX_PENDING"
        using i Some by (auto simp: insert_execution_def Let_def execution_key_def split: if_splits)
      show ?thesis
        using insert_outbox_executions [OF o] r e2 a assms(2) low [OF True]
        by (auto simp: executions_unique_def executions_kept_def names_execution_def unique_key_append)
    qed
  qed
  then show "executions_unique db'" "executions_kept db db'" "names_execution (sb_tenant_id sb) m (ea_execution_id a) h db'"
    "ea_deduplicated a \<Longrightarrow> agent_execution db' = agent_execution db"
    "\<not> ea_deduplicated a \<Longrightarrow> \<exists>r. agent_execution db' = agent_execution db @ [r] \<and> ex_status r = EX_PENDING \<and> pending_execution_count db < cp_max_in_flight policy"
    by blast+
qed

lemma submit_cases:
  assumes "submit uuid_ok query routes policy ids now others sb db = (res, db')"
  obtains (refused) e where "res = Inl e" "db' = db \<or> db' = others db"
    | (dup) a release_id where "res = Inr a" "db' = db" "deduplicated_submission sb (message_id_of ids sb) (payload_hash sb) release_id db = Inr (Some a)"
    | (new) a rel release_id where "res = Inr a" "deduplicated_submission sb (message_id_of ids sb) (payload_hash sb) release_id db = Inr None"
        "admit_and_insert policy ids now sb (message_id_of ids sb) (payload_hash sb) rel (others db) = Inr (a, db')"
proof -
  have "(\<exists>e. res = Inl e \<and> (db' = db \<or> db' = others db)) \<or>
      (\<exists>a release_id. res = Inr a \<and> db' = db \<and> deduplicated_submission sb (message_id_of ids sb) (payload_hash sb) release_id db = Inr (Some a)) \<or>
      (\<exists>a rel release_id. res = Inr a \<and> deduplicated_submission sb (message_id_of ids sb) (payload_hash sb) release_id db = Inr None \<and>
        admit_and_insert policy ids now sb (message_id_of ids sb) (payload_hash sb) rel (others db) = Inr (a, db'))"
    using assms by (auto simp: submit_def submit_to_release_def Let_def split: option.splits sum.splits prod.splits)
  then show thesis using refused dup new by blast
qed

lemma submit_effect:
  assumes "submit uuid_ok query routes policy ids now others sb db = (res, db')" "executions_unique db" "fair_others others db"
  shows "executions_unique db'" "executions_kept db db'"
    "res = Inr a \<Longrightarrow> names_execution (sb_tenant_id sb) (message_id_of ids sb) (ea_execution_id a) (payload_hash sb) db'"
    "res = Inr a \<Longrightarrow> names_execution (sb_tenant_id sb) (message_id_of ids sb) x h db \<Longrightarrow>
       ea_execution_id a = x \<and> ea_deduplicated a \<and> payload_hash sb = h \<and> db' = db"
proof -
  let ?t = "sb_tenant_id sb" and ?m = "message_id_of ids sb" and ?h = "payload_hash sb"
  have o: "executions_unique (others db)" "executions_kept db (others db)" using assms(3) by (auto simp: fair_others_def)
  from assms(1) have "executions_unique db' \<and> executions_kept db db' \<and> (res = Inr a \<longrightarrow> names_execution ?t ?m (ea_execution_id a) ?h db')"
  proof (cases rule: submit_cases)
    case (refused e)
    then show ?thesis using assms(2) o by auto
  next
    case (dup a')
    then show ?thesis using assms(2) dedup_names(1) by auto
  next
    case (new a' rel)
    note e = admit_and_insert_effect [OF new(3) o(1)]
    show ?thesis using e(1,3) executions_kept_trans [OF o(2) e(2)] new(1) by auto
  qed
  then show "executions_unique db'" "executions_kept db db'" "res = Inr a \<Longrightarrow> names_execution ?t ?m (ea_execution_id a) ?h db'" by blast+
  assume r: "res = Inr a" and n: "names_execution ?t ?m x h db"
  obtain row where row: "row_of execution_key (?t, ?m) (agent_execution db) = Some row" "ex_id row = x" "ex_payload_hash row = h"
    using names_execution_row [OF assms(2) n] by blast
  from assms(1) show "ea_execution_id a = x \<and> ea_deduplicated a \<and> ?h = h \<and> db' = db"
    by (cases rule: submit_cases) (use r row in \<open>auto simp: deduplicated_submission_def split: if_splits\<close>)
qed

text \<open>
  C4: One message id is one execution. Suppose a submission was accepted, any number of other transactions
  followed that remove no execution, and a submission of the same tenant with the same message id is
  accepted: it is answered with the same execution, marked as deduplicated, carries the same payload (by
  its SHA-256 hash), and changes nothing. Whatever else commits while a submission waits for the capacity
  lock, it never leads to two executions of one message.
\<close>

theorem message_accepted_once:
  assumes "submit uuid_ok query routes policy ids now others sb db = (Inr a, db1)" "executions_unique db" "fair_others others db"
    and "executions_kept db1 db2" "executions_unique db2"
    and "submit uuid_ok' query' routes' policy' ids' now' others' sb' db2 = (Inr a', db3)" "fair_others others' db2"
    and "sb_tenant_id sb' = sb_tenant_id sb" "sb_message_id sb = Some m" "sb_message_id sb' = Some m" "m \<noteq> []"
  shows "ea_execution_id a' = ea_execution_id a \<and> ea_deduplicated a' \<and> payload_hash sb' = payload_hash sb \<and> db3 = db2"
proof -
  have m: "message_id_of ids sb = m" "message_id_of ids' sb' = m" using assms(9-11) by (auto simp: message_id_of_def)
  have "names_execution (sb_tenant_id sb) m (ea_execution_id a) (payload_hash sb) db1"
    using submit_effect(3) [OF assms(1-3)] m by simp
  then have "names_execution (sb_tenant_id sb') (message_id_of ids' sb') (ea_execution_id a) (payload_hash sb) db2"
    using names_execution_kept [OF _ assms(4)] m assms(8) by simp
  from submit_effect(4) [OF assms(6,5,7) _ this] show ?thesis by simp
qed

text \<open>
  The release in the answer is the one the deployment names now: after a rollout a repeated submission is
  told another release than the one its execution runs on.
\<close>

lemma dedup_reports_current_release:
  assumes "row_of execution_key (sb_tenant_id sb, message_id_of ids sb) (agent_execution db) = Some r" "ex_payload_hash r = payload_hash sb"
    and "release_of (sb_tenant_id sb) release_id db = Some rel"
  shows "submit_to_release policy ids now others sb release_id db =
    (Inr \<lparr>ea_execution_id = ex_id r, ea_release_id = release_id, ea_session_id = sb_session_id sb, ea_deduplicated = True\<rparr>, db)"
  using assms by (simp add: submit_to_release_def deduplicated_submission_def)

subsection \<open>From the gateway to the worker\<close>

lemma str_dict_of: "str_dict (map (\<lambda>(k, v). (k, JStr v)) d) = Some d"
  by (induction d) auto

lemma str_dicts_of: "str_dicts (map json_of_str_dict ms) = Some ms"
  by (induction ms) (auto simp: json_of_str_dict_def str_dict_of)

lemma requested_fields:
  "set (map fst (requested_payload data)) \<subseteq> set REQUESTED_FIELDS"
  by (simp add: requested_payload_def REQUESTED_FIELDS_def)

text \<open>
  C37: The worker reads what the gateway wrote. The payload of an execution request, written to the Outbox
  as JSON, validates at the worker to the same data, for every submission within the constraints of its
  model.
\<close>

theorem requested_payload_roundtrip:
  assumes "submission_ok sb"
  shows "validate_requested (requested_payload (requested_data sb execution_id release_id)) = Some (requested_data sb execution_id release_id)"
proof -
  let ?data = "requested_data sb execution_id release_id" and ?p = "requested_payload (requested_data sb execution_id release_id)"
  have ms: "validate_messages (dict_get ?p ''messages'') = Some (rq_messages ?data)"
    using assms by (simp add: requested_payload_def requested_data_def validate_messages_def dict_get_def str_dicts_of submission_ok_def length_within_def)
  have c: "validate_context (dict_get ?p ''channel_context'') = Some (rq_channel_context ?data)"
    by (simp add: requested_payload_def dict_get_def validate_context_def context_json_def json_of_str_dict_def str_dict_of split: option.split)
  have tp: "validate_trace (dict_get ?p ''trace_parent'') = Some (rq_trace_parent ?data)"
    using assms by (auto simp: requested_payload_def requested_data_def dict_get_def validate_trace_def opt_json_def submission_ok_def length_within_def split: option.splits)
  have f: "str_field ?p ''tenant_id'' = Some (rq_tenant_id ?data)" "str_field ?p ''application_id'' = Some (rq_application_id ?data)"
    "str_field ?p ''execution_id'' = Some (rq_execution_id ?data)" "str_field ?p ''release_id'' = Some (rq_release_id ?data)"
    "str_field ?p ''environment'' = Some (rq_environment ?data)" "str_field ?p ''session_id'' = Some (rq_session_id ?data)"
    by (simp_all add: requested_payload_def str_field_def dict_get_def)
  show ?thesis
    unfolding validate_requested_def f ms c tp using requested_fields by simp
qed

subsection \<open>Capacity\<close>

text \<open>
  The number of pending executions is bounded. Through any submission it grows past what other
  transactions made of it at most to \<open>max_in_flight\<close>: an execution is only added while fewer are pending.
\<close>

theorem in_flight_bounded:
  assumes "submit uuid_ok query routes policy ids now others sb db = (res, db')" "executions_unique db" "fair_others others db"
  shows "pending_execution_count db' \<le> max (max (pending_execution_count db) (pending_execution_count (others db))) (cp_max_in_flight policy)"
proof -
  have new: "pending_execution_count db' \<le> max (pending_execution_count (others db)) (cp_max_in_flight policy)"
    if a: "admit_and_insert policy ids now sb m h rel (others db) = Inr (a, db')" for m h rel a
    using admit_and_insert_effect(4,5) [OF a] assms(3) unfolding fair_others_def
    by (cases "ea_deduplicated a") (auto simp: pending_execution_count_def)
  from assms(1) show ?thesis
    by (cases rule: submit_cases) (use new in force)+
qed

subsection \<open>A concrete submission\<close>

definition sample_release_row :: release_row where
  "sample_release_row = \<lparr>rw_id = ''r'', rw_tenant_id = ''t'', rw_model_alias = ''m'', rw_data_classification = PUBLIC, rw_region = ''eu'',
     rw_fallback_aliases = [], rw_model_profiles = [], rw_draft_snapshot = JNull\<rparr>"

definition open_gateway :: gateway_tables where
  "open_gateway = \<lparr>outbox_record = [], agent_application = [(''t'', ''app'')], agent_session = (\<lambda>_. None), session_lease = (\<lambda>_. None),
     session_event = [], agent_execution = [], agent_release = [sample_release_row], execution_admission_bucket = (180000000000, 0)\<rparr>"

definition sample_submission :: submission where
  "sample_submission = \<lparr>sb_tenant_id = ''t'', sb_application_id = ''app'', sb_environment = ''STAGING'', sb_session_id = ''s'', sb_subject_id = None,
     sb_memory_policy_version = ''policy:none'', sb_messages = [[(''role'', ''user''), (''content'', ''hi'')]], sb_message_id = Some ''k'',
     sb_channel_context = None, sb_trace_parent = None\<rparr>"

definition sample_submit :: "gateway_tables \<Rightarrow> (submit_error + accepted) \<times> gateway_tables" where
  "sample_submit db = submit (\<lambda>_. True) (\<lambda>_ _ _. Inr (Some \<lparr>dr_release_id = ''r'', dr_previous_release_id = None, dr_rollout_percentage = 100\<rparr>))
     (\<lambda>_. None) default_policy (\<lambda>n. replicate n CHR ''x'') 5 (\<lambda>db. db) sample_submission db"

lemmas submit_eval_defs = sample_submit_def submit_def submit_to_release_def resolve_deployment_def choose_release_def release_of_def row_of_def
  deduplicated_submission_def message_id_of_def admit_and_insert_def try_admit_execution_def create_session_if_missing_def insert_execution_def
  insert_outbox_record_def outbox_check_def outbox_taken_def default_policy_def bucket_capacity_def pending_execution_count_def
  sample_submission_def sample_release_row_def open_gateway_def has_key_def execution_key_def length_within_def MAX_SESSION_ID_LENGTH_def
  event_type_ok_def is_lower_def is_digit_def opt_len_ok_def class_value_def session_partition_key_def Let_def

lemma sample_submit_accepted:
  "\<exists>db1. sample_submit open_gateway = (Inr \<lparr>ea_execution_id = ''x'', ea_release_id = ''r'', ea_session_id = ''s'', ea_deduplicated = False\<rparr>, db1)"
  by (simp add: submit_eval_defs GATEWAY_SOURCE_def EXECUTION_REQUESTED_EVENT_def)

lemma sample_submit_known:
  assumes "row_of execution_key (''t'', ''k'') (agent_execution db) = Some r" "ex_payload_hash r = payload_hash sample_submission"
    "agent_release db = [sample_release_row]"
  shows "sample_submit db = (Inr \<lparr>ea_execution_id = ex_id r, ea_release_id = ''r'', ea_session_id = ''s'', ea_deduplicated = True\<rparr>, db)"
  unfolding sample_submit_def submit_def
  using assms by (simp add: resolve_deployment_def choose_release_def submit_to_release_def deduplicated_submission_def message_id_of_def
      release_of_def sample_submission_def sample_release_row_def row_of_def)

lemma open_gateway_unique: "executions_unique open_gateway"
  by (simp add: executions_unique_def open_gateway_def)

lemma quiet_others: "executions_unique db \<Longrightarrow> fair_others (\<lambda>db. db) db"
  by (simp add: fair_others_def)

text \<open>The same submission twice: the second answer is the first one's execution.\<close>

theorem message_accepted_once_witness:
  "\<exists>a db1 a'. sample_submit open_gateway = (Inr a, db1) \<and> sample_submit db1 = (Inr a', db1) \<and> ea_execution_id a' = ea_execution_id a \<and> ea_deduplicated a'"
proof -
  obtain a db1 where first: "sample_submit open_gateway = (Inr a, db1)" using sample_submit_accepted by blast
  have rel: "agent_release db1 = [sample_release_row]"
    using first by (auto simp: submit_eval_defs GATEWAY_SOURCE_def EXECUTION_REQUESTED_EVENT_def)
  note e = submit_effect [OF first [unfolded sample_submit_def] open_gateway_unique quiet_others [OF open_gateway_unique]]
  have m: "sb_tenant_id sample_submission = ''t''" "message_id_of ids sample_submission = ''k''" for ids
    by (simp_all add: sample_submission_def message_id_of_def)
  have "names_execution ''t'' ''k'' (ea_execution_id a) (payload_hash sample_submission) db1" using e(3) m by simp
  from names_execution_row [OF e(1) this] obtain r where r: "row_of execution_key (''t'', ''k'') (agent_execution db1) = Some r"
    "ex_payload_hash r = payload_hash sample_submission" by blast
  obtain a' where second: "sample_submit db1 = (Inr a', db1)" using sample_submit_known [OF r rel] by blast
  have "ea_execution_id a' = ea_execution_id a \<and> ea_deduplicated a' \<and> payload_hash sample_submission = payload_hash sample_submission \<and> db1 = db1"
    by (rule message_accepted_once [OF first [unfolded sample_submit_def] open_gateway_unique quiet_others [OF open_gateway_unique]
          executions_kept_refl e(1) second [unfolded sample_submit_def] quiet_others [OF e(1)], of "''k''"])
      (simp_all add: sample_submission_def)
  then show ?thesis using first second by blast
qed

theorem requested_payload_roundtrip_witness:
  "validate_requested (requested_payload (requested_data sample_submission ''x'' ''r'')) = Some (requested_data sample_submission ''x'' ''r'')"
  by (rule requested_payload_roundtrip) (simp add: submission_ok_def sample_submission_def length_within_def)

theorem in_flight_bounded_witness:
  "\<exists>res db1. sample_submit open_gateway = (res, db1) \<and> pending_execution_count db1 \<le> 10000"
proof -
  obtain res db1 where s: "sample_submit open_gateway = (res, db1)" by fastforce
  have "pending_execution_count db1 \<le> max (max (pending_execution_count open_gateway) (pending_execution_count open_gateway)) (cp_max_in_flight default_policy)"
    by (rule in_flight_bounded [OF s [unfolded sample_submit_def] open_gateway_unique quiet_others [OF open_gateway_unique]])
  then show ?thesis using s by (simp add: pending_execution_count_def open_gateway_def default_policy_def)
qed

end
