(* ===== verification/Uuid5.thy ===== *)
theory Uuid5
  imports Py_Lib
begin

unbundle bit_operations_syntax

text \<open>
  \<open>uuid.uuid5\<close> of Python's standard library: SHA-1 of the namespace and the name, cut to sixteen bytes
  with version and variant set. Names are UTF-8 bytes.
\<close>

definition rotl :: "nat \<Rightarrow> 32 word \<Rightarrow> 32 word" where
  "rotl n x = (push_bit n x OR drop_bit (32 - n) x)"

definition sha1_init :: "32 word list" where
  "sha1_init = [1732584193, 4023233417, 2562383102, 271733878, 3285377520]"

fun sha1_extend :: "nat \<Rightarrow> 32 word list \<Rightarrow> 32 word list" where
  "sha1_extend 0 ws = ws"
| "sha1_extend (Suc n) ws = sha1_extend n (rotl 1 (ws ! 2 XOR ws ! 7 XOR ws ! 13 XOR ws ! 15) # ws)"

definition sha1_schedule :: "string \<Rightarrow> 32 word list" where
  "sha1_schedule block = rev (sha1_extend 64 (rev (map be_word (chunks 16 4 block))))"

text \<open>The function and the constant of a round.\<close>

definition sha1_f :: "nat \<Rightarrow> 32 word \<Rightarrow> 32 word \<Rightarrow> 32 word \<Rightarrow> 32 word \<times> 32 word" where
  "sha1_f i b c d =
     (if i < 20 then ((b AND c) OR (NOT b AND d), 1518500249)
      else if i < 40 then (b XOR c XOR d, 1859775393)
      else if i < 60 then ((b AND c) OR (b AND d) OR (c AND d), 2400959708)
      else (b XOR c XOR d, 3395469782))"

fun sha1_round :: "32 word list \<Rightarrow> nat \<times> 32 word \<Rightarrow> 32 word list" where
  "sha1_round [a, b, c, d, e] (i, w) =
     (case sha1_f i b c d of (f, k) \<Rightarrow> [rotl 5 a + f + e + k + w, a, rotl 30 b, c, d])"
| "sha1_round st iw = st"

definition sha1_block :: "32 word list \<Rightarrow> string \<Rightarrow> 32 word list" where
  "sha1_block st block = map2 (+) st (foldl sha1_round st (zip [0..<80] (sha1_schedule block)))"

definition sha1 :: "string \<Rightarrow> string" where
  "sha1 m = concat (map word_bytes (foldl sha1_block sha1_init (chunks (length m + 2) 64 (sha_pad m))))"

definition NAMESPACE_URL :: string where
  "NAMESPACE_URL = map char_of [107, 167, 184, 17, 157, 173, 17, 209, 128, 180, 0, 192, 79, 212, 48, 200 :: nat]"

definition set_version :: "string \<Rightarrow> string" where
  "set_version bs =
     bs[6 := char_of (of_char (bs ! 6) mod 16 + 80 :: nat), 8 := char_of (of_char (bs ! 8) mod 64 + 128 :: nat)]"

definition uuid_text :: "string \<Rightarrow> string" where
  "uuid_text bs =
     hexdigest (take 4 bs) @ ''-'' @ hexdigest (take 2 (drop 4 bs)) @ ''-'' @ hexdigest (take 2 (drop 6 bs)) @ ''-'' @
     hexdigest (take 2 (drop 8 bs)) @ ''-'' @ hexdigest (drop 10 bs)"

definition uuid5_url :: "string \<Rightarrow> string" where
  "uuid5_url name = uuid_text (set_version (take 16 (sha1 (NAMESPACE_URL @ name))))"

lemma length_sha1_round: "length (sha1_round st iw) = length st"
  by (cases "(st, iw)" rule: sha1_round.cases) (auto split: prod.split)

lemma length_foldl_sha1_round: "length (foldl sha1_round st iws) = length st"
  by (induction iws arbitrary: st) (auto simp: length_sha1_round)

lemma length_foldl_sha1_block: "length (foldl sha1_block st bs) = length st"
  by (induction bs arbitrary: st) (auto simp: sha1_block_def length_foldl_sha1_round)

lemma length_sha1: "length (sha1 m) = 20"
  by (simp add: sha1_def length_concat_const [where n = 4] length_foldl_sha1_block sha1_init_def)

lemma length_uuid5: "length (uuid5_url name) = 36"
  by (simp add: uuid5_url_def uuid_text_def set_version_def length_hexdigest length_sha1)

end
