(* ===== verification/Channel_Inbound.thy ===== *)
theory Channel_Inbound
  imports Agent_Gateway Uuid5
begin

text \<open>
  Inbound channel events: bindings (\<open>channels/bindings.py\<close>), the inbound ledger and routing
  (\<open>channels/inbound.py\<close>) with the stores of \<open>channels/store.py\<close> over the tables of migration
  \<open>0016\<close>, and the memory visibility of \<open>memory_access.py\<close>. An accepted event becomes a submission to the
  Agent Gateway. Every transaction of \<open>ingest_verified\<close> is one access of the state; what other
  transactions do before it is an argument. Identifiers are UUIDs in canonical form.
\<close>

datatype inbound_error =
    InboundError string
  | ValidationFailed
  | SecretRefRejected
  | ChannelBindingConflict
  | SecretUnresolved
  | SubmitFailed submit_error
  | LedgerError sql_error

subsection \<open>Bindings\<close>

datatype binding_status = Cb_active | Cb_disabled

record channel_binding =
  cb_tenant_id :: uuid
  cb_binding_id :: uuid
  cb_channel_type :: string
  cb_external_bot_id :: string
  cb_application_id :: uuid
  cb_environment :: string
  cb_secret_ref :: string
  cb_status :: binding_status

definition ref_path_char :: "char \<Rightarrow> bool" where
  "ref_path_char c \<longleftrightarrow> is_lower c \<or> is_digit c \<or> c \<in> set ''/_:-''"

definition ref_key_char :: "char \<Rightarrow> bool" where
  "ref_key_char c \<longleftrightarrow> is_lower c \<or> is_upper c \<or> is_digit c \<or> c \<in> set ''_-''"

text \<open>\<open>re.match(r"^vault://[a-z0-9/_:-]+#[a-zA-Z0-9_-]+$", s)\<close>; \<open>$\<close> also matches before a final line feed.\<close>

definition chomp :: "string \<Rightarrow> string" where
  "chomp s = (if s \<noteq> [] \<and> last s = char_of (10 :: nat) then butlast s else s)"

definition secret_ref_ok :: "string \<Rightarrow> bool" where
  "secret_ref_ok s \<longleftrightarrow>
     (let body = drop 8 (chomp s); path = takeWhile (\<lambda>c. c \<noteq> CHR ''#'') body; rest = dropWhile (\<lambda>c. c \<noteq> CHR ''#'') body in
      take 8 s = ''vault://'' \<and> path \<noteq> [] \<and> list_all ref_path_char path \<and> rest \<noteq> [] \<and> tl rest \<noteq> [] \<and> list_all ref_key_char (tl rest))"

definition CHANNEL_TYPES :: "string list" where
  "CHANNEL_TYPES = [''FAKE'', ''WECOM'', ''FEISHU'']"

text \<open>Construction of a \<open>ChannelBinding\<close>.\<close>

definition construct_binding :: "channel_binding \<Rightarrow> inbound_error + channel_binding" where
  "construct_binding b =
     (if \<not> (length_within 1 64 (cb_binding_id b) \<and> cb_channel_type b \<in> set CHANNEL_TYPES \<and> length_within 1 128 (cb_external_bot_id b) \<and>
            length_within 1 64 (cb_application_id b) \<and> cb_environment b \<in> {''DEVELOPMENT'', ''STAGING'', ''PRODUCTION''} \<and>
            length_within 1 512 (cb_secret_ref b))
      then Inl ValidationFailed
      else if \<not> secret_ref_ok (cb_secret_ref b) then Inl SecretRefRejected else Inr b)"

definition route_key :: "channel_binding \<Rightarrow> uuid \<times> string \<times> string" where
  "route_key b = (cb_tenant_id b, cb_channel_type b, cb_external_bot_id b)"

definition mem_binding_insert :: "channel_binding \<Rightarrow> channel_binding list \<Rightarrow> inbound_error + (channel_binding \<times> channel_binding list)" where
  "mem_binding_insert b s =
     (case row_of route_key (route_key b) s of
        Some existing \<Rightarrow> if existing \<noteq> b then Inl SecretRefRejected else Inr (existing, s)
      | None \<Rightarrow> Inr (b, s @ [b]))"

definition binding_key :: "channel_binding \<Rightarrow> uuid \<times> uuid" where
  "binding_key b = (cb_tenant_id b, cb_binding_id b)"

definition db_binding_insert ::
  "(uuid \<times> uuid) list \<Rightarrow> string \<Rightarrow> channel_binding \<Rightarrow> channel_binding list \<Rightarrow> inbound_error + (channel_binding \<times> channel_binding list)" where
  "db_binding_insert applications created_by b s =
     (if \<not> length_within 1 256 created_by \<or> last (cb_secret_ref b) = char_of (10 :: nat) then Inl (LedgerError IntegrityError)
      else case row_of route_key (route_key b) s of
        Some stored \<Rightarrow>
          if stored\<lparr>cb_binding_id := cb_binding_id b\<rparr> \<noteq> b then Inl ChannelBindingConflict else Inr (stored, s)
      | None \<Rightarrow>
          if has_key binding_key (binding_key b) s \<or> (cb_tenant_id b, cb_application_id b) \<notin> set applications
          then Inl (LedgerError IntegrityError) else Inr (b, s @ [b]))"

definition binding_resolve :: "uuid \<Rightarrow> string \<Rightarrow> string \<Rightarrow> channel_binding list \<Rightarrow> channel_binding option" where
  "binding_resolve tenant_id channel_type external_bot_id s =
     (case row_of route_key (tenant_id, channel_type, external_bot_id) s of
        Some b \<Rightarrow> if cb_status b = Cb_active then Some b else None | None \<Rightarrow> None)"

definition binding_set_status :: "uuid \<Rightarrow> uuid \<Rightarrow> binding_status \<Rightarrow> channel_binding list \<Rightarrow> channel_binding option \<times> channel_binding list" where
  "binding_set_status tenant_id binding_id status s =
     (let s' = update_where (\<lambda>b. binding_key b = (tenant_id, binding_id)) (\<lambda>b. b\<lparr>cb_status := status\<rparr>) s
      in (row_of binding_key (tenant_id, binding_id) s', s'))"

subsection \<open>Memory visibility\<close>

definition IM_DIRECT_MEMORY_POLICY :: string where "IM_DIRECT_MEMORY_POLICY = ''im-subject-direct-v1''"
definition IM_GROUP_MEMORY_POLICY :: string where "IM_GROUP_MEMORY_POLICY = ''im-group-isolated-v1''"

definition starts_with :: "string \<Rightarrow> string \<Rightarrow> bool" where
  "starts_with prefix s \<longleftrightarrow> take (length prefix) s = prefix"

definition memory_policy_for_session_scope :: "string \<Rightarrow> string option" where
  "memory_policy_for_session_scope scope =
     (if starts_with ''direct:'' scope then Some IM_DIRECT_MEMORY_POLICY
      else if starts_with ''group:'' scope \<or> starts_with ''thread:'' scope then Some IM_GROUP_MEMORY_POLICY else None)"

record memory_record =
  mm_tenant_id :: uuid
  mm_id :: uuid
  mm_subject_id :: string
  mm_content :: string
  mm_policy_version :: string
  mm_is_valid :: bool
  mm_created_at :: timestamp
  mm_last_used_at :: "timestamp option"

record im_subject_association =
  im_tenant_id :: uuid
  im_subject_id :: string
  im_related_subject_id :: string

definition related :: "im_subject_association list \<Rightarrow> uuid \<Rightarrow> string \<Rightarrow> string \<Rightarrow> bool" where
  "related associations tenant_id a b \<longleftrightarrow>
     list_ex (\<lambda>x. im_tenant_id x = tenant_id \<and>
       (im_subject_id x = a \<and> im_related_subject_id x = b \<or> im_related_subject_id x = a \<and> im_subject_id x = b)) associations"

definition list_direct_memory ::
  "im_subject_association list \<Rightarrow> uuid \<Rightarrow> string \<Rightarrow> nat \<Rightarrow> timestamp \<Rightarrow> memory_record list \<Rightarrow> memory_record list \<times> memory_record list" where
  "list_direct_memory associations tenant_id subject_id limit now records =
     (let visible = filter (\<lambda>r. mm_tenant_id r = tenant_id \<and> mm_is_valid r \<and> mm_policy_version r = IM_DIRECT_MEMORY_POLICY \<and>
              (mm_subject_id r = subject_id \<or> related associations tenant_id subject_id (mm_subject_id r))) records;
          rows = take limit (rev (sort_key (\<lambda>r. (mm_created_at r, mm_id r)) visible))
      in (rows, update_where (\<lambda>r. mm_tenant_id r = tenant_id \<and> mm_id r \<in> mm_id ` set rows) (\<lambda>r. r\<lparr>mm_last_used_at := Some now\<rparr>) records))"

definition list_visible ::
  "im_subject_association list \<Rightarrow> uuid \<Rightarrow> string \<Rightarrow> string \<Rightarrow> int \<Rightarrow> timestamp \<Rightarrow> memory_record list
   \<Rightarrow> string + (memory_record list \<times> memory_record list)" where
  "list_visible associations tenant_id subject_id memory_policy_version limit now records =
     (if \<not> (1 \<le> limit \<and> limit \<le> 100) then Inl ''MEMORY_LIMIT_INVALID''
      else if memory_policy_version \<noteq> IM_DIRECT_MEMORY_POLICY then Inr ([], records)
      else Inr (list_direct_memory associations tenant_id subject_id (nat limit) now records))"

subsection \<open>Signatures and payload hashes\<close>

type_synonym channel_event = "(string \<times> string) list"

definition newline :: string where "newline = [char_of (10 :: nat)]"

definition fake_channel_signature :: "string \<Rightarrow> string \<Rightarrow> string \<Rightarrow> string \<Rightarrow> string option \<Rightarrow> string" where
  "fake_channel_signature material message_key text external_user_id session_key =
     ''fake:'' @ hmac_sha256_hex material
       (message_key @ newline @ text @ newline @ external_user_id @ newline @ (case session_key of Some s \<Rightarrow> s | None \<Rightarrow> []))"

definition legacy_fake_channel_signature :: "string \<Rightarrow> string \<Rightarrow> string \<Rightarrow> string \<Rightarrow> string" where
  "legacy_fake_channel_signature material message_key text external_user_id =
     ''fake:'' @ hmac_sha256_hex material (message_key @ newline @ text @ newline @ external_user_id)"

definition scope_or_direct :: "string option \<Rightarrow> string \<Rightarrow> string" where
  "scope_or_direct session_key external_user_id =
     (case session_key of Some s \<Rightarrow> if s = [] then ''direct:'' @ external_user_id else s | None \<Rightarrow> ''direct:'' @ external_user_id)"

definition inbound_payload_hash :: "string \<Rightarrow> string \<Rightarrow> string option \<Rightarrow> string" where
  "inbound_payload_hash text external_user_id session_key =
     sha256_hex (canonical_dumps (JDict [(''text'', JStr text), (''external_user_id'', JStr external_user_id),
       (''session_key'', JStr (scope_or_direct session_key external_user_id))]))"

definition legacy_inbound_payload_hash :: "string \<Rightarrow> string \<Rightarrow> string" where
  "legacy_inbound_payload_hash text external_user_id =
     sha256_hex (canonical_dumps (JDict [(''text'', JStr text), (''external_user_id'', JStr external_user_id)]))"

definition execution_message_id :: "uuid \<Rightarrow> uuid \<Rightarrow> string \<Rightarrow> string" where
  "execution_message_id tenant_id binding_id message_key =
     ''inbound-'' @ uuid5_url (''inbound:'' @ tenant_id @ ''|'' @ binding_id @ ''|'' @ message_key)"

subsection \<open>The ledger\<close>

record inbound_message =
  ib_tenant_id :: uuid
  ib_binding_id :: uuid
  ib_message_key :: string
  ib_payload_hash :: string
  ib_external_user_id :: string
  ib_execution_id :: "uuid option"
  ib_release_id :: "uuid option"
  ib_occurred_at :: timestamp

record inbound_conflict =
  ic_tenant_id :: uuid
  ic_binding_id :: uuid
  ic_message_key :: string
  ic_recorded_hash :: string
  ic_received_hash :: string
  ic_detected_at :: timestamp

type_synonym inbound_key = "uuid \<times> uuid \<times> string"

definition inbound_ledger_key :: "inbound_message \<Rightarrow> inbound_key" where
  "inbound_ledger_key m = (ib_tenant_id m, ib_binding_id m, ib_message_key m)"

record inbound_tables =
  inbound_message_rows :: "inbound_message list"
  inbound_conflict_rows :: "inbound_conflict list"

text \<open>Both stores: the database raises when the binding is gone and stamps the row with its own clock.\<close>

record 's inbound_ops =
  op_ledger_insert :: "timestamp \<Rightarrow> inbound_message \<Rightarrow> 's \<Rightarrow> sql_error + ((inbound_message \<times> bool) \<times> 's)"
  op_record_conflict :: "inbound_conflict \<Rightarrow> 's \<Rightarrow> 's"
  op_attach_execution :: "uuid \<Rightarrow> uuid \<Rightarrow> string \<Rightarrow> uuid \<Rightarrow> uuid \<Rightarrow> 's \<Rightarrow> 's"

definition mem_ledger_insert :: "inbound_message \<Rightarrow> inbound_tables \<Rightarrow> (inbound_message \<times> bool) \<times> inbound_tables" where
  "mem_ledger_insert m s =
     (case row_of inbound_ledger_key (inbound_ledger_key m) (inbound_message_rows s) of
        Some existing \<Rightarrow> ((existing, False), s)
      | None \<Rightarrow> ((m, True), s\<lparr>inbound_message_rows := inbound_message_rows s @ [m]\<rparr>))"

definition record_conflict :: "inbound_conflict \<Rightarrow> inbound_tables \<Rightarrow> inbound_tables" where
  "record_conflict c s = s\<lparr>inbound_conflict_rows := inbound_conflict_rows s @ [c]\<rparr>"

definition attach_execution :: "uuid \<Rightarrow> uuid \<Rightarrow> string \<Rightarrow> uuid \<Rightarrow> uuid \<Rightarrow> inbound_tables \<Rightarrow> inbound_tables" where
  "attach_execution tenant_id binding_id message_key execution_id release_id s =
     s\<lparr>inbound_message_rows := update_where (\<lambda>m. inbound_ledger_key m = (tenant_id, binding_id, message_key))
         (\<lambda>m. m\<lparr>ib_execution_id := Some execution_id, ib_release_id := Some release_id\<rparr>) (inbound_message_rows s)\<rparr>"

definition memory_inbound_ops :: "inbound_tables inbound_ops" where
  "memory_inbound_ops = \<lparr>op_ledger_insert = (\<lambda>_ m s. Inr (mem_ledger_insert m s)), op_record_conflict = record_conflict,
     op_attach_execution = attach_execution\<rparr>"

definition db_ledger_insert ::
  "(uuid \<times> uuid) list \<Rightarrow> timestamp \<Rightarrow> inbound_message \<Rightarrow> inbound_tables \<Rightarrow> sql_error + ((inbound_message \<times> bool) \<times> inbound_tables)" where
  "db_ledger_insert bindings now m s =
     (case row_of inbound_ledger_key (inbound_ledger_key m) (inbound_message_rows s) of
        Some existing \<Rightarrow> Inr ((existing, False), s)
      | None \<Rightarrow>
          if (ib_tenant_id m, ib_binding_id m) \<notin> set bindings then Inl IntegrityError
          else (let m' = m\<lparr>ib_occurred_at := now\<rparr> in Inr ((m', True), s\<lparr>inbound_message_rows := inbound_message_rows s @ [m']\<rparr>)))"

definition database_inbound_ops :: "(uuid \<times> uuid) list \<Rightarrow> inbound_tables inbound_ops" where
  "database_inbound_ops bindings = \<lparr>op_ledger_insert = db_ledger_insert bindings, op_record_conflict = record_conflict,
     op_attach_execution = attach_execution\<rparr>"

definition list_conflicts :: "uuid \<Rightarrow> inbound_tables \<Rightarrow> inbound_conflict list" where
  "list_conflicts tenant_id s =
     take 100 (rev (sort_key ic_detected_at (filter (\<lambda>c. ic_tenant_id c = tenant_id) (inbound_conflict_rows s))))"

subsection \<open>Routing\<close>

definition event_get :: "channel_event \<Rightarrow> string \<Rightarrow> string option" where
  "event_get event field = map_of event field"

definition event_text :: "channel_event \<Rightarrow> string \<Rightarrow> string" where
  "event_text event field = (case event_get event field of Some v \<Rightarrow> v | None \<Rightarrow> [])"

definition EVENT_FIELDS :: "string list" where
  "EVENT_FIELDS = [''channel_type'', ''external_bot_id'', ''message_key'', ''text'', ''external_user_id'']"

definition event_complete :: "channel_event \<Rightarrow> bool" where
  "event_complete event \<longleftrightarrow> list_all (\<lambda>f. event_text event f \<noteq> []) EVENT_FIELDS"

definition subject_for :: "channel_binding \<Rightarrow> string \<Rightarrow> string" where
  "subject_for b external_user_id = ''im:'' @ cb_channel_type b @ '':'' @ cb_binding_id b @ '':'' @ external_user_id"

definition event_scope :: "channel_event \<Rightarrow> string" where
  "event_scope event = (case event_get event ''session_key'' of Some s \<Rightarrow> s | None \<Rightarrow> ''direct:'' @ event_text event ''external_user_id'')"

text \<open>\<open>scope.split(":", 2)\<close> of a scope that starts with \<open>thread:\<close> has a second and a third part, neither empty.\<close>

definition thread_ok :: "string \<Rightarrow> bool" where
  "thread_ok scope \<longleftrightarrow>
     (let rest = drop 7 scope; group = takeWhile (\<lambda>c. c \<noteq> CHR '':'') rest; tail = dropWhile (\<lambda>c. c \<noteq> CHR '':'') rest
      in group \<noteq> [] \<and> tail \<noteq> [] \<and> tl tail \<noteq> [])"

definition check_scope :: "channel_event \<Rightarrow> inbound_error option" where
  "check_scope event =
     (let scope = event_scope event in
      if starts_with ''direct:'' scope
      then if scope \<noteq> ''direct:'' @ event_text event ''external_user_id'' then Some (InboundError ''SESSION_SCOPE_INVALID'') else None
      else if starts_with ''group:'' scope then if drop 6 scope = [] then Some (InboundError ''GROUP_SESSION_ID_REQUIRED'') else None
      else if starts_with ''thread:'' scope then if \<not> thread_ok scope then Some (InboundError ''GROUP_SESSION_ID_REQUIRED'') else None
      else Some (InboundError ''SESSION_SCOPE_INVALID''))"

definition session_name :: "channel_binding \<Rightarrow> string \<Rightarrow> string" where
  "session_name b scope = ''session:v1|'' @ cb_tenant_id b @ ''|'' @ cb_application_id b @ ''|'' @ cb_binding_id b @ ''|'' @ scope"

definition session_for :: "channel_binding \<Rightarrow> channel_event \<Rightarrow> inbound_error + string" where
  "session_for b event =
     (case check_scope event of Some e \<Rightarrow> Inl e | None \<Rightarrow> Inr (''session:'' @ uuid5_url (session_name b (event_scope event))))"

definition CONTEXT_KEYS :: "string list" where
  "CONTEXT_KEYS = [''channel_type'', ''external_bot_id'', ''external_user_id'', ''message_key'', ''session_key'', ''response_url'', ''chat_type'', ''chat_id'']"

definition channel_context :: "channel_binding \<Rightarrow> channel_event \<Rightarrow> (string \<times> string) list" where
  "channel_context b event =
     map (\<lambda>k. (k, event_text event k)) (filter (\<lambda>k. event_get event k \<noteq> None) CONTEXT_KEYS) @ [(''binding_id'', cb_binding_id b)]"

definition build_submission :: "string option \<Rightarrow> channel_binding \<Rightarrow> channel_event \<Rightarrow> string \<Rightarrow> inbound_error + submission" where
  "build_submission traceparent b event message_id =
     (case session_for b event of
        Inl e \<Rightarrow> Inl e
      | Inr session_id \<Rightarrow>
         (case memory_policy_for_session_scope (event_scope event) of
            None \<Rightarrow> Inl ValidationFailed
          | Some policy \<Rightarrow>
             (let sb = \<lparr>sb_tenant_id = cb_tenant_id b, sb_application_id = cb_application_id b, sb_environment = cb_environment b,
                        sb_session_id = session_id, sb_subject_id = Some (subject_for b (event_text event ''external_user_id'')),
                        sb_memory_policy_version = policy, sb_messages = [[(''role'', ''user''), (''content'', event_text event ''text'')]],
                        sb_message_id = Some message_id, sb_channel_context = Some (channel_context b event), sb_trace_parent = traceparent\<rparr>
              in if submission_ok sb then Inr sb else Inl ValidationFailed)))"

subsection \<open>Ingestion\<close>

record 's channel_state =
  ch_ledger :: 's
  ch_gateway :: gateway_tables

text \<open>
  The environment: what other transactions do before each access, the clock, the gateway's submitter
  (which identifiers and deployment it uses is its own matter) and the secret store.
\<close>

record 's channel_world =
  cw_others :: "nat \<Rightarrow> 's channel_state \<Rightarrow> 's channel_state"
  cw_now :: "nat \<Rightarrow> timestamp"
  cw_submit :: "submission \<Rightarrow> gateway_tables \<Rightarrow> (submit_error + accepted) \<times> gateway_tables"
  cw_secrets :: "string \<Rightarrow> string option"
  cw_traceparent :: "string option"

definition payload_matches :: "channel_event \<Rightarrow> inbound_message \<Rightarrow> bool" where
  "payload_matches event stored \<longleftrightarrow>
     ib_payload_hash stored = inbound_payload_hash (event_text event ''text'') (event_text event ''external_user_id'') (event_get event ''session_key'') \<or>
     event_get event ''session_key'' = None \<and>
     ib_payload_hash stored = legacy_inbound_payload_hash (event_text event ''text'') (event_text event ''external_user_id'')"

definition new_message :: "timestamp \<Rightarrow> uuid \<Rightarrow> channel_binding \<Rightarrow> channel_event \<Rightarrow> inbound_message" where
  "new_message now tenant_id b event =
     \<lparr>ib_tenant_id = tenant_id, ib_binding_id = cb_binding_id b, ib_message_key = event_text event ''message_key'',
      ib_payload_hash = inbound_payload_hash (event_text event ''text'') (event_text event ''external_user_id'') (event_get event ''session_key''),
      ib_external_user_id = event_text event ''external_user_id'', ib_execution_id = None, ib_release_id = None, ib_occurred_at = now\<rparr>"

text \<open>Submission of a message the ledger has, and the note of its execution.\<close>

definition route_message ::
  "'s inbound_ops \<Rightarrow> 's channel_world \<Rightarrow> uuid \<Rightarrow> channel_binding \<Rightarrow> channel_event \<Rightarrow> 's channel_state
   \<Rightarrow> (inbound_error + accepted) \<times> 's channel_state" where
  "route_message ops w tenant_id b event st =
     (case build_submission (cw_traceparent w) b event (execution_message_id tenant_id (cb_binding_id b) (event_text event ''message_key'')) of
        Inl e \<Rightarrow> (Inl e, st)
      | Inr sb \<Rightarrow>
         (let st1 = cw_others w 1 st in
          case cw_submit w sb (ch_gateway st1) of
            (Inl e, g) \<Rightarrow> (Inl (SubmitFailed e), st1\<lparr>ch_gateway := g\<rparr>)
          | (Inr a, g) \<Rightarrow>
             (let st2 = cw_others w 2 (st1\<lparr>ch_gateway := g\<rparr>) in
              (Inr a, st2\<lparr>ch_ledger := op_attach_execution ops tenant_id (cb_binding_id b) (event_text event ''message_key'')
                   (ea_execution_id a) (ea_release_id a) (ch_ledger st2)\<rparr>))))"

definition ingest_bound ::
  "'s inbound_ops \<Rightarrow> 's channel_world \<Rightarrow> uuid \<Rightarrow> channel_binding \<Rightarrow> channel_event \<Rightarrow> 's channel_state
   \<Rightarrow> (inbound_error + accepted) \<times> 's channel_state" where
  "ingest_bound ops w tenant_id b event st =
     (let message = new_message (cw_now w 0) tenant_id b event in
      if \<not> (length_within 1 256 (ib_message_key message) \<and> length_within 1 128 (ib_external_user_id message)) then (Inl ValidationFailed, st)
      else case op_ledger_insert ops (cw_now w 1) message (ch_ledger st) of
        Inl e \<Rightarrow> (Inl (LedgerError e), st)
      | Inr ((stored, created), l) \<Rightarrow>
         (let st1 = st\<lparr>ch_ledger := l\<rparr> in
          case (created, payload_matches event stored, ib_execution_id stored, ib_release_id stored) of
            (False, True, Some x, Some r) \<Rightarrow>
              (case session_for b event of
                 Inl e \<Rightarrow> (Inl e, st1)
               | Inr session_id \<Rightarrow> (Inr \<lparr>ea_execution_id = x, ea_release_id = r, ea_session_id = session_id, ea_deduplicated = True\<rparr>, st1))
          | (False, False, _, _) \<Rightarrow>
              (let st2 = cw_others w 1 st1 in
               (Inl (InboundError ''INBOUND_PAYLOAD_CONFLICT''),
                st2\<lparr>ch_ledger := op_record_conflict ops
                  \<lparr>ic_tenant_id = tenant_id, ic_binding_id = cb_binding_id b, ic_message_key = event_text event ''message_key'',
                   ic_recorded_hash = ib_payload_hash stored, ic_received_hash = ib_payload_hash message, ic_detected_at = cw_now w 2\<rparr> (ch_ledger st2)\<rparr>))
          | _ \<Rightarrow> route_message ops w tenant_id b event st1))"

definition ingest_verified ::
  "'s inbound_ops \<Rightarrow> 's channel_world \<Rightarrow> channel_binding list \<Rightarrow> uuid \<Rightarrow> channel_event \<Rightarrow> 's channel_state
   \<Rightarrow> (inbound_error + accepted) \<times> 's channel_state" where
  "ingest_verified ops w bindings tenant_id event st =
     (if \<not> event_complete event then (Inl (InboundError ''EVENT_INVALID''), st)
      else case binding_resolve tenant_id (event_text event ''channel_type'') (event_text event ''external_bot_id'') bindings of
        None \<Rightarrow> (Inl (InboundError ''BINDING_NOT_FOUND''), st)
      | Some b \<Rightarrow> ingest_bound ops w tenant_id b event (cw_others w 0 st))"

definition signature_valid :: "string \<Rightarrow> channel_event \<Rightarrow> bool" where
  "signature_valid material event \<longleftrightarrow>
     event_text event ''signature'' = fake_channel_signature material (event_text event ''message_key'') (event_text event ''text'')
       (event_text event ''external_user_id'') (event_get event ''session_key'') \<or>
     event_get event ''session_key'' = None \<and>
     event_text event ''signature'' = legacy_fake_channel_signature material (event_text event ''message_key'') (event_text event ''text'')
       (event_text event ''external_user_id'')"

definition ingest ::
  "'s inbound_ops \<Rightarrow> 's channel_world \<Rightarrow> channel_binding list \<Rightarrow> uuid \<Rightarrow> channel_event \<Rightarrow> 's channel_state
   \<Rightarrow> (inbound_error + accepted) \<times> 's channel_state" where
  "ingest ops w bindings tenant_id event st =
     (if \<not> event_complete event then (Inl (InboundError ''EVENT_INVALID''), st)
      else case binding_resolve tenant_id (event_text event ''channel_type'') (event_text event ''external_bot_id'') bindings of
        None \<Rightarrow> (Inl (InboundError ''BINDING_NOT_FOUND''), st)
      | Some b \<Rightarrow>
         (case cw_secrets w (cb_secret_ref b) of
            None \<Rightarrow> (Inl SecretUnresolved, st)
          | Some material \<Rightarrow>
              if \<not> signature_valid material event then (Inl (InboundError ''SIGNATURE_INVALID''), st)
              else ingest_verified ops w bindings tenant_id event st))"

definition signed_event ::
  "'s channel_world \<Rightarrow> channel_binding list \<Rightarrow> uuid \<Rightarrow> string \<Rightarrow> string \<Rightarrow> string \<Rightarrow> string \<Rightarrow> string \<Rightarrow> string option
   \<Rightarrow> inbound_error + channel_event" where
  "signed_event w bindings tenant_id channel_type external_bot_id message_key text external_user_id session_key =
     (case binding_resolve tenant_id channel_type external_bot_id bindings of
        None \<Rightarrow> Inl (InboundError ''BINDING_NOT_FOUND'')
      | Some b \<Rightarrow>
         (case cw_secrets w (cb_secret_ref b) of
            None \<Rightarrow> Inl SecretUnresolved
          | Some material \<Rightarrow>
              Inr ([(''channel_type'', channel_type), (''external_bot_id'', external_bot_id), (''message_key'', message_key), (''text'', text),
                    (''external_user_id'', external_user_id),
                    (''signature'', fake_channel_signature material message_key text external_user_id session_key)] @
                   (case session_key of None \<Rightarrow> [] | Some s \<Rightarrow> [(''session_key'', s)]))))"

subsection \<open>What a ledger promises\<close>

type_synonym ledger_view = "inbound_key \<Rightarrow> inbound_message option"

definition attached :: "uuid \<Rightarrow> uuid \<Rightarrow> inbound_message \<Rightarrow> inbound_message" where
  "attached x r m = m\<lparr>ib_execution_id := Some x, ib_release_id := Some r\<rparr>"

locale inbound_ledger =
  fixes ops :: "'s inbound_ops"
    and wf :: "'s \<Rightarrow> bool"
    and view :: "'s \<Rightarrow> ledger_view"
  assumes insert_known: "wf s \<Longrightarrow> view s (inbound_ledger_key m) = Some q \<Longrightarrow> op_ledger_insert ops now m s = Inr ((q, False), s)"
    and insert_new: "wf s \<Longrightarrow> view s (inbound_ledger_key m) = None \<Longrightarrow> op_ledger_insert ops now m s = Inr ((q, c), s') \<Longrightarrow>
      c \<and> wf s' \<and> view s' = (view s)(inbound_ledger_key m \<mapsto> q) \<and> ib_payload_hash q = ib_payload_hash m \<and> ib_execution_id q = ib_execution_id m"
    and attach_view: "wf s \<Longrightarrow> wf (op_attach_execution ops t b k x r s) \<and>
      view (op_attach_execution ops t b k x r s) = (view s)((t, b, k) := map_option (attached x r) (view s (t, b, k)))"
    and conflict_view: "wf s \<Longrightarrow> wf (op_record_conflict ops cf s) \<and> view (op_record_conflict ops cf s) = view s"

text \<open>
  Ledger and gateway together: an execution noted in the ledger is the gateway's execution of that message.
  Rows of the ledger keep their payload, executions stay.
\<close>

definition message_of :: "inbound_key \<Rightarrow> string" where
  "message_of k = (case k of (t, b, mk) \<Rightarrow> execution_message_id t b mk)"

definition linked :: "('s \<Rightarrow> bool) \<Rightarrow> ('s \<Rightarrow> ledger_view) \<Rightarrow> 's channel_state \<Rightarrow> bool" where
  "linked ok_ledger view st \<longleftrightarrow> ok_ledger (ch_ledger st) \<and> executions_unique (ch_gateway st) \<and>
     (\<forall>k q x. view (ch_ledger st) k = Some q \<longrightarrow> ib_execution_id q = Some x \<longrightarrow> (\<exists>h. names_execution (fst k) (message_of k) x h (ch_gateway st)))"

definition advances :: "('s \<Rightarrow> ledger_view) \<Rightarrow> 's channel_state \<Rightarrow> 's channel_state \<Rightarrow> bool" where
  "advances view st st' \<longleftrightarrow> executions_kept (ch_gateway st) (ch_gateway st') \<and>
     (\<forall>k q. view (ch_ledger st) k = Some q \<longrightarrow> (\<exists>q'. view (ch_ledger st') k = Some q' \<and> ib_payload_hash q' = ib_payload_hash q))"

definition good_submitter :: "(submission \<Rightarrow> gateway_tables \<Rightarrow> (submit_error + accepted) \<times> gateway_tables) \<Rightarrow> bool" where
  "good_submitter sub \<longleftrightarrow> (\<forall>sb g res g' m. executions_unique g \<longrightarrow> sub sb g = (res, g') \<longrightarrow> sb_message_id sb = Some m \<longrightarrow> m \<noteq> [] \<longrightarrow>
     executions_unique g' \<and> executions_kept g g' \<and>
     (\<forall>a. res = Inr a \<longrightarrow> names_execution (sb_tenant_id sb) m (ea_execution_id a) (payload_hash sb) g'))"

definition fair_world :: "('s \<Rightarrow> bool) \<Rightarrow> ('s \<Rightarrow> ledger_view) \<Rightarrow> 's channel_world \<Rightarrow> bool" where
  "fair_world ok_ledger view w \<longleftrightarrow> good_submitter (cw_submit w) \<and>
     (\<forall>n st. linked ok_ledger view st \<longrightarrow> linked ok_ledger view (cw_others w n st) \<and> advances view st (cw_others w n st))"

text \<open>The Agent Gateway is such a submitter.\<close>

lemma gateway_good_submitter:
  assumes "\<And>db. executions_unique db \<Longrightarrow> fair_others others db"
  shows "good_submitter (submit uuid_ok query routes policy ids now others)"
  unfolding good_submitter_def
proof (intro allI impI)
  fix sb g res g' m
  assume a: "executions_unique g" "submit uuid_ok query routes policy ids now others sb g = (res, g')" "sb_message_id sb = Some m" "m \<noteq> []"
  note e = submit_effect [OF a(2,1) assms [OF a(1)]]
  have "message_id_of ids sb = m" using a(3,4) by (simp add: message_id_of_def)
  then show "executions_unique g' \<and> executions_kept g g' \<and> (\<forall>a. res = Inr a \<longrightarrow> names_execution (sb_tenant_id sb) m (ea_execution_id a) (payload_hash sb) g')"
    using e(1-3) by simp
qed

lemma advances_refl [simp]: "advances view st st"
  by (simp add: advances_def)

lemma advancesD:
  "advances view st st' \<Longrightarrow> view (ch_ledger st) k = Some q \<Longrightarrow> \<exists>q'. view (ch_ledger st') k = Some q' \<and> ib_payload_hash q' = ib_payload_hash q"
  unfolding advances_def by blast

lemma advances_trans: "advances view a b \<Longrightarrow> advances view b c \<Longrightarrow> advances view a c"
  unfolding advances_def using executions_kept_trans by fastforce

lemma names_execution_unique:
  assumes "executions_unique g" "names_execution t m x h g" "names_execution t m x' h' g"
  shows "x = x'"
  using names_execution_row [OF assms(1,2)] names_execution_row [OF assms(1,3)] by auto

context inbound_ledger
begin

abbreviation ok :: "'s channel_state \<Rightarrow> bool" where "ok \<equiv> linked wf view"

abbreviation adv :: "'s channel_state \<Rightarrow> 's channel_state \<Rightarrow> bool" where "adv \<equiv> advances view"

lemma others_fair: "fair_world wf view w \<Longrightarrow> ok st \<Longrightarrow> ok (cw_others w n st) \<and> adv st (cw_others w n st)"
  by (auto simp: fair_world_def)

lemma gateway_step:
  assumes "ok st" "executions_unique g" "executions_kept (ch_gateway st) g"
  shows "ok (st\<lparr>ch_gateway := g\<rparr>)" "adv st (st\<lparr>ch_gateway := g\<rparr>)"
proof -
  have "\<And>k q x. view (ch_ledger st) k = Some q \<Longrightarrow> ib_execution_id q = Some x \<Longrightarrow> \<exists>h. names_execution (fst k) (message_of k) x h g"
    using assms(1) names_execution_kept [OF _ assms(3)] unfolding linked_def by blast
  then show "ok (st\<lparr>ch_gateway := g\<rparr>)" using assms(1,2) by (simp add: linked_def)
  show "adv st (st\<lparr>ch_gateway := g\<rparr>)" using assms(3) by (simp add: advances_def)
qed

lemma attach_step:
  assumes "ok st" "names_execution t (execution_message_id t b k) x h (ch_gateway st)"
  shows "ok (st\<lparr>ch_ledger := op_attach_execution ops t b k x r (ch_ledger st)\<rparr>)" "adv st (st\<lparr>ch_ledger := op_attach_execution ops t b k x r (ch_ledger st)\<rparr>)"
  using assms attach_view [of "ch_ledger st" t b k x r]
  by (auto simp: linked_def advances_def attached_def message_of_def split: if_splits)

lemma insert_step:
  assumes "ok st" "op_ledger_insert ops now m (ch_ledger st) = Inr ((q, c), l)" "ib_execution_id m = None"
  shows "ok (st\<lparr>ch_ledger := l\<rparr>)" "adv st (st\<lparr>ch_ledger := l\<rparr>)" "view l (inbound_ledger_key m) = Some q" "c \<Longrightarrow> ib_payload_hash q = ib_payload_hash m"
proof -
  have wf: "wf (ch_ledger st)" using assms(1) by (simp add: linked_def)
  have "(ok (st\<lparr>ch_ledger := l\<rparr>) \<and> adv st (st\<lparr>ch_ledger := l\<rparr>)) \<and> view l (inbound_ledger_key m) = Some q \<and> (c \<longrightarrow> ib_payload_hash q = ib_payload_hash m)"
  proof (cases "view (ch_ledger st) (inbound_ledger_key m)")
    case None
    then show ?thesis using insert_new [OF wf None assms(2)] assms(1,3) by (auto simp: linked_def advances_def)
  next
    case (Some q0)
    then show ?thesis using insert_known [OF wf Some, of now] assms(1,2) by auto
  qed
  then show "ok (st\<lparr>ch_ledger := l\<rparr>)" "adv st (st\<lparr>ch_ledger := l\<rparr>)" "view l (inbound_ledger_key m) = Some q" "c \<Longrightarrow> ib_payload_hash q = ib_payload_hash m"
    by blast+
qed

lemma build_submission_fields:
  assumes "build_submission tp b event m = Inr sb"
  shows "sb_tenant_id sb = cb_tenant_id b" "sb_message_id sb = Some m"
  using assms by (auto simp: build_submission_def Let_def split: sum.splits option.splits if_splits)

lemma route_effect:
  assumes "fair_world wf view w" "ok st" "cb_tenant_id b = t"
    and "route_message ops w t b event st = (res, st')"
  shows "ok st' \<and> adv st st' \<and> (\<forall>a. res = Inr a \<longrightarrow>
    (\<exists>h. names_execution t (execution_message_id t (cb_binding_id b) (event_text event ''message_key'')) (ea_execution_id a) h (ch_gateway st')))"
proof (cases "build_submission (cw_traceparent w) b event (execution_message_id t (cb_binding_id b) (event_text event ''message_key''))")
  case (Inl e)
  then show ?thesis using assms(2,4) by (auto simp: route_message_def)
next
  case (Inr sb)
  let ?m = "execution_message_id t (cb_binding_id b) (event_text event ''message_key'')" and ?st1 = "cw_others w 1 st"
  have f: "sb_tenant_id sb = t" "sb_message_id sb = Some ?m" "?m \<noteq> []"
    using build_submission_fields [OF Inr] assms(3) by (simp_all add: execution_message_id_def)
  have o1: "ok ?st1" "adv st ?st1" using others_fair [OF assms(1,2), of 1] by auto
  obtain x g where x: "cw_submit w sb (ch_gateway ?st1) = (x, g)" by fastforce
  have u1: "executions_unique (ch_gateway ?st1)" using o1(1) by (simp add: linked_def)
  have g: "executions_unique g" "executions_kept (ch_gateway ?st1) g" "\<forall>a. x = Inr a \<longrightarrow> names_execution t ?m (ea_execution_id a) (payload_hash sb) g"
    using assms(1) u1 x f unfolding fair_world_def good_submitter_def by metis+
  let ?st2 = "?st1\<lparr>ch_gateway := g\<rparr>" and ?st3 = "cw_others w 2 (?st1\<lparr>ch_gateway := g\<rparr>)"
  note g2 = gateway_step [OF o1(1) g(1,2)]
  have o3: "ok ?st3" "adv ?st2 ?st3" using others_fair [OF assms(1) g2(1), of 2] by auto
  show ?thesis
  proof (cases x)
    case (Inl e)
    then show ?thesis using assms(4) Inr x g2 advances_trans [OF o1(2) g2(2)] by (auto simp: route_message_def)
  next
    case (Inr a)
    have n: "names_execution t ?m (ea_execution_id a) (payload_hash sb) (ch_gateway ?st3)"
      using g(3) Inr names_execution_kept [of t ?m "ea_execution_id a" "payload_hash sb" g] o3(2) by (simp add: advances_def)
    let ?st4 = "?st3\<lparr>ch_ledger := op_attach_execution ops t (cb_binding_id b) (event_text event ''message_key'') (ea_execution_id a) (ea_release_id a) (ch_ledger ?st3)\<rparr>"
    note a4 = attach_step [OF o3(1) n, of "ea_release_id a"]
    have r: "res = Inr a" "st' = ?st4"
      using assms(4) \<open>build_submission _ _ _ _ = Inr sb\<close> x Inr by (auto simp: route_message_def Let_def)
    have "adv st ?st4" using advances_trans [OF advances_trans [OF advances_trans [OF o1(2) g2(2)] o3(2)] a4(2)] .
    then show ?thesis using r a4(1) n by auto
  qed
qed

lemma ingest_effect:
  assumes "fair_world wf view w" "ok st" "cb_tenant_id b = t" "ingest_bound ops w t b event st = (res, st')"
  shows "ok st' \<and> adv st st' \<and> (\<forall>a. res = Inr a \<longrightarrow>
    (\<exists>h. names_execution t (execution_message_id t (cb_binding_id b) (event_text event ''message_key'')) (ea_execution_id a) h (ch_gateway st')) \<and>
    (\<exists>q. view (ch_ledger st') (t, cb_binding_id b, event_text event ''message_key'') = Some q \<and> payload_matches event q))"
proof -
  let ?m = "new_message (cw_now w 0) t b event" and ?k = "(t, cb_binding_id b, event_text event ''message_key'')"
  have k: "inbound_ledger_key ?m = ?k" "ib_execution_id ?m = None" by (simp_all add: new_message_def inbound_ledger_key_def)
  show ?thesis
  proof (cases "op_ledger_insert ops (cw_now w 1) ?m (ch_ledger st)")
    case (Inl e)
    then show ?thesis using assms(2,4) by (auto simp: ingest_bound_def Let_def split: if_splits)
  next
    case (Inr y)
    obtain q c l where y: "y = ((q, c), l)" by (metis surj_pair)
    let ?st1 = "st\<lparr>ch_ledger := l\<rparr>"
    note i = insert_step [OF assms(2) Inr [unfolded y] k(2)]
    have mt: "c \<Longrightarrow> payload_matches event q" using i(4) by (simp add: payload_matches_def new_message_def)
    consider (invalid) "res = Inl ValidationFailed" "st' = st"
      | (hit) x r e where "payload_matches event q" "ib_execution_id q = Some x" "st' = ?st1" "res = Inl e \<or> (\<exists>s. res = Inr \<lparr>ea_execution_id = x, ea_release_id = r, ea_session_id = s, ea_deduplicated = True\<rparr>)"
      | (conflict) e cf where "res = Inl e" "st' = (cw_others w 1 ?st1)\<lparr>ch_ledger := op_record_conflict ops cf (ch_ledger (cw_others w 1 ?st1))\<rparr>"
      | (route) "payload_matches event q" "route_message ops w t b event ?st1 = (res, st')"
      using assms(4) Inr y mt
      by (auto simp: ingest_bound_def Let_def split: if_splits sum.splits bool.splits option.splits)
    then show ?thesis
    proof cases
      case invalid
      then show ?thesis using assms(2) by simp
    next
      case (hit x r e)
      have "\<exists>h. names_execution t (execution_message_id t (cb_binding_id b) (event_text event ''message_key'')) x h (ch_gateway ?st1)"
        using i(1,3) hit(2) k(1) unfolding linked_def message_of_def by fastforce
      then show ?thesis using hit i k(1) by auto
    next
      case (conflict e cf)
      have o: "ok (cw_others w 1 ?st1)" "adv ?st1 (cw_others w 1 ?st1)" using others_fair [OF assms(1) i(1), of 1] by auto
      have "ok st' \<and> adv (cw_others w 1 ?st1) st'"
        using o(1) conflict_view [of "ch_ledger (cw_others w 1 ?st1)" cf] unfolding conflict(2) by (auto simp: linked_def advances_def)
      then show ?thesis using conflict(1) advances_trans [OF advances_trans [OF i(2) o(2)]] by auto
    next
      case route
      note r = route_effect [OF assms(1) i(1) assms(3) route(2)]
      obtain q' where "view (ch_ledger st') ?k = Some q'" "ib_payload_hash q' = ib_payload_hash q"
        using r i(3) k(1) advancesD [of view ?st1 st' ?k q] by auto
      then show ?thesis using r route(1) advances_trans [OF i(2), of st'] by (auto simp: payload_matches_def)
    qed
  qed
qed

end

subsection \<open>The two stores\<close>

definition ledger_ok :: "inbound_tables \<Rightarrow> bool" where
  "ledger_ok s \<longleftrightarrow> unique_key inbound_ledger_key (inbound_message_rows s)"

definition ledger_rows :: "inbound_tables \<Rightarrow> ledger_view" where
  "ledger_rows s k = row_of inbound_ledger_key k (inbound_message_rows s)"

lemma ledger_append:
  assumes "ledger_ok s" "ledger_rows s (inbound_ledger_key m) = None" "inbound_ledger_key m' = inbound_ledger_key m"
  shows "ledger_ok (s\<lparr>inbound_message_rows := inbound_message_rows s @ [m']\<rparr>)"
    "ledger_rows (s\<lparr>inbound_message_rows := inbound_message_rows s @ [m']\<rparr>) = (ledger_rows s)(inbound_ledger_key m \<mapsto> m')"
proof -
  let ?rows = "inbound_message_rows s"
  have none: "row_of inbound_ledger_key (inbound_ledger_key m) ?rows = None" using assms(2) by (simp add: ledger_rows_def)
  show "ledger_ok (s\<lparr>inbound_message_rows := ?rows @ [m']\<rparr>)"
    using assms(1,3) none by (simp add: ledger_ok_def unique_key_append row_of_None_iff)
  have "row_of inbound_ledger_key k (?rows @ [m']) = ((ledger_rows s)(inbound_ledger_key m \<mapsto> m')) k" for k
    using none assms(3) by (cases "row_of inbound_ledger_key k ?rows") (auto simp: ledger_rows_def row_of_append row_of_Cons row_of_Nil)
  then show "ledger_rows (s\<lparr>inbound_message_rows := ?rows @ [m']\<rparr>) = (ledger_rows s)(inbound_ledger_key m \<mapsto> m')"
    by (intro ext) (simp add: ledger_rows_def)
qed

lemma ledger_attach:
  assumes "ledger_ok s"
  shows "ledger_ok (attach_execution t b k x r s)"
    "ledger_rows (attach_execution t b k x r s) = (ledger_rows s)((t, b, k) := map_option (attached x r) (ledger_rows s (t, b, k)))"
proof -
  have key: "inbound_ledger_key (m\<lparr>ib_execution_id := Some x, ib_release_id := Some r\<rparr>) = inbound_ledger_key m" for m by (simp add: inbound_ledger_key_def)
  show "ledger_ok (attach_execution t b k x r s)" using assms by (simp add: ledger_ok_def attach_execution_def unique_key_update_where key)
  have "ledger_rows (attach_execution t b k x r s) k' = ((ledger_rows s)((t, b, k) := map_option (attached x r) (ledger_rows s (t, b, k)))) k'" for k'
    using row_of_SomeD [of inbound_ledger_key k' "inbound_message_rows s"]
    by (cases "row_of inbound_ledger_key k' (inbound_message_rows s)")
      (auto simp: ledger_rows_def attach_execution_def row_of_update_where key attached_def)
  then show "ledger_rows (attach_execution t b k x r s) = (ledger_rows s)((t, b, k) := map_option (attached x r) (ledger_rows s (t, b, k)))" by blast
qed

lemma ledger_conflict: "ledger_ok s \<Longrightarrow> ledger_ok (record_conflict c s) \<and> ledger_rows (record_conflict c s) = ledger_rows s"
  by (auto simp: ledger_ok_def ledger_rows_def record_conflict_def)

interpretation mil: inbound_ledger memory_inbound_ops ledger_ok ledger_rows
proof (unfold_locales, goal_cases)
  case (1 s m q now)
  then show ?case by (simp add: memory_inbound_ops_def mem_ledger_insert_def ledger_rows_def)
next
  case (2 s m now q c s')
  then show ?case using ledger_append [OF 2(1,2), of m] by (auto simp: memory_inbound_ops_def mem_ledger_insert_def ledger_rows_def)
next
  case (3 s t b k x r)
  then show ?case using ledger_attach [OF 3] by (simp add: memory_inbound_ops_def)
next
  case (4 s cf)
  then show ?case using ledger_conflict [OF 4] by (simp add: memory_inbound_ops_def)
qed

interpretation dil: inbound_ledger "database_inbound_ops bindings" ledger_ok ledger_rows
proof (unfold_locales, goal_cases)
  case (1 s m q now)
  then show ?case by (simp add: database_inbound_ops_def db_ledger_insert_def ledger_rows_def)
next
  case (2 s m now q c s')
  have "inbound_ledger_key (m\<lparr>ib_occurred_at := now\<rparr>) = inbound_ledger_key m" by (simp add: inbound_ledger_key_def)
  from ledger_append [OF 2(1,2) this] show ?case using 2(2,3)
    by (auto simp: database_inbound_ops_def db_ledger_insert_def ledger_rows_def Let_def split: if_splits)
next
  case (3 s t b k x r)
  then show ?case using ledger_attach [OF 3] by (simp add: database_inbound_ops_def)
next
  case (4 s cf)
  then show ?case using ledger_conflict [OF 4] by (simp add: database_inbound_ops_def)
qed

subsection \<open>A message is executed once\<close>

lemma binding_resolve_key:
  "binding_resolve t ty bot_id bs = Some b \<Longrightarrow> cb_tenant_id b = t \<and> b \<in> set bs \<and> cb_channel_type b = ty \<and> cb_external_bot_id b = bot_id"
  using row_of_SomeD [of route_key "(t, ty, bot_id)" bs] by (auto simp: binding_resolve_def route_key_def split: option.splits if_splits)

lemma ingest_accepted:
  assumes "fair_world ledger_ok ledger_rows w" "linked ledger_ok ledger_rows st"
    and "ingest_verified (database_inbound_ops keys) w bs t event st = (Inr a, st')"
  shows "\<exists>b h q. binding_resolve t (event_text event ''channel_type'') (event_text event ''external_bot_id'') bs = Some b \<and>
    linked ledger_ok ledger_rows st' \<and> advances ledger_rows st st' \<and>
    names_execution t (execution_message_id t (cb_binding_id b) (event_text event ''message_key'')) (ea_execution_id a) h (ch_gateway st') \<and>
    ledger_rows (ch_ledger st') (t, cb_binding_id b, event_text event ''message_key'') = Some q \<and> payload_matches event q"
proof -
  obtain b where b: "binding_resolve t (event_text event ''channel_type'') (event_text event ''external_bot_id'') bs = Some b"
    "ingest_bound (database_inbound_ops keys) w t b event (cw_others w 0 st) = (Inr a, st')"
    using assms(3) by (auto simp: ingest_verified_def split: if_splits option.splits)
  have o: "linked ledger_ok ledger_rows (cw_others w 0 st)" "advances ledger_rows st (cw_others w 0 st)"
    using assms(1,2) by (auto simp: fair_world_def)
  have t: "cb_tenant_id b = t" using binding_resolve_key [OF b(1)] by simp
  from dil.ingest_effect [OF assms(1) o(1) t b(2)] obtain h q where
    "linked ledger_ok ledger_rows st'" "advances ledger_rows (cw_others w 0 st) st'"
    "names_execution t (execution_message_id t (cb_binding_id b) (event_text event ''message_key'')) (ea_execution_id a) h (ch_gateway st')"
    "ledger_rows (ch_ledger st') (t, cb_binding_id b, event_text event ''message_key'') = Some q" "payload_matches event q"
    by blast
  then show ?thesis using b(1) advances_trans [OF o(2)] by blast
qed

text \<open>
  C5: A channel message leads to one execution, however often it is delivered. Take two deliveries to the
  database-backed service that reach the same binding with the same message key, each interleaved with
  arbitrary fair transactions of others, crashed deliveries included, and with any such transactions
  between them. If both are accepted, they are answered with the same execution, and both payloads match
  the one hash the ledger recorded for the message.
\<close>

theorem inbound_message_once:
  assumes "fair_world ledger_ok ledger_rows w" "fair_world ledger_ok ledger_rows w'" "linked ledger_ok ledger_rows st"
    and "ingest_verified (database_inbound_ops keys) w bs t event st = (Inr a, st1)"
    and "linked ledger_ok ledger_rows st2" "advances ledger_rows st1 st2"
    and "ingest_verified (database_inbound_ops keys') w' bs' t event' st2 = (Inr a', st3)"
    and "binding_resolve t (event_text event ''channel_type'') (event_text event ''external_bot_id'') bs = Some b"
    and "binding_resolve t (event_text event' ''channel_type'') (event_text event' ''external_bot_id'') bs' = Some b'"
    and "cb_binding_id b' = cb_binding_id b" "event_text event' ''message_key'' = event_text event ''message_key''"
  shows "ea_execution_id a' = ea_execution_id a \<and>
    (\<exists>q. ledger_rows (ch_ledger st3) (t, cb_binding_id b, event_text event ''message_key'') = Some q \<and> payload_matches event q \<and> payload_matches event' q)"
proof -
  let ?m = "execution_message_id t (cb_binding_id b) (event_text event ''message_key'')"
  let ?k = "(t, cb_binding_id b, event_text event ''message_key'')"
  obtain h q where first: "names_execution t ?m (ea_execution_id a) h (ch_gateway st1)" "ledger_rows (ch_ledger st1) ?k = Some q" "payload_matches event q"
    using ingest_accepted [OF assms(1,3,4)] assms(8) by auto
  obtain h' q' where second: "linked ledger_ok ledger_rows st3" "advances ledger_rows st2 st3"
    "names_execution t ?m (ea_execution_id a') h' (ch_gateway st3)" "ledger_rows (ch_ledger st3) ?k = Some q'" "payload_matches event' q'"
    using ingest_accepted [OF assms(2,5,7)] assms(9-11) by auto
  have adv: "advances ledger_rows st1 st3" using advances_trans [OF assms(6) second(2)] .
  have "names_execution t ?m (ea_execution_id a) h (ch_gateway st3)" using names_execution_kept [OF first(1)] adv by (simp add: advances_def)
  then have x: "ea_execution_id a' = ea_execution_id a"
    using names_execution_unique [OF _ second(3)] second(1) by (simp add: linked_def)
  have "ib_payload_hash q' = ib_payload_hash q" using advancesD [OF adv first(2)] second(4) by auto
  then have "payload_matches event q'" using first(3) by (simp add: payload_matches_def)
  then show ?thesis using x second(4,5) by blast
qed

text \<open>A message delivered twice.\<close>

definition sample_binding :: channel_binding where
  "sample_binding = \<lparr>cb_tenant_id = ''t'', cb_binding_id = ''b'', cb_channel_type = ''FAKE'', cb_external_bot_id = ''bot'', cb_application_id = ''app'',
     cb_environment = ''STAGING'', cb_secret_ref = ''vault://a#b'', cb_status = Cb_active\<rparr>"

definition sample_event :: channel_event where
  "sample_event = [(''channel_type'', ''FAKE''), (''external_bot_id'', ''bot''), (''message_key'', ''k''), (''text'', ''hi''), (''external_user_id'', ''u'')]"

definition plain_submit :: "submission \<Rightarrow> gateway_tables \<Rightarrow> (submit_error + accepted) \<times> gateway_tables" where
  "plain_submit sb = submit (\<lambda>_. True) (\<lambda>_ _ _. Inr (Some \<lparr>dr_release_id = ''r'', dr_previous_release_id = None, dr_rollout_percentage = 100\<rparr>))
     (\<lambda>_. None) default_policy (\<lambda>n. replicate n CHR ''x'') 5 (\<lambda>db. db) sb"

definition plain_world :: "inbound_tables channel_world" where
  "plain_world = \<lparr>cw_others = (\<lambda>_ st. st), cw_now = int, cw_submit = plain_submit, cw_secrets = Some, cw_traceparent = None\<rparr>"

definition fresh_channel :: "inbound_tables channel_state" where
  "fresh_channel = \<lparr>ch_ledger = \<lparr>inbound_message_rows = [], inbound_conflict_rows = []\<rparr>, ch_gateway = open_gateway\<rparr>"

definition sample_ingest :: "inbound_tables channel_state \<Rightarrow> (inbound_error + accepted) \<times> inbound_tables channel_state" where
  "sample_ingest st = ingest_verified (database_inbound_ops [(''t'', ''b'')]) plain_world [sample_binding] ''t'' sample_event st"

definition sample_message_id :: "string" where
  "sample_message_id = execution_message_id ''t'' ''b'' ''k''"

definition sample_session_name :: "string" where
  "sample_session_name = ''session:'' @ uuid5_url (session_name sample_binding ''direct:u'')"

definition sample_inbound :: submission where
  "sample_inbound = \<lparr>sb_tenant_id = ''t'', sb_application_id = ''app'', sb_environment = ''STAGING'', sb_session_id = sample_session_name,
     sb_subject_id = Some ''im:FAKE:b:u'', sb_memory_policy_version = IM_DIRECT_MEMORY_POLICY,
     sb_messages = [[(''role'', ''user''), (''content'', ''hi'')]], sb_message_id = Some sample_message_id,
     sb_channel_context = Some [(''channel_type'', ''FAKE''), (''external_bot_id'', ''bot''), (''external_user_id'', ''u''), (''message_key'', ''k''),
       (''binding_id'', ''b'')], sb_trace_parent = None\<rparr>"

lemma sample_lengths: "length sample_message_id = 44" "length sample_session_name = 44"
  by (simp_all add: sample_message_id_def execution_message_id_def sample_session_name_def length_uuid5)

lemma sample_event_simps [simp]:
  "event_text sample_event ''channel_type'' = ''FAKE''" "event_text sample_event ''external_bot_id'' = ''bot''"
  "event_text sample_event ''message_key'' = ''k''" "event_text sample_event ''text'' = ''hi''"
  "event_text sample_event ''external_user_id'' = ''u''" "event_get sample_event ''session_key'' = None"
  "event_scope sample_event = ''direct:u''" "event_complete sample_event"
  by (simp_all add: event_text_def event_get_def sample_event_def event_scope_def event_complete_def EVENT_FIELDS_def)

lemma sample_build: "build_submission None sample_binding sample_event sample_message_id = Inr sample_inbound"
proof -
  have c: "check_scope sample_event = None" by (simp add: check_scope_def starts_with_def)
  have x: "channel_context sample_binding sample_event =
      [(''channel_type'', ''FAKE''), (''external_bot_id'', ''bot''), (''external_user_id'', ''u''), (''message_key'', ''k''), (''binding_id'', ''b'')]"
    by (simp add: channel_context_def CONTEXT_KEYS_def event_get_def event_text_def sample_event_def sample_binding_def)
  have p: "memory_policy_for_session_scope ''direct:u'' = Some IM_DIRECT_MEMORY_POLICY" by (simp add: memory_policy_for_session_scope_def starts_with_def)
  have s: "session_for sample_binding sample_event = Inr sample_session_name" by (simp add: session_for_def c sample_session_name_def)
  have ok: "submission_ok sample_inbound"
    by (simp add: submission_ok_def sample_inbound_def length_within_def sample_lengths IM_DIRECT_MEMORY_POLICY_def)
  show ?thesis
    using ok by (simp add: build_submission_def s p x subject_for_def sample_inbound_def) (simp add: sample_binding_def)
qed

lemma sample_accept:
  "\<exists>g. plain_submit sample_inbound open_gateway =
     (Inr \<lparr>ea_execution_id = ''x'', ea_release_id = ''r'', ea_session_id = sample_session_name, ea_deduplicated = False\<rparr>, g)"
proof -
  have n: "sample_message_id \<noteq> []" "1 \<le> length sample_message_id" "1 \<le> length sample_session_name"
    using sample_lengths by auto
  show ?thesis
    using n by (simp add: plain_submit_def submit_eval_defs sample_inbound_def sample_lengths GATEWAY_SOURCE_def EXECUTION_REQUESTED_EVENT_def)
qed

lemma plain_world_fair: "fair_world ledger_ok ledger_rows plain_world"
  using gateway_good_submitter [of "\<lambda>db. db" "\<lambda>_. True" "\<lambda>_ _ _. Inr (Some \<lparr>dr_release_id = ''r'', dr_previous_release_id = None, dr_rollout_percentage = 100\<rparr>)"
      "\<lambda>_. None" default_policy "\<lambda>n. replicate n CHR ''x''" 5] quiet_others
  by (simp add: fair_world_def plain_world_def plain_submit_def [abs_def])

lemma fresh_channel_linked: "linked ledger_ok ledger_rows fresh_channel"
  by (simp add: linked_def fresh_channel_def ledger_ok_def ledger_rows_def open_gateway_unique row_of_Nil)

lemma sample_resolved: "binding_resolve ''t'' ''FAKE'' ''bot'' [sample_binding] = Some sample_binding"
  by (simp add: binding_resolve_def row_of_def route_key_def sample_binding_def)

definition sample_row :: inbound_message where
  "sample_row = (new_message 0 ''t'' sample_binding sample_event)\<lparr>ib_occurred_at := 1\<rparr>"

lemma sample_row_simps: "inbound_ledger_key sample_row = (''t'', ''b'', ''k'')" "payload_matches sample_event sample_row"
  "payload_matches sample_event (attached x r sample_row)"
  "ib_execution_id (attached x r m) = Some x" "ib_release_id (attached x r m) = Some r" "inbound_ledger_key (attached x r m) = inbound_ledger_key m"
  by (simp_all add: inbound_ledger_key_def attached_def sample_row_def new_message_def sample_binding_def payload_matches_def)

lemma sample_first:
  "\<exists>a st1. sample_ingest fresh_channel = (Inr a, st1) \<and> ch_ledger st1 = \<lparr>inbound_message_rows = [attached ''x'' ''r'' sample_row], inbound_conflict_rows = []\<rparr>"
proof -
  obtain g a where g: "plain_submit sample_inbound open_gateway = (Inr a, g)" "ea_execution_id a = ''x''" "ea_release_id a = ''r''"
    using sample_accept by auto
  have b: "cb_binding_id sample_binding = ''b''" by (simp add: sample_binding_def)
  have ins: "op_ledger_insert (database_inbound_ops [(''t'', ''b'')]) 1 (new_message 0 ''t'' sample_binding sample_event)
      \<lparr>inbound_message_rows = [], inbound_conflict_rows = []\<rparr> = Inr ((sample_row, True), \<lparr>inbound_message_rows = [sample_row], inbound_conflict_rows = []\<rparr>)"
    by (simp add: database_inbound_ops_def db_ledger_insert_def row_of_Nil sample_row_def new_message_def b Let_def)
  have "ingest_bound (database_inbound_ops [(''t'', ''b'')]) plain_world ''t'' sample_binding sample_event fresh_channel =
      route_message (database_inbound_ops [(''t'', ''b'')]) plain_world ''t'' sample_binding sample_event
        \<lparr>ch_ledger = \<lparr>inbound_message_rows = [sample_row], inbound_conflict_rows = []\<rparr>, ch_gateway = open_gateway\<rparr>"
    using ins by (simp add: ingest_bound_def plain_world_def fresh_channel_def length_within_def) (simp add: new_message_def)
  moreover have "route_message (database_inbound_ops [(''t'', ''b'')]) plain_world ''t'' sample_binding sample_event
        \<lparr>ch_ledger = \<lparr>inbound_message_rows = [sample_row], inbound_conflict_rows = []\<rparr>, ch_gateway = open_gateway\<rparr> =
      (Inr a, \<lparr>ch_ledger = \<lparr>inbound_message_rows = [attached ''x'' ''r'' sample_row], inbound_conflict_rows = []\<rparr>, ch_gateway = g\<rparr>)"
    using sample_build g
    by (simp add: route_message_def plain_world_def b sample_message_id_def Let_def database_inbound_ops_def attach_execution_def update_where_Cons
        sample_row_simps attached_def)
  ultimately show ?thesis
    using sample_resolved by (simp add: sample_ingest_def ingest_verified_def) (simp add: plain_world_def)
qed

lemma sample_again:
  assumes "ch_ledger st1 = \<lparr>inbound_message_rows = [attached ''x'' ''r'' sample_row], inbound_conflict_rows = []\<rparr>"
  shows "\<exists>a'. sample_ingest st1 = (Inr a', st1)"
proof -
  have b: "cb_binding_id sample_binding = ''b''" by (simp add: sample_binding_def)
  have k: "inbound_ledger_key (new_message 0 ''t'' sample_binding sample_event) = (''t'', ''b'', ''k'')" by (simp add: inbound_ledger_key_def new_message_def b)
  have s: "session_for sample_binding sample_event = Inr sample_session_name"
    by (simp add: session_for_def check_scope_def starts_with_def sample_session_name_def)
  have v: "length_within 1 256 (ib_message_key (new_message 0 ''t'' sample_binding sample_event))"
    "length_within 1 128 (ib_external_user_id (new_message 0 ''t'' sample_binding sample_event))"
    by (simp_all add: new_message_def length_within_def)
  have "op_ledger_insert (database_inbound_ops [(''t'', ''b'')]) 1 (new_message 0 ''t'' sample_binding sample_event) (ch_ledger st1) =
      Inr ((attached ''x'' ''r'' sample_row, False), ch_ledger st1)"
    by (simp add: assms database_inbound_ops_def db_ledger_insert_def row_of_Cons sample_row_simps k)
  then have "\<exists>a'. ingest_bound (database_inbound_ops [(''t'', ''b'')]) plain_world ''t'' sample_binding sample_event st1 = (Inr a', st1)"
    using s v by (simp add: ingest_bound_def plain_world_def sample_row_simps Let_def)
  then show ?thesis using sample_resolved by (simp add: sample_ingest_def ingest_verified_def) (simp add: plain_world_def)
qed

theorem inbound_message_once_witness:
  "\<exists>a st1 a'. sample_ingest fresh_channel = (Inr a, st1) \<and> sample_ingest st1 = (Inr a', st1) \<and> ea_execution_id a' = ea_execution_id a"
proof -
  obtain a st1 where first: "sample_ingest fresh_channel = (Inr a, st1)"
    "ch_ledger st1 = \<lparr>inbound_message_rows = [attached ''x'' ''r'' sample_row], inbound_conflict_rows = []\<rparr>" using sample_first by blast
  obtain a' where second: "sample_ingest st1 = (Inr a', st1)" using sample_again [OF first(2)] by blast
  have l: "linked ledger_ok ledger_rows st1"
    using ingest_accepted [OF plain_world_fair fresh_channel_linked first(1) [unfolded sample_ingest_def]] by blast
  show ?thesis
    using inbound_message_once [OF plain_world_fair plain_world_fair fresh_channel_linked first(1) [unfolded sample_ingest_def] l advances_refl
        second [unfolded sample_ingest_def], of sample_binding sample_binding] sample_resolved first(1) second by auto
qed

subsection \<open>Conversations\<close>

lemma bar_split: "CHR ''|'' \<notin> set a \<Longrightarrow> CHR ''|'' \<notin> set b \<Longrightarrow> a @ ''|'' @ x = b @ ''|'' @ y \<Longrightarrow> a = b \<and> x = y"
proof (induction a arbitrary: b)
  case Nil
  then show ?case by (cases b) auto
next
  case (Cons c a)
  then show ?case by (cases b) auto
qed



text \<open>
  C34: Group conversations see no member's memory, and a direct one only its own. The policy that routing
  derives from a group or thread scope makes every listing empty; under any policy, what is listed are at
  most \<open>limit\<close> valid records of the tenant whose subject is the requesting one or verified as associated with it.
\<close>

theorem memory_isolation:
  assumes "list_visible associations t subject policy limit now records = Inr (rows, records')"
  shows "(memory_policy_for_session_scope scope = Some policy \<and> (starts_with ''group:'' scope \<or> starts_with ''thread:'' scope) \<longrightarrow> rows = [] \<and> records' = records) \<and>
    int (length rows) \<le> limit \<and>
    (\<forall>r \<in> set rows. r \<in> set records \<and> mm_tenant_id r = t \<and> mm_is_valid r \<and> (mm_subject_id r = subject \<or> related associations t subject (mm_subject_id r)))"
proof -
  have d: "\<not> starts_with ''direct:'' scope" if "starts_with ''group:'' scope \<or> starts_with ''thread:'' scope"
    using that unfolding starts_with_def by (cases scope) (auto split: if_splits)
  have p: "IM_GROUP_MEMORY_POLICY \<noteq> IM_DIRECT_MEMORY_POLICY" by (simp add: IM_GROUP_MEMORY_POLICY_def IM_DIRECT_MEMORY_POLICY_def)
  have "policy = IM_DIRECT_MEMORY_POLICY \<or> rows = [] \<and> records' = records" "1 \<le> limit"
    using assms by (auto simp: list_visible_def split: if_splits)
  moreover have "int (length rows) \<le> limit \<and>
    (\<forall>r \<in> set rows. r \<in> set records \<and> mm_tenant_id r = t \<and> mm_is_valid r \<and> (mm_subject_id r = subject \<or> related associations t subject (mm_subject_id r)))"
    using assms by (auto simp: list_visible_def list_direct_memory_def Let_def dest!: in_set_takeD split: if_splits)
  ultimately show ?thesis using d p by (auto simp: memory_policy_for_session_scope_def)
qed

theorem memory_isolation_witness:
  "\<exists>rows records'. list_visible [] ''t'' ''u'' IM_GROUP_MEMORY_POLICY 20 5 [] = Inr (rows, records') \<and> rows = []"
proof -
  obtain rows records' where l: "list_visible [] ''t'' ''u'' IM_GROUP_MEMORY_POLICY 20 5 [] = Inr (rows, records')"
    by (simp add: list_visible_def IM_GROUP_MEMORY_POLICY_def IM_DIRECT_MEMORY_POLICY_def)
  show ?thesis using memory_isolation [OF l, of "''group:g''"] l by (simp add: memory_policy_for_session_scope_def starts_with_def)
qed

text \<open>
  C40: One signature fits two events. The fields are signed joined by line feeds, and events without a
  session are also accepted under the signature of three fields: the signature of any event with a session
  is also valid for the event without one whose text ends in the original user and whose user is the
  original session.
\<close>

theorem signature_reinterpreted:
  "signature_valid material [(''message_key'', k), (''text'', text), (''external_user_id'', user), (''session_key'', session),
     (''signature'', fake_channel_signature material k text user (Some session))] \<and>
   signature_valid material [(''message_key'', k), (''text'', text @ newline @ user), (''external_user_id'', session),
     (''signature'', fake_channel_signature material k text user (Some session))]"
  by (simp add: signature_valid_def event_text_def event_get_def fake_channel_signature_def legacy_fake_channel_signature_def)

end
