(* ===== verification/Pagination.thy ===== *)
theory Pagination
  imports Admin_Access "HOL-Library.Multiset"
begin

text \<open>
  The list endpoints of the Admin API: opaque cursors (\<open>admin_api/pagination.py\<close>), which are the
  URL-safe Base64 text of the 16 bytes of a UUID without its padding, and the query every list route
  runs (rows of an id above the cursor, in order of their ids, one more than the page holds). A UUID is
  its canonical text; on canonical texts the lexicographic order is the order of the bytes.
\<close>

subsection \<open>Base64 as \<open>base64.urlsafe_b64encode\<close> and \<open>urlsafe_b64decode\<close> compute it\<close>

definition b64_char :: "nat \<Rightarrow> char" where
  "b64_char n = (if n < 26 then char_of (65 + n) else if n < 52 then char_of (71 + n)
     else if n < 62 then char_of (n - 4) else if n = 62 then CHR ''-'' else CHR ''_'')"

text \<open>The decoder takes both alphabets: it translates \<open>-_\<close> to \<open>+/\<close> first.\<close>

definition b64_value :: "char \<Rightarrow> nat option" where
  "b64_value c =
     (let n = of_char c :: nat in
      if 65 \<le> n \<and> n \<le> 90 then Some (n - 65) else if 97 \<le> n \<and> n \<le> 122 then Some (n - 71)
      else if 48 \<le> n \<and> n \<le> 57 then Some (n + 4)
      else if n = 43 \<or> n = 45 then Some 62 else if n = 47 \<or> n = 95 then Some 63 else None)"

fun b64_encode :: "nat list \<Rightarrow> string" where
  "b64_encode [] = []"
| "b64_encode [a] = [b64_char (a div 4), b64_char (a mod 4 * 16), CHR ''='', CHR ''='']"
| "b64_encode [a, b] = [b64_char (a div 4), b64_char (a mod 4 * 16 + b div 16), b64_char (b mod 16 * 4), CHR ''='']"
| "b64_encode (a # b # c # bs) =
     [b64_char (a div 4), b64_char (a mod 4 * 16 + b div 16), b64_char (b mod 16 * 4 + c div 64), b64_char (c mod 64)] @ b64_encode bs"

text \<open>
  \<open>binascii.a2b_base64\<close> outside its strict mode: characters of neither alphabet are skipped, enough
  padding ends the input, and a group that is left open is an error. The arguments are the position in
  the group of four, the bits left over and the padding seen.
\<close>

fun b64_decode :: "nat \<Rightarrow> nat \<Rightarrow> nat \<Rightarrow> string \<Rightarrow> nat list option" where
  "b64_decode q left pads [] = (if q = 0 then Some [] else None)"
| "b64_decode q left pads (c # cs) =
     (if c = CHR ''='' then
        if 2 \<le> q \<and> 4 \<le> q + Suc pads then Some []
        else b64_decode q left (if 2 \<le> q then Suc pads else pads) cs
      else case b64_value c of
        None \<Rightarrow> b64_decode q left pads cs
      | Some v \<Rightarrow>
          if q = 0 then b64_decode 1 v 0 cs
          else if q = 1 then map_option ((#) (left * 4 + v div 16)) (b64_decode 2 (v mod 16) 0 cs)
          else if q = 2 then map_option ((#) (left * 16 + v div 4)) (b64_decode 3 (v mod 4) 0 cs)
          else map_option ((#) (left * 64 + v)) (b64_decode 0 0 0 cs))"

subsection \<open>Cursors\<close>

fun hex_pairs :: "nat list \<Rightarrow> nat list" where
  "hex_pairs (a # b # hs) = (16 * a + b) # hex_pairs hs"
| "hex_pairs _ = []"

text \<open>\<open>UUID.bytes\<close> of a canonical text.\<close>

definition uuid_bytes :: "uuid \<Rightarrow> nat list" where
  "uuid_bytes u = hex_pairs (map (\<lambda>c. case hex_value c of Some d \<Rightarrow> d | None \<Rightarrow> 0) (filter (\<lambda>c. c \<noteq> CHR ''-'') u))"

definition uuid_text :: "string \<Rightarrow> uuid" where
  "uuid_text x = take 8 x @ ''-'' @ take 4 (drop 8 x) @ ''-'' @ take 4 (drop 12 x) @ ''-'' @ take 4 (drop 16 x) @ ''-'' @ drop 20 x"

text \<open>\<open>UUID(bytes=bs)\<close>.\<close>

definition uuid_of_bytes :: "nat list \<Rightarrow> uuid option" where
  "uuid_of_bytes bs =
     (if length bs \<noteq> 16 then None else Some (uuid_text (concat (map (\<lambda>n. [hex_digit (n div 16), hex_digit (n mod 16)]) bs))))"

definition encode_cursor :: "uuid \<Rightarrow> string" where
  "encode_cursor identifier = rev (dropWhile (\<lambda>c. c = CHR ''='') (rev (b64_encode (uuid_bytes identifier))))"

text \<open>\<open>None\<close> is the error \<open>invalid cursor\<close>; a text outside ASCII is one, too.\<close>

definition decode_cursor :: "string option \<Rightarrow> uuid option option" where
  "decode_cursor cursor =
     (case cursor of
        None \<Rightarrow> Some None
      | Some text \<Rightarrow>
          if list_ex (\<lambda>c. 128 \<le> (of_char c :: nat)) text then None
          else case b64_decode 0 0 0 (text @ replicate (nat (- int (length text) mod 4)) (CHR ''='')) of
                 None \<Rightarrow> None | Some bs \<Rightarrow> map_option Some (uuid_of_bytes bs))"

subsection \<open>One page\<close>

record 'r page =
  pg_items :: "'r list"
  pg_next_cursor :: "string option"

definition rows_after :: "('r \<Rightarrow> uuid) \<Rightarrow> uuid option \<Rightarrow> 'r list \<Rightarrow> 'r list" where
  "rows_after ident cursor t = sort_key ident (filter (\<lambda>r. case cursor of None \<Rightarrow> True | Some c \<Rightarrow> c < ident r) t)"

definition list_page :: "('r \<Rightarrow> uuid) \<Rightarrow> nat \<Rightarrow> uuid option \<Rightarrow> 'r list \<Rightarrow> 'r page" where
  "list_page ident limit cursor t =
     (let rows = take (limit + 1) (rows_after ident cursor t); items = take limit rows
      in \<lparr>pg_items = items, pg_next_cursor = (if limit < length rows then Some (encode_cursor (ident (last items))) else None)\<rparr>)"

subsection \<open>Cursors come back\<close>

definition lower_hex :: "char \<Rightarrow> bool" where
  "lower_hex c \<longleftrightarrow> list_ex (\<lambda>n. c = hex_digit n) [0..<16]"

definition canonical_hex :: "string \<Rightarrow> bool" where
  "canonical_hex x \<longleftrightarrow> length x = 32 \<and> list_all lower_hex x"

text \<open>The identifiers of the tables: 32 lower-case hexadecimal digits in groups of 8, 4, 4, 4 and 12.\<close>

definition canonical_uuid :: "uuid \<Rightarrow> bool" where
  "canonical_uuid u \<longleftrightarrow> u = uuid_text (filter (\<lambda>c. c \<noteq> CHR ''-'') u) \<and> canonical_hex (filter (\<lambda>c. c \<noteq> CHR ''-'') u)"

lemma b64_value_char: "n < 64 \<Longrightarrow> b64_value (b64_char n) = Some n"
  by (auto simp: b64_value_def b64_char_def Let_def)

lemma b64_char_ascii: "of_char (b64_char n) < (128 :: nat)"
  by (auto simp: b64_char_def)

lemma b64_char_not_pad: "b64_char n \<noteq> CHR ''=''"
proof
  assume "b64_char n = CHR ''=''"
  then have "of_char (b64_char n) = (61 :: nat)" by simp
  then show False by (auto simp: b64_char_def split: if_splits)
qed

lemma packed:
  assumes "x < (k :: nat)"
  shows "(y * k + x) div k = y" "(y * k + x) mod k = x"
  using assms by auto

lemma sextet_lt:
  assumes "a < 256" "b < 256" "c < (256 :: nat)"
  shows "a div 4 < 64" "a mod 4 * 16 + b div 16 < 64" "b mod 16 * 4 + c div 64 < 64" "c mod 64 < 64" "a mod 4 * 16 < 64"
proof -
  have "b div 16 < 16" "c div 64 < 4" "a mod 4 < 4" "b mod 16 < 16" using assms by auto
  then show "a mod 4 * 16 + b div 16 < 64" "b mod 16 * 4 + c div 64 < 64" "a mod 4 * 16 < 64" by linarith+
qed (use assms in auto)

lemma sextet_bytes:
  assumes "a < 256" "b < 256" "c < (256 :: nat)"
  shows "a div 4 * 4 + (a mod 4 * 16 + b div 16) div 16 = a"
    "(a mod 4 * 16 + b div 16) mod 16 * 16 + (b mod 16 * 4 + c div 64) div 4 = b"
    "(b mod 16 * 4 + c div 64) mod 4 * 64 + c mod 64 = c" "a div 4 * 4 + a mod 4 * 16 div 16 = a"
proof -
  have "b div 16 < 16" "c div 64 < 4" using assms by auto
  note p = packed [OF this(1), of "a mod 4"] packed [OF this(2), of "b mod 16"]
  show "a div 4 * 4 + (a mod 4 * 16 + b div 16) div 16 = a" "(a mod 4 * 16 + b div 16) mod 16 * 16 + (b mod 16 * 4 + c div 64) div 4 = b"
    "(b mod 16 * 4 + c div 64) mod 4 * 64 + c mod 64 = c" by (simp_all only: p div_mult_mod_eq)
qed simp

text \<open>Three bytes and their four characters.\<close>

lemma b64_decode_triple:
  assumes "a < 256" "b < 256" "c < 256"
  shows "b64_decode 0 0 0 (b64_encode (a # b # c # bs)) = map_option (\<lambda>r. a # b # c # r) (b64_decode 0 0 0 (b64_encode bs))"
  using sextet_lt [OF assms] sextet_bytes [OF assms]
  by (simp add: b64_value_char b64_char_not_pad option.map_comp comp_def)

lemma b64_decode_last:
  assumes "a < 256"
  shows "b64_decode 0 0 0 [b64_char (a div 4), b64_char (a mod 4 * 16), CHR ''='', CHR ''=''] = Some [a]"
  using sextet_lt [OF assms assms assms] sextet_bytes [OF assms assms assms]
  by (simp add: b64_value_char b64_char_not_pad)

text \<open>The 16 bytes of a UUID are five groups of three bytes and one byte more.\<close>

lemma sixteen:
  assumes "length bs = 16"
  obtains a b c d e f g h i j k l m n p q where "bs = [a, b, c, d, e, f, g, h, i, j, k, l, m, n, p, q :: nat]"
  using assms by (auto simp: length_Suc_conv numeral_eq_Suc)

lemma b64_sixteen:
  assumes "length bs = 16" "list_all (\<lambda>b. b < 256) bs"
  obtains t where "b64_encode bs = t @ [CHR ''='', CHR ''='']" "length t = 22" "b64_decode 0 0 0 (t @ [CHR ''='', CHR ''='']) = Some bs"
    "CHR ''='' \<notin> set t" "list_all (\<lambda>c. (of_char c :: nat) < 128) t"
proof -
  obtain a b c d e f g h i j k l m n p q where bs: "bs = [a, b, c, d, e, f, g, h, i, j, k, l, m, n, p, q]"
    using sixteen [OF assms(1)] by blast
  note ok = assms(2) [unfolded bs, simplified]
  let ?t = "take 22 (b64_encode bs)"
  have t: "b64_encode bs = ?t @ [CHR ''='', CHR ''='']" "length ?t = 22" by (simp_all add: bs)
  have "b64_decode 0 0 0 (b64_encode bs) = Some bs"
    unfolding bs using ok by (simp add: b64_decode_triple b64_decode_last del: b64_encode.simps(4) b64_decode.simps)
  then have d: "b64_decode 0 0 0 (?t @ [CHR ''='', CHR ''='']) = Some bs" using t(1) by simp
  have "\<forall>c \<in> set ?t. c \<noteq> CHR ''='' \<and> (of_char c :: nat) < 128"
    by (simp add: bs b64_char_not_pad b64_char_ascii)
  then have "CHR ''='' \<notin> set ?t" "list_all (\<lambda>c. (of_char c :: nat) < 128) ?t" by (auto simp: list_all_iff)
  with t d show ?thesis using that by blast
qed

lemma hex_value_digit: "n < 16 \<Longrightarrow> hex_value (hex_digit n) = Some n"
  by (auto simp: hex_value_def hex_digit_def Let_def)

lemma lower_hexE:
  assumes "lower_hex c"
  obtains n where "n < 16" "c = hex_digit n" "hex_value c = Some n"
proof -
  obtain n where "n < 16" "c = hex_digit n" using assms by (auto simp: lower_hex_def list_ex_iff)
  then show ?thesis using that hex_value_digit by blast
qed

lemma hex_text:
  "even (length x) \<Longrightarrow> list_all lower_hex x \<Longrightarrow>
   concat (map (\<lambda>n. [hex_digit (n div 16), hex_digit (n mod 16)]) (hex_pairs (map (\<lambda>c. case hex_value c of Some d \<Rightarrow> d | None \<Rightarrow> 0) x))) = x \<and>
   length (hex_pairs (map (\<lambda>c. case hex_value c of Some d \<Rightarrow> d | None \<Rightarrow> 0) x)) = length x div 2 \<and>
   list_all (\<lambda>n. n < 256) (hex_pairs (map (\<lambda>c. case hex_value c of Some d \<Rightarrow> d | None \<Rightarrow> 0) x))"
proof (induction x rule: induct_list012)
  case (3 a b x)
  have "lower_hex a" "lower_hex b" using 3(4) by simp_all
  then obtain m n where "m < 16" "n < 16" "a = hex_digit m" "b = hex_digit n" "hex_value a = Some m" "hex_value b = Some n"
    by (meson lower_hexE)
  then show ?case using 3 by simp
qed auto

text \<open>A cursor names the row it was made from.\<close>

lemma cursor_roundtrip:
  assumes "canonical_uuid u"
  shows "decode_cursor (Some (encode_cursor u)) = Some (Some u)"
proof -
  define x where "x = filter (\<lambda>c. c \<noteq> CHR ''-'') u"
  have x: "u = uuid_text x" "length x = 32" "list_all lower_hex x"
    using assms by (auto simp: canonical_uuid_def canonical_hex_def x_def)
  let ?bs = "uuid_bytes u"
  have ub: "?bs = hex_pairs (map (\<lambda>c. case hex_value c of Some d \<Rightarrow> d | None \<Rightarrow> 0) x)" by (simp only: uuid_bytes_def x_def)
  have b: "concat (map (\<lambda>n. [hex_digit (n div 16), hex_digit (n mod 16)]) ?bs) = x" "length ?bs = 16" "list_all (\<lambda>n. n < 256) ?bs"
    using hex_text [of x] x(2,3) by (simp_all add: ub)
  obtain t where t: "b64_encode ?bs = t @ [CHR ''='', CHR ''='']" "length t = 22" "b64_decode 0 0 0 (t @ [CHR ''='', CHR ''='']) = Some ?bs"
    "CHR ''='' \<notin> set t" "list_all (\<lambda>c. (of_char c :: nat) < 128) t" using b64_sixteen [OF b(2,3)] by blast
  have "dropWhile (\<lambda>c. c = CHR ''='') (rev t) = rev t" using t(2,4) by (cases t rule: rev_cases) auto
  then have e: "encode_cursor u = t" by (simp add: encode_cursor_def t(1))
  have "replicate (nat (- int (length t) mod 4)) (CHR ''='') = [CHR ''='', CHR ''='']" using t(2) by (simp add: numeral_eq_Suc)
  then have "b64_decode 0 0 0 (t @ replicate (nat (- int (length t) mod 4)) (CHR ''='')) = Some ?bs" using t(3) by (simp only:)
  moreover have "uuid_of_bytes ?bs = Some u" using b x(1) by (simp add: uuid_of_bytes_def)
  moreover have "\<not> list_ex (\<lambda>c. 128 \<le> (of_char c :: nat)) t" using t(5) by (auto simp: list_ex_iff list_all_iff not_le)
  ultimately show ?thesis by (simp add: decode_cursor_def e)
qed

subsection \<open>Following the cursors\<close>

text \<open>A client that asks for page after page, each time with the cursor of the last; \<open>n\<close> bounds the requests.\<close>

fun follow :: "('r \<Rightarrow> uuid) \<Rightarrow> nat \<Rightarrow> nat \<Rightarrow> uuid option \<Rightarrow> 'r list \<Rightarrow> 'r list option" where
  "follow ident limit 0 cursor t = None"
| "follow ident limit (Suc n) cursor t =
     (let p = list_page ident limit cursor t in
      case pg_next_cursor p of
        None \<Rightarrow> Some (pg_items p)
      | Some c \<Rightarrow> (case decode_cursor (Some c) of
                    None \<Rightarrow> None | Some cur \<Rightarrow> map_option ((@) (pg_items p)) (follow ident limit n cur t)))"

lemma filter_above:
  fixes f :: "'r \<Rightarrow> 'k :: linorder"
  assumes "sorted (map f xs)" "distinct (map f xs)" "k < length xs"
  shows "filter (\<lambda>x. f (xs ! k) < f x) xs = drop (Suc k) xs"
proof -
  have lt: "f (xs ! i) < f (xs ! j)" if "i < j" "j < length xs" for i j
    using sorted_nth_mono [OF assms(1), of i j] nth_eq_iff_index_eq [OF assms(2), of i j] that by (auto simp: less_le)
  have "\<not> f (xs ! k) < f x" if x: "x \<in> set (take (Suc k) xs)" for x
  proof -
    obtain i where "i < Suc k" "x = xs ! i" using x by (auto simp: in_set_conv_nth)
    then show ?thesis using sorted_nth_mono [OF assms(1), of i k] assms(3) by (simp add: not_less)
  qed
  then have "filter (\<lambda>x. f (xs ! k) < f x) (take (Suc k) xs) = []" by (simp add: filter_empty_conv)
  moreover have "filter (\<lambda>x. f (xs ! k) < f x) (drop (Suc k) xs) = drop (Suc k) xs"
    using lt [of k] by (auto simp: filter_id_conv in_set_conv_nth)
  ultimately show ?thesis by (metis append_take_drop_id filter_append append_Nil)
qed

lemma rows_after_filter: "rows_after ident cursor t = filter (\<lambda>r. case cursor of None \<Rightarrow> True | Some c \<Rightarrow> c < ident r) (sort_key ident t)"
  by (simp add: rows_after_def filter_sort)

lemma rows_after_ordered:
  assumes "unique_key ident t"
  shows "sorted (map ident (rows_after ident cursor t))" "distinct (map ident (rows_after ident cursor t))"
proof -
  have "mset (map ident (sort_key ident t)) = mset (map ident t)" by simp
  then have "distinct (map ident (sort_key ident t))" using assms unfolding unique_key_def by (metis mset_eq_imp_distinct_iff)
  then show "distinct (map ident (rows_after ident cursor t))" by (simp add: rows_after_filter distinct_map_filter)
  show "sorted (map ident (rows_after ident cursor t))" by (simp add: rows_after_def)
qed

text \<open>The rows after the last one of a page are those the page left.\<close>

lemma rows_after_page:
  assumes "unique_key ident t" "k < length (rows_after ident cursor t)"
  shows "rows_after ident (Some (ident (rows_after ident cursor t ! k))) t = drop (Suc k) (rows_after ident cursor t)"
proof -
  let ?rows = "rows_after ident cursor t" and ?c = "ident (rows_after ident cursor t ! k)"
  have "?rows ! k \<in> set ?rows" using assms(2) by simp
  then have "\<And>r. ?c < ident r \<Longrightarrow> (case cursor of None \<Rightarrow> True | Some c \<Rightarrow> c < ident r)"
    by (auto simp: rows_after_filter split: option.splits dest: order.strict_trans)
  then have "filter (\<lambda>r. ?c < ident r) (filter (\<lambda>r. case cursor of None \<Rightarrow> True | Some c \<Rightarrow> c < ident r) (sort_key ident t))
      = filter (\<lambda>r. ?c < ident r) (sort_key ident t)" by (auto simp: filter_filter intro: filter_cong)
  then have "rows_after ident (Some ?c) t = filter (\<lambda>r. ?c < ident r) ?rows"
    by (simp only: rows_after_filter [of ident "Some ?c"] rows_after_filter [of ident cursor, symmetric] option.case)
  then show ?thesis using filter_above [OF rows_after_ordered [OF assms(1)] assms(2)] by simp
qed

lemma follow_rows:
  assumes "unique_key ident t" "list_all (\<lambda>r. canonical_uuid (ident r)) t" "1 \<le> limit"
  shows "length (rows_after ident cursor t) < n \<Longrightarrow> follow ident limit n cursor t = Some (rows_after ident cursor t)"
proof (induction n arbitrary: cursor)
  case (Suc n)
  let ?rows = "rows_after ident cursor t"
  show ?case
  proof (cases "limit < length ?rows")
    case True
    let ?k = "limit - 1"
    have k: "?k < length ?rows" "Suc ?k = limit" using True assms(3) by simp_all
    have items: "take limit (take (limit + 1) ?rows) = take limit ?rows" by simp
    have last: "last (take limit ?rows) = ?rows ! ?k" using k by (subst last_conv_nth) auto
    have "?rows ! ?k \<in> set t" using nth_mem [OF k(1)] by (simp add: rows_after_def)
    then have "decode_cursor (Some (encode_cursor (ident (?rows ! ?k)))) = Some (Some (ident (?rows ! ?k)))"
      using assms(2) by (intro cursor_roundtrip) (auto simp: list_all_iff)
    moreover have "rows_after ident (Some (ident (?rows ! ?k))) t = drop limit ?rows"
      using rows_after_page [OF assms(1) k(1)] k(2) by simp
    moreover from this have "follow ident limit n (Some (ident (?rows ! ?k))) t = Some (drop limit ?rows)"
      using Suc.IH [of "Some (ident (?rows ! ?k))"] Suc.prems True assms(3) by simp
    ultimately show ?thesis using True by (simp add: list_page_def Let_def last min_def)
  qed (simp add: list_page_def)
qed simp


definition sample_ids :: "uuid list" where
  "sample_ids = [''018f3c2a-0000-7000-8000-0000000000c3'', ''018f3c2a-0000-7000-8000-0000000000a1'', ''018f3c2a-0000-7000-8000-0000000000b2'']"

lemma sample_ids_canonical: "list_all canonical_uuid sample_ids"
  unfolding sample_ids_def canonical_uuid_def canonical_hex_def lower_hex_def uuid_text_def by code_simp


end
