(* ===== verification/Agent_Drafts.thy ===== *)
theory Agent_Drafts
  imports Pagination Agent_Worker Regex Json_Canonical
begin

text \<open>
  Agent applications, their Drafts and the publication of Releases: the routes of
  \<open>admin_api/agents.py\<close> up to the deployments, with \<open>draft_validation.py\<close> and \<open>preconditions.py\<close>, over
  the tables of the migrations 0002 to 0009 and 0029. Request bodies are those their models accepted, so
  the checks the tables repeat are not stated again; keys, unique indexes, foreign keys and the rule
  that a restricted row stays are. In an update a field is unset, null or a value. \<open>uuid7()\<close> values,
  the clock and the audit event's id are arguments, and JSON columns read as the values written to them.
\<close>

record application_row =
  aa_tenant_id :: uuid
  aa_id :: uuid
  aa_slug :: string
  aa_name :: string
  aa_description :: string
  aa_version :: int
  aa_created_at :: timestamp
  aa_updated_at :: timestamp

record draft_row =
  df_tenant_id :: uuid
  df_application_id :: uuid
  df_instructions :: string
  df_model_alias :: string
  df_tool_aliases :: "string list"
  df_knowledge_refs :: "string list"
  df_governance_policy_ref :: "string option"
  df_version :: int
  df_created_at :: timestamp
  df_updated_at :: timestamp

text \<open>A Release of before the Drafts were recorded (\<open>LEGACY\<close>) has no source version, as the table demands.\<close>

record published_release =
  rl_tenant_id :: uuid
  rl_id :: uuid
  rl_application_id :: uuid
  rl_version :: int
  rl_model_alias :: string
  rl_data_classification :: data_classification
  rl_region :: string
  rl_fallback_aliases :: "string list"
  rl_model_profiles :: "model_profile list"
  rl_source_draft_version :: "int option"
  rl_source_actor :: string
  rl_draft_snapshot :: jobject
  rl_content_hash :: string
  rl_created_at :: timestamp

datatype deployment_status = Dp_pending | Dp_active | Dp_halted

record deployment_row =
  dp_tenant_id :: uuid
  dp_id :: uuid
  dp_application_id :: uuid
  dp_environment :: string
  dp_release_id :: uuid
  dp_previous_release_id :: "uuid option"
  dp_previous_deployment_id :: "uuid option"
  dp_previous_deployment_version :: "int option"
  dp_rollout_percentage :: int
  dp_status :: deployment_status
  dp_initiator :: string
  dp_approver :: "string option"
  dp_version :: int
  dp_created_at :: timestamp
  dp_activated_at :: "timestamp option"
  dp_halted_at :: "timestamp option"

record eval_suite_row =
  es_tenant_id :: uuid
  es_id :: uuid
  es_application_id :: uuid
  es_slug :: string
  es_version :: int
  es_dataset :: jobject
  es_scorers :: json
  es_thresholds :: jobject
  es_assertions :: "string list"
  es_content_hash :: string
  es_created_by :: string
  es_created_at :: timestamp

record eval_run_row =
  er_tenant_id :: uuid
  er_id :: uuid
  er_application_id :: uuid
  er_suite_id :: uuid
  er_release_id :: uuid
  er_environment :: string
  er_snapshot :: jobject
  er_evidence :: jobject
  er_results :: jobject
  er_passed :: bool
  er_content_hash :: string
  er_created_by :: string
  er_created_at :: timestamp

record canary_row =
  eo_tenant_id :: uuid
  eo_id :: uuid
  eo_deployment_id :: uuid
  eo_run_id :: uuid
  eo_metrics :: jobject
  eo_halted :: bool
  eo_created_by :: string
  eo_created_at :: timestamp

text \<open>
  Of the tables other components own: the model profiles, the Releases that executions refer to, and what
  evaluation snapshots read (tool versions, governing policy versions, knowledge revisions).
\<close>

record knowledge_revision_row =
  kr_tenant_id :: uuid
  kr_id :: uuid
  kr_revision_version :: int
  kr_content_hash :: string

record agent_tables = admin_tables +
  ag_applications :: "application_row list"
  ag_drafts :: "draft_row list"
  ag_profiles :: "model_profile list"
  ag_releases :: "published_release list"
  ag_deployments :: "deployment_row list"
  ag_suites :: "eval_suite_row list"
  ag_runs :: "eval_run_row list"
  ag_observations :: "canary_row list"
  ag_executed_releases :: "(uuid \<times> uuid) list"
  ag_tool_versions :: "(uuid \<times> string \<times> int) list"
  ag_policy_versions :: "(uuid \<times> int \<times> string) list"
  ag_revisions :: "knowledge_revision_row list"

definition app_key :: "application_row \<Rightarrow> uuid \<times> uuid" where "app_key r = (aa_tenant_id r, aa_id r)"
definition slug_key :: "application_row \<Rightarrow> uuid \<times> string" where "slug_key r = (aa_tenant_id r, aa_slug r)"
definition draft_key :: "draft_row \<Rightarrow> uuid \<times> uuid" where "draft_key r = (df_tenant_id r, df_application_id r)"
definition release_key :: "published_release \<Rightarrow> uuid \<times> uuid" where "release_key r = (rl_tenant_id r, rl_id r)"
definition release_number :: "published_release \<Rightarrow> uuid \<times> uuid \<times> int" where "release_number r = (rl_tenant_id r, rl_application_id r, rl_version r)"
definition deployment_key :: "deployment_row \<Rightarrow> uuid \<times> uuid" where "deployment_key r = (dp_tenant_id r, dp_id r)"
definition profile_key :: "model_profile \<Rightarrow> string \<times> string" where "profile_key p = (mp_tenant_id p, mp_alias p)"

subsection \<open>Preconditions\<close>

definition quote_char :: char where "quote_char = char_of (34 :: nat)"

definition decimal_digit :: "char \<Rightarrow> bool" where
  "decimal_digit c \<longleftrightarrow> (let n = of_char c :: nat in 48 \<le> n \<and> n \<le> 57)"

text \<open>\<open>"([1-9][0-9]*)"\<close> in full; \<open>int\<close> refuses more than 4300 digits with a \<open>ValueError\<close> of its own.\<close>

definition parse_if_match :: "string \<Rightarrow> string + int" where
  "parse_if_match value =
     (let digits = butlast (tl value) in
      if 3 \<le> length value \<and> hd value = quote_char \<and> last value = quote_char \<and> list_all decimal_digit digits \<and> hd digits \<noteq> CHR ''0''
      then if 4300 < length digits
           then Inl (''Exceeds the limit (4300 digits) for integer string conversion: value has '' @ str_of_nat (length digits) @
                     '' digits; use sys.set_int_max_str_digits() to increase the limit'')
           else Inr (int (nat_of_digits 0 digits))
      else Inl ''If-Match must contain one quoted positive version'')"

definition etag :: "int \<Rightarrow> string" where
  "etag version = [quote_char] @ str_of_int version @ [quote_char]"

text \<open>A version bound to an \<open>integer\<close> column: the driver refuses what does not fit in 32 bits.\<close>

definition bound_version :: "int \<Rightarrow> api_error option" where
  "bound_version v = (if 2147483647 < v then Some (DatabaseError OperationalError) else None)"

subsection \<open>Draft validation\<close>

record draft_issue =
  di_code :: string
  di_path :: string
  di_message :: string

text \<open>\<open>first_seen\<close> is the dictionary of the loop, \<open>i\<close> its index.\<close>

fun duplicate_issues :: "string \<Rightarrow> string \<Rightarrow> string \<Rightarrow> (string \<times> nat) list \<Rightarrow> nat \<Rightarrow> string list \<Rightarrow> draft_issue list" where
  "duplicate_issues code path noun first_seen i [] = []"
| "duplicate_issues code path noun first_seen i (v # vs) =
     (case map_of first_seen v of
        Some k \<Rightarrow> \<lparr>di_code = code, di_path = path @ ''/'' @ str_of_nat i,
                   di_message = noun @ '' duplicates '' @ path @ ''/'' @ str_of_nat k @ ''.''\<rparr>
                  # duplicate_issues code path noun first_seen (Suc i) vs
      | None \<Rightarrow> duplicate_issues code path noun ((v, i) # first_seen) (Suc i) vs)"

definition name_alnum :: "char \<Rightarrow> bool" where
  "name_alnum c \<longleftrightarrow> (let n = of_char c :: nat in 48 \<le> n \<and> n \<le> 57 \<or> 97 \<le> n \<and> n \<le> 122)"

definition resource_name :: "string \<Rightarrow> bool" where
  "resource_name s \<longleftrightarrow> s \<noteq> [] \<and> length s \<le> 128 \<and> name_alnum (hd s) \<and> list_all (\<lambda>c. name_alnum c \<or> c \<in> set ''._-'') (tl s)"

definition blank :: "unicode_tables \<Rightarrow> string \<Rightarrow> bool" where
  "blank U s \<longleftrightarrow> list_all (is_space_cp U) (utf8_decode s)"

definition validate_draft_configuration :: "unicode_tables \<Rightarrow> draft_row \<Rightarrow> draft_issue list" where
  "validate_draft_configuration U d =
     (if blank U (df_instructions d)
      then [\<lparr>di_code = ''DRAFT_INSTRUCTIONS_REQUIRED'', di_path = ''/instructions'', di_message = ''Instructions must not be blank.''\<rparr>] else []) @
     (if resource_name (df_model_alias d) then []
      else [\<lparr>di_code = ''DRAFT_MODEL_ALIAS_INVALID'', di_path = ''/model_alias'', di_message = ''Model alias must be a stable resource name.''\<rparr>]) @
     duplicate_issues ''DRAFT_DUPLICATE_TOOL_ALIAS'' ''/tool_aliases'' ''Tool alias'' [] 0 (df_tool_aliases d) @
     duplicate_issues ''DRAFT_DUPLICATE_KNOWLEDGE_REF'' ''/knowledge_refs'' ''Knowledge reference'' [] 0 (df_knowledge_refs d) @
     (case df_governance_policy_ref d of
        None \<Rightarrow> []
      | Some policy \<Rightarrow> if resource_name policy then []
          else [\<lparr>di_code = ''DRAFT_GOVERNANCE_POLICY_REF_INVALID'', di_path = ''/governance_policy_ref'',
                 di_message = ''Governance policy reference must be a stable resource name.''\<rparr>])"

subsection \<open>Routes in general\<close>

record http_reply =
  hr_status :: nat
  hr_etag :: "string option"
  hr_replayed :: bool
  hr_body :: jobject

text \<open>\<open>field\<close> names the member of the body the ETag is made of, if the route sets one.\<close>

definition reply_of :: "nat \<Rightarrow> string option \<Rightarrow> bool \<times> jobject \<Rightarrow> http_reply" where
  "reply_of status field r =
     \<lparr>hr_status = status,
      hr_etag = (case field of None \<Rightarrow> None | Some f \<Rightarrow> map_option (\<lambda>v. [quote_char] @ py_str v @ [quote_char]) (dict_get (snd r) f)),
      hr_replayed = fst r, hr_body = snd r\<rparr>"

definition conflict_as :: "string \<Rightarrow> api_error \<Rightarrow> api_error" where
  "conflict_as detail e = (if e = DatabaseError IntegrityError then HTTPException 409 detail else e)"

definition with_precondition :: "string \<Rightarrow> (int \<Rightarrow> api_error + 'a) \<Rightarrow> api_error + 'a" where
  "with_precondition if_match command =
     (case parse_if_match if_match of Inl detail \<Rightarrow> Inl (HTTPException 400 detail) | Inr expected \<Rightarrow> command expected)"

text \<open>The write routes: the role check, then the command with its idempotency record.\<close>

definition write_route ::
  "(jobject \<Rightarrow> jobject) \<Rightarrow> call \<Rightarrow> uuid \<Rightarrow> string \<Rightarrow> string \<Rightarrow> string option \<Rightarrow>
   ('x admin_tables_scheme \<Rightarrow> api_error + (http_reply \<times> 'x admin_tables_scheme)) \<Rightarrow>
   'x admin_tables_scheme \<Rightarrow> (api_error + http_reply) \<times> 'x admin_tables_scheme" where
  "write_route jsonb c tenant_id action target_type target_id =
     guarded (require_tenant_access jsonb (rq_denial_id c) (rq_now c) (rq_principal c) tenant_id WriteAccess action target_type target_id)"

definition read_route ::
  "(jobject \<Rightarrow> jobject) \<Rightarrow> call \<Rightarrow> uuid \<Rightarrow> string \<Rightarrow> string \<Rightarrow> string option \<Rightarrow>
   ('x admin_tables_scheme \<Rightarrow> api_error + ('a \<times> 'x admin_tables_scheme)) \<Rightarrow>
   'x admin_tables_scheme \<Rightarrow> (api_error + 'a) \<times> 'x admin_tables_scheme" where
  "read_route jsonb c tenant_id action target_type target_id =
     guarded (require_tenant_access jsonb (rq_denial_id c) (rq_now c) (rq_principal c) tenant_id ReadAccess action target_type target_id)"

definition as_reply :: "nat \<Rightarrow> string option \<Rightarrow> api_error + ((bool \<times> jobject) \<times> 'd) \<Rightarrow> api_error + (http_reply \<times> 'd)" where
  "as_reply status field r = (case r of Inl e \<Rightarrow> Inl e | Inr (b, db) \<Rightarrow> Inr (reply_of status field b, db))"

definition nullable :: "('a \<Rightarrow> json) \<Rightarrow> 'a option \<Rightarrow> json" where
  "nullable f v = (case v of None \<Rightarrow> JNull | Some x \<Rightarrow> f x)"

definition set_field :: "string \<Rightarrow> ('a \<Rightarrow> json) \<Rightarrow> 'a option option \<Rightarrow> jobject" where
  "set_field name f v = (case v of None \<Rightarrow> [] | Some x \<Rightarrow> [(name, nullable f x)])"

definition json_strings :: "string list \<Rightarrow> json" where "json_strings xs = JList (map JStr xs)"

text \<open>\<open>COALESCE($n, column)\<close> for a field of an update.\<close>

definition coalesce :: "'a option option \<Rightarrow> 'a \<Rightarrow> 'a" where
  "coalesce v old = (case v of Some (Some x) \<Rightarrow> x | _ \<Rightarrow> old)"

definition allow ::
  "(jobject \<Rightarrow> jobject) \<Rightarrow> call \<Rightarrow> uuid \<Rightarrow> string \<Rightarrow> string \<Rightarrow> string \<Rightarrow> jobject \<Rightarrow> jobject \<Rightarrow> 'x admin_tables_scheme
   \<Rightarrow> api_error + (jobject \<times> 'x admin_tables_scheme)" where
  "allow jsonb c tenant_id action target_type target_id details result db =
     (case audited jsonb (rq_event_id c) (rq_now c) (Some (rq_principal c)) action ''ALLOW'' target_type target_id tenant_id details db of
        Inl e \<Rightarrow> Inl e | Inr db' \<Rightarrow> Inr (result, db'))"

subsection \<open>Application routes\<close>

definition application_json :: "application_row \<Rightarrow> jobject" where
  "application_json r =
     [(''tenant_id'', JStr (aa_tenant_id r)), (''id'', JStr (aa_id r)), (''slug'', JStr (aa_slug r)), (''name'', JStr (aa_name r)),
      (''description'', JStr (aa_description r)), (''version'', JInt (aa_version r)),
      (''created_at'', JStr (datetime_str (aa_created_at r))), (''updated_at'', JStr (datetime_str (aa_updated_at r)))]"

definition insert_application :: "application_row \<Rightarrow> 'x agent_tables_scheme \<Rightarrow> api_error + 'x agent_tables_scheme" where
  "insert_application r db =
     (if has_key app_key (app_key r) (ag_applications db) \<or> has_key slug_key (slug_key r) (ag_applications db) \<or> \<not> tenant_exists (aa_tenant_id r) db
      then Inl (DatabaseError IntegrityError) else Inr (db\<lparr>ag_applications := ag_applications db @ [r]\<rparr>))"

definition create_application_command ::
  "(jobject \<Rightarrow> jobject) \<Rightarrow> call \<Rightarrow> uuid \<Rightarrow> uuid \<Rightarrow> string \<Rightarrow> string \<Rightarrow> string \<Rightarrow> 'x agent_tables_scheme \<Rightarrow> api_error + (jobject \<times> 'x agent_tables_scheme)" where
  "create_application_command jsonb c application_id tenant_id slug name description db =
     (let row = \<lparr>aa_tenant_id = tenant_id, aa_id = application_id, aa_slug = slug, aa_name = name, aa_description = description,
                 aa_version = 1, aa_created_at = rq_now c, aa_updated_at = rq_now c\<rparr> in
      case insert_application row db of
        Inl e \<Rightarrow> Inl e
      | Inr db1 \<Rightarrow> allow jsonb c tenant_id ''agent_application.create'' ''agent_application'' application_id [] (application_json row) db1)"

definition create_application ::
  "(jobject \<Rightarrow> jobject) \<Rightarrow> call \<Rightarrow> uuid \<Rightarrow> string \<Rightarrow> uuid \<Rightarrow> string \<Rightarrow> string \<Rightarrow> string \<Rightarrow> 'x agent_tables_scheme
   \<Rightarrow> (api_error + http_reply) \<times> 'x agent_tables_scheme" where
  "create_application jsonb c application_id key tenant_id slug name description =
     write_route jsonb c tenant_id ''agent_application.create'' ''agent_application'' None
       (\<lambda>db. case idempotent jsonb c key ''agent_application.create''
                   [(''tenant_id'', JStr tenant_id), (''slug'', JStr slug), (''name'', JStr name), (''description'', JStr description)]
                   (create_application_command jsonb c application_id tenant_id slug name description) db of
               Inl e \<Rightarrow> Inl (conflict_as ''Agent application already exists'' e)
             | Inr (r, db') \<Rightarrow> Inr (reply_of 201 (Some ''version'') r, db'))"

definition list_applications ::
  "(jobject \<Rightarrow> jobject) \<Rightarrow> call \<Rightarrow> uuid \<Rightarrow> nat \<Rightarrow> string option \<Rightarrow> 'x agent_tables_scheme
   \<Rightarrow> (api_error + jobject page) \<times> 'x agent_tables_scheme" where
  "list_applications jsonb c tenant_id limit cursor =
     read_route jsonb c tenant_id ''agent_application.list'' ''agent_application'' None
       (\<lambda>db. case decode_cursor cursor of
               None \<Rightarrow> Inl (HTTPException 400 ''invalid cursor'')
             | Some cursor_id \<Rightarrow>
                (let p = list_page aa_id limit cursor_id (filter (\<lambda>r. aa_tenant_id r = tenant_id) (ag_applications db))
                 in Inr (\<lparr>pg_items = map application_json (pg_items p), pg_next_cursor = pg_next_cursor p\<rparr>, db)))"

definition get_application ::
  "(jobject \<Rightarrow> jobject) \<Rightarrow> call \<Rightarrow> uuid \<Rightarrow> uuid \<Rightarrow> 'x agent_tables_scheme \<Rightarrow> (api_error + http_reply) \<times> 'x agent_tables_scheme" where
  "get_application jsonb c tenant_id application_id =
     read_route jsonb c tenant_id ''agent_application.get'' ''agent_application'' (Some application_id)
       (\<lambda>db. case row_of app_key (tenant_id, application_id) (ag_applications db) of
               None \<Rightarrow> Inl (HTTPException 404 ''Agent application not found'')
             | Some r \<Rightarrow> Inr (reply_of 200 (Some ''version'') (False, application_json r), db))"

record application_update =
  pu_slug :: "string option option"
  pu_name :: "string option option"
  pu_description :: "string option option"

definition application_changes :: "application_update \<Rightarrow> jobject" where
  "application_changes u = set_field ''slug'' JStr (pu_slug u) @ set_field ''name'' JStr (pu_name u) @ set_field ''description'' JStr (pu_description u)"

definition update_application_row :: "timestamp \<Rightarrow> application_update \<Rightarrow> application_row \<Rightarrow> application_row" where
  "update_application_row now u r =
     r\<lparr>aa_slug := coalesce (pu_slug u) (aa_slug r), aa_name := coalesce (pu_name u) (aa_name r),
       aa_description := coalesce (pu_description u) (aa_description r), aa_version := aa_version r + 1, aa_updated_at := now\<rparr>"

definition version_mismatch :: "string \<Rightarrow> bool \<Rightarrow> api_error" where
  "version_mismatch noun found = (if found then HTTPException 412 (noun @ '' version changed'') else HTTPException 404 (noun @ '' not found''))"

definition update_application_command ::
  "(jobject \<Rightarrow> jobject) \<Rightarrow> call \<Rightarrow> uuid \<Rightarrow> uuid \<Rightarrow> int \<Rightarrow> application_update \<Rightarrow> 'x agent_tables_scheme \<Rightarrow> api_error + (jobject \<times> 'x agent_tables_scheme)" where
  "update_application_command jsonb c tenant_id application_id expected u db =
     (case bound_version expected of
        Some e \<Rightarrow> Inl e
      | None \<Rightarrow>
         (case row_of app_key (tenant_id, application_id) (ag_applications db) of
            None \<Rightarrow> Inl (version_mismatch ''Agent application'' False)
          | Some r \<Rightarrow>
              if aa_version r \<noteq> expected then Inl (version_mismatch ''Agent application'' True)
              else let row = update_application_row (rq_now c) u r;
                       updated = update_where (\<lambda>q. app_key q = (tenant_id, application_id)) (update_application_row (rq_now c) u) (ag_applications db)
                   in if \<not> unique_key slug_key updated then Inl (DatabaseError IntegrityError)
                      else allow jsonb c tenant_id ''agent_application.update'' ''agent_application'' application_id
                             [(''version'', JInt (aa_version row))] (application_json row) (db\<lparr>ag_applications := updated\<rparr>)))"

definition update_application ::
  "(jobject \<Rightarrow> jobject) \<Rightarrow> call \<Rightarrow> string \<Rightarrow> string \<Rightarrow> uuid \<Rightarrow> uuid \<Rightarrow> application_update \<Rightarrow> 'x agent_tables_scheme
   \<Rightarrow> (api_error + http_reply) \<times> 'x agent_tables_scheme" where
  "update_application jsonb c key if_match tenant_id application_id u =
     write_route jsonb c tenant_id ''agent_application.update'' ''agent_application'' (Some application_id)
       (\<lambda>db. with_precondition if_match (\<lambda>expected.
          case idempotent jsonb c key ''agent_application.update''
                 ([(''tenant_id'', JStr tenant_id), (''application_id'', JStr application_id), (''expected_version'', JInt expected)] @ application_changes u)
                 (update_application_command jsonb c tenant_id application_id expected u) db of
            Inl e \<Rightarrow> Inl (conflict_as ''Agent application already exists'' e)
          | Inr (r, db') \<Rightarrow> Inr (reply_of 200 (Some ''version'') r, db')))"

text \<open>
  What keeps an application: its evaluation suites restrict the deletion at once, and the cascade to its
  Releases, the first constraint declared, is stopped by any deployment or execution that refers to one.
\<close>

definition deletion_restricted :: "uuid \<Rightarrow> uuid \<Rightarrow> 'x agent_tables_scheme \<Rightarrow> bool" where
  "deletion_restricted tenant_id application_id db \<longleftrightarrow>
     list_ex (\<lambda>e. es_tenant_id e = tenant_id \<and> es_application_id e = application_id) (ag_suites db) \<or>
     list_ex (\<lambda>r. rl_tenant_id r = tenant_id \<and> rl_application_id r = application_id \<and>
       (list_ex (\<lambda>d. dp_tenant_id d = tenant_id \<and> (dp_release_id d = rl_id r \<or> dp_previous_release_id d = Some (rl_id r))) (ag_deployments db) \<or>
        (tenant_id, rl_id r) \<in> set (ag_executed_releases db))) (ag_releases db)"

definition delete_application_command ::
  "(jobject \<Rightarrow> jobject) \<Rightarrow> call \<Rightarrow> uuid \<Rightarrow> uuid \<Rightarrow> int \<Rightarrow> 'x agent_tables_scheme \<Rightarrow> api_error + (jobject \<times> 'x agent_tables_scheme)" where
  "delete_application_command jsonb c tenant_id application_id expected db =
     (case bound_version expected of
        Some e \<Rightarrow> Inl e
      | None \<Rightarrow>
         (case row_of app_key (tenant_id, application_id) (ag_applications db) of
            None \<Rightarrow> Inl (version_mismatch ''Agent application'' False)
          | Some r \<Rightarrow>
              if aa_version r \<noteq> expected then Inl (version_mismatch ''Agent application'' True)
              else if deletion_restricted tenant_id application_id db then Inl (DatabaseError IntegrityError)
              else allow jsonb c tenant_id ''agent_application.delete'' ''agent_application'' application_id
                     [(''version'', JInt expected)] [(''deleted'', JBool True)]
                     (db\<lparr>ag_applications := filter (\<lambda>q. app_key q \<noteq> (tenant_id, application_id)) (ag_applications db),
                         ag_drafts := filter (\<lambda>q. draft_key q \<noteq> (tenant_id, application_id)) (ag_drafts db),
                         ag_releases := filter (\<lambda>q. (rl_tenant_id q, rl_application_id q) \<noteq> (tenant_id, application_id)) (ag_releases db),
                         ag_deployments := filter (\<lambda>q. (dp_tenant_id q, dp_application_id q) \<noteq> (tenant_id, application_id)) (ag_deployments db)\<rparr>)))"

definition delete_application ::
  "(jobject \<Rightarrow> jobject) \<Rightarrow> call \<Rightarrow> string \<Rightarrow> string \<Rightarrow> uuid \<Rightarrow> uuid \<Rightarrow> 'x agent_tables_scheme \<Rightarrow> (api_error + http_reply) \<times> 'x agent_tables_scheme" where
  "delete_application jsonb c key if_match tenant_id application_id =
     write_route jsonb c tenant_id ''agent_application.delete'' ''agent_application'' (Some application_id)
       (\<lambda>db. with_precondition if_match (\<lambda>expected. as_reply 204 None
          (idempotent jsonb c key ''agent_application.delete''
             [(''tenant_id'', JStr tenant_id), (''application_id'', JStr application_id), (''expected_version'', JInt expected)]
             (delete_application_command jsonb c tenant_id application_id expected) db)))"

subsection \<open>Draft routes\<close>

definition draft_json :: "draft_row \<Rightarrow> jobject" where
  "draft_json r =
     [(''tenant_id'', JStr (df_tenant_id r)), (''application_id'', JStr (df_application_id r)), (''instructions'', JStr (df_instructions r)),
      (''model_alias'', JStr (df_model_alias r)), (''tool_aliases'', json_strings (df_tool_aliases r)),
      (''knowledge_refs'', json_strings (df_knowledge_refs r)), (''governance_policy_ref'', nullable JStr (df_governance_policy_ref r)),
      (''version'', JInt (df_version r)), (''created_at'', JStr (datetime_str (df_created_at r))),
      (''updated_at'', JStr (datetime_str (df_updated_at r)))]"

record draft_create =
  dc_instructions :: string
  dc_model_alias :: string
  dc_tool_aliases :: "string list"
  dc_knowledge_refs :: "string list"
  dc_governance_policy_ref :: "string option"

definition draft_create_json :: "draft_create \<Rightarrow> jobject" where
  "draft_create_json p =
     [(''instructions'', JStr (dc_instructions p)), (''model_alias'', JStr (dc_model_alias p)), (''tool_aliases'', json_strings (dc_tool_aliases p)),
      (''knowledge_refs'', json_strings (dc_knowledge_refs p)), (''governance_policy_ref'', nullable JStr (dc_governance_policy_ref p))]"

text \<open>One Draft per application, and only for one that exists.\<close>

definition insert_draft :: "draft_row \<Rightarrow> 'x agent_tables_scheme \<Rightarrow> api_error + 'x agent_tables_scheme" where
  "insert_draft r db =
     (if has_key draft_key (draft_key r) (ag_drafts db) \<or> \<not> has_key app_key (draft_key r) (ag_applications db)
      then Inl (DatabaseError IntegrityError) else Inr (db\<lparr>ag_drafts := ag_drafts db @ [r]\<rparr>))"

definition create_draft_command ::
  "(jobject \<Rightarrow> jobject) \<Rightarrow> call \<Rightarrow> uuid \<Rightarrow> uuid \<Rightarrow> draft_create \<Rightarrow> 'x agent_tables_scheme \<Rightarrow> api_error + (jobject \<times> 'x agent_tables_scheme)" where
  "create_draft_command jsonb c tenant_id application_id p db =
     (let row = \<lparr>df_tenant_id = tenant_id, df_application_id = application_id, df_instructions = dc_instructions p,
                 df_model_alias = dc_model_alias p, df_tool_aliases = dc_tool_aliases p, df_knowledge_refs = dc_knowledge_refs p,
                 df_governance_policy_ref = dc_governance_policy_ref p, df_version = 1, df_created_at = rq_now c, df_updated_at = rq_now c\<rparr> in
      case insert_draft row db of
        Inl e \<Rightarrow> Inl e
      | Inr db1 \<Rightarrow> allow jsonb c tenant_id ''agent_draft.create'' ''agent_draft'' application_id [] (draft_json row) db1)"

definition create_draft ::
  "(jobject \<Rightarrow> jobject) \<Rightarrow> call \<Rightarrow> string \<Rightarrow> uuid \<Rightarrow> uuid \<Rightarrow> draft_create \<Rightarrow> 'x agent_tables_scheme \<Rightarrow> (api_error + http_reply) \<times> 'x agent_tables_scheme" where
  "create_draft jsonb c key tenant_id application_id p =
     write_route jsonb c tenant_id ''agent_draft.create'' ''agent_draft'' (Some application_id)
       (\<lambda>db. case idempotent jsonb c key ''agent_draft.create''
                   ([(''tenant_id'', JStr tenant_id), (''application_id'', JStr application_id)] @ draft_create_json p)
                   (create_draft_command jsonb c tenant_id application_id p) db of
               Inl e \<Rightarrow> Inl (conflict_as ''Agent Draft cannot be created'' e)
             | Inr (r, db') \<Rightarrow> Inr (reply_of 201 (Some ''version'') r, db'))"

definition get_draft ::
  "(jobject \<Rightarrow> jobject) \<Rightarrow> call \<Rightarrow> uuid \<Rightarrow> uuid \<Rightarrow> 'x agent_tables_scheme \<Rightarrow> (api_error + http_reply) \<times> 'x agent_tables_scheme" where
  "get_draft jsonb c tenant_id application_id =
     read_route jsonb c tenant_id ''agent_draft.get'' ''agent_draft'' (Some application_id)
       (\<lambda>db. case row_of draft_key (tenant_id, application_id) (ag_drafts db) of
               None \<Rightarrow> Inl (HTTPException 404 ''Agent Draft not found'')
             | Some r \<Rightarrow> Inr (reply_of 200 (Some ''version'') (False, draft_json r), db))"

record draft_update =
  du_instructions :: "string option option"
  du_model_alias :: "string option option"
  du_tool_aliases :: "string list option option"
  du_knowledge_refs :: "string list option option"
  du_governance_policy_ref :: "string option option"

definition draft_changes :: "draft_update \<Rightarrow> jobject" where
  "draft_changes u =
     set_field ''instructions'' JStr (du_instructions u) @ set_field ''model_alias'' JStr (du_model_alias u) @
     set_field ''tool_aliases'' json_strings (du_tool_aliases u) @ set_field ''knowledge_refs'' json_strings (du_knowledge_refs u) @
     set_field ''governance_policy_ref'' JStr (du_governance_policy_ref u)"

text \<open>Only the policy reference can be set to null.\<close>

definition update_draft_row :: "timestamp \<Rightarrow> draft_update \<Rightarrow> draft_row \<Rightarrow> draft_row" where
  "update_draft_row now u r =
     r\<lparr>df_instructions := coalesce (du_instructions u) (df_instructions r), df_model_alias := coalesce (du_model_alias u) (df_model_alias r),
       df_tool_aliases := coalesce (du_tool_aliases u) (df_tool_aliases r), df_knowledge_refs := coalesce (du_knowledge_refs u) (df_knowledge_refs r),
       df_governance_policy_ref := (case du_governance_policy_ref u of None \<Rightarrow> df_governance_policy_ref r | Some v \<Rightarrow> v),
       df_version := df_version r + 1, df_updated_at := now\<rparr>"

definition update_draft_command ::
  "(jobject \<Rightarrow> jobject) \<Rightarrow> call \<Rightarrow> uuid \<Rightarrow> uuid \<Rightarrow> int \<Rightarrow> draft_update \<Rightarrow> 'x agent_tables_scheme \<Rightarrow> api_error + (jobject \<times> 'x agent_tables_scheme)" where
  "update_draft_command jsonb c tenant_id application_id expected u db =
     (case bound_version expected of
        Some e \<Rightarrow> Inl e
      | None \<Rightarrow>
         (case row_of draft_key (tenant_id, application_id) (ag_drafts db) of
            None \<Rightarrow> Inl (version_mismatch ''Agent Draft'' False)
          | Some r \<Rightarrow>
              if df_version r \<noteq> expected then Inl (version_mismatch ''Agent Draft'' True)
              else let row = update_draft_row (rq_now c) u r in
                allow jsonb c tenant_id ''agent_draft.update'' ''agent_draft'' application_id [(''version'', JInt (df_version row))] (draft_json row)
                  (db\<lparr>ag_drafts := update_where (\<lambda>q. draft_key q = (tenant_id, application_id)) (update_draft_row (rq_now c) u) (ag_drafts db)\<rparr>)))"

definition update_draft ::
  "(jobject \<Rightarrow> jobject) \<Rightarrow> call \<Rightarrow> string \<Rightarrow> string \<Rightarrow> uuid \<Rightarrow> uuid \<Rightarrow> draft_update \<Rightarrow> 'x agent_tables_scheme
   \<Rightarrow> (api_error + http_reply) \<times> 'x agent_tables_scheme" where
  "update_draft jsonb c key if_match tenant_id application_id u =
     write_route jsonb c tenant_id ''agent_draft.update'' ''agent_draft'' (Some application_id)
       (\<lambda>db. with_precondition if_match (\<lambda>expected. as_reply 200 (Some ''version'')
          (idempotent jsonb c key ''agent_draft.update''
             ([(''tenant_id'', JStr tenant_id), (''application_id'', JStr application_id), (''expected_version'', JInt expected)] @ draft_changes u)
             (update_draft_command jsonb c tenant_id application_id expected u) db)))"

definition delete_draft_command ::
  "(jobject \<Rightarrow> jobject) \<Rightarrow> call \<Rightarrow> uuid \<Rightarrow> uuid \<Rightarrow> int \<Rightarrow> 'x agent_tables_scheme \<Rightarrow> api_error + (jobject \<times> 'x agent_tables_scheme)" where
  "delete_draft_command jsonb c tenant_id application_id expected db =
     (case bound_version expected of
        Some e \<Rightarrow> Inl e
      | None \<Rightarrow>
         (case row_of draft_key (tenant_id, application_id) (ag_drafts db) of
            None \<Rightarrow> Inl (version_mismatch ''Agent Draft'' False)
          | Some r \<Rightarrow>
              if df_version r \<noteq> expected then Inl (version_mismatch ''Agent Draft'' True)
              else allow jsonb c tenant_id ''agent_draft.delete'' ''agent_draft'' application_id [(''version'', JInt expected)]
                     [(''deleted'', JBool True)] (db\<lparr>ag_drafts := filter (\<lambda>q. draft_key q \<noteq> (tenant_id, application_id)) (ag_drafts db)\<rparr>)))"

definition delete_draft ::
  "(jobject \<Rightarrow> jobject) \<Rightarrow> call \<Rightarrow> string \<Rightarrow> string \<Rightarrow> uuid \<Rightarrow> uuid \<Rightarrow> 'x agent_tables_scheme \<Rightarrow> (api_error + http_reply) \<times> 'x agent_tables_scheme" where
  "delete_draft jsonb c key if_match tenant_id application_id =
     write_route jsonb c tenant_id ''agent_draft.delete'' ''agent_draft'' (Some application_id)
       (\<lambda>db. with_precondition if_match (\<lambda>expected. as_reply 204 None
          (idempotent jsonb c key ''agent_draft.delete''
             [(''tenant_id'', JStr tenant_id), (''application_id'', JStr application_id), (''expected_version'', JInt expected)]
             (delete_draft_command jsonb c tenant_id application_id expected) db)))"

definition issue_json :: "draft_issue \<Rightarrow> json" where
  "issue_json i = JDict [(''code'', JStr (di_code i)), (''path'', JStr (di_path i)), (''message'', JStr (di_message i))]"

definition validate_draft_command ::
  "(jobject \<Rightarrow> jobject) \<Rightarrow> unicode_tables \<Rightarrow> call \<Rightarrow> uuid \<Rightarrow> uuid \<Rightarrow> int \<Rightarrow> 'x agent_tables_scheme \<Rightarrow> api_error + (jobject \<times> 'x agent_tables_scheme)" where
  "validate_draft_command jsonb U c tenant_id application_id expected db =
     (case bound_version expected of
        Some e \<Rightarrow> Inl e
      | None \<Rightarrow>
         (case row_of draft_key (tenant_id, application_id) (ag_drafts db) of
            None \<Rightarrow> Inl (version_mismatch ''Agent Draft'' False)
          | Some r \<Rightarrow>
              if df_version r \<noteq> expected then Inl (version_mismatch ''Agent Draft'' True)
              else let issues = validate_draft_configuration U r in
                allow jsonb c tenant_id ''agent_draft.validate'' ''agent_draft'' application_id
                  [(''valid'', JBool (issues = [])), (''draft_version'', JInt expected), (''issue_codes'', JList (map (\<lambda>i. JStr (di_code i)) issues))]
                  [(''valid'', JBool (issues = [])), (''draft_version'', JInt expected), (''issues'', JList (map issue_json issues))] db))"

definition validate_draft ::
  "(jobject \<Rightarrow> jobject) \<Rightarrow> unicode_tables \<Rightarrow> call \<Rightarrow> string \<Rightarrow> string \<Rightarrow> uuid \<Rightarrow> uuid \<Rightarrow> 'x agent_tables_scheme
   \<Rightarrow> (api_error + http_reply) \<times> 'x agent_tables_scheme" where
  "validate_draft jsonb U c key if_match tenant_id application_id =
     write_route jsonb c tenant_id ''agent_draft.validate'' ''agent_draft'' (Some application_id)
       (\<lambda>db. with_precondition if_match (\<lambda>expected. as_reply 200 (Some ''draft_version'')
          (idempotent jsonb c key ''agent_draft.validate''
             [(''tenant_id'', JStr tenant_id), (''application_id'', JStr application_id), (''expected_version'', JInt expected)]
             (validate_draft_command jsonb U c tenant_id application_id expected) db)))"

subsection \<open>Publishing a Release\<close>

record release_create =
  rc_data_classification :: data_classification
  rc_region :: string
  rc_fallback_aliases :: "string list"

definition profile_json :: "model_profile \<Rightarrow> json" where
  "profile_json p = JDict
     [(''tenant_id'', JStr (mp_tenant_id p)), (''alias'', JStr (mp_alias p)), (''provider_model'', JStr (mp_provider_model p)),
      (''endpoint_url'', JStr (mp_endpoint_url p)), (''secret_ref'', JStr (mp_secret_ref p)),
      (''data_classification'', JStr (class_value (mp_data_classification p))), (''region'', JStr (mp_region p)),
      (''fallback_aliases'', json_strings (mp_fallback_aliases p)), (''requests_per_minute'', JInt (mp_requests_per_minute p))]"

definition draft_snapshot :: "draft_row \<Rightarrow> jobject" where
  "draft_snapshot d =
     [(''instructions'', JStr (df_instructions d)), (''model_alias'', JStr (df_model_alias d)), (''tool_aliases'', json_strings (df_tool_aliases d)),
      (''knowledge_refs'', json_strings (df_knowledge_refs d)), (''governance_policy_ref'', nullable JStr (df_governance_policy_ref d)),
      (''version'', JInt (df_version d))]"

definition release_content :: "jobject \<Rightarrow> data_classification \<Rightarrow> string \<Rightarrow> string list \<Rightarrow> model_profile list \<Rightarrow> json" where
  "release_content snapshot classification region fallbacks profiles = JDict
     [(''draft'', JDict snapshot), (''data_classification'', JStr (class_value classification)), (''region'', JStr region),
      (''fallback_aliases'', json_strings fallbacks), (''model_profiles'', JList (map profile_json profiles))]"

definition release_hash :: "jobject \<Rightarrow> data_classification \<Rightarrow> string \<Rightarrow> string list \<Rightarrow> model_profile list \<Rightarrow> string" where
  "release_hash snapshot classification region fallbacks profiles =
     sha256_hex (canonical_dumps (release_content snapshot classification region fallbacks profiles))"

text \<open>The profiles of the fallbacks in the order of the request; the first one that is missing is the error.\<close>

fun fallback_profiles :: "uuid \<Rightarrow> string list \<Rightarrow> model_profile list \<Rightarrow> model_profile list option" where
  "fallback_profiles tenant_id [] t = Some []"
| "fallback_profiles tenant_id (a # as) t =
     (case row_of profile_key (tenant_id, a) t of
        None \<Rightarrow> None | Some p \<Rightarrow> map_option ((#) p) (fallback_profiles tenant_id as t))"

definition next_release_version :: "uuid \<Rightarrow> uuid \<Rightarrow> published_release list \<Rightarrow> int" where
  "next_release_version tenant_id application_id t =
     Max (insert 0 (rl_version ` set (filter (\<lambda>r. rl_tenant_id r = tenant_id \<and> rl_application_id r = application_id) t))) + 1"

definition release_json :: "published_release \<Rightarrow> jobject" where
  "release_json r =
     [(''id'', JStr (rl_id r)), (''tenant_id'', JStr (rl_tenant_id r)), (''application_id'', JStr (rl_application_id r)),
      (''version'', JInt (rl_version r)), (''model_alias'', JStr (rl_model_alias r)),
      (''data_classification'', JStr (class_value (rl_data_classification r))), (''region'', JStr (rl_region r)),
      (''fallback_aliases'', json_strings (rl_fallback_aliases r)), (''model_profiles'', JList (map profile_json (rl_model_profiles r))),
      (''draft_snapshot'', JDict (rl_draft_snapshot r)), (''content_hash'', JStr (rl_content_hash r)),
      (''created_at'', JStr (datetime_str (rl_created_at r))),
      (''source'', JDict [(''draft_version'', nullable JInt (rl_source_draft_version r)), (''actor'', JStr (rl_source_actor r)),
         (''kind'', JStr (case rl_source_draft_version r of None \<Rightarrow> ''LEGACY'' | Some _ \<Rightarrow> ''DRAFT''))])]"

definition insert_release :: "published_release \<Rightarrow> 'x agent_tables_scheme \<Rightarrow> api_error + 'x agent_tables_scheme" where
  "insert_release r db =
     (if has_key release_key (release_key r) (ag_releases db) \<or> has_key release_number (release_number r) (ag_releases db)
      then Inl (DatabaseError IntegrityError) else Inr (db\<lparr>ag_releases := ag_releases db @ [r]\<rparr>))"

definition new_release :: "call \<Rightarrow> uuid \<Rightarrow> uuid \<Rightarrow> release_create \<Rightarrow> draft_row \<Rightarrow> model_profile list \<Rightarrow> int \<Rightarrow> published_release" where
  "new_release c release_id application_id p d profiles version =
     \<lparr>rl_tenant_id = df_tenant_id d, rl_id = release_id, rl_application_id = application_id, rl_version = version, rl_model_alias = df_model_alias d,
      rl_data_classification = rc_data_classification p, rl_region = rc_region p, rl_fallback_aliases = rc_fallback_aliases p,
      rl_model_profiles = profiles, rl_source_draft_version = Some (df_version d), rl_source_actor = pr_subject (rq_principal c),
      rl_draft_snapshot = draft_snapshot d,
      rl_content_hash = release_hash (draft_snapshot d) (rc_data_classification p) (rc_region p) (rc_fallback_aliases p) profiles,
      rl_created_at = rq_now c\<rparr>"

text \<open>The configuration a Release would be made of: the checks of the route on the Draft and its profiles.\<close>

definition release_profiles :: "unicode_tables \<Rightarrow> release_create \<Rightarrow> draft_row option \<Rightarrow> 'x agent_tables_scheme \<Rightarrow> api_error + (draft_row \<times> model_profile list)" where
  "release_profiles U p draft db =
     (case draft of
        None \<Rightarrow> Inl (HTTPException 409 ''Agent Draft with model alias is required'')
      | Some d \<Rightarrow>
          if df_model_alias d = [] then Inl (HTTPException 409 ''Agent Draft with model alias is required'')
          else if validate_draft_configuration U d \<noteq> [] then Inl (HTTPException 409 ''Agent Draft validation is required'')
          else case row_of profile_key (df_tenant_id d, df_model_alias d) (ag_profiles db) of
            None \<Rightarrow> Inl (HTTPException 409 ''Draft model profile does not exist'')
          | Some m \<Rightarrow>
              if \<not> set (rc_fallback_aliases p) \<subseteq> set (mp_fallback_aliases m)
              then Inl (HTTPException 422 ''Release fallback is not configured on model profile'')
              else case fallback_profiles (df_tenant_id d) (rc_fallback_aliases p) (ag_profiles db) of
                None \<Rightarrow> Inl (HTTPException 409 ''Fallback model profile does not exist'')
              | Some fs \<Rightarrow> Inr (d, m # fs))"

definition publish_command ::
  "(jobject \<Rightarrow> jobject) \<Rightarrow> unicode_tables \<Rightarrow> call \<Rightarrow> uuid \<Rightarrow> uuid \<Rightarrow> uuid \<Rightarrow> release_create \<Rightarrow> 'x agent_tables_scheme
   \<Rightarrow> api_error + (jobject \<times> 'x agent_tables_scheme)" where
  "publish_command jsonb U c release_id tenant_id application_id p db =
     (if \<not> has_key app_key (tenant_id, application_id) (ag_applications db) then Inl (HTTPException 404 ''Agent application not found'')
      else case release_profiles U p (row_of draft_key (tenant_id, application_id) (ag_drafts db)) db of
        Inl e \<Rightarrow> Inl e
      | Inr (d, profiles) \<Rightarrow>
         (let row = new_release c release_id application_id p d profiles (next_release_version tenant_id application_id (ag_releases db)) in
          case insert_release row db of
            Inl e \<Rightarrow> Inl e
          | Inr db1 \<Rightarrow> allow jsonb c tenant_id ''agent_release.publish'' ''agent_release'' release_id
              [(''application_id'', JStr application_id), (''draft_version'', JInt (df_version d)), (''content_hash'', JStr (rl_content_hash row)),
               (''fallback_used'', JBool False)] (release_json row) db1))"

definition publish_release ::
  "(jobject \<Rightarrow> jobject) \<Rightarrow> unicode_tables \<Rightarrow> call \<Rightarrow> uuid \<Rightarrow> string \<Rightarrow> uuid \<Rightarrow> uuid \<Rightarrow> release_create \<Rightarrow> 'x agent_tables_scheme
   \<Rightarrow> (api_error + http_reply) \<times> 'x agent_tables_scheme" where
  "publish_release jsonb U c release_id key tenant_id application_id p =
     write_route jsonb c tenant_id ''agent_release.publish'' ''agent_application'' (Some application_id)
       (\<lambda>db. as_reply 201 None (idempotent jsonb c key ''agent_release.publish''
          [(''tenant_id'', JStr tenant_id), (''application_id'', JStr application_id),
           (''data_classification'', JStr (class_value (rc_data_classification p))), (''region'', JStr (rc_region p)),
           (''fallback_aliases'', json_strings (rc_fallback_aliases p))]
          (publish_command jsonb U c release_id tenant_id application_id p) db))"

definition list_releases ::
  "(jobject \<Rightarrow> jobject) \<Rightarrow> call \<Rightarrow> uuid \<Rightarrow> uuid \<Rightarrow> nat \<Rightarrow> string option \<Rightarrow> 'x agent_tables_scheme
   \<Rightarrow> (api_error + jobject page) \<times> 'x agent_tables_scheme" where
  "list_releases jsonb c tenant_id application_id limit cursor =
     read_route jsonb c tenant_id ''agent_release.list'' ''agent_application'' (Some application_id)
       (\<lambda>db. case decode_cursor cursor of
               None \<Rightarrow> Inl (HTTPException 400 ''invalid cursor'')
             | Some cursor_id \<Rightarrow>
                (let p = list_page rl_id limit cursor_id (filter (\<lambda>r. rl_tenant_id r = tenant_id \<and> rl_application_id r = application_id) (ag_releases db))
                 in Inr (\<lparr>pg_items = map release_json (pg_items p), pg_next_cursor = pg_next_cursor p\<rparr>, db)))"

subsection \<open>What a route can change\<close>

text \<open>The tables of this component; the audit chain and the idempotency ledger are no part of them.\<close>

definition agents_of :: "'x agent_tables_scheme \<Rightarrow>
   application_row list \<times> draft_row list \<times> published_release list \<times> deployment_row list \<times> eval_suite_row list \<times> eval_run_row list \<times> canary_row list" where
  "agents_of db = (ag_applications db, ag_drafts db, ag_releases db, ag_deployments db, ag_suites db, ag_runs db, ag_observations db)"

lemma agents_of_frame [simp]:
  "agents_of (db\<lparr>ad_audit := a\<rparr>) = agents_of db" "agents_of (db\<lparr>ad_idempotency := i\<rparr>) = agents_of db"
  by (simp_all add: agents_of_def)

lemma allow_agents: "allow jsonb c t a tt ti det result db = Inr (r, db') \<Longrightarrow> r = result \<and> agents_of db' = agents_of db"
  by (auto simp: allow_def audited_def split: sum.splits)

lemma idempotent_effect:
  assumes "idempotent jsonb c key operation payload command db = Inr (r, db')"
  shows "db' = db \<and> fst r \<or> (\<exists>db1. command db = Inr (snd r, db1) \<and> agents_of db' = agents_of db1 \<and> \<not> fst r)"
  using assms by (auto simp: idempotent_def remember_def Let_def split: sum.splits option.splits if_splits)

text \<open>A route leaves the tables alone, apart from an audited refusal, or its body ran.\<close>

lemma guarded_effect:
  assumes "\<And>db. fst (check db) = None \<Longrightarrow> snd (check db) = db" "\<And>db. agents_of (snd (check db)) = agents_of db"
  shows "agents_of (snd (guarded check body db)) = agents_of db \<or> (\<exists>r. body db = Inr (r, snd (guarded check body db)))"
proof (cases "check db")
  case (Pair e db1)
  have "e = None \<Longrightarrow> db1 = db" "agents_of db1 = agents_of db" using assms(1) [of db] assms(2) [of db] Pair by simp_all
  then show ?thesis using Pair by (cases e) (auto simp: guarded_def split: sum.splits)
qed

lemma access_agents: "agents_of (snd (require_tenant_access jsonb i now who t m a tt ti db)) = agents_of db"
  by (subst require_access_frame) simp

lemma write_route_effect:
  "agents_of (snd (write_route jsonb c t a tt ti body db)) = agents_of db \<or> (\<exists>r. body db = Inr (r, snd (write_route jsonb c t a tt ti body db)))"
  unfolding write_route_def by (rule guarded_effect) (auto intro: require_access_pass access_agents)

lemma reply_effect:
  "as_reply s f (idempotent jsonb c key op payload command db) = Inr (r, db') \<Longrightarrow>
   agents_of db' = agents_of db \<or> (\<exists>res db1. command db = Inr (res, db1) \<and> agents_of db' = agents_of db1)"
  using idempotent_effect [of jsonb c key op payload command db] by (auto simp: as_reply_def split: sum.splits)

text \<open>So a route either keeps the tables or writes what its command wrote.\<close>

definition effect_of :: "('x agent_tables_scheme \<Rightarrow> api_error + (jobject \<times> 'x agent_tables_scheme)) \<Rightarrow> 'x agent_tables_scheme \<Rightarrow> 'x agent_tables_scheme \<Rightarrow> bool" where
  "effect_of command db db' \<longleftrightarrow> agents_of db' = agents_of db \<or> (\<exists>res db1. command db = Inr (res, db1) \<and> agents_of db' = agents_of db1)"

lemma effect_of_route:
  assumes "\<And>r db'. body db = Inr (r, db') \<Longrightarrow> effect_of command db db'"
  shows "effect_of command db (snd (write_route jsonb c t a tt ti body db))"
  using write_route_effect [of jsonb c t a tt ti body db] assms by (auto simp: effect_of_def)

lemma effect_of_reply:
  "as_reply s f (idempotent jsonb c key op payload command db) = Inr (r, db') \<Longrightarrow> effect_of command db db'"
  unfolding effect_of_def by (rule reply_effect)

lemma effect_of_idempotent:
  "idempotent jsonb c key op payload command db = Inr (r, db') \<Longrightarrow> effect_of command db db'"
  using idempotent_effect [of jsonb c key op payload command db r db'] by (cases r) (auto simp: effect_of_def)

text \<open>Under a precondition the command depends on the version that was parsed.\<close>

lemma with_precondition_effect:
  assumes "with_precondition m k = Inr r"
  obtains v where "parse_if_match m = Inr v" "k v = Inr r"
  using assms by (auto simp: with_precondition_def split: sum.splits)

subsection \<open>Calls on fresh tables\<close>

text \<open>A platform administrator's call on tables without audit rows and idempotency records does what its command does.\<close>

definition admin_call :: "string \<Rightarrow> timestamp \<Rightarrow> call" where
  "admin_call who now = \<lparr>rq_principal = \<lparr>pr_subject = who, pr_auth_method = ''emergency'', pr_roles = [''PLATFORM_ADMIN'']\<rparr>, rq_now = now,
     rq_denial_id = ''x'', rq_event_id = ''e''\<rparr>"

definition fresh_tables :: agent_tables where
  "fresh_tables = \<lparr>ad_audit = \<lparr>au_tenants = [''t''], au_chain_state = Map.empty, au_events = [], au_outbox = [], au_manifests = []\<rparr>,
     ad_members = [], ad_roles = [], ad_idempotency = [], ag_applications = [], ag_drafts = [], ag_profiles = [], ag_releases = [],
     ag_deployments = [], ag_suites = [], ag_runs = [], ag_observations = [], ag_executed_releases = [], ag_tool_versions = [],
     ag_policy_versions = [], ag_revisions = []\<rparr>"

definition fresh :: "'x agent_tables_scheme \<Rightarrow> bool" where
  "fresh db \<longleftrightarrow> ad_audit db = ad_audit fresh_tables \<and> ad_idempotency db = []"

lemma admin_call_simps [simp]: "rq_now (admin_call who now) = now" "pr_subject (rq_principal (admin_call who now)) = who"
  by (simp_all add: admin_call_def)

lemma allow_fresh:
  "ad_audit db = ad_audit fresh_tables \<Longrightarrow> \<exists>a. allow jsonb (admin_call who now) ''t'' act tt ti det res db = Inr (res, db\<lparr>ad_audit := a\<rparr>)"
  by (auto simp: allow_def audited_def insert_audit_def append_to_chain_def insert_event_row_def fresh_tables_def admin_call_def
      chain_key_def has_key_def Let_def)

lemma idempotent_fresh:
  assumes "ad_idempotency db = []" "command db = Inr (res, db1)" "ad_idempotency db1 = []"
  shows "\<exists>i. idempotent jsonb c key op payload command db = Inr ((False, res), db1\<lparr>ad_idempotency := i\<rparr>)"
  using assms by (auto simp: idempotent_def replay_for_def remember_def has_key_def Let_def)

lemma write_route_admin: "body db = Inr (r, db') \<Longrightarrow> write_route jsonb (admin_call who now) t a tt ti body db = (Inr r, db')"
  by (simp add: write_route_def guarded_def require_tenant_access_def admin_call_def PLATFORM_ROLES_def)

text \<open>
  The whole route in one step: the command as far as its audit row, then the answer and the tables it wrote.
\<close>

lemma route_fresh:
  assumes "command db = allow jsonb (admin_call who now) ''t'' act tt ti det res db1"
    and "fresh db" "ad_idempotency db1 = []" "ad_audit db1 = ad_audit fresh_tables" "\<And>d. g (Inr ((False, res), d)) = Inr (r, d)"
  shows "\<exists>db'. write_route jsonb (admin_call who now) t' a' tt' ti' (\<lambda>db. g (idempotent jsonb (admin_call who now) key op payload command db)) db = (Inr r, db') \<and>
    agents_of db' = agents_of db1"
proof -
  obtain au where "command db = Inr (res, db1\<lparr>ad_audit := au\<rparr>)"
    using allow_fresh [OF assms(4), of jsonb who now act tt ti det res] assms(1) by auto
  then obtain ids where "idempotent jsonb (admin_call who now) key op payload command db = Inr ((False, res), db1\<lparr>ad_audit := au, ad_idempotency := ids\<rparr>)"
    using idempotent_fresh [of db command res "db1\<lparr>ad_audit := au\<rparr>"] assms(2,3) by (fastforce simp: fresh_def)
  then show ?thesis using write_route_admin [of "\<lambda>db. g (idempotent jsonb (admin_call who now) key op payload command db)" db r] assms(5)
    by (auto simp: agents_of_def)
qed

end
