(* ===== verification/Eval_Gate.thy ===== *)
theory Eval_Gate
  imports Agent_Drafts "HOL-Library.Product_Lexorder"
begin

text \<open>
  Evaluation evidence and the gate it forms: \<open>trpc_service/evals.py\<close> and the suite and run routes of
  \<open>admin_api/evals.py\<close>. Numbers of JSON become doubles: an integer or a decimal text is rounded to the
  nearest one, and the comparisons are those of IEEE values, with the infinities and NaN, which Python's
  JSON reader accepts. \<open>num_repr\<close> is the parameter for the text \<open>repr\<close> gives for such a double.
\<close>

subsection \<open>Doubles\<close>

text \<open>A finite double is a quotient with a positive denominator.\<close>

datatype double = Finite int int | Infinite bool | NaN

fun double_less :: "double \<Rightarrow> double \<Rightarrow> bool" where
  "double_less NaN _ = False"
| "double_less _ NaN = False"
| "double_less (Finite a b) (Finite c d) = (a * d < c * b)"
| "double_less (Finite a b) (Infinite neg) = (\<not> neg)"
| "double_less (Infinite neg) (Finite c d) = neg"
| "double_less (Infinite neg) (Infinite neg') = (neg \<and> \<not> neg')"

definition round_double :: "int \<Rightarrow> int \<Rightarrow> double" where
  "round_double n d = (if n < 0 then (case float_div (- n) d of (a, b) \<Rightarrow> Finite (- a) b) else case float_div n d of (a, b) \<Rightarrow> Finite a b)"

text \<open>The decimal text of a float: sign, digits, fraction and exponent as \<open>repr\<close> writes them.\<close>

definition split_at :: "char \<Rightarrow> string \<Rightarrow> string \<times> string" where
  "split_at c s = (takeWhile (\<lambda>x. x \<noteq> c) s, drop 1 (dropWhile (\<lambda>x. x \<noteq> c) s))"

definition signed :: "string \<Rightarrow> bool \<times> string" where
  "signed s = (if take 1 s = ''-'' then (True, drop 1 s) else if take 1 s = ''+'' then (False, drop 1 s) else (False, s))"

definition float_of_text :: "string \<Rightarrow> double" where
  "float_of_text t =
     (case signed t of (neg, u) \<Rightarrow>
        if u = ''inf'' then Infinite neg else if u = ''nan'' then NaN
        else let (mantissa, ex) = split_at (CHR ''e'') u; (whole, frac) = split_at (CHR ''.'') mantissa;
                 n = int (nat_of_digits 0 (whole @ frac)); (eneg, digits) = signed ex;
                 e = (if eneg then - int (nat_of_digits 0 digits) else int (nat_of_digits 0 digits)) - int (length frac);
                 m = (if neg then - n else n)
             in if 0 \<le> e then round_double (m * 10 ^ nat e) 1 else round_double m (10 ^ nat (- e)))"

text \<open>\<open>_number\<close>: \<open>Inl\<close> is the \<open>OverflowError\<close> of an integer beyond the doubles, \<open>Inr None\<close> no number at all.\<close>

definition json_double :: "json option \<Rightarrow> unit + double option" where
  "json_double v =
     (case v of
        Some (JInt i) \<Rightarrow> if 2 ^ 1024 - 2 ^ 970 \<le> \<bar>i\<bar> then Inl () else Inr (Some (round_double i 1))
      | Some (JFloat t) \<Rightarrow> Inr (Some (float_of_text t))
      | _ \<Rightarrow> Inr None)"

text \<open>\<open>_threshold\<close>: what is no number, or negative, counts as zero (NaN fails the comparison).\<close>

definition threshold :: "json option \<Rightarrow> unit + double" where
  "threshold v =
     (case json_double v of
        Inl e \<Rightarrow> Inl e
      | Inr None \<Rightarrow> Inr (Finite 0 1)
      | Inr (Some x) \<Rightarrow> Inr (if x = NaN \<or> double_less x (Finite 0 1) then Finite 0 1 else x))"

subsection \<open>The decision on one body of evidence\<close>

definition object_field :: "jobject \<Rightarrow> string \<Rightarrow> jobject" where
  "object_field d k = (case dict_get d k of Some (JDict o') \<Rightarrow> o' | _ \<Rightarrow> [])"

definition failed_assertions :: "string list \<Rightarrow> jobject \<Rightarrow> string list" where
  "failed_assertions assertions evidence =
     filter (\<lambda>a. dict_get (object_field evidence ''assertions'') a \<noteq> Some (JBool True)) assertions"

record metric_values =
  mv_quality :: "double option"
  mv_latency_ms :: "double option"
  mv_cost_micros :: "double option"

definition metrics_of :: "jobject \<Rightarrow> unit + metric_values" where
  "metrics_of evidence =
     (let m = object_field evidence ''metrics'' in
      case (json_double (dict_get m ''quality''), json_double (dict_get m ''latency_ms''), json_double (dict_get m ''cost_micros'')) of
        (Inr q, Inr l, Inr c) \<Rightarrow> Inr \<lparr>mv_quality = q, mv_latency_ms = l, mv_cost_micros = c\<rparr>
      | _ \<Rightarrow> Inl ())"

text \<open>The threshold of a metric is only read when the metric is a number.\<close>

definition misses :: "(double \<Rightarrow> double \<Rightarrow> bool) \<Rightarrow> double option \<Rightarrow> json option \<Rightarrow> unit + bool" where
  "misses worse value bound =
     (case value of
        None \<Rightarrow> Inr True
      | Some v \<Rightarrow> (case threshold bound of Inl e \<Rightarrow> Inl e | Inr b \<Rightarrow> Inr (worse v b)))"

definition threshold_failures :: "jobject \<Rightarrow> metric_values \<Rightarrow> unit + string list" where
  "threshold_failures thresholds m =
     (case (misses double_less (mv_quality m) (dict_get thresholds ''quality_min''),
            misses (\<lambda>v b. double_less b v) (mv_latency_ms m) (dict_get thresholds ''latency_ms_max''),
            misses (\<lambda>v b. double_less b v) (mv_cost_micros m) (dict_get thresholds ''cost_micros_max'')) of
        (Inr q, Inr l, Inr c) \<Rightarrow>
          Inr ((if q then [''QUALITY_THRESHOLD''] else []) @ (if l then [''LATENCY_THRESHOLD''] else []) @ (if c then [''COST_THRESHOLD''] else []))
      | _ \<Rightarrow> Inl ())"

record eval_result =
  ev_failed_assertions :: "string list"
  ev_failed_thresholds :: "string list"
  ev_metrics :: metric_values
  ev_passed :: bool

definition evaluate_evidence :: "jobject \<Rightarrow> string list \<Rightarrow> jobject \<Rightarrow> unit + eval_result" where
  "evaluate_evidence thresholds assertions evidence =
     (case metrics_of evidence of
        Inl e \<Rightarrow> Inl e
      | Inr m \<Rightarrow>
         (case threshold_failures thresholds m of
            Inl e \<Rightarrow> Inl e
          | Inr missed \<Rightarrow>
             (let fa = failed_assertions assertions evidence in
              Inr \<lparr>ev_failed_assertions = fa, ev_failed_thresholds = missed, ev_metrics = m, ev_passed = (fa = [] \<and> missed = [])\<rparr>)))"

definition eval_status :: "bool \<Rightarrow> string" where
  "eval_status passed = (if passed then ''PASSED'' else ''FAILED'')"

definition result_json :: "(double \<Rightarrow> string) \<Rightarrow> eval_result \<Rightarrow> jobject" where
  "result_json num_repr r =
     (let num = nullable (\<lambda>x. JFloat (num_repr x)); m = ev_metrics r in
      [(''failed_assertions'', json_strings (ev_failed_assertions r)), (''failed_thresholds'', json_strings (ev_failed_thresholds r)),
       (''metrics'', JDict [(''quality'', num (mv_quality m)), (''latency_ms'', num (mv_latency_ms m)), (''cost_micros'', num (mv_cost_micros m))]),
       (''status'', JStr (eval_status (ev_passed r)))])"

text \<open>What a \<open>jsonb\<close> column takes: no NaN or infinity, and no NUL in a string.\<close>

definition storable_text :: "string \<Rightarrow> bool" where
  "storable_text s \<longleftrightarrow> list_all (\<lambda>c. (of_char c :: nat) \<noteq> 0) s"

fun storable :: "json \<Rightarrow> bool" where
  "storable (JFloat t) = (snd (signed t) \<notin> {''inf'', ''nan''})"
| "storable (JStr s) = storable_text s"
| "storable (JList vs) = list_all storable vs"
| "storable (JDict kvs) = list_all (\<lambda>(k, v). storable_text k \<and> storable v) kvs"
| "storable _ = True"

subsection \<open>The gate\<close>

text \<open>The newest run of a Release in production is the one with the latest time and then the highest id.\<close>

definition run_order :: "eval_run_row \<Rightarrow> timestamp \<times> uuid" where
  "run_order r = (er_created_at r, er_id r)"

definition production_runs :: "uuid \<Rightarrow> uuid \<Rightarrow> uuid \<Rightarrow> eval_run_row list \<Rightarrow> eval_run_row list" where
  "production_runs tenant_id application_id release_id t =
     sort_key run_order (filter (\<lambda>r. er_tenant_id r = tenant_id \<and> er_application_id r = application_id \<and> er_release_id r = release_id \<and>
       er_environment r = ''PRODUCTION'') t)"

definition production_eval_gate_error :: "uuid \<Rightarrow> uuid \<Rightarrow> uuid \<Rightarrow> eval_run_row list \<Rightarrow> string option" where
  "production_eval_gate_error tenant_id application_id release_id t =
     (let runs = production_runs tenant_id application_id release_id t in
      if runs = [] then Some ''EVAL_RUN_REQUIRED''
      else if er_passed (last runs) then None else Some ''EVAL_RUN_FAILED'')"

subsection \<open>Canonical ASCII JSON\<close>

definition u_escape :: "nat \<Rightarrow> string" where
  "u_escape n = [backslash, CHR ''u'', hex_digit (n div 4096 mod 16), hex_digit (n div 256 mod 16), hex_digit (n div 16 mod 16), hex_digit (n mod 16)]"

definition ascii_escape :: "nat \<Rightarrow> string" where
  "ascii_escape n =
     (if n = 34 \<or> n = 92 then [backslash, char_of n]
      else if n = 10 then [backslash, CHR ''n''] else if n = 13 then [backslash, CHR ''r''] else if n = 9 then [backslash, CHR ''t'']
      else if n = 8 then [backslash, CHR ''b''] else if n = 12 then [backslash, CHR ''f'']
      else if 32 \<le> n \<and> n \<le> 126 then [char_of n]
      else if n < 65536 then u_escape n
      else u_escape (55296 + (n - 65536) div 1024) @ u_escape (56320 + (n - 65536) mod 1024))"

definition ascii_str :: "string \<Rightarrow> string" where
  "ascii_str s = [quote_char] @ concat (map ascii_escape (utf8_decode s)) @ [quote_char]"

text \<open>\<open>json.dumps(v, sort_keys=True, separators=(",", ":"))\<close>, which escapes everything outside ASCII.\<close>

fun ascii_dumps :: "json \<Rightarrow> string" where
  "ascii_dumps JNull = ''null''"
| "ascii_dumps (JBool b) = (if b then ''true'' else ''false'')"
| "ascii_dumps (JInt i) = str_of_int i"
| "ascii_dumps (JFloat t) = t"
| "ascii_dumps (JStr s) = ascii_str s"
| "ascii_dumps (JList vs) = ''['' @ join '','' (map ascii_dumps vs) @ '']''"
| "ascii_dumps (JDict kvs) =
     ''{'' @ join '','' (map (\<lambda>(k, t). ascii_str k @ '':'' @ t) (sort_key fst (map (\<lambda>(k, v). (k, ascii_dumps v)) kvs))) @ ''}''"

subsection \<open>Suites\<close>

record suite_create =
  su_slug :: string
  su_dataset :: jobject
  su_scorers :: json
  su_thresholds :: jobject
  su_assertions :: "string list"

definition suite_request :: "uuid \<Rightarrow> uuid \<Rightarrow> suite_create \<Rightarrow> jobject" where
  "suite_request tenant_id application_id p =
     [(''tenant_id'', JStr tenant_id), (''application_id'', JStr application_id), (''slug'', JStr (su_slug p)), (''dataset'', JDict (su_dataset p)),
      (''scorers'', su_scorers p), (''thresholds'', JDict (su_thresholds p)), (''deterministic_assertions'', json_strings (su_assertions p))]"

definition suite_json :: "eval_suite_row \<Rightarrow> jobject" where
  "suite_json r =
     [(''id'', JStr (es_id r)), (''tenant_id'', JStr (es_tenant_id r)), (''application_id'', JStr (es_application_id r)), (''slug'', JStr (es_slug r)),
      (''dataset'', JDict (es_dataset r)), (''scorers'', es_scorers r), (''thresholds'', JDict (es_thresholds r)),
      (''deterministic_assertions'', json_strings (es_assertions r)), (''content_hash'', JStr (es_content_hash r)),
      (''created_at'', JStr (datetime_str (es_created_at r))), (''version'', JInt (es_version r))]"

definition suite_key :: "eval_suite_row \<Rightarrow> uuid \<times> uuid" where "suite_key r = (es_tenant_id r, es_id r)"
definition suite_number :: "eval_suite_row \<Rightarrow> uuid \<times> uuid \<times> string \<times> int" where
  "suite_number r = (es_tenant_id r, es_application_id r, es_slug r, es_version r)"

definition next_suite_version :: "uuid \<Rightarrow> uuid \<Rightarrow> string \<Rightarrow> eval_suite_row list \<Rightarrow> int" where
  "next_suite_version tenant_id application_id slug t =
     Max (insert 0 (es_version ` set (filter (\<lambda>r. es_tenant_id r = tenant_id \<and> es_application_id r = application_id \<and> es_slug r = slug) t))) + 1"

definition insert_suite :: "eval_suite_row \<Rightarrow> 'x agent_tables_scheme \<Rightarrow> api_error + 'x agent_tables_scheme" where
  "insert_suite r db =
     (if \<not> (storable (JDict (es_dataset r)) \<and> storable (es_scorers r) \<and> storable (JDict (es_thresholds r))) then Inl (DatabaseError OperationalError)
      else if has_key suite_key (suite_key r) (ag_suites db) \<or> has_key suite_number (suite_number r) (ag_suites db) \<or>
         es_created_by r = [] \<or> 256 < length (es_created_by r) then Inl (DatabaseError IntegrityError)
      else Inr (db\<lparr>ag_suites := ag_suites db @ [r]\<rparr>))"

definition create_suite_command ::
  "(jobject \<Rightarrow> jobject) \<Rightarrow> call \<Rightarrow> uuid \<Rightarrow> uuid \<Rightarrow> uuid \<Rightarrow> suite_create \<Rightarrow> 'x agent_tables_scheme \<Rightarrow> api_error + (jobject \<times> 'x agent_tables_scheme)" where
  "create_suite_command jsonb c suite_id tenant_id application_id p db =
     (if \<not> has_key app_key (tenant_id, application_id) (ag_applications db) then Inl (HTTPException 404 ''Agent application not found'')
      else let hash = sha256_hex (ascii_dumps (JDict (suite_request tenant_id application_id p)));
               row = \<lparr>es_tenant_id = tenant_id, es_id = suite_id, es_application_id = application_id, es_slug = su_slug p,
                      es_version = next_suite_version tenant_id application_id (su_slug p) (ag_suites db), es_dataset = su_dataset p,
                      es_scorers = su_scorers p, es_thresholds = su_thresholds p, es_assertions = su_assertions p, es_content_hash = hash,
                      es_created_by = pr_subject (rq_principal c), es_created_at = rq_now c\<rparr>
           in case insert_suite row db of
                Inl e \<Rightarrow> Inl e
              | Inr db1 \<Rightarrow> allow jsonb c tenant_id ''eval_suite.create'' ''eval_suite'' suite_id
                  [(''application_id'', JStr application_id), (''content_hash'', JStr hash)] (suite_json row) db1)"

definition create_eval_suite ::
  "(jobject \<Rightarrow> jobject) \<Rightarrow> call \<Rightarrow> uuid \<Rightarrow> string \<Rightarrow> uuid \<Rightarrow> uuid \<Rightarrow> suite_create \<Rightarrow> 'x agent_tables_scheme
   \<Rightarrow> (api_error + http_reply) \<times> 'x agent_tables_scheme" where
  "create_eval_suite jsonb c suite_id key tenant_id application_id p =
     write_route jsonb c tenant_id ''eval_suite.create'' ''agent_application'' (Some application_id)
       (\<lambda>db. as_reply 201 None (idempotent jsonb c key ''eval_suite.create'' (suite_request tenant_id application_id p)
          (create_suite_command jsonb c suite_id tenant_id application_id p) db))"

subsection \<open>Runs\<close>

definition TRPC_AGENT_VERSION :: string where "TRPC_AGENT_VERSION = ''1.1.19''"

definition snapshot_strings :: "jobject \<Rightarrow> string \<Rightarrow> string list" where
  "snapshot_strings d k = (case dict_get d k of Some (JList vs) \<Rightarrow> map py_str vs | _ \<Rightarrow> [])"

definition tool_version :: "uuid \<Rightarrow> string \<Rightarrow> (uuid \<times> string \<times> int) list \<Rightarrow> int option" where
  "tool_version tenant_id name t =
     (let vs = map (snd \<circ> snd) (filter (\<lambda>(t', n, v). t' = tenant_id \<and> n = name) t) in if vs = [] then None else Some (Max (set vs)))"

definition revision_of :: "uuid \<Rightarrow> string list \<Rightarrow> string \<Rightarrow> knowledge_revision_row list \<Rightarrow> knowledge_revision_row option" where
  "revision_of tenant_id refs reference t =
     find (\<lambda>r. kr_tenant_id r = tenant_id \<and> kr_id r = reference \<and> list_ex (\<lambda>x. parse_uuid x = Some (kr_id r)) refs) t"

definition dependency_snapshot :: "uuid \<Rightarrow> published_release \<Rightarrow> eval_suite_row \<Rightarrow> 'x agent_tables_scheme \<Rightarrow> jobject" where
  "dependency_snapshot tenant_id release_row suite db =
     (let d = rl_draft_snapshot release_row; tools = snapshot_strings d ''tool_aliases''; refs = snapshot_strings d ''knowledge_refs'';
          versions = concat (map (\<lambda>x. case revision_of tenant_id refs x (ag_revisions db) of
             None \<Rightarrow> []
           | Some r \<Rightarrow> [JDict [(''reference'', JStr x), (''revision_version'', JInt (kr_revision_version r)), (''content_hash'', JStr (kr_content_hash r))]]) refs);
          policies = sort_key (fst \<circ> snd) (filter (\<lambda>(t, v, s). t = tenant_id \<and> s \<in> {''ACTIVE'', ''CANARY''}) (ag_policy_versions db))
      in [(''sdk_version'', JStr TRPC_AGENT_VERSION), (''release_content_hash'', JStr (rl_content_hash release_row)),
          (''suite_content_hash'', JStr (es_content_hash suite)), (''models'', JList (map profile_json (rl_model_profiles release_row))),
          (''knowledge'', json_strings refs), (''knowledge_versions'', JList versions), (''tools'', json_strings tools),
          (''tool_versions'', JList (map (\<lambda>a. JDict [(''name'', JStr a), (''version'', nullable JInt (tool_version tenant_id a (ag_tool_versions db)))]) tools)),
          (''policy'', (case dict_get d ''governance_policy_ref'' of None \<Rightarrow> JNull | Some v \<Rightarrow> v)),
          (''policy_versions'', JList (map (\<lambda>(t, v, s). JDict [(''version'', JInt v), (''status'', JStr s)]) policies))])"

record run_create =
  rn_suite_id :: uuid
  rn_release_id :: uuid
  rn_environment :: string
  rn_evidence :: jobject

definition run_request :: "uuid \<Rightarrow> uuid \<Rightarrow> run_create \<Rightarrow> jobject" where
  "run_request tenant_id application_id p =
     [(''tenant_id'', JStr tenant_id), (''application_id'', JStr application_id), (''suite_id'', JStr (rn_suite_id p)),
      (''release_id'', JStr (rn_release_id p)), (''environment'', JStr (rn_environment p)), (''evidence'', JDict (rn_evidence p))]"

definition run_json :: "eval_run_row \<Rightarrow> jobject" where
  "run_json r =
     [(''id'', JStr (er_id r)), (''tenant_id'', JStr (er_tenant_id r)), (''application_id'', JStr (er_application_id r)),
      (''suite_id'', JStr (er_suite_id r)), (''release_id'', JStr (er_release_id r)), (''environment'', JStr (er_environment r)),
      (''sdk_version'', JStr TRPC_AGENT_VERSION), (''dependency_snapshot'', JDict (er_snapshot r)), (''results'', JDict (er_results r)),
      (''status'', JStr (eval_status (er_passed r))), (''content_hash'', JStr (er_content_hash r)), (''created_at'', JStr (datetime_str (er_created_at r)))]"

definition run_key :: "eval_run_row \<Rightarrow> uuid \<times> uuid" where "run_key r = (er_tenant_id r, er_id r)"

definition insert_run :: "eval_run_row \<Rightarrow> 'x agent_tables_scheme \<Rightarrow> api_error + 'x agent_tables_scheme" where
  "insert_run r db =
     (if \<not> (storable (JDict (er_snapshot r)) \<and> storable (JDict (er_evidence r)) \<and> storable (JDict (er_results r))) then Inl (DatabaseError OperationalError)
      else if has_key run_key (run_key r) (ag_runs db) \<or> er_created_by r = [] \<or> 256 < length (er_created_by r) then Inl (DatabaseError IntegrityError)
      else Inr (db\<lparr>ag_runs := ag_runs db @ [r]\<rparr>))"

definition suite_of :: "uuid \<Rightarrow> uuid \<Rightarrow> uuid \<Rightarrow> 'x agent_tables_scheme \<Rightarrow> eval_suite_row option" where
  "suite_of tenant_id application_id suite_id db =
     find (\<lambda>r. suite_key r = (tenant_id, suite_id) \<and> es_application_id r = application_id) (ag_suites db)"

definition app_release :: "uuid \<Rightarrow> uuid \<Rightarrow> uuid \<Rightarrow> 'x agent_tables_scheme \<Rightarrow> published_release option" where
  "app_release tenant_id application_id release_id db =
     find (\<lambda>r. release_key r = (tenant_id, release_id) \<and> rl_application_id r = application_id) (ag_releases db)"

definition create_run_command ::
  "(jobject \<Rightarrow> jobject) \<Rightarrow> (double \<Rightarrow> string) \<Rightarrow> call \<Rightarrow> uuid \<Rightarrow> uuid \<Rightarrow> uuid \<Rightarrow> run_create \<Rightarrow> 'x agent_tables_scheme
   \<Rightarrow> api_error + (jobject \<times> 'x agent_tables_scheme)" where
  "create_run_command jsonb num_repr c run_id tenant_id application_id p db =
     (case suite_of tenant_id application_id (rn_suite_id p) db of
        None \<Rightarrow> Inl (HTTPException 404 ''Eval Suite not found'')
      | Some suite \<Rightarrow>
         (case app_release tenant_id application_id (rn_release_id p) db of
            None \<Rightarrow> Inl (HTTPException 404 ''Agent Release not found'')
          | Some r \<Rightarrow>
             (case evaluate_evidence (es_thresholds suite) (es_assertions suite) (rn_evidence p) of
                Inl _ \<Rightarrow> Inl (ServerError ''OverflowError'')
              | Inr results \<Rightarrow>
                 (let snapshot = dependency_snapshot tenant_id r suite db; res = result_json num_repr results;
                      row = \<lparr>er_tenant_id = tenant_id, er_id = run_id, er_application_id = application_id, er_suite_id = rn_suite_id p,
                        er_release_id = rn_release_id p, er_environment = rn_environment p, er_snapshot = snapshot, er_evidence = rn_evidence p,
                        er_results = res, er_passed = ev_passed results,
                        er_content_hash = sha256_hex (ascii_dumps (JDict [(''request'', JDict (run_request tenant_id application_id p)),
                          (''snapshot'', JDict snapshot), (''results'', JDict res)])),
                        er_created_by = pr_subject (rq_principal c), er_created_at = rq_now c\<rparr>
                  in case insert_run row db of
                       Inl e \<Rightarrow> Inl e
                     | Inr db1 \<Rightarrow> allow jsonb c tenant_id ''eval_run.create'' ''eval_run'' run_id
                         [(''release_id'', JStr (rn_release_id p)), (''status'', JStr (eval_status (ev_passed results)))] (run_json row) db1))))"

definition create_eval_run ::
  "(jobject \<Rightarrow> jobject) \<Rightarrow> (double \<Rightarrow> string) \<Rightarrow> call \<Rightarrow> uuid \<Rightarrow> string \<Rightarrow> uuid \<Rightarrow> uuid \<Rightarrow> run_create \<Rightarrow> 'x agent_tables_scheme
   \<Rightarrow> (api_error + http_reply) \<times> 'x agent_tables_scheme" where
  "create_eval_run jsonb num_repr c run_id key tenant_id application_id p =
     write_route jsonb c tenant_id ''eval_run.create'' ''agent_application'' (Some application_id)
       (\<lambda>db. as_reply 201 None (idempotent jsonb c key ''eval_run.create'' (run_request tenant_id application_id p)
          (create_run_command jsonb num_repr c run_id tenant_id application_id p) db))"

end
