(* ===== verification/Deployments.thy ===== *)
theory Deployments
  imports Eval_Gate
begin

text \<open>
  Deployments of Releases to environments: creation, approval, rollback and listing of
  \<open>admin_api/agents.py\<close> and the canary observations of \<open>admin_api/evals.py\<close>. The deployment an
  environment runs is the active one with the latest activation; nothing ever retires an older one, so
  halting the newest leads back to its predecessor. The lock on the application's row makes a route one
  step of the model.
\<close>

definition PRODUCTION :: string where "PRODUCTION = ''PRODUCTION''"

text \<open>
  \<open>ORDER BY activated_at DESC, id DESC LIMIT 1\<close>, where a row without an activation time comes first.
\<close>

definition activation_order :: "deployment_row \<Rightarrow> bool \<times> timestamp \<times> uuid" where
  "activation_order d = (dp_activated_at d = None, (case dp_activated_at d of None \<Rightarrow> 0 | Some t \<Rightarrow> t), dp_id d)"

definition active_rows :: "uuid \<Rightarrow> uuid \<Rightarrow> string \<Rightarrow> deployment_row list \<Rightarrow> deployment_row list" where
  "active_rows tenant_id application_id environment t =
     filter (\<lambda>d. dp_tenant_id d = tenant_id \<and> dp_application_id d = application_id \<and> dp_environment d = environment \<and> dp_status d = Dp_active) t"

definition newest :: "deployment_row list \<Rightarrow> deployment_row option" where
  "newest ds = (if ds = [] then None else Some (last (sort_key activation_order ds)))"

definition current_deployment :: "uuid \<Rightarrow> uuid \<Rightarrow> string \<Rightarrow> deployment_row list \<Rightarrow> deployment_row option" where
  "current_deployment tenant_id application_id environment t = newest (active_rows tenant_id application_id environment t)"

text \<open>What \<open>DatabaseDeploymentRouteResolver\<close> reads, as the worker and the gateway use it.\<close>

definition deployment_query :: "deployment_row list \<Rightarrow> string \<Rightarrow> string \<Rightarrow> string \<Rightarrow> sql_error + deployment_route option" where
  "deployment_query t tenant_id application_id environment =
     Inr (map_option (\<lambda>d. \<lparr>dr_release_id = dp_release_id d, dr_previous_release_id = dp_previous_release_id d,
       dr_rollout_percentage = dp_rollout_percentage d\<rparr>) (current_deployment tenant_id application_id environment t))"

definition status_text :: "deployment_status \<Rightarrow> string" where
  "status_text s = (case s of Dp_pending \<Rightarrow> ''PENDING_APPROVAL'' | Dp_active \<Rightarrow> ''ACTIVE'' | Dp_halted \<Rightarrow> ''HALTED'')"

definition deployment_json :: "deployment_row \<Rightarrow> jobject" where
  "deployment_json d =
     [(''id'', JStr (dp_id d)), (''tenant_id'', JStr (dp_tenant_id d)), (''application_id'', JStr (dp_application_id d)),
      (''environment'', JStr (dp_environment d)), (''release_id'', JStr (dp_release_id d)),
      (''previous_release_id'', nullable JStr (dp_previous_release_id d)), (''rollout_percentage'', JInt (dp_rollout_percentage d)),
      (''status'', JStr (status_text (dp_status d))), (''initiator'', JStr (dp_initiator d)), (''approver'', nullable JStr (dp_approver d)),
      (''version'', JInt (dp_version d)), (''created_at'', JStr (datetime_str (dp_created_at d))),
      (''activated_at'', nullable (\<lambda>t. JStr (datetime_str t)) (dp_activated_at d))]"

definition insert_deployment :: "deployment_row \<Rightarrow> 'x agent_tables_scheme \<Rightarrow> api_error + 'x agent_tables_scheme" where
  "insert_deployment d db =
     (if has_key deployment_key (deployment_key d) (ag_deployments db) then Inl (DatabaseError IntegrityError)
      else Inr (db\<lparr>ag_deployments := ag_deployments db @ [d]\<rparr>))"

text \<open>The row both creation and rollback write: production waits for an approval, the rest is active at once.\<close>

definition new_deployment ::
  "call \<Rightarrow> uuid \<Rightarrow> uuid \<Rightarrow> uuid \<Rightarrow> string \<Rightarrow> uuid \<Rightarrow> int \<Rightarrow> deployment_row option \<Rightarrow> deployment_row" where
  "new_deployment c deployment_id tenant_id application_id environment release_id rollout current =
     (let pending = (environment = PRODUCTION) in
      \<lparr>dp_tenant_id = tenant_id, dp_id = deployment_id, dp_application_id = application_id, dp_environment = environment,
       dp_release_id = release_id, dp_previous_release_id = map_option dp_release_id current,
       dp_previous_deployment_id = map_option dp_id current, dp_previous_deployment_version = map_option dp_version current,
       dp_rollout_percentage = rollout, dp_status = (if pending then Dp_pending else Dp_active),
       dp_initiator = pr_subject (rq_principal c), dp_approver = None,
       dp_version = (case current of None \<Rightarrow> 1 | Some d \<Rightarrow> dp_version d + 1), dp_created_at = rq_now c,
       dp_activated_at = (if pending then None else Some (rq_now c)), dp_halted_at = None\<rparr>)"

definition deployment_details :: "deployment_row \<Rightarrow> jobject" where
  "deployment_details d =
     [(''environment'', JStr (dp_environment d)), (''release_id'', JStr (dp_release_id d)),
      (''previous_release_id'', nullable JStr (dp_previous_release_id d)), (''rollout_percentage'', JInt (dp_rollout_percentage d)),
      (''status'', JStr (status_text (dp_status d)))]"

definition rollback_details :: "deployment_row \<Rightarrow> jobject" where
  "rollback_details d =
     [(''environment'', JStr (dp_environment d)), (''release_id'', JStr (dp_release_id d)),
      (''previous_release_id'', nullable JStr (dp_previous_release_id d)), (''status'', JStr (status_text (dp_status d)))]"

text \<open>The checks of \<open>create_deployment\<close> against the current deployment, in their order.\<close>

definition creation_error :: "string \<Rightarrow> uuid \<Rightarrow> int \<Rightarrow> int option \<Rightarrow> deployment_row option \<Rightarrow> api_error option" where
  "creation_error environment release_id rollout expected current =
     (case current of
        Some d \<Rightarrow>
          if environment \<noteq> PRODUCTION \<and> expected = None
          then Some (HTTPException 428 ''If-Match is required to replace an active Deployment'')
          else if environment \<noteq> PRODUCTION \<and> expected \<noteq> Some (dp_version d) then Some (HTTPException 412 ''Agent Deployment pointer changed'')
          else if dp_release_id d = release_id then Some (HTTPException 409 ''Agent Release is already active'')
          else None
      | None \<Rightarrow> if rollout \<noteq> 100 then Some (HTTPException 409 ''initial Deployment must route 100 percent of Sessions'') else None)"

definition create_deployment_command ::
  "(jobject \<Rightarrow> jobject) \<Rightarrow> call \<Rightarrow> uuid \<Rightarrow> uuid \<Rightarrow> uuid \<Rightarrow> string \<Rightarrow> uuid \<Rightarrow> int \<Rightarrow> int option \<Rightarrow> 'x agent_tables_scheme
   \<Rightarrow> api_error + (jobject \<times> 'x agent_tables_scheme)" where
  "create_deployment_command jsonb c deployment_id tenant_id application_id environment release_id rollout expected db =
     (let current = current_deployment tenant_id application_id environment (ag_deployments db) in
      if \<not> has_key app_key (tenant_id, application_id) (ag_applications db) then Inl (HTTPException 404 ''Agent application not found'')
      else if app_release tenant_id application_id release_id db = None then Inl (HTTPException 404 ''Agent Release not found'')
      else case creation_error environment release_id rollout expected current of
        Some e \<Rightarrow> Inl e
      | None \<Rightarrow>
         (let row = new_deployment c deployment_id tenant_id application_id environment release_id rollout current in
          case insert_deployment row db of
            Inl e \<Rightarrow> Inl e
          | Inr db1 \<Rightarrow> allow jsonb c tenant_id ''agent_deployment.create'' ''agent_deployment'' deployment_id
              (deployment_details row) (deployment_json row) db1))"

text \<open>The status code of a creation and a rollback depends on what the body says of the deployment.\<close>

definition deployment_reply :: "api_error + ((bool \<times> jobject) \<times> 'd) \<Rightarrow> api_error + (http_reply \<times> 'd)" where
  "deployment_reply r =
     (case r of
        Inl e \<Rightarrow> Inl e
      | Inr ((replayed, body), db) \<Rightarrow>
          Inr (reply_of (if dict_get body ''status'' = Some (JStr ''PENDING_APPROVAL'') then 202 else 201) (Some ''version'') (replayed, body), db))"

definition optional_precondition :: "string option \<Rightarrow> (int option \<Rightarrow> api_error + 'a) \<Rightarrow> api_error + 'a" where
  "optional_precondition if_match command =
     (case if_match of None \<Rightarrow> command None | Some v \<Rightarrow> with_precondition v (\<lambda>expected. command (Some expected)))"

definition create_deployment ::
  "(jobject \<Rightarrow> jobject) \<Rightarrow> call \<Rightarrow> uuid \<Rightarrow> string \<Rightarrow> string option \<Rightarrow> uuid \<Rightarrow> uuid \<Rightarrow> string \<Rightarrow> uuid \<Rightarrow> int \<Rightarrow> 'x agent_tables_scheme
   \<Rightarrow> (api_error + http_reply) \<times> 'x agent_tables_scheme" where
  "create_deployment jsonb c deployment_id key if_match tenant_id application_id environment release_id rollout =
     write_route jsonb c tenant_id ''agent_deployment.create'' ''agent_application'' (Some application_id)
       (\<lambda>db. optional_precondition if_match (\<lambda>expected. deployment_reply
          (idempotent jsonb c key ''agent_deployment.create''
             [(''tenant_id'', JStr tenant_id), (''application_id'', JStr application_id), (''expected_version'', nullable JInt expected),
              (''environment'', JStr environment), (''release_id'', JStr release_id), (''rollout_percentage'', JInt rollout)]
             (create_deployment_command jsonb c deployment_id tenant_id application_id environment release_id rollout expected) db)))"

definition list_deployments ::
  "(jobject \<Rightarrow> jobject) \<Rightarrow> call \<Rightarrow> uuid \<Rightarrow> uuid \<Rightarrow> nat \<Rightarrow> string option \<Rightarrow> 'x agent_tables_scheme
   \<Rightarrow> (api_error + jobject page) \<times> 'x agent_tables_scheme" where
  "list_deployments jsonb c tenant_id application_id limit cursor =
     read_route jsonb c tenant_id ''agent_deployment.list'' ''agent_application'' (Some application_id)
       (\<lambda>db. case decode_cursor cursor of
               None \<Rightarrow> Inl (HTTPException 400 ''invalid cursor'')
             | Some cursor_id \<Rightarrow>
                (let p = list_page dp_id limit cursor_id (filter (\<lambda>d. dp_tenant_id d = tenant_id \<and> dp_application_id d = application_id) (ag_deployments db))
                 in Inr (\<lparr>pg_items = map deployment_json (pg_items p), pg_next_cursor = pg_next_cursor p\<rparr>, db)))"

subsection \<open>Approval\<close>

definition deployment_of :: "uuid \<Rightarrow> uuid \<Rightarrow> uuid \<Rightarrow> 'x agent_tables_scheme \<Rightarrow> deployment_row option" where
  "deployment_of tenant_id application_id deployment_id db =
     find (\<lambda>d. deployment_key d = (tenant_id, deployment_id) \<and> dp_application_id d = application_id) (ag_deployments db)"

definition pointer :: "deployment_row option \<Rightarrow> uuid option \<times> int option" where
  "pointer d = (map_option dp_id d, map_option dp_version d)"

definition activated :: "string \<Rightarrow> timestamp \<Rightarrow> deployment_row \<Rightarrow> deployment_row" where
  "activated who now d = d\<lparr>dp_status := Dp_active, dp_approver := Some who, dp_version := dp_version d + 1, dp_activated_at := Some now\<rparr>"

definition approve_error :: "string \<Rightarrow> int \<Rightarrow> deployment_row \<Rightarrow> 'x agent_tables_scheme \<Rightarrow> api_error option" where
  "approve_error who expected d db =
     (if dp_version d \<noteq> expected then Some (HTTPException 412 ''Agent Deployment version changed'')
      else if dp_status d \<noteq> Dp_pending then Some (HTTPException 409 ''Agent Deployment is not pending approval'')
      else if dp_initiator d = who then Some (HTTPException 409 ''Deployment initiator cannot approve it'')
      else case production_eval_gate_error (dp_tenant_id d) (dp_application_id d) (dp_release_id d) (ag_runs db) of
        Some gate_error \<Rightarrow> Some (HTTPException 409 gate_error)
      | None \<Rightarrow>
          if pointer (current_deployment (dp_tenant_id d) (dp_application_id d) PRODUCTION (ag_deployments db)) \<noteq>
             (dp_previous_deployment_id d, dp_previous_deployment_version d)
          then Some (HTTPException 412 ''Agent Deployment pointer changed'') else None)"

definition approve_deployment_command ::
  "(jobject \<Rightarrow> jobject) \<Rightarrow> call \<Rightarrow> uuid \<Rightarrow> uuid \<Rightarrow> uuid \<Rightarrow> int \<Rightarrow> 'x agent_tables_scheme \<Rightarrow> api_error + (jobject \<times> 'x agent_tables_scheme)" where
  "approve_deployment_command jsonb c tenant_id application_id deployment_id expected db =
     (let who = pr_subject (rq_principal c) in
      if \<not> has_key app_key (tenant_id, application_id) (ag_applications db) then Inl (HTTPException 404 ''Agent application not found'')
      else case deployment_of tenant_id application_id deployment_id db of
        None \<Rightarrow> Inl (HTTPException 404 ''Agent Deployment not found'')
      | Some d \<Rightarrow>
         (case approve_error who expected d db of
            Some e \<Rightarrow> Inl e
          | None \<Rightarrow> allow jsonb c tenant_id ''agent_deployment.approve'' ''agent_deployment'' deployment_id
              [(''initiator'', JStr (dp_initiator d)), (''environment'', JStr ''PRODUCTION'')] (deployment_json (activated who (rq_now c) d))
              (db\<lparr>ag_deployments := update_where (\<lambda>q. deployment_key q = (tenant_id, deployment_id) \<and> dp_application_id q = application_id)
                     (activated who (rq_now c)) (ag_deployments db)\<rparr>)))"

definition approve_deployment ::
  "(jobject \<Rightarrow> jobject) \<Rightarrow> call \<Rightarrow> string \<Rightarrow> string \<Rightarrow> uuid \<Rightarrow> uuid \<Rightarrow> uuid \<Rightarrow> 'x agent_tables_scheme
   \<Rightarrow> (api_error + http_reply) \<times> 'x agent_tables_scheme" where
  "approve_deployment jsonb c key if_match tenant_id application_id deployment_id =
     write_route jsonb c tenant_id ''agent_deployment.approve'' ''agent_deployment'' (Some deployment_id)
       (\<lambda>db. with_precondition if_match (\<lambda>expected. as_reply 200 (Some ''version'')
          (idempotent jsonb c key ''agent_deployment.approve''
             [(''tenant_id'', JStr tenant_id), (''application_id'', JStr application_id), (''deployment_id'', JStr deployment_id),
              (''expected_version'', JInt expected)]
             (approve_deployment_command jsonb c tenant_id application_id deployment_id expected) db)))"

subsection \<open>Rollback\<close>

definition rollback_deployment_command ::
  "(jobject \<Rightarrow> jobject) \<Rightarrow> call \<Rightarrow> uuid \<Rightarrow> uuid \<Rightarrow> uuid \<Rightarrow> uuid \<Rightarrow> uuid \<Rightarrow> int \<Rightarrow> 'x agent_tables_scheme
   \<Rightarrow> api_error + (jobject \<times> 'x agent_tables_scheme)" where
  "rollback_deployment_command jsonb c rollback_id tenant_id application_id deployment_id release_id expected db =
     (if \<not> has_key app_key (tenant_id, application_id) (ag_applications db) then Inl (HTTPException 404 ''Agent application not found'')
      else case deployment_of tenant_id application_id deployment_id db of
        None \<Rightarrow> Inl (HTTPException 404 ''Agent Deployment not found'')
      | Some source \<Rightarrow>
          if app_release tenant_id application_id release_id db = None then Inl (HTTPException 404 ''Agent Release not found'')
          else (let current = current_deployment tenant_id application_id (dp_environment source) (ag_deployments db) in
            if pointer current \<noteq> (Some deployment_id, Some expected) then Inl (HTTPException 412 ''Agent Deployment pointer changed'')
            else let row = new_deployment c rollback_id tenant_id application_id (dp_environment source) release_id 100 current in
              case insert_deployment row db of
                Inl e \<Rightarrow> Inl e
              | Inr db1 \<Rightarrow> allow jsonb c tenant_id ''agent_deployment.rollback'' ''agent_deployment'' rollback_id
                  (rollback_details row) (deployment_json row) db1))"

definition rollback_deployment ::
  "(jobject \<Rightarrow> jobject) \<Rightarrow> call \<Rightarrow> uuid \<Rightarrow> string \<Rightarrow> string \<Rightarrow> uuid \<Rightarrow> uuid \<Rightarrow> uuid \<Rightarrow> uuid \<Rightarrow> 'x agent_tables_scheme
   \<Rightarrow> (api_error + http_reply) \<times> 'x agent_tables_scheme" where
  "rollback_deployment jsonb c rollback_id key if_match tenant_id application_id deployment_id release_id =
     write_route jsonb c tenant_id ''agent_deployment.rollback'' ''agent_deployment'' (Some deployment_id)
       (\<lambda>db. with_precondition if_match (\<lambda>expected. deployment_reply
          (idempotent jsonb c key ''agent_deployment.rollback''
             [(''tenant_id'', JStr tenant_id), (''application_id'', JStr application_id), (''deployment_id'', JStr deployment_id),
              (''expected_version'', JInt expected), (''release_id'', JStr release_id)]
             (rollback_deployment_command jsonb c rollback_id tenant_id application_id deployment_id release_id expected) db)))"

subsection \<open>Canary observations\<close>

definition halted :: "timestamp \<Rightarrow> deployment_row \<Rightarrow> deployment_row" where
  "halted now d = d\<lparr>dp_status := Dp_halted, dp_halted_at := Some now, dp_version := dp_version d + 1\<rparr>"

definition observation_json :: "canary_row \<Rightarrow> jobject" where
  "observation_json o' =
     [(''id'', JStr (eo_id o')), (''tenant_id'', JStr (eo_tenant_id o')), (''deployment_id'', JStr (eo_deployment_id o')),
      (''eval_run_id'', JStr (eo_run_id o')), (''metrics'', JDict (eo_metrics o')),
      (''decision'', JStr (if eo_halted o' then ''HALTED'' else ''CONTINUE'')), (''created_at'', JStr (datetime_str (eo_created_at o')))]"

text \<open>The run named by the request, joined with its suite.\<close>

definition observed_thresholds :: "uuid \<Rightarrow> uuid \<Rightarrow> uuid \<Rightarrow> uuid \<Rightarrow> 'x agent_tables_scheme \<Rightarrow> jobject option" where
  "observed_thresholds tenant_id application_id release_id run_id db =
     (case find (\<lambda>r. run_key r = (tenant_id, run_id) \<and> er_application_id r = application_id \<and> er_release_id r = release_id \<and>
                   er_environment r = PRODUCTION \<and> er_passed r) (ag_runs db) of
        None \<Rightarrow> None
      | Some r \<Rightarrow> map_option es_thresholds (row_of suite_key (tenant_id, er_suite_id r) (ag_suites db)))"

definition insert_observation :: "canary_row \<Rightarrow> 'x agent_tables_scheme \<Rightarrow> api_error + 'x agent_tables_scheme" where
  "insert_observation o' db =
     (if \<not> storable (JDict (eo_metrics o')) then Inl (DatabaseError OperationalError)
      else if has_key (\<lambda>q. (eo_tenant_id q, eo_id q)) (eo_tenant_id o', eo_id o') (ag_observations db) \<or>
         eo_created_by o' = [] \<or> 256 < length (eo_created_by o') then Inl (DatabaseError IntegrityError)
      else Inr (db\<lparr>ag_observations := ag_observations db @ [o']\<rparr>))"

definition observe_command ::
  "(jobject \<Rightarrow> jobject) \<Rightarrow> call \<Rightarrow> uuid \<Rightarrow> uuid \<Rightarrow> uuid \<Rightarrow> uuid \<Rightarrow> uuid \<Rightarrow> jobject \<Rightarrow> 'x agent_tables_scheme
   \<Rightarrow> api_error + (jobject \<times> 'x agent_tables_scheme)" where
  "observe_command jsonb c observation_id tenant_id application_id deployment_id run_id metrics db =
     (case find (\<lambda>d. deployment_key d = (tenant_id, deployment_id) \<and> dp_application_id d = application_id \<and> dp_environment d = PRODUCTION)
             (ag_deployments db) of
        None \<Rightarrow> Inl (HTTPException 404 ''Agent Deployment not found'')
      | Some d \<Rightarrow>
          if dp_status d \<noteq> Dp_active then Inl (HTTPException 409 ''Agent Deployment is not active'')
          else case observed_thresholds tenant_id application_id (dp_release_id d) run_id db of
            None \<Rightarrow> Inl (HTTPException 409 ''EVAL_RUN_REQUIRED'')
          | Some thresholds \<Rightarrow>
             (case evaluate_evidence thresholds [] [(''metrics'', JDict metrics)] of
                Inl _ \<Rightarrow> Inl (ServerError ''OverflowError'')
              | Inr result \<Rightarrow>
                 (let stop = \<not> ev_passed result;
                      db1 = (if stop then db\<lparr>ag_deployments := update_where (\<lambda>q. deployment_key q = (tenant_id, deployment_id)) (halted (rq_now c))
                               (ag_deployments db)\<rparr> else db);
                      row = \<lparr>eo_tenant_id = tenant_id, eo_id = observation_id, eo_deployment_id = deployment_id, eo_run_id = run_id,
                             eo_metrics = metrics, eo_halted = stop, eo_created_by = pr_subject (rq_principal c), eo_created_at = rq_now c\<rparr>
                  in case insert_observation row db1 of
                       Inl e \<Rightarrow> Inl e
                     | Inr db2 \<Rightarrow> allow jsonb c tenant_id ''eval_canary_observation.create'' ''agent_deployment'' deployment_id
                         [(''decision'', JStr (if stop then ''HALTED'' else ''CONTINUE'')), (''eval_run_id'', JStr run_id)] (observation_json row) db2)))"

definition record_eval_canary_observation ::
  "(jobject \<Rightarrow> jobject) \<Rightarrow> call \<Rightarrow> uuid \<Rightarrow> string \<Rightarrow> uuid \<Rightarrow> uuid \<Rightarrow> uuid \<Rightarrow> uuid \<Rightarrow> jobject \<Rightarrow> 'x agent_tables_scheme
   \<Rightarrow> (api_error + http_reply) \<times> 'x agent_tables_scheme" where
  "record_eval_canary_observation jsonb c observation_id key tenant_id application_id deployment_id run_id metrics =
     write_route jsonb c tenant_id ''eval_canary_observation.create'' ''agent_deployment'' (Some deployment_id)
       (\<lambda>db. as_reply 201 None (idempotent jsonb c key ''eval_canary_observation.create''
          [(''tenant_id'', JStr tenant_id), (''application_id'', JStr application_id), (''deployment_id'', JStr deployment_id),
           (''eval_run_id'', JStr run_id), (''metrics'', JDict metrics)]
          (observe_command jsonb c observation_id tenant_id application_id deployment_id run_id metrics) db))"

subsection \<open>Runs of the control plane\<close>

text \<open>
  One step is a write route, whatever it answers, or a change by another component, which leaves these
  tables alone.
\<close>

inductive agent_step :: "(jobject \<Rightarrow> jobject) \<Rightarrow> unicode_tables \<Rightarrow> (double \<Rightarrow> string) \<Rightarrow> agent_tables \<Rightarrow> agent_tables \<Rightarrow> bool"
  for jsonb :: "jobject \<Rightarrow> jobject" and U :: unicode_tables and num_repr :: "double \<Rightarrow> string" where
  step_create_application: "agent_step jsonb U num_repr db (snd (create_application jsonb c i key t slug name description db))"
| step_update_application: "agent_step jsonb U num_repr db (snd (update_application jsonb c key m t a u db))"
| step_delete_application: "agent_step jsonb U num_repr db (snd (delete_application jsonb c key m t a db))"
| step_create_draft: "agent_step jsonb U num_repr db (snd (create_draft jsonb c key t a dc db))"
| step_update_draft: "agent_step jsonb U num_repr db (snd (update_draft jsonb c key m t a du db))"
| step_delete_draft: "agent_step jsonb U num_repr db (snd (delete_draft jsonb c key m t a db))"
| step_validate_draft: "agent_step jsonb U num_repr db (snd (validate_draft jsonb U c key m t a db))"
| step_publish: "agent_step jsonb U num_repr db (snd (publish_release jsonb U c i key t a p db))"
| step_create_deployment: "agent_step jsonb U num_repr db (snd (create_deployment jsonb c i key om t a e r n db))"
| step_approve: "agent_step jsonb U num_repr db (snd (approve_deployment jsonb c key m t a i db))"
| step_rollback: "agent_step jsonb U num_repr db (snd (rollback_deployment jsonb c i key m t a j r db))"
| step_create_suite: "agent_step jsonb U num_repr db (snd (create_eval_suite jsonb c i key t a sc db))"
| step_create_run: "agent_step jsonb U num_repr db (snd (create_eval_run jsonb num_repr c i key t a rc db))"
| step_observe: "agent_step jsonb U num_repr db (snd (record_eval_canary_observation jsonb c i key t a j r ms db))"
| step_other: "agents_of db' = agents_of db \<Longrightarrow> agent_step jsonb U num_repr db db'"

inductive agent_run :: "(jobject \<Rightarrow> jobject) \<Rightarrow> unicode_tables \<Rightarrow> (double \<Rightarrow> string) \<Rightarrow> agent_tables \<Rightarrow> agent_tables \<Rightarrow> bool"
  for jsonb :: "jobject \<Rightarrow> jobject" and U :: unicode_tables and num_repr :: "double \<Rightarrow> string" where
  agent_run_refl: "agent_run jsonb U num_repr db db"
| agent_run_step: "agent_run jsonb U num_repr db db1 \<Longrightarrow> agent_step jsonb U num_repr db1 db2 \<Longrightarrow> agent_run jsonb U num_repr db db2"

text \<open>What a step can do to the deployments.\<close>

definition owned :: "uuid \<Rightarrow> uuid \<Rightarrow> deployment_row \<Rightarrow> bool" where
  "owned t a d \<longleftrightarrow> (dp_tenant_id d, dp_application_id d) = (t, a)"

inductive deployments_change :: "'x agent_tables_scheme \<Rightarrow> deployment_row list \<Rightarrow> bool" where
  keep: "deployments_change db (ag_deployments db)"
| create: "app_release t a r db \<noteq> None \<Longrightarrow> creation_error e r n expected (current_deployment t a e (ag_deployments db)) = None \<Longrightarrow>
    \<not> has_key deployment_key (t, i) (ag_deployments db) \<Longrightarrow>
    deployments_change db (ag_deployments db @ [new_deployment c i t a e r n (current_deployment t a e (ag_deployments db))])"
| roll_back: "app_release t a r db \<noteq> None \<Longrightarrow> pointer (current_deployment t a e (ag_deployments db)) = (Some j, Some expected) \<Longrightarrow>
    \<not> has_key deployment_key (t, i) (ag_deployments db) \<Longrightarrow>
    deployments_change db (ag_deployments db @ [new_deployment c i t a e r 100 (current_deployment t a e (ag_deployments db))])"
| approve: "deployment_of t a i db = Some d \<Longrightarrow> approve_error who expected d db = None \<Longrightarrow>
    deployments_change db (update_where (\<lambda>q. deployment_key q = (t, i) \<and> dp_application_id q = a) (activated who now) (ag_deployments db))"
| halt: "find (\<lambda>d. deployment_key d = (t, i) \<and> dp_application_id d = a \<and> dp_environment d = PRODUCTION) (ag_deployments db) = Some d \<Longrightarrow>
    dp_status d = Dp_active \<Longrightarrow>
    deployments_change db (update_where (\<lambda>q. deployment_key q = (t, i)) (halted now) (ag_deployments db))"
| drop: "deployments_change db (filter (\<lambda>q. \<not> owned t a q) (ag_deployments db))"

definition command_ok :: "agent_tables \<Rightarrow> agent_tables \<Rightarrow> bool" where
  "command_ok db db1 \<longleftrightarrow> deployments_change db (ag_deployments db1) \<and> set (ag_runs db) \<subseteq> set (ag_runs db1)"

lemma agents_of_eq:
  "agents_of x = agents_of y \<Longrightarrow> ag_deployments x = ag_deployments y \<and> ag_runs x = ag_runs y"
  by (simp add: agents_of_def)

lemma command_effect:
  assumes "effect_of command db db'" "\<And>res db1. command db = Inr (res, db1) \<Longrightarrow> command_ok db db1"
  shows "command_ok db db'"
proof (cases "agents_of db' = agents_of db")
  case True
  then show ?thesis using agents_of_eq [OF True] deployments_change.keep [of db] by (simp add: command_ok_def)
next
  case False
  then obtain res db1 where c: "command db = Inr (res, db1)" "agents_of db' = agents_of db1" using assms(1) by (auto simp: effect_of_def)
  show ?thesis using assms(2) [OF c(1)] agents_of_eq [OF c(2)] by (simp add: command_ok_def)
qed

lemma allow_tables:
  "allow jsonb c t a tt ti det result db = Inr (r, db') \<Longrightarrow> ag_deployments db' = ag_deployments db \<and> ag_runs db' = ag_runs db"
  using allow_agents [of jsonb c t a tt ti det result db r db'] by (simp add: agents_of_def)

text \<open>The commands of the routes, one after another.\<close>

lemma insert_deployment_Inr [result_simps]:
  "insert_deployment d db = Inr db1 \<longleftrightarrow> \<not> has_key deployment_key (deployment_key d) (ag_deployments db) \<and> db1 = db\<lparr>ag_deployments := ag_deployments db @ [d]\<rparr>"
  by (auto simp: insert_deployment_def)

lemma new_deployment_key [simp]: "deployment_key (new_deployment c i t a e r n cur) = (t, i)"
  by (simp add: new_deployment_def deployment_key_def Let_def)

lemma command_create_deployment: "create_deployment_command jsonb c i t a e r n x db = Inr (res, db1) \<Longrightarrow> command_ok db db1"
  using deployments_change.create [of t a r db e n x i c]
  by (auto simp: create_deployment_command_def Let_def result_simps command_ok_def dest!: allow_tables)

lemma command_rollback: "rollback_deployment_command jsonb c i t a j r x db = Inr (res, db1) \<Longrightarrow> command_ok db db1"
  using deployments_change.roll_back [of t a r db _ j x i c]
  by (auto simp: rollback_deployment_command_def Let_def result_simps command_ok_def dest!: allow_tables)

lemma command_approve: "approve_deployment_command jsonb c t a i x db = Inr (res, db1) \<Longrightarrow> command_ok db db1"
  by (auto simp: approve_deployment_command_def Let_def result_simps command_ok_def dest!: allow_tables intro: deployments_change.approve)

lemma insert_observation_Inr:
  "insert_observation r db = Inr db1 \<Longrightarrow> db1 = db\<lparr>ag_observations := ag_observations db @ [r]\<rparr>"
  by (auto simp: insert_observation_def split: if_splits)

lemma command_observe:
  assumes "observe_command jsonb c i t a j r ms db = Inr (res, db1)"
  shows "command_ok db db1"
proof -
  obtain d thresholds result where d: "find (\<lambda>d. deployment_key d = (t, j) \<and> dp_application_id d = a \<and> dp_environment d = PRODUCTION) (ag_deployments db) = Some d"
      "dp_status d = Dp_active" "evaluate_evidence thresholds [] [(''metrics'', JDict ms)] = Inr result"
    using assms by (auto simp: observe_command_def Let_def result_simps)
  have tables: "ag_runs db1 = ag_runs db" "ag_deployments db1 = ag_deployments db \<or>
      ag_deployments db1 = update_where (\<lambda>q. deployment_key q = (t, j)) (halted (rq_now c)) (ag_deployments db)"
    using assms by (auto simp: observe_command_def Let_def result_simps dest!: allow_tables insert_observation_Inr split: if_splits)
  show ?thesis using deployments_change.keep [of db] deployments_change.halt [OF d(1,2), of "rq_now c"] tables
    by (auto simp: command_ok_def split: if_splits)
qed

lemma command_ok_keep: "ag_deployments db1 = ag_deployments db \<Longrightarrow> set (ag_runs db) \<subseteq> set (ag_runs db1) \<Longrightarrow> command_ok db db1"
  using deployments_change.keep [of db] by (simp add: command_ok_def)

lemma command_ok_same: "agents_of db' = agents_of db \<Longrightarrow> command_ok db db'"
  using agents_of_eq [of db' db] by (simp add: command_ok_keep)

lemma command_create_application: "create_application_command jsonb c i t slug name description db = Inr (res, db1) \<Longrightarrow> command_ok db db1"
  by (rule command_ok_keep) (auto simp: create_application_command_def insert_application_def Let_def result_simps dest!: allow_tables split: if_splits)

lemma command_update_application: "update_application_command jsonb c t a x u db = Inr (res, db1) \<Longrightarrow> command_ok db db1"
  by (rule command_ok_keep) (auto simp: update_application_command_def Let_def result_simps dest!: allow_tables)

lemma command_delete_application: "delete_application_command jsonb c t a x db = Inr (res, db1) \<Longrightarrow> command_ok db db1"
  using deployments_change.drop [of db t a] by (auto simp: delete_application_command_def result_simps command_ok_def owned_def dest!: allow_tables)

lemma command_create_draft: "create_draft_command jsonb c t a dc db = Inr (res, db1) \<Longrightarrow> command_ok db db1"
  by (rule command_ok_keep) (auto simp: create_draft_command_def insert_draft_def Let_def result_simps dest!: allow_tables split: if_splits)

lemma command_update_draft: "update_draft_command jsonb c t a x du db = Inr (res, db1) \<Longrightarrow> command_ok db db1"
  by (rule command_ok_keep) (auto simp: update_draft_command_def Let_def result_simps dest!: allow_tables)

lemma command_delete_draft: "delete_draft_command jsonb c t a x db = Inr (res, db1) \<Longrightarrow> command_ok db db1"
  by (rule command_ok_keep) (auto simp: delete_draft_command_def result_simps dest!: allow_tables)

lemma command_validate_draft: "validate_draft_command jsonb U c t a x db = Inr (res, db1) \<Longrightarrow> command_ok db db1"
  by (rule command_ok_keep) (auto simp: validate_draft_command_def Let_def result_simps dest!: allow_tables)

lemma command_publish: "publish_command jsonb U c i t a p db = Inr (res, db1) \<Longrightarrow> command_ok db db1"
  by (rule command_ok_keep) (auto simp: publish_command_def insert_release_def Let_def result_simps dest!: allow_tables split: if_splits)

lemma command_create_suite: "create_suite_command jsonb c i t a p db = Inr (res, db1) \<Longrightarrow> command_ok db db1"
  by (rule command_ok_keep) (auto simp: create_suite_command_def insert_suite_def Let_def result_simps dest!: allow_tables split: if_splits)

lemma insert_run_Inr: "insert_run r db = Inr db1 \<Longrightarrow> db1 = db\<lparr>ag_runs := ag_runs db @ [r]\<rparr>"
  by (auto simp: insert_run_def split: if_splits)

lemma command_create_run: "create_run_command jsonb num_repr c i t a p db = Inr (res, db1) \<Longrightarrow> command_ok db db1"
  by (rule command_ok_keep) (auto simp: create_run_command_def Let_def result_simps dest!: allow_tables insert_run_Inr)

lemma command_ok_route:
  assumes "\<And>r db'. body db = Inr (r, db') \<Longrightarrow> command_ok db db'"
  shows "command_ok db (snd (write_route jsonb c t a tt ti body db))"
  using write_route_effect [of jsonb c t a tt ti body db] assms by (auto intro: command_ok_same)

lemma command_ok_reply:
  "as_reply s f (idempotent jsonb c key op payload command db) = Inr (r, db') \<Longrightarrow> (\<And>res db1. command db = Inr (res, db1) \<Longrightarrow> command_ok db db1) \<Longrightarrow> command_ok db db'"
  by (rule command_effect) (auto intro: effect_of_reply)

lemma command_ok_idempotent:
  "idempotent jsonb c key op payload command db = Inr (r, db') \<Longrightarrow> (\<And>res db1. command db = Inr (res, db1) \<Longrightarrow> command_ok db db1) \<Longrightarrow> command_ok db db'"
  by (rule command_effect) (auto intro: effect_of_idempotent)

lemma deployment_reply_Inr: "deployment_reply x = Inr (r, db') \<Longrightarrow> \<exists>b. x = Inr (b, db')"
  by (auto simp: deployment_reply_def split: sum.splits)

text \<open>The two shapes of a route, without and with a precondition.\<close>

lemma command_ok_write:
  assumes "\<And>res db1. command db = Inr (res, db1) \<Longrightarrow> command_ok db db1"
  shows "command_ok db (snd (write_route jsonb c t a tt ti (\<lambda>db. as_reply s f (idempotent jsonb c' key op payload command db)) db))"
  by (rule command_ok_route) (erule command_ok_reply, erule assms)

lemma command_ok_versioned:
  assumes "\<And>x res db1. command x db = Inr (res, db1) \<Longrightarrow> command_ok db db1"
  shows "command_ok db (snd (write_route jsonb c t a tt ti
    (\<lambda>db. with_precondition m (\<lambda>x. as_reply s f (idempotent jsonb c' key op (payload x) (command x) db))) db))"
  by (rule command_ok_route) (erule with_precondition_effect, erule command_ok_reply, erule assms)

lemma command_ok_conflict:
  assumes "\<And>res db1. command db = Inr (res, db1) \<Longrightarrow> command_ok db db1"
    and "(case idempotent jsonb c key op payload command db of Inl e \<Rightarrow> Inl (f e) | Inr (b, db') \<Rightarrow> Inr (g b, db')) = Inr (r, db')"
  shows "command_ok db db'"
  using assms by (auto elim!: command_ok_idempotent split: sum.splits)

lemma agent_step_effect: "agent_step jsonb U num_repr db db' \<Longrightarrow> command_ok db db'"
proof (induction rule: agent_step.induct)
  case (step_create_application db c i key t slug name description)
  show ?case unfolding create_application_def
    by (rule command_ok_route, erule command_ok_conflict [rotated]) (rule command_create_application)
next
  case (step_update_application db c key m t a u)
  show ?case unfolding update_application_def
    by (rule command_ok_route, erule with_precondition_effect, erule command_ok_conflict [rotated]) (rule command_update_application)
next
  case (step_create_draft db c key t a dc)
  show ?case unfolding create_draft_def
    by (rule command_ok_route, erule command_ok_conflict [rotated]) (rule command_create_draft)
next
  case (step_create_deployment db c i key om t a e r n)
  show ?case unfolding create_deployment_def
    by (rule command_ok_route) (auto simp: optional_precondition_def elim!: with_precondition_effect command_ok_idempotent
      dest!: deployment_reply_Inr intro: command_create_deployment split: option.splits)
next
  case (step_rollback db c i key m t a j r)
  show ?case unfolding rollback_deployment_def
    by (rule command_ok_route) (auto elim!: with_precondition_effect command_ok_idempotent dest!: deployment_reply_Inr intro: command_rollback)
next
  case (step_other db' db)
  then show ?case by (rule command_ok_same)
next
  case (step_delete_application db c key m t a)
  show ?case unfolding delete_application_def by (rule command_ok_versioned) (rule command_delete_application)
next
  case (step_update_draft db c key m t a du)
  show ?case unfolding update_draft_def by (rule command_ok_versioned) (rule command_update_draft)
next
  case (step_delete_draft db c key m t a)
  show ?case unfolding delete_draft_def by (rule command_ok_versioned) (rule command_delete_draft)
next
  case (step_validate_draft db c key m t a)
  show ?case unfolding validate_draft_def by (rule command_ok_versioned) (rule command_validate_draft)
next
  case (step_publish db c i key t a p)
  show ?case unfolding publish_release_def by (rule command_ok_write) (rule command_publish)
next
  case (step_approve db c key m t a i)
  show ?case unfolding approve_deployment_def by (rule command_ok_versioned) (rule command_approve)
next
  case (step_create_suite db c i key t a sc)
  show ?case unfolding create_eval_suite_def by (rule command_ok_write) (rule command_create_suite)
next
  case (step_create_run db c i key t a rc)
  show ?case unfolding create_eval_run_def by (rule command_ok_write) (rule command_create_run)
next
  case (step_observe db c i key t a j r ms)
  show ?case unfolding record_eval_canary_observation_def by (rule command_ok_write) (rule command_observe)
qed

subsection \<open>Production is vetted\<close>

definition passed_run :: "deployment_row \<Rightarrow> eval_run_row list \<Rightarrow> bool" where
  "passed_run d runs \<longleftrightarrow>
     list_ex (\<lambda>r. er_tenant_id r = dp_tenant_id d \<and> er_application_id r = dp_application_id d \<and> er_release_id r = dp_release_id d \<and>
       er_environment r = PRODUCTION \<and> er_passed r) runs"

definition vetted :: "eval_run_row list \<Rightarrow> deployment_row \<Rightarrow> bool" where
  "vetted runs d \<longleftrightarrow> dp_environment d = PRODUCTION \<and> dp_status d \<noteq> Dp_pending \<longrightarrow>
     (\<exists>who. dp_approver d = Some who \<and> who \<noteq> dp_initiator d) \<and> passed_run d runs"

text \<open>
  What holds of the deployments of every run: their ids are unique, whoever left the pending state was
  activated at some time, a pending one waits in production one version above the deployment it is to replace.
\<close>

definition row_ok :: "deployment_row \<Rightarrow> bool" where
  "row_ok d \<longleftrightarrow> (dp_status d \<noteq> Dp_pending \<longrightarrow> dp_activated_at d \<noteq> None) \<and>
     (dp_status d = Dp_pending \<longrightarrow> dp_environment d = PRODUCTION \<and>
        dp_version d = (case dp_previous_deployment_version d of None \<Rightarrow> 1 | Some w \<Rightarrow> w + 1))"

definition deployments_ok :: "agent_tables \<Rightarrow> bool" where
  "deployments_ok db \<longleftrightarrow> unique_key deployment_key (ag_deployments db) \<and>
     (\<forall>d \<in> set (ag_deployments db). row_ok d \<and> vetted (ag_runs db) d)"

lemma gate_passed:
  assumes "production_eval_gate_error (dp_tenant_id d) (dp_application_id d) (dp_release_id d) runs = None"
  shows "passed_run d runs"
proof -
  let ?rs = "production_runs (dp_tenant_id d) (dp_application_id d) (dp_release_id d) runs"
  have "?rs \<noteq> []" "er_passed (last ?rs)" using assms by (auto simp: production_eval_gate_error_def Let_def split: if_splits)
  then show ?thesis using last_in_set [of ?rs] by (auto simp: production_runs_def passed_run_def list_ex_iff PRODUCTION_def)
qed

lemma passed_run_mono: "passed_run d runs \<Longrightarrow> set runs \<subseteq> set runs' \<Longrightarrow> passed_run d runs'"
  by (auto simp: passed_run_def list_ex_iff)

lemma vetted_mono: "vetted runs d \<Longrightarrow> set runs \<subseteq> set runs' \<Longrightarrow> vetted runs' d"
  by (auto simp: vetted_def intro: passed_run_mono)

lemma find_unique_key:
  assumes "unique_key key t" "find (\<lambda>r. key r = k \<and> Q r) t = Some r" "q \<in> set t" "key q = k"
  shows "q = r"
  using find_SomeD [OF assms(2)] assms(1,3,4) by (auto simp: unique_key_def distinct_map inj_on_def)

lemma deployment_key_update [simp]:
  "deployment_key (activated who now d) = deployment_key d" "deployment_key (halted now d) = deployment_key d"
  by (simp_all add: deployment_key_def activated_def halted_def)

lemma new_deployment_ok: "row_ok (new_deployment c i t a e r n cur) \<and> vetted runs (new_deployment c i t a e r n cur)"
  by (cases cur) (simp_all add: row_ok_def vetted_def new_deployment_def Let_def)

lemma approval_facts:
  assumes "approve_error who expected d db = None"
  shows "dp_version d = expected" "dp_status d = Dp_pending" "who \<noteq> dp_initiator d"
    "production_eval_gate_error (dp_tenant_id d) (dp_application_id d) (dp_release_id d) (ag_runs db) = None"
    "pointer (current_deployment (dp_tenant_id d) (dp_application_id d) PRODUCTION (ag_deployments db)) =
       (dp_previous_deployment_id d, dp_previous_deployment_version d)"
  using assms by (auto simp: approve_error_def split: if_splits option.splits)

lemma deployments_change_ok:
  assumes "deployments_change db ds" "deployments_ok db"
  shows "unique_key deployment_key ds \<and> (\<forall>d \<in> set ds. row_ok d \<and> vetted (ag_runs db) d)"
  using assms
proof (induction rule: deployments_change.induct)
  case (approve t a i db d who expected now)
  have q: "q = d" if "q \<in> set (ag_deployments db)" "deployment_key q = (t, i)" for q
    using that approve.prems approve.hyps(1) find_unique_key [of deployment_key "ag_deployments db"]
    by (auto simp: deployments_ok_def deployment_of_def)
  have d: "d \<in> set (ag_deployments db)" using approve.hyps(1) by (auto simp: deployment_of_def dest: find_SomeD)
  have "row_ok (activated who now d) \<and> vetted (ag_runs db) (activated who now d)"
    using approval_facts [OF approve.hyps(2)] gate_passed [of d "ag_runs db"]
    by (auto simp: row_ok_def vetted_def activated_def passed_run_def)
  then show ?case using approve.prems q by (auto simp: deployments_ok_def unique_key_update_where elim!: in_update_whereE split: if_splits)
next
  case (halt t i a db d now)
  have q: "q = d" if "q \<in> set (ag_deployments db)" "deployment_key q = (t, i)" for q
    using that halt.prems halt.hyps(1) find_unique_key [of deployment_key "ag_deployments db"] by (auto simp: deployments_ok_def)
  have d: "d \<in> set (ag_deployments db)" using halt.hyps(1) by (auto dest: find_SomeD)
  have "row_ok (halted now d) \<and> vetted (ag_runs db) (halted now d)"
    using halt.prems d halt.hyps(2) by (auto simp: deployments_ok_def row_ok_def vetted_def halted_def passed_run_def)
  then show ?case using halt.prems q by (auto simp: deployments_ok_def unique_key_update_where elim!: in_update_whereE split: if_splits)
next
  case (drop db t a)
  then show ?case by (auto simp: deployments_ok_def unique_key_def distinct_map_filter)
qed (use new_deployment_ok in \<open>auto simp: deployments_ok_def unique_key_append\<close>)

lemma deployments_ok_step: "agent_step jsonb U num_repr db db' \<Longrightarrow> deployments_ok db \<Longrightarrow> deployments_ok db'"
  using agent_step_effect [of jsonb U num_repr db db'] deployments_change_ok [of db "ag_deployments db'"]
  by (auto simp: deployments_ok_def command_ok_def intro: vetted_mono)

lemma deployments_ok_run: "agent_run jsonb U num_repr db db' \<Longrightarrow> deployments_ok db \<Longrightarrow> deployments_ok db'"
  by (induction rule: agent_run.induct) (auto intro: deployments_ok_step)

lemma deployments_ok_empty: "ag_deployments db = [] \<Longrightarrow> deployments_ok db"
  by (simp add: deployments_ok_def)

text \<open>
  C6: Nothing runs in production unless a second person approved it and its Release passed an evaluation.
  In every run of the control plane from an installation without deployments, each production deployment
  that is not pending has an approver other than its initiator, and its Release has a production run of an
  evaluation suite that passed.
\<close>

theorem production_vetted:
  assumes "agent_run jsonb U num_repr db0 db" "ag_deployments db0 = []"
    and "d \<in> set (ag_deployments db)" "dp_environment d = PRODUCTION" "dp_status d \<noteq> Dp_pending"
  shows "(\<exists>who. dp_approver d = Some who \<and> who \<noteq> dp_initiator d) \<and> passed_run d (ag_runs db)"
proof -
  have "deployments_ok db" by (rule deployments_ok_run [OF assms(1) deployments_ok_empty [OF assms(2)]])
  then show ?thesis using assms(3-) by (auto simp: deployments_ok_def vetted_def)
qed

text \<open>
  C7: A production deployment becomes active only by an approval that was checked. Whenever a step of such
  a run leaves a production deployment active that was not active before, it has an approver who is not its
  initiator, the newest production evaluation of its Release had passed at that moment, and the deployment
  that was current at that moment is the very one, at the very version, that it was created to replace.
\<close>

theorem activation_checked:
  assumes "agent_run jsonb U num_repr db0 db" "ag_deployments db0 = []" "agent_step jsonb U num_repr db db'"
    and "d' \<in> set (ag_deployments db')" "dp_environment d' = PRODUCTION" "dp_status d' = Dp_active"
    and "\<forall>d \<in> set (ag_deployments db). deployment_key d = deployment_key d' \<longrightarrow> dp_status d \<noteq> Dp_active"
  shows "(\<exists>who. dp_approver d' = Some who \<and> who \<noteq> dp_initiator d') \<and>
    production_eval_gate_error (dp_tenant_id d') (dp_application_id d') (dp_release_id d') (ag_runs db) = None \<and>
    pointer (current_deployment (dp_tenant_id d') (dp_application_id d') PRODUCTION (ag_deployments db)) =
      (dp_previous_deployment_id d', dp_previous_deployment_version d')"
proof -
  have ok: "deployments_ok db" by (rule deployments_ok_run [OF assms(1) deployments_ok_empty [OF assms(2)]])
  have new: "d' \<notin> set (ag_deployments db)" using assms(6,7) by auto
  have "deployments_change db (ag_deployments db')" using agent_step_effect [OF assms(3)] by (simp add: command_ok_def)
  then show ?thesis
  proof cases
    case (approve t a i d who expected now)
    have "d' = activated who now d"
      using approve new assms(4) ok find_unique_key [of deployment_key "ag_deployments db"]
      by (fastforce simp: deployments_ok_def deployment_of_def elim!: in_update_whereE split: if_splits)
    then show ?thesis using approval_facts [OF approve(3)] by (simp add: activated_def)
  next
    case (halt t i a d now)
    then show ?thesis using new assms(4,6) by (auto simp: halted_def elim!: in_update_whereE split: if_splits)
  qed (use new assms(4-6) in \<open>auto simp: new_deployment_def Let_def\<close>)
qed

subsection \<open>An environment is a stack of deployments\<close>

text \<open>
  The abstract view of an environment: the active deployments with their versions, the current one first.
  A step pushes a deployment with a version above the current one's, takes one out, or empties the stack of
  an application that was deleted.
\<close>

definition deployment_stack :: "uuid \<Rightarrow> uuid \<Rightarrow> string \<Rightarrow> deployment_row list \<Rightarrow> (uuid \<times> int) list" where
  "deployment_stack t a e ds = map (\<lambda>d. (dp_id d, dp_version d)) (rev (sort_key activation_order (active_rows t a e ds)))"

inductive stack_change :: "(uuid \<times> int) list \<Rightarrow> (uuid \<times> int) list \<Rightarrow> bool" where
  stay: "stack_change st st"
| push: "(case st of [] \<Rightarrow> True | x # _ \<Rightarrow> snd x < v) \<Longrightarrow> stack_change st ((i, v) # st)"
| remove: "stack_change st (filter (\<lambda>x. fst x \<noteq> i) st)"
| clear: "stack_change st []"

definition top_of :: "(uuid \<times> int) list \<Rightarrow> uuid option \<times> int option" where
  "top_of st = (case st of [] \<Rightarrow> (None, None) | x # _ \<Rightarrow> (Some (fst x), Some (snd x)))"

lemma pointer_top: "pointer (current_deployment t a e ds) = top_of (deployment_stack t a e ds)"
proof (cases "sort_key activation_order (active_rows t a e ds)" rule: rev_cases)
  case Nil
  then have "active_rows t a e ds = []" using length_sort [of activation_order "active_rows t a e ds"] by simp
  then show ?thesis by (simp add: current_deployment_def newest_def pointer_def deployment_stack_def top_of_def)
next
  case (snoc xs x)
  then have "active_rows t a e ds \<noteq> []" by auto
  then show ?thesis using snoc by (simp add: current_deployment_def newest_def pointer_def deployment_stack_def top_of_def)
qed

lemma active_rows_simps [simp]:
  "active_rows t a e (xs @ ys) = active_rows t a e xs @ active_rows t a e ys"
  "active_rows t a e (d # ys) = (if dp_tenant_id d = t \<and> dp_application_id d = a \<and> dp_environment d = e \<and> dp_status d = Dp_active
     then d # active_rows t a e ys else active_rows t a e ys)" "active_rows t a e [] = []"
  by (simp_all add: active_rows_def)

lemma active_order_inj:
  assumes "unique_key deployment_key ds"
  shows "inj_on activation_order (set (active_rows t a e ds))"
  using assms by (auto simp: inj_on_def active_rows_def activation_order_def unique_key_def distinct_map deployment_key_def)

text \<open>A row later than all the others comes on top, wherever it stands in the table.\<close>

lemma sorted_push:
  assumes "unique_key deployment_key ds'" "mset (active_rows t a e ds') = add_mset x (mset (active_rows t a e ds))"
    and "\<And>d. d \<in> set (active_rows t a e ds) \<Longrightarrow> activation_order d < activation_order x"
  shows "sort_key activation_order (active_rows t a e ds') = sort_key activation_order (active_rows t a e ds) @ [x]"
proof (rule sort_key_inj_key_eq)
  show "inj_on activation_order (set (active_rows t a e ds'))" by (rule active_order_inj [OF assms(1)])
  show "sorted (map activation_order (sort_key activation_order (active_rows t a e ds) @ [x]))"
    using assms(3) by (auto simp: sorted_append intro: less_imp_le)
qed (use assms(2) in simp)

lemma stack_push:
  assumes "unique_key deployment_key ds'" "mset (active_rows t a e ds') = add_mset x (mset (active_rows t a e ds))"
    and "\<And>d. d \<in> set (active_rows t a e ds) \<Longrightarrow> activation_order d < activation_order x"
  shows "deployment_stack t a e ds' = (dp_id x, dp_version x) # deployment_stack t a e ds"
  by (simp add: deployment_stack_def sorted_push [OF assms])

lemma update_where_split:
  assumes "unique_key key t" "d \<in> set t" "P d" "\<And>q. q \<in> set t \<Longrightarrow> P q \<Longrightarrow> key q = key d"
  obtains xs ys where "t = xs @ d # ys" "update_where P f t = xs @ f d # ys"
proof -
  obtain xs ys where t: "t = xs @ d # ys" using split_list [OF assms(2)] by blast
  have "\<not> P q" if "q \<in> set xs \<or> q \<in> set ys" for q
  proof
    assume "P q"
    then have "key q = key d" using that assms(4) [of q] by (auto simp: t)
    moreover have "key q \<in> key ` (set xs \<union> set ys)" using that by blast
    ultimately show False using assms(1) by (auto simp: t unique_key_def)
  qed
  then have "update_where P f xs = xs" "update_where P f ys = ys" by (auto intro!: update_where_none)
  then show ?thesis using that [OF t] assms(3) by (simp add: t update_where_Cons)
qed

lemma active_rows_halted:
  "active_rows t a e (update_where (\<lambda>q. deployment_key q = k) (halted now) ds) = filter (\<lambda>q. deployment_key q \<noteq> k) (active_rows t a e ds)"
  by (induction ds) (auto simp: update_where_Cons halted_def)

lemma stack_halted:
  "deployment_stack t a e (update_where (\<lambda>q. deployment_key q = (t', i)) (halted now) ds) =
     (if t = t' then filter (\<lambda>x. fst x \<noteq> i) (deployment_stack t a e ds) else deployment_stack t a e ds)"
proof -
  let ?f = activation_order and ?rows = "active_rows t a e ds"
  have "filter (\<lambda>q. deployment_key q \<noteq> (t', i)) ?rows = (if t = t' then filter (\<lambda>q. dp_id q \<noteq> i) ?rows else ?rows)"
    by (auto simp: active_rows_def deployment_key_def filter_filter intro: filter_cong)
  then show ?thesis
    by (simp add: deployment_stack_def active_rows_halted filter_sort [symmetric] rev_filter [symmetric] filter_map comp_def)
qed

text \<open>The clock: a deployment activated by the step is later than all that were activated before.\<close>

definition activations_advance :: "deployment_row list \<Rightarrow> deployment_row list \<Rightarrow> bool" where
  "activations_advance ds ds' \<longleftrightarrow>
     list_all (\<lambda>d'. d' \<in> set ds \<or> dp_status d' \<noteq> Dp_active \<or> list_all (\<lambda>d. case (dp_activated_at d, dp_activated_at d') of
       (Some s, Some s') \<Rightarrow> s < s' | _ \<Rightarrow> True) ds) ds'"

lemma later_order:
  assumes "activations_advance ds ds'" "x \<in> set ds'" "x \<notin> set ds" "dp_status x = Dp_active" "row_ok x"
    and "d \<in> set (active_rows t a e ds)" "row_ok d"
  shows "activation_order d < activation_order x"
proof -
  have d: "d \<in> set ds" "dp_status d = Dp_active" using assms(6) by (auto simp: active_rows_def)
  obtain s s' where "dp_activated_at d = Some s" "dp_activated_at x = Some s'"
    using assms(4,5,7) d(2) by (auto simp: row_ok_def)
  moreover have "case (dp_activated_at d, dp_activated_at x) of (Some s, Some s') \<Rightarrow> s < s' | _ \<Rightarrow> True"
    using assms(1-4) d(1) unfolding activations_advance_def list_all_iff by blast
  ultimately show ?thesis by (simp add: activation_order_def)
qed

lemma push_ok:
  assumes "deployments_ok db" "unique_key deployment_key ds'" "row_ok x" "x \<in> set ds'" "x \<notin> set (ag_deployments db)" "dp_status x = Dp_active"
    and "activations_advance (ag_deployments db) ds'"
    and m: "mset (active_rows t a e ds') = add_mset x (mset (active_rows t a e (ag_deployments db)))"
    and v: "case snd (pointer (current_deployment t a e (ag_deployments db))) of None \<Rightarrow> True | Some w \<Rightarrow> w < dp_version x"
  shows "stack_change (deployment_stack t a e (ag_deployments db)) (deployment_stack t a e ds')"
proof -
  have "\<And>d. d \<in> set (active_rows t a e (ag_deployments db)) \<Longrightarrow> row_ok d" using assms(1) by (auto simp: deployments_ok_def active_rows_def)
  then have "deployment_stack t a e ds' = (dp_id x, dp_version x) # deployment_stack t a e (ag_deployments db)"
    by (intro stack_push [OF assms(2) m] later_order [OF assms(7,4,5,6,3)])
  moreover have "case deployment_stack t a e (ag_deployments db) of [] \<Rightarrow> True | y # _ \<Rightarrow> snd y < dp_version x"
    using v unfolding pointer_top by (cases "deployment_stack t a e (ag_deployments db)") (simp_all add: top_of_def)
  ultimately show ?thesis using stack_change.push by auto
qed

lemma new_deployment_stack:
  assumes "deployments_ok db" "\<not> has_key deployment_key (t', i) (ag_deployments db)"
    and x: "x = new_deployment c i t' a' e' r n (current_deployment t' a' e' (ag_deployments db))"
    and "activations_advance (ag_deployments db) (ag_deployments db @ [x])"
  shows "stack_change (deployment_stack t a e (ag_deployments db)) (deployment_stack t a e (ag_deployments db @ [x]))"
proof (cases "t = t' \<and> a = a' \<and> e = e' \<and> e' \<noteq> PRODUCTION")
  case True
  have f: "dp_tenant_id x = t'" "dp_application_id x = a'" "dp_environment x = e'" "dp_status x = Dp_active" "deployment_key x = (t', i)"
    using True by (simp_all add: x new_deployment_def deployment_key_def Let_def)
  show ?thesis
  proof (rule push_ok [OF assms(1)])
    show "unique_key deployment_key (ag_deployments db @ [x])" using assms(1,2) f(5) by (simp add: deployments_ok_def unique_key_append)
    show "row_ok x" unfolding x using new_deployment_ok by blast
    show "x \<notin> set (ag_deployments db)" using assms(2) f(5) by (auto simp: has_key_def intro: rev_image_eqI)
    show "case snd (pointer (current_deployment t a e (ag_deployments db))) of None \<Rightarrow> True | Some w \<Rightarrow> w < dp_version x"
      using True by (cases "current_deployment t' a' e' (ag_deployments db)") (simp_all add: x new_deployment_def Let_def pointer_def)
    show "mset (active_rows t a e (ag_deployments db @ [x])) = add_mset x (mset (active_rows t a e (ag_deployments db)))" using True f by simp
  qed (use f assms(4) in simp_all)
next
  case False
  then have "active_rows t a e [x] = []" by (auto simp: x new_deployment_def Let_def)
  then show ?thesis using stack_change.stay by (simp add: deployment_stack_def)
qed

lemma approved_stack:
  assumes "deployments_ok db" "deployment_of t' a' i db = Some d" "approve_error who expected d db = None"
    and ds': "ds' = update_where (\<lambda>q. deployment_key q = (t', i) \<and> dp_application_id q = a') (activated who now) (ag_deployments db)"
    and "activations_advance (ag_deployments db) ds'"
  shows "stack_change (deployment_stack t a e (ag_deployments db)) (deployment_stack t a e ds')"
proof -
  let ?ds = "ag_deployments db" and ?x = "activated who now d"
  have d: "d \<in> set ?ds" "deployment_key d = (t', i)" "dp_application_id d = a'" using assms(2) by (auto simp: deployment_of_def dest: find_SomeD)
  have u: "unique_key deployment_key ?ds" and ok: "row_ok d" using assms(1) d(1) by (auto simp: deployments_ok_def)
  note f = approval_facts [OF assms(3)]
  obtain xs ys where s: "?ds = xs @ d # ys" "ds' = xs @ ?x # ys"
    unfolding ds' by (rule update_where_split [OF u d(1), of "\<lambda>q. deployment_key q = (t', i) \<and> dp_application_id q = a'" "activated who now"]) (use d in auto)
  have x: "dp_tenant_id ?x = t'" "dp_application_id ?x = a'" "dp_environment ?x = PRODUCTION" "dp_status ?x = Dp_active" "row_ok ?x"
    using d ok f(2) by (auto simp: activated_def deployment_key_def row_ok_def)
  have "?x \<notin> set ?ds"
  proof
    assume "?x \<in> set ?ds"
    then have "?x = d" using u d(1) by (auto simp: unique_key_def distinct_map dest: inj_onD [of _ _ ?x d])
    then show False using f(2) x(4) by simp
  qed
  show ?thesis
  proof (cases "t = t' \<and> a = a' \<and> e = PRODUCTION")
    case True
    show ?thesis
    proof (rule push_ok [OF assms(1)])
      show "unique_key deployment_key ds'" using u unfolding ds' by (simp add: unique_key_update_where)
      show "mset (active_rows t a e ds') = add_mset ?x (mset (active_rows t a e ?ds))" using True x f(2) by (simp add: s)
      show "case snd (pointer (current_deployment t a e ?ds)) of None \<Rightarrow> True | Some w \<Rightarrow> w < dp_version ?x"
        using f(5) ok f(2) d True by (auto simp: row_ok_def activated_def deployment_key_def split: option.splits)
    qed (use s x assms(5) \<open>?x \<notin> set ?ds\<close> in simp_all)
  next
    case False
    then have "active_rows t a e ds' = active_rows t a e ?ds" using x f(2) by (auto simp: s)
    then show ?thesis using stack_change.stay by (simp add: deployment_stack_def)
  qed
qed


subsection \<open>Halting leads back\<close>

lemma approve_effect:
  assumes "ag_deployments (snd (approve_deployment jsonb c key m t a i db)) \<noteq> ag_deployments db"
  obtains d expected where "deployment_of t a i db = Some d" "approve_error (pr_subject (rq_principal c)) expected d db = None"
    "ag_deployments (snd (approve_deployment jsonb c key m t a i db)) =
       update_where (\<lambda>q. deployment_key q = (t, i) \<and> dp_application_id q = a) (activated (pr_subject (rq_principal c)) (rq_now c)) (ag_deployments db)"
proof -
  let ?db' = "snd (approve_deployment jsonb c key m t a i db)"
  have "\<exists>x. effect_of (approve_deployment_command jsonb c t a i x) db ?db'"
  proof (cases "parse_if_match m")
    case (Inl e)
    then show ?thesis unfolding approve_deployment_def with_precondition_def by (intro exI effect_of_route) simp
  next
    case (Inr x)
    then show ?thesis unfolding approve_deployment_def with_precondition_def
      by (intro exI [of _ x] effect_of_route) (simp add: effect_of_reply)
  qed
  then obtain x res db1 where "approve_deployment_command jsonb c t a i x db = Inr (res, db1)" "agents_of ?db' = agents_of db1"
    using assms by (auto simp: effect_of_def dest: agents_of_eq)
  then show ?thesis using that by (auto simp: approve_deployment_command_def Let_def result_simps dest!: allow_tables agents_of_eq)
qed

lemma observe_effect:
  assumes "ag_deployments (snd (record_eval_canary_observation jsonb c o' key t a i r ms db)) \<noteq> ag_deployments db"
  shows "ag_deployments (snd (record_eval_canary_observation jsonb c o' key t a i r ms db)) =
    update_where (\<lambda>q. deployment_key q = (t, i)) (halted (rq_now c)) (ag_deployments db)"
proof -
  let ?db' = "snd (record_eval_canary_observation jsonb c o' key t a i r ms db)"
  have "effect_of (observe_command jsonb c o' t a i r ms) db ?db'"
    unfolding record_eval_canary_observation_def by (rule effect_of_route) (rule effect_of_reply)
  then obtain res db1 where "observe_command jsonb c o' t a i r ms db = Inr (res, db1)" "agents_of ?db' = agents_of db1"
    using assms by (auto simp: effect_of_def dest: agents_of_eq)
  then show ?thesis using assms
    by (auto simp: observe_command_def Let_def result_simps dest!: allow_tables insert_observation_Inr agents_of_eq split: if_splits)
qed

text \<open>
  C9: Halting a canary restores the routing of before. When an approval made a production deployment active
  and a canary observation then halts it, with nothing but other components at work in between, executions
  of every application and environment are routed by the very deployment, and so to the very Releases, as
  before the approval.
\<close>

theorem halt_restores_routing:
  assumes "agent_run jsonb U num_repr db0 db" "ag_deployments db0 = []"
    and "agents_of db1 = agents_of (snd (approve_deployment jsonb c key m t a i db))" "ag_deployments db1 \<noteq> ag_deployments db"
    and "db2 = snd (record_eval_canary_observation jsonb c' o' key' t a i r ms db1)" "ag_deployments db2 \<noteq> ag_deployments db1"
  shows "deployment_query (ag_deployments db2) = deployment_query (ag_deployments db)"
proof -
  let ?ds = "ag_deployments db" and ?who = "pr_subject (rq_principal c)"
  have ok: "deployments_ok db" by (rule deployments_ok_run [OF assms(1) deployments_ok_empty [OF assms(2)]])
  obtain d x where d: "deployment_of t a i db = Some d" "approve_error ?who x d db = None"
    and ds1: "ag_deployments db1 = update_where (\<lambda>q. deployment_key q = (t, i) \<and> dp_application_id q = a) (activated ?who (rq_now c)) ?ds"
    using approve_effect [of jsonb c key m t a i db] agents_of_eq [OF assms(3)] assms(4) by auto
  have ds2: "ag_deployments db2 = update_where (\<lambda>q. deployment_key q = (t, i)) (halted (rq_now c')) (ag_deployments db1)"
    using observe_effect [of jsonb c' o' key' t a i r ms db1] assms(5,6) by simp
  have m: "d \<in> set ?ds" "deployment_key d = (t, i)" "dp_application_id d = a" using d(1) by (auto simp: deployment_of_def dest: find_SomeD)
  have u: "unique_key deployment_key ?ds" using ok by (simp add: deployments_ok_def)
  obtain xs ys where s: "?ds = xs @ d # ys" "ag_deployments db1 = xs @ activated ?who (rq_now c) d # ys"
    unfolding ds1 by (rule update_where_split [OF u m(1), of "\<lambda>q. deployment_key q = (t, i) \<and> dp_application_id q = a" "activated ?who (rq_now c)"])
      (use m in auto)
  have others: "filter (\<lambda>q. deployment_key q \<noteq> (t, i)) zs = zs" if "set zs \<subseteq> set xs \<union> set ys" for zs
    using that u m(2) by (force simp: s(1) unique_key_def filter_id_conv)
  have "active_rows t' a' e (ag_deployments db2) = active_rows t' a' e ?ds" for t' a' e
  proof -
    have "filter (\<lambda>q. deployment_key q \<noteq> (t, i)) (active_rows t' a' e zs) = active_rows t' a' e zs" if "zs \<in> {xs, ys}" for zs
      using that by (intro others) (auto simp: active_rows_def)
    moreover have "dp_status d = Dp_pending" by (rule approval_facts [OF d(2)])
    ultimately show ?thesis unfolding ds2 active_rows_halted s using m(2) by simp
  qed
  then show ?thesis by (intro ext) (simp add: deployment_query_def current_deployment_def)
qed

subsection \<open>A run through production\<close>

definition sample_application :: application_row where
  "sample_application = \<lparr>aa_tenant_id = ''t'', aa_id = ''a'', aa_slug = ''helper'', aa_name = ''Helper'', aa_description = [], aa_version = 1,
     aa_created_at = 0, aa_updated_at = 0\<rparr>"

definition sample_published :: published_release where
  "sample_published = \<lparr>rl_tenant_id = ''t'', rl_id = ''r'', rl_application_id = ''a'', rl_version = 1, rl_model_alias = ''m1'',
     rl_data_classification = PUBLIC, rl_region = ''eu'', rl_fallback_aliases = [], rl_model_profiles = [], rl_source_draft_version = Some 1,
     rl_source_actor = ''alice'', rl_draft_snapshot = [], rl_content_hash = [], rl_created_at = 0\<rparr>"

definition sample_suite :: eval_suite_row where
  "sample_suite = \<lparr>es_tenant_id = ''t'', es_id = ''s'', es_application_id = ''a'', es_slug = ''gate'', es_version = 1, es_dataset = [],
     es_scorers = JList [], es_thresholds = [(''latency_ms_max'', JInt 100)], es_assertions = [''NO_SECRET_LEAK''], es_content_hash = [],
     es_created_by = ''alice'', es_created_at = 0\<rparr>"

definition sample_run :: eval_run_row where
  "sample_run = \<lparr>er_tenant_id = ''t'', er_id = ''n'', er_application_id = ''a'', er_suite_id = ''s'', er_release_id = ''r'',
     er_environment = PRODUCTION, er_snapshot = [], er_evidence = [], er_results = [], er_passed = True, er_content_hash = [],
     er_created_by = ''alice'', er_created_at = 0\<rparr>"

definition sample_unicode :: unicode_tables where
  "sample_unicode = \<lparr>alphanumeric = \<lambda>_. False, decimal = \<lambda>_. False, white_space = \<lambda>_. False\<rparr>"

definition gate_tables :: "deployment_row list \<Rightarrow> agent_tables" where
  "gate_tables ds = fresh_tables\<lparr>ag_applications := [sample_application], ag_releases := [sample_published], ag_suites := [sample_suite],
     ag_runs := [sample_run], ag_deployments := ds\<rparr>"

definition sample_pending :: deployment_row where
  "sample_pending = new_deployment (admin_call ''alice'' 1) ''d'' ''t'' ''a'' PRODUCTION ''r'' 100 None"

definition sample_active :: deployment_row where
  "sample_active = activated ''bob'' 2 sample_pending"

lemma gate_tables_simps [simp]:
  "ag_applications (gate_tables ds) = [sample_application]" "ag_releases (gate_tables ds) = [sample_published]" "ag_suites (gate_tables ds) = [sample_suite]"
  "ag_runs (gate_tables ds) = [sample_run]" "ag_deployments (gate_tables ds) = ds" "ad_idempotency (gate_tables ds) = []"
  "ad_audit (gate_tables ds) = ad_audit fresh_tables" "ag_observations (gate_tables ds) = []" "(gate_tables ds)\<lparr>ag_deployments := ds'\<rparr> = gate_tables ds'" "fresh (gate_tables ds)"
  by (simp_all add: gate_tables_def fresh_tables_def fresh_def)

lemma gate_rows [simp]:
  "app_key sample_application = (''t'', ''a'')" "release_key sample_published = (''t'', ''r'')" "rl_application_id sample_published = ''a''"
  "deployment_key sample_pending = (''t'', ''d'')" "deployment_key sample_active = (''t'', ''d'')" "dp_application_id sample_pending = ''a''"
  "dp_application_id sample_active = ''a''" "dp_status sample_pending = Dp_pending" "dp_status sample_active = Dp_active"
  "dp_environment sample_active = PRODUCTION" "dp_release_id sample_active = ''r''"
  by (simp_all add: sample_application_def sample_published_def sample_pending_def sample_active_def new_deployment_def activated_def
      app_key_def release_key_def deployment_key_def)

lemma halted_status: "dp_status (halted now d) = Dp_halted"
  by (simp add: halted_def)

lemma etag_one: "parse_if_match [quote_char, CHR ''1'', quote_char] = Inr 1"
  by (simp add: parse_if_match_def Let_def decimal_digit_def)

lemma sample_create:
  "\<exists>db'. create_deployment (\<lambda>d. d) (admin_call ''alice'' 1) ''d'' ''k1'' None ''t'' ''a'' PRODUCTION ''r'' 100 (gate_tables []) =
     (Inr (reply_of 202 (Some ''version'') (False, deployment_json sample_pending)), db') \<and> agents_of db' = agents_of (gate_tables [sample_pending])"
proof -
  have command: "create_deployment_command (\<lambda>d. d) (admin_call ''alice'' 1) ''d'' ''t'' ''a'' PRODUCTION ''r'' 100 None (gate_tables []) =
      allow (\<lambda>d. d) (admin_call ''alice'' 1) ''t'' ''agent_deployment.create'' ''agent_deployment'' ''d''
        (deployment_details sample_pending) (deployment_json sample_pending) (gate_tables [sample_pending])"
    by (simp add: create_deployment_command_def insert_deployment_def has_key_def app_release_def current_deployment_def newest_def
        creation_error_def sample_pending_def [symmetric] Let_def)
  show ?thesis unfolding create_deployment_def optional_precondition_def option.case
    by (rule route_fresh [where g = deployment_reply], rule command)
      (simp_all add: deployment_reply_def deployment_json_def status_text_def dict_get_def)
qed

lemma sample_approve:
  "\<exists>db'. approve_deployment (\<lambda>d. d) (admin_call ''bob'' 2) ''k2'' [quote_char, CHR ''1'', quote_char] ''t'' ''a'' ''d'' (gate_tables [sample_pending]) =
     (Inr (reply_of 200 (Some ''version'') (False, deployment_json sample_active)), db') \<and> agents_of db' = agents_of (gate_tables [sample_active])"
proof -
  have ok: "approve_error ''bob'' 1 sample_pending (gate_tables [sample_pending]) = None"
    by (simp add: approve_error_def sample_pending_def new_deployment_def production_eval_gate_error_def production_runs_def sample_run_def
        pointer_def current_deployment_def newest_def active_rows_def PRODUCTION_def)
  have command: "approve_deployment_command (\<lambda>d. d) (admin_call ''bob'' 2) ''t'' ''a'' ''d'' 1 (gate_tables [sample_pending]) =
      allow (\<lambda>d. d) (admin_call ''bob'' 2) ''t'' ''agent_deployment.approve'' ''agent_deployment'' ''d''
        [(''initiator'', JStr (dp_initiator sample_pending)), (''environment'', JStr ''PRODUCTION'')] (deployment_json sample_active)
        (gate_tables [sample_active])"
    by (simp add: approve_deployment_command_def has_key_def deployment_of_def ok update_where_def sample_active_def [symmetric] Let_def)
  show ?thesis unfolding approve_deployment_def with_precondition_def etag_one sum.case
    by (rule route_fresh [where g = "as_reply 200 (Some ''version'')"], rule command) (simp_all add: as_reply_def)
qed

lemma sample_halt:
  "\<exists>r db'. record_eval_canary_observation (\<lambda>d. d) (admin_call ''bob'' 3) ''o'' ''k3'' ''t'' ''a'' ''d'' ''n'' [] (gate_tables [sample_active]) = (Inr r, db') \<and>
     ag_deployments db' = [halted 3 sample_active]"
proof -
  obtain e where failed: "evaluate_evidence (es_thresholds sample_suite) [] [(''metrics'', JDict [])] = Inr e" "\<not> ev_passed e"
    by (simp add: evaluate_evidence_def metrics_of_def object_field_def json_double_def dict_get_def threshold_failures_def misses_def Let_def)
  have th: "observed_thresholds ''t'' ''a'' ''r'' ''n'' (gate_tables [sample_active]) = Some (es_thresholds sample_suite)"
    by (simp add: observed_thresholds_def sample_run_def run_key_def row_of_def suite_key_def sample_suite_def PRODUCTION_def)
  let ?o = "\<lparr>eo_tenant_id = ''t'', eo_id = ''o'', eo_deployment_id = ''d'', eo_run_id = ''n'', eo_metrics = [], eo_halted = True,
    eo_created_by = ''bob'', eo_created_at = 3\<rparr>"
  let ?route = "record_eval_canary_observation (\<lambda>d. d) (admin_call ''bob'' 3) ''o'' ''k3'' ''t'' ''a'' ''d'' ''n'' [] (gate_tables [sample_active])"
  let ?db = "(gate_tables [halted 3 sample_active])\<lparr>ag_observations := [?o]\<rparr>"
  have command: "observe_command (\<lambda>d. d) (admin_call ''bob'' 3) ''o'' ''t'' ''a'' ''d'' ''n'' [] (gate_tables [sample_active]) =
      allow (\<lambda>d. d) (admin_call ''bob'' 3) ''t'' ''eval_canary_observation.create'' ''agent_deployment'' ''d''
        [(''decision'', JStr ''HALTED''), (''eval_run_id'', JStr ''n'')] (observation_json ?o) ?db"
    using failed by (simp add: observe_command_def th insert_observation_def has_key_def update_where_def Let_def)
  have "\<exists>db'. ?route = (Inr (reply_of 201 None (False, observation_json ?o)), db') \<and> agents_of db' = agents_of ?db"
    unfolding record_eval_canary_observation_def
    by (rule route_fresh [where g = "as_reply 201 None"], rule command) (simp_all add: as_reply_def)
  then show ?thesis by (auto simp: agents_of_def)
qed

text \<open>The run of the samples: a deployment is created, approved and halted, with other components at work in between.\<close>

lemma sample_run_pending: "agent_run (\<lambda>d. d) sample_unicode (\<lambda>_. []) (gate_tables []) (gate_tables [sample_pending])"
proof -
  let ?db = "snd (create_deployment (\<lambda>d. d) (admin_call ''alice'' 1) ''d'' ''k1'' None ''t'' ''a'' PRODUCTION ''r'' 100 (gate_tables []))"
  have "agents_of (gate_tables [sample_pending]) = agents_of ?db" using sample_create by auto
  from agent_run_step [OF agent_run_step [OF agent_run_refl step_create_deployment] step_other [OF this]] show ?thesis .
qed

lemma sample_step_active:
  obtains db where "db = snd (approve_deployment (\<lambda>d. d) (admin_call ''bob'' 2) ''k2'' [quote_char, CHR ''1'', quote_char] ''t'' ''a'' ''d'' (gate_tables [sample_pending]))"
    "agent_step (\<lambda>d. d) sample_unicode (\<lambda>_. []) (gate_tables [sample_pending]) db" "agents_of db = agents_of (gate_tables [sample_active])"
    "ag_deployments db = [sample_active]" "ag_runs db = [sample_run]"
proof -
  let ?db = "snd (approve_deployment (\<lambda>d. d) (admin_call ''bob'' 2) ''k2'' [quote_char, CHR ''1'', quote_char] ''t'' ''a'' ''d'' (gate_tables [sample_pending]))"
  have "agents_of ?db = agents_of (gate_tables [sample_active])" using sample_approve by auto
  then show ?thesis using that [of ?db] step_approve agents_of_eq [of ?db "gate_tables [sample_active]"] by auto
qed

theorem production_vetted_witness:
  "\<exists>db d. agent_run (\<lambda>d. d) sample_unicode (\<lambda>_. []) (gate_tables []) db \<and> ag_deployments db = [d] \<and> dp_environment d = PRODUCTION \<and>
     dp_status d = Dp_active \<and> (\<exists>who. dp_approver d = Some who \<and> who \<noteq> dp_initiator d) \<and> passed_run d (ag_runs db)"
proof -
  obtain db where step: "agent_step (\<lambda>d. d) sample_unicode (\<lambda>_. []) (gate_tables [sample_pending]) db" and ds: "ag_deployments db = [sample_active]"
    by (rule sample_step_active)
  have run: "agent_run (\<lambda>d. d) sample_unicode (\<lambda>_. []) (gate_tables []) db" by (rule agent_run_step [OF sample_run_pending step])
  show ?thesis using production_vetted [OF run, of sample_active] run ds by (intro exI [of _ db] exI [of _ sample_active]) simp
qed

theorem activation_checked_witness:
  "\<exists>db. agent_step (\<lambda>d. d) sample_unicode (\<lambda>_. []) (gate_tables [sample_pending]) db \<and> ag_deployments db = [sample_active] \<and>
     (\<exists>who. dp_approver sample_active = Some who \<and> who \<noteq> dp_initiator sample_active) \<and>
     production_eval_gate_error (dp_tenant_id sample_active) (dp_application_id sample_active) (dp_release_id sample_active) [sample_run] = None \<and>
     pointer (current_deployment (dp_tenant_id sample_active) (dp_application_id sample_active) PRODUCTION [sample_pending]) =
       (dp_previous_deployment_id sample_active, dp_previous_deployment_version sample_active)"
proof -
  obtain db where step: "agent_step (\<lambda>d. d) sample_unicode (\<lambda>_. []) (gate_tables [sample_pending]) db" and ds: "ag_deployments db = [sample_active]"
    by (rule sample_step_active)
  show ?thesis using activation_checked [OF sample_run_pending _ step, of sample_active] step ds by (intro exI [of _ db]) simp
qed


theorem halt_restores_routing_witness:
  "\<exists>db. db = snd (record_eval_canary_observation (\<lambda>d. d) (admin_call ''bob'' 3) ''o'' ''k3'' ''t'' ''a'' ''d'' ''n'' [] (gate_tables [sample_active])) \<and>
     ag_deployments db = [halted 3 sample_active] \<and> deployment_query (ag_deployments db) = deployment_query [sample_pending]"
proof -
  let ?db = "snd (record_eval_canary_observation (\<lambda>d. d) (admin_call ''bob'' 3) ''o'' ''k3'' ''t'' ''a'' ''d'' ''n'' [] (gate_tables [sample_active]))"
  have ds: "ag_deployments ?db = [halted 3 sample_active]" using sample_halt by auto
  have "sample_active \<noteq> sample_pending" "halted 3 sample_active \<noteq> sample_active"
    by (metis gate_rows(8,9) deployment_status.distinct(1)) (metis halted_status gate_rows(9) deployment_status.distinct(5))
  moreover have approved: "agents_of (gate_tables [sample_active]) =
      agents_of (snd (approve_deployment (\<lambda>d. d) (admin_call ''bob'' 2) ''k2'' [quote_char, CHR ''1'', quote_char] ''t'' ''a'' ''d'' (gate_tables [sample_pending])))"
    using sample_approve by auto
  ultimately show ?thesis
    using ds halt_restores_routing [OF sample_run_pending _ approved _ refl, of "admin_call ''bob'' 3" "''o''" "''k3''" "''n''" "[]"] by simp
qed

end
