(* ===== verification/Spec2Isabelle.thy ===== *)
theory Spec2Isabelle
  imports Execution_Bus Sessions Agent_Worker Budgets Tool_Recovery Storage_Safety Policy_Bundles LLM_Gateway
    Adaptive_Reply Reply_Delivery Channel_Inbound Deployments
begin

text \<open>
  A model of the tRPC Agent Service, a multi-tenant platform for conversational agents, and the theorems
  that make its core correct. Paths below are relative to \<open>src/trpc_service\<close>.

  \<^bold>\<open>The program.\<close> Messages enter through a channel (\<open>channels/\<close>) or directly and are submitted to the Agent
  Gateway (\<open>agent_gateway.py\<close>), which commits an execution row, its session and an Outbox record in one
  transaction. A dispatcher publishes the Outbox on the execution bus (\<open>execution_bus.py\<close>, in memory or on
  Kafka). An Agent Worker (\<open>agent_worker.py\<close>) takes an envelope, resolves the Release the deployment of the
  environment names, takes the lease of the session with a fencing token (\<open>sessions.py\<close>), calls the model
  through the LLM Gateway (\<open>llm_gateway.py\<close>, with the content scan of \<open>governance.py\<close>, the Policy Bundles of
  \<open>policy_bundles.py\<close> and the hard budgets of \<open>budgets.py\<close>), calls tools through the tool service (\<open>tool/\<close>,
  with approvals, checkpoints and reconciliation), and commits the session events with a reply that
  \<open>channels/adaptive_reply.py\<close> plans and \<open>channels/delivery.py\<close> delivers. The Admin API (\<open>admin_api/\<close>) manages
  agent applications, Drafts, Releases, evaluations, deployments, storage profiles and policies; each of its
  commands is checked for access, replayed by its idempotency key and written to the audit chain
  (\<open>audit_chain/\<close>). The storage of a tenant is routed by its profile (\<open>storage.py\<close>) and moved online
  (\<open>storage_migration.py\<close>, \<open>storage_migration_worker.py\<close>).

  \<^bold>\<open>How it is modelled.\<close> A service keeps its state in PostgreSQL tables and runs an operation in a
  transaction. A table is a list of row records in insertion order, with its keys and checks written out in
  the insert operations; an operation is a function from the tables to an error (\<open>Inl\<close>, the transaction is
  rolled back) or a result with the new tables (\<open>Inr\<close>). Where the code runs several transactions, the model
  has one function per transaction, and interleavings are either a step relation (\<open>inductive\<close>) over all the
  operations or an explicit argument for what other processes do in between. Python's \<open>int\<close> is
  \<^typ>\<open>int\<close>; a \<open>str\<close> is the list of its UTF-8 bytes, so length checks count bytes, except in the reply planning,
  which works on code points; a float is either an exact rational or a correctly rounded double, as the theory
  says. SHA-1, SHA-256, HMAC, base64, canonical JSON and UUIDs are defined over bytes and words and compute.

  \<^bold>\<open>Theories.\<close>
  \<^item> \<open>Prelude\<close>: tables, keys, updates, error results, and the lemma collections the components share.
    \<open>Py_Lib\<close>, \<open>Json_Canonical\<close>, \<open>Regex\<close>, \<open>Uuid5\<close>: what the sources use of Python's standard library; the
    canonical JSON text determines the value.
  \<^item> \<open>Execution_Bus\<close> (\<open>execution_bus.py\<close>): envelopes and their round trip, partitions, both transports, the
    consumer with its dead-letter rule, the Outbox. Order within a session and no loss; commit only after
    completion; every pending row is published.
  \<^item> \<open>Sessions\<close> (\<open>sessions.py\<close>): leases, fencing tokens and the event commit. A stale token never commits, the
    commit refines compare-and-append, a history has no gaps.
  \<^item> \<open>Agent_Worker\<close> (\<open>agent_worker.py\<close>): routing by Release and deployment, the execution processor. A message
    commits once under every interleaving; a handler that raises leaves the session as it was.
  \<^item> \<open>Agent_Gateway\<close> (\<open>agent_gateway.py\<close>), \<open>Channel_Inbound\<close> (\<open>channels/bindings.py\<close>, \<open>channels/inbound.py\<close>,
    \<open>channels/store.py\<close>, \<open>memory_access.py\<close>): a message is accepted once and leads to one execution; sessions and
    memory are isolated; the worker reads the request the gateway wrote; which forged events a signature
    admits.
  \<^item> \<open>Adaptive_Reply\<close>, \<open>Reply_Delivery\<close> (\<open>channels/adaptive_reply.py\<close>, \<open>channels/delivery.py\<close>): plans meet the limits
    of the channel and lose no visible character; a reply is sent again only after it is known to be missing,
    and a delivery ends.
  \<^item> \<open>Budgets\<close> (\<open>budgets.py\<close>): reservation, settlement, release and compensation never overdraw a limit,
    whatever becomes of a transaction.
  \<^item> \<open>Approvals\<close>, \<open>Tool_Registry\<close>, \<open>Tool_Executor\<close>, \<open>Tool_Recovery\<close> (\<open>tool/\<close>): an approval is consumed once and
    only for the call it was given for; writes need one; retries follow the side effect of the tool; an
    execution is resumed at most once per approval.
  \<^item> \<open>Audit_Chain\<close> (\<open>audit_chain/\<close>, \<open>admin_api/audit.py\<close>): the chain verifies in every reachable state, and two
    versions with one head are equal or show a hash collision.
  \<^item> \<open>Governance\<close>, \<open>Content_Scan\<close>, \<open>Policy_Bundles\<close>, \<open>LLM_Gateway\<close>: exactly when a request is let out and what it
    then contains; which policy decides; every provider call was checked and the choice of candidates ends.
  \<^item> \<open>Resilience\<close> (\<open>degradation.py\<close>, \<open>failover.py\<close>, \<open>backpressure.py\<close>): one primary at most, bounded admission.
  \<^item> \<open>Storage\<close>, \<open>Storage_Migration\<close>, \<open>Storage_Control\<close>, \<open>Storage_Safety\<close>: adapters and erasure; a migration
    converges and its evidence is sound; the resolver serves the profile the state machine names, and a target
    only after evidence and a second administrator.
  \<^item> \<open>Admin_Access\<close> (\<open>admin_api/tenant_access.py\<close>, \<open>admin_api/idempotency.py\<close>), \<open>Pagination\<close>
    (\<open>admin_api/pagination.py\<close>): role checks with audited refusals, replay of commands, and that following the
    cursors of a list returns every row once.
  \<^item> \<open>Agent_Drafts\<close> (\<open>admin_api/agents.py\<close>, \<open>admin_api/draft_validation.py\<close>, \<open>admin_api/preconditions.py\<close>),
    \<open>Eval_Gate\<close> (\<open>evals.py\<close>, \<open>admin_api/evals.py\<close>) and \<open>Deployments\<close>: all their routes. In every run a production
    deployment that left the pending state was approved by a second person and its Release passed an
    evaluation; an environment refines a stack of deployments; halting a canary restores the routing of before.

  \<^bold>\<open>Interfaces.\<close> Where the code has a protocol class with two implementations, or several operations share a
  contract, the contract is a locale and its clients are verified once: \<open>approval_store\<close> (interpreted as \<open>mem\<close>
  and \<open>dbs\<close>), \<open>bus_publisher\<close> (\<open>memory\<close>, \<open>kafka\<close>), \<open>storage_adapter\<close> (\<open>nma\<close>, \<open>rca\<close>) extended by
  \<open>online_migration_adapter\<close> (\<open>nmo\<close>), \<open>tool_registry\<close> (\<open>mreg\<close>, \<open>dreg\<close>), \<open>checkpoint_store\<close> (\<open>mcp\<close>, \<open>dcp\<close>),
  \<open>reconciliation_store\<close> (\<open>mrc\<close>, \<open>drc\<close>), \<open>delivery_store\<close> (\<open>mds\<close>, \<open>dds\<close>) and \<open>inbound_ledger\<close> (\<open>mil\<close>, \<open>dil\<close>). Every
  interpretation is on the model of the code's own store.

  \<^bold>\<open>Loops.\<close> Loops over data are structural recursions, the regular expression matcher among them. The draining
  of the bus, the attempts of a tool call and the choice of model candidates are total functions with a
  termination proof. The splitting of a reply and the delivery run, which Python writes with a condition only,
  are partial functions into an option, with theorems that they return. The walk of a client through the pages
  of a list has fuel, one step for each row and one more, which its theorem shows to be enough.

  \<^bold>\<open>Parameters.\<close> Code outside the repository is an argument: the tool backend, the model provider, the policy
  engine and the profile lookup behind the LLM Gateway (their exceptions other than the declared results are
  not modelled), channel transports and their ledgers, the Kafka client, the object store behind the archive,
  the adapter factory of migrations (a protocol without an implementation), what \<open>jsonb\<close> makes of a stored
  object, the text of a float, the Unicode tables, the engine behind mask patterns, the validation of request
  bodies by Pydantic and of endpoint URLs. Identifiers and the clock are arguments of each call. Foreign keys
  that cascade or restrict a deletion are part of the deletions.

  \<^bold>\<open>Not modelled.\<close> The Channel Gateway process with the WeCom and Feishu wire protocols, the AG-UI and A2A
  surfaces, the assembly of SDK objects in the runner, the Job Worker, artifacts, content lifecycle, knowledge,
  the sandbox, backup reports, telemetry, settings, response schemas and process wiring, the Admin API routes
  that only list rows or wrap a modelled service, the web console and the development fakes: input and output,
  third-party calls, or parts without a contract with the components above.
\<close>

end
